(* ===== verification/Prelude.thy ===== *)
theory Prelude
  imports Main "HOL-Library.AList" "HOL-Library.Signed_Division"
begin

text \<open>
  Shared ground of the development: Go's 64-bit signed integers, Go maps as association
  lists with distinct keys, and first-failure chains of checks.

  Conventions used by every theory. A Go \<^verbatim>\<open>string\<close> or \<^verbatim>\<open>[]byte\<close> is a \<^typ>\<open>string\<close>, one
  \<^typ>\<open>char\<close> per byte. A Go \<^verbatim>\<open>*T\<close> that may be nil and is only read is a \<^typ>\<open>'a option\<close>.
  A Go \<^verbatim>\<open>int\<close>, \<^verbatim>\<open>int64\<close> or \<^verbatim>\<open>time.Duration\<close> is an \<^typ>\<open>int\<close>; where the code computes with one
  and the result can leave the 64-bit range the wrap-around is written out with \<open>wrap64\<close>.
\<close>

named_theorems gomap "lookup and well-formedness facts of Go maps"
named_theorems gostr "facts about the modelled string functions"

section \<open>Machine integers\<close>

definition wrap64 :: "int \<Rightarrow> int" where
  "wrap64 x = (x + 2 ^ 63) mod 2 ^ 64 - 2 ^ 63"

definition in64 :: "int \<Rightarrow> bool" where
  "in64 x \<longleftrightarrow> - (2 ^ 63) \<le> x \<and> x < 2 ^ 63"

lemma wrap64_id [simp]: "in64 x \<Longrightarrow> wrap64 x = x"
  by (simp add: wrap64_def in64_def)

lemma in64_wrap64 [simp]: "in64 (wrap64 x)"
proof -
  have "0 \<le> (x + 2 ^ 63) mod 2 ^ 64" and "(x + 2 ^ 63) mod 2 ^ 64 < 2 ^ 64"
    by simp_all
  then show ?thesis by (simp add: wrap64_def in64_def)
qed

lemma wrap64_cong: "wrap64 x mod 2 ^ 64 = x mod 2 ^ 64"
proof -
  have "wrap64 x mod 2 ^ 64 = ((x + 2 ^ 63) - 2 ^ 63) mod 2 ^ 64"
    unfolding wrap64_def by (rule mod_diff_left_eq)
  then show ?thesis by simp
qed

text \<open>Go's remainder truncates towards zero; on a non-negative dividend it is the usual one.\<close>

lemma smod_nonneg: "0 \<le> a \<Longrightarrow> 0 < b \<Longrightarrow> a smod b = a mod (b :: int)"
  by (cases "a = 0") (simp_all add: signed_modulo_int_def sgn_if)

section \<open>Go maps\<close>

type_synonym ('k, 'v) gomap = "('k \<times> 'v) list"

abbreviation gm_get :: "('k, 'v) gomap \<Rightarrow> 'k \<Rightarrow> 'v option" where
  "gm_get m k \<equiv> map_of m k"

abbreviation gm_set :: "'k \<Rightarrow> 'v \<Rightarrow> ('k, 'v) gomap \<Rightarrow> ('k, 'v) gomap" where
  "gm_set k v m \<equiv> AList.update k v m"

abbreviation gm_del :: "'k \<Rightarrow> ('k, 'v) gomap \<Rightarrow> ('k, 'v) gomap" where
  "gm_del k m \<equiv> AList.delete k m"

definition gm_wf :: "('k, 'v) gomap \<Rightarrow> bool" where
  "gm_wf m \<longleftrightarrow> distinct (map fst m)"

text \<open>Reading an absent key of a counting map yields Go's zero value.\<close>

definition gm_count :: "('k, int) gomap \<Rightarrow> 'k \<Rightarrow> int" where
  "gm_count m k = (case map_of m k of None \<Rightarrow> 0 | Some n \<Rightarrow> n)"

lemma gm_get_set [gomap]: "gm_get (gm_set k v m) k' = (if k' = k then Some v else gm_get m k')"
  by (simp add: update_conv')

lemma gm_get_del [gomap]: "gm_get (gm_del k m) k' = (if k' = k then None else gm_get m k')"
  by (simp add: delete_conv')

lemma gm_get_filter [gomap]:
  "gm_wf m \<Longrightarrow> map_of (filter (\<lambda>(k, v). P k) m) k = (if P k then map_of m k else None)"
  by (induction m) (auto simp: gm_wf_def split: if_splits)

lemma gm_wf_Nil [gomap, simp]: "gm_wf []"
  by (simp add: gm_wf_def)

lemma gm_wf_set [gomap, simp]: "gm_wf m \<Longrightarrow> gm_wf (gm_set k v m)"
  by (simp add: gm_wf_def distinct_update)

lemma gm_wf_del [gomap, simp]: "gm_wf m \<Longrightarrow> gm_wf (gm_del k m)"
  by (simp add: gm_wf_def distinct_delete)

lemma gm_wf_filter [gomap, simp]: "gm_wf m \<Longrightarrow> gm_wf (filter P m)"
  by (induction m) (auto simp: gm_wf_def)

lemma gm_count_Nil [simp]: "gm_count [] k = 0"
  by (simp add: gm_count_def)

lemma gm_count_set [gomap, simp]:
  "gm_count (gm_set k v m) k' = (if k' = k then v else gm_count m k')"
  by (simp add: gm_count_def gm_get_set)

lemma gm_count_del [gomap, simp]:
  "gm_count (gm_del k m) k' = (if k' = k then 0 else gm_count m k')"
  by (simp add: gm_count_def gm_get_del)

section \<open>Chains of checks that stop at the first failure\<close>

fun first_error :: "'e option list \<Rightarrow> 'e option" where
  "first_error [] = None"
| "first_error (Some e # cs) = Some e"
| "first_error (None # cs) = first_error cs"

definition fail_if :: "bool \<Rightarrow> 'e \<Rightarrow> 'e option" where
  "fail_if c e = (if c then Some e else None)"

lemma fail_if_None [simp]: "fail_if c e = None \<longleftrightarrow> \<not> c"
  by (simp add: fail_if_def)

lemma fail_if_Some [simp]: "fail_if c e = Some e' \<longleftrightarrow> c \<and> e = e'"
  by (auto simp: fail_if_def)

lemma first_error_Cons:
  "first_error (c # cs) = (case c of Some e \<Rightarrow> Some e | None \<Rightarrow> first_error cs)"
  by (cases c) simp_all

lemma first_error_None [simp]: "first_error cs = None \<longleftrightarrow> (\<forall>c \<in> set cs. c = None)"
  by (induction cs rule: first_error.induct) auto

lemma first_error_Some_mem: "first_error cs = Some e \<Longrightarrow> Some e \<in> set cs"
  by (induction cs rule: first_error.induct) auto

lemma first_error_append:
  "first_error (xs @ ys) = (case first_error xs of Some e \<Rightarrow> Some e | None \<Rightarrow> first_error ys)"
  by (induction xs rule: first_error.induct) auto

text \<open>A property of every error a chain of checks can report.\<close>

definition fails_with :: "('e \<Rightarrow> bool) \<Rightarrow> 'e option \<Rightarrow> bool" where
  "fails_with P c = (case c of None \<Rightarrow> True | Some e \<Rightarrow> P e)"

lemma fails_with_fail_if [simp]: "P e \<Longrightarrow> fails_with P (fail_if c e)"
  by (simp add: fails_with_def fail_if_def)

lemma fails_with_None [simp]: "fails_with P None"
  by (simp add: fails_with_def)

lemma fails_with_first_error:
  "list_all (fails_with P) cs \<Longrightarrow> fails_with P (first_error cs)"
  by (induction cs rule: first_error.induct) (auto simp: fails_with_def)

section \<open>Lists\<close>

lemma map_filter_append: "List.map_filter f (xs @ ys) = List.map_filter f xs @ List.map_filter f ys"
  by (simp add: List.map_filter_def)

end
