(* ===== verification/GoStrings.thy ===== *)
theory GoStrings
  imports Prelude
begin

text \<open>
  The functions of Go's \<^verbatim>\<open>strings\<close>, \<^verbatim>\<open>strconv\<close> and \<^verbatim>\<open>unicode/utf8\<close> packages that the modelled
  code calls, on byte strings. They are the standard library's behaviour, not code of the
  repository, so they carry no source lines of their own.
\<close>

section \<open>Searching and cutting\<close>

definition hasPrefix :: "string \<Rightarrow> string \<Rightarrow> bool" where
  "hasPrefix s p \<longleftrightarrow> take (length p) s = p"

definition hasSuffix :: "string \<Rightarrow> string \<Rightarrow> bool" where
  "hasSuffix s p \<longleftrightarrow> length p \<le> length s \<and> drop (length s - length p) s = p"

fun indexByte :: "string \<Rightarrow> char \<Rightarrow> nat option" where
  "indexByte [] c = None"
| "indexByte (x # xs) c = (if x = c then Some 0 else map_option Suc (indexByte xs c))"

fun contains :: "string \<Rightarrow> string \<Rightarrow> bool" where
  "contains [] sub \<longleftrightarrow> sub = []"
| "contains (x # xs) sub \<longleftrightarrow> hasPrefix (x # xs) sub \<or> contains xs sub"

text \<open>\<^verbatim>\<open>strings.Cut\<close> on a one-byte separator: before, after, found.\<close>

definition cutByte :: "string \<Rightarrow> char \<Rightarrow> string \<times> string \<times> bool" where
  "cutByte s c = (case indexByte s c of
     None \<Rightarrow> (s, [], False)
   | Some i \<Rightarrow> (take i s, drop (Suc i) s, True))"

text \<open>\<^verbatim>\<open>strings.Split\<close> on a one-byte separator: never empty, \<open>n\<close> separators give \<open>n + 1\<close> parts.\<close>

fun splitByte :: "string \<Rightarrow> char \<Rightarrow> string list" where
  "splitByte [] c = [[]]"
| "splitByte (x # xs) c =
     (if x = c then [] # splitByte xs c
      else case splitByte xs c of [] \<Rightarrow> [[x]] | p # ps \<Rightarrow> (x # p) # ps)"

definition trimRightByte :: "string \<Rightarrow> char \<Rightarrow> string" where
  "trimRightByte s c = rev (dropWhile (\<lambda>x. x = c) (rev s))"

fun joinWith :: "string \<Rightarrow> string list \<Rightarrow> string" where
  "joinWith sep [] = []"
| "joinWith sep [x] = x"
| "joinWith sep (x # y # ys) = x @ sep @ joinWith sep (y # ys)"

lemma hasPrefix_append [gostr, simp]: "hasPrefix (p @ s) p"
  by (simp add: hasPrefix_def)

lemma hasPrefix_iff: "hasPrefix s p \<longleftrightarrow> (\<exists>t. s = p @ t)"
  by (metis append_eq_conv_conj append_take_drop_id hasPrefix_def)

lemma indexByte_None [gostr]: "indexByte s c = None \<longleftrightarrow> c \<notin> set s"
  by (induction s) auto

lemma indexByte_Some [gostr]:
  "indexByte s c = Some i \<longleftrightarrow> i < length s \<and> s ! i = c \<and> c \<notin> set (take i s)"
proof (induction s arbitrary: i)
  case (Cons x xs)
  then show ?case by (cases i) auto
qed simp

lemma indexByte_decomp:
  "indexByte s c = Some i \<Longrightarrow> s = take i s @ c # drop (Suc i) s \<and> c \<notin> set (take i s)"
  by (auto simp: indexByte_Some id_take_nth_drop)

lemma indexByte_append_notin:
  "c \<notin> set xs \<Longrightarrow> indexByte (xs @ c # ys) c = Some (length xs)"
  by (induction xs) auto

lemma splitByte_ne: "splitByte s c \<noteq> []"
  by (cases s) (auto split: list.splits)

lemma trimRightByte_last: "trimRightByte s c = [] \<or> last (trimRightByte s c) \<noteq> c"
proof -
  let ?d = "dropWhile (\<lambda>x. x = c) (rev s)"
  show ?thesis
  proof (cases "?d = []")
    case False
    then have "hd ?d \<noteq> c" by (rule hd_dropWhile)
    with False show ?thesis by (simp add: trimRightByte_def last_rev)
  qed (simp add: trimRightByte_def)
qed

section \<open>ASCII case\<close>

definition lowerByte :: "char \<Rightarrow> char" where
  "lowerByte c = (if 65 \<le> (of_char c :: nat) \<and> (of_char c :: nat) \<le> 90
                  then char_of ((of_char c :: nat) + 32) else c)"

definition asciiLower :: "string \<Rightarrow> string" where
  "asciiLower s = map lowerByte s"

section \<open>White space\<close>

text \<open>
  \<^verbatim>\<open>unicode.IsSpace\<close> on UTF-8 text: the six ASCII blanks and the encodings of U+0085, U+00A0,
  U+1680, U+2000 to U+200A, U+2028, U+2029, U+202F, U+205F and U+3000.
\<close>

definition space_encodings :: "string list" where
  "space_encodings =
     [[CHR 0x09], [CHR 0x0A], [CHR 0x0B], [CHR 0x0C], [CHR 0x0D], [CHR 0x20],
      [CHR 0xC2, CHR 0x85], [CHR 0xC2, CHR 0xA0], [CHR 0xE1, CHR 0x9A, CHR 0x80]]
     @ map (\<lambda>c. [CHR 0xE2, CHR 0x80, c])
         [CHR 0x80, CHR 0x81, CHR 0x82, CHR 0x83, CHR 0x84, CHR 0x85, CHR 0x86, CHR 0x87, CHR 0x88,
          CHR 0x89, CHR 0x8A, CHR 0xA8, CHR 0xA9, CHR 0xAF]
     @ [[CHR 0xE2, CHR 0x81, CHR 0x9F], [CHR 0xE3, CHR 0x80, CHR 0x80]]"

definition stripEnc :: "string list \<Rightarrow> string \<Rightarrow> string option" where
  "stripEnc encs s = (case filter (\<lambda>p. p \<noteq> [] \<and> hasPrefix s p) encs of
     [] \<Rightarrow> None | p # _ \<Rightarrow> Some (drop (length p) s))"

lemma stripEnc_shorter: "stripEnc encs s = Some t \<Longrightarrow> length t < length s"
proof -
  assume a: "stripEnc encs s = Some t"
  then obtain p ps where f: "filter (\<lambda>p. p \<noteq> [] \<and> hasPrefix s p) encs = p # ps" and t: "t = drop (length p) s"
    by (auto simp: stripEnc_def split: list.splits)
  from f have "p \<noteq> []" and "hasPrefix s p"
    by (metis (mono_tags, lifting) filter_eq_Cons_iff)+
  then show ?thesis using t by (auto simp: hasPrefix_iff)
qed

function trimEncs :: "string list \<Rightarrow> string \<Rightarrow> string" where
  "trimEncs encs s = (case stripEnc encs s of None \<Rightarrow> s | Some t \<Rightarrow> trimEncs encs t)"
  by pat_completeness auto
termination
  by (relation "measure (\<lambda>(encs, s). length s)") (auto dest: stripEnc_shorter)

declare trimEncs.simps [simp del]

definition trimSpace :: "string \<Rightarrow> string" where
  "trimSpace s = rev (trimEncs (map rev space_encodings) (rev (trimEncs space_encodings s)))"

lemma trimEncs_fixed: "stripEnc encs (trimEncs encs s) = None"
proof (induction encs s rule: trimEncs.induct)
  case (1 encs s)
  show ?case
  proof (cases "stripEnc encs s")
    case None
    then show ?thesis by (simp add: trimEncs.simps [of encs s])
  next
    case (Some t)
    with 1 show ?thesis by (simp add: trimEncs.simps [of encs s])
  qed
qed

lemma trimEncs_suffix: "\<exists>p. s = p @ trimEncs encs s"
proof (induction encs s rule: trimEncs.induct)
  case (1 encs s)
  show ?case
  proof (cases "stripEnc encs s")
    case None
    then show ?thesis by (simp add: trimEncs.simps [of encs s])
  next
    case (Some t)
    then obtain n where t: "t = drop n s"
      by (auto simp: stripEnc_def split: list.splits)
    from 1 Some obtain p where "t = p @ trimEncs encs t" by blast
    moreover have "s = take n s @ t" using t by simp
    ultimately have "s = (take n s @ p) @ trimEncs encs t" by simp
    then show ?thesis using Some by (metis option.simps(5) trimEncs.simps)
  qed
qed

lemma length_trimSpace: "length (trimSpace s) \<le> length s"
proof -
  obtain p q where "s = p @ trimEncs space_encodings s"
    and "rev (trimEncs space_encodings s) =
         q @ trimEncs (map rev space_encodings) (rev (trimEncs space_encodings s))"
    using trimEncs_suffix by metis
  then show ?thesis unfolding trimSpace_def
    by (metis le_add2 length_append length_rev order_trans)
qed

section \<open>Decimal numbers\<close>

definition digitChar :: "nat \<Rightarrow> char" where
  "digitChar d = char_of (48 + d)"

definition digitVal :: "char \<Rightarrow> nat option" where
  "digitVal c = (let n = of_char c in if 48 \<le> n \<and> n \<le> 57 then Some (n - 48) else None)"

fun decNat :: "nat \<Rightarrow> string" where
  "decNat n = (if n < 10 then [digitChar n] else decNat (n div 10) @ [digitChar (n mod 10)])"

declare decNat.simps [simp del]

definition itoa :: "int \<Rightarrow> string" where
  "itoa i = (if i < 0 then CHR ''-'' # decNat (nat (- i)) else decNat (nat i))"

fun parseNatAcc :: "nat \<Rightarrow> string \<Rightarrow> nat option" where
  "parseNatAcc acc [] = Some acc"
| "parseNatAcc acc (c # cs) = (case digitVal c of
     None \<Rightarrow> None | Some d \<Rightarrow> parseNatAcc (10 * acc + d) cs)"

definition parseNat :: "string \<Rightarrow> nat option" where
  "parseNat s = (if s = [] then None else parseNatAcc 0 s)"

text \<open>
  \<^verbatim>\<open>strconv.Atoi\<close>: an optional sign and decimal digits, \<^verbatim>\<open>None\<close> for a syntax error and for a
  value outside 64 bits.
\<close>

definition atoi :: "string \<Rightarrow> int option" where
  "atoi s =
     (let (neg, ds) = (case s of [] \<Rightarrow> (False, [])
                       | c # cs \<Rightarrow> if c = CHR ''-'' then (True, cs)
                                  else if c = CHR ''+'' then (False, cs) else (False, s))
      in case parseNat ds of
           None \<Rightarrow> None
         | Some n \<Rightarrow> let v = (if neg then - int n else int n) in
                     if in64 v then Some v else None)"

lemma digitVal_digitChar [simp]: "d < 10 \<Longrightarrow> digitVal (digitChar d) = Some d"
  by (simp add: digitVal_def digitChar_def Let_def)

lemma parseNatAcc_append:
  "parseNatAcc acc (xs @ ys) = Option.bind (parseNatAcc acc xs) (\<lambda>a. parseNatAcc a ys)"
  by (induction xs arbitrary: acc) (auto split: option.splits)

lemma parseNatAcc_decNat: "parseNatAcc 0 (decNat n) = Some n"
proof (induction n rule: decNat.induct)
  case (1 n)
  show ?case
  proof (cases "n < 10")
    case True
    then show ?thesis by (simp add: decNat.simps [of n])
  next
    case False
    with 1 have "parseNatAcc 0 (decNat (n div 10)) = Some (n div 10)" by simp
    with False show ?thesis
      by (simp add: decNat.simps [of n] parseNatAcc_append)
  qed
qed

lemma decNat_ne [simp]: "decNat n \<noteq> []"
  by (subst decNat.simps) simp

lemma parseNat_decNat [simp]: "parseNat (decNat n) = Some n"
  by (simp add: parseNat_def parseNatAcc_decNat)

lemma decNat_inject [simp]: "decNat a = decNat b \<longleftrightarrow> a = b"
  by (metis option.inject parseNat_decNat)

lemma digitVal_minus [simp]: "digitVal (CHR ''-'') = None" "digitVal (CHR ''+'') = None"
  by (simp_all add: digitVal_def Let_def)

lemma set_decNat: "c \<in> set (decNat n) \<Longrightarrow> digitVal c \<noteq> None"
  by (induction n rule: decNat.induct) (subst (asm) (2) decNat.simps, auto split: if_splits)

lemma hd_decNat: "digitVal (hd (decNat n)) \<noteq> None"
  using set_decNat [of "hd (decNat n)" n] by simp

lemma itoa_inject [simp]: "itoa a = itoa b \<longleftrightarrow> a = b"
proof
  assume eq: "itoa a = itoa b"
  have m: "CHR ''-'' # xs \<noteq> decNat n" for xs n
    using hd_decNat [of n] by (metis digitVal_minus(1) list.sel(1))
  show "a = b"
  proof (cases "a < 0"; cases "b < 0")
    assume "a < 0" "b < 0"
    with eq show ?thesis by (simp add: itoa_def)
  next
    assume "a < 0" "\<not> b < 0"
    with eq m [of "decNat (nat (- a))" "nat b"] show ?thesis by (simp add: itoa_def)
  next
    assume "\<not> a < 0" "b < 0"
    with eq m [of "decNat (nat (- b))" "nat a"] show ?thesis
      by (simp add: itoa_def)
  next
    assume "\<not> a < 0" "\<not> b < 0"
    with eq show ?thesis by (simp add: itoa_def)
  qed
qed simp

lemma atoi_itoa: "in64 i \<Longrightarrow> atoi (itoa i) = Some i"
proof (cases "i < 0")
  case True
  assume "in64 i"
  with True show ?thesis by (simp add: itoa_def atoi_def)
next
  case False
  assume r: "in64 i"
  obtain c cs where d: "decNat (nat i) = c # cs" by (meson decNat_ne list.exhaust)
  with hd_decNat [of "nat i"] have "c \<noteq> CHR ''-''" "c \<noteq> CHR ''+''" by auto
  moreover have "parseNat (c # cs) = Some (nat i)" using d parseNat_decNat by metis
  ultimately show ?thesis using False r d by (simp add: itoa_def atoi_def)
qed

text \<open>No decimal rendering holds a control byte; the separator arguments rest on it.\<close>

lemma decNat_no_nul [simp]: "CHR 0x00 \<notin> set (decNat n)"
  using set_decNat [of "CHR 0x00" n] by (auto simp: digitVal_def Let_def)

lemma itoa_no_nul [simp]: "CHR 0x00 \<notin> set (itoa i)"
  by (simp add: itoa_def)

end
