(* ===== verification/PathMatch.thy ===== *)
theory PathMatch
  imports GoStrings
begin

text \<open>
  Go's \<^verbatim>\<open>path.Match\<close>, which every model gate of the proxy calls: \<open>*\<close> matches a run of bytes
  without \<open>/\<close>, \<open>?\<close> one character that is not \<open>/\<close>, \<open>[...]\<close> a character class, a backslash
  quotes the next character, and a malformed pattern is an error. The functions follow
  the standard library: a pattern is consumed in chunks, each an optional run of stars and
  the text up to the next star outside a class. Characters are UTF-8 sequences where the
  library decodes runes.
\<close>

section \<open>Runes\<close>

text \<open>
  \<^verbatim>\<open>utf8.DecodeRuneInString\<close>: the code point and its width in bytes. An invalid or cut
  sequence decodes as U+FFFD of width 1.
\<close>

definition runeError :: nat where
  "runeError = 0xFFFD"

definition contByte :: "char \<Rightarrow> bool" where
  "contByte c \<longleftrightarrow> 0x80 \<le> (of_char c :: nat) \<and> (of_char c :: nat) \<le> 0xBF"

definition contBits :: "char \<Rightarrow> nat" where
  "contBits c = of_char c - 0x80"

definition decodeRune :: "string \<Rightarrow> nat \<times> nat" where
  "decodeRune s = (case s of [] \<Rightarrow> (runeError, 0) | c # cs \<Rightarrow>
     let b = of_char c :: nat in
     if b < 0x80 then (b, 1)
     else if 0xC2 \<le> b \<and> b \<le> 0xDF then
       (case cs of c1 # _ \<Rightarrow>
          if contByte c1 then ((b - 0xC0) * 64 + contBits c1, 2) else (runeError, 1)
        | _ \<Rightarrow> (runeError, 1))
     else if 0xE0 \<le> b \<and> b \<le> 0xEF then
       (case cs of c1 # c2 # _ \<Rightarrow>
          let lo = (if b = 0xE0 then 0xA0 else 0x80); hi = (if b = 0xED then 0x9F else 0xBF) in
          if lo \<le> (of_char c1 :: nat) \<and> (of_char c1 :: nat) \<le> hi \<and> contByte c2
          then ((b - 0xE0) * 4096 + contBits c1 * 64 + contBits c2, 3) else (runeError, 1)
        | _ \<Rightarrow> (runeError, 1))
     else if 0xF0 \<le> b \<and> b \<le> 0xF4 then
       (case cs of c1 # c2 # c3 # _ \<Rightarrow>
          let lo = (if b = 0xF0 then 0x90 else 0x80); hi = (if b = 0xF4 then 0x8F else 0xBF) in
          if lo \<le> (of_char c1 :: nat) \<and> (of_char c1 :: nat) \<le> hi \<and> contByte c2 \<and> contByte c3
          then ((b - 0xF0) * 262144 + contBits c1 * 4096 + contBits c2 * 64 + contBits c3, 4)
          else (runeError, 1)
        | _ \<Rightarrow> (runeError, 1))
     else (runeError, 1))"

lemma decodeRune_width: "s \<noteq> [] \<Longrightarrow> 0 < snd (decodeRune s)"
  by (cases s) (simp_all add: decodeRune_def Let_def split: list.splits)

lemma decodeRune_width_le: "snd (decodeRune s) \<le> length s"
  by (cases s) (simp_all add: decodeRune_def Let_def split: list.splits)

section \<open>Chunks\<close>

text \<open>\<^verbatim>\<open>scanChunk\<close>: the length of the text before the first star outside a class.\<close>

fun scanLen :: "bool \<Rightarrow> string \<Rightarrow> nat" where
  "scanLen inrange [] = 0"
| "scanLen inrange (c # cs) =
     (if c = CHR 0x5C then (case cs of [] \<Rightarrow> 1 | _ # cs' \<Rightarrow> 2 + scanLen inrange cs')
      else if c = CHR ''['' then 1 + scanLen True cs
      else if c = CHR '']'' then 1 + scanLen False cs
      else if c = CHR ''*'' \<and> \<not> inrange then 0
      else 1 + scanLen inrange cs)"

definition scanChunk :: "string \<Rightarrow> bool \<times> string \<times> string" where
  "scanChunk pat =
     (let p = dropWhile (\<lambda>c. c = CHR ''*'') pat; n = scanLen False p
      in (p \<noteq> pat, take n p, drop n p))"

lemma scanLen_pos: "cs \<noteq> [] \<Longrightarrow> hd cs \<noteq> CHR ''*'' \<Longrightarrow> 0 < scanLen False cs"
  by (cases cs) (auto split: list.splits)

lemma scanChunk_shorter:
  assumes "pat \<noteq> []" and "scanChunk pat = (star, chunk, rest)"
  shows "length rest < length pat"
proof -
  let ?p = "dropWhile (\<lambda>c. c = CHR ''*'') pat"
  have le: "length ?p \<le> length pat" by (simp add: length_dropWhile_le)
  have rest: "rest = drop (scanLen False ?p) ?p"
    using assms(2) by (auto simp: scanChunk_def Let_def)
  show ?thesis
  proof (cases "?p = []")
    case True
    with rest assms(1) show ?thesis by simp
  next
    case False
    then have "hd ?p \<noteq> CHR ''*''" by (rule hd_dropWhile)
    with False have "0 < scanLen False ?p" by (rule scanLen_pos)
    with False have "length ?p - scanLen False ?p < length ?p"
      by (metis diff_less length_greater_0_conv)
    with le have "length ?p - scanLen False ?p < length pat" by linarith
    with rest show ?thesis by (simp only: length_drop)
  qed
qed

text \<open>
  \<^verbatim>\<open>getEsc\<close>: one possibly quoted character of a class, as rune and rest; \<open>None\<close> is
  \<^verbatim>\<open>path.ErrBadPattern\<close>.
\<close>

definition getEsc :: "string \<Rightarrow> (nat \<times> string) option" where
  "getEsc chunk =
     (if chunk = [] \<or> hd chunk = CHR ''-'' \<or> hd chunk = CHR '']'' then None
      else let chunk = (if hd chunk = CHR 0x5C then tl chunk else chunk) in
        if chunk = [] then None
        else let (r, n) = decodeRune chunk; rest = drop n chunk in
          if r = runeError \<and> n = 1 then None
          else if rest = [] then None else Some (r, rest))"

lemma getEsc_shorter: "getEsc chunk = Some (r, rest) \<Longrightarrow> length rest < length chunk"
proof -
  assume a: "getEsc chunk = Some (r, rest)"
  define ch where "ch = (if hd chunk = CHR 0x5C then tl chunk else chunk)"
  from a have "chunk \<noteq> []" "ch \<noteq> []" "rest = drop (snd (decodeRune ch)) ch"
    by (auto simp: getEsc_def Let_def ch_def split: if_splits prod.splits)
  moreover have "length ch \<le> length chunk" by (auto simp: ch_def)
  moreover have "length ch - snd (decodeRune ch) < length ch"
    using \<open>ch \<noteq> []\<close> decodeRune_width [of ch] by simp
  ultimately show ?thesis by simp
qed

text \<open>The loop of \<^verbatim>\<open>matchChunk\<close> over the ranges of a character class.\<close>

function classLoop :: "string \<Rightarrow> nat \<Rightarrow> nat \<Rightarrow> bool \<Rightarrow> (bool \<times> string) option" where
  "classLoop chunk r nrange hit =
     (if chunk \<noteq> [] \<and> hd chunk = CHR '']'' \<and> 0 < nrange then Some (hit, tl chunk)
      else case getEsc chunk of
          None \<Rightarrow> None
        | Some (lo, c1) \<Rightarrow>
            if hd c1 = CHR ''-'' then
              (case getEsc (tl c1) of
                 None \<Rightarrow> None
               | Some (hi, c2) \<Rightarrow> classLoop c2 r (Suc nrange) (hit \<or> (lo \<le> r \<and> r \<le> hi)))
            else classLoop c1 r (Suc nrange) (hit \<or> (lo \<le> r \<and> r \<le> lo)))"
  by pat_completeness auto
termination
  by (relation "measure (\<lambda>(chunk, r, n, h). length chunk)")
     (auto dest!: getEsc_shorter simp: less_le_trans)

declare classLoop.simps [simp del]

lemma classLoop_shorter: "classLoop chunk r n h = Some (m, rest) \<Longrightarrow> length rest < length chunk"
proof (induction chunk r n h rule: classLoop.induct)
  case (1 chunk r nrange hit)
  show ?case
  proof (cases "chunk \<noteq> [] \<and> hd chunk = CHR '']'' \<and> 0 < nrange")
    case True
    with 1(3) show ?thesis by (auto simp: classLoop.simps [of chunk])
  next
    case no: False
    then obtain lo c1 where g: "getEsc chunk = Some (lo, c1)"
      using 1(3) by (subst (asm) classLoop.simps) (auto split: option.splits)
    have l1: "length c1 < length chunk" using g by (rule getEsc_shorter)
    show ?thesis
    proof (cases "hd c1 = CHR ''-''")
      case True
      then obtain hi c2 where g2: "getEsc (tl c1) = Some (hi, c2)"
        using 1(3) no g by (subst (asm) classLoop.simps) (auto split: option.splits)
      have "length c2 < length chunk"
        using getEsc_shorter [OF g2] l1 by simp
      moreover have "length rest < length c2"
        using 1(1) [OF no g refl True g2 refl] 1(3) no g True g2
        by (subst (asm) (2) classLoop.simps) simp
      ultimately show ?thesis by simp
    next
      case False
      then have "length rest < length c1"
        using 1(2) [OF no g refl False] 1(3) no g by (subst (asm) (2) classLoop.simps) simp
      with l1 show ?thesis by simp
    qed
  qed
qed

text \<open>
  \<^verbatim>\<open>matchChunk\<close>: the outer option is the error, the inner one the rest of the name when the
  chunk matches its prefix. After a mismatch (\<open>failed\<close>) the pattern is still checked.
\<close>

function matchChunkAux :: "string \<Rightarrow> string \<Rightarrow> bool \<Rightarrow> string option option" where
  "matchChunkAux chunk s failed =
     (if chunk = [] then Some (if failed then None else Some s)
      else
        let failed = (failed \<or> s = []) in
        if hd chunk = CHR ''['' then
          let (r, s') = (if failed then (0, s)
                         else let (r, n) = decodeRune s in (r, drop n s));
              chunk1 = tl chunk;
              negated = (chunk1 \<noteq> [] \<and> hd chunk1 = CHR ''^'');
              chunk2 = (if negated then tl chunk1 else chunk1) in
          (case classLoop chunk2 r 0 False of
             None \<Rightarrow> None
           | Some (hit, chunk3) \<Rightarrow> matchChunkAux chunk3 s' (failed \<or> hit = negated))
        else if hd chunk = CHR ''?'' then
          (if failed then matchChunkAux (tl chunk) s True
           else matchChunkAux (tl chunk) (drop (snd (decodeRune s)) s) (hd s = CHR ''/''))
        else if hd chunk = CHR 0x5C \<and> tl chunk = [] then None
        else
          let chunk1 = (if hd chunk = CHR 0x5C then tl chunk else chunk) in
          (if failed then matchChunkAux (tl chunk1) s True
           else matchChunkAux (tl chunk1) (tl s) (hd chunk1 \<noteq> hd s)))"
  by pat_completeness auto
termination
proof (relation "measure (\<lambda>(chunk, s, f). length chunk)", goal_cases)
  case (2 chunk s failed x p r s' c1 neg c2 y hit c3)
  then have "length c3 < length c2" by (auto dest: classLoop_shorter)
  moreover have "length c2 \<le> length c1" using 2 by auto
  ultimately show ?case using 2 by simp
qed auto

declare matchChunkAux.simps [simp del]

definition matchChunk :: "string \<Rightarrow> string \<Rightarrow> string option option" where
  "matchChunk chunk s = matchChunkAux chunk s False"

section \<open>The matcher\<close>

text \<open>After a mismatch the remaining chunks are only checked for syntax.\<close>

function checkRest :: "string \<Rightarrow> bool option" where
  "checkRest pat =
     (if pat = [] then Some False
      else let (star, chunk, rest) = scanChunk pat in
        case matchChunk chunk [] of None \<Rightarrow> None | Some _ \<Rightarrow> checkRest rest)"
  by pat_completeness auto
termination
  by (relation "measure length") (auto dest: scanChunk_shorter [OF _ sym])

declare checkRest.simps [simp del]

text \<open>
  The inner loop of a star: skip one more byte that is not \<open>/\<close> until the chunk matches
  (the last chunk has to exhaust the name). \<open>Some (Some t)\<close> continues with \<open>t\<close>.
\<close>

fun skipLoop :: "string \<Rightarrow> bool \<Rightarrow> string \<Rightarrow> string option option" where
  "skipLoop chunk lastc [] = Some None"
| "skipLoop chunk lastc (c # cs) =
     (if c = CHR ''/'' then Some None
      else case matchChunk chunk cs of
          None \<Rightarrow> None
        | Some (Some t) \<Rightarrow> if lastc \<and> t \<noteq> [] then skipLoop chunk lastc cs else Some (Some t)
        | Some None \<Rightarrow> skipLoop chunk lastc cs)"

function pathMatch :: "string \<Rightarrow> string \<Rightarrow> bool option" where
  "pathMatch pat name =
     (if pat = [] then Some (name = [])
      else let (star, chunk, rest) = scanChunk pat in
        if star \<and> chunk = [] then Some (CHR ''/'' \<notin> set name)
        else case matchChunk chunk name of
            None \<Rightarrow> None
          | Some (Some t) \<Rightarrow>
              if t = [] \<or> rest \<noteq> [] then pathMatch rest t
              else if star then
                (case skipLoop chunk (rest = []) name of
                   None \<Rightarrow> None | Some (Some u) \<Rightarrow> pathMatch rest u | Some None \<Rightarrow> checkRest rest)
              else checkRest rest
          | Some None \<Rightarrow>
              if star then
                (case skipLoop chunk (rest = []) name of
                   None \<Rightarrow> None | Some (Some u) \<Rightarrow> pathMatch rest u | Some None \<Rightarrow> checkRest rest)
              else checkRest rest)"
  by pat_completeness auto
termination
  by (relation "measure (\<lambda>(pat, name). length pat)") (auto dest: scanChunk_shorter [OF _ sym])

declare pathMatch.simps [simp del]

end
