(* ===== verification/ProxyConfig.thy ===== *)
theory ProxyConfig
  imports PathMatch "HOL-Library.Char_ord" "HOL-Library.List_Lexorder"
begin

text \<open>
  The configuration document and its immutable snapshot (\<^verbatim>\<open>internal/config/file.go\<close>): the typed
  document, its validation in the code's order, the resolution into a \<^verbatim>\<open>Runtime\<close> with defaults,
  the accessors a request reads, and the environment interpolation that precedes parsing.

  Go's \<^verbatim>\<open>net/url\<close> parser is a parameter (\<open>go_url\<close>): the code only reads the fields of what it
  returns. YAML decoding is a parameter of the store theory.
\<close>

section \<open>URLs, as the code reads them\<close>

record url =
  url_scheme :: string
  url_user :: "(string \<times> string option) option"
  url_host :: string
  url_path :: string
  url_raw_query :: string
  url_fragment :: string

text \<open>
  \<open>gu_parse\<close> is \<^verbatim>\<open>url.Parse\<close> (\<^verbatim>\<open>Inl\<close> is the unwrapped reason), \<open>gu_string\<close> is \<^verbatim>\<open>URL.String\<close> and
  \<open>gu_resolve\<close> is \<^verbatim>\<open>URL.Parse\<close>, which resolves a reference against a base.
\<close>

record go_url =
  gu_parse :: "string \<Rightarrow> string + url"
  gu_string :: "url \<Rightarrow> string"
  gu_resolve :: "url \<Rightarrow> string \<Rightarrow> string + url"

section \<open>The document\<close>

definition ProxyHTTP :: string where
  "ProxyHTTP = ''http''"

definition ProxyHTTPS :: string where
  "ProxyHTTPS = ''https''"

definition ProxySOCKS5 :: string where
  "ProxySOCKS5 = ''socks5''"

definition StrategyRoundRobin :: string where
  "StrategyRoundRobin = ''round_robin''"

definition StrategyWeightedRR :: string where
  "StrategyWeightedRR = ''weighted_round_robin''"

definition defaultWeight :: int where
  "defaultWeight = 1"

definition defaultMaxAttempts :: int where
  "defaultMaxAttempts = 3"

definition defaultHealthThreshold :: int where
  "defaultHealthThreshold = 3"

definition second :: int where
  "second = 1000000000"

definition millisecond :: int where
  "millisecond = 1000000"

definition defaultHealthCooldown :: int where
  "defaultHealthCooldown = 30 * second"

definition UAStyleV1 :: string where
  "UAStyleV1 = ''v1''"

definition UAStyleV2 :: string where
  "UAStyleV2 = ''v2''"

definition UpstreamBase_default :: string where
  "UpstreamBase_default = ''https://opencode.ai''"

definition DefaultLogLevel :: string where
  "DefaultLogLevel = ''info''"

definition UASyncInterval_default :: int where
  "UASyncInterval_default = 3600 * second"

record proxy =
  p_type :: string
  p_url :: string

record egress =
  e_id :: string
  e_proxy :: "proxy option"
  e_enabled :: "bool option"
  e_weight :: "int option"
  e_max_concurrency :: int
  e_models :: "string list"
  e_streaming :: "bool option"
  e_max_body_bytes :: int

record route_match =
  m_streaming :: "bool option"
  m_min_body_bytes :: int
  m_max_body_bytes :: int
  m_models :: "string list"

record route =
  r_id :: string
  r_priority :: int
  r_match :: route_match
  r_egress :: "string list"
  r_strategy :: string

record fallback_policy =
  fb_enabled :: "bool option"
  fb_max_attempts :: int

record health_policy =
  hc_enabled :: "bool option"
  hc_failure_threshold :: "int option"
  hc_cooldown :: "int option"

record upstream_config =
  uc_base :: string

record user_agent_config =
  ua_sync_interval :: "int option"
  ua_style :: string

record cfg_file =
  f_log_level :: string
  f_egress :: "egress list"
  f_routes :: "route list"
  f_fallback :: fallback_policy
  f_health :: health_policy
  f_upstream :: upstream_config
  f_user_agent :: user_agent_config

record runtime =
  rt_file :: cfg_file
  rt_by_id :: "(string, egress) gomap"
  rt_routes :: "route list"
  rt_fallback :: fallback_policy
  rt_health :: health_policy
  rt_direct :: bool
  rt_generation :: nat
  rt_log_level :: string
  rt_upstream_base :: string
  rt_ua_sync_interval :: int
  rt_ua_style :: string

section \<open>Egress accessors\<close>

definition IsEnabled :: "egress \<Rightarrow> bool" where
  "IsEnabled e = (case e_enabled e of None \<Rightarrow> True | Some b \<Rightarrow> b)"

definition AcceptsStreaming :: "egress \<Rightarrow> bool" where
  "AcceptsStreaming e = (case e_streaming e of None \<Rightarrow> True | Some b \<Rightarrow> b)"

definition EffectiveWeight :: "egress \<Rightarrow> int" where
  "EffectiveWeight e = (case e_weight e of None \<Rightarrow> defaultWeight | Some w \<Rightarrow> w)"

definition TransportSignature :: "egress \<Rightarrow> string" where
  "TransportSignature e = (case e_proxy e of
     None \<Rightarrow> ''direct''
   | Some p \<Rightarrow> p_type p @ '':'' @ p_url p)"

definition HealthKey :: "egress \<Rightarrow> string" where
  "HealthKey e = e_id e @ [CHR 0x00] @ TransportSignature e"

fun hasControlByte :: "string \<Rightarrow> bool" where
  "hasControlByte [] = False"
| "hasControlByte (c # cs) =
     ((of_char c :: nat) < 0x20 \<or> (of_char c :: nat) = 0x7F \<or> hasControlByte cs)"

section \<open>Matching\<close>

definition globMatch :: "string \<Rightarrow> string \<Rightarrow> bool" where
  "globMatch pattern model = (if pattern = model then True else pathMatch pattern model = Some True)"

definition matchHolds :: "route_match \<Rightarrow> bool \<Rightarrow> int \<Rightarrow> string \<Rightarrow> bool" where
  "matchHolds m streaming bodyBytes model =
     (if (case m_streaming m of None \<Rightarrow> False | Some b \<Rightarrow> b \<noteq> streaming) then False
      else if m_min_body_bytes m > 0 \<and> bodyBytes < m_min_body_bytes m then False
      else if m_max_body_bytes m > 0 \<and> bodyBytes > m_max_body_bytes m then False
      else list_all (\<lambda>pat. globMatch pat model) (m_models m))"

section \<open>Bounded echoes\<close>

definition boundedEcho :: "string \<Rightarrow> string" where
  "boundedEcho s = (if length s \<le> 10 then s else take 7 s @ ''...'')"

function stripQuoted :: "string \<Rightarrow> string" where
  "stripQuoted s = (case indexByte s (CHR 0x22) of
     None \<Rightarrow> s
   | Some i \<Rightarrow> (case indexByte (drop (Suc i) s) (CHR 0x22) of
        None \<Rightarrow> take i s
      | Some j \<Rightarrow> take i s @ stripQuoted (drop (Suc j) (drop (Suc i) s))))"
  by pat_completeness auto
termination
  by (relation "measure length") (auto simp: indexByte_Some)

declare stripQuoted.simps [simp del]

definition RedactProxyURL :: "go_url \<Rightarrow> string \<Rightarrow> string" where
  "RedactProxyURL gu raw = (case gu_parse gu raw of
     Inl _ \<Rightarrow> ''<invalid proxy url>''
   | Inr u \<Rightarrow> if url_host u = [] then ''<invalid proxy url>''
              else gu_string gu (u\<lparr>url_user := None\<rparr>))"

section \<open>Validation\<close>

text \<open>One constructor per failing check; the strings are what the message echoes.\<close>

datatype cfg_error =
    ENoEgress | ENoRoutes
  | EEgressId nat | EEgressCtl nat | EEgressDup string | EEgressWeight string | EEgressConc string
  | EEgressBody string | EEgressPattern string string
  | EProxyTypeSocks5h string | EProxyType string string | EProxyUrlRequired string
  | EProxyUrlMalformed string string | EProxyScheme string string string | EProxyNoHost string string
  | ERouteId nat | ERouteCtl nat | ERouteDup string | ERouteStrategy string string | ERouteEmpty string
  | ERouteMinBody string | ERouteMaxBody string | ERouteMinMax string int int
  | ERoutePattern string string | ERouteUnknownEgress string string "string list"
  | ERouteRepeated string string | ERouteNoWeight string
  | EFallbackAttempts | EHealthThreshold | EHealthCooldown
  | EBaseMalformed string | EBaseScheme string | EBaseHost | EBaseUser | EBaseQuery
  | ELogLevel string | ESyncInterval | EStyle string

definition validateProxy :: "go_url \<Rightarrow> string \<Rightarrow> proxy \<Rightarrow> cfg_error option" where
  "validateProxy gu eid p =
     (if p_type p \<notin> {ProxyHTTP, ProxyHTTPS, ProxySOCKS5} then
        (if p_type p = ''socks5h'' then Some (EProxyTypeSocks5h eid)
         else Some (EProxyType eid (boundedEcho (p_type p))))
      else if p_url p = [] then Some (EProxyUrlRequired eid)
      else case gu_parse gu (p_url p) of
        Inl reason \<Rightarrow> Some (EProxyUrlMalformed eid reason)
      | Inr u \<Rightarrow>
          if \<not> (url_scheme u = p_type p \<or> p_type p = ProxySOCKS5 \<and> url_scheme u = ''socks5h'') then
            Some (EProxyScheme eid (boundedEcho (RedactProxyURL gu (p_url p))) (p_type p))
          else if url_host u = [] then
            Some (EProxyNoHost eid (boundedEcho (RedactProxyURL gu (p_url p))))
          else None)"

text \<open>One turn of the egress loop, given the ids already seen.\<close>

definition validateEgress :: "go_url \<Rightarrow> nat \<Rightarrow> string list \<Rightarrow> egress \<Rightarrow> cfg_error option" where
  "validateEgress gu i seen e =
     (let eid = boundedEcho (e_id e) in
      first_error
       ([fail_if (trimSpace (e_id e) = []) (EEgressId i),
         fail_if (hasControlByte (e_id e)) (EEgressCtl i),
         fail_if (e_id e \<in> set seen) (EEgressDup eid),
         fail_if (case e_weight e of None \<Rightarrow> False | Some w \<Rightarrow> w < 0) (EEgressWeight eid),
         fail_if (e_max_concurrency e < 0) (EEgressConc eid),
         fail_if (e_max_body_bytes e < 0) (EEgressBody eid)]
        @ map (\<lambda>pat. fail_if (pathMatch pat [] = None) (EEgressPattern eid (boundedEcho pat))) (e_models e)
        @ [case e_proxy e of None \<Rightarrow> None | Some p \<Rightarrow> validateProxy gu eid p]))"

fun validateEgresses :: "go_url \<Rightarrow> nat \<Rightarrow> string list \<Rightarrow> egress list \<Rightarrow> cfg_error + string list" where
  "validateEgresses gu i seen [] = Inr seen"
| "validateEgresses gu i seen (e # es) = (case validateEgress gu i seen e of
     Some err \<Rightarrow> Inl err
   | None \<Rightarrow> validateEgresses gu (Suc i) (e_id e # seen) es)"

fun indexByID :: "egress list \<Rightarrow> string \<Rightarrow> int" where
  "indexByID [] i = -1"
| "indexByID (e # es) i = (if e_id e = i then 0
     else let j = indexByID es i in if j < 0 then -1 else j + 1)"

definition weightOf :: "egress \<Rightarrow> int" where
  "weightOf e = EffectiveWeight e"

text \<open>The reference loop of one route: unknown ids and repeated ids.\<close>

fun validateRefs :: "string \<Rightarrow> string list \<Rightarrow> string list \<Rightarrow> string list \<Rightarrow> string list \<Rightarrow> cfg_error option" where
  "validateRefs rid ids seen refSeen [] = None"
| "validateRefs rid ids seen refSeen (ref # refs) =
     (if ref \<notin> set seen then Some (ERouteUnknownEgress rid (boundedEcho ref) ids)
      else if ref \<in> set refSeen then Some (ERouteRepeated rid (boundedEcho ref))
      else validateRefs rid ids seen (ref # refSeen) refs)"

definition validateRoute ::
  "egress list \<Rightarrow> string list \<Rightarrow> string list \<Rightarrow> nat \<Rightarrow> string list \<Rightarrow> route \<Rightarrow> cfg_error option" where
  "validateRoute egs ids seen i routeSeen r =
     (let rid = boundedEcho (r_id r); m = r_match r in
      first_error
       ([fail_if (trimSpace (r_id r) = []) (ERouteId i),
         fail_if (hasControlByte (r_id r)) (ERouteCtl i),
         fail_if (r_id r \<in> set routeSeen) (ERouteDup rid),
         fail_if (r_strategy r \<notin> {[], StrategyRoundRobin, StrategyWeightedRR})
                 (ERouteStrategy rid (boundedEcho (r_strategy r))),
         fail_if (r_egress r = []) (ERouteEmpty rid),
         fail_if (m_min_body_bytes m < 0) (ERouteMinBody rid),
         fail_if (m_max_body_bytes m < 0) (ERouteMaxBody rid),
         fail_if (m_min_body_bytes m > 0 \<and> m_max_body_bytes m > 0 \<and> m_min_body_bytes m > m_max_body_bytes m)
                 (ERouteMinMax rid (m_min_body_bytes m) (m_max_body_bytes m))]
        @ map (\<lambda>pat. fail_if (pathMatch pat [] = None) (ERoutePattern rid (boundedEcho pat))) (m_models m)
        @ [validateRefs rid ids seen [] (r_egress r),
           fail_if (r_strategy r = StrategyWeightedRR
                    \<and> \<not> list_ex (\<lambda>ref. weightOf (egs ! nat (indexByID egs ref)) > 0) (r_egress r))
                   (ERouteNoWeight rid)]))"

fun validateRoutes ::
  "egress list \<Rightarrow> string list \<Rightarrow> string list \<Rightarrow> nat \<Rightarrow> string list \<Rightarrow> route list \<Rightarrow> cfg_error option" where
  "validateRoutes egs ids seen i routeSeen [] = None"
| "validateRoutes egs ids seen i routeSeen (r # rs) = (case validateRoute egs ids seen i routeSeen r of
     Some err \<Rightarrow> Some err
   | None \<Rightarrow> validateRoutes egs ids seen (Suc i) (r_id r # routeSeen) rs)"

definition validateBase :: "go_url \<Rightarrow> string \<Rightarrow> cfg_error option" where
  "validateBase gu base =
     (if base = [] then None
      else case gu_parse gu base of
        Inl reason \<Rightarrow> Some (EBaseMalformed reason)
      | Inr u \<Rightarrow> first_error
          [fail_if (url_scheme u \<noteq> ''http'' \<and> url_scheme u \<noteq> ''https'') (EBaseScheme (boundedEcho (url_scheme u))),
           fail_if (url_host u = []) EBaseHost,
           fail_if (url_user u \<noteq> None) EBaseUser,
           fail_if (url_raw_query u \<noteq> [] \<or> url_fragment u \<noteq> []) EBaseQuery])"

definition negative :: "int option \<Rightarrow> bool" where
  "negative v = (case v of None \<Rightarrow> False | Some n \<Rightarrow> n < 0)"

definition validateTail :: "go_url \<Rightarrow> cfg_file \<Rightarrow> cfg_error option" where
  "validateTail gu f = first_error
     [fail_if (fb_max_attempts (f_fallback f) < 0) EFallbackAttempts,
      fail_if (negative (hc_failure_threshold (f_health f))) EHealthThreshold,
      fail_if (negative (hc_cooldown (f_health f))) EHealthCooldown,
      validateBase gu (uc_base (f_upstream f)),
      fail_if (f_log_level f \<notin> {[], ''debug'', ''info'', ''warn'', ''error''}) (ELogLevel (f_log_level f)),
      fail_if (negative (ua_sync_interval (f_user_agent f))) ESyncInterval,
      fail_if (ua_style (f_user_agent f) \<notin> {[], UAStyleV1, UAStyleV2}) (EStyle (ua_style (f_user_agent f)))]"

definition Validate :: "go_url \<Rightarrow> cfg_file \<Rightarrow> cfg_error option" where
  "Validate gu f =
     (if f_egress f = [] then Some ENoEgress
      else if f_routes f = [] then Some ENoRoutes
      else case validateEgresses gu 0 [] (f_egress f) of
        Inl err \<Rightarrow> Some err
      | Inr seen \<Rightarrow>
          let ids = sort (map boundedEcho seen) in
          (case validateRoutes (f_egress f) ids seen 0 [] (f_routes f) of
             Some err \<Rightarrow> Some err
           | None \<Rightarrow> validateTail gu f))"

section \<open>What validation decides\<close>

text \<open>A declarative reading of the checks, without order, indices or messages.\<close>

definition valid_proxy :: "go_url \<Rightarrow> proxy \<Rightarrow> bool" where
  "valid_proxy gu p \<longleftrightarrow>
     p_type p \<in> {ProxyHTTP, ProxyHTTPS, ProxySOCKS5} \<and> p_url p \<noteq> [] \<and>
     (\<exists>u. gu_parse gu (p_url p) = Inr u \<and> url_host u \<noteq> [] \<and>
          (url_scheme u = p_type p \<or> p_type p = ProxySOCKS5 \<and> url_scheme u = ''socks5h''))"

definition valid_id :: "string \<Rightarrow> bool" where
  "valid_id i \<longleftrightarrow> trimSpace i \<noteq> [] \<and> \<not> hasControlByte i"

definition valid_egress :: "go_url \<Rightarrow> egress \<Rightarrow> bool" where
  "valid_egress gu e \<longleftrightarrow>
     valid_id (e_id e) \<and> (\<forall>w. e_weight e = Some w \<longrightarrow> 0 \<le> w) \<and>
     0 \<le> e_max_concurrency e \<and> 0 \<le> e_max_body_bytes e \<and>
     (\<forall>pat \<in> set (e_models e). pathMatch pat [] \<noteq> None) \<and>
     (\<forall>p. e_proxy e = Some p \<longrightarrow> valid_proxy gu p)"

definition valid_route :: "egress list \<Rightarrow> route \<Rightarrow> bool" where
  "valid_route egs r \<longleftrightarrow>
     valid_id (r_id r) \<and> r_strategy r \<in> {[], StrategyRoundRobin, StrategyWeightedRR} \<and>
     r_egress r \<noteq> [] \<and> distinct (r_egress r) \<and> set (r_egress r) \<subseteq> e_id ` set egs \<and>
     0 \<le> m_min_body_bytes (r_match r) \<and> 0 \<le> m_max_body_bytes (r_match r) \<and>
     (m_max_body_bytes (r_match r) = 0 \<or> m_min_body_bytes (r_match r) \<le> m_max_body_bytes (r_match r)) \<and>
     (\<forall>pat \<in> set (m_models (r_match r)). pathMatch pat [] \<noteq> None) \<and>
     (r_strategy r = StrategyWeightedRR \<longrightarrow>
        (\<exists>e \<in> set egs. e_id e \<in> set (r_egress r) \<and> 0 < EffectiveWeight e))"

definition valid_base :: "go_url \<Rightarrow> string \<Rightarrow> bool" where
  "valid_base gu base \<longleftrightarrow> base = [] \<or>
     (\<exists>u. gu_parse gu base = Inr u \<and> url_scheme u \<in> {''http'', ''https''} \<and> url_host u \<noteq> [] \<and>
          url_user u = None \<and> url_raw_query u = [] \<and> url_fragment u = [])"

definition valid_file :: "go_url \<Rightarrow> cfg_file \<Rightarrow> bool" where
  "valid_file gu f \<longleftrightarrow>
     f_egress f \<noteq> [] \<and> f_routes f \<noteq> [] \<and>
     distinct (map e_id (f_egress f)) \<and> distinct (map r_id (f_routes f)) \<and>
     (\<forall>e \<in> set (f_egress f). valid_egress gu e) \<and>
     (\<forall>r \<in> set (f_routes f). valid_route (f_egress f) r) \<and>
     0 \<le> fb_max_attempts (f_fallback f) \<and>
     (\<forall>n. hc_failure_threshold (f_health f) = Some n \<longrightarrow> 0 \<le> n) \<and>
     (\<forall>n. hc_cooldown (f_health f) = Some n \<longrightarrow> 0 \<le> n) \<and>
     valid_base gu (uc_base (f_upstream f)) \<and>
     f_log_level f \<in> {[], ''debug'', ''info'', ''warn'', ''error''} \<and>
     (\<forall>n. ua_sync_interval (f_user_agent f) = Some n \<longrightarrow> 0 \<le> n) \<and>
     ua_style (f_user_agent f) \<in> {[], UAStyleV1, UAStyleV2}"

lemma validateProxy_None: "validateProxy gu eid p = None \<longleftrightarrow> valid_proxy gu p"
  by (auto simp: validateProxy_def valid_proxy_def split: sum.splits)

lemma validateEgress_None:
  "validateEgress gu i seen e = None \<longleftrightarrow> valid_egress gu e \<and> e_id e \<notin> set seen"
  by (auto simp: validateEgress_def valid_egress_def valid_id_def Let_def validateProxy_None
           split: option.splits)

lemma validateEgresses_Inr:
  "validateEgresses gu i seen es = Inr seen' \<longleftrightarrow>
     (\<forall>e \<in> set es. valid_egress gu e) \<and> distinct (map e_id es) \<and>
     set (map e_id es) \<inter> set seen = {} \<and> seen' = rev (map e_id es) @ seen"
proof (induction es arbitrary: i seen)
  case (Cons e es)
  show ?case
    using validateEgress_None [of gu i seen e] Cons.IH [of "Suc i" "e_id e # seen"]
    by (cases "validateEgress gu i seen e") auto
qed auto

lemma validateRefs_None:
  "validateRefs rid ids seen refSeen refs = None \<longleftrightarrow>
     set refs \<subseteq> set seen \<and> distinct refs \<and> set refs \<inter> set refSeen = {}"
  by (induction refs arbitrary: refSeen) auto

lemma indexByID_found:
  "i \<in> e_id ` set es \<Longrightarrow>
     0 \<le> indexByID es i \<and> nat (indexByID es i) < length es \<and> e_id (es ! nat (indexByID es i)) = i"
  by (induction es) (auto simp: Let_def nat_add_distrib)

lemma indexByID_range: "-1 \<le> indexByID es i"
  by (induction es) (auto simp: Let_def)

lemma indexByID_unique:
  assumes "distinct (map e_id es)" and "e \<in> set es"
  shows "es ! nat (indexByID es (e_id e)) = e"
proof -
  let ?j = "nat (indexByID es (e_id e))"
  from assms(2) have "?j < length es" and "e_id (es ! ?j) = e_id e"
    using indexByID_found [of "e_id e" es] by auto
  then show ?thesis using assms by (metis inj_on_eq_iff distinct_map nth_mem)
qed

text \<open>The weight loop never indexes out of range: it runs only on references already checked.\<close>

lemma usable_refs:
  assumes d: "distinct (map e_id egs)" and s: "set refs \<subseteq> e_id ` set egs"
  shows "list_ex (\<lambda>ref. weightOf (egs ! nat (indexByID egs ref)) > 0) refs
         \<longleftrightarrow> (\<exists>e \<in> set egs. e_id e \<in> set refs \<and> 0 < EffectiveWeight e)"
    (is "?L \<longleftrightarrow> ?R")
proof
  assume ?L
  then obtain ref where r: "ref \<in> set refs" and w: "weightOf (egs ! nat (indexByID egs ref)) > 0"
    by (auto simp: list_ex_iff)
  from r s obtain e where "e \<in> set egs" and "e_id e = ref" by auto
  with r w indexByID_unique [OF d, of e] show ?R by (metis weightOf_def)
next
  assume ?R
  then show ?L using indexByID_unique [OF d] by (metis list_ex_iff weightOf_def)
qed

lemma validateRoute_None:
  assumes "distinct (map e_id egs)" and "set seen = e_id ` set egs"
  shows "validateRoute egs ids seen i routeSeen r = None \<longleftrightarrow> valid_route egs r \<and> r_id r \<notin> set routeSeen"
proof (cases "set (r_egress r) \<subseteq> e_id ` set egs")
  case True
  define m where "m = r_match r"
  have mm: "\<not> a < 0 \<and> \<not> b < 0 \<and> \<not> (0 < a \<and> 0 < b \<and> b < a) \<longleftrightarrow> 0 \<le> a \<and> 0 \<le> b \<and> (b = 0 \<or> a \<le> b)"
    for a b :: int by auto
  have "validateRoute egs ids seen i routeSeen r = None \<longleftrightarrow>
      trimSpace (r_id r) \<noteq> [] \<and> \<not> hasControlByte (r_id r) \<and> r_id r \<notin> set routeSeen \<and>
      r_strategy r \<in> {[], StrategyRoundRobin, StrategyWeightedRR} \<and> r_egress r \<noteq> [] \<and>
      \<not> m_min_body_bytes m < 0 \<and> \<not> m_max_body_bytes m < 0 \<and>
      \<not> (0 < m_min_body_bytes m \<and> 0 < m_max_body_bytes m \<and> m_max_body_bytes m < m_min_body_bytes m) \<and>
      (\<forall>pat \<in> set (m_models m). pathMatch pat [] \<noteq> None) \<and>
      (set (r_egress r) \<subseteq> set seen \<and> distinct (r_egress r)) \<and>
      \<not> (r_strategy r = StrategyWeightedRR
         \<and> \<not> (\<exists>e \<in> set egs. e_id e \<in> set (r_egress r) \<and> 0 < EffectiveWeight e))"
    unfolding validateRoute_def Let_def usable_refs [OF assms(1) True] m_def
    by (simp only: first_error_None set_append ball_Un list.set set_map ball_simps fail_if_None
          validateRefs_None conj_assoc not_not inf_bot_right simp_thms)
  then show ?thesis
    unfolding valid_route_def valid_id_def m_def assms(2)
    using True mm [of "m_min_body_bytes (r_match r)" "m_max_body_bytes (r_match r)"]
    by satx
next
  case False
  then show ?thesis using assms(2)
    by (simp add: validateRoute_def valid_route_def Let_def validateRefs_None)
qed

lemma validateRoutes_None:
  assumes "distinct (map e_id egs)" and "set seen = e_id ` set egs"
  shows "validateRoutes egs ids seen i routeSeen rs = None \<longleftrightarrow>
     (\<forall>r \<in> set rs. valid_route egs r) \<and> distinct (map r_id rs) \<and> set (map r_id rs) \<inter> set routeSeen = {}"
proof (induction rs arbitrary: i routeSeen)
  case (Cons r rs)
  show ?case
    using validateRoute_None [OF assms, of ids i routeSeen r] Cons.IH [of "Suc i" "r_id r # routeSeen"]
    by (cases "validateRoute egs ids seen i routeSeen r") auto
qed simp

lemma negative_iff: "negative v \<longleftrightarrow> \<not> (\<forall>n. v = Some n \<longrightarrow> 0 \<le> n)"
  by (cases v) (auto simp: negative_def)

lemma validateBase_None: "validateBase gu base = None \<longleftrightarrow> valid_base gu base"
  by (auto simp: validateBase_def valid_base_def simp del: not_None_eq split: sum.splits)

lemma validateTail_None:
  "validateTail gu f = None \<longleftrightarrow>
     0 \<le> fb_max_attempts (f_fallback f) \<and>
     (\<forall>n. hc_failure_threshold (f_health f) = Some n \<longrightarrow> 0 \<le> n) \<and>
     (\<forall>n. hc_cooldown (f_health f) = Some n \<longrightarrow> 0 \<le> n) \<and>
     valid_base gu (uc_base (f_upstream f)) \<and>
     f_log_level f \<in> {[], ''debug'', ''info'', ''warn'', ''error''} \<and>
     (\<forall>n. ua_sync_interval (f_user_agent f) = Some n \<longrightarrow> 0 \<le> n) \<and>
     ua_style (f_user_agent f) \<in> {[], UAStyleV1, UAStyleV2}"
  unfolding validateTail_def
  by (simp only: first_error_None list.set ball_simps fail_if_None validateBase_None negative_iff
        not_not not_less simp_thms)

lemma Validate_None_iff: "Validate gu f = None \<longleftrightarrow> valid_file gu f"
proof (cases "validateEgresses gu 0 [] (f_egress f)")
  case (Inl err)
  then have "\<not> ((\<forall>e \<in> set (f_egress f). valid_egress gu e) \<and> distinct (map e_id (f_egress f)))"
    using validateEgresses_Inr [of gu 0 "[]" "f_egress f" "rev (map e_id (f_egress f))"] by auto
  with Inl show ?thesis unfolding Validate_def valid_file_def by (auto split: if_splits)
next
  case (Inr seen)
  then have e: "\<forall>e \<in> set (f_egress f). valid_egress gu e" and d: "distinct (map e_id (f_egress f))"
    and s: "set seen = e_id ` set (f_egress f)"
    by (auto simp: validateEgresses_Inr)
  have r: "validateRoutes (f_egress f) ids seen 0 [] (f_routes f) = None \<longleftrightarrow>
        (\<forall>r \<in> set (f_routes f). valid_route (f_egress f) r) \<and> distinct (map r_id (f_routes f))" for ids
    using validateRoutes_None [OF d s] by simp
  show ?thesis
  proof (cases "f_egress f = [] \<or> f_routes f = []")
    case True
    then show ?thesis by (auto simp: Validate_def valid_file_def)
  next
    case False
    then have "Validate gu f = None \<longleftrightarrow>
        validateRoutes (f_egress f) (sort (map boundedEcho seen)) seen 0 [] (f_routes f) = None
        \<and> validateTail gu f = None"
      by (simp add: Validate_def Inr Let_def split: option.splits)
    with False e d show ?thesis
      unfolding r validateTail_None valid_file_def by satx
  qed
qed

section \<open>Bounded echoes, and what a rejected document can put in a log\<close>

lemma length_boundedEcho: "length (boundedEcho s) \<le> 10"
  by (simp add: boundedEcho_def)

lemma stripQuoted_no_quote: "CHR 0x22 \<notin> set (stripQuoted s)"
proof (induction s rule: stripQuoted.induct)
  case (1 s)
  then show ?case
    by (subst stripQuoted.simps)
       (auto simp: indexByte_None split: option.splits dest!: indexByte_decomp dest: in_set_takeD)
qed

lemma stripQuoted_length: "length (stripQuoted s) \<le> length s"
proof (induction s rule: stripQuoted.induct)
  case (1 s)
  show ?case
  proof (cases "indexByte s (CHR 0x22)")
    case None
    then show ?thesis by (simp add: stripQuoted.simps [of s])
  next
    case (Some i)
    show ?thesis
    proof (cases "indexByte (drop (Suc i) s) (CHR 0x22)")
      case None
      with Some show ?thesis by (simp add: stripQuoted.simps [of s])
    next
      case j: (Some j)
      from 1 [OF Some j] Some j
      have "length (take i s) + length (stripQuoted (drop (Suc j) (drop (Suc i) s))) \<le> length s"
        by (auto simp: indexByte_Some)
      then show ?thesis by (simp add: stripQuoted.simps [of s] Some j)
    qed
  qed
qed

text \<open>The input-derived strings a rejection echoes, apart from the parser's own reason text.\<close>

fun echoes :: "cfg_error \<Rightarrow> string list" where
  "echoes (EEgressDup a) = [a]"
| "echoes (EEgressWeight a) = [a]"
| "echoes (EEgressConc a) = [a]"
| "echoes (EEgressBody a) = [a]"
| "echoes (EEgressPattern a b) = [a, b]"
| "echoes (EProxyTypeSocks5h a) = [a]"
| "echoes (EProxyType a b) = [a, b]"
| "echoes (EProxyUrlRequired a) = [a]"
| "echoes (EProxyUrlMalformed a reason) = [a]"
| "echoes (EProxyScheme a b c) = [a, b, c]"
| "echoes (EProxyNoHost a b) = [a, b]"
| "echoes (ERouteDup a) = [a]"
| "echoes (ERouteStrategy a b) = [a, b]"
| "echoes (ERouteEmpty a) = [a]"
| "echoes (ERouteMinBody a) = [a]"
| "echoes (ERouteMaxBody a) = [a]"
| "echoes (ERouteMinMax a i j) = [a]"
| "echoes (ERoutePattern a b) = [a, b]"
| "echoes (ERouteUnknownEgress a b ids) = a # b # ids"
| "echoes (ERouteRepeated a b) = [a, b]"
| "echoes (ERouteNoWeight a) = [a]"
| "echoes (EBaseScheme a) = [a]"
| "echoes (ELogLevel a) = [a]"
| "echoes (EStyle a) = [a]"
| "echoes _ = []"

definition bounded_error :: "cfg_error \<Rightarrow> bool" where
  "bounded_error err \<longleftrightarrow> list_all (\<lambda>s. length s \<le> 10) (echoes err)"

lemma validateProxy_bounded: "length eid \<le> 10 \<Longrightarrow> fails_with bounded_error (validateProxy gu eid p)"
  by (auto simp: validateProxy_def bounded_error_def length_boundedEcho fails_with_def
                 ProxyHTTP_def ProxyHTTPS_def ProxySOCKS5_def split: sum.splits)

lemma validateEgress_bounded: "fails_with bounded_error (validateEgress gu i seen e)"
  unfolding validateEgress_def Let_def
  by (rule fails_with_first_error, cases "e_proxy e")
     (simp_all add: list_all_iff bounded_error_def [of "EEgressId i" for i]
        bounded_error_def [of "EEgressCtl i" for i] bounded_error_def [of "EEgressDup i" for i]
        bounded_error_def [of "EEgressWeight i" for i] bounded_error_def [of "EEgressConc i" for i]
        bounded_error_def [of "EEgressBody i" for i] bounded_error_def [of "EEgressPattern i j" for i j]
        length_boundedEcho validateProxy_bounded)

lemma validateEgresses_bounded: "validateEgresses gu i seen es = Inl err \<Longrightarrow> bounded_error err"
proof (induction es arbitrary: i seen)
  case (Cons e es)
  then show ?case using validateEgress_bounded [of gu i seen e]
    by (auto simp: fails_with_def split: option.splits)
qed simp

lemma validateRefs_bounded:
  "length rid \<le> 10 \<Longrightarrow> list_all (\<lambda>s. length s \<le> 10) ids
   \<Longrightarrow> fails_with bounded_error (validateRefs rid ids seen rs refs)"
  by (induction refs arbitrary: rs) (auto simp: bounded_error_def fails_with_def length_boundedEcho)

lemma validateRoute_bounded:
  assumes "list_all (\<lambda>s. length s \<le> 10) ids"
  shows "fails_with bounded_error (validateRoute egs ids seen i rs r)"
  unfolding validateRoute_def Let_def
  by (rule fails_with_first_error)
     (simp add: list_all_iff bounded_error_def [of "ERouteId i" for i]
        bounded_error_def [of "ERouteCtl i" for i] bounded_error_def [of "ERouteDup i" for i]
        bounded_error_def [of "ERouteStrategy i j" for i j] bounded_error_def [of "ERouteEmpty i" for i]
        bounded_error_def [of "ERouteMinBody i" for i] bounded_error_def [of "ERouteMaxBody i" for i]
        bounded_error_def [of "ERouteMinMax i j k" for i j k] bounded_error_def [of "ERoutePattern i j" for i j]
        bounded_error_def [of "ERouteNoWeight i" for i]
        length_boundedEcho validateRefs_bounded [OF _ assms])

lemma validateRoutes_bounded:
  "list_all (\<lambda>s. length s \<le> 10) ids \<Longrightarrow> fails_with bounded_error (validateRoutes egs ids seen i rs routes)"
proof (induction routes arbitrary: i rs)
  case (Cons r routes)
  have r: "fails_with bounded_error (validateRoute egs ids seen i rs r)"
    by (rule validateRoute_bounded [OF Cons.prems])
  have "fails_with bounded_error (validateRoutes egs ids seen (Suc i) (r_id r # rs) routes)"
    by (rule Cons.IH [OF Cons.prems])
  with r show ?case by (simp add: fails_with_def split: option.splits)
qed simp

text \<open>Past the log level and the user-agent style, nothing long from the document is echoed.\<close>

lemma validateTail_bounded:
  "validateTail gu f = Some err \<Longrightarrow>
     bounded_error err \<or> err = ELogLevel (f_log_level f) \<or> err = EStyle (ua_style (f_user_agent f))"
proof -
  let ?P = "\<lambda>err. bounded_error err \<or> err = ELogLevel (f_log_level f) \<or> err = EStyle (ua_style (f_user_agent f))"
  have "fails_with ?P (validateBase gu (uc_base (f_upstream f)))"
    by (auto simp: validateBase_def bounded_error_def fails_with_def length_boundedEcho first_error_Cons
                   fail_if_def split: sum.splits)
  then have "fails_with ?P (validateTail gu f)"
    unfolding validateTail_def
    by (intro fails_with_first_error) (simp add: bounded_error_def)
  then show "validateTail gu f = Some err \<Longrightarrow> ?P err" by (simp add: fails_with_def)
qed

lemma Validate_error_bounded:
  assumes "Validate gu f = Some err"
  shows "bounded_error err \<or> err = ELogLevel (f_log_level f) \<or> err = EStyle (ua_style (f_user_agent f))"
proof (cases "f_egress f = [] \<or> f_routes f = []")
  case True
  then show ?thesis using assms by (auto simp: Validate_def bounded_error_def split: if_splits)
next
  case False
  show ?thesis
  proof (cases "validateEgresses gu 0 [] (f_egress f)")
    case (Inl e)
    then show ?thesis using assms False validateEgresses_bounded [OF Inl] by (simp add: Validate_def)
  next
    case (Inr seen)
    let ?ids = "sort (map boundedEcho seen)"
    have "list_all (\<lambda>s. length s \<le> 10) ?ids" by (simp add: list_all_iff length_boundedEcho)
    then have "fails_with bounded_error (validateRoutes (f_egress f) ?ids seen 0 [] (f_routes f))"
      by (rule validateRoutes_bounded)
    then show ?thesis using assms False validateTail_bounded [of gu f]
      by (auto simp: Validate_def Inr Let_def fails_with_def split: option.splits)
  qed
qed

end
