(* ===== verification/ConfigResolve.thy ===== *)
theory ConfigResolve
  imports ProxyConfig
begin

text \<open>
  From a valid document to the snapshot a request pins (\<^verbatim>\<open>internal/config/file.go\<close>: the clone
  helpers, \<^verbatim>\<open>Resolve\<close>, \<^verbatim>\<open>DefaultRuntime\<close> and the \<^verbatim>\<open>Runtime\<close> accessors), the environment
  interpolation and the duration decoder that run before parsing.
\<close>

section \<open>Cloning\<close>

definition cloneBoolPtr :: "bool option \<Rightarrow> bool option" where
  "cloneBoolPtr b = (case b of None \<Rightarrow> None | Some v \<Rightarrow> Some v)"

definition cloneIntPtr :: "int option \<Rightarrow> int option" where
  "cloneIntPtr v = (case v of None \<Rightarrow> None | Some n \<Rightarrow> Some n)"

definition cloneDurationPtr :: "int option \<Rightarrow> int option" where
  "cloneDurationPtr d = (case d of None \<Rightarrow> None | Some n \<Rightarrow> Some n)"

definition cloneEgress :: "egress \<Rightarrow> egress" where
  "cloneEgress e = e\<lparr>
     e_proxy := (case e_proxy e of None \<Rightarrow> None
                 | Some p \<Rightarrow> Some \<lparr>p_type = p_type p, p_url = p_url p\<rparr>),
     e_enabled := cloneBoolPtr (e_enabled e),
     e_weight := cloneIntPtr (e_weight e),
     e_streaming := cloneBoolPtr (e_streaming e),
     e_models := [] @ e_models e\<rparr>"

definition cloneRoute :: "route \<Rightarrow> route" where
  "cloneRoute r = r\<lparr>
     r_match := (r_match r)\<lparr>m_streaming := cloneBoolPtr (m_streaming (r_match r)),
                            m_models := [] @ m_models (r_match r)\<rparr>,
     r_egress := [] @ r_egress r\<rparr>"

lemma clone_ptr [simp]: "cloneBoolPtr b = b" "cloneIntPtr v = v" "cloneDurationPtr d = d"
  by (simp_all add: cloneBoolPtr_def cloneIntPtr_def cloneDurationPtr_def split: option.splits)

lemma cloneEgress_id [simp]: "cloneEgress e = e"
  by (simp add: cloneEgress_def split: option.splits)

lemma cloneRoute_id [simp]: "cloneRoute r = r"
  by (simp add: cloneRoute_def)

section \<open>Resolution\<close>

definition defaultStrategy :: string where
  "defaultStrategy = StrategyRoundRobin"

definition indexEgresses :: "egress list \<Rightarrow> (string, egress) gomap" where
  "indexEgresses es = fold (\<lambda>e m. gm_set (e_id e) e m) es []"

text \<open>The part of \<^verbatim>\<open>Resolve\<close> after validation succeeded.\<close>

definition buildRuntime :: "cfg_file \<Rightarrow> runtime" where
  "buildRuntime f =
     (let cp = f\<lparr>f_egress := map cloneEgress (f_egress f),
                 f_routes := map cloneRoute (f_routes f),
                 f_fallback := \<lparr>fb_enabled = cloneBoolPtr (fb_enabled (f_fallback f)), fb_max_attempts = 0\<rparr>,
                 f_health := \<lparr>hc_enabled = cloneBoolPtr (hc_enabled (f_health f)),
                              hc_failure_threshold = cloneIntPtr (hc_failure_threshold (f_health f)),
                              hc_cooldown = cloneDurationPtr (hc_cooldown (f_health f))\<rparr>\<rparr>
      in \<lparr>
        rt_file = cp,
        rt_by_id = indexEgresses (f_egress cp),
        rt_routes = sort_key (\<lambda>r. - r_priority r) (map cloneRoute (f_routes cp)),
        rt_fallback = \<lparr>fb_enabled = Some (case fb_enabled (f_fallback f) of None \<Rightarrow> True | Some b \<Rightarrow> b),
                       fb_max_attempts = (if fb_max_attempts (f_fallback f) > 0
                                          then fb_max_attempts (f_fallback f) else defaultMaxAttempts)\<rparr>,
        rt_health = \<lparr>hc_enabled = Some (case hc_enabled (f_health f) of None \<Rightarrow> True | Some b \<Rightarrow> b),
                     hc_failure_threshold = hc_failure_threshold (f_health f),
                     hc_cooldown = hc_cooldown (f_health f)\<rparr>,
        rt_direct = False,
        rt_generation = 0,
        rt_log_level = (if f_log_level f \<noteq> [] then f_log_level f else DefaultLogLevel),
        rt_upstream_base = (if uc_base (f_upstream f) \<noteq> []
                            then trimRightByte (uc_base (f_upstream f)) (CHR ''/'')
                            else UpstreamBase_default),
        rt_ua_sync_interval = (case ua_sync_interval (f_user_agent f) of
                                 None \<Rightarrow> UASyncInterval_default
                               | Some n \<Rightarrow> wrap64 (n * second)),
        rt_ua_style = (if ua_style (f_user_agent f) \<noteq> [] then ua_style (f_user_agent f) else UAStyleV1)\<rparr>)"

definition Resolve :: "go_url \<Rightarrow> cfg_file \<Rightarrow> cfg_error + runtime" where
  "Resolve gu f = (case Validate gu f of Some err \<Rightarrow> Inl err | None \<Rightarrow> Inr (buildRuntime f))"

definition zero_match :: route_match where
  "zero_match = \<lparr>m_streaming = None, m_min_body_bytes = 0, m_max_body_bytes = 0, m_models = []\<rparr>"

definition direct_egress :: egress where
  "direct_egress = \<lparr>e_id = ''direct'', e_proxy = None, e_enabled = None, e_weight = Some defaultWeight,
     e_max_concurrency = 0, e_models = [], e_streaming = None, e_max_body_bytes = 0\<rparr>"

definition default_route :: route where
  "default_route = \<lparr>r_id = ''default'', r_priority = 0, r_match = zero_match,
     r_egress = [''direct''], r_strategy = defaultStrategy\<rparr>"

definition DefaultRuntime :: runtime where
  "DefaultRuntime = \<lparr>
     rt_file = \<lparr>f_log_level = DefaultLogLevel, f_egress = [direct_egress], f_routes = [default_route],
                f_fallback = \<lparr>fb_enabled = Some True, fb_max_attempts = 1\<rparr>,
                f_health = \<lparr>hc_enabled = Some False, hc_failure_threshold = None, hc_cooldown = None\<rparr>,
                f_upstream = \<lparr>uc_base = []\<rparr>,
                f_user_agent = \<lparr>ua_sync_interval = None, ua_style = []\<rparr>\<rparr>,
     rt_by_id = [(''direct'', direct_egress)],
     rt_routes = [default_route],
     rt_fallback = \<lparr>fb_enabled = Some True, fb_max_attempts = 1\<rparr>,
     rt_health = \<lparr>hc_enabled = Some False, hc_failure_threshold = None, hc_cooldown = None\<rparr>,
     rt_direct = True,
     rt_generation = 0,
     rt_log_level = DefaultLogLevel,
     rt_upstream_base = UpstreamBase_default,
     rt_ua_sync_interval = UASyncInterval_default,
     rt_ua_style = UAStyleV1\<rparr>"

section \<open>Accessors of the snapshot\<close>

definition Egress :: "runtime \<Rightarrow> string \<Rightarrow> egress option" where
  "Egress rt i = (case gm_get (rt_by_id rt) i of None \<Rightarrow> None | Some e \<Rightarrow> Some (cloneEgress e))"

definition Routes :: "runtime \<Rightarrow> route list" where
  "Routes rt = map cloneRoute (rt_routes rt)"

fun matchFirst :: "route list \<Rightarrow> bool \<Rightarrow> int \<Rightarrow> string \<Rightarrow> route option" where
  "matchFirst [] streaming bodyBytes model = None"
| "matchFirst (r # rs) streaming bodyBytes model =
     (if matchHolds (r_match r) streaming bodyBytes model then Some (cloneRoute r)
      else matchFirst rs streaming bodyBytes model)"

definition MatchRoute :: "runtime \<Rightarrow> bool \<Rightarrow> int \<Rightarrow> string \<Rightarrow> route option" where
  "MatchRoute rt streaming bodyBytes model = matchFirst (rt_routes rt) streaming bodyBytes model"

definition HealthThreshold :: "runtime \<Rightarrow> int" where
  "HealthThreshold rt = (case hc_failure_threshold (rt_health rt) of
     None \<Rightarrow> defaultHealthThreshold | Some n \<Rightarrow> n)"

definition HealthCooldown :: "runtime \<Rightarrow> int" where
  "HealthCooldown rt = (case hc_cooldown (rt_health rt) of
     None \<Rightarrow> defaultHealthCooldown | Some d \<Rightarrow> d)"

section \<open>Interpolation and durations\<close>

datatype interp_error = EUnclosedRef | EEmptyRef | EUnsetVar string

text \<open>\<open>env\<close> is the process environment (\<^verbatim>\<open>os.LookupEnv\<close>).\<close>

function Interpolate :: "(string \<Rightarrow> string option) \<Rightarrow> string \<Rightarrow> interp_error + string" where
  "Interpolate env [] = Inr []"
| "Interpolate env (c # cs) =
     (if c = CHR ''$'' \<and> cs \<noteq> [] \<and> hd cs = CHR 0x7B then
        (case indexByte (tl cs) (CHR 0x7D) of
           None \<Rightarrow> Inl EUnclosedRef
         | Some j \<Rightarrow>
             let name = take j (tl cs) in
             if name = [] then Inl EEmptyRef
             else case env name of
               None \<Rightarrow> Inl (EUnsetVar name)
             | Some v \<Rightarrow> map_sum id (\<lambda>rest. v @ rest) (Interpolate env (drop (Suc j) (tl cs))))
      else map_sum id (\<lambda>rest. c # rest) (Interpolate env cs))"
  by pat_completeness auto
termination
  by (relation "measure (\<lambda>(env, s). length s)") (auto simp: indexByte_Some)

declare Interpolate.simps(2) [simp del]

text \<open>
  A decoded YAML scalar as \<^verbatim>\<open>UnmarshalYAML\<close> sees it: a string, or a value of another kind with its
  \<^verbatim>\<open>%v\<close> rendering. \<open>pd\<close> is \<^verbatim>\<open>time.ParseDuration\<close>.
\<close>

datatype yaml_raw = YString string | YOther string

datatype duration_error = EDurationKind string | EDurationText string string

definition UnmarshalYAML :: "(string \<Rightarrow> string + int) \<Rightarrow> yaml_raw \<Rightarrow> duration_error + int" where
  "UnmarshalYAML pd raw = (case raw of
     YOther shown \<Rightarrow> Inl (EDurationKind (boundedEcho shown))
   | YString s \<Rightarrow> (case pd s of
        Inl msg \<Rightarrow> Inl (EDurationText (boundedEcho s) (stripQuoted msg))
      | Inr d \<Rightarrow> Inr d))"

section \<open>The snapshot is well formed\<close>

definition wf_route :: "runtime \<Rightarrow> route \<Rightarrow> bool" where
  "wf_route rt r \<longleftrightarrow>
     r_egress r \<noteq> [] \<and> distinct (r_egress r) \<and> (\<forall>i \<in> set (r_egress r). Egress rt i \<noteq> None) \<and>
     (r_strategy r = StrategyWeightedRR \<longrightarrow>
        (\<exists>i \<in> set (r_egress r). \<exists>e. Egress rt i = Some e \<and> 0 < EffectiveWeight e))"

definition wf_runtime :: "runtime \<Rightarrow> bool" where
  "wf_runtime rt \<longleftrightarrow>
     gm_wf (rt_by_id rt) \<and>
     (\<forall>i e. Egress rt i = Some e \<longrightarrow>
        e_id e = i \<and> \<not> hasControlByte i \<and> 0 \<le> EffectiveWeight e \<and> 0 \<le> e_max_concurrency e) \<and>
     rt_routes rt \<noteq> [] \<and> distinct (map r_id (rt_routes rt)) \<and>
     sorted_wrt (\<lambda>r r'. r_priority r' \<le> r_priority r) (rt_routes rt) \<and>
     (\<forall>r \<in> set (rt_routes rt). wf_route rt r) \<and>
     fb_enabled (rt_fallback rt) \<noteq> None \<and> 1 \<le> fb_max_attempts (rt_fallback rt) \<and>
     hc_enabled (rt_health rt) \<noteq> None \<and> 0 \<le> HealthThreshold rt \<and> 0 \<le> HealthCooldown rt"

lemma gm_wf_fold: "gm_wf m \<Longrightarrow> gm_wf (fold (\<lambda>e m. gm_set (k e) e m) es m)"
  by (induction es arbitrary: m) auto

lemma gm_get_fold:
  "distinct (map k es) \<Longrightarrow>
   gm_get (fold (\<lambda>e m. gm_set (k e) e m) es m) i =
     (case find (\<lambda>e. k e = i) es of Some e \<Rightarrow> Some e | None \<Rightarrow> gm_get m i)"
proof (induction es arbitrary: m)
  case (Cons e es)
  from Cons.prems have "find (\<lambda>e. k e = i) es = None" if "k e = i"
    using that by (auto simp: find_None_iff image_iff)
  with Cons show ?case by (simp add: gm_get_set split: option.splits)
qed simp

lemma indexEgresses_wf [simp]: "gm_wf (indexEgresses es)"
  by (simp add: indexEgresses_def gm_wf_fold)

lemma indexEgresses_get:
  "distinct (map e_id es) \<Longrightarrow> gm_get (indexEgresses es) i = find (\<lambda>e. e_id e = i) es"
  unfolding indexEgresses_def by (subst gm_get_fold) (auto split: option.splits)

lemma find_distinct:
  "distinct (map k es) \<Longrightarrow> find (\<lambda>e. k e = i) es = Some e \<longleftrightarrow> e \<in> set es \<and> k e = i"
  by (induction es) auto

lemma Resolve_Inr: "Resolve gu f = Inr rt \<longleftrightarrow> valid_file gu f \<and> rt = buildRuntime f"
  by (auto simp: Resolve_def Validate_None_iff [symmetric] split: option.splits)

lemma Resolve_Inl: "Resolve gu f = Inl err \<longleftrightarrow> Validate gu f = Some err"
  by (simp add: Resolve_def split: option.splits)

lemma build_by_id: "rt_by_id (buildRuntime f) = indexEgresses (f_egress f)"
  and build_routes: "rt_routes (buildRuntime f) = sort_key (\<lambda>r. - r_priority r) (f_routes f)"
  and build_fallback: "fb_enabled (rt_fallback (buildRuntime f)) \<noteq> None"
    "fb_max_attempts (rt_fallback (buildRuntime f)) =
       (if fb_max_attempts (f_fallback f) > 0 then fb_max_attempts (f_fallback f) else defaultMaxAttempts)"
  and build_health: "hc_enabled (rt_health (buildRuntime f)) \<noteq> None"
    "hc_failure_threshold (rt_health (buildRuntime f)) = hc_failure_threshold (f_health f)"
    "hc_cooldown (rt_health (buildRuntime f)) = hc_cooldown (f_health f)"
  by (simp_all add: buildRuntime_def Let_def map_idI)

lemma Resolve_valid: "Resolve gu f = Inr rt \<Longrightarrow> valid_file gu f"
  by (simp add: Resolve_Inr)

lemma Resolve_routes: "Resolve gu f = Inr rt \<Longrightarrow> rt_routes rt = sort_key (\<lambda>r. - r_priority r) (f_routes f)"
  by (simp add: Resolve_Inr build_routes)

lemma Resolve_Egress:
  assumes "Resolve gu f = Inr rt"
  shows "Egress rt i = Some e \<longleftrightarrow> e \<in> set (f_egress f) \<and> e_id e = i"
proof -
  have d: "distinct (map e_id (f_egress f))"
    using Resolve_valid [OF assms] by (simp add: valid_file_def)
  have "Egress rt i = find (\<lambda>e. e_id e = i) (f_egress f)"
    using assms by (simp add: Egress_def Resolve_Inr build_by_id indexEgresses_get [OF d] split: option.splits)
  then show ?thesis using find_distinct [OF d] by simp
qed

lemma Resolve_policies:
  assumes "Resolve gu f = Inr rt"
  shows "1 \<le> fb_max_attempts (rt_fallback rt)"
    and "0 \<le> HealthThreshold rt" and "0 \<le> HealthCooldown rt"
proof -
  from assms have v: "valid_file gu f" and rt: "rt = buildRuntime f" by (simp_all add: Resolve_Inr)
  show "1 \<le> fb_max_attempts (rt_fallback rt)"
    by (simp add: rt build_fallback defaultMaxAttempts_def)
  have "\<forall>n. hc_failure_threshold (f_health f) = Some n \<longrightarrow> 0 \<le> n"
    and "\<forall>n. hc_cooldown (f_health f) = Some n \<longrightarrow> 0 \<le> n"
    using v by (simp_all add: valid_file_def)
  then show "0 \<le> HealthThreshold rt" "0 \<le> HealthCooldown rt"
    by (simp_all add: rt HealthThreshold_def HealthCooldown_def build_health defaultHealthThreshold_def
          defaultHealthCooldown_def second_def split: option.splits)
qed

lemma wf_route_Resolve:
  assumes "Resolve gu f = Inr rt" and "r \<in> set (f_routes f)"
  shows "wf_route rt r"
proof -
  from Resolve_valid [OF assms(1)] assms(2) have v: "valid_route (f_egress f) r"
    by (auto simp: valid_file_def)
  have "Egress rt i \<noteq> None" if "i \<in> set (r_egress r)" for i
    using v that Resolve_Egress [OF assms(1), of i] by (auto simp: valid_route_def)
  moreover have "\<exists>i \<in> set (r_egress r). \<exists>e. Egress rt i = Some e \<and> 0 < EffectiveWeight e"
    if "r_strategy r = StrategyWeightedRR"
    using v that Resolve_Egress [OF assms(1)] by (auto simp: valid_route_def)
  ultimately show ?thesis using v by (auto simp: wf_route_def valid_route_def)
qed

lemma sorted_wrt_sort_key_neg:
  "sorted_wrt (\<lambda>x y. (k y :: int) \<le> k x) (sort_key (\<lambda>r. - k r) xs)"
proof -
  have "sorted (map (\<lambda>r. - k r) (sort_key (\<lambda>r. - k r) xs))" by (rule sorted_sort_key)
  then show ?thesis by (simp add: sorted_map)
qed

lemma Resolve_wf_runtime:
  assumes "Resolve gu f = Inr rt"
  shows "wf_runtime rt"
proof -
  have v: "valid_file gu f" by (rule Resolve_valid [OF assms])
  note r = Resolve_routes [OF assms]
  have "distinct (map r_id (rt_routes rt))"
    using v by (simp add: r valid_file_def distinct_map)
  moreover have "\<forall>x \<in> set (rt_routes rt). wf_route rt x"
    using wf_route_Resolve [OF assms] by (simp add: r)
  moreover have "e_id e = i \<and> \<not> hasControlByte i \<and> 0 \<le> EffectiveWeight e \<and> 0 \<le> e_max_concurrency e"
    if "Egress rt i = Some e" for i e
  proof -
    from that v have "valid_egress gu e" "e_id e = i"
      by (auto simp: Resolve_Egress [OF assms] valid_file_def)
    then show ?thesis
      by (auto simp: valid_egress_def valid_id_def EffectiveWeight_def defaultWeight_def split: option.splits)
  qed
  moreover have "rt_routes rt \<noteq> []"
  proof -
    have "f_routes f \<noteq> []" using v by (simp add: valid_file_def)
    then show ?thesis by (metis r length_0_conv length_sort)
  qed
  moreover have "sorted_wrt (\<lambda>r r'. r_priority r' \<le> r_priority r) (rt_routes rt)"
    unfolding r by (rule sorted_wrt_sort_key_neg)
  moreover have "gm_wf (rt_by_id rt)" "fb_enabled (rt_fallback rt) \<noteq> None" "hc_enabled (rt_health rt) \<noteq> None"
    using assms by (simp_all only: Resolve_Inr build_by_id build_fallback build_health indexEgresses_wf simp_thms)
  ultimately show ?thesis using Resolve_policies [OF assms] unfolding wf_runtime_def by blast
qed

lemma DefaultRuntime_wf: "wf_runtime DefaultRuntime"
  by (simp add: wf_runtime_def gm_wf_def DefaultRuntime_def Egress_def direct_egress_def default_route_def
        wf_route_def HealthThreshold_def HealthCooldown_def defaultHealthThreshold_def
        defaultHealthCooldown_def second_def EffectiveWeight_def defaultWeight_def
        defaultStrategy_def StrategyRoundRobin_def StrategyWeightedRR_def)

section \<open>Matching in priority order\<close>

text \<open>The specification: the highest priority wins, and the earlier line of the document among equals.\<close>

fun best_route :: "route list \<Rightarrow> route option" where
  "best_route [] = None"
| "best_route (r # rs) = (case best_route rs of
     None \<Rightarrow> Some r
   | Some r' \<Rightarrow> if r_priority r < r_priority r' then Some r' else Some r)"

lemma hd_insort_key: "hd (insort_key k x xs) = (if xs = [] \<or> k x \<le> k (hd xs) then x else hd xs)"
  by (cases xs) auto

lemma best_route_sort:
  "best_route rs = (if rs = [] then None else Some (hd (sort_key (\<lambda>r. - r_priority r) rs)))"
proof (induction rs)
  case (Cons r rs)
  have n: "sort_key (\<lambda>r. - r_priority r) rs = [] \<longleftrightarrow> rs = []"
    by (metis length_0_conv length_sort)
  show ?case using Cons by (cases "rs = []") (simp_all add: hd_insort_key n not_le)
qed simp

lemma matchFirst_filter:
  "matchFirst rs s b m = (case filter (\<lambda>r. matchHolds (r_match r) s b m) rs of [] \<Rightarrow> None | r # _ \<Rightarrow> Some r)"
  by (induction rs) auto

lemma MatchRoute_best:
  assumes "Resolve gu f = Inr rt"
  shows "MatchRoute rt s b m = best_route (filter (\<lambda>r. matchHolds (r_match r) s b m) (f_routes f))"
proof -
  let ?P = "\<lambda>r. matchHolds (r_match r) s b m"
  have "filter ?P (rt_routes rt) = sort_key (\<lambda>r. - r_priority r) (filter ?P (f_routes f))"
    by (simp add: Resolve_routes [OF assms] filter_sort)
  then show ?thesis
    by (auto simp: MatchRoute_def matchFirst_filter best_route_sort split: list.splits)
       (metis length_0_conv length_sort)
qed

lemma best_route_mem: "best_route rs = Some r \<Longrightarrow> r \<in> set rs"
  by (induction rs arbitrary: r) (auto split: option.splits if_splits)

lemma MatchRoute_mem:
  "MatchRoute rt s b m = Some r \<Longrightarrow> r \<in> set (rt_routes rt) \<and> matchHolds (r_match r) s b m"
  unfolding MatchRoute_def matchFirst_filter
  by (auto split: list.splits simp: filter_eq_Cons_iff)

section \<open>Health identities\<close>

lemma HealthKey_split:
  assumes "CHR 0x00 \<notin> set (e_id a)" and "CHR 0x00 \<notin> set (e_id b)" and "HealthKey a = HealthKey b"
  shows "e_id a = e_id b \<and> TransportSignature a = TransportSignature b"
proof -
  have "indexByte (HealthKey a) (CHR 0x00) = Some (length (e_id a))"
    and "indexByte (HealthKey b) (CHR 0x00) = Some (length (e_id b))"
    using assms(1,2) by (simp_all add: HealthKey_def indexByte_append_notin)
  with assms(3) have "length (e_id a) = length (e_id b)" by simp
  with assms(3) show ?thesis by (simp add: HealthKey_def)
qed

lemma hasControlByte_nul: "\<not> hasControlByte s \<Longrightarrow> CHR 0x00 \<notin> set s"
  by (induction s) auto

section \<open>Interpolation on segmented text\<close>

datatype segment = Lit string | Ref string

fun seg_text :: "segment \<Rightarrow> string" where
  "seg_text (Lit s) = s"
| "seg_text (Ref n) = CHR ''$'' # CHR 0x7B # n @ [CHR 0x7D]"

fun seg_ok :: "segment \<Rightarrow> bool" where
  "seg_ok (Lit s) \<longleftrightarrow> CHR ''$'' \<notin> set s"
| "seg_ok (Ref n) \<longleftrightarrow> n \<noteq> [] \<and> CHR 0x7D \<notin> set n"

fun expand :: "(string \<Rightarrow> string option) \<Rightarrow> segment list \<Rightarrow> interp_error + string" where
  "expand env [] = Inr []"
| "expand env (Lit s # segs) = map_sum id (\<lambda>rest. s @ rest) (expand env segs)"
| "expand env (Ref n # segs) = (case env n of
     None \<Rightarrow> Inl (EUnsetVar n)
   | Some v \<Rightarrow> map_sum id (\<lambda>rest. v @ rest) (expand env segs))"

lemma Interpolate_lit:
  "CHR ''$'' \<notin> set s \<Longrightarrow> Interpolate env (s @ t) = map_sum id (\<lambda>rest. s @ rest) (Interpolate env t)"
proof (induction s)
  case Nil
  show ?case by (cases "Interpolate env t") simp_all
next
  case (Cons c s)
  then have "c \<noteq> CHR ''$''" by auto
  then have "Interpolate env (c # s @ t) = map_sum id (\<lambda>rest. c # rest) (Interpolate env (s @ t))"
    by (simp add: Interpolate.simps(2))
  with Cons show ?case by (cases "Interpolate env t") simp_all
qed

lemma Interpolate_ref:
  "seg_ok (Ref n) \<Longrightarrow> Interpolate env (seg_text (Ref n) @ t) = (case env n of
     None \<Rightarrow> Inl (EUnsetVar n)
   | Some v \<Rightarrow> map_sum id (\<lambda>rest. v @ rest) (Interpolate env t))"
  by (simp add: Interpolate.simps(2) indexByte_append_notin Let_def split: option.split)

lemma Interpolate_segments:
  "list_all seg_ok segs \<Longrightarrow> Interpolate env (concat (map seg_text segs)) = expand env segs"
proof (induction segs)
  case (Cons seg segs)
  then show ?case
    by (cases seg) (simp_all add: Interpolate_lit Interpolate_ref del: seg_text.simps(2) seg_ok.simps(2) split: option.split)
qed simp

section \<open>The process environment\<close>

definition DefaultPort :: string where
  "DefaultPort = ''8090''"

definition DefaultShutdownGrace :: int where
  "DefaultShutdownGrace = 55 * second"

definition DefaultConfigPoll :: int where
  "DefaultConfigPoll = second"

text \<open>\<^verbatim>\<open>os.Getenv\<close>: an unset variable reads as the empty string.\<close>

definition getenv :: "(string \<Rightarrow> string option) \<Rightarrow> string \<Rightarrow> string" where
  "getenv env k = (case env k of None \<Rightarrow> [] | Some v \<Rightarrow> v)"

definition envOr :: "(string \<Rightarrow> string option) \<Rightarrow> string \<Rightarrow> string \<Rightarrow> string" where
  "envOr env key def = (let v = getenv env key in if v \<noteq> [] then v else def)"

datatype env_error =
    ENotPositiveMs string nat
  | ENotPositiveDuration string nat
  | ENotDuration string nat

definition envDuration ::
  "(string \<Rightarrow> string option) \<Rightarrow> (string \<Rightarrow> string + int) \<Rightarrow> string \<Rightarrow> int \<Rightarrow> int \<times> env_error option" where
  "envDuration env pd key def =
     (let raw = getenv env key in
      if raw = [] then (def, None)
      else case atoi raw of
        Some n \<Rightarrow> if n > 0 then (wrap64 (n * millisecond), None)
                  else (def, Some (ENotPositiveMs key (length raw)))
      | None \<Rightarrow> (case pd raw of
          Inr d \<Rightarrow> if d > 0 then (d, None) else (def, Some (ENotPositiveDuration key (length raw)))
        | Inl _ \<Rightarrow> (def, Some (ENotDuration key (length raw)))))"

record env_config =
  ec_port :: string
  ec_config_path :: string
  ec_shutdown_grace :: int
  ec_config_poll :: int

definition FromEnv ::
  "(string \<Rightarrow> string option) \<Rightarrow> (string \<Rightarrow> string + int) \<Rightarrow> env_config \<times> env_error list" where
  "FromEnv env pd =
     (let (grace, graceErr) = envDuration env pd ''OCFP_SHUTDOWN_GRACE'' DefaultShutdownGrace;
          (poll, pollErr) = envDuration env pd ''OCFP_CONFIG_POLL_MS'' DefaultConfigPoll
      in (\<lparr>ec_port = envOr env ''OCFP_PORT'' DefaultPort,
           ec_config_path = getenv env ''OCFP_CONFIG'',
           ec_shutdown_grace = grace,
           ec_config_poll = poll\<rparr>,
          (case graceErr of None \<Rightarrow> [] | Some e \<Rightarrow> [e]) @ (case pollErr of None \<Rightarrow> [] | Some e \<Rightarrow> [e])))"

text \<open>Every accepted duration is positive, up to the wrap of the millisecond product.\<close>

lemma envDuration_positive:
  assumes "envDuration env pd key def = (d, None)" and "0 < def"
    and "\<And>n. atoi (getenv env key) = Some n \<Longrightarrow> n \<le> 9223372036854"
  shows "0 < d"
proof -
  have "wrap64 (n * millisecond) = n * millisecond" if "0 < n" "n \<le> 9223372036854" for n
    using that by (intro wrap64_id) (simp add: in64_def millisecond_def)
  then show ?thesis using assms
    by (auto simp: envDuration_def Let_def millisecond_def split: if_splits option.splits sum.splits)
qed

section \<open>A sample document\<close>

text \<open>
  The witnesses run on one document with two routes and two egresses, and on a URL parser that
  knows the addresses the document holds.
\<close>

definition sample_url :: "string \<Rightarrow> string \<Rightarrow> url" where
  "sample_url scheme host = \<lparr>url_scheme = scheme, url_user = None, url_host = host, url_path = [],
     url_raw_query = [], url_fragment = []\<rparr>"

definition sample_gu :: go_url where
  "sample_gu = \<lparr>
     gu_parse = (\<lambda>s. if s = ''socks5://p:1'' then Inr (sample_url ''socks5'' ''p:1'')
                     else if s = ''https://api.x'' then Inr (sample_url ''https'' ''api.x'')
                     else Inl ''unknown''),
     gu_string = (\<lambda>u. url_scheme u @ ''://'' @ url_host u @ url_path u),
     gu_resolve = (\<lambda>u ref. Inr (u\<lparr>url_path := ref\<rparr>))\<rparr>"

definition proxy_egress :: egress where
  "proxy_egress = \<lparr>e_id = ''b'', e_proxy = Some \<lparr>p_type = ''socks5'', p_url = ''socks5://p:1''\<rparr>,
     e_enabled = None, e_weight = Some 3, e_max_concurrency = 2, e_models = [''gpt-*''],
     e_streaming = None, e_max_body_bytes = 0\<rparr>"

definition sample_file :: cfg_file where
  "sample_file = \<lparr>f_log_level = [], f_egress = [direct_egress, proxy_egress],
     f_routes = [\<lparr>r_id = ''all'', r_priority = 0, r_match = zero_match, r_egress = [''direct''], r_strategy = []\<rparr>,
                 \<lparr>r_id = ''gpt'', r_priority = 7, r_match = zero_match\<lparr>m_models := [''gpt-*'']\<rparr>,
                  r_egress = [''b'', ''direct''], r_strategy = ''weighted_round_robin''\<rparr>],
     f_fallback = \<lparr>fb_enabled = None, fb_max_attempts = 0\<rparr>,
     f_health = \<lparr>hc_enabled = None, hc_failure_threshold = None, hc_cooldown = None\<rparr>,
     f_upstream = \<lparr>uc_base = ''https://api.x''\<rparr>,
     f_user_agent = \<lparr>ua_sync_interval = None, ua_style = []\<rparr>\<rparr>"

definition bad_file :: cfg_file where
  "bad_file = sample_file\<lparr>f_routes := [default_route\<lparr>r_egress := [''no-such-egress'']\<rparr>]\<rparr>"

lemma sample_valid: "Validate sample_gu sample_file = None"
  by code_simp

lemma sample_resolves: "Resolve sample_gu sample_file = Inr (buildRuntime sample_file)"
  by (simp add: Resolve_def sample_valid)

lemma sample_match:
  "MatchRoute (buildRuntime sample_file) True 10 ''gpt-4'' = Some (f_routes sample_file ! 1)"
  by code_simp

section \<open>Properties\<close>

text \<open>C12. Validation accepts a document exactly when the declarative predicate holds of it.\<close>

theorem Validate_iff_valid: "Validate gu f = None \<longleftrightarrow> valid_file gu f"
  by (rule Validate_None_iff)

text \<open>
  A rejected document puts at most ten bytes of any of its values into the error that is logged;
  the log level and the user-agent style are the two values echoed whole.
\<close>

theorem Validate_echoes:
  assumes "Validate gu f = Some err"
  shows "bounded_error err \<or> err = ELogLevel (f_log_level f) \<or> err = EStyle (ua_style (f_user_agent f))"
  by (rule Validate_error_bounded [OF assms])

theorem Validate_echoes_witness:
  "bounded_error (ERouteUnknownEgress ''default'' ''no-such...'' [''b'', ''direct''])"
proof -
  have "Validate sample_gu bad_file =
          Some (ERouteUnknownEgress ''default'' ''no-such...'' [''b'', ''direct''])"
    by code_simp
  from Validate_echoes [OF this] show ?thesis by simp
qed

text \<open>
  C13. Resolution accepts exactly the valid documents, and the snapshot it builds is well formed:
  every reference of every route resolves, no route repeats an egress, a weighted route has a
  positive weight, routes stand in descending priority, the attempt budget is at least one.
\<close>

theorem Resolve_snapshot:
  assumes "Resolve gu f = Inr rt"
  shows "valid_file gu f \<and> wf_runtime rt"
  using Resolve_valid [OF assms] Resolve_wf_runtime [OF assms] by simp

theorem Resolve_snapshot_witness:
  "valid_file sample_gu sample_file \<and> wf_runtime (buildRuntime sample_file)"
  by (rule Resolve_snapshot [OF sample_resolves])

text \<open>
  C14. A request matches the matching route of highest priority, the first in document order among
  equal priorities, and no route when none matches.
\<close>

theorem MatchRoute_priority:
  assumes "Resolve gu f = Inr rt"
  shows "MatchRoute rt streaming body model =
           best_route (filter (\<lambda>r. matchHolds (r_match r) streaming body model) (f_routes f))"
  by (rule MatchRoute_best [OF assms])

theorem MatchRoute_priority_witness:
  "MatchRoute (buildRuntime sample_file) True 10 ''gpt-4'' =
     best_route (filter (\<lambda>r. matchHolds (r_match r) True 10 ''gpt-4'') (f_routes sample_file))"
  by (rule MatchRoute_priority [OF sample_resolves])

text \<open>
  Within a snapshot the health key of an egress determines its id and its transport: a reload
  that changes the proxy address or the id of an egress never inherits a cooldown.
\<close>

theorem HealthKey_injective:
  assumes "wf_runtime rt" and "wf_runtime rt'"
    and "Egress rt i = Some a" and "Egress rt' j = Some b" and "HealthKey a = HealthKey b"
  shows "i = j \<and> TransportSignature a = TransportSignature b"
proof -
  from assms(1-4) have "e_id a = i" "\<not> hasControlByte i" "e_id b = j" "\<not> hasControlByte j"
    by (auto simp: wf_runtime_def)
  then show ?thesis using HealthKey_split [OF _ _ assms(5)] hasControlByte_nul by auto
qed

theorem HealthKey_injective_witness:
  "''direct'' = ''direct'' \<and> TransportSignature direct_egress = TransportSignature direct_egress"
proof -
  have "Egress DefaultRuntime ''direct'' = Some direct_egress" by code_simp
  with DefaultRuntime_wf show ?thesis using HealthKey_injective by blast
qed

text \<open>
  Interpolation replaces each reference by its variable and copies the rest; an unset variable
  fails with the name of the first one unset.
\<close>

theorem Interpolate_expand:
  assumes "list_all seg_ok segs"
  shows "Interpolate env (concat (map seg_text segs)) = expand env segs"
  by (rule Interpolate_segments [OF assms])

theorem Interpolate_expand_witness:
  "Interpolate (\<lambda>k. if k = ''U'' then Some ''me'' else None)
     (concat (map seg_text [Lit ''socks5://'', Ref ''U'', Lit ''@p:1''])) = Inr ''socks5://me@p:1''"
proof -
  have "list_all seg_ok [Lit ''socks5://'', Ref ''U'', Lit ''@p:1'']" by simp
  from Interpolate_expand [OF this, of "\<lambda>k. if k = ''U'' then Some ''me'' else None"]
  show ?thesis by simp
qed

end
