(* ===== verification/ConfigStore.thy ===== *)
theory ConfigStore
  imports ConfigResolve
begin

text \<open>
  The snapshot store (\<^verbatim>\<open>internal/config/store.go\<close>): the load pipeline from bytes to a snapshot, the
  poller's tick, and the lifetime of a store as a step relation. What the store promises its readers
  is the locale \<open>snapshot_source\<close>; the store's step relation interprets it.
\<close>

section \<open>Loading\<close>

text \<open>
  The world a load depends on: the environment, the URL parser, the YAML decoder with the document's
  field tags, and the hexadecimal SHA-256 digest.
\<close>

record load_env =
  le_env :: "string \<Rightarrow> string option"
  le_url :: go_url
  le_yaml :: "string \<Rightarrow> string + cfg_file"
  le_sha :: "string \<Rightarrow> string"

datatype load_error = LRead string | LInterpolate interp_error | LYaml string | LInvalid cfg_error

definition LoadBytes :: "load_env \<Rightarrow> string \<Rightarrow> load_error + runtime" where
  "LoadBytes io raw = (case Interpolate (le_env io) raw of
     Inl err \<Rightarrow> Inl (LInterpolate err)
   | Inr interpolated \<Rightarrow> (case le_yaml io interpolated of
       Inl err \<Rightarrow> Inl (LYaml err)
     | Inr f \<Rightarrow> (case Resolve (le_url io) f of
         Inl err \<Rightarrow> Inl (LInvalid err)
       | Inr rt \<Rightarrow> Inr rt)))"

text \<open>\<open>contents\<close> is what \<^verbatim>\<open>os.ReadFile\<close> returns at the moment of the call.\<close>

definition LoadFile :: "load_env \<Rightarrow> string + string \<Rightarrow> load_error + runtime" where
  "LoadFile io contents = (case contents of Inl err \<Rightarrow> Inl (LRead err) | Inr raw \<Rightarrow> LoadBytes io raw)"

definition readStamped :: "load_env \<Rightarrow> string + string \<Rightarrow> load_error + string \<times> string" where
  "readStamped io contents = (case contents of
     Inl err \<Rightarrow> Inl (LRead err) | Inr raw \<Rightarrow> Inr (raw, le_sha io raw))"

section \<open>The store\<close>

datatype log_lvl = DebugLevel | InfoLevel | WarnLevel | ErrorLevel

text \<open>Levels are ordered: an event is written when its level is at least the process-wide one.\<close>

primrec lvl_rank :: "log_lvl \<Rightarrow> nat" where
  "lvl_rank DebugLevel = 0"
| "lvl_rank InfoLevel = 1"
| "lvl_rank WarnLevel = 2"
| "lvl_rank ErrorLevel = 3"

lemma lvl_rank_eq: "lvl_rank a = lvl_rank b \<longleftrightarrow> a = b"
  by (cases a; cases b) simp_all

instantiation log_lvl :: linorder
begin

definition less_eq_log_lvl :: "log_lvl \<Rightarrow> log_lvl \<Rightarrow> bool" where
  "less_eq_log_lvl a b \<longleftrightarrow> lvl_rank a \<le> lvl_rank b"

definition less_log_lvl :: "log_lvl \<Rightarrow> log_lvl \<Rightarrow> bool" where
  "less_log_lvl a b \<longleftrightarrow> lvl_rank a < lvl_rank b"

instance
  by standard (auto simp: less_eq_log_lvl_def less_log_lvl_def lvl_rank_eq)

end

definition ParseZerologLevel :: "string \<Rightarrow> log_lvl" where
  "ParseZerologLevel level =
     (if level = ''debug'' then DebugLevel
      else if level = ''warn'' then WarnLevel
      else if level = ''error'' then ErrorLevel
      else InfoLevel)"

datatype poller = PollerOff | PollerRunning | PollerStopped

text \<open>
  \<open>st_last_hash\<close> is the poller's local compare seed, \<open>st_level\<close> the process-wide log level the
  poller writes; \<open>st_has_stop\<close> says whether the stop channel exists.
\<close>

record store =
  st_cur :: runtime
  st_gen :: nat
  st_last_hash :: string
  st_interval :: int
  st_has_stop :: bool
  st_poller :: poller
  st_level :: log_lvl

definition NewStore :: "load_env \<Rightarrow> string + string \<Rightarrow> int \<Rightarrow> log_lvl \<Rightarrow> load_error + store" where
  "NewStore io contents interval level = (case readStamped io contents of
     Inl err \<Rightarrow> Inl err
   | Inr (raw, digest) \<Rightarrow> (case LoadBytes io raw of
       Inl err \<Rightarrow> Inl err
     | Inr rt \<Rightarrow> Inr \<lparr>st_cur = rt\<lparr>rt_generation := 1\<rparr>, st_gen = 1, st_last_hash = digest,
                      st_interval = interval, st_has_stop = True,
                      st_poller = (if interval > 0 then PollerRunning else PollerOff),
                      st_level = level\<rparr>))"

definition NewDefault :: "log_lvl \<Rightarrow> store" where
  "NewDefault level = \<lparr>st_cur = DefaultRuntime, st_gen = 0, st_last_hash = [], st_interval = 0,
     st_has_stop = False, st_poller = PollerOff, st_level = level\<rparr>"

definition Get :: "store \<Rightarrow> runtime" where
  "Get s = st_cur s"

definition Stop :: "store \<Rightarrow> store" where
  "Stop s = (if \<not> st_has_stop s \<or> st_interval s \<le> 0 then s else s\<lparr>st_poller := PollerStopped\<rparr>)"

definition tick :: "load_env \<Rightarrow> string + string \<Rightarrow> store \<Rightarrow> store" where
  "tick io contents s = (case readStamped io contents of
     Inl _ \<Rightarrow> s
   | Inr (raw, hash) \<Rightarrow>
       if hash = st_last_hash s then s
       else case LoadBytes io raw of
         Inl _ \<Rightarrow> s
       | Inr rt \<Rightarrow>
           let g = st_gen s + 1; rt' = rt\<lparr>rt_generation := g\<rparr> in
           s\<lparr>st_last_hash := hash, st_gen := g, st_cur := rt',
             st_level := ParseZerologLevel (rt_log_level rt')\<rparr>)"

text \<open>The poll loop: while it runs, each turn is a tick on whatever the file holds, or the stop.\<close>

inductive poll :: "load_env \<Rightarrow> store \<Rightarrow> store \<Rightarrow> bool" for io where
  poll_tick: "st_poller s = PollerRunning \<Longrightarrow> poll io s (tick io contents s)"
| poll_stop: "poll io s (Stop s)"

inductive_cases poll_cases: "poll io s s'"

section \<open>What a snapshot source promises\<close>

locale snapshot_source =
  fixes step :: "'s \<Rightarrow> 's \<Rightarrow> bool" and snap :: "'s \<Rightarrow> runtime" and ok :: "'s \<Rightarrow> bool"
  assumes ok_wf: "ok s \<Longrightarrow> wf_runtime (snap s)"
    and ok_step: "ok s \<Longrightarrow> step s s' \<Longrightarrow> ok s'"
    and snap_step: "ok s \<Longrightarrow> step s s' \<Longrightarrow>
          snap s' = snap s \<or> rt_generation (snap s) < rt_generation (snap s')"
begin

lemma ok_steps: "step\<^sup>*\<^sup>* s s' \<Longrightarrow> ok s \<Longrightarrow> ok s'"
  by (induction rule: rtranclp_induct) (auto intro: ok_step)

lemma generation_mono:
  "step\<^sup>*\<^sup>* s s' \<Longrightarrow> ok s \<Longrightarrow> snap s' = snap s \<or> rt_generation (snap s) < rt_generation (snap s')"
proof (induction rule: rtranclp_induct)
  case (step t u)
  have "ok t" using step.hyps(1) step.prems by (rule ok_steps)
  with step show ?case using snap_step [of t u] by fastforce
qed simp

text \<open>A generation number names one snapshot, whatever happens between two reads.\<close>

lemma generation_names_snapshot:
  assumes "step\<^sup>*\<^sup>* s s'" and "ok s" and "rt_generation (snap s') = rt_generation (snap s)"
  shows "snap s' = snap s"
  using generation_mono [OF assms(1,2)] assms(3) by simp

lemma always_wf: "step\<^sup>*\<^sup>* s s' \<Longrightarrow> ok s \<Longrightarrow> wf_runtime (snap s')"
  by (blast intro: ok_steps ok_wf)

end

section \<open>The store keeps the promise\<close>

lemma wf_runtime_generation [simp]: "wf_runtime (rt\<lparr>rt_generation := g\<rparr>) = wf_runtime rt"
  by (simp add: wf_runtime_def wf_route_def Egress_def HealthThreshold_def HealthCooldown_def)

lemma LoadBytes_wf: "LoadBytes io raw = Inr rt \<Longrightarrow> wf_runtime rt"
  by (auto simp: LoadBytes_def Resolve_wf_runtime split: sum.splits)

text \<open>
  The invariant of a file-backed store: the snapshot was loaded, in one piece, from bytes whose
  digest is the compare seed, and it carries the store's generation.
\<close>

definition stamped :: "load_env \<Rightarrow> store \<Rightarrow> bool" where
  "stamped io s \<longleftrightarrow> (\<exists>raw rt. LoadBytes io raw = Inr rt \<and> st_last_hash s = le_sha io raw
     \<and> st_cur s = rt\<lparr>rt_generation := st_gen s\<rparr> \<and> 1 \<le> st_gen s)"

definition store_ok :: "load_env \<Rightarrow> store \<Rightarrow> bool" where
  "store_ok io s \<longleftrightarrow> s\<lparr>st_level := InfoLevel\<rparr> = NewDefault InfoLevel \<or> stamped io s"

lemma NewDefault_ok: "store_ok io (NewDefault level)"
  by (simp add: store_ok_def NewDefault_def)

lemma NewStore_stamped: "NewStore io contents interval level = Inr s \<Longrightarrow> stamped io s"
  by (auto simp: NewStore_def readStamped_def stamped_def split: sum.splits) blast

lemma tick_stamped: "stamped io s \<Longrightarrow> stamped io (tick io contents s)"
  by (cases contents; cases "LoadBytes io (projr contents)")
     (auto simp: tick_def readStamped_def Let_def stamped_def)

lemma Stop_stamped [simp]: "stamped io (Stop s) = stamped io s"
  by (simp add: Stop_def stamped_def)

lemma store_ok_step: "store_ok io s \<Longrightarrow> poll io s s' \<Longrightarrow> store_ok io s'"
proof (erule poll_cases)
  fix contents
  assume a: "store_ok io s" "s' = tick io contents s" "st_poller s = PollerRunning"
  then have "stamped io s"
    by (auto simp: store_ok_def NewDefault_def) (metis poller.distinct(1) store.select_convs(6) store.surjective store.update_convs(7))
  with a show "store_ok io s'" by (simp add: store_ok_def tick_stamped)
next
  assume a: "store_ok io s" "s' = Stop s"
  show "store_ok io s'"
  proof (cases "stamped io s")
    case False
    with a have "s\<lparr>st_level := InfoLevel\<rparr> = NewDefault InfoLevel" by (simp add: store_ok_def)
    then have "\<not> st_has_stop (s\<lparr>st_level := InfoLevel\<rparr>)" by (simp add: NewDefault_def)
    then have "Stop s = s" by (simp add: Stop_def)
    with a show ?thesis by simp
  qed (simp add: a store_ok_def)
qed

lemma store_ok_wf: "store_ok io s \<Longrightarrow> wf_runtime (Get s)"
proof (cases "stamped io s")
  case False
  assume "store_ok io s"
  with False have "s\<lparr>st_level := InfoLevel\<rparr> = NewDefault InfoLevel" by (simp add: store_ok_def)
  then have "st_cur (s\<lparr>st_level := InfoLevel\<rparr>) = DefaultRuntime" by (simp add: NewDefault_def)
  then show ?thesis by (simp add: Get_def DefaultRuntime_wf)
qed (auto simp: stamped_def Get_def LoadBytes_wf)

lemma tick_cases:
  "tick io contents s = s \<or>
   (\<exists>raw rt. contents = Inr raw \<and> LoadBytes io raw = Inr rt \<and> le_sha io raw \<noteq> st_last_hash s \<and>
      tick io contents s =
        s\<lparr>st_last_hash := le_sha io raw, st_gen := st_gen s + 1,
          st_cur := rt\<lparr>rt_generation := st_gen s + 1\<rparr>,
          st_level := ParseZerologLevel (rt_log_level rt)\<rparr>)"
  by (cases contents; cases "LoadBytes io (projr contents)")
     (auto simp: tick_def readStamped_def Let_def)

lemma store_snap_step:
  "store_ok io s \<Longrightarrow> poll io s s' \<Longrightarrow>
     Get s' = Get s \<or> rt_generation (Get s) < rt_generation (Get s')"
proof (erule poll_cases)
  fix contents
  assume a: "store_ok io s" "s' = tick io contents s" "st_poller s = PollerRunning"
  have g: "rt_generation (Get s) = st_gen s"
  proof (cases "stamped io s")
    case False
    with a(1) have "s\<lparr>st_level := InfoLevel\<rparr> = NewDefault InfoLevel" by (simp add: store_ok_def)
    then have "st_cur (s\<lparr>st_level := InfoLevel\<rparr>) = DefaultRuntime"
      and "st_gen (s\<lparr>st_level := InfoLevel\<rparr>) = 0" by (simp_all add: NewDefault_def)
    then show ?thesis by (simp add: Get_def DefaultRuntime_def)
  qed (auto simp: stamped_def Get_def)
  show ?thesis using tick_cases [of io contents s] g by (auto simp: a Get_def)
qed (simp add: Get_def Stop_def)

interpretation cfg_store: snapshot_source "poll io" Get "store_ok io" for io
  by unfold_locales (auto intro: store_ok_wf store_ok_step dest: store_snap_step)

definition sample_io :: load_env where
  "sample_io = \<lparr>le_env = (\<lambda>_. None), le_url = sample_gu,
     le_yaml = (\<lambda>s. if s = ''v1'' then Inr sample_file else Inl ''bad''), le_sha = (\<lambda>s. s)\<rparr>"

definition sample_store :: store where
  "sample_store = \<lparr>st_cur = (buildRuntime sample_file)\<lparr>rt_generation := 1\<rparr>, st_gen = 1,
     st_last_hash = ''v1'', st_interval = 1, st_has_stop = True, st_poller = PollerRunning,
     st_level = InfoLevel\<rparr>"

section \<open>Properties\<close>

text \<open>
  C23. Whatever is written to the file and however often it is polled, a reader of the store always
  gets a well-formed snapshot, and two reads that see the same generation number see the same
  snapshot.
\<close>

theorem store_snapshots:
  assumes "NewStore io contents interval level = Inr s" and "(poll io)\<^sup>*\<^sup>* s t" and "(poll io)\<^sup>*\<^sup>* t u"
  shows "wf_runtime (Get u) \<and> rt_generation (Get t) \<le> rt_generation (Get u) \<and>
         (rt_generation (Get u) = rt_generation (Get t) \<longrightarrow> Get u = Get t)"
proof -
  have "store_ok io s" using NewStore_stamped [OF assms(1)] by (simp add: store_ok_def)
  then have t: "store_ok io t" by (rule cfg_store.ok_steps [OF assms(2)])
  show ?thesis
    using cfg_store.generation_mono [OF assms(3) t] cfg_store.always_wf [OF assms(3) t] by auto
qed

theorem store_snapshots_witness:
  "wf_runtime (Get (tick sample_io (Inr ''v2'') sample_store)) \<and>
   Get (tick sample_io (Inr ''v2'') sample_store) = Get sample_store"
proof -
  have i: "Interpolate (le_env sample_io) s = Inr s" if "CHR ''$'' \<notin> set s" for s
    using Interpolate_lit [OF that, of _ "[]"] by simp
  have l: "LoadBytes sample_io ''v1'' = Inr (buildRuntime sample_file)"
    by (simp add: LoadBytes_def i) (simp add: sample_io_def sample_resolves)
  have n: "NewStore sample_io (Inr ''v1'') 1 InfoLevel = Inr sample_store"
    by (simp add: NewStore_def readStamped_def l) (simp add: sample_store_def sample_io_def)
  have "st_poller sample_store = PollerRunning" by (simp add: sample_store_def)
  then have p: "(poll sample_io)\<^sup>*\<^sup>* sample_store (tick sample_io (Inr ''v2'') sample_store)"
    by (blast intro: poll_tick)
  have "LoadBytes sample_io ''v2'' = Inl (LYaml ''bad'')"
    by (simp add: LoadBytes_def i) (simp add: sample_io_def)
  then have "tick sample_io (Inr ''v2'') sample_store = sample_store"
    by (simp add: tick_def readStamped_def)
  then show ?thesis using store_snapshots [OF n rtranclp.rtrancl_refl p] by simp
qed

end
