(* ===== verification/Provenance.thy ===== *)
theory Provenance
  imports Prelude
begin

text \<open>
  Failure classes and provenance (\<^verbatim>\<open>internal/upstream/failure.go\<close>, \<^verbatim>\<open>provenance.go\<close>): which side of
  the wire failed, in which phase, and what is proven about the request. The traces the dialers and
  the write hook fill are a state machine over the events of one logical call.
\<close>

section \<open>Labels\<close>

datatype fclass =
    ClassSuccess | ClassConnectionError | ClassProxyAuthError | ClassTimeout | ClassUpstream429
  | ClassUpstream5xx | ClassClientError | ClassResponseStarted | ClassContextCanceled

fun class_string :: "fclass \<Rightarrow> string" where
  "class_string ClassSuccess = ''success''"
| "class_string ClassConnectionError = ''connection_error''"
| "class_string ClassProxyAuthError = ''proxy_auth_error''"
| "class_string ClassTimeout = ''timeout''"
| "class_string ClassUpstream429 = ''upstream_429''"
| "class_string ClassUpstream5xx = ''upstream_5xx''"
| "class_string ClassClientError = ''client_error''"
| "class_string ClassResponseStarted = ''response_started''"
| "class_string ClassContextCanceled = ''context_canceled''"

datatype origin = OriginNone | OriginUpstream | OriginAmbiguous | OriginTransport | OriginClient

fun origin_string :: "origin \<Rightarrow> string" where
  "origin_string OriginNone = []"
| "origin_string OriginUpstream = ''upstream''"
| "origin_string OriginAmbiguous = ''ambiguous''"
| "origin_string OriginTransport = ''transport''"
| "origin_string OriginClient = ''client''"

datatype failure_phase =
    PhaseNone | PhaseProxyConnect | PhaseProxyTLS | PhaseProxyAuth | PhaseSocks5Greeting
  | PhaseSocks5Auth | PhaseSocks5Connect | PhaseConnectWrite | PhaseConnectRead | PhaseTargetConnect
  | PhaseOriginTLS | PhaseRequestWrite | PhaseResponseHeaders | PhaseResponseBody

fun phase_string :: "failure_phase \<Rightarrow> string" where
  "phase_string PhaseNone = []"
| "phase_string PhaseProxyConnect = ''proxy_connect''"
| "phase_string PhaseProxyTLS = ''proxy_tls''"
| "phase_string PhaseProxyAuth = ''proxy_auth''"
| "phase_string PhaseSocks5Greeting = ''socks5_greeting''"
| "phase_string PhaseSocks5Auth = ''socks5_auth''"
| "phase_string PhaseSocks5Connect = ''socks5_connect''"
| "phase_string PhaseConnectWrite = ''connect_write''"
| "phase_string PhaseConnectRead = ''connect_read''"
| "phase_string PhaseTargetConnect = ''target_connect''"
| "phase_string PhaseOriginTLS = ''origin_tls''"
| "phase_string PhaseRequestWrite = ''request_write''"
| "phase_string PhaseResponseHeaders = ''response_headers''"
| "phase_string PhaseResponseBody = ''response_body''"

datatype request_state = StateUnknown | StateNotSent | StateResponseStarted

fun state_string :: "request_state \<Rightarrow> string" where
  "state_string StateNotSent = ''not_sent''"
| "state_string StateResponseStarted = ''response_started''"
| "state_string StateUnknown = ''unknown''"

record failure =
  fl_class :: fclass
  fl_origin :: origin
  fl_phase :: failure_phase
  fl_state :: request_state

section \<open>The two predicates\<close>

definition ReplaySafe :: "failure \<Rightarrow> bool" where
  "ReplaySafe f \<longleftrightarrow> fl_origin f = OriginTransport \<and> fl_state f = StateNotSent"

definition MarksEgressHealth :: "failure \<Rightarrow> bool" where
  "MarksEgressHealth f =
     (if fl_origin f \<noteq> OriginTransport then False
      else fl_phase f \<in> {PhaseProxyConnect, PhaseProxyTLS, PhaseProxyAuth, PhaseSocks5Greeting,
                         PhaseSocks5Auth, PhaseConnectWrite})"

section \<open>Responses\<close>

record hop_path =
  hp_intermediated :: bool

definition responseOrigin :: "hop_path \<Rightarrow> origin" where
  "responseOrigin p = (if hp_intermediated p then OriginAmbiguous else OriginUpstream)"

definition responseState :: "hop_path \<Rightarrow> request_state" where
  "responseState p = (if hp_intermediated p then StateUnknown else StateResponseStarted)"

definition classifyStatusFor :: "int \<Rightarrow> fclass" where
  "classifyStatusFor status =
     (if status = 429 then ClassUpstream429
      else if status \<ge> 500 then ClassUpstream5xx
      else ClassClientError)"

definition statusFailure :: "int \<Rightarrow> hop_path \<Rightarrow> failure" where
  "statusFailure status p = \<lparr>fl_class = classifyStatusFor status, fl_origin = responseOrigin p,
     fl_phase = PhaseResponseHeaders, fl_state = responseState p\<rparr>"

definition NoDialFailure :: failure where
  "NoDialFailure = \<lparr>fl_class = ClassConnectionError, fl_origin = OriginTransport,
     fl_phase = PhaseNone, fl_state = StateNotSent\<rparr>"

section \<open>Transport errors\<close>

text \<open>
  What \<^verbatim>\<open>errors.As\<close> finds in an error chain: a \<^verbatim>\<open>*proxyAuthError\<close>, a \<^verbatim>\<open>net.Error\<close> that timed out, the
  operation of a \<^verbatim>\<open>*net.OpError\<close>; and the error's text.
\<close>

record net_err =
  ne_proxy_auth :: bool
  ne_timeout :: bool
  ne_op :: "string option"
  ne_text :: string

definition classifyNetErrFor :: "bool \<Rightarrow> net_err \<Rightarrow> fclass" where
  "classifyNetErrFor ctx_done err =
     (if ctx_done then ClassContextCanceled
      else if ne_proxy_auth err then ClassProxyAuthError
      else if ne_timeout err then ClassTimeout
      else ClassConnectionError)"

definition postDialPhase :: "net_err \<Rightarrow> failure_phase" where
  "postDialPhase err =
     (if ne_timeout err then PhaseResponseHeaders
      else if ne_op err = Some ''write'' then PhaseRequestWrite
      else if ne_op err = Some ''read'' then PhaseResponseHeaders
      else PhaseNone)"

section \<open>Traces\<close>

record call_trace =
  ct_transmitted :: bool
  ct_responded :: bool

definition noteResponse :: "call_trace \<Rightarrow> call_trace" where
  "noteResponse c = c\<lparr>ct_responded := True\<rparr>"

definition call_state :: "call_trace \<Rightarrow> request_state" where
  "call_state c = (if ct_responded c then StateResponseStarted else StateUnknown)"

record dial_trace =
  dt_dialed :: bool
  dt_dial_ok :: bool
  dt_wrote :: bool
  dt_phase :: failure_phase

definition begin_dial :: "failure_phase \<Rightarrow> dial_trace \<Rightarrow> dial_trace" where
  "begin_dial p t = t\<lparr>dt_dialed := True, dt_phase := p\<rparr>"

definition enter :: "failure_phase \<Rightarrow> dial_trace \<Rightarrow> dial_trace" where
  "enter p t = t\<lparr>dt_phase := p\<rparr>"

definition succeeded :: "dial_trace \<Rightarrow> dial_trace" where
  "succeeded t = t\<lparr>dt_dial_ok := True\<rparr>"

definition markWrite :: "call_trace \<times> dial_trace \<Rightarrow> call_trace \<times> dial_trace" where
  "markWrite ct = (case ct of (c, t) \<Rightarrow> (c\<lparr>ct_transmitted := True\<rparr>, t\<lparr>dt_wrote := True\<rparr>))"

definition withHopTrace :: dial_trace where
  "withHopTrace = \<lparr>dt_dialed = False, dt_dial_ok = False, dt_wrote = False, dt_phase = PhaseNone\<rparr>"

definition newCall :: call_trace where
  "newCall = \<lparr>ct_transmitted = False, ct_responded = False\<rparr>"

text \<open>\<^const>\<open>None\<close> is the nil trace of a context that carries none.\<close>

definition provenance :: "(call_trace \<times> dial_trace) option \<Rightarrow> net_err \<Rightarrow> failure_phase \<times> request_state" where
  "provenance tr err = (case tr of
     None \<Rightarrow> (PhaseNone, StateUnknown)
   | Some (c, t) \<Rightarrow>
       let inheritCall = (ct_transmitted c \<or> ct_responded c) in
       if \<not> dt_dialed t then
         (if inheritCall then (PhaseNone, call_state c) else (PhaseNone, StateUnknown))
       else if \<not> dt_dial_ok t then
         (if inheritCall then (dt_phase t, call_state c) else (dt_phase t, StateNotSent))
       else if \<not> dt_wrote t then
         (if inheritCall then (PhaseNone, call_state c) else (PhaseNone, StateNotSent))
       else
         (if inheritCall then (postDialPhase err, call_state c) else (postDialPhase err, StateUnknown)))"

definition classifyTransportFailure :: "bool \<Rightarrow> net_err \<Rightarrow> (call_trace \<times> dial_trace) option \<Rightarrow> failure" where
  "classifyTransportFailure ctx_done err tr =
     (let cls = classifyNetErrFor ctx_done err;
          f = \<lparr>fl_class = cls, fl_origin = OriginTransport, fl_phase = PhaseNone, fl_state = StateUnknown\<rparr>
      in if cls = ClassContextCanceled then f\<lparr>fl_origin := OriginClient\<rparr>
         else case provenance tr err of (p, s) \<Rightarrow> f\<lparr>fl_phase := p, fl_state := s\<rparr>)"

section \<open>The events of one logical call\<close>

text \<open>
  A call opens its hops one after the other. A hop's dialers and write hook may still report after a
  later hop was opened (an abandoned dial runs to completion), so an event names its hop.
\<close>

datatype trace_event =
    HopOpened
  | HopBegin nat failure_phase
  | HopEnter nat failure_phase
  | HopSucceeded nat
  | HopWrote nat
  | Responded

type_synonym call_record = "call_trace \<times> dial_trace list"

definition on_hop :: "nat \<Rightarrow> (dial_trace \<Rightarrow> dial_trace) \<Rightarrow> call_record \<Rightarrow> call_record" where
  "on_hop i f cr = (case cr of (c, hs) \<Rightarrow> if i < length hs then (c, hs[i := f (hs ! i)]) else (c, hs))"

fun record_event :: "trace_event \<Rightarrow> call_record \<Rightarrow> call_record" where
  "record_event HopOpened (c, hs) = (c, hs @ [withHopTrace])"
| "record_event (HopBegin i p) cr = on_hop i (begin_dial p) cr"
| "record_event (HopEnter i p) cr = on_hop i (enter p) cr"
| "record_event (HopSucceeded i) cr = on_hop i succeeded cr"
| "record_event (HopWrote i) (c, hs) =
     (if i < length hs then (case markWrite (c, hs ! i) of (c', t') \<Rightarrow> (c', hs[i := t'])) else (c, hs))"
| "record_event Responded (c, hs) = (noteResponse c, hs)"

definition record_events :: "trace_event list \<Rightarrow> call_record" where
  "record_events evs = fold record_event evs (newCall, [])"

text \<open>A history in which every event names a hop already opened.\<close>

fun well_timed_from :: "nat \<Rightarrow> trace_event list \<Rightarrow> bool" where
  "well_timed_from n [] = True"
| "well_timed_from n (HopOpened # evs) = well_timed_from (Suc n) evs"
| "well_timed_from n (HopBegin i p # evs) = (i < n \<and> well_timed_from n evs)"
| "well_timed_from n (HopEnter i p # evs) = (i < n \<and> well_timed_from n evs)"
| "well_timed_from n (HopSucceeded i # evs) = (i < n \<and> well_timed_from n evs)"
| "well_timed_from n (HopWrote i # evs) = (i < n \<and> well_timed_from n evs)"
| "well_timed_from n (Responded # evs) = well_timed_from n evs"

definition dialed_in :: "nat \<Rightarrow> trace_event list \<Rightarrow> bool" where
  "dialed_in i evs \<longleftrightarrow> (\<exists>p. HopBegin i p \<in> set evs)"

definition wrote_ever :: "trace_event list \<Rightarrow> bool" where
  "wrote_ever evs \<longleftrightarrow> (\<exists>i. HopWrote i \<in> set evs)"

lemma on_hop_simps [simp]:
  "fst (on_hop i f cr) = fst cr" "length (snd (on_hop i f cr)) = length (snd cr)"
  "i < length (snd cr) \<Longrightarrow> snd (on_hop i f cr) = (snd cr)[i := f (snd cr ! i)]"
  by (cases cr; simp add: on_hop_def)+

lemma run_call:
  "well_timed_from (length hs) evs \<Longrightarrow> fold record_event evs (c, hs) = (c', hs') \<Longrightarrow>
   (ct_transmitted c' \<longleftrightarrow> ct_transmitted c \<or> wrote_ever evs) \<and>
   (ct_responded c' \<longleftrightarrow> ct_responded c \<or> Responded \<in> set evs) \<and>
   length hs \<le> length hs' \<and>
   (\<forall>i < length hs'. dt_dialed (hs' ! i) \<longleftrightarrow> (i < length hs \<and> dt_dialed (hs ! i)) \<or> dialed_in i evs)"
proof (induction evs arbitrary: c hs)
  case Nil
  then show ?case by (auto simp: wrote_ever_def dialed_in_def)
next
  case (Cons e evs)
  show ?case
  proof (cases e)
    case HopOpened
    with Cons.prems Cons.IH [of "hs @ [withHopTrace]" c] show ?thesis
      by (auto simp: wrote_ever_def dialed_in_def nth_append withHopTrace_def)
  next
    case (HopBegin i p)
    with Cons.prems Cons.IH [of "hs[i := begin_dial p (hs ! i)]" c] show ?thesis
      by (auto simp: wrote_ever_def dialed_in_def on_hop_def begin_dial_def nth_list_update)
  next
    case (HopEnter i p)
    with Cons.prems Cons.IH [of "hs[i := enter p (hs ! i)]" c] show ?thesis
      by (auto simp: wrote_ever_def dialed_in_def on_hop_def enter_def nth_list_update)
  next
    case (HopSucceeded i)
    with Cons.prems Cons.IH [of "hs[i := succeeded (hs ! i)]" c] show ?thesis
      by (auto simp: wrote_ever_def dialed_in_def on_hop_def succeeded_def nth_list_update)
  next
    case (HopWrote i)
    with Cons.prems Cons.IH [of "hs[i := snd (markWrite (c, hs ! i))]" "fst (markWrite (c, hs ! i))"]
    show ?thesis by (auto simp: wrote_ever_def dialed_in_def markWrite_def nth_list_update)
  next
    case Responded
    with Cons.prems Cons.IH [of hs "noteResponse c"] show ?thesis
      by (auto simp: wrote_ever_def dialed_in_def noteResponse_def)
  qed
qed

section \<open>What the verdicts mean\<close>

lemma provenance_not_sent:
  "snd (provenance (Some (c, t)) err) = StateNotSent \<longleftrightarrow>
     dt_dialed t \<and> \<not> (dt_dial_ok t \<and> dt_wrote t) \<and> \<not> ct_transmitted c \<and> \<not> ct_responded c"
  by (auto simp: provenance_def Let_def call_state_def)

lemma statusFailure_terminal [simp]:
  "\<not> ReplaySafe (statusFailure status p)" "\<not> MarksEgressHealth (statusFailure status p)"
  by (simp_all add: ReplaySafe_def MarksEgressHealth_def statusFailure_def responseOrigin_def)

lemma canceled_terminal [simp]:
  "\<not> ReplaySafe (classifyTransportFailure True err tr)" "\<not> MarksEgressHealth (classifyTransportFailure True err tr)"
  by (simp_all add: ReplaySafe_def MarksEgressHealth_def classifyTransportFailure_def classifyNetErrFor_def Let_def)

lemma classify_fields:
  "fl_origin (classifyTransportFailure False err tr) = OriginTransport"
  "fl_phase (classifyTransportFailure False err tr) = fst (provenance tr err)"
  "fl_state (classifyTransportFailure False err tr) = snd (provenance tr err)"
  by (auto simp: classifyTransportFailure_def classifyNetErrFor_def Let_def split: prod.splits)

lemma record_events_facts:
  assumes "well_timed_from 0 evs" and "record_events evs = (c, hs)"
  shows "ct_transmitted c \<longleftrightarrow> wrote_ever evs" and "ct_responded c \<longleftrightarrow> Responded \<in> set evs"
    and "k < length hs \<Longrightarrow> dt_dialed (hs ! k) \<longleftrightarrow> dialed_in k evs"
  using run_call [of "[]" evs newCall c hs] assms by (simp_all add: record_events_def newCall_def)

lemma wrote_transmitted:
  assumes "record_events evs = (c, hs)" and "k < length hs"
  shows "dt_wrote (hs ! k) \<longrightarrow> ct_transmitted c"
proof -
  have "\<forall>i < length hs'. dt_wrote (hs' ! i) \<longrightarrow> ct_transmitted c'"
    if "fold record_event evs (c0, hs0) = (c', hs')" and "\<forall>i < length hs0. dt_wrote (hs0 ! i) \<longrightarrow> ct_transmitted c0"
    for c0 hs0 c' hs'
    using that
  proof (induction evs arbitrary: c0 hs0)
    case (Cons e evs)
    obtain c1 hs1 where e: "record_event e (c0, hs0) = (c1, hs1)" by (cases "record_event e (c0, hs0)")
    have "\<forall>i < length hs1. dt_wrote (hs1 ! i) \<longrightarrow> ct_transmitted c1"
      using e Cons.prems(2)
      by (cases e) (auto simp: on_hop_def begin_dial_def enter_def succeeded_def markWrite_def noteResponse_def
            withHopTrace_def nth_append nth_list_update split: if_splits)
    with Cons show ?case by (simp add: e)
  qed simp
  from this [of newCall "[]" c hs] assms show ?thesis by (simp add: record_events_def)
qed

text \<open>A marked egress failed in one of the steps performed against the egress endpoint.\<close>

lemma marks_phase:
  "MarksEgressHealth (classifyTransportFailure ctx err (Some (c, t))) \<Longrightarrow>
     \<not> ctx \<and> dt_dialed t \<and> \<not> dt_dial_ok t \<and>
     dt_phase t \<in> {PhaseProxyConnect, PhaseProxyTLS, PhaseProxyAuth, PhaseSocks5Greeting,
                    PhaseSocks5Auth, PhaseConnectWrite}"
proof (cases ctx)
  case False
  assume "MarksEgressHealth (classifyTransportFailure ctx err (Some (c, t)))"
  with False show ?thesis
    by (auto simp: MarksEgressHealth_def classify_fields provenance_def postDialPhase_def Let_def split: if_splits)
qed simp

section \<open>Properties\<close>

text \<open>
  C6. The verdict that authorises a re-send is exact. However the events of a call interleave, late
  reports of abandoned hops included, a transport failure of hop \<open>k\<close> is replay-safe if and only if the
  caller is still there, that hop started a dial, no hop of the call ever handed a request byte to a
  connection, and no hop was answered.
\<close>

theorem ReplaySafe_exact:
  assumes "well_timed_from 0 evs" and "record_events evs = (c, hs)" and "k < length hs"
  shows "ReplaySafe (classifyTransportFailure ctx_done err (Some (c, hs ! k))) \<longleftrightarrow>
           \<not> ctx_done \<and> dialed_in k evs \<and> \<not> wrote_ever evs \<and> Responded \<notin> set evs"
proof (cases ctx_done)
  case False
  show ?thesis
    using False wrote_transmitted [OF assms(2,3)] record_events_facts [OF assms(1,2)] assms(3)
    by (auto simp: ReplaySafe_def classify_fields provenance_not_sent)
qed simp

theorem ReplaySafe_exact_witness:
  "ReplaySafe (classifyTransportFailure False \<lparr>ne_proxy_auth = False, ne_timeout = True, ne_op = None, ne_text = []\<rparr>
     (Some (newCall, withHopTrace\<lparr>dt_dialed := True, dt_phase := PhaseOriginTLS\<rparr>)))"
proof -
  let ?evs = "[HopOpened, HopBegin 0 PhaseProxyConnect, HopEnter 0 PhaseOriginTLS]"
  have w: "well_timed_from 0 ?evs" by simp
  have r: "record_events ?evs = (newCall, [withHopTrace\<lparr>dt_dialed := True, dt_phase := PhaseOriginTLS\<rparr>])"
    by (simp add: record_events_def on_hop_def begin_dial_def enter_def)
  have "dialed_in 0 ?evs" "\<not> wrote_ever ?evs" by (auto simp: dialed_in_def wrote_ever_def)
  with ReplaySafe_exact [OF w r, of 0 False] show ?thesis by simp
qed

end
