(* ===== verification/Regex.thy ===== *)
theory Regex
  imports GoStrings
begin

text \<open>
  The regular expressions the program compiles (\<^verbatim>\<open>regexp\<close>): literals, byte classes with the
  repetitions \<open>+\<close>, \<open>*\<close> and \<open>{n}\<close>, optional groups, captures and the end anchor, matched leftmost
  first with greedy repetitions. A pattern is a list of pieces; a start-anchored pattern is matched
  with \<open>rx_match\<close>, any other is searched with \<open>rx_search\<close>. The class of letters is given by the byte,
  which is exact for every class used: none of them distinguishes bytes above 127.
\<close>

datatype piece =
    PByte "char \<Rightarrow> bool"
  | PStar "char \<Rightarrow> bool"
  | PPlus "char \<Rightarrow> bool"
  | PRep nat "char \<Rightarrow> bool"
  | POpt "piece list"
  | POpen
  | PClose
  | PEnd

type_synonym regex = "piece list"

function rx_run :: "regex \<Rightarrow> string \<Rightarrow> string \<Rightarrow> string list \<Rightarrow> (string list \<times> string) option" where
  "rx_run [] s st caps = Some (rev caps, s)"
| "rx_run (PByte P # ps) s st caps = (case s of [] \<Rightarrow> None | c # cs \<Rightarrow> if P c then rx_run ps cs st caps else None)"
| "rx_run (PStar P # ps) s st caps = (case s of
     [] \<Rightarrow> rx_run ps s st caps
   | c # cs \<Rightarrow> if P c then (case rx_run (PStar P # ps) cs st caps of
        Some r \<Rightarrow> Some r | None \<Rightarrow> rx_run ps s st caps) else rx_run ps s st caps)"
| "rx_run (PPlus P # ps) s st caps = (case s of
     [] \<Rightarrow> None | c # cs \<Rightarrow> if P c then rx_run (PStar P # ps) cs st caps else None)"
| "rx_run (PRep n P # ps) s st caps = (if n \<le> length s \<and> list_all P (take n s) then rx_run ps (drop n s) st caps else None)"
| "rx_run (POpt qs # ps) s st caps = (case rx_run (qs @ ps) s st caps of
     Some r \<Rightarrow> Some r | None \<Rightarrow> rx_run ps s st caps)"
| "rx_run (POpen # ps) s st caps = rx_run ps s s caps"
| "rx_run (PClose # ps) s st caps = rx_run ps s st (take (length st - length s) st # caps)"
| "rx_run (PEnd # ps) s st caps = (if s = [] then rx_run ps s st caps else None)"
  by pat_completeness auto
termination
  by (relation "measures [\<lambda>(ps, s, st, caps). length s, \<lambda>(ps, s, st, caps). size_list size ps]") auto

text \<open>The captured groups and the unread rest of the leftmost match.\<close>

definition rx_match :: "regex \<Rightarrow> string \<Rightarrow> (string list \<times> string) option" where
  "rx_match ps s = rx_run ps s [] []"

fun rx_search :: "regex \<Rightarrow> string \<Rightarrow> (string list \<times> string) option" where
  "rx_search ps [] = rx_match ps []"
| "rx_search ps (c # cs) = (case rx_match ps (c # cs) of Some r \<Rightarrow> Some r | None \<Rightarrow> rx_search ps cs)"

text \<open>A literal, and a literal up to ASCII case.\<close>

definition rx_lit :: "string \<Rightarrow> regex" where
  "rx_lit w = map (\<lambda>a. PByte (\<lambda>c. c = a)) w"

definition rx_fold :: "string \<Rightarrow> regex" where
  "rx_fold w = map (\<lambda>a. PByte (\<lambda>c. lowerByte c = lowerByte a)) w"

definition is_digit :: "char \<Rightarrow> bool" where
  "is_digit c \<longleftrightarrow> 48 \<le> (of_char c :: nat) \<and> (of_char c :: nat) \<le> 57"

definition is_lower :: "char \<Rightarrow> bool" where
  "is_lower c \<longleftrightarrow> 97 \<le> (of_char c :: nat) \<and> (of_char c :: nat) \<le> 122"

definition is_upper :: "char \<Rightarrow> bool" where
  "is_upper c \<longleftrightarrow> 65 \<le> (of_char c :: nat) \<and> (of_char c :: nat) \<le> 90"

definition is_alnum :: "char \<Rightarrow> bool" where
  "is_alnum c \<longleftrightarrow> is_digit c \<or> is_lower c \<or> is_upper c"

definition is_hex :: "char \<Rightarrow> bool" where
  "is_hex c \<longleftrightarrow> is_digit c \<or> (97 \<le> (of_char c :: nat) \<and> (of_char c :: nat) \<le> 102)"

text \<open>The class \<open>\s\<close>.\<close>

definition is_blank :: "char \<Rightarrow> bool" where
  "is_blank c \<longleftrightarrow> c \<in> {CHR 0x09, CHR 0x0A, CHR 0x0C, CHR 0x0D, CHR 0x20}"

text \<open>The text before the leftmost match.\<close>

fun rx_before :: "regex \<Rightarrow> string \<Rightarrow> string option" where
  "rx_before ps [] = (if rx_match ps [] = None then None else Some [])"
| "rx_before ps (c # cs) = (if rx_match ps (c # cs) \<noteq> None then Some [] else map_option ((#) c) (rx_before ps cs))"

text \<open>
  A lower-case literal under case folding: its \<open>s\<close> and \<open>k\<close> also match the long s (U+017F) and the Kelvin
  sign (U+212A). The rest of the text after the literal.
\<close>

fun foldDrop :: "string \<Rightarrow> string \<Rightarrow> string option" where
  "foldDrop [] s = Some s"
| "foldDrop (a # w) s =
     (if s \<noteq> [] \<and> lowerByte (hd s) = a then foldDrop w (tl s)
      else if a = CHR ''s'' \<and> hasPrefix s [CHR 0xC5, CHR 0xBF] then foldDrop w (drop 2 s)
      else if a = CHR ''k'' \<and> hasPrefix s [CHR 0xE2, CHR 0x84, CHR 0xAA] then foldDrop w (drop 3 s)
      else None)"

fun foldContains :: "string \<Rightarrow> string \<Rightarrow> bool" where
  "foldContains w [] = (foldDrop w [] \<noteq> None)"
| "foldContains w (c # cs) = (foldDrop w (c # cs) \<noteq> None \<or> foldContains w cs)"

lemma rx_run_lit: "rx_run (rx_lit w @ ps) s st caps =
    (if hasPrefix s w then rx_run ps (drop (length w) s) st caps else None)"
proof (induction w arbitrary: s)
  case Nil
  then show ?case by (simp add: rx_lit_def hasPrefix_iff)
next
  case (Cons a w)
  then show ?case by (cases s) (auto simp: rx_lit_def hasPrefix_iff)
qed

lemma rx_run_rep: "rx_run [PRep n P, PEnd] s st caps \<noteq> None \<longleftrightarrow> length s = n \<and> list_all P s"
  by (auto simp: le_antisym)

lemma rx_run_rep2: "rx_run [PRep n P, PRep k Q, PEnd] s st caps \<noteq> None \<longleftrightarrow>
    length s = n + k \<and> list_all P (take n s) \<and> list_all Q (drop n s)"
  by auto

end
