(* ===== verification/Float64.thy ===== *)
theory Float64
  imports Regex Complex_Main
begin

text \<open>
  \<^verbatim>\<open>float64\<close> values: a finite value is the rational it denotes (the two zeros are one), besides the two
  infinities and NaN. Rounding to the nearest double, which may overflow to an infinity, is a parameter,
  as are the texts \<^verbatim>\<open>strconv\<close> parses and prints.
\<close>

datatype f64 = Fin rat | PInf | NInf | NaN

datatype parse_err = ErrSyntax | ErrRange

record num_env =
  ne_round :: "rat \<Rightarrow> f64"
  ne_parse :: "string \<Rightarrow> f64 \<times> parse_err option"
  ne_format_f :: "rat \<Rightarrow> string"
  ne_format_g :: "rat \<Rightarrow> string"

definition isInf :: "f64 \<Rightarrow> bool" where
  "isInf x \<longleftrightarrow> x = PInf \<or> x = NInf"

definition finite64 :: "f64 \<Rightarrow> bool" where
  "finite64 x \<longleftrightarrow> (\<exists>q. x = Fin q)"

lemma finite64_code [code]: "finite64 x = (case x of Fin _ \<Rightarrow> True | _ \<Rightarrow> False)"
  by (cases x) (simp_all add: finite64_def)

fun f_add :: "num_env \<Rightarrow> f64 \<Rightarrow> f64 \<Rightarrow> f64" where
  "f_add N (Fin a) (Fin b) = ne_round N (a + b)"
| "f_add N NaN _ = NaN"
| "f_add N _ NaN = NaN"
| "f_add N PInf NInf = NaN"
| "f_add N NInf PInf = NaN"
| "f_add N PInf _ = PInf"
| "f_add N _ PInf = PInf"
| "f_add N NInf _ = NInf"
| "f_add N _ NInf = NInf"

fun f_mul :: "num_env \<Rightarrow> f64 \<Rightarrow> f64 \<Rightarrow> f64" where
  "f_mul N (Fin a) (Fin b) = ne_round N (a * b)"
| "f_mul N NaN _ = NaN"
| "f_mul N _ NaN = NaN"
| "f_mul N (Fin a) x = (if a = 0 then NaN else if (0 < a) = (x = PInf) then PInf else NInf)"
| "f_mul N x (Fin a) = (if a = 0 then NaN else if (0 < a) = (x = PInf) then PInf else NInf)"
| "f_mul N x y = (if x = y then PInf else NInf)"

fun f_lt :: "f64 \<Rightarrow> f64 \<Rightarrow> bool" where
  "f_lt (Fin a) (Fin b) = (a < b)"
| "f_lt NaN _ = False"
| "f_lt _ NaN = False"
| "f_lt PInf _ = False"
| "f_lt _ PInf = True"
| "f_lt NInf NInf = False"
| "f_lt NInf _ = True"
| "f_lt _ NInf = False"

text \<open>\<^verbatim>\<open>math.Max\<close>, \<^verbatim>\<open>math.Floor\<close> and \<^verbatim>\<open>math.Ceil\<close>.\<close>

definition f_max :: "f64 \<Rightarrow> f64 \<Rightarrow> f64" where
  "f_max x y = (if x = PInf \<or> y = PInf then PInf else if x = NaN \<or> y = NaN then NaN else if f_lt x y then y else x)"

fun f_floor :: "f64 \<Rightarrow> f64" where
  "f_floor (Fin q) = Fin (of_int \<lfloor>q\<rfloor>)"
| "f_floor x = x"

fun f_ceil :: "f64 \<Rightarrow> f64" where
  "f_ceil (Fin q) = Fin (of_int \<lceil>q\<rceil>)"
| "f_ceil x = x"

end
