(* ===== verification/Json.thy ===== *)
theory Json
  imports Float64
begin

text \<open>
  Decoded JSON values and the helpers over them (\<^verbatim>\<open>internal/jsonx/jsonx.go\<close>). The text codec of
  \<^verbatim>\<open>encoding/json\<close> is a parameter of the functions that read or print a document.
\<close>

datatype json =
    JNull
  | JBool bool
  | JNum f64
  | JStr string
  | JArr "json list"
  | JObj "(string \<times> json) list"

definition AsObj :: "json option \<Rightarrow> (string, json) gomap option" where
  "AsObj v = (case v of Some (JObj m) \<Rightarrow> Some m | _ \<Rightarrow> None)"

definition AsArr :: "json option \<Rightarrow> json list option" where
  "AsArr v = (case v of Some (JArr a) \<Rightarrow> Some a | _ \<Rightarrow> None)"

definition AsStr :: "json option \<Rightarrow> string" where
  "AsStr v = (case v of Some (JStr s) \<Rightarrow> s | _ \<Rightarrow> [])"

definition AsF64 :: "json option \<Rightarrow> f64" where
  "AsF64 v = (case v of Some (JNum n) \<Rightarrow> n | _ \<Rightarrow> Fin 0)"

fun Truthy :: "json option \<Rightarrow> bool" where
  "Truthy None = False"
| "Truthy (Some JNull) = False"
| "Truthy (Some (JBool b)) = b"
| "Truthy (Some (JNum n)) = (n \<noteq> Fin 0)"
| "Truthy (Some (JStr s)) = (s \<noteq> [])"
| "Truthy (Some (JArr _)) = True"
| "Truthy (Some (JObj _)) = True"

definition JGet :: "json option \<Rightarrow> string \<Rightarrow> json option" where
  "JGet m key = (case AsObj m of None \<Rightarrow> None | Some o1 \<Rightarrow> gm_get o1 key)"

definition JSet :: "json \<Rightarrow> string \<Rightarrow> json \<Rightarrow> json" where
  "JSet m key v = (case AsObj (Some m) of None \<Rightarrow> m | Some o1 \<Rightarrow> JObj (gm_set key v o1))"

definition JDelete :: "json \<Rightarrow> string list \<Rightarrow> json" where
  "JDelete m keys = (case AsObj (Some m) of None \<Rightarrow> m | Some o1 \<Rightarrow> JObj (fold gm_del keys o1))"

definition JHas :: "json option \<Rightarrow> string \<Rightarrow> bool" where
  "JHas m key = (case AsObj m of None \<Rightarrow> False | Some o1 \<Rightarrow> gm_get o1 key \<noteq> None)"

definition ObjOf :: "(string \<times> json) list \<Rightarrow> json" where
  "ObjOf kvs = JObj (fold (\<lambda>(k, v) m. gm_set k v m) kvs [])"

definition ArrOf :: "json list \<Rightarrow> json" where
  "ArrOf items = JArr items"

text \<open>Decoding into a \<^verbatim>\<open>map[string]any\<close>: an object, or \<^verbatim>\<open>null\<close> as the empty map; anything else fails.\<close>

definition decodeMap :: "(string \<Rightarrow> json option) \<Rightarrow> string \<Rightarrow> (string, json) gomap option" where
  "decodeMap dec raw = (case dec raw of
     Some (JObj m) \<Rightarrow> Some m
   | Some JNull \<Rightarrow> Some []
   | _ \<Rightarrow> None)"

section \<open>Values read from a map\<close>

text \<open>
  A Go value of type \<^verbatim>\<open>any\<close> is a \<open>json\<close> whose \<open>JNull\<close> is nil: reading an absent key gives nil.
\<close>

definition mget :: "(string, json) gomap \<Rightarrow> string \<Rightarrow> json" where
  "mget m k = (case gm_get m k of None \<Rightarrow> JNull | Some v \<Rightarrow> v)"

definition Get :: "json \<Rightarrow> string \<Rightarrow> json" where
  "Get v k = (case v of JObj m \<Rightarrow> mget m k | _ \<Rightarrow> JNull)"

definition has :: "(string, json) gomap \<Rightarrow> string \<Rightarrow> bool" where
  "has m k \<longleftrightarrow> gm_get m k \<noteq> None"

definition asObj :: "json \<Rightarrow> (string, json) gomap option" where
  "asObj v = (case v of JObj m \<Rightarrow> Some m | _ \<Rightarrow> None)"

definition asArr :: "json \<Rightarrow> json list option" where
  "asArr v = (case v of JArr a \<Rightarrow> Some a | _ \<Rightarrow> None)"

definition asStr :: "json \<Rightarrow> string" where
  "asStr v = (case v of JStr s \<Rightarrow> s | _ \<Rightarrow> [])"

definition truthy :: "json \<Rightarrow> bool" where
  "truthy v = Truthy (Some v)"

section \<open>Number coercion\<close>

definition rx_exponent :: regex where
  "rx_exponent = [POpt [PByte (\<lambda>c. c = CHR ''e'' \<or> c = CHR ''E''), POpt [PByte (\<lambda>c. c = CHR ''+'' \<or> c = CHR ''-'')], PPlus is_digit]]"

definition rx_sign :: piece where
  "rx_sign = POpt [PByte (\<lambda>c. c = CHR ''+'' \<or> c = CHR ''-'')]"

text \<open>The two alternatives of the mantissa, each under its own pattern.\<close>

definition jsDecimalRe :: "regex list" where
  "jsDecimalRe =
     [rx_sign # PPlus is_digit # POpt (rx_lit ''.'' @ [PStar is_digit]) # rx_exponent @ [PEnd],
      rx_sign # rx_lit ''.'' @ PPlus is_digit # rx_exponent @ [PEnd]]"

definition jsNumberString :: "num_env \<Rightarrow> string \<Rightarrow> f64 option" where
  "jsNumberString N s =
     (if s = [] then Some (Fin 0)
      else if s = ''Infinity'' \<or> s = ''+Infinity'' then Some PInf
      else if s = ''-Infinity'' then Some NInf
      else if \<not> list_ex (\<lambda>re. rx_match re s \<noteq> None) jsDecimalRe then None
      else case ne_parse N s of
        (f, None) \<Rightarrow> Some f
      | (f, Some ErrRange) \<Rightarrow> Some f
      | (f, Some ErrSyntax) \<Rightarrow> None)"

definition NumCoerce :: "num_env \<Rightarrow> json \<Rightarrow> f64" where
  "NumCoerce N v = (case v of
     JNum t \<Rightarrow> if t = NaN then Fin 0 else t
   | JBool b \<Rightarrow> if b then Fin 1 else Fin 0
   | JStr s \<Rightarrow> (case jsNumberString N (trimSpace s) of Some n \<Rightarrow> n | None \<Rightarrow> Fin 0)
   | _ \<Rightarrow> Fin 0)"

text \<open>
  \<^verbatim>\<open>Clone\<close>: a copy through the text codec; \<open>enc\<close> fails on values \<^verbatim>\<open>json.Marshal\<close> refuses, such as a
  number that is not finite.
\<close>

definition Clone :: "(json \<Rightarrow> string option) \<Rightarrow> (string \<Rightarrow> json option) \<Rightarrow> json \<Rightarrow> json" where
  "Clone enc dec v = (case enc v of
     None \<Rightarrow> JNull
   | Some b \<Rightarrow> (case dec b of None \<Rightarrow> JNull | Some out \<Rightarrow> out))"

lemma JGet_JSet: "AsObj (Some m) \<noteq> None \<Longrightarrow> JGet (Some (JSet m k v)) k' = (if k' = k then Some v else JGet (Some m) k')"
  by (auto simp: JGet_def JSet_def AsObj_def gm_get_set split: json.splits option.splits)

lemma fold_gm_del: "gm_get (fold gm_del ks m) k = (if k \<in> set ks then None else gm_get m k)"
  by (induction ks arbitrary: m) (auto simp: gm_get_del)

lemma JGet_JDelete:
  "JGet (Some (JDelete m ks)) k = (if k \<in> set ks then None else JGet (Some m) k)"
  by (auto simp: JGet_def JDelete_def AsObj_def fold_gm_del split: json.splits option.splits)

end
