(* ===== verification/Evidence.thy ===== *)
theory Evidence
  imports PathMatch Provenance Json "HOL-Library.Word" "HOL-Library.Char_ord" "HOL-Library.List_Lexorder"
    "HOL-Library.Product_Lexorder" "HOL-Library.Multiset"
begin

unbundle bit_operations_syntax

text \<open>
  The observational forensics of a request (\<^verbatim>\<open>internal/upstream/evidence.go\<close>): bounded rows, text
  made safe for a log field, message fingerprints and rate-limit headers. \<^verbatim>\<open>strings.ToLower\<close> (a
  Unicode mapping) and the JSON decoder are parameters.
\<close>

section \<open>Bounds\<close>

definition EvidenceMaxRows :: nat where "EvidenceMaxRows = 16"
definition EvidenceMessageBytes :: nat where "EvidenceMessageBytes = 512"
definition EvidencePeekBytes :: nat where "EvidencePeekBytes = 256"
definition EvidenceRateLimitEntries :: nat where "EvidenceRateLimitEntries = 8"
definition EvidenceRateLimitValueBytes :: nat where "EvidenceRateLimitValueBytes = 64"

section \<open>Rows and the recorder\<close>

record rate_limit =
  rl_retry_after :: string
  rl_entries :: "(string \<times> string) list"

record row =
  ro_phase :: string
  ro_egress :: string
  ro_egress_type :: string
  ro_attempt :: int
  ro_intent :: string
  ro_reason :: string
  ro_status :: int
  ro_class :: string
  ro_err_type :: string
  ro_err_code :: string
  ro_message :: string
  ro_body_peek :: string
  ro_body_bytes :: nat
  ro_truncated :: bool
  ro_fingerprint :: string
  ro_rate_limit :: "rate_limit option"
  ro_origin :: string
  ro_failure_phase :: string
  ro_request_state :: string
  ro_duration_ms :: int
  ro_in_flight :: int
  ro_health :: string
  ro_fallback :: string

definition zero_row :: row where
  "zero_row = \<lparr>ro_phase = [], ro_egress = [], ro_egress_type = [], ro_attempt = 0, ro_intent = [],
     ro_reason = [], ro_status = 0, ro_class = [], ro_err_type = [], ro_err_code = [], ro_message = [],
     ro_body_peek = [], ro_body_bytes = 0, ro_truncated = False, ro_fingerprint = [],
     ro_rate_limit = None, ro_origin = [], ro_failure_phase = [], ro_request_state = [],
     ro_duration_ms = 0, ro_in_flight = 0, ro_health = [], ro_fallback = []\<rparr>"

text \<open>A nil recorder is \<^const>\<open>None\<close>: every method accepts it.\<close>

record recorder_data =
  rc_rows :: "row list"
  rc_dropped :: nat

type_synonym recorder = "recorder_data option"

definition NewRecorder :: recorder where
  "NewRecorder = Some \<lparr>rc_rows = [], rc_dropped = 0\<rparr>"

definition Append :: "row \<Rightarrow> recorder \<Rightarrow> recorder" where
  "Append r rec = (case rec of
     None \<Rightarrow> None
   | Some d \<Rightarrow> if length (rc_rows d) \<ge> EvidenceMaxRows then Some (d\<lparr>rc_dropped := rc_dropped d + 1\<rparr>)
               else Some (d\<lparr>rc_rows := rc_rows d @ [r]\<rparr>))"

definition Len :: "recorder \<Rightarrow> nat" where
  "Len rec = (case rec of None \<Rightarrow> 0 | Some d \<Rightarrow> length (rc_rows d))"

definition Annotate :: "int \<Rightarrow> (row \<Rightarrow> row) \<Rightarrow> recorder \<Rightarrow> recorder" where
  "Annotate from f rec = (case rec of
     None \<Rightarrow> None
   | Some d \<Rightarrow>
       let n = nat (if from < 0 then 0 else from) in
       if n > length (rc_rows d) then Some d
       else Some (d\<lparr>rc_rows := take n (rc_rows d) @ map f (drop n (rc_rows d))\<rparr>))"

definition AnnotateAt :: "int \<Rightarrow> (row \<Rightarrow> row) \<Rightarrow> recorder \<Rightarrow> recorder" where
  "AnnotateAt i f rec = (case rec of
     None \<Rightarrow> None
   | Some d \<Rightarrow>
       if i < 0 \<or> i \<ge> int (length (rc_rows d)) then Some d
       else Some (d\<lparr>rc_rows := (rc_rows d)[nat i := f (rc_rows d ! nat i)]\<rparr>))"

definition Rows :: "recorder \<Rightarrow> row list" where
  "Rows rec = (case rec of None \<Rightarrow> [] | Some d \<Rightarrow> rc_rows d)"

definition Dropped :: "recorder \<Rightarrow> nat" where
  "Dropped rec = (case rec of None \<Rightarrow> 0 | Some d \<Rightarrow> rc_dropped d)"

section \<open>Safe text\<close>

definition ctlByte :: "char \<Rightarrow> bool" where
  "ctlByte c \<longleftrightarrow> (of_char c :: nat) < 0x20 \<or> (of_char c :: nat) = 0x7F"

text \<open>The scan: control bytes become blanks, runs of blanks collapse, leading runs keep one blank.\<close>

fun sanitizeScan :: "bool \<Rightarrow> string \<Rightarrow> string" where
  "sanitizeScan space [] = []"
| "sanitizeScan space (c # cs) =
     (let c' = (if ctlByte c then CHR '' '' else c) in
      if c' = CHR '' '' then sanitizeScan True cs
      else (if space then [CHR '' '', c'] else [c']) @ sanitizeScan False cs)"

definition runeStart :: "char \<Rightarrow> bool" where
  "runeStart c \<longleftrightarrow> \<not> contByte c"

text \<open>\<^verbatim>\<open>utf8.DecodeLastRuneInString\<close>: look back over at most three continuation bytes.\<close>

fun lastStart :: "nat \<Rightarrow> string \<Rightarrow> nat \<Rightarrow> nat" where
  "lastStart 0 s i = i"
| "lastStart (Suc k) s i = (if i = 0 then 0 else if runeStart (s ! (i - 1)) then i - 1
                            else if k = 0 then i - 1 else lastStart k s (i - 1))"

definition decodeLastRune :: "string \<Rightarrow> nat \<times> nat" where
  "decodeLastRune s =
     (if s = [] then (runeError, 0)
      else let e = length s in
        if (of_char (last s) :: nat) < 0x80 then (of_char (last s), 1)
        else
          let start = lastStart 3 s (e - 1);
              (r, size) = decodeRune (drop start s)
          in if start + size \<noteq> e then (runeError, 1) else (r, size))"

function backOff :: "string \<Rightarrow> string" where
  "backOff s =
     (if s = [] then []
      else let (r, size) = decodeLastRune s in
        if r \<noteq> runeError \<or> size > 1 then s else backOff (butlast s))"
  by pat_completeness auto
termination
  by (relation "measure length") auto

declare backOff.simps [simp del]

definition sanitizeEvidence :: "string \<Rightarrow> nat \<Rightarrow> string" where
  "sanitizeEvidence s limit =
     (let s' = (if length s > limit then take limit s else s);
          b = sanitizeScan False s';
          b' = (if length b > limit then take limit b else b)
      in trimSpace (backOff b'))"

section \<open>Normalised messages and fingerprints\<close>

definition isDigitByte :: "char \<Rightarrow> bool" where
  "isDigitByte c \<longleftrightarrow> 48 \<le> (of_char c :: nat) \<and> (of_char c :: nat) \<le> 57"

definition isAddressByte :: "char \<Rightarrow> bool" where
  "isAddressByte c \<longleftrightarrow>
     (97 \<le> (of_char c :: nat) \<and> (of_char c :: nat) \<le> 122) \<or> isDigitByte c \<or>
     c \<in> {CHR ''-'', CHR ''.'', CHR ''_'', CHR ''#'', CHR ''['', CHR '']'', CHR ''@''}"

definition isFoldedNumber :: "string \<Rightarrow> bool" where
  "isFoldedNumber s \<longleftrightarrow> s \<noteq> [] \<and> list_all (\<lambda>c. c = CHR ''#'') s"

definition looksLikeAddressToken :: "string \<Rightarrow> bool" where
  "looksLikeAddressToken tok =
     (if contains tok ''::'' then True
      else case cutByte tok (CHR '':'') of (host, port, hasPort) \<Rightarrow>
        if \<not> list_all isAddressByte host then False
        else if hasPort then (port \<noteq> [] \<and> list_all (\<lambda>c. c = CHR ''#'') port)
        else let segs = splitByte host (CHR ''.'') in
          if length segs < 2 then False else list_ex isFoldedNumber segs)"

text \<open>The fold of each digit run to one marker; \<open>run\<close> says the previous byte was a digit.\<close>

fun foldDigits :: "bool \<Rightarrow> string \<Rightarrow> string" where
  "foldDigits run [] = []"
| "foldDigits run (c # cs) =
     (if isDigitByte c then (if run then foldDigits True cs else CHR ''#'' # foldDigits True cs)
      else c # foldDigits False cs)"

text \<open>\<^verbatim>\<open>strings.Fields\<close>: the maximal runs without white space.\<close>

function fieldsAcc :: "string \<Rightarrow> string \<Rightarrow> string list" where
  "fieldsAcc cur s = (case s of
     [] \<Rightarrow> if cur = [] then [] else [cur]
   | c # cs \<Rightarrow> (case stripEnc space_encodings s of
       Some t \<Rightarrow> (if cur = [] then fieldsAcc [] t else cur # fieldsAcc [] t)
     | None \<Rightarrow> fieldsAcc (cur @ [c]) cs))"
  by pat_completeness auto
termination
  by (relation "measure (\<lambda>(cur, s). length s)") (auto dest: stripEnc_shorter)

declare fieldsAcc.simps [simp del]

definition fields :: "string \<Rightarrow> string list" where
  "fields s = fieldsAcc [] s"

definition NormalizeMessage :: "(string \<Rightarrow> string) \<Rightarrow> string \<Rightarrow> string" where
  "NormalizeMessage lower s =
     (let folded = foldDigits False (lower (sanitizeEvidence s 512));
          kept = filter (\<lambda>tok. \<not> looksLikeAddressToken tok) (fields folded);
          out = joinWith '' '' kept
      in if length out > 256 then take 256 out else out)"

definition fnvStep :: "64 word \<Rightarrow> char \<Rightarrow> 64 word" where
  "fnvStep h c = (h XOR of_nat (of_char c)) * 0x100000001B3"

definition fnv1a :: "string \<Rightarrow> 64 word" where
  "fnv1a s = foldl fnvStep 0xCBF29CE484222325 s"

definition hexDigit :: "nat \<Rightarrow> char" where
  "hexDigit d = (if d < 10 then char_of (48 + d) else char_of (87 + d))"

definition hex16 :: "64 word \<Rightarrow> string" where
  "hex16 w = map (\<lambda>i. hexDigit (nat (uint (drop_bit (4 * i) w) mod 16))) (rev [0 ..< 16])"

definition Fingerprint :: "(string \<Rightarrow> string) \<Rightarrow> int \<Rightarrow> string \<Rightarrow> string \<Rightarrow> string \<Rightarrow> string" where
  "Fingerprint lower status errType errCode message =
     hex16 (fnv1a (itoa status @ ''|'' @ errType @ ''|'' @ errCode @ ''|'' @ NormalizeMessage lower message))"

section \<open>Rate-limit headers\<close>

type_synonym http_header = "(string, string list) gomap"

definition headerGet :: "http_header \<Rightarrow> string \<Rightarrow> string" where
  "headerGet h key = (case gm_get h key of Some (v # _) \<Rightarrow> v | _ \<Rightarrow> [])"

definition rateLimitNameFragments :: "string list" where
  "rateLimitNameFragments = [''ratelimit'', ''rate-limit'']"

definition rateLimitEntries :: "(string \<Rightarrow> string) \<Rightarrow> http_header \<Rightarrow> (string \<times> string) list" where
  "rateLimitEntries lower h =
     concat (map (\<lambda>(name, vals).
       if lower name = ''retry-after'' then []
       else if list_ex (contains (lower name)) rateLimitNameFragments
       then map (\<lambda>v. (sanitizeEvidence name EvidenceRateLimitValueBytes,
                      sanitizeEvidence v EvidenceRateLimitValueBytes)) vals
       else []) h)"

text \<open>\<open>acc\<close> is the merged list so far, reversed.\<close>

fun mergeEntries :: "(string \<times> string) list \<Rightarrow> (string \<times> string) list \<Rightarrow> (string \<times> string) list" where
  "mergeEntries acc [] = rev acc"
| "mergeEntries acc (ent # ents) = (case acc of
     (n, v) # acc' \<Rightarrow>
       if n = fst ent
       then mergeEntries ((n, sanitizeEvidence (v @ '', '' @ snd ent) EvidenceRateLimitValueBytes) # acc') ents
       else mergeEntries (ent # acc) ents
   | [] \<Rightarrow> mergeEntries [ent] ents)"

text \<open>A nil header is \<^const>\<open>None\<close>.\<close>

definition ExtractRateLimit :: "(string \<Rightarrow> string) \<Rightarrow> http_header option \<Rightarrow> rate_limit option" where
  "ExtractRateLimit lower oh = (case oh of
     None \<Rightarrow> None
   | Some h \<Rightarrow>
       let v = headerGet h ''Retry-After'';
           ra = (if v \<noteq> [] then sanitizeEvidence v EvidenceRateLimitValueBytes else []);
           entries = rateLimitEntries lower h
       in if ra = [] \<and> entries = [] then None
          else let merged = mergeEntries [] (sort entries) in
            Some \<lparr>rl_retry_after = ra,
                  rl_entries = (if length merged > EvidenceRateLimitEntries
                                then take EvidenceRateLimitEntries merged else merged)\<rparr>)"

section \<open>Rows of a failed dial\<close>

text \<open>Go's \<^verbatim>\<open>Duration.Milliseconds\<close> truncates.\<close>

definition milliseconds :: "int \<Rightarrow> int" where
  "milliseconds d = d sdiv 1000000"

definition parseErrorFields :: "(string \<Rightarrow> json option) \<Rightarrow> string \<Rightarrow> string \<times> string" where
  "parseErrorFields dec raw = (case decodeMap dec raw of
     None \<Rightarrow> ([], [])
   | Some parsed \<Rightarrow> (case AsObj (gm_get parsed ''error'') of
       None \<Rightarrow> ([], [])
     | Some errObj \<Rightarrow> (AsStr (gm_get errObj ''type''), AsStr (gm_get errObj ''code''))))"

definition transportRow :: "(string \<Rightarrow> string) \<Rightarrow> int \<Rightarrow> failure \<Rightarrow> string \<Rightarrow> row" where
  "transportRow lower dur f text = zero_row\<lparr>
     ro_phase := ''transport'',
     ro_class := class_string (fl_class f),
     ro_origin := origin_string (fl_origin f),
     ro_failure_phase := phase_string (fl_phase f),
     ro_request_state := state_string (fl_state f),
     ro_message := sanitizeEvidence text EvidenceMessageBytes,
     ro_fingerprint := Fingerprint lower 0 (class_string (fl_class f)) [] text,
     ro_duration_ms := milliseconds dur\<rparr>"

definition appendTransportRow :: "(string \<Rightarrow> string) \<Rightarrow> int \<Rightarrow> failure \<Rightarrow> string \<Rightarrow> recorder \<Rightarrow> recorder" where
  "appendTransportRow lower dur f text rec =
     (if rec = None then None else Append (transportRow lower dur f text) rec)"

text \<open>A nil body slice (a read that expired) is \<^const>\<open>None\<close>.\<close>

definition responseRow ::
  "(string \<Rightarrow> string) \<Rightarrow> (string \<Rightarrow> json option) \<Rightarrow> int \<Rightarrow> int \<Rightarrow> http_header option \<Rightarrow> string option
    \<Rightarrow> string option \<Rightarrow> failure \<Rightarrow> row" where
  "responseRow lower dec dur status h raw message f =
     (let msg = (case message of None \<Rightarrow> [] | Some t \<Rightarrow> sanitizeEvidence t EvidenceMessageBytes);
          (et, ec) = (case raw of None \<Rightarrow> ([], []) | Some r \<Rightarrow> parseErrorFields dec r);
          bytes = (case raw of None \<Rightarrow> [] | Some r \<Rightarrow> r)
      in zero_row\<lparr>
        ro_phase := ''response'',
        ro_status := status,
        ro_class := class_string (fl_class f),
        ro_origin := origin_string (fl_origin f),
        ro_failure_phase := phase_string (fl_phase f),
        ro_request_state := state_string (fl_state f),
        ro_err_type := sanitizeEvidence et 64,
        ro_err_code := sanitizeEvidence ec 64,
        ro_message := msg,
        ro_body_bytes := length bytes,
        ro_truncated := (raw \<noteq> None \<and> length bytes > EvidencePeekBytes),
        ro_fingerprint := Fingerprint lower status et ec msg,
        ro_rate_limit := ExtractRateLimit lower h,
        ro_duration_ms := milliseconds dur,
        ro_body_peek := sanitizeEvidence
          (if length bytes > EvidencePeekBytes then take EvidencePeekBytes bytes else bytes) EvidencePeekBytes\<rparr>)"

definition appendResponseRow ::
  "(string \<Rightarrow> string) \<Rightarrow> (string \<Rightarrow> json option) \<Rightarrow> int \<Rightarrow> int \<Rightarrow> http_header option \<Rightarrow> string option
    \<Rightarrow> string option \<Rightarrow> failure \<Rightarrow> recorder \<Rightarrow> recorder" where
  "appendResponseRow lower dec dur status h raw message f rec =
     (if rec = None then None else Append (responseRow lower dec dur status h raw message f) rec)"

section \<open>Safe text, proved\<close>

lemma set_sanitizeScan: "c \<in> set (sanitizeScan sp s) \<Longrightarrow> \<not> ctlByte c"
proof (induction s arbitrary: sp)
  case (Cons x s)
  have "\<not> ctlByte (CHR '' '')" by (simp add: ctlByte_def)
  with Cons show ?case by (auto simp: Let_def split: if_splits)
qed simp

lemma backOff_prefix: "\<exists>t. s = backOff s @ t"
proof (induction s rule: backOff.induct)
  case (1 s)
  show ?case
  proof (cases "s = []")
    case True
    then show ?thesis by (simp add: backOff.simps)
  next
    case False
    obtain r size where d: "decodeLastRune s = (r, size)" by (cases "decodeLastRune s")
    show ?thesis
    proof (cases "r \<noteq> runeError \<or> size > 1")
      case True
      then show ?thesis using False d by (simp add: backOff.simps [of s])
    next
      case stop: False
      from 1 [OF False d [symmetric] refl stop] obtain t where "butlast s = backOff (butlast s) @ t" by blast
      moreover have "backOff s = backOff (butlast s)" using False d stop by (simp add: backOff.simps [of s])
      ultimately show ?thesis using False by (metis append.assoc append_butlast_last_id)
    qed
  qed
qed

lemma length_backOff: "length (backOff s) \<le> length s"
  using backOff_prefix [of s] by (metis le_add1 length_append)

lemma set_backOff: "set (backOff s) \<subseteq> set s"
  using backOff_prefix [of s] by (metis set_append sup_ge1)

lemma set_trimSpace: "set (trimSpace s) \<subseteq> set s"
proof -
  have e: "set (trimEncs encs t) \<subseteq> set t" for encs t
    using trimEncs_suffix [of t encs] by (metis set_append sup_ge2)
  show ?thesis unfolding trimSpace_def
    using e [of space_encodings s] e [of "map rev space_encodings" "rev (trimEncs space_encodings s)"] by auto
qed

lemma sanitizeEvidence_safe:
  "length (sanitizeEvidence s limit) \<le> limit \<and> (\<forall>c \<in> set (sanitizeEvidence s limit). \<not> ctlByte c)"
proof -
  let ?b = "sanitizeScan False (if length s > limit then take limit s else s)"
  let ?b' = "if length ?b > limit then take limit ?b else ?b"
  have l: "length ?b' \<le> limit" by simp
  have "length (trimSpace (backOff ?b')) \<le> limit"
    using length_trimSpace [of "backOff ?b'"] length_backOff [of ?b'] l by linarith
  moreover have "\<not> ctlByte c" if "c \<in> set (trimSpace (backOff ?b'))" for c
  proof -
    from that have "c \<in> set ?b'" using set_trimSpace set_backOff by blast
    then have "c \<in> set ?b" by (auto split: if_splits dest: in_set_takeD)
    then show ?thesis by (rule set_sanitizeScan)
  qed
  ultimately show ?thesis by (simp only: sanitizeEvidence_def Let_def) blast
qed

section \<open>The recorder, proved\<close>

lemma Append_rows: "rec \<noteq> None \<Longrightarrow> Len (Append r rec) + Dropped (Append r rec) = Len rec + Dropped rec + 1"
  by (auto simp: Append_def Len_def Dropped_def)

lemma Append_Len: "Len rec \<le> EvidenceMaxRows \<Longrightarrow> Len (Append r rec) \<le> EvidenceMaxRows"
  by (auto simp: Append_def Len_def split: option.splits)

lemma Annotate_Len [simp]: "Len (Annotate from f rec) = Len rec" "Dropped (Annotate from f rec) = Dropped rec"
  by (auto simp: Annotate_def Len_def Dropped_def Let_def split: option.splits)

lemma AnnotateAt_Len [simp]: "Len (AnnotateAt i f rec) = Len rec" "Dropped (AnnotateAt i f rec) = Dropped rec"
  by (auto simp: AnnotateAt_def Len_def Dropped_def split: option.splits)

text \<open>Annotation reaches exactly the rows from its start index on.\<close>

lemma Annotate_rows:
  "i < Len rec \<Longrightarrow> Rows (Annotate from f rec) ! i = (if nat from \<le> i then f (Rows rec ! i) else Rows rec ! i)"
  by (auto simp: Annotate_def Len_def Rows_def Let_def nth_append split: option.splits)

datatype rec_op = OpAppend row | OpAnnotate int "row \<Rightarrow> row" | OpAnnotateAt int "row \<Rightarrow> row"

fun rec_apply :: "rec_op \<Rightarrow> recorder \<Rightarrow> recorder" where
  "rec_apply (OpAppend r) rec = Append r rec"
| "rec_apply (OpAnnotate i f) rec = Annotate i f rec"
| "rec_apply (OpAnnotateAt i f) rec = AnnotateAt i f rec"

fun is_append :: "rec_op \<Rightarrow> bool" where
  "is_append (OpAppend r) = True"
| "is_append _ = False"

lemma rec_apply_some: "rec \<noteq> None \<Longrightarrow> rec_apply op rec \<noteq> None"
  by (cases op) (auto simp: Append_def Annotate_def AnnotateAt_def Let_def)

lemma rec_apply_run:
  "rec \<noteq> None \<Longrightarrow> Len rec \<le> EvidenceMaxRows \<Longrightarrow>
   Len (fold rec_apply ops rec) \<le> EvidenceMaxRows \<and>
   Len (fold rec_apply ops rec) + Dropped (fold rec_apply ops rec)
     = Len rec + Dropped rec + length (filter is_append ops)"
proof (induction ops arbitrary: rec)
  case (Cons op ops)
  have "Len (rec_apply op rec) \<le> EvidenceMaxRows" "rec_apply op rec \<noteq> None"
    using Cons.prems by (cases op, auto simp: Append_Len rec_apply_some)+
  with Cons.IH [of "rec_apply op rec"] show ?case
    using Cons.prems Append_rows [of rec] by (cases op) auto
qed simp

section \<open>Rate-limit headers, proved\<close>

lemma mergeEntries_names:
  "sorted (map fst ents) \<Longrightarrow> sorted_wrt (>) (map fst acc) \<Longrightarrow>
   (\<forall>a \<in> set acc. \<forall>e \<in> set ents. fst a \<le> fst e) \<Longrightarrow>
   sorted_wrt (<) (map fst (mergeEntries acc ents))"
proof (induction ents arbitrary: acc)
  case Nil
  then show ?case by (simp add: rev_map [symmetric] sorted_wrt_rev)
next
  case (Cons ent ents)
  show ?case
  proof (cases acc)
    case Nil
    with Cons show ?thesis by simp
  next
    case acc: (Cons a acc')
    obtain n v where a: "a = (n, v)" by (cases a)
    show ?thesis
    proof (cases "n = fst ent")
      case True
      with Cons.prems acc a show ?thesis using Cons.IH by simp
    next
      case False
      have lt: "fst x < fst ent" if "x \<in> set acc" for x
      proof (cases "x = a")
        case True
        then show ?thesis using Cons.prems(3) acc a False by (auto simp: order.order_iff_strict)
      next
        case x: False
        then have "fst x < n" using that Cons.prems(2) acc a by auto
        moreover have "n \<le> fst ent" using Cons.prems(3) acc a by auto
        ultimately show ?thesis by (rule less_le_trans)
      qed
      have "sorted_wrt (<) (map fst (mergeEntries (ent # acc) ents))"
        using Cons.prems lt by (intro Cons.IH) auto
      with False acc a show ?thesis by simp
    qed
  qed
qed

definition bounded_entry :: "string \<times> string \<Rightarrow> bool" where
  "bounded_entry e \<longleftrightarrow> length (fst e) \<le> EvidenceRateLimitValueBytes \<and> length (snd e) \<le> EvidenceRateLimitValueBytes
     \<and> (\<forall>c \<in> set (fst e) \<union> set (snd e). \<not> ctlByte c)"

lemma bounded_merge:
  "bounded_entry (n, v) \<Longrightarrow> bounded_entry (n, sanitizeEvidence t EvidenceRateLimitValueBytes)"
  using sanitizeEvidence_safe by (auto simp: bounded_entry_def)

lemma mergeEntries_bounded:
  "list_all bounded_entry acc \<Longrightarrow> list_all bounded_entry ents \<Longrightarrow> list_all bounded_entry (mergeEntries acc ents)"
proof (induction ents arbitrary: acc)
  case Nil
  then show ?case by (simp add: list_all_iff)
next
  case (Cons ent ents)
  show ?case
  proof (cases acc)
    case Nil
    with Cons show ?thesis by simp
  next
    case acc: (Cons a acc')
    obtain n v where a: "a = (n, v)" by (cases a)
    let ?e = "(n, sanitizeEvidence (v @ '', '' @ snd ent) EvidenceRateLimitValueBytes)"
    have "bounded_entry ?e" using Cons.prems(1) by (intro bounded_merge [of n v]) (simp add: acc a)
    then have "list_all bounded_entry (mergeEntries (?e # acc') ents)"
      using Cons.prems by (intro Cons.IH) (simp_all add: acc)
    moreover have "list_all bounded_entry (mergeEntries (ent # acc) ents)"
      using Cons.prems by (intro Cons.IH) simp_all
    ultimately show ?thesis by (cases "n = fst ent") (simp_all add: acc a)
  qed
qed

lemma rateLimitEntries_bounded: "list_all bounded_entry (rateLimitEntries lower h)"
  using sanitizeEvidence_safe by (auto simp: rateLimitEntries_def list_all_iff bounded_entry_def split: if_splits)

lemma rateLimitEntries_perm: "mset h = mset h' \<Longrightarrow> mset (rateLimitEntries lower h) = mset (rateLimitEntries lower h')"
proof -
  have e: "mset (rateLimitEntries lower g) =
      (\<Sum>kv \<in># mset g. mset (rateLimitEntries lower [kv]))" for g
    by (induction g) (auto simp: rateLimitEntries_def)
  assume "mset h = mset h'"
  then show ?thesis by (simp add: e [of h] e [of h'])
qed

text \<open>
  In the text of a Go dial error the address is followed by a colon; with it the token is not
  recognised as an address and stays in the normalised message.
\<close>

lemma dial_error_token_kept: "\<not> looksLikeAddressToken ''proxy-a.example:#:''"
  and address_token_dropped: "looksLikeAddressToken ''proxy-a.example:#''"
  by code_simp+

section \<open>Properties\<close>

text \<open>
  Text that reaches a log field through the sanitiser is at most the limit long and holds no
  control byte, so no upstream text can forge a line.
\<close>

theorem sanitizeEvidence_bounds:
  "length (sanitizeEvidence s limit) \<le> limit \<and> \<not> list_ex ctlByte (sanitizeEvidence s limit)"
  using sanitizeEvidence_safe [of s limit] by (auto simp: list_ex_iff)

text \<open>
  However a request's recorder is used, it keeps at most sixteen rows, and every appended row is
  either kept or counted as dropped.
\<close>

theorem recorder_bounded:
  "Len (fold rec_apply ops NewRecorder) \<le> 16 \<and>
   Len (fold rec_apply ops NewRecorder) + Dropped (fold rec_apply ops NewRecorder) = length (filter is_append ops)"
  using rec_apply_run [of NewRecorder ops] by (simp add: NewRecorder_def Len_def Dropped_def EvidenceMaxRows_def)

text \<open>
  Rate-limit evidence is deterministic and bounded: it does not depend on the order in which the
  header map is walked, holds at most eight entries with pairwise different names in order, and
  every name and value is short and free of control bytes.
\<close>

theorem rate_limit_evidence:
  assumes "mset h = mset h'" and "gm_wf h"
  shows "ExtractRateLimit lower (Some h) = ExtractRateLimit lower (Some h') \<and>
         (\<forall>rl. ExtractRateLimit lower (Some h) = Some rl \<longrightarrow>
            length (rl_entries rl) \<le> 8 \<and> sorted_wrt (<) (map fst (rl_entries rl)) \<and>
            list_all bounded_entry (rl_entries rl))"
proof -
  have s: "sort (rateLimitEntries lower h) = sort (rateLimitEntries lower h')"
    using rateLimitEntries_perm [OF assms(1), of lower] by (metis sorted_list_of_multiset_mset)
  have n: "rateLimitEntries lower h = [] \<longleftrightarrow> rateLimitEntries lower h' = []"
    using rateLimitEntries_perm [OF assms(1), of lower] by (metis mset_zero_iff)
  have g: "headerGet h k = headerGet h' k" for k
  proof -
    have "gm_wf h'" using assms by (metis gm_wf_def mset_eq_imp_distinct_iff mset_map)
    moreover have "set h = set h'" using assms(1) by (rule mset_eq_setD)
    ultimately have "map_of h = map_of h'" using assms(2) by (metis gm_wf_def map_of_inject_set)
    then show ?thesis by (simp add: headerGet_def)
  qed
  let ?m = "mergeEntries [] (sort (rateLimitEntries lower h))"
  have "sorted_wrt (<) (map fst ?m)"
  proof (rule mergeEntries_names)
    have "sorted (sort (rateLimitEntries lower h))" by simp
    then show "sorted (map fst (sort (rateLimitEntries lower h)))"
      by (rule sorted_map [THEN iffD2, OF sorted_wrt_mono_rel, rotated]) (auto simp: less_eq_prod_def)
  qed simp_all
  moreover have "list_all bounded_entry ?m"
    using rateLimitEntries_bounded [of lower h] by (intro mergeEntries_bounded) (auto simp: list_all_iff)
  ultimately show ?thesis
    by (auto simp: ExtractRateLimit_def Let_def s n g EvidenceRateLimitEntries_def list_all_iff
          sorted_wrt_take take_map [symmetric] dest: in_set_takeD split: if_splits)
qed

theorem rate_limit_evidence_witness:
  "ExtractRateLimit asciiLower (Some [(''X-Ratelimit-Limit'', [''5'']), (''Retry-After'', [''1''])]) =
   ExtractRateLimit asciiLower (Some [(''Retry-After'', [''1'']), (''X-Ratelimit-Limit'', [''5''])])"
proof -
  let ?a = "(''X-Ratelimit-Limit'', [''5''])" and ?b = "(''Retry-After'', [''1''])"
  have "mset [?a, ?b] = mset [?b, ?a]" by simp
  moreover have "gm_wf [?a, ?b]" by (simp add: gm_wf_def)
  ultimately show ?thesis using rate_limit_evidence by blast
qed

end
