(* ===== verification/Client.thy ===== *)
theory Client
  imports Evidence ProxyConfig
begin

text \<open>
  One logical upstream call (\<^verbatim>\<open>internal/upstream/client.go\<close>): the manual redirect walk with its
  per-hop transport, header and body rules, the reduction of an error response, and the classified
  verdict the executor reads.

  The network is an oracle: for the hop number and the request it gives what the dialers and the write
  hook report, late reports of earlier hops included, and an error or a response. The statements hold
  for every oracle.
\<close>

section \<open>Host names\<close>

fun lastIndexByte :: "string \<Rightarrow> char \<Rightarrow> nat option" where
  "lastIndexByte [] c = None"
| "lastIndexByte (x # xs) c = (case lastIndexByte xs c of
     Some i \<Rightarrow> Some (Suc i)
   | None \<Rightarrow> if x = c then Some 0 else None)"

definition validOptionalPort :: "string \<Rightarrow> bool" where
  "validOptionalPort port = (case port of
     [] \<Rightarrow> True
   | c # cs \<Rightarrow> c = CHR '':'' \<and> list_all isDigitByte cs)"

text \<open>\<^verbatim>\<open>URL.Hostname\<close>.\<close>

definition hostname :: "string \<Rightarrow> string" where
  "hostname host =
     (let h = (case lastIndexByte host (CHR '':'') of
                 None \<Rightarrow> host
               | Some i \<Rightarrow> if validOptionalPort (drop i host) then take i host else host)
      in if hasPrefix h ''['' \<and> hasSuffix h '']'' then butlast (tl h) else h)"

text \<open>\<^verbatim>\<open>http.NewRequest\<close> drops an empty port.\<close>

definition removeEmptyPort :: "string \<Rightarrow> string" where
  "removeEmptyPort host =
     (let colon = (case lastIndexByte host (CHR '':'') of None \<Rightarrow> -1 | Some i \<Rightarrow> int i);
          bracket = (case lastIndexByte host (CHR '']'') of None \<Rightarrow> -1 | Some i \<Rightarrow> int i)
      in if colon > bracket \<and> hasSuffix host '':'' then butlast host else host)"

section \<open>Header names\<close>

definition upperByte :: "char \<Rightarrow> char" where
  "upperByte c = (if 97 \<le> (of_char c :: nat) \<and> (of_char c :: nat) \<le> 122
                  then char_of ((of_char c :: nat) - 32) else c)"

definition tokenByte :: "char \<Rightarrow> bool" where
  "tokenByte c \<longleftrightarrow>
     (let n = of_char c :: nat in
      (48 \<le> n \<and> n \<le> 57) \<or> (65 \<le> n \<and> n \<le> 90) \<or> (97 \<le> n \<and> n \<le> 122)) \<or>
     c \<in> set ''!#$%&*+-.^_`|~'' \<or> c = CHR 0x27"

fun canonicalAcc :: "bool \<Rightarrow> string \<Rightarrow> string" where
  "canonicalAcc upper [] = []"
| "canonicalAcc upper (c # cs) = (if upper then upperByte c else lowerByte c) # canonicalAcc (c = CHR ''-'') cs"

text \<open>\<^verbatim>\<open>http.CanonicalHeaderKey\<close>: a name with a byte no token may hold is left as it is.\<close>

definition canonicalHeaderKey :: "string \<Rightarrow> string" where
  "canonicalHeaderKey k = (if list_all tokenByte k then canonicalAcc True k else k)"

definition isRedirectStatus :: "int \<Rightarrow> bool" where
  "isRedirectStatus code \<longleftrightarrow> code \<in> {301, 302, 303, 307, 308}"

definition isSensitiveRedirectHeader :: "string \<Rightarrow> bool" where
  "isSensitiveRedirectHeader k \<longleftrightarrow> canonicalHeaderKey k \<in>
     {''Authorization'', ''Www-Authenticate'', ''Cookie'', ''Cookie2'', ''Proxy-Authorization'', ''Proxy-Authenticate''}"

definition isBodyRedirectHeader :: "string \<Rightarrow> bool" where
  "isBodyRedirectHeader k \<longleftrightarrow> canonicalHeaderKey k \<in>
     {''Content-Encoding'', ''Content-Language'', ''Content-Location'', ''Content-Type''}"

definition sameDomainOrSub :: "string \<Rightarrow> string \<Rightarrow> bool" where
  "sameDomainOrSub dest parent =
     (if dest = parent then True
      else if CHR '':'' \<in> set dest \<or> CHR ''%'' \<in> set dest then False
      else hasSuffix dest (CHR ''.'' # parent))"

text \<open>\<open>fold_case\<close> maps a string to the representative \<^verbatim>\<open>strings.EqualFold\<close> compares by.\<close>

definition sameRedirectHost :: "(string \<Rightarrow> string) \<Rightarrow> string \<Rightarrow> string \<Rightarrow> bool" where
  "sameRedirectHost fold_case dest initial \<longleftrightarrow> fold_case dest = fold_case initial"

definition boundedLocation :: "string \<Rightarrow> string" where
  "boundedLocation loc = (if length loc > 200 then take 200 loc @ [CHR 0xE2, CHR 0x80, CHR 0xA6] else loc)"

section \<open>The redirect walk\<close>

definition MaxRedirects :: nat where
  "MaxRedirects = 20"

record client =
  cl_tunneled :: bool
  cl_follow :: bool

datatype transport_pick = MainTransport | TunneledTransport

definition transportFor :: "client \<Rightarrow> string \<Rightarrow> transport_pick" where
  "transportFor c scheme = (if scheme = ''https'' \<and> cl_tunneled c then TunneledTransport else MainTransport)"

definition hopPathOf :: "client \<Rightarrow> string \<Rightarrow> hop_path" where
  "hopPathOf c scheme = \<lparr>hp_intermediated = (cl_tunneled c \<and> scheme = ''http'')\<rparr>"

record hop_request =
  hq_method :: string
  hq_url :: url
  hq_headers :: "(string, string) gomap"
  hq_body :: "string option"
  hq_transport :: transport_pick

record http_response =
  rp_status :: int
  rp_header :: http_header
  rp_body :: string

datatype hop_ev = EvBegin failure_phase | EvEnter failure_phase | EvSucceeded | EvWrote

fun report :: "nat \<times> hop_ev \<Rightarrow> trace_event" where
  "report (i, EvBegin p) = HopBegin i p"
| "report (i, EvEnter p) = HopEnter i p"
| "report (i, EvSucceeded) = HopSucceeded i"
| "report (i, EvWrote) = HopWrote i"

datatype call_err =
    CEUrl string
  | CENet net_err
  | CELocationParse string string
  | CELocationScheme string
  | CELocationHost string string
  | CERedirects nat

text \<open>
  The world of a call: the URL functions, the network, the case folding of \<^verbatim>\<open>EqualFold\<close>, the printing of an
  error, the JSON codec, \<^verbatim>\<open>ToLower\<close>, the bytes a bounded read of an error body returns, and whether
  the caller's context is done when the verdict is classified. A client that does not follow redirects itself
  leaves them to \<^verbatim>\<open>net/http\<close>: \<open>w_library\<close> gives the requests the library sends, on hosts of its own choosing,
  after the one it was handed, of which its default policy allows nine, and \<open>w_net\<close> the reply it ends with. The
  library sends them in answer to a redirect, so the request it was handed has been written by then.
\<close>

record world =
  w_url :: go_url
  w_net :: "nat \<Rightarrow> hop_request \<Rightarrow> (nat \<times> hop_ev) list \<times> (net_err + http_response)"
  w_library :: "nat \<Rightarrow> hop_request \<Rightarrow> hop_request list"
  w_fold :: "string \<Rightarrow> string"
  w_text :: "call_err \<Rightarrow> string"
  w_json :: "string \<Rightarrow> json option"
  w_print :: "json \<Rightarrow> string"
  w_lower :: "string \<Rightarrow> string"
  w_read :: "string \<Rightarrow> string option"
  w_canceled :: bool

definition libraryRedirects :: nat where
  "libraryRedirects = 9"

text \<open>The requests \<^verbatim>\<open>http.Client.Do\<close> sends beyond the one it is handed; the walk's own clients use no \<^verbatim>\<open>Do\<close>.\<close>

definition libraryFollows :: "world \<Rightarrow> client \<Rightarrow> nat \<Rightarrow> hop_request \<Rightarrow> (nat \<times> hop_ev) list \<Rightarrow> hop_request list" where
  "libraryFollows w c n req reports =
     (if cl_follow c \<or> EvWrote \<notin> snd ` set reports then [] else take libraryRedirects (w_library w n req))"

record walk =
  wk_method :: string
  wk_strip :: bool
  wk_dropped :: bool
  wk_host :: string
  wk_hostname :: string
  wk_hops :: nat
  wk_current :: string
  wk_events :: "trace_event list"
  wk_sent :: "hop_request list"

record attempt_result =
  ar_reply :: "call_err + http_response"
  ar_path :: hop_path
  ar_hop :: nat
  ar_events :: "trace_event list"
  ar_sent :: "hop_request list"

definition noPath :: hop_path where
  "noPath = \<lparr>hp_intermediated = False\<rparr>"

definition hopHeaders :: "walk \<Rightarrow> (string, string) gomap \<Rightarrow> (string, string) gomap" where
  "hopHeaders wk headers =
     fold (\<lambda>(k, v) m. if wk_strip wk \<and> isSensitiveRedirectHeader k then m
                      else if wk_dropped wk \<and> isBodyRedirectHeader k then m
                      else gm_set (canonicalHeaderKey k) v m) headers []"

text \<open>The method switch of a followed redirect.\<close>

definition dropsBody :: "int \<Rightarrow> string \<Rightarrow> bool" where
  "dropsBody status method \<longleftrightarrow>
     (status = 301 \<or> status = 302) \<and> method = ''POST'' \<or>
     status = 303 \<and> method \<noteq> ''GET'' \<and> method \<noteq> ''HEAD''"

text \<open>
  One turn of the walk: the verdict, or the state of the next turn.
  \<open>ar_hop\<close> is the hop whose trace the caller gets; the trace itself is \<open>record_events\<close> of the events so
  far. A report naming a hop not yet opened cannot occur and is dropped.
\<close>

definition attemptStep ::
  "world \<Rightarrow> client \<Rightarrow> (string, string) gomap \<Rightarrow> string option \<Rightarrow> walk \<Rightarrow> attempt_result + walk" where
  "attemptStep w c headers bodyJSON wk =
     (let evs = wk_events wk @ [HopOpened];
          n = wk_hops wk;
          stop = (\<lambda>r p es sent. Inl \<lparr>ar_reply = r, ar_path = p, ar_hop = n, ar_events = es, ar_sent = sent\<rparr>)
      in case gu_parse (w_url w) (wk_current wk) of
        Inl reason \<Rightarrow> stop (Inl (CEUrl reason)) noPath evs (wk_sent wk)
      | Inr u0 \<Rightarrow>
          let u = u0\<lparr>url_host := removeEmptyPort (url_host u0)\<rparr>;
              path = hopPathOf c (url_scheme u);
              initialHost = (if wk_host wk = [] then url_host u else wk_host wk);
              initialHostname = (if wk_host wk = [] then hostname (url_host u) else wk_hostname wk);
              req = \<lparr>hq_method = wk_method wk, hq_url = u, hq_headers = hopHeaders wk headers,
                     hq_body = (if wk_dropped wk then None else bodyJSON),
                     hq_transport = transportFor c (url_scheme u)\<rparr>;
              (reports, reply) = w_net w n req;
              seen = filter (\<lambda>(i, _). i \<le> n) reports;
              evs1 = evs @ map report seen;
              sent = wk_sent wk @ req # libraryFollows w c n req seen
          in case reply of
            Inl err \<Rightarrow> stop (Inl (CENet err)) path evs1 sent
          | Inr resp \<Rightarrow>
              if \<not> cl_follow c \<or> \<not> isRedirectStatus (rp_status resp) then stop (Inr resp) path evs1 sent
              else
                let evs2 = evs1 @ [Responded];
                    loc = headerGet (rp_header resp) ''Location''
                in if loc = [] then stop (Inr resp) path evs2 sent
                   else case gu_resolve (w_url w) u loc of
                     Inl reason \<Rightarrow> stop (Inl (CELocationParse loc reason)) path evs2 sent
                   | Inr nxt \<Rightarrow>
                       if url_scheme nxt \<noteq> ''http'' \<and> url_scheme nxt \<noteq> ''https''
                       then stop (Inl (CELocationScheme loc)) path evs2 sent
                       else if \<not> sameRedirectHost (w_fold w) (hostname (url_host nxt)) initialHostname
                       then stop (Inl (CELocationHost (boundedLocation loc) initialHostname)) path evs2 sent
                       else if n + 1 > MaxRedirects
                       then stop (Inl (CERedirects MaxRedirects)) path evs2 sent
                       else Inr
                         \<lparr>wk_method = (if dropsBody (rp_status resp) (wk_method wk) then ''GET'' else wk_method wk),
                          wk_strip = (wk_strip wk \<or> url_host nxt \<noteq> initialHost
                                      \<and> \<not> sameDomainOrSub (hostname (url_host nxt)) initialHostname),
                          wk_dropped = (wk_dropped wk \<or> dropsBody (rp_status resp) (wk_method wk)),
                          wk_host = initialHost,
                          wk_hostname = initialHostname,
                          wk_hops = n + 1,
                          wk_current = gu_string (w_url w) nxt,
                          wk_events = evs2,
                          wk_sent = sent\<rparr>)"

lemma attemptStep_hops:
  "attemptStep w c headers bodyJSON wk = Inr wk' \<Longrightarrow> wk_hops wk < MaxRedirects \<and> wk_hops wk' = wk_hops wk + 1"
  by (auto simp: attemptStep_def Let_def split: sum.splits prod.splits if_splits)

function attemptLoop :: "world \<Rightarrow> client \<Rightarrow> (string, string) gomap \<Rightarrow> string option \<Rightarrow> walk \<Rightarrow> attempt_result" where
  "attemptLoop w c headers bodyJSON wk = (case attemptStep w c headers bodyJSON wk of
     Inl res \<Rightarrow> res
   | Inr wk' \<Rightarrow> attemptLoop w c headers bodyJSON wk')"
  by pat_completeness auto
termination
  by (relation "measure (\<lambda>(w, c, h, b, wk). Suc MaxRedirects - wk_hops wk)") (auto dest: attemptStep_hops)

declare attemptLoop.simps [simp del]

definition attempt :: "world \<Rightarrow> client \<Rightarrow> string \<Rightarrow> (string, string) gomap \<Rightarrow> string option \<Rightarrow> attempt_result" where
  "attempt w c target headers bodyJSON = attemptLoop w c headers bodyJSON
     \<lparr>wk_method = ''POST'', wk_strip = False, wk_dropped = False, wk_host = [], wk_hostname = [],
      wk_hops = 0, wk_current = target, wk_events = [], wk_sent = []\<rparr>"

section \<open>Error envelopes\<close>

record upstream_error =
  ue_status :: int
  ue_message :: string

definition DefaultErrorMessages :: "(int, string) gomap" where
  "DefaultErrorMessages =
     [(400, ''Bad request''), (401, ''Invalid API key provided''), (402, ''Payment required''),
      (403, ''You exceeded your current quota''), (404, ''Model not found''), (406, ''Model not supported''),
      (429, ''Rate limit exceeded''), (500, ''Internal server error''),
      (502, ''Bad gateway - upstream provider error''), (503, ''Service temporarily unavailable''),
      (504, ''Gateway timeout'')]"

definition ErrorTypes :: "(int, string \<times> string) gomap" where
  "ErrorTypes =
     [(400, (''invalid_request_error'', ''bad_request'')), (401, (''authentication_error'', ''invalid_api_key'')),
      (402, (''billing_error'', ''payment_required'')), (403, (''permission_error'', ''insufficient_quota'')),
      (404, (''invalid_request_error'', ''model_not_found'')), (406, (''invalid_request_error'', ''model_not_supported'')),
      (429, (''rate_limit_error'', ''rate_limit_exceeded'')), (500, (''server_error'', ''internal_server_error'')),
      (502, (''server_error'', ''bad_gateway'')), (503, (''server_error'', ''service_unavailable'')),
      (504, (''server_error'', ''gateway_timeout''))]"

text \<open>The message operand chain of a decoded error body; \<^const>\<open>None\<close> falls back to the body text.\<close>

definition errorMessage :: "(json \<Rightarrow> string) \<Rightarrow> (string, json) gomap \<Rightarrow> string option" where
  "errorMessage print parsed =
     (let em = (case AsObj (gm_get parsed ''error'') of None \<Rightarrow> [] | Some e \<Rightarrow> AsStr (gm_get e ''message''));
          m = AsStr (gm_get parsed ''message'')
      in if em \<noteq> [] then Some em
         else if m \<noteq> [] then Some m
         else if Truthy (gm_get parsed ''error'') then
           (case gm_get parsed ''error'' of
              Some (JStr s) \<Rightarrow> Some s
            | Some v \<Rightarrow> Some (print v)
            | None \<Rightarrow> None)
         else None)"

definition parseUpstreamError ::
  "(string \<Rightarrow> json option) \<Rightarrow> (json \<Rightarrow> string) \<Rightarrow> int \<Rightarrow> string \<Rightarrow> upstream_error" where
  "parseUpstreamError dec print status body =
     (let message = (case decodeMap dec body of
                       None \<Rightarrow> body
                     | Some parsed \<Rightarrow> (case errorMessage print parsed of None \<Rightarrow> body | Some msg \<Rightarrow> msg));
          message' = (if message \<noteq> [] then message
                      else case gm_get DefaultErrorMessages status of
                        Some d \<Rightarrow> d | None \<Rightarrow> ''Upstream error: '' @ itoa status)
      in \<lparr>ue_status = status, ue_message = message'\<rparr>)"

definition BuildErrorBody :: "int \<Rightarrow> string \<Rightarrow> json" where
  "BuildErrorBody status message =
     (let info = (case gm_get ErrorTypes status of
                    Some i \<Rightarrow> i
                  | None \<Rightarrow> if status \<ge> 500 then (''server_error'', ''internal_server_error'')
                            else (''invalid_request_error'', []));
          msg = (if message \<noteq> [] then message
                 else case gm_get DefaultErrorMessages status of Some d \<Rightarrow> d | None \<Rightarrow> ''An error occurred'')
      in ObjOf [(''error'', ObjOf [(''message'', JStr msg), (''type'', JStr (fst info)), (''code'', JStr (snd info))])])"

section \<open>The classified call\<close>

definition maxErrorBodyBytes :: nat where
  "maxErrorBodyBytes = 1048576"

text \<open>
  What the executor's decisions read of an error: its type, which only network errors carry. The typed
  boundary never answers for the walk's own refusals.
\<close>

definition err_view :: "world \<Rightarrow> call_err \<Rightarrow> net_err" where
  "err_view w e = (case e of
     CENet ne \<Rightarrow> ne
   | _ \<Rightarrow> \<lparr>ne_proxy_auth = False, ne_timeout = False, ne_op = None, ne_text = w_text w e\<rparr>)"

text \<open>The trace of a hop after the events of the call.\<close>

definition trace_at :: "trace_event list \<Rightarrow> nat \<Rightarrow> (call_trace \<times> dial_trace) option" where
  "trace_at evs k = (case record_events evs of (c, hs) \<Rightarrow> if k < length hs then Some (c, hs ! k) else None)"

record call_result =
  cr_response :: "http_response option"
  cr_error :: "upstream_error option"
  cr_failure :: failure
  cr_events :: "trace_event list"
  cr_sent :: "hop_request list"

definition readErrorBody :: "world \<Rightarrow> http_response \<Rightarrow> string option" where
  "readErrorBody w resp = map_option (take maxErrorBodyBytes) (w_read w (rp_body resp))"

definition DoClassifiedObserved ::
  "world \<Rightarrow> client \<Rightarrow> string \<Rightarrow> (string, string) gomap \<Rightarrow> string option \<Rightarrow> int \<Rightarrow> recorder
    \<Rightarrow> call_result \<times> recorder" where
  "DoClassifiedObserved w c target headers bodyJSON dur rec =
     (let a = attempt w c target headers bodyJSON;
          res = \<lparr>cr_response = None, cr_error = None,
                 cr_failure = \<lparr>fl_class = ClassSuccess, fl_origin = OriginNone, fl_phase = PhaseNone, fl_state = StateUnknown\<rparr>,
                 cr_events = ar_events a, cr_sent = ar_sent a\<rparr>
      in case ar_reply a of
        Inl err \<Rightarrow>
          let f = classifyTransportFailure (w_canceled w) (err_view w err) (trace_at (ar_events a) (ar_hop a));
              text = (case err of CENet ne \<Rightarrow> ne_text ne | _ \<Rightarrow> w_text w err)
          in (res\<lparr>cr_error := Some \<lparr>ue_status = 502, ue_message = text\<rparr>, cr_failure := f\<rparr>,
              appendTransportRow (w_lower w) dur f text rec)
      | Inr resp \<Rightarrow>
          if rp_status resp \<ge> 400 then
            let raw = readErrorBody w resp;
                bytes = (case raw of None \<Rightarrow> [] | Some b \<Rightarrow> b);
                uerr = parseUpstreamError (w_json w) (w_print w) (rp_status resp) bytes;
                f = statusFailure (rp_status resp) (ar_path a)
            in (res\<lparr>cr_error := Some uerr, cr_failure := f\<rparr>,
                appendResponseRow (w_lower w) (w_json w) dur (rp_status resp) (Some (rp_header resp)) raw
                  (Some (ue_message uerr)) f rec)
          else
            (res\<lparr>cr_response := Some resp,
                 cr_failure := \<lparr>fl_class = ClassSuccess, fl_origin = responseOrigin (ar_path a),
                               fl_phase = PhaseNone, fl_state = responseState (ar_path a)\<rparr>\<rparr>, rec))"

definition DoClassified ::
  "world \<Rightarrow> client \<Rightarrow> string \<Rightarrow> (string, string) gomap \<Rightarrow> string option \<Rightarrow> int \<Rightarrow> call_result" where
  "DoClassified w c target headers bodyJSON dur = fst (DoClassifiedObserved w c target headers bodyJSON dur None)"

section \<open>The walk, proved\<close>

text \<open>What one turn does: it always opens a hop, and it sends one request unless the URL does not parse.\<close>

definition turn_request :: "client \<Rightarrow> (string, string) gomap \<Rightarrow> string option \<Rightarrow> walk \<Rightarrow> url \<Rightarrow> hop_request" where
  "turn_request c headers bodyJSON wk u0 =
     (let u = u0\<lparr>url_host := removeEmptyPort (url_host u0)\<rparr> in
      \<lparr>hq_method = wk_method wk, hq_url = u, hq_headers = hopHeaders wk headers,
       hq_body = (if wk_dropped wk then None else bodyJSON), hq_transport = transportFor c (url_scheme u)\<rparr>)"

definition turn_reports :: "world \<Rightarrow> nat \<Rightarrow> hop_request \<Rightarrow> trace_event list" where
  "turn_reports w n req = map report (filter (\<lambda>(i, _). i \<le> n) (fst (w_net w n req)))"

lemma reported_write: "EvWrote \<in> snd ` set rs \<Longrightarrow> \<exists>i. HopWrote i \<in> set (map report rs)"
proof -
  assume "EvWrote \<in> snd ` set rs"
  then obtain i where "(i, EvWrote) \<in> set rs" by auto
  then have "report (i, EvWrote) \<in> report ` set rs" by (rule imageI)
  then show ?thesis by auto
qed

lemma library_quiet: "libraryFollows w c n req reports \<noteq> [] \<Longrightarrow> \<not> cl_follow c \<and> EvWrote \<in> snd ` set reports"
  by (simp add: libraryFollows_def split: if_splits)

lemma library_own [simp]: "cl_follow c \<Longrightarrow> libraryFollows w c n req reports = []"
  by (simp add: libraryFollows_def)

lemma attemptStep_stop:
  assumes "attemptStep w c headers bodyJSON wk = Inl res"
  shows "ar_hop res = wk_hops wk \<and>
    ((\<exists>reason. ar_reply res = Inl (CEUrl reason)) \<and> ar_sent res = wk_sent wk \<and> ar_events res = wk_events wk @ [HopOpened] \<or>
     (\<exists>u0 lib tail. gu_parse (w_url w) (wk_current wk) = Inr u0 \<and>
        ar_sent res = wk_sent wk @ turn_request c headers bodyJSON wk u0 # lib \<and>
        (lib = [] \<or> \<not> cl_follow c \<and> (\<exists>i. HopWrote i \<in> set (turn_reports w (wk_hops wk) (turn_request c headers bodyJSON wk u0)))) \<and>
        ar_events res = wk_events wk @ [HopOpened]
          @ turn_reports w (wk_hops wk) (turn_request c headers bodyJSON wk u0) @ tail \<and>
        (tail = [] \<or> tail = [Responded]) \<and>
        (\<forall>e. ar_reply res = Inl e \<and> (\<forall>ne. e \<noteq> CENet ne) \<longrightarrow> tail = [Responded])))"
proof (cases "gu_parse (w_url w) (wk_current wk)")
  case (Inl reason)
  with assms show ?thesis by (auto simp: attemptStep_def)
next
  case (Inr u0)
  let ?req = "turn_request c headers bodyJSON wk u0"
  let ?seen = "filter (\<lambda>(i, _). i \<le> wk_hops wk) (fst (w_net w (wk_hops wk) ?req))"
  let ?lib = "libraryFollows w c (wk_hops wk) ?req ?seen"
  have l: "?lib = [] \<or> \<not> cl_follow c \<and> (\<exists>i. HopWrote i \<in> set (turn_reports w (wk_hops wk) ?req))"
    using library_quiet [of w c "wk_hops wk" ?req ?seen] reported_write [of ?seen] by (auto simp: turn_reports_def)
  have "ar_hop res = wk_hops wk \<and> ar_sent res = wk_sent wk @ ?req # ?lib \<and>
      (\<exists>tail. ar_events res = wk_events wk @ [HopOpened] @ turn_reports w (wk_hops wk) ?req @ tail \<and> (tail = [] \<or> tail = [Responded]) \<and>
        (\<forall>e. ar_reply res = Inl e \<and> (\<forall>ne. e \<noteq> CENet ne) \<longrightarrow> tail = [Responded]))"
    using assms Inr unfolding attemptStep_def
    by (auto simp: Let_def turn_request_def turn_reports_def simp del: library_own split: sum.splits prod.splits if_splits)
  with Inr l show ?thesis by blast
qed

lemma attemptStep_next:
  assumes "attemptStep w c headers bodyJSON wk = Inr wk'"
  shows "\<exists>u0 nxt loc status. gu_parse (w_url w) (wk_current wk) = Inr u0 \<and>
     gu_resolve (w_url w) (u0\<lparr>url_host := removeEmptyPort (url_host u0)\<rparr>) loc = Inr nxt \<and>
     sameRedirectHost (w_fold w) (hostname (url_host nxt)) (wk_hostname wk') \<and>
     wk_hostname wk' = (if wk_host wk = [] then hostname (removeEmptyPort (url_host u0)) else wk_hostname wk) \<and>
     wk_host wk' = (if wk_host wk = [] then removeEmptyPort (url_host u0) else wk_host wk) \<and>
     wk_current wk' = gu_string (w_url w) nxt \<and>
     wk_method wk' = (if dropsBody status (wk_method wk) then ''GET'' else wk_method wk) \<and>
     wk_dropped wk' = (wk_dropped wk \<or> dropsBody status (wk_method wk)) \<and>
     wk_sent wk' = wk_sent wk @ [turn_request c headers bodyJSON wk u0] \<and>
     wk_events wk' = wk_events wk @ [HopOpened]
       @ turn_reports w (wk_hops wk) (turn_request c headers bodyJSON wk u0) @ [Responded] \<and>
     cl_follow c"
  using assms unfolding attemptStep_def
  by (auto simp: Let_def turn_request_def turn_reports_def split: sum.splits prod.splits if_splits; blast)

text \<open>An invariant of the walk holds of its verdict.\<close>

lemma attemptLoop_inv:
  assumes step: "\<And>wk wk'. I wk \<Longrightarrow> attemptStep w c headers bodyJSON wk = Inr wk' \<Longrightarrow> I wk'"
    and stop: "\<And>wk res. I wk \<Longrightarrow> attemptStep w c headers bodyJSON wk = Inl res \<Longrightarrow> P res"
    and start: "I wk"
  shows "P (attemptLoop w c headers bodyJSON wk)"
  using start
proof (induction "Suc MaxRedirects - wk_hops wk" arbitrary: wk rule: less_induct)
  case less
  show ?case
  proof (cases "attemptStep w c headers bodyJSON wk")
    case (Inl res)
    then show ?thesis using stop [OF less.prems Inl] by (simp add: attemptLoop.simps)
  next
    case (Inr wk')
    have "P (attemptLoop w c headers bodyJSON wk')"
      using attemptStep_hops [OF Inr] step [OF less.prems Inr] by (intro less.hyps) auto
    then show ?thesis using Inr by (simp add: attemptLoop.simps [of w c headers bodyJSON wk])
  qed
qed

end
