(* ===== verification/Socks5.thy ===== *)
theory Socks5
  imports Client "HOL-Library.Word"
begin

text \<open>
  The SOCKS5 dialer (\<^verbatim>\<open>internal/upstream/socks5.go\<close>) and the recording wrapper every dialer is installed
  in (\<^verbatim>\<open>recordingDialer\<close> of \<^verbatim>\<open>internal/upstream/provenance.go\<close>).

  A connection is what the peer will deliver, the error that ends the delivery, the outcomes of the
  writes still to come, what was written, whether it is closed and whether a deadline is armed; the
  phases the dialer reports are the \<^typ>\<open>hop_ev\<close> list. All of the peer's behaviour is in the initial
  state, so a statement about every connection is a statement about every proxy, every cancellation and
  every deadline. A write delivers everything or fails (\<^verbatim>\<open>io.Writer\<close>).
\<close>

section \<open>Connections\<close>

type_synonym byte = "8 word"

definition bytes_of :: "string \<Rightarrow> byte list" where
  "bytes_of s = map of_char s"

datatype write_outcome = WriteOk | WriteFail nat net_err | WriteCanceled net_err

record conn =
  cn_in :: "byte list"
  cn_end :: net_err
  cn_script :: "write_outcome list"
  cn_out :: "byte list"
  cn_closed :: bool
  cn_deadline :: bool
  cn_ev :: "hop_ev list"

definition plain_err :: "string \<Rightarrow> net_err" where
  "plain_err text = \<lparr>ne_proxy_auth = False, ne_timeout = False, ne_op = None, ne_text = text\<rparr>"

definition auth_err :: "string \<Rightarrow> net_err" where
  "auth_err text = \<lparr>ne_proxy_auth = True, ne_timeout = False, ne_op = None, ne_text = text\<rparr>"

text \<open>\<^verbatim>\<open>fmt.Errorf\<close> with \<^verbatim>\<open>%w\<close>: the chain below is kept, the text is prefixed.\<close>

definition wrap_err :: "string \<Rightarrow> net_err \<Rightarrow> net_err" where
  "wrap_err pre e = e\<lparr>ne_text := pre @ ne_text e\<rparr>"

definition enterPhase :: "failure_phase \<Rightarrow> conn \<Rightarrow> conn" where
  "enterPhase p c = c\<lparr>cn_ev := cn_ev c @ [EvEnter p]\<rparr>"

definition closeConn :: "conn \<Rightarrow> conn" where
  "closeConn c = c\<lparr>cn_closed := True\<rparr>"

text \<open>The loop of \<^verbatim>\<open>writeAll\<close> runs once for a non-empty buffer: a write without error wrote it all.\<close>

definition writeAll :: "byte list \<Rightarrow> conn \<Rightarrow> net_err option \<times> conn" where
  "writeAll b c =
     (if b = [] then (None, c)
      else case cn_script c of
        [] \<Rightarrow> (None, c\<lparr>cn_out := cn_out c @ b\<rparr>)
      | WriteOk # rest \<Rightarrow> (None, c\<lparr>cn_out := cn_out c @ b, cn_script := rest\<rparr>)
      | WriteFail n e # rest \<Rightarrow> (Some e, c\<lparr>cn_out := cn_out c @ take n b, cn_script := rest\<rparr>)
      | WriteCanceled e # rest \<Rightarrow> (Some e, c\<lparr>cn_script := rest\<rparr>))"

definition readFull :: "nat \<Rightarrow> conn \<Rightarrow> (net_err + byte list) \<times> conn" where
  "readFull n c =
     (if n \<le> length (cn_in c) then (Inr (take n (cn_in c)), c\<lparr>cn_in := drop n (cn_in c)\<rparr>)
      else (Inl (cn_end c), c\<lparr>cn_in := []\<rparr>))"

section \<open>Addresses\<close>

text \<open>\<^verbatim>\<open>net.SplitHostPort\<close>.\<close>

definition splitEnd :: "string \<Rightarrow> nat \<Rightarrow> string \<Rightarrow> nat \<Rightarrow> nat \<Rightarrow> string + (string \<times> string)" where
  "splitEnd hp i host j k =
     (if CHR ''['' \<in> set (drop j hp) then Inl ''unexpected '[' in address''
      else if CHR '']'' \<in> set (drop k hp) then Inl ''unexpected ']' in address''
      else Inr (host, drop (i + 1) hp))"

definition splitHostPort :: "string \<Rightarrow> string + (string \<times> string)" where
  "splitHostPort hp =
     (case lastIndexByte hp (CHR '':'') of
        None \<Rightarrow> Inl ''missing port in address''
      | Some i \<Rightarrow>
          if hasPrefix hp ''['' then
            (case indexByte hp (CHR '']'') of
               None \<Rightarrow> Inl ''missing ']' in address''
             | Some e \<Rightarrow>
                 if e + 1 = length hp then Inl ''missing port in address''
                 else if e + 1 = i then splitEnd hp i (drop 1 (take e hp)) 1 (e + 1)
                 else if hp ! (e + 1) = CHR '':'' then Inl ''too many colons in address''
                 else Inl ''missing port in address'')
          else if CHR '':'' \<in> set (take i hp) then Inl ''too many colons in address''
          else splitEnd hp i (take i hp) 0 0)"

text \<open>\<^verbatim>\<open>IP.To4\<close> of a 4- or 16-byte address.\<close>

definition to4 :: "byte list \<Rightarrow> byte list option" where
  "to4 ip =
     (if length ip = 4 then Some ip
      else if length ip = 16 \<and> take 12 ip = replicate 10 0 @ [0xff, 0xff] then Some (drop 12 ip)
      else None)"

text \<open>
  What the dialer takes from outside: the proxy URL, the TCP dial, \<^verbatim>\<open>net.ParseIP\<close>, the local resolver, and
  the texts \<^verbatim>\<open>strconv.Quote\<close> and \<^verbatim>\<open>strconv.Atoi\<close> print.
\<close>

record socks5_dialer =
  sd_proxy :: url
  sd_dial :: "string \<Rightarrow> net_err + conn"
  sd_parse_ip :: "string \<Rightarrow> byte list option"
  sd_lookup :: "string \<Rightarrow> net_err + byte list list"
  sd_quote :: "string \<Rightarrow> string"
  sd_atoi_text :: "string \<Rightarrow> string"

definition joinHostPort :: "string \<Rightarrow> string \<Rightarrow> string" where
  "joinHostPort host port =
     (if CHR '':'' \<in> set host then ''['' @ host @ '']:'' @ port else host @ '':'' @ port)"

definition proxyDialAddr :: "url \<Rightarrow> string" where
  "proxyDialAddr u = (case splitHostPort (url_host u) of
     Inr _ \<Rightarrow> url_host u
   | Inl _ \<Rightarrow> joinHostPort (hostname (url_host u))
       (if url_scheme u = ''http'' then ''80'' else if url_scheme u = ''https'' then ''443'' else ''1080''))"

section \<open>The handshake\<close>

definition byteText :: "byte \<Rightarrow> string" where
  "byteText b = itoa (uint b)"

definition replyErr :: "byte \<Rightarrow> net_err option" where
  "replyErr rep =
     (if rep = 0 then None
      else Some (plain_err
        (if rep = 1 then ''socks5: general failure''
         else if rep = 2 then ''socks5: connection not allowed by ruleset''
         else if rep = 3 then ''socks5: network unreachable''
         else if rep = 4 then ''socks5: host unreachable''
         else if rep = 5 then ''socks5: connection refused''
         else if rep = 6 then ''socks5: ttl expired''
         else if rep = 7 then ''socks5: command not supported''
         else if rep = 8 then ''socks5: address type not supported''
         else ''socks5: unknown reply '' @ byteText rep)))"

definition greeting :: "url \<Rightarrow> byte list" where
  "greeting proxy = (let methods = [0x00] @ (if url_user proxy \<noteq> None then [0x02] else [])
                     in [0x05, of_nat (length methods)] @ methods)"

definition credentials :: "string \<Rightarrow> string \<Rightarrow> byte list" where
  "credentials user pass = [0x01, of_nat (length user)] @ bytes_of user @ [of_nat (length pass)] @ bytes_of pass"

definition authenticate :: "string \<Rightarrow> string \<Rightarrow> conn \<Rightarrow> net_err option \<times> conn" where
  "authenticate user pass c =
     (if length user > 255 \<or> length pass > 255
      then (Some (plain_err ''socks5: credentials exceed RFC 1929 length limit''), c)
      else case writeAll (credentials user pass) c of
        (Some e, c1) \<Rightarrow> (Some e, c1)
      | (None, c1) \<Rightarrow> (case readFull 2 c1 of
          (Inl e, c2) \<Rightarrow> (Some e, c2)
        | (Inr buf, c2) \<Rightarrow>
            if buf ! 0 \<noteq> 0x01 \<or> buf ! 1 \<noteq> 0x00
            then (Some (auth_err ''socks5: proxy authentication failed''), enterPhase PhaseProxyAuth c2)
            else (None, c2)))"

definition negotiate :: "socks5_dialer \<Rightarrow> conn \<Rightarrow> net_err option \<times> conn" where
  "negotiate d c = (case writeAll (greeting (sd_proxy d)) (enterPhase PhaseSocks5Greeting c) of
     (Some e, c1) \<Rightarrow> (Some e, c1)
   | (None, c1) \<Rightarrow> (case readFull 2 c1 of
       (Inl e, c2) \<Rightarrow> (Some e, c2)
     | (Inr buf, c2) \<Rightarrow>
         if buf ! 0 \<noteq> 0x05 then (Some (plain_err (''socks5: proxy replied with version '' @ byteText (buf ! 0))), c2)
         else if buf ! 1 = 0x00 then (None, c2)
         else if buf ! 1 = 0x02 then
           (let c3 = enterPhase PhaseProxyAuth c2 in
            case url_user (sd_proxy d) of
              None \<Rightarrow> (Some (auth_err ''socks5: proxy demanded auth but none configured''), c3)
            | Some (user, pass) \<Rightarrow>
                authenticate user (case pass of None \<Rightarrow> [] | Some p \<Rightarrow> p) (enterPhase PhaseSocks5Auth c3))
         else if buf ! 1 = 0xff then
           (Some (auth_err ''socks5: no acceptable authentication method''), enterPhase PhaseProxyAuth c2)
         else (Some (plain_err (''socks5: proxy chose unknown method '' @ byteText (buf ! 1))), c2)))"

definition literalForm :: "byte list \<Rightarrow> byte \<times> byte list" where
  "literalForm ip = (case to4 ip of Some v4 \<Rightarrow> (0x01, v4) | None \<Rightarrow> (0x04, ip))"

definition targetForm :: "socks5_dialer \<Rightarrow> string \<Rightarrow> net_err + (byte \<times> byte list)" where
  "targetForm d host = (case sd_parse_ip d host of
     Some ip \<Rightarrow> Inr (literalForm ip)
   | None \<Rightarrow>
       if url_scheme (sd_proxy d) = ''socks5h'' then
         (if length host > 255
          then Inl (plain_err (''socks5: hostname '' @ sd_quote d host @ '' exceeds the RFC 1928 domain-form limit of 255 bytes''))
          else Inr (0x03, of_nat (length host) # bytes_of host))
       else (case sd_lookup d host of
         Inl e \<Rightarrow> Inl (wrap_err (''socks5: resolve '' @ sd_quote d host @ '' locally: '') e)
       | Inr [] \<Rightarrow> Inl (wrap_err (''socks5: resolve '' @ sd_quote d host @ '' locally: '') (plain_err ''no addresses''))
       | Inr (ip # _) \<Rightarrow> Inr (literalForm ip)))"

definition connectRequest :: "byte \<Rightarrow> byte list \<Rightarrow> int \<Rightarrow> byte list" where
  "connectRequest atyp addrBytes port =
     [0x05, 0x01, 0x00, atyp] @ addrBytes @ [word_of_int (port div 256), word_of_int port]"

definition readBound :: "byte \<Rightarrow> conn \<Rightarrow> (net_err + nat) \<times> conn" where
  "readBound atyp c =
     (if atyp = 0x01 then (Inr 4, c)
      else if atyp = 0x04 then (Inr 16, c)
      else if atyp = 0x03 then (case readFull 1 c of
          (Inl e, c1) \<Rightarrow> (Inl e, c1)
        | (Inr l, c1) \<Rightarrow> (Inr (unat (l ! 0)), c1))
      else (Inl (plain_err (''socks5: bad bind address type '' @ byteText atyp)), c))"

definition readReply :: "conn \<Rightarrow> net_err option \<times> conn" where
  "readReply c = (case readFull 4 c of
     (Inl e, c1) \<Rightarrow> (Some e, c1)
   | (Inr head, c1) \<Rightarrow>
       if head ! 0 \<noteq> 0x05 then (Some (plain_err (''socks5: bad reply version '' @ byteText (head ! 0))), c1)
       else if head ! 1 \<noteq> 0x00 then (replyErr (head ! 1), c1)
       else (case readBound (head ! 3) c1 of
         (Inl e, c2) \<Rightarrow> (Some e, c2)
       | (Inr bound, c2) \<Rightarrow> (case readFull (bound + 2) c2 of
           (Inl e, c3) \<Rightarrow> (Some e, c3)
         | (Inr _, c3) \<Rightarrow> (None, c3))))"

definition socksConnect :: "socks5_dialer \<Rightarrow> string \<Rightarrow> conn \<Rightarrow> net_err option \<times> conn" where
  "socksConnect d addr c =
     (let c0 = enterPhase PhaseSocks5Connect c in
      case splitHostPort addr of
        Inl reason \<Rightarrow> (Some (plain_err (''socks5: bad target '' @ sd_quote d addr @ '': address '' @ addr @ '': '' @ reason)), c0)
      | Inr (host, portStr) \<Rightarrow> (case atoi portStr of
          None \<Rightarrow> (Some (plain_err (''socks5: bad target port '' @ sd_quote d portStr @ '': '' @ sd_atoi_text d portStr)), c0)
        | Some port \<Rightarrow> (case targetForm d host of
            Inl e \<Rightarrow> (Some e, c0)
          | Inr (atyp, addrBytes) \<Rightarrow> (case writeAll (connectRequest atyp addrBytes port) c0 of
              (Some e, c1) \<Rightarrow> (Some e, c1)
            | (None, c1) \<Rightarrow> readReply c1))))"

text \<open>
  The dial: no connection, a connection the handshake gave up on, or a tunnel the caller owns.
\<close>

datatype dial_outcome =
    DialFailed net_err "hop_ev list"
  | HandshakeFailed net_err conn
  | Tunnel conn

definition SocksDialContext :: "socks5_dialer \<Rightarrow> string \<Rightarrow> dial_outcome" where
  "SocksDialContext d addr = (case sd_dial d (proxyDialAddr (sd_proxy d)) of
     Inl e \<Rightarrow> DialFailed (wrap_err ''socks5: dial proxy: '' e) [EvEnter PhaseProxyConnect]
   | Inr c \<Rightarrow>
       (case negotiate d (c\<lparr>cn_ev := [EvEnter PhaseProxyConnect], cn_deadline := True\<rparr>) of
          (Some e, c1) \<Rightarrow> HandshakeFailed e (closeConn c1)
        | (None, c1) \<Rightarrow> (case socksConnect d addr c1 of
            (Some e, c2) \<Rightarrow> HandshakeFailed e (closeConn c2)
          | (None, c2) \<Rightarrow> Tunnel (c2\<lparr>cn_deadline := False\<rparr>))))"

fun outcome_events :: "dial_outcome \<Rightarrow> hop_ev list" where
  "outcome_events (DialFailed e evs) = evs"
| "outcome_events (HandshakeFailed e c) = cn_ev c"
| "outcome_events (Tunnel c) = cn_ev c"

fun outcome_error :: "dial_outcome \<Rightarrow> net_err option" where
  "outcome_error (DialFailed e evs) = Some e"
| "outcome_error (HandshakeFailed e c) = Some e"
| "outcome_error (Tunnel c) = None"

text \<open>What a recorded dial reports to its hop.\<close>

definition recordingDialer :: "failure_phase \<Rightarrow> dial_outcome \<Rightarrow> net_err option \<times> hop_ev list" where
  "recordingDialer base r =
     (outcome_error r, EvBegin base # outcome_events r @ (if outcome_error r = None then [EvSucceeded] else []))"

end
