(* ===== verification/Socks5Props.thy ===== *)
theory Socks5Props
  imports Socks5
begin

text \<open>
  The SOCKS5 dialer against the protocol: what a proxy decodes from the bytes it is sent, what a proxy
  has to answer for a tunnel to come up, that nothing after the answer is consumed, what each failure
  means for failover and health, and that errors carry no credentials.
\<close>

section \<open>The protocol, from the proxy's side\<close>

datatype target = TargetIPv4 "byte list" | TargetDomain "byte list" | TargetIPv6 "byte list"

definition portOf :: "byte \<Rightarrow> byte \<Rightarrow> int" where
  "portOf h l = 256 * uint h + uint l"

text \<open>RFC 1928, section 4: the CONNECT request a proxy reads.\<close>

fun decodeTail :: "(byte list \<Rightarrow> target) \<Rightarrow> nat \<Rightarrow> byte list \<Rightarrow> (target \<times> int) option" where
  "decodeTail mk n bs = (case drop n bs of [h, l] \<Rightarrow> Some (mk (take n bs), portOf h l) | _ \<Rightarrow> None)"

definition decodeRequest :: "byte list \<Rightarrow> (target \<times> int) option" where
  "decodeRequest bs = (case bs of
     v # cmd # rsv # atyp # rest \<Rightarrow>
       if v \<noteq> 5 \<or> cmd \<noteq> 1 \<or> rsv \<noteq> 0 then None
       else if atyp = 1 then decodeTail TargetIPv4 4 rest
       else if atyp = 4 then decodeTail TargetIPv6 16 rest
       else if atyp = 3 then (case rest of [] \<Rightarrow> None | n # rest' \<Rightarrow> decodeTail TargetDomain (unat n) rest')
       else None
   | _ \<Rightarrow> None)"

text \<open>RFC 1928, section 6: an affirmative reply with its bound address.\<close>

definition goodReply :: "byte list \<Rightarrow> bool" where
  "goodReply bs \<longleftrightarrow> (\<exists>rsv a. bs = [5, 0, rsv, 1] @ a \<and> length a = 6 \<or> bs = [5, 0, rsv, 4] @ a \<and> length a = 18 \<or>
     (\<exists>n. bs = [5, 0, rsv, 3, n] @ a \<and> length a = unat n + 2))"

text \<open>The answer to the greeting, with that of RFC 1929 when credentials were asked for and sent.\<close>

definition goodMethod :: "url \<Rightarrow> byte list \<Rightarrow> bool" where
  "goodMethod proxy bs \<longleftrightarrow> bs = [5, 0] \<or>
     bs = [5, 2, 1, 0] \<and> (\<exists>u p. url_user proxy = Some (u, p) \<and> length u \<le> 255 \<and> length (case p of None \<Rightarrow> [] | Some x \<Rightarrow> x) \<le> 255)"

section \<open>Reading\<close>

lemma readFull_Inr:
  "readFull n c = (Inr bs, c') \<longleftrightarrow> length bs = n \<and> cn_in c = bs @ cn_in c' \<and> c' = c\<lparr>cn_in := cn_in c'\<rparr>"
proof
  assume "readFull n c = (Inr bs, c')"
  then show "length bs = n \<and> cn_in c = bs @ cn_in c' \<and> c' = c\<lparr>cn_in := cn_in c'\<rparr>"
    by (auto simp: readFull_def split: if_splits)
next
  assume a: "length bs = n \<and> cn_in c = bs @ cn_in c' \<and> c' = c\<lparr>cn_in := cn_in c'\<rparr>"
  then have "c\<lparr>cn_in := drop n (cn_in c)\<rparr> = c'" by (metis append_eq_conv_conj)
  with a show "readFull n c = (Inr bs, c')" by (auto simp: readFull_def)
qed

lemma readFull_total: "readFull n c = (Inl e, c') \<Longrightarrow> length (cn_in c) < n \<and> e = cn_end c"
  by (auto simp: readFull_def split: if_splits)

lemma readFull_split: "n \<le> length (cn_in c) \<Longrightarrow> readFull n c = (Inr (take n (cn_in c)), c\<lparr>cn_in := drop n (cn_in c)\<rparr>)"
  by (simp add: readFull_def)

lemma length_4_eq: "length bs = 4 \<Longrightarrow> \<exists>a b c d. bs = [a, b, c, d]"
  by (auto simp: length_Suc_conv numeral_eq_Suc)

lemma length_2_eq: "length bs = 2 \<Longrightarrow> \<exists>a b. bs = [a, b]"
  by (auto simp: length_Suc_conv numeral_eq_Suc)

lemma replyErr_None [simp]: "replyErr b = None \<longleftrightarrow> b = 0"
  by (simp add: replyErr_def)

lemma readBound_Inr:
  "readBound t c = (Inr n, c') \<longleftrightarrow>
     t = 1 \<and> n = 4 \<and> c' = c \<or> t = 4 \<and> n = 16 \<and> c' = c \<or>
     (\<exists>b. t = 3 \<and> n = unat b \<and> cn_in c = b # cn_in c' \<and> c' = c\<lparr>cn_in := cn_in c'\<rparr>)"
proof (cases "t = 3")
  case True
  show ?thesis
  proof (cases "readFull 1 c")
    case (Pair r c1)
    then show ?thesis
    proof (cases r)
      case (Inl e)
      with Pair True readFull_total [of 1 c e c1] show ?thesis by (auto simp: readBound_def)
    next
      case (Inr bs)
      with Pair have "length bs = 1" "cn_in c = bs @ cn_in c1" "c1 = c\<lparr>cn_in := cn_in c1\<rparr>"
        by (simp_all add: readFull_Inr)
      moreover obtain b where "bs = [b]" using calculation(1) by (cases bs) auto
      ultimately show ?thesis using Pair Inr True by (auto simp: readBound_def)
    qed
  qed
qed (auto simp: readBound_def)

lemma readReply_good:
  assumes "readReply c = (None, c')"
  shows "\<exists>bs. goodReply bs \<and> cn_in c = bs @ cn_in c' \<and> c' = c\<lparr>cn_in := cn_in c'\<rparr>"
proof -
  obtain head c1 n c2 a where h: "readFull 4 c = (Inr head, c1)" and v: "head ! 0 = 5" "head ! 1 = 0"
    and b: "readBound (head ! 3) c1 = (Inr n, c2)" and r: "readFull (n + 2) c2 = (Inr a, c')"
    using assms by (auto simp: readReply_def split: prod.splits sum.splits if_splits)
  obtain x y rsv t where head: "head = [x, y, rsv, t]" using h length_4_eq [of head] by (auto simp: readFull_Inr)
  have hd: "head = [5, 0, rsv, t]" using v head by simp
  have 1: "cn_in c = head @ cn_in c1" "c1 = c\<lparr>cn_in := cn_in c1\<rparr>" using h by (simp_all add: readFull_Inr)
  have 2: "length a = n + 2" "cn_in c2 = a @ cn_in c'" "c' = c2\<lparr>cn_in := cn_in c'\<rparr>" using r by (simp_all add: readFull_Inr)
  have f: "c' = c\<lparr>cn_in := cn_in c'\<rparr>" if "c2 = c1\<lparr>cn_in := cn_in c2\<rparr>"
    using 1(2) 2(3) that by (metis conn.update_convs(1) conn.surjective)
  from b consider "t = 1" "n = 4" "c2 = c1" | "t = 4" "n = 16" "c2 = c1"
    | m where "t = 3" "n = unat m" "cn_in c1 = m # cn_in c2" "c2 = c1\<lparr>cn_in := cn_in c2\<rparr>"
    unfolding readBound_Inr using hd by auto
  then show ?thesis
  proof cases
    case 1
    with f 2 \<open>cn_in c = head @ cn_in c1\<close> hd have "goodReply (head @ a) \<and> cn_in c = (head @ a) @ cn_in c'"
      by (simp add: goodReply_def)
    with f 1(3) show ?thesis by auto
  next
    case 2
    with f \<open>length a = n + 2\<close> \<open>cn_in c2 = a @ cn_in c'\<close> \<open>cn_in c = head @ cn_in c1\<close> hd
    have "goodReply (head @ a) \<and> cn_in c = (head @ a) @ cn_in c'" by (simp add: goodReply_def)
    with f 2(3) show ?thesis by auto
  next
    case (3 m)
    with \<open>length a = n + 2\<close> \<open>cn_in c2 = a @ cn_in c'\<close> \<open>cn_in c = head @ cn_in c1\<close> hd
    have "goodReply (head @ m # a) \<and> cn_in c = (head @ m # a) @ cn_in c'" by (simp add: goodReply_def)
    with f [OF 3(4)] show ?thesis by blast
  qed
qed

lemma goodReply_read:
  assumes "goodReply bs" and "cn_in c = bs @ rest"
  shows "readReply c = (None, c\<lparr>cn_in := rest\<rparr>)"
proof -
  from assms(1) consider rsv a where "bs = [5, 0, rsv, 1] @ a" "length a = 6" | rsv a where "bs = [5, 0, rsv, 4] @ a" "length a = 18"
    | rsv n a where "bs = [5, 0, rsv, 3, n] @ a" "length a = unat n + 2" by (auto simp: goodReply_def)
  then show ?thesis using assms(2)
    by cases (simp_all add: readReply_def readFull_def readBound_def)
qed

section \<open>What moved over the connection\<close>

definition io :: "conn \<Rightarrow> conn \<Rightarrow> byte list \<Rightarrow> byte list \<Rightarrow> failure_phase list \<Rightarrow> bool" where
  "io c c' ins outs ps \<longleftrightarrow> cn_in c = ins @ cn_in c' \<and> cn_out c' = cn_out c @ outs \<and> cn_ev c' = cn_ev c @ map EvEnter ps
     \<and> cn_closed c' = cn_closed c \<and> cn_deadline c' = cn_deadline c"

lemma io_trans: "io a b i1 o1 p1 \<Longrightarrow> io b c i2 o2 p2 \<Longrightarrow> io a c (i1 @ i2) (o1 @ o2) (p1 @ p2)"
  by (simp add: io_def)

lemma io_enter: "io c (enterPhase p c) [] [] [p]"
  by (simp add: io_def enterPhase_def)

lemma io_write: "writeAll b c = (None, c') \<Longrightarrow> io c c' [] b []"
  by (auto simp: io_def writeAll_def split: if_splits list.splits write_outcome.splits)

lemma io_read: "readFull n c = (Inr bs, c') \<Longrightarrow> io c c' bs [] [] \<and> length bs = n"
  by (auto simp: io_def readFull_def split: if_splits)

lemma io_reply: "readReply c = (None, c') \<Longrightarrow> \<exists>bs. goodReply bs \<and> io c c' bs [] []"
  using readReply_good [of c c'] by (metis append_Nil2 conn.select_convs(4-7) conn.surjective conn.update_convs(1) io_def list.map(1))

definition passOf :: "string option \<Rightarrow> string" where
  "passOf p = (case p of None \<Rightarrow> [] | Some x \<Rightarrow> x)"

text \<open>What the dialer sends before the CONNECT request, by the method the proxy chose.\<close>

definition sentAuth :: "url \<Rightarrow> byte list \<Rightarrow> byte list" where
  "sentAuth proxy ins = greeting proxy @ (if ins = [5, 0] then [] else
     (case url_user proxy of None \<Rightarrow> [] | Some (u, p) \<Rightarrow> credentials u (passOf p)))"

lemma io_authenticate:
  assumes "authenticate u p c = (None, c')"
  shows "io c c' [1, 0] (credentials u p) [] \<and> length u \<le> 255 \<and> length p \<le> 255"
proof -
  obtain c1 buf where w: "writeAll (credentials u p) c = (None, c1)" and r: "readFull 2 c1 = (Inr buf, c')"
    and v: "buf ! 0 = 1" "buf ! 1 = 0" and l: "length u \<le> 255" "length p \<le> 255"
    using assms by (auto simp: authenticate_def split: prod.splits sum.splits if_splits option.splits)
  have "buf = [1, 0]" using v length_2_eq io_read [OF r] by fastforce
  with io_trans [OF io_write [OF w]] io_read [OF r] l show ?thesis by fastforce
qed

lemma io_negotiate:
  assumes "negotiate d c = (None, c')"
  shows "\<exists>ins ps. goodMethod (sd_proxy d) ins \<and> io c c' ins (sentAuth (sd_proxy d) ins) ps"
proof -
  obtain c1 buf c2 where w: "writeAll (greeting (sd_proxy d)) (enterPhase PhaseSocks5Greeting c) = (None, c1)"
    and r: "readFull 2 c1 = (Inr buf, c2)" and v: "buf ! 0 = 5"
    and m: "buf ! 1 = 0 \<and> c' = c2 \<or> buf ! 1 = 2 \<and> (\<exists>u p. url_user (sd_proxy d) = Some (u, p) \<and>
       authenticate u (passOf p) (enterPhase PhaseSocks5Auth (enterPhase PhaseProxyAuth c2)) = (None, c'))"
    using assms by (auto simp: negotiate_def Let_def passOf_def split: prod.splits sum.splits if_splits option.splits)
  have g: "io c c2 buf (greeting (sd_proxy d)) [PhaseSocks5Greeting]" "length buf = 2"
    using io_trans [OF io_trans [OF io_enter io_write [OF w]]] io_read [OF r] by fastforce+
  from m show ?thesis
  proof
    assume z: "buf ! 1 = 0 \<and> c' = c2"
    with v g(2) length_2_eq have "buf = [5, 0]" by fastforce
    with g z show ?thesis by (auto simp: goodMethod_def sentAuth_def)
  next
    assume z: "buf ! 1 = 2 \<and> (\<exists>u p. url_user (sd_proxy d) = Some (u, p) \<and>
       authenticate u (passOf p) (enterPhase PhaseSocks5Auth (enterPhase PhaseProxyAuth c2)) = (None, c'))"
    then obtain u p where u: "url_user (sd_proxy d) = Some (u, p)"
      and a: "authenticate u (passOf p) (enterPhase PhaseSocks5Auth (enterPhase PhaseProxyAuth c2)) = (None, c')" by blast
    have b: "buf = [5, 2]" using z v g(2) length_2_eq by fastforce
    from io_trans [OF g(1) io_trans [OF io_enter io_trans [OF io_enter io_authenticate [OF a, THEN conjunct1]]]]
    have "io c c' [5, 2, 1, 0] (sentAuth (sd_proxy d) [5, 2, 1, 0]) [PhaseSocks5Greeting, PhaseProxyAuth, PhaseSocks5Auth]"
      using b u by (simp add: sentAuth_def)
    moreover have "goodMethod (sd_proxy d) [5, 2, 1, 0]"
      using io_authenticate [OF a] u by (simp add: goodMethod_def passOf_def)
    ultimately show ?thesis by blast
  qed
qed

lemma io_connect:
  assumes "socksConnect d addr c = (None, c')"
  shows "\<exists>host portStr port atyp ab bs. splitHostPort addr = Inr (host, portStr) \<and> atoi portStr = Some port \<and>
     targetForm d host = Inr (atyp, ab) \<and> goodReply bs \<and> io c c' bs (connectRequest atyp ab port) [PhaseSocks5Connect]"
proof -
  obtain host portStr port atyp ab c1 where a: "splitHostPort addr = Inr (host, portStr)" "atoi portStr = Some port"
    "targetForm d host = Inr (atyp, ab)"
    and w: "writeAll (connectRequest atyp ab port) (enterPhase PhaseSocks5Connect c) = (None, c1)" and r: "readReply c1 = (None, c')"
    using assms by (auto simp: socksConnect_def Let_def split: prod.splits sum.splits option.splits)
  obtain bs where "goodReply bs" "io c1 c' bs [] []" using io_reply [OF r] by blast
  with io_trans [OF io_trans [OF io_enter io_write [OF w]]] a show ?thesis by fastforce
qed

section \<open>The request a proxy decodes\<close>

lemma portOf_split: "portOf (word_of_int (p div 256)) (word_of_int p) = p mod 65536"
proof -
  have "256 * (p div 256 mod 256) + p mod 256 = p mod (256 * 256)"
    using zmod_zmult2_eq [of 256 p 256] by simp
  then show ?thesis by (simp add: portOf_def uint_word_of_int)
qed

definition formTarget :: "byte \<Rightarrow> byte list \<Rightarrow> target" where
  "formTarget atyp ab = (if atyp = 1 then TargetIPv4 ab else if atyp = 4 then TargetIPv6 ab else TargetDomain (tl ab))"

definition form_ok :: "byte \<times> byte list \<Rightarrow> bool" where
  "form_ok f \<longleftrightarrow> (case f of (atyp, ab) \<Rightarrow>
     atyp = 1 \<and> length ab = 4 \<or> atyp = 4 \<and> length ab = 16 \<or> atyp = 3 \<and> ab \<noteq> [] \<and> unat (hd ab) = length (tl ab))"

lemma decode_request:
  assumes "form_ok (atyp, ab)"
  shows "decodeRequest (connectRequest atyp ab port) = Some (formTarget atyp ab, port mod 65536)"
proof -
  consider "atyp = 1" "length ab = 4" | "atyp = 4" "length ab = 16"
    | n h where "atyp = 3" "ab = n # h" "unat n = length h"
    using assms by (cases ab) (auto simp: form_ok_def)
  then show ?thesis
    by cases (simp_all add: decodeRequest_def connectRequest_def formTarget_def portOf_split)
qed

text \<open>\<^verbatim>\<open>net.ParseIP\<close> and the resolver return 4- or 16-byte addresses.\<close>

definition ip_lengths :: "socks5_dialer \<Rightarrow> bool" where
  "ip_lengths d \<longleftrightarrow> (\<forall>h ip. sd_parse_ip d h = Some ip \<longrightarrow> length ip = 4 \<or> length ip = 16)
     \<and> (\<forall>h ips. sd_lookup d h = Inr ips \<longrightarrow> (\<forall>ip \<in> set ips. length ip = 4 \<or> length ip = 16))"

lemma literalForm_ok: "length ip = 4 \<or> length ip = 16 \<Longrightarrow> form_ok (literalForm ip)"
  by (auto simp: literalForm_def to4_def form_ok_def split: option.splits if_splits)

lemma targetForm_ok:
  assumes "ip_lengths d" and "targetForm d host = Inr f"
  shows "form_ok f"
proof (cases "sd_parse_ip d host")
  case (Some ip)
  with assms show ?thesis by (auto simp: targetForm_def ip_lengths_def intro: literalForm_ok)
next
  case None
  show ?thesis
  proof (cases "url_scheme (sd_proxy d) = ''socks5h''")
    case True
    with None assms have "length host \<le> 255" "f = (3, of_nat (length host) # bytes_of host)"
      by (auto simp: targetForm_def split: if_splits)
    then show ?thesis by (simp add: form_ok_def bytes_of_def unat_of_nat)
  next
    case False
    with None assms show ?thesis
      by (auto simp: targetForm_def ip_lengths_def split: sum.splits list.splits intro!: literalForm_ok) (metis list.set_intros(1))
  qed
qed

section \<open>A proxy that plays along\<close>

definition writes_ok :: "conn \<Rightarrow> bool" where
  "writes_ok c \<longleftrightarrow> list_all (\<lambda>w. w = WriteOk) (cn_script c)"

lemma write_goes: "writes_ok c \<Longrightarrow> \<exists>c'. writeAll b c = (None, c') \<and> writes_ok c' \<and> cn_in c' = cn_in c"
  by (auto simp: writes_ok_def writeAll_def split: list.splits)

lemma writes_ok_simps [simp]:
  "writes_ok (enterPhase p c) = writes_ok c" "cn_in (enterPhase p c) = cn_in c"
  "writes_ok (c\<lparr>cn_in := x\<rparr>) = writes_ok c" "writes_ok (c\<lparr>cn_ev := evs, cn_deadline := b\<rparr>) = writes_ok c"
  by (simp_all add: writes_ok_def enterPhase_def)

lemma authenticate_goes:
  assumes "writes_ok c" and "cn_in c = [1, 0] @ rest" and "length u \<le> 255" and "length p \<le> 255"
  shows "\<exists>c'. authenticate u p c = (None, c') \<and> writes_ok c' \<and> cn_in c' = rest"
proof -
  obtain c1 where "writeAll (credentials u p) c = (None, c1)" "writes_ok c1" "cn_in c1 = cn_in c"
    using write_goes [OF assms(1)] by blast
  with assms show ?thesis by (simp add: authenticate_def readFull_def)
qed

lemma negotiate_goes:
  assumes "writes_ok c" and "cn_in c = ins @ rest" and "goodMethod (sd_proxy d) ins"
  shows "\<exists>c'. negotiate d c = (None, c') \<and> writes_ok c' \<and> cn_in c' = rest"
proof -
  obtain c1 where w: "writeAll (greeting (sd_proxy d)) (enterPhase PhaseSocks5Greeting c) = (None, c1)" "writes_ok c1" "cn_in c1 = cn_in c"
    using write_goes [of "enterPhase PhaseSocks5Greeting c" "greeting (sd_proxy d)"] assms(1) by auto
  show ?thesis
  proof (cases "ins = [5, 0]")
    case True
    with w assms show ?thesis by (simp add: negotiate_def readFull_def)
  next
    case False
    then obtain u p where i: "ins = [5, 2, 1, 0]" and u: "url_user (sd_proxy d) = Some (u, p)"
      and l: "length u \<le> 255" "length (case p of None \<Rightarrow> [] | Some x \<Rightarrow> x) \<le> 255"
      using assms(3) by (auto simp: goodMethod_def)
    have "\<exists>c'. authenticate u (case p of None \<Rightarrow> [] | Some x \<Rightarrow> x)
        (enterPhase PhaseSocks5Auth (enterPhase PhaseProxyAuth (c1\<lparr>cn_in := [1, 0] @ rest\<rparr>))) = (None, c') \<and> writes_ok c' \<and> cn_in c' = rest"
      using w(2) l by (intro authenticate_goes) simp_all
    with w i u assms(2) show ?thesis by (auto simp: negotiate_def readFull_def)
  qed
qed

lemma connect_goes:
  assumes "writes_ok c" and "cn_in c = bs @ rest" and "goodReply bs" and "splitHostPort addr = Inr (host, portStr)"
    and "atoi portStr = Some port" and "targetForm d host = Inr (atyp, ab)"
  shows "\<exists>c'. socksConnect d addr c = (None, c') \<and> cn_in c' = rest"
proof -
  obtain c1 where w: "writeAll (connectRequest atyp ab port) (enterPhase PhaseSocks5Connect c) = (None, c1)" "cn_in c1 = cn_in c"
    using write_goes [of "enterPhase PhaseSocks5Connect c"] assms(1) by auto
  have "readReply c1 = (None, c1\<lparr>cn_in := rest\<rparr>)" by (rule goodReply_read [OF assms(3)]) (simp add: w assms(2))
  with w assms(4-6) show ?thesis by (simp add: socksConnect_def)
qed

section \<open>Failures\<close>

text \<open>The phase a failed dial stopped in is the last one it entered.\<close>

definition lastPhase :: "hop_ev list \<Rightarrow> failure_phase" where
  "lastPhase evs = (case last evs of EvEnter p \<Rightarrow> p | _ \<Rightarrow> PhaseNone)"

definition greeting_phases :: "failure_phase set" where
  "greeting_phases = {PhaseSocks5Greeting, PhaseProxyAuth, PhaseSocks5Auth}"

lemma write_fail_ev: "writeAll b c = (r, c') \<Longrightarrow> cn_ev c' = cn_ev c"
  by (auto simp: writeAll_def split: if_splits list.splits write_outcome.splits)

lemma read_ev: "readFull n c = (r, c') \<Longrightarrow> cn_ev c' = cn_ev c"
  by (auto simp: readFull_def split: if_splits)

lemma authenticate_ev:
  "authenticate u p c = (r, c') \<Longrightarrow> cn_ev c' = cn_ev c \<or> cn_ev c' = cn_ev c @ [EvEnter PhaseProxyAuth]"
  by (auto simp: authenticate_def enterPhase_def dest!: write_fail_ev read_ev split: if_splits prod.splits option.splits sum.splits)

lemma negotiate_ev:
  assumes "negotiate d c = (r, c')"
  shows "\<exists>ps. cn_ev c' = cn_ev c @ map EvEnter ps \<and> ps \<noteq> [] \<and> set ps \<subseteq> greeting_phases"
proof -
  obtain r1 c1 where w: "writeAll (greeting (sd_proxy d)) (enterPhase PhaseSocks5Greeting c) = (r1, c1)" by (metis surj_pair)
  obtain r2 c2 where r: "readFull 2 c1 = (r2, c2)" by (metis surj_pair)
  have e: "cn_ev c1 = cn_ev c @ map EvEnter [PhaseSocks5Greeting]" "cn_ev c2 = cn_ev c1"
    using write_fail_ev [OF w] read_ev [OF r] by (simp_all add: enterPhase_def)
  have auth: "\<exists>ps. cn_ev x = cn_ev c @ map EvEnter ps \<and> ps \<noteq> [] \<and> set ps \<subseteq> greeting_phases"
    if "authenticate u p (enterPhase PhaseSocks5Auth (enterPhase PhaseProxyAuth c2)) = (q, x)" for u p q x
    using authenticate_ev [OF that] e
    by (auto simp: enterPhase_def greeting_phases_def
        intro: exI [of _ "[PhaseSocks5Greeting, PhaseProxyAuth, PhaseSocks5Auth]"]
               exI [of _ "[PhaseSocks5Greeting, PhaseProxyAuth, PhaseSocks5Auth, PhaseProxyAuth]"])
  have one: "\<exists>ps. cn_ev x = cn_ev c @ map EvEnter ps \<and> ps \<noteq> [] \<and> set ps \<subseteq> greeting_phases"
    if "x = c1 \<or> x = c2 \<or> x = enterPhase PhaseProxyAuth c2" for x
    using that e by (auto simp: enterPhase_def greeting_phases_def
        intro: exI [of _ "[PhaseSocks5Greeting]"] exI [of _ "[PhaseSocks5Greeting, PhaseProxyAuth]"])
  show ?thesis using assms w r auth one
    by (auto simp: negotiate_def Let_def split: option.splits sum.splits if_splits prod.splits)
qed

lemma readReply_ev: "readReply c = (r, c') \<Longrightarrow> cn_ev c' = cn_ev c"
  by (auto simp: readReply_def readBound_def dest!: read_ev split: prod.splits sum.splits if_splits)

lemma connect_ev: "socksConnect d addr c = (r, c') \<Longrightarrow> cn_ev c' = cn_ev c @ [EvEnter PhaseSocks5Connect]"
  by (auto simp: socksConnect_def Let_def enterPhase_def dest!: write_fail_ev readReply_ev
      split: prod.splits sum.splits option.splits)

lemma dial_phases:
  assumes "outcome_error (SocksDialContext d addr) = Some e"
  shows "\<exists>ps. outcome_events (SocksDialContext d addr) = map EvEnter ps \<and> ps \<noteq> [] \<and>
     (set ps \<subseteq> insert PhaseProxyConnect greeting_phases \<or>
      (\<exists>qs. ps = qs @ [PhaseSocks5Connect] \<and> PhaseSocks5Connect \<notin> set qs))"
proof (cases "sd_dial d (proxyDialAddr (sd_proxy d))")
  case (Inl x)
  then show ?thesis by (auto simp: SocksDialContext_def intro: exI [of _ "[PhaseProxyConnect]"])
next
  case (Inr c)
  let ?c0 = "c\<lparr>cn_ev := [EvEnter PhaseProxyConnect], cn_deadline := True\<rparr>"
  obtain r1 c1 where n: "negotiate d ?c0 = (r1, c1)" by (metis surj_pair)
  obtain ps where ps: "cn_ev c1 = map EvEnter (PhaseProxyConnect # ps)" "ps \<noteq> []" "set ps \<subseteq> greeting_phases"
    using negotiate_ev [OF n] by auto
  obtain r2 c2 where k: "socksConnect d addr c1 = (r2, c2)" by (metis surj_pair)
  show ?thesis
  proof (cases r1)
    case (Some e1)
    then show ?thesis using Inr n ps
      by (auto simp: SocksDialContext_def closeConn_def intro!: exI [of _ "PhaseProxyConnect # ps"])
  next
    case None
    have "PhaseSocks5Connect \<notin> set (PhaseProxyConnect # ps)" using ps(3) by (auto simp: greeting_phases_def)
    moreover have "outcome_events (SocksDialContext d addr) = map EvEnter ((PhaseProxyConnect # ps) @ [PhaseSocks5Connect])"
      using Inr n k None ps connect_ev [OF k] assms by (auto simp: SocksDialContext_def closeConn_def split: option.splits)
    ultimately show ?thesis by blast
  qed
qed

lemma fold_enter: "fold (\<lambda>e. record_event (report (0, e))) (map EvEnter ps) (c, [t]) = (c, [t\<lparr>dt_phase := last (dt_phase t # ps)\<rparr>])"
  by (induction ps arbitrary: t) (auto simp: on_hop_def enter_def)

text \<open>The failure an attempt is classified with when its only hop ran this dial.\<close>

definition dialVerdict :: "dial_outcome \<Rightarrow> failure option" where
  "dialVerdict r = map_option
     (\<lambda>e. classifyTransportFailure False e
        (trace_at (HopOpened # map (\<lambda>ev. report (0, ev)) (snd (recordingDialer PhaseProxyConnect r))) 0))
     (outcome_error r)"

lemma dialVerdict_phase:
  assumes "outcome_error r = Some e" and "outcome_events r = map EvEnter ps" and "ps \<noteq> []"
  shows "dialVerdict r = Some (classifyTransportFailure False e (Some (newCall, \<lparr>dt_dialed = True, dt_dial_ok = False, dt_wrote = False, dt_phase = last ps\<rparr>)))"
proof -
  have "fold record_event (map (\<lambda>ev. report (0, ev)) (map EvEnter ps)) (newCall, [begin_dial PhaseProxyConnect withHopTrace])
      = (newCall, [(begin_dial PhaseProxyConnect withHopTrace)\<lparr>dt_phase := last ps\<rparr>])"
    using fold_enter [of ps newCall "begin_dial PhaseProxyConnect withHopTrace"] assms(3) by (simp add: fold_map comp_def)
  with assms show ?thesis
    by (simp add: dialVerdict_def recordingDialer_def trace_at_def record_events_def on_hop_def comp_def)
       (simp add: begin_dial_def withHopTrace_def)
qed

section \<open>Errors carry no credentials\<close>

text \<open>Two connections that differ in what was written to them only.\<close>

definition same_view :: "conn \<Rightarrow> conn \<Rightarrow> bool" where
  "same_view a b \<longleftrightarrow> a\<lparr>cn_out := []\<rparr> = b\<lparr>cn_out := []\<rparr>"

definition same_reaction :: "('r \<times> conn) \<Rightarrow> ('r \<times> conn) \<Rightarrow> bool" where
  "same_reaction x y \<longleftrightarrow> fst x = fst y \<and> same_view (snd x) (snd y)"

lemma same_viewD:
  "same_view a b \<Longrightarrow> cn_in a = cn_in b \<and> cn_end a = cn_end b \<and> cn_script a = cn_script b \<and> cn_ev a = cn_ev b"
  by (cases a; cases b) (simp add: same_view_def)

lemma view_write:
  assumes "same_view a b" and "x \<noteq> []" and "y \<noteq> []"
  shows "same_reaction (writeAll x a) (writeAll y b)"
  using assms by (cases a; cases b)
    (auto simp: same_reaction_def same_view_def writeAll_def split: list.splits write_outcome.splits)

lemma view_read: "same_view a b \<Longrightarrow> same_reaction (readFull n a) (readFull n b)"
  by (cases a; cases b) (auto simp: same_reaction_def same_view_def readFull_def)

lemma view_enter: "same_view a b \<Longrightarrow> same_view (enterPhase p a) (enterPhase p b)"
  by (cases a; cases b) (simp add: same_view_def enterPhase_def)

lemma view_close: "same_view a b \<Longrightarrow> same_view (closeConn a) (closeConn b)"
  by (cases a; cases b) (simp add: same_view_def closeConn_def)

lemma reaction_cases:
  assumes "same_reaction x y"
  obtains r a b where "x = (r, a)" "y = (r, b)" "same_view a b"
  using assms by (cases x; cases y) (simp add: same_reaction_def)

lemma view_bind:
  assumes "same_reaction x y" and "\<And>r a b. same_view a b \<Longrightarrow> same_reaction (f r a) (g r b)"
  shows "same_reaction (case x of (r, a) \<Rightarrow> f r a) (case y of (r, b) \<Rightarrow> g r b)"
  using assms(1) by (rule reaction_cases) (simp add: assms(2))

lemma reaction_pair: "same_view a b \<Longrightarrow> same_reaction (r, a) (r, b)"
  by (simp add: same_reaction_def)

lemma view_authenticate:
  assumes "same_view a b" and "length u \<le> 255" "length p \<le> 255" "length u' \<le> 255" "length p' \<le> 255"
  shows "same_reaction (authenticate u p a) (authenticate u' p' b)"
proof -
  have "same_reaction (writeAll (credentials u p) a) (writeAll (credentials u' p') b)"
    by (rule view_write [OF assms(1)]) (simp_all add: credentials_def)
  then obtain r a1 b1 where w: "writeAll (credentials u p) a = (r, a1)" "writeAll (credentials u' p') b = (r, b1)" "same_view a1 b1"
    by (rule reaction_cases)
  obtain q a2 b2 where "readFull 2 a1 = (q, a2)" "readFull 2 b1 = (q, b2)" "same_view a2 b2"
    using view_read [OF w(3), of 2] by (rule reaction_cases)
  with w assms(2-) show ?thesis
    by (cases r; cases q) (auto simp: authenticate_def intro: reaction_pair view_enter)
qed

lemma view_negotiate:
  assumes "same_view a b" and "url_user (sd_proxy d) = Some (u, p)" and "url_user (sd_proxy d') = Some (u', p')"
    and "length u \<le> 255" "length (passOf p) \<le> 255" "length u' \<le> 255" "length (passOf p') \<le> 255"
  shows "same_reaction (negotiate d a) (negotiate d' b)"
proof -
  have g: "greeting (sd_proxy d) = greeting (sd_proxy d')" using assms(2,3) by (simp add: greeting_def)
  have "same_reaction (writeAll (greeting (sd_proxy d)) (enterPhase PhaseSocks5Greeting a))
      (writeAll (greeting (sd_proxy d')) (enterPhase PhaseSocks5Greeting b))"
    by (rule view_write [OF view_enter [OF assms(1)]]) (simp_all add: greeting_def)
  then obtain r a1 b1 where w: "writeAll (greeting (sd_proxy d)) (enterPhase PhaseSocks5Greeting a) = (r, a1)"
    "writeAll (greeting (sd_proxy d')) (enterPhase PhaseSocks5Greeting b) = (r, b1)" "same_view a1 b1"
    by (rule reaction_cases)
  obtain q a2 b2 where q: "readFull 2 a1 = (q, a2)" "readFull 2 b1 = (q, b2)" "same_view a2 b2"
    using view_read [OF w(3), of 2] by (rule reaction_cases)
  have "same_reaction (authenticate u (passOf p) (enterPhase PhaseSocks5Auth (enterPhase PhaseProxyAuth a2)))
      (authenticate u' (passOf p') (enterPhase PhaseSocks5Auth (enterPhase PhaseProxyAuth b2)))"
    by (intro view_authenticate view_enter q(3) assms)
  with w q assms(2,3) show ?thesis
    by (cases r; cases q) (auto simp: negotiate_def Let_def passOf_def [symmetric] intro: reaction_pair view_enter)
qed

lemma view_reply: "same_view a b \<Longrightarrow> same_reaction (readReply a) (readReply b)"
proof -
  assume v: "same_view a b"
  obtain q a1 b1 where q: "readFull 4 a = (q, a1)" "readFull 4 b = (q, b1)" "same_view a1 b1"
    using view_read [OF v, of 4] by (rule reaction_cases)
  have bound: "same_reaction (readBound t a1) (readBound t b1)" for t
    using view_read [OF q(3), of 1] q(3)
    by (auto simp: readBound_def intro: reaction_pair elim!: reaction_cases split: sum.splits)
  have tail: "same_reaction (case readFull n x of (Inl e, c3) \<Rightarrow> (Some e, c3) | (Inr _, c3) \<Rightarrow> (None, c3))
      (case readFull n y of (Inl e, c3) \<Rightarrow> (Some e, c3) | (Inr _, c3) \<Rightarrow> (None, c3))" if "same_view x y" for n x y
    using view_read [OF that, of n] by (auto elim!: reaction_cases intro: reaction_pair split: sum.splits)
  show ?thesis
  proof (cases q)
    case (Inl e)
    with q show ?thesis by (simp add: readReply_def reaction_pair)
  next
    case (Inr head)
    obtain m a2 b2 where "readBound (head ! 3) a1 = (m, a2)" "readBound (head ! 3) b1 = (m, b2)" "same_view a2 b2"
      using bound [of "head ! 3"] by (rule reaction_cases)
    with Inr q tail show ?thesis by (cases m) (auto simp: readReply_def reaction_pair)
  qed
qed

lemma view_connect:
  assumes "same_view a b" and "targetForm d = targetForm d'" and "sd_quote d = sd_quote d'" and "sd_atoi_text d = sd_atoi_text d'"
  shows "same_reaction (socksConnect d addr a) (socksConnect d' addr b)"
proof -
  have e: "same_view (enterPhase PhaseSocks5Connect a) (enterPhase PhaseSocks5Connect b)" by (rule view_enter [OF assms(1)])
  have w: "same_reaction (writeAll x (enterPhase PhaseSocks5Connect a)) (writeAll x (enterPhase PhaseSocks5Connect b))" if "x \<noteq> []" for x
    by (rule view_write [OF e that that])
  have "same_reaction (case writeAll x (enterPhase PhaseSocks5Connect a) of (Some e, c1) \<Rightarrow> (Some e, c1) | (None, c1) \<Rightarrow> readReply c1)
      (case writeAll x (enterPhase PhaseSocks5Connect b) of (Some e, c1) \<Rightarrow> (Some e, c1) | (None, c1) \<Rightarrow> readReply c1)" if "x \<noteq> []" for x
    using w [OF that] by (auto elim!: reaction_cases intro: reaction_pair view_reply split: option.splits)
  moreover have "connectRequest t ab port \<noteq> []" for t ab port by (simp add: connectRequest_def)
  ultimately show ?thesis using assms(2-) e
    by (auto simp: socksConnect_def Let_def split: sum.splits option.splits prod.splits intro!: reaction_pair)
qed

lemma proxyDialAddr_user: "proxyDialAddr (u\<lparr>url_user := x\<rparr>) = proxyDialAddr u"
  by (simp add: proxyDialAddr_def split: sum.splits)

lemma targetForm_user: "targetForm (d\<lparr>sd_proxy := (sd_proxy d)\<lparr>url_user := x\<rparr>\<rparr>) host = targetForm d host"
  by (simp add: targetForm_def split: option.splits sum.splits list.splits)

section \<open>A sample proxy\<close>

definition sample_proxy :: url where
  "sample_proxy = \<lparr>url_scheme = ''socks5h'', url_user = Some (''u'', Some ''p''), url_host = ''px:1080'', url_path = [],
     url_raw_query = [], url_fragment = []\<rparr>"

definition sample_conn :: "byte list \<Rightarrow> conn" where
  "sample_conn ins = \<lparr>cn_in = ins, cn_end = plain_err ''EOF'', cn_script = [], cn_out = [], cn_closed = False,
     cn_deadline = False, cn_ev = []\<rparr>"

definition sample_dialer :: "byte list \<Rightarrow> socks5_dialer" where
  "sample_dialer ins = \<lparr>sd_proxy = sample_proxy, sd_dial = (\<lambda>_. Inr (sample_conn ins)), sd_parse_ip = (\<lambda>_. None),
     sd_lookup = (\<lambda>_. Inr []), sd_quote = (\<lambda>s. s), sd_atoi_text = (\<lambda>s. s)\<rparr>"

definition sample_answer :: "byte list" where
  "sample_answer = [5, 2, 1, 0] @ [5, 0, 0, 1, 0, 0, 0, 0, 0, 0]"

lemma sample_lengths: "ip_lengths (sample_dialer ins)"
  by (simp add: ip_lengths_def sample_dialer_def)

lemma sample_addr: "splitHostPort ''h:443'' = Inr (''h'', ''443'')" "atoi ''443'' = Some 443"
  by code_simp+

lemma sample_form: "targetForm (sample_dialer ins) ''h'' = Inr (3, [1, 104])"
  by (simp add: targetForm_def sample_dialer_def sample_proxy_def bytes_of_def)

lemma sample_good: "goodMethod sample_proxy [5, 2, 1, 0]" "goodReply [5, 0, 0, 1, 0, 0, 0, 0, 0, 0]"
  by (auto simp: goodMethod_def goodReply_def sample_proxy_def)

lemma sample_tunnel: "\<exists>c'. SocksDialContext (sample_dialer (sample_answer @ [7])) ''h:443'' = Tunnel c' \<and> cn_in c' = [7]"
proof -
  have "case SocksDialContext (sample_dialer (sample_answer @ [7])) ''h:443'' of Tunnel c' \<Rightarrow> cn_in c' = [7] | _ \<Rightarrow> False"
    by code_simp
  then show ?thesis by (auto split: dial_outcome.splits)
qed

section \<open>Properties\<close>

text \<open>
  C37. A tunnel is what the protocol says it is. When the dial returns a tunnel, the proxy accepted the
  method and the request in well-formed answers, a proxy decodes from the bytes written to it exactly
  the requested target and the port modulo 65536, the bytes after the answers are all left for the
  caller, and no deadline is left armed.
\<close>

theorem socks5_tunnel:
  assumes "ip_lengths d" and "sd_dial d (proxyDialAddr (sd_proxy d)) = Inr c" and "SocksDialContext d addr = Tunnel c'"
  shows "\<exists>ins bs host portStr port atyp ab. goodMethod (sd_proxy d) ins \<and> goodReply bs \<and> cn_in c = ins @ bs @ cn_in c' \<and>
     splitHostPort addr = Inr (host, portStr) \<and> atoi portStr = Some port \<and> targetForm d host = Inr (atyp, ab) \<and>
     cn_out c' = cn_out c @ sentAuth (sd_proxy d) ins @ connectRequest atyp ab port \<and>
     decodeRequest (connectRequest atyp ab port) = Some (formTarget atyp ab, port mod 65536) \<and>
     cn_closed c' = cn_closed c \<and> \<not> cn_deadline c'"
proof -
  let ?c0 = "c\<lparr>cn_ev := [EvEnter PhaseProxyConnect], cn_deadline := True\<rparr>"
  obtain c1 c2 where n: "negotiate d ?c0 = (None, c1)" and k: "socksConnect d addr c1 = (None, c2)"
    and c': "c' = c2\<lparr>cn_deadline := False\<rparr>"
    using assms(2,3) by (auto simp: SocksDialContext_def split: prod.splits option.splits)
  obtain ins ps where m: "goodMethod (sd_proxy d) ins" and i1: "io ?c0 c1 ins (sentAuth (sd_proxy d) ins) ps"
    using io_negotiate [OF n] by blast
  obtain host portStr port atyp ab bs where a: "splitHostPort addr = Inr (host, portStr)" "atoi portStr = Some port"
    and t: "targetForm d host = Inr (atyp, ab)" and g: "goodReply bs"
    and i2: "io c1 c2 bs (connectRequest atyp ab port) [PhaseSocks5Connect]"
    using io_connect [OF k] by blast
  have "decodeRequest (connectRequest atyp ab port) = Some (formTarget atyp ab, port mod 65536)"
    by (rule decode_request [OF targetForm_ok [OF assms(1) t]])
  with m g a t io_trans [OF i1 i2] c' show ?thesis
    by (intro exI [of _ ins] exI [of _ bs] exI [of _ host] exI [of _ portStr] exI [of _ port] exI [of _ atyp] exI [of _ ab])
       (simp add: io_def)
qed

theorem socks5_tunnel_witness:
  "\<exists>ins bs rest. goodMethod sample_proxy ins \<and> goodReply bs \<and> sample_answer @ [7] = ins @ bs @ rest"
proof -
  obtain c' where "SocksDialContext (sample_dialer (sample_answer @ [7])) ''h:443'' = Tunnel c'"
    using sample_tunnel by blast
  from socks5_tunnel [OF sample_lengths _ this, of "sample_conn (sample_answer @ [7])"] show ?thesis
    by (auto simp: sample_dialer_def sample_conn_def)
qed

text \<open>
  A proxy that plays by the protocol gets its tunnel: if it accepts the method and the request in
  well-formed answers, the writes go through and the target resolves, the dial succeeds and leaves
  everything behind the answers to the caller.
\<close>

theorem socks5_tunnel_up:
  assumes "sd_dial d (proxyDialAddr (sd_proxy d)) = Inr c" and "writes_ok c" and "cn_in c = ins @ bs @ rest"
    and "goodMethod (sd_proxy d) ins" and "goodReply bs"
    and "splitHostPort addr = Inr (host, portStr)" and "atoi portStr = Some port" and "targetForm d host = Inr f"
  shows "\<exists>c'. SocksDialContext d addr = Tunnel c' \<and> cn_in c' = rest"
proof -
  let ?c0 = "c\<lparr>cn_ev := [EvEnter PhaseProxyConnect], cn_deadline := True\<rparr>"
  obtain c1 where n: "negotiate d ?c0 = (None, c1)" "writes_ok c1" "cn_in c1 = bs @ rest"
    using negotiate_goes [of ?c0 ins "bs @ rest" d] assms(2-4) by auto
  obtain c2 where "socksConnect d addr c1 = (None, c2)" "cn_in c2 = rest"
    using connect_goes [OF n(2,3) assms(5-7), of d "fst f" "snd f"] assms(8) by auto
  with n assms(1) show ?thesis by (simp add: SocksDialContext_def)
qed

theorem socks5_tunnel_up_witness:
  "\<exists>c'. SocksDialContext (sample_dialer (sample_answer @ [7])) ''h:443'' = Tunnel c' \<and> cn_in c' = [7]"
proof -
  let ?c = "sample_conn (sample_answer @ [7])" and ?d = "sample_dialer (sample_answer @ [7])"
  have "sd_dial ?d (proxyDialAddr (sd_proxy ?d)) = Inr ?c" "writes_ok ?c" "cn_in ?c = [5, 2, 1, 0] @ [5, 0, 0, 1, 0, 0, 0, 0, 0, 0] @ [7]"
    "goodMethod (sd_proxy ?d) [5, 2, 1, 0]"
    using sample_good(1) by (simp_all add: sample_dialer_def sample_conn_def sample_answer_def writes_ok_def)
  from socks5_tunnel_up [OF this sample_good(2) sample_addr sample_form] show ?thesis .
qed

text \<open>
  C38. Every failure of the dial moves the request and blames the right party: it is replay-safe, and it
  marks the egress unless it happened in the step that reaches the target; a handshake that failed
  leaves its connection closed.
\<close>

theorem socks5_failure_verdict:
  assumes "dialVerdict (SocksDialContext d addr) = Some f"
  shows "ReplaySafe f \<and> (MarksEgressHealth f \<longleftrightarrow> fl_phase f \<noteq> PhaseSocks5Connect) \<and>
     fl_phase f = lastPhase (outcome_events (SocksDialContext d addr)) \<and>
     (case SocksDialContext d addr of HandshakeFailed e c \<Rightarrow> cn_closed c | _ \<Rightarrow> True)"
proof -
  obtain e where e: "outcome_error (SocksDialContext d addr) = Some e"
    using assms by (auto simp: dialVerdict_def)
  obtain ps where ps: "outcome_events (SocksDialContext d addr) = map EvEnter ps" "ps \<noteq> []"
    and k: "set ps \<subseteq> insert PhaseProxyConnect greeting_phases \<or> (\<exists>qs. ps = qs @ [PhaseSocks5Connect])"
    using dial_phases [OF e] by blast
  have f: "f = classifyTransportFailure False e (Some (newCall, \<lparr>dt_dialed = True, dt_dial_ok = False, dt_wrote = False, dt_phase = last ps\<rparr>))"
    using dialVerdict_phase [OF e ps] assms by simp
  have ph: "fl_phase f = last ps" "fl_origin f = OriginTransport" "fl_state f = StateNotSent"
    by (simp_all add: f classify_fields provenance_def newCall_def)
  have "last ps \<in> insert PhaseSocks5Connect (insert PhaseProxyConnect greeting_phases)"
    using k ps(2) last_in_set by fastforce
  moreover have "case SocksDialContext d addr of HandshakeFailed e c \<Rightarrow> cn_closed c | _ \<Rightarrow> True"
    by (auto simp: SocksDialContext_def closeConn_def split: sum.splits prod.splits option.splits)
  ultimately show ?thesis using ph ps
    by (auto simp: ReplaySafe_def MarksEgressHealth_def lastPhase_def last_map greeting_phases_def)
qed

theorem socks5_failure_verdict_witness:
  "\<exists>f. dialVerdict (SocksDialContext (sample_dialer [5, 255]) ''h:443'') = Some f \<and> MarksEgressHealth f"
proof -
  have "fl_phase (the (dialVerdict (SocksDialContext (sample_dialer [5, 255]) ''h:443''))) = PhaseProxyAuth
     \<and> dialVerdict (SocksDialContext (sample_dialer [5, 255]) ''h:443'') \<noteq> None" by code_simp
  then show ?thesis using socks5_failure_verdict [of "sample_dialer [5, 255]" "''h:443''"] by fastforce
qed

text \<open>
  No credential can be read off an error: two dialers that differ only in user name and password
  (each within the length limit) report the same error and the same phases to the same proxy.
\<close>

theorem socks5_errors_no_credentials:
  assumes "url_user (sd_proxy d) = Some (u, p)" and "d' = d\<lparr>sd_proxy := (sd_proxy d)\<lparr>url_user := Some (u', p')\<rparr>\<rparr>"
    and "length u \<le> 255" "length (passOf p) \<le> 255" "length u' \<le> 255" "length (passOf p') \<le> 255"
  shows "outcome_error (SocksDialContext d addr) = outcome_error (SocksDialContext d' addr) \<and>
     outcome_events (SocksDialContext d addr) = outcome_events (SocksDialContext d' addr)"
proof -
  have user: "url_user (sd_proxy d') = Some (u', p')" using assms(2) by simp
  have same: "proxyDialAddr (sd_proxy d') = proxyDialAddr (sd_proxy d)" "sd_dial d' = sd_dial d"
    "targetForm d = targetForm d'" "sd_quote d = sd_quote d'" "sd_atoi_text d = sd_atoi_text d'"
    using assms(2) by (simp_all add: proxyDialAddr_user targetForm_user fun_eq_iff)
  show ?thesis
  proof (cases "sd_dial d (proxyDialAddr (sd_proxy d))")
    case (Inl e)
    with same show ?thesis by (simp add: SocksDialContext_def)
  next
    case (Inr c)
    let ?c0 = "c\<lparr>cn_ev := [EvEnter PhaseProxyConnect], cn_deadline := True\<rparr>"
    obtain r a b where n: "negotiate d ?c0 = (r, a)" "negotiate d' ?c0 = (r, b)" "same_view a b"
      using view_negotiate [of ?c0 ?c0 d u p d' u' p'] assms user by (auto simp: same_view_def elim: reaction_cases)
    obtain q a2 b2 where k: "socksConnect d addr a = (q, a2)" "socksConnect d' addr b = (q, b2)" "same_view a2 b2"
      using view_connect [OF n(3) same(3-5), of addr] by (rule reaction_cases)
    show ?thesis using Inr n k same
      by (cases r; cases q) (auto simp: SocksDialContext_def closeConn_def dest!: same_viewD)
  qed
qed

theorem socks5_errors_no_credentials_witness:
  "outcome_error (SocksDialContext (sample_dialer [5, 2, 1, 1]) ''h:443'') =
   outcome_error (SocksDialContext ((sample_dialer [5, 2, 1, 1])\<lparr>sd_proxy := sample_proxy\<lparr>url_user := Some (''root'', None)\<rparr>\<rparr>) ''h:443'')"
  using socks5_errors_no_credentials [of "sample_dialer [5, 2, 1, 1]" "''u''" "Some ''p''" _ "''root''" None "''h:443''"]
  by (simp add: sample_dialer_def sample_proxy_def passOf_def)

end
