(* ===== verification/ClientProps.thy ===== *)
theory ClientProps
  imports Client
begin

text \<open>
  What one logical call guarantees: redirects never leave the host the call started on, the walk is
  bounded, a dropped body is never sent again, and a verdict that authorises a re-send proves that no
  request byte left the process.
\<close>

section \<open>The host of every hop\<close>

definition hq_hostname :: "hop_request \<Rightarrow> string" where
  "hq_hostname req = hostname (url_host (hq_url req))"

text \<open>
  Printing a resolved reference and parsing it again, as \<^verbatim>\<open>http.NewRequest\<close> does, keeps the host name:
  the documented round trip of \<^verbatim>\<open>net/url\<close>.
\<close>

definition url_reparse :: "go_url \<Rightarrow> bool" where
  "url_reparse gu \<longleftrightarrow> (\<forall>base loc u u'. gu_resolve gu base loc = Inr u \<longrightarrow> gu_parse gu (gu_string gu u) = Inr u' \<longrightarrow>
     hostname (removeEmptyPort (url_host u')) = hostname (url_host u))"

lemma turn_request_hostname: "hq_hostname (turn_request c h b wk u0) = hostname (removeEmptyPort (url_host u0))"
  by (simp add: hq_hostname_def turn_request_def Let_def)

definition host_inv :: "world \<Rightarrow> walk \<Rightarrow> bool" where
  "host_inv w wk \<longleftrightarrow>
     wk_sent wk = [] \<and> wk_host wk = [] \<or>
     (\<exists>F. (\<forall>req \<in> set (wk_sent wk). w_fold w (hq_hostname req) = F) \<and> w_fold w (wk_hostname wk) = F \<and>
          (\<forall>u0. gu_parse (w_url w) (wk_current wk) = Inr u0 \<longrightarrow>
                w_fold w (hostname (removeEmptyPort (url_host u0))) = F))"

definition one_host :: "world \<Rightarrow> hop_request list \<Rightarrow> bool" where
  "one_host w reqs \<longleftrightarrow> (\<exists>F. \<forall>req \<in> set reqs. w_fold w (hq_hostname req) = F)"

lemma host_inv_step:
  assumes "url_reparse (w_url w)" and "host_inv w wk" and "attemptStep w c h b wk = Inr wk'"
  shows "host_inv w wk'"
proof -
  obtain u0 nxt loc where p: "gu_parse (w_url w) (wk_current wk) = Inr u0"
    and r: "gu_resolve (w_url w) (u0\<lparr>url_host := removeEmptyPort (url_host u0)\<rparr>) loc = Inr nxt"
    and s: "w_fold w (hostname (url_host nxt)) = w_fold w (wk_hostname wk')"
    and n: "wk_hostname wk' = (if wk_host wk = [] then hostname (removeEmptyPort (url_host u0)) else wk_hostname wk)"
    and cur: "wk_current wk' = gu_string (w_url w) nxt"
    and sent: "wk_sent wk' = wk_sent wk @ [turn_request c h b wk u0]"
    using attemptStep_next [OF assms(3), unfolded sameRedirectHost_def] by blast
  let ?F = "w_fold w (hostname (removeEmptyPort (url_host u0)))"
  have old: "\<forall>req \<in> set (wk_sent wk). w_fold w (hq_hostname req) = ?F" and name: "w_fold w (wk_hostname wk') = ?F"
    using assms(2) p n by (auto simp: host_inv_def)
  have "w_fold w (hostname (removeEmptyPort (url_host u1))) = ?F"
    if "gu_parse (w_url w) (wk_current wk') = Inr u1" for u1
    using that assms(1) r cur s name by (auto simp: url_reparse_def)
  with old name show ?thesis by (auto simp: host_inv_def sent turn_request_hostname)
qed

lemma host_inv_stop:
  assumes "cl_follow c" and "host_inv w wk" and "attemptStep w c h b wk = Inl res"
  shows "one_host w (ar_sent res)"
  using attemptStep_stop [OF assms(3)] assms(1,2)
  by (fastforce simp: host_inv_def one_host_def turn_request_hostname)

section \<open>Bounds, bodies and events\<close>

definition walk_inv :: "string option \<Rightarrow> walk \<Rightarrow> bool" where
  "walk_inv b wk \<longleftrightarrow> length (wk_sent wk) = wk_hops wk \<and> wk_hops wk \<le> MaxRedirects \<and>
     (wk_method wk = ''POST'' \<and> \<not> wk_dropped wk \<or> wk_method wk = ''GET'' \<and> wk_dropped wk)"

definition body_header_names :: "string list" where
  "body_header_names = [''Content-Encoding'', ''Content-Language'', ''Content-Location'', ''Content-Type'']"

definition request_shape :: "string option \<Rightarrow> hop_request \<Rightarrow> bool" where
  "request_shape b req \<longleftrightarrow> hq_method req = ''POST'' \<and> hq_body req = b \<or>
     hq_method req = ''GET'' \<and> hq_body req = None \<and> set (map fst (hq_headers req)) \<inter> set body_header_names = {}"

lemma hopHeaders_no_body:
  assumes "wk_dropped wk"
  shows "set (map fst (hopHeaders wk headers)) \<inter> set body_header_names = {}"
proof -
  have "set (map fst (fold (\<lambda>(k, v) m. if wk_strip wk \<and> isSensitiveRedirectHeader k then m
                      else if wk_dropped wk \<and> isBodyRedirectHeader k then m
                      else gm_set (canonicalHeaderKey k) v m) hs m)) \<inter> set body_header_names = {}"
    if "set (map fst m) \<inter> set body_header_names = {}" for hs m
    using that
  proof (induction hs arbitrary: m)
    case (Cons kv hs)
    obtain k v where kv: "kv = (k, v)" by (cases kv)
    let ?m = "if wk_strip wk \<and> isSensitiveRedirectHeader k then m
              else if wk_dropped wk \<and> isBodyRedirectHeader k then m else gm_set (canonicalHeaderKey k) v m"
    have "canonicalHeaderKey k \<notin> set body_header_names" if "\<not> isBodyRedirectHeader k"
      using that by (simp add: isBodyRedirectHeader_def body_header_names_def)
    then have "set (map fst ?m) \<inter> set body_header_names = {}"
      using Cons.prems assms by (simp add: dom_update)
    from Cons.IH [OF this] show ?case by (simp add: kv)
  qed simp
  from this [of "[]" headers] show ?thesis by (simp add: hopHeaders_def)
qed

lemma turn_request_shape: "walk_inv b wk \<Longrightarrow> request_shape b (turn_request c h b wk u0)"
  using hopHeaders_no_body [of wk h] by (auto simp: walk_inv_def request_shape_def turn_request_def Let_def)

lemma walk_inv_step:
  assumes "walk_inv b wk" and "attemptStep w c h b wk = Inr wk'"
  shows "walk_inv b wk'"
  using attemptStep_next [OF assms(2)] attemptStep_hops [OF assms(2)] assms(1)
  by (auto simp: walk_inv_def dropsBody_def)

definition opened :: "trace_event list \<Rightarrow> nat" where
  "opened evs = length (filter (\<lambda>e. e = HopOpened) evs)"

lemma opened_simps [simp]: "opened [] = 0" "opened (HopOpened # es) = Suc (opened es)" "opened (xs @ ys) = opened xs + opened ys"
  "opened (Responded # es) = opened es"
  by (simp_all add: opened_def)

lemma well_timed_append:
  "well_timed_from n (xs @ ys) \<longleftrightarrow> well_timed_from n xs \<and> well_timed_from (n + opened xs) ys"
  by (induction n xs rule: well_timed_from.induct) (simp_all add: opened_def)

lemma turn_reports_timed: "n < m \<Longrightarrow> well_timed_from m (turn_reports w n req)"
proof -
  assume n: "n < m"
  have "well_timed_from m (map report rs)" if "\<forall>(i, e) \<in> set rs. i \<le> n" for rs
    using that
  proof (induction rs)
    case (Cons r rs)
    obtain i e where "r = (i, e)" by (cases r)
    with Cons n show ?case by (cases e) auto
  qed simp
  then show ?thesis by (auto simp: turn_reports_def)
qed

lemma opened_reports [simp]: "opened (turn_reports w n req) = 0"
proof -
  have "opened (map report rs) = 0" for rs
  proof (induction rs)
    case (Cons r rs)
    obtain i e where "r = (i, e)" by (cases r)
    with Cons show ?case by (cases e) (auto simp: opened_def)
  qed simp
  then show ?thesis by (simp add: turn_reports_def)
qed

definition event_inv :: "walk \<Rightarrow> bool" where
  "event_inv wk \<longleftrightarrow> well_timed_from 0 (wk_events wk) \<and> opened (wk_events wk) = wk_hops wk \<and>
     (wk_hops wk = 0 \<or> Responded \<in> set (wk_events wk))"

lemma event_inv_step:
  assumes "event_inv wk" and "attemptStep w c h b wk = Inr wk'"
  shows "event_inv wk'"
  using attemptStep_next [OF assms(2)] attemptStep_hops [OF assms(2)] assms(1)
  by (auto simp: event_inv_def well_timed_append turn_reports_timed)

lemma event_inv_stop:
  assumes "event_inv wk" and "attemptStep w c h b wk = Inl res"
  shows "well_timed_from 0 (ar_events res) \<and> opened (ar_events res) = Suc (ar_hop res) \<and>
         (ar_hop res = 0 \<or> Responded \<in> set (ar_events res))"
  using attemptStep_stop [OF assms(2)] assms(1)
  by (auto simp: event_inv_def well_timed_append turn_reports_timed)

section \<open>Verdicts\<close>

definition start_walk :: "string \<Rightarrow> walk" where
  "start_walk target = \<lparr>wk_method = ''POST'', wk_strip = False, wk_dropped = False, wk_host = [], wk_hostname = [],
      wk_hops = 0, wk_current = target, wk_events = [], wk_sent = []\<rparr>"

lemma attempt_start: "attempt w c target h b = attemptLoop w c h b (start_walk target)"
  by (simp add: attempt_def start_walk_def)

lemma attempt_one_host: "url_reparse (w_url w) \<Longrightarrow> cl_follow c \<Longrightarrow> one_host w (ar_sent (attempt w c target h b))"
  unfolding attempt_start
proof (rule attemptLoop_inv [where I = "host_inv w"])
  show "host_inv w (start_walk target)" by (simp add: host_inv_def start_walk_def)
qed (blast intro: host_inv_step host_inv_stop)+

lemma attempt_shape:
  "(cl_follow c \<longrightarrow> length (ar_sent (attempt w c target h b)) \<le> Suc MaxRedirects \<and>
     list_all (request_shape b) (ar_sent (attempt w c target h b))) \<and>
   (length (ar_sent (attempt w c target h b)) \<le> Suc (ar_hop (attempt w c target h b)) \<or> wrote_ever (ar_events (attempt w c target h b)))"
  unfolding attempt_start
proof (rule attemptLoop_inv [where I = "\<lambda>wk. walk_inv b wk \<and> list_all (request_shape b) (wk_sent wk)"])
  fix wk wk'
  assume "walk_inv b wk \<and> list_all (request_shape b) (wk_sent wk)" and s: "attemptStep w c h b wk = Inr wk'"
  then show "walk_inv b wk' \<and> list_all (request_shape b) (wk_sent wk')"
    using walk_inv_step [OF _ s] attemptStep_next [OF s] turn_request_shape by fastforce
next
  fix wk res
  assume "walk_inv b wk \<and> list_all (request_shape b) (wk_sent wk)" and s: "attemptStep w c h b wk = Inl res"
  then show "(cl_follow c \<longrightarrow> length (ar_sent res) \<le> Suc MaxRedirects \<and> list_all (request_shape b) (ar_sent res)) \<and>
      (length (ar_sent res) \<le> Suc (ar_hop res) \<or> wrote_ever (ar_events res))"
    using attemptStep_stop [OF s] turn_request_shape by (auto simp: walk_inv_def wrote_ever_def)
qed (simp add: walk_inv_def start_walk_def)

lemma attempt_events:
  "well_timed_from 0 (ar_events (attempt w c target h b)) \<and>
   opened (ar_events (attempt w c target h b)) = Suc (ar_hop (attempt w c target h b)) \<and>
   (ar_hop (attempt w c target h b) = 0 \<or> Responded \<in> set (ar_events (attempt w c target h b)))"
  unfolding attempt_start
proof (rule attemptLoop_inv [where I = event_inv])
  show "event_inv (start_walk target)" by (simp add: event_inv_def start_walk_def)
next
  fix wk wk'
  assume "event_inv wk" and "attemptStep w c h b wk = Inr wk'"
  then show "event_inv wk'" by (rule event_inv_step)
next
  fix wk res
  assume "event_inv wk" and "attemptStep w c h b wk = Inl res"
  then show "well_timed_from 0 (ar_events res) \<and> opened (ar_events res) = Suc (ar_hop res) \<and>
         (ar_hop res = 0 \<or> Responded \<in> set (ar_events res))" by (rule event_inv_stop)
qed

text \<open>Every hop the call opened has a trace.\<close>

lemma record_events_hops: "record_events evs = (c, hs) \<Longrightarrow> length hs = opened evs"
proof -
  have "length (snd (fold record_event evs cr)) = length (snd cr) + opened evs" for cr
  proof (induction evs arbitrary: cr)
    case (Cons e evs)
    obtain c hs where cr: "cr = (c, hs)" by (cases cr)
    have "length (snd (record_event e cr)) = length hs + opened [e]"
      by (cases e) (auto simp: cr opened_def on_hop_def markWrite_def)
    with Cons show ?case by (simp add: cr opened_def)
  qed simp
  from this [of "(newCall, [])"] show "record_events evs = (c, hs) \<Longrightarrow> ?thesis" by (simp add: record_events_def)
qed

lemma attempt_replay_safe:
  fixes w c target h b
  defines "a \<equiv> attempt w c target h b"
  shows "ReplaySafe (classifyTransportFailure ctx err (trace_at (ar_events a) (ar_hop a))) \<longleftrightarrow>
           \<not> ctx \<and> dialed_in (ar_hop a) (ar_events a) \<and> \<not> wrote_ever (ar_events a) \<and> Responded \<notin> set (ar_events a)"
proof -
  obtain ct hs where r: "record_events (ar_events a) = (ct, hs)" by (cases "record_events (ar_events a)")
  have e: "well_timed_from 0 (ar_events a)" "opened (ar_events a) = Suc (ar_hop a)"
    using attempt_events [of w c target h b] by (auto simp: a_def)
  have k: "ar_hop a < length hs" using record_events_hops [OF r] e(2) by simp
  have run: "fold record_event (ar_events a) (newCall, []) = (ct, hs)" using r by (simp add: record_events_def)
  have facts: "ct_transmitted ct \<longleftrightarrow> wrote_ever (ar_events a)" "ct_responded ct \<longleftrightarrow> Responded \<in> set (ar_events a)"
    "dt_dialed (hs ! ar_hop a) \<longleftrightarrow> dialed_in (ar_hop a) (ar_events a)"
    using record_events_facts [OF e(1) r] k by auto
  have wr: "dt_wrote (hs ! ar_hop a) \<longrightarrow> ct_transmitted ct" by (rule wrote_transmitted [OF r k])
  show ?thesis
  proof (cases ctx)
    case False
    then show ?thesis using facts wr k
      by (auto simp: trace_at_def r ReplaySafe_def classify_fields provenance_not_sent)
  qed simp
qed

lemma Responded_hop: "Responded \<notin> set (ar_events (attempt w c target h b)) \<Longrightarrow> ar_hop (attempt w c target h b) = 0"
  using attempt_events [of w c target h b] by blast

lemma call_events:
  "cr_events (fst (DoClassifiedObserved w c target h b dur rec)) = ar_events (attempt w c target h b)"
  "cr_sent (fst (DoClassifiedObserved w c target h b dur rec)) = ar_sent (attempt w c target h b)"
  by (auto simp: DoClassifiedObserved_def Let_def split: sum.splits)

lemma call_replay_safe:
  assumes "ReplaySafe (cr_failure (fst (DoClassifiedObserved w c target h b dur rec)))"
  shows "\<exists>err. ar_reply (attempt w c target h b) = Inl err \<and>
     ReplaySafe (classifyTransportFailure (w_canceled w) (err_view w err)
       (trace_at (ar_events (attempt w c target h b)) (ar_hop (attempt w c target h b))))"
  using assms
  by (auto simp: DoClassifiedObserved_def Let_def split: sum.splits if_splits)
     (auto simp: ReplaySafe_def responseOrigin_def split: if_splits)

lemma call_moved_on:
  assumes "ReplaySafe (cr_failure (fst (DoClassifiedObserved w c target headers body dur rec)))"
  shows "cr_response (fst (DoClassifiedObserved w c target headers body dur rec)) = None \<and>
         \<not> w_canceled w \<and>
         \<not> wrote_ever (cr_events (fst (DoClassifiedObserved w c target headers body dur rec))) \<and>
         Responded \<notin> set (cr_events (fst (DoClassifiedObserved w c target headers body dur rec))) \<and>
         length (cr_sent (fst (DoClassifiedObserved w c target headers body dur rec))) \<le> 1"
proof -
  let ?a = "attempt w c target headers body"
  obtain err where e: "ar_reply ?a = Inl err"
    and r: "ReplaySafe (classifyTransportFailure (w_canceled w) (err_view w err) (trace_at (ar_events ?a) (ar_hop ?a)))"
    using call_replay_safe [OF assms] by blast
  have n: "\<not> w_canceled w" "\<not> wrote_ever (ar_events ?a)" "Responded \<notin> set (ar_events ?a)"
    using attempt_replay_safe [of "w_canceled w" "err_view w err" w c target headers body] r by auto
  have "length (ar_sent ?a) \<le> Suc (ar_hop ?a)"
    using attempt_shape [of c w target headers body] n(2) by simp
  with Responded_hop [OF n(3)] n e show ?thesis
    by (simp add: call_events) (simp add: DoClassifiedObserved_def Let_def)
qed

section \<open>A sample world\<close>

text \<open>
  An upstream that redirects once to another path of the same host and then to a foreign host, and one
  that cannot be dialed.
\<close>

definition sample_parse :: "string \<Rightarrow> string + url" where
  "sample_parse s =
     (if s = ''https://api.x/a'' then Inr \<lparr>url_scheme = ''https'', url_user = None, url_host = ''api.x'', url_path = ''/a'', url_raw_query = [], url_fragment = []\<rparr>
      else if s = ''https://api.x/b'' then Inr \<lparr>url_scheme = ''https'', url_user = None, url_host = ''api.x'', url_path = ''/b'', url_raw_query = [], url_fragment = []\<rparr>
      else if s = ''http://evil/c'' then Inr \<lparr>url_scheme = ''http'', url_user = None, url_host = ''evil'', url_path = ''/c'', url_raw_query = [], url_fragment = []\<rparr>
      else Inl ''parse'')"

definition walk_gu :: go_url where
  "walk_gu = \<lparr>gu_parse = sample_parse, gu_string = (\<lambda>u. url_scheme u @ ''://'' @ url_host u @ url_path u),
     gu_resolve = (\<lambda>u. sample_parse)\<rparr>"

definition redirect_to :: "int \<Rightarrow> string \<Rightarrow> http_response" where
  "redirect_to status loc = \<lparr>rp_status = status, rp_header = [(''Location'', [loc])], rp_body = []\<rparr>"

definition sample_world :: "(nat \<Rightarrow> hop_request \<Rightarrow> (nat \<times> hop_ev) list \<times> (net_err + http_response)) \<Rightarrow> world" where
  "sample_world net = \<lparr>w_url = walk_gu, w_net = net, w_library = (\<lambda>_ _. []), w_fold = asciiLower, w_text = (\<lambda>_. ''error''), w_json = (\<lambda>_. None),
     w_print = (\<lambda>_. []), w_lower = asciiLower, w_read = Some, w_canceled = False\<rparr>"

definition redirecting :: "nat \<Rightarrow> hop_request \<Rightarrow> (nat \<times> hop_ev) list \<times> (net_err + http_response)" where
  "redirecting n req = ([(n, EvBegin PhaseTargetConnect), (n, EvSucceeded), (n, EvWrote)],
     Inr (if n = 0 then redirect_to 302 ''https://api.x/b'' else redirect_to 307 ''http://evil/c''))"

definition refusing :: "nat \<Rightarrow> hop_request \<Rightarrow> (nat \<times> hop_ev) list \<times> (net_err + http_response)" where
  "refusing n req = ([(n, EvBegin PhaseProxyConnect)],
     Inl \<lparr>ne_proxy_auth = False, ne_timeout = False, ne_op = Some ''dial'', ne_text = ''refused''\<rparr>)"

definition sample_client :: client where
  "sample_client = \<lparr>cl_tunneled = True, cl_follow = True\<rparr>"

lemma sample_reparse: "url_reparse walk_gu"
proof -
  have "hostname (removeEmptyPort h) = hostname h" if "h \<in> {''api.x'', ''evil''}" for h
    using that by (auto simp: removeEmptyPort_def hasSuffix_def)
  then show ?thesis
    by (auto simp: url_reparse_def walk_gu_def sample_parse_def split: if_splits)
qed

section \<open>Properties\<close>

text \<open>
  C8. A redirect cannot steer a routed request to another host: for a client that follows redirects itself, as every
  client built for an egress does (\<open>NewClientFor\<close>, lemma \<open>egress_client_follows\<close> of \<open>Server\<close>), whatever the network
  answers, every request of a logical call goes to the host name the call started on, up to case. The direct client that
  fetches user agents and the model list leaves redirects to the library and is not claimed here.
\<close>

theorem redirects_stay_on_host:
  assumes "url_reparse (w_url w)" and "cl_follow c"
  shows "\<forall>r \<in> set (ar_sent (attempt w c target headers body)).
         \<forall>r' \<in> set (ar_sent (attempt w c target headers body)).
           sameRedirectHost (w_fold w) (hq_hostname r) (hq_hostname r')"
  using attempt_one_host [OF assms, of target headers body] by (auto simp: one_host_def sameRedirectHost_def)

theorem redirects_stay_on_host_witness:
  "list_all (\<lambda>r. list_all (\<lambda>r'. sameRedirectHost asciiLower (hq_hostname r) (hq_hostname r'))
       (ar_sent (attempt (sample_world redirecting) sample_client ''https://api.x/a'' [] (Some ''{}''))))
     (ar_sent (attempt (sample_world redirecting) sample_client ''https://api.x/a'' [] (Some ''{}'')))"
proof -
  have "url_reparse (w_url (sample_world redirecting))" by (simp add: sample_world_def sample_reparse)
  moreover have "cl_follow sample_client" by (simp add: sample_client_def)
  ultimately show ?thesis using redirects_stay_on_host [of "sample_world redirecting" sample_client] by (simp add: sample_world_def list_all_iff)
qed

text \<open>
  The redirect walk of such a client is bounded: one call sends at most twenty-one requests, each the POST with the
  caller's body or, after a redirect that drops it, a GET without body and without headers describing one.
\<close>

theorem redirect_walk_bounded:
  assumes "cl_follow c"
  shows "length (ar_sent (attempt w c target headers body)) \<le> 21 \<and>
   list_all (request_shape body) (ar_sent (attempt w c target headers body))"
  using attempt_shape [of c w target headers body] assms by (simp add: MaxRedirects_def)

text \<open>
  C7. The verdict the executor moves on is sound: a replay-safe call returned no response, nothing of the
  request was handed to any connection, no hop was answered, and at most one request was attempted.
\<close>

theorem call_replay_safe_sound:
  assumes "ReplaySafe (cr_failure (fst (DoClassifiedObserved w c target headers body dur rec)))"
  shows "cr_response (fst (DoClassifiedObserved w c target headers body dur rec)) = None \<and>
         \<not> w_canceled w \<and>
         \<not> wrote_ever (cr_events (fst (DoClassifiedObserved w c target headers body dur rec))) \<and>
         Responded \<notin> set (cr_events (fst (DoClassifiedObserved w c target headers body dur rec))) \<and>
         length (cr_sent (fst (DoClassifiedObserved w c target headers body dur rec))) \<le> 1"
  using call_moved_on [OF assms] .

theorem call_replay_safe_sound_witness:
  "\<not> wrote_ever (cr_events (fst (DoClassifiedObserved (sample_world refusing) sample_client ''https://api.x/a'' [] (Some ''{}'') 0 None)))"
proof -
  have "ReplaySafe (cr_failure (fst (DoClassifiedObserved (sample_world refusing) sample_client ''https://api.x/a'' [] (Some ''{}'') 0 None)))"
    by code_simp
  from call_replay_safe_sound [OF this] show ?thesis by blast
qed

end
