(* ===== verification/Scheduler.thy ===== *)
theory Scheduler
  imports ConfigResolve "HOL-Library.Multiset"
begin

text \<open>
  Route planning (\<^verbatim>\<open>internal/routing/routing.go\<close>): round robin and smooth weighted round robin over
  the eligible heads of a route, with rotation state keyed by route id, tagged by a fingerprint of the
  route's shape and guarded by the configuration generation.

  A panic of the code (a negative slice index, a write to a nil map) is the value \<^const>\<open>None\<close>.
\<close>

section \<open>Profiles and plans\<close>

record profile =
  pr_model :: string
  pr_streaming :: bool
  pr_body_bytes :: int
  pr_endpoint :: string

fun ModelAllowed :: "string list \<Rightarrow> string \<Rightarrow> bool" where
  "ModelAllowed [] model = False"
| "ModelAllowed (pat # pats) model =
     (if pat = model then True
      else if pathMatch pat model = Some True then True
      else ModelAllowed pats model)"

record route_plan =
  pl_route_id :: string
  pl_strategy :: string
  pl_attempts :: "string list"
  pl_egresses :: "egress option list"

section \<open>Rotation state\<close>

record route_state =
  rs_fingerprint :: string
  rs_generation :: nat
  rs_cursor :: int
  rs_cw :: "(string, int) gomap option"

type_synonym scheduler = "(string, route_state) gomap"

definition NewScheduler :: scheduler where
  "NewScheduler = []"

definition route_weight :: "runtime \<Rightarrow> string \<Rightarrow> int" where
  "route_weight rt i = (case Egress rt i of None \<Rightarrow> 1 | Some e \<Rightarrow> EffectiveWeight e)"

definition normStrategy :: "route \<Rightarrow> string" where
  "normStrategy route = (if r_strategy route = [] then StrategyRoundRobin else r_strategy route)"

definition schedulerFingerprint :: "route \<Rightarrow> runtime \<Rightarrow> string" where
  "schedulerFingerprint route rt =
     (let strategy = normStrategy route in
      strategy @ [CHR 0x00] @ r_id route @ [CHR 0x00] @ itoa (int (length (r_egress route)))
      @ concat (map (\<lambda>i. [CHR 0x00] @ i
                  @ (if strategy = StrategyWeightedRR then [CHR 0x00] @ itoa (route_weight rt i) else []))
                (r_egress route)))"

definition freshState :: "route \<Rightarrow> string \<Rightarrow> route_state" where
  "freshState route fp = \<lparr>rs_fingerprint = fp, rs_generation = 0, rs_cursor = 0,
     rs_cw = (if r_strategy route = StrategyWeightedRR then Some [] else None)\<rparr>"

text \<open>
  The state a plan works on, whether the scheduler's map holds it (a throwaway is not held), and the
  scheduler after the call.
\<close>

definition stateFor :: "route \<Rightarrow> runtime \<Rightarrow> scheduler \<Rightarrow> route_state \<times> bool \<times> scheduler" where
  "stateFor route rt s =
     (let fp = schedulerFingerprint route rt;
          st = (freshState route fp)\<lparr>rs_generation := rt_generation rt\<rparr>;
          replaced = (st, True, gm_set (r_id route) st s)
      in case gm_get s (r_id route) of
           None \<Rightarrow> replaced
         | Some cur \<Rightarrow>
             if rs_fingerprint cur = fp then (cur, True, s)
             else if rt_generation rt < rs_generation cur then (freshState route fp, False, s)
             else replaced)"

section \<open>Planning\<close>

record wrr_candidate =
  wc_id :: string
  wc_w :: int

definition wrrPool :: "runtime \<Rightarrow> string list \<Rightarrow> wrr_candidate list" where
  "wrrPool rt heads =
     concat (map (\<lambda>i. let w = route_weight rt i in if w > 0 then [\<lparr>wc_id = i, wc_w = w\<rparr>] else []) heads)"

fun wrrLoop ::
  "bool \<Rightarrow> int \<Rightarrow> string \<Rightarrow> int \<Rightarrow> (string, int) gomap \<Rightarrow> wrr_candidate list
    \<Rightarrow> int \<times> string \<times> (string, int) gomap" where
  "wrrLoop first tot best bestCW cw [] = (tot, best, cw)"
| "wrrLoop first tot best bestCW cw (c # cs) =
     (let cw' = gm_set (wc_id c) (wrap64 (gm_count cw (wc_id c) + wc_w c)) cw;
          v = gm_count cw' (wc_id c);
          better = (first \<or> v > bestCW)
      in wrrLoop False (wrap64 (tot + wc_w c)) (if better then wc_id c else best)
           (if better then v else bestCW) cw' cs)"

definition wrrPick :: "wrr_candidate list \<Rightarrow> (string, int) gomap \<Rightarrow> string \<times> (string, int) gomap" where
  "wrrPick pool cw =
     (let (tot, best, cw') = wrrLoop True 0 [] 0 cw pool
      in (best, gm_set best (wrap64 (gm_count cw' best - tot)) cw'))"

fun without :: "string list \<Rightarrow> string \<Rightarrow> string list" where
  "without [] drp = []"
| "without (x # xs) drp = (if x \<noteq> drp then x # without xs drp else without xs drp)"

definition resolveEgresses :: "runtime \<Rightarrow> string list \<Rightarrow> egress option list" where
  "resolveEgresses rt ids = map (\<lambda>i. Egress rt i) ids"

text \<open>The strategy switch: the ordered attempts and the state after the turn.\<close>

definition rotateHeads :: "route \<Rightarrow> string list \<Rightarrow> wrr_candidate list \<Rightarrow> route_state
    \<Rightarrow> (string list \<times> route_state) option" where
  "rotateHeads route heads pool st =
     (if r_strategy route = StrategyWeightedRR then
        (case rs_cw st of
           None \<Rightarrow> None
         | Some cw \<Rightarrow> let (best, cw') = wrrPick pool cw
                      in Some (best # without heads best, st\<lparr>rs_cw := Some cw'\<rparr>))
      else
        let i = rs_cursor st smod int (length heads) in
        if i < 0 then None
        else Some (drop (nat i) heads @ take (nat i) heads, st\<lparr>rs_cursor := wrap64 (rs_cursor st + 1)\<rparr>))"

definition emptyPlan :: "route \<Rightarrow> route_plan" where
  "emptyPlan route = \<lparr>pl_route_id = r_id route, pl_strategy = r_strategy route,
     pl_attempts = [], pl_egresses = []\<rparr>"

definition Plan :: "runtime \<Rightarrow> route \<Rightarrow> string list \<Rightarrow> scheduler \<Rightarrow> (route_plan \<times> scheduler) option" where
  "Plan rt route heads s =
     (if heads = [] then Some (emptyPlan route, s)
      else
        let pool = (if r_strategy route = StrategyWeightedRR then wrrPool rt heads else []) in
        if r_strategy route = StrategyWeightedRR \<and> pool = [] then Some (emptyPlan route, s)
        else
          let (st, held, s') = stateFor route rt s in
          case rotateHeads route heads pool st of
            None \<Rightarrow> None
          | Some (attempts, st') \<Rightarrow>
              Some ((emptyPlan route)\<lparr>pl_attempts := attempts, pl_egresses := resolveEgresses rt attempts\<rparr>,
                    if held then gm_set (r_id route) st' s' else s'))"

definition PruneRoutes :: "string list \<Rightarrow> scheduler \<Rightarrow> nat \<times> scheduler" where
  "PruneRoutes keep s =
     (let kept = filter (\<lambda>(i, st). i \<in> set keep) s in (length s - length kept, kept))"

section \<open>Fingerprints identify the shape\<close>

lemma splitByte_no: "c \<notin> set s \<Longrightarrow> splitByte s c = [s]"
  by (induction s) auto

lemma splitByte_app: "c \<notin> set s \<Longrightarrow> splitByte (s @ c # t) c = s # splitByte t c"
  by (induction s) auto

definition fp_fields :: "route \<Rightarrow> runtime \<Rightarrow> string list" where
  "fp_fields route rt =
     normStrategy route # r_id route # itoa (int (length (r_egress route)))
     # concat (map (\<lambda>i. i # (if normStrategy route = StrategyWeightedRR then [itoa (route_weight rt i)] else []))
               (r_egress route))"

lemma splitByte_fields:
  assumes "\<forall>f \<in> set (f # fs). c \<notin> set f"
  shows "splitByte (f @ concat (map (\<lambda>g. c # g) fs)) c = f # fs"
  using assms
proof (induction fs arbitrary: f)
  case Nil
  then show ?case by (simp add: splitByte_no)
next
  case (Cons g fs)
  then show ?case by (simp add: splitByte_app)
qed

definition nul_free_route :: "route \<Rightarrow> bool" where
  "nul_free_route route \<longleftrightarrow> CHR 0x00 \<notin> set (r_id route) \<and> CHR 0x00 \<notin> set (r_strategy route) \<and>
     (\<forall>i \<in> set (r_egress route). CHR 0x00 \<notin> set i)"

lemma fingerprint_fields:
  "schedulerFingerprint route rt =
     hd (fp_fields route rt) @ concat (map (\<lambda>g. CHR 0x00 # g) (tl (fp_fields route rt)))"
proof -
  have "concat (map (\<lambda>i. [CHR 0x00] @ i @ (if b then [CHR 0x00] @ w i else [])) is)
      = concat (map (\<lambda>g. CHR 0x00 # g) (concat (map (\<lambda>i. i # (if b then [w i] else [])) is)))" for b w "is"
    by (induction "is") auto
  then show ?thesis by (simp add: schedulerFingerprint_def fp_fields_def Let_def)
qed

lemma fields_nul_free: "nul_free_route route \<Longrightarrow> f \<in> set (fp_fields route rt) \<Longrightarrow> CHR 0x00 \<notin> set f"
  by (auto simp: nul_free_route_def fp_fields_def normStrategy_def StrategyRoundRobin_def split: if_splits)

lemma fingerprint_split:
  assumes "nul_free_route route"
  shows "splitByte (schedulerFingerprint route rt) (CHR 0x00) = fp_fields route rt"
proof -
  have c: "fp_fields route rt = hd (fp_fields route rt) # tl (fp_fields route rt)"
    by (simp add: fp_fields_def)
  have "\<forall>f \<in> set (hd (fp_fields route rt) # tl (fp_fields route rt)). CHR 0x00 \<notin> set f"
    using fields_nul_free [OF assms] c by metis
  from splitByte_fields [OF this] show ?thesis using c by (metis fingerprint_fields)
qed

lemma pair_fields_inject:
  "length xs = length ys \<Longrightarrow>
   concat (map (\<lambda>i. [i, itoa (f i)]) xs) = concat (map (\<lambda>i. [i, itoa (g i)]) ys) \<Longrightarrow>
   xs = ys \<and> (\<forall>i \<in> set xs. f i = g i)"
  by (induction xs ys rule: list_induct2) auto

lemma fingerprint_inject:
  assumes "nul_free_route r" and "nul_free_route r'"
    and "schedulerFingerprint r rt = schedulerFingerprint r' rt'"
  shows "normStrategy r = normStrategy r' \<and> r_id r = r_id r' \<and> r_egress r = r_egress r' \<and>
         (normStrategy r = StrategyWeightedRR \<longrightarrow>
            (\<forall>i \<in> set (r_egress r). route_weight rt i = route_weight rt' i))"
proof -
  have f: "fp_fields r rt = fp_fields r' rt'"
    using assms fingerprint_split by metis
  then have s: "normStrategy r = normStrategy r'" and "r_id r = r_id r'"
    and l: "length (r_egress r) = length (r_egress r')"
    by (simp_all add: fp_fields_def)
  moreover have "r_egress r = r_egress r' \<and> (normStrategy r = StrategyWeightedRR \<longrightarrow>
            (\<forall>i \<in> set (r_egress r). route_weight rt i = route_weight rt' i))"
  proof (cases "normStrategy r = StrategyWeightedRR")
    case True
    then show ?thesis using f s pair_fields_inject [OF l] by (auto simp: fp_fields_def)
  next
    case False
    have "concat (map (\<lambda>i. [i]) xs) = xs" for xs :: "string list" by (induction xs) auto
    then show ?thesis using False f s by (auto simp: fp_fields_def)
  qed
  ultimately show ?thesis by simp
qed

end
