(* ===== verification/Selector.thy ===== *)
theory Selector
  imports Scheduler
begin

text \<open>
  Selection by intent (\<^verbatim>\<open>internal/routing/intent.go\<close>): the handle a selector produces, and the
  selector that consumes one request's pinned plan. What the executor relies on is the locale
  \<open>egress_selector\<close>; the plan selector interprets it.
\<close>

datatype intent = IntentNormal | IntentNewEgress

record selection =
  sl_id :: string
  sl_egress :: "egress option"
  sl_valid :: bool

definition zeroSelection :: selection where
  "zeroSelection = \<lparr>sl_id = [], sl_egress = None, sl_valid = False\<rparr>"

definition SelectionResolve :: "selection \<Rightarrow> string \<times> egress option \<times> bool" where
  "SelectionResolve sel = (sl_id sel, sl_egress sel, sl_valid sel)"

record plan_selector =
  ps_plan :: route_plan
  ps_next :: nat

definition NewPlanSelector :: "route_plan \<Rightarrow> plan_selector" where
  "NewPlanSelector plan = \<lparr>ps_plan = plan, ps_next = 0\<rparr>"

function nextLoop :: "bool \<Rightarrow> string \<Rightarrow> plan_selector \<Rightarrow> (selection \<times> bool) \<times> plan_selector" where
  "nextLoop hasPrev exclude s =
     (if ps_next s < length (pl_attempts (ps_plan s)) then
        let i = pl_attempts (ps_plan s) ! ps_next s in
        if hasPrev \<and> i = exclude then nextLoop hasPrev exclude (s\<lparr>ps_next := ps_next s + 1\<rparr>)
        else
          let eg = (if ps_next s < length (pl_egresses (ps_plan s))
                    then pl_egresses (ps_plan s) ! ps_next s else None)
          in ((\<lparr>sl_id = i, sl_egress = eg, sl_valid = True\<rparr>, True), s\<lparr>ps_next := ps_next s + 1\<rparr>)
      else ((zeroSelection, False), s))"
  by pat_completeness auto
termination
  by (relation "measure (\<lambda>(h, e, s). length (pl_attempts (ps_plan s)) - ps_next s)") auto

declare nextLoop.simps [simp del]

definition Next :: "intent \<Rightarrow> selection \<Rightarrow> plan_selector \<Rightarrow> (selection \<times> bool) \<times> plan_selector" where
  "Next intent prev s =
     (case SelectionResolve prev of (exclude, _, hasPrev) \<Rightarrow> nextLoop hasPrev exclude s)"

section \<open>What a selector promises\<close>

text \<open>
  \<open>offered\<close> are the ids a selector can still produce. A call produces one of them, never the egress
  named by a handle passed back, and withdraws it; it passes over that egress only; when it declines,
  nothing else was left to produce.
\<close>

locale egress_selector =
  fixes nxt :: "intent \<Rightarrow> selection \<Rightarrow> 's \<Rightarrow> (selection \<times> bool) \<times> 's" and offered :: "'s \<Rightarrow> string list"
  assumes nxt_offer: "nxt i prev s = ((sel, True), s') \<Longrightarrow>
       \<exists>pre. offered s = pre @ sl_id sel # offered s' \<and> (\<forall>x \<in> set pre. sl_valid prev \<and> x = sl_id prev)"
    and nxt_valid: "nxt i prev s = ((sel, True), s') \<Longrightarrow> sl_valid sel"
    and nxt_avoids: "nxt i prev s = ((sel, True), s') \<Longrightarrow> sl_valid prev \<Longrightarrow> sl_id sel \<noteq> sl_id prev"
    and nxt_end: "nxt i prev s = ((sel, False), s') \<Longrightarrow>
       offered s' = [] \<and> (\<forall>x \<in> set (offered s). sl_valid prev \<and> x = sl_id prev)"
begin

lemma nxt_shrinks: "nxt i prev s = ((sel, True), s') \<Longrightarrow> length (offered s') < length (offered s)"
  by (drule nxt_offer) auto

lemma nxt_mem: "nxt i prev s = ((sel, True), s') \<Longrightarrow> sl_id sel \<in> set (offered s)"
  by (drule nxt_offer) auto

lemma nxt_sub: "nxt i prev s = ((sel, True), s') \<Longrightarrow> set (offered s') \<subseteq> set (offered s)"
  by (drule nxt_offer) auto

lemma nxt_fresh:
  "nxt i prev s = ((sel, True), s') \<Longrightarrow> distinct (offered s) \<Longrightarrow>
   sl_id sel \<notin> set (offered s') \<and> distinct (offered s')"
  by (drule nxt_offer) auto

text \<open>While the handle passed back names an egress already withdrawn, nothing is passed over.\<close>

lemma nxt_exact:
  assumes "nxt i prev s = ((sel, True), s')" and "sl_valid prev \<longrightarrow> sl_id prev \<notin> set (offered s)"
  shows "offered s = sl_id sel # offered s'"
proof -
  obtain pre where "offered s = pre @ sl_id sel # offered s'" and "\<forall>x \<in> set pre. sl_valid prev \<and> x = sl_id prev"
    using nxt_offer [OF assms(1)] by blast
  with assms(2) show ?thesis by (cases pre) auto
qed

lemma nxt_exhausted:
  "nxt i prev s = ((sel, False), s') \<Longrightarrow> sl_valid prev \<longrightarrow> sl_id prev \<notin> set (offered s) \<Longrightarrow> offered s = []"
  using nxt_end [of i prev s sel s'] by (cases "offered s") auto

text \<open>A request that keeps asking, echoing each handle, gets the produced ids in order.\<close>

inductive asks :: "selection \<Rightarrow> 's \<Rightarrow> string list \<Rightarrow> bool" where
  asks_stop: "asks prev s []"
| asks_more: "nxt i prev s = ((sel, True), s') \<Longrightarrow> asks sel s' ids \<Longrightarrow> asks prev s (sl_id sel # ids)"

lemma asks_bounded: "asks prev s ids \<Longrightarrow> length ids \<le> length (offered s) \<and> set ids \<subseteq> set (offered s)"
proof (induction rule: asks.induct)
  case (asks_more i prev s sel s' ids)
  then show ?case using nxt_shrinks [OF asks_more.hyps(1)] nxt_mem [OF asks_more.hyps(1)] nxt_sub [OF asks_more.hyps(1)]
    by auto
qed simp

lemma asks_distinct: "asks prev s ids \<Longrightarrow> distinct (offered s) \<Longrightarrow> distinct ids"
proof (induction rule: asks.induct)
  case (asks_more i prev s sel s' ids)
  note f = nxt_fresh [OF asks_more.hyps(1) asks_more.prems]
  then show ?case using asks_more.IH asks_bounded [OF asks_more.hyps(2)] by auto
qed simp

lemma asks_moves: "asks prev s ids \<Longrightarrow> sl_valid prev \<Longrightarrow> ids \<noteq> [] \<Longrightarrow> hd ids \<noteq> sl_id prev"
  by (cases rule: asks.cases) (auto dest: nxt_avoids)

end

section \<open>The plan selector keeps the promise\<close>

definition remaining :: "plan_selector \<Rightarrow> string list" where
  "remaining s = drop (ps_next s) (pl_attempts (ps_plan s))"

lemma remaining_New [simp]: "remaining (NewPlanSelector plan) = pl_attempts plan"
  by (simp add: remaining_def NewPlanSelector_def)

lemma remaining_step:
  "ps_next s < length (pl_attempts (ps_plan s)) \<Longrightarrow>
   remaining s = pl_attempts (ps_plan s) ! ps_next s # remaining (s\<lparr>ps_next := ps_next s + 1\<rparr>)"
  by (simp add: remaining_def Cons_nth_drop_Suc)

lemma nextLoop_skip:
  "ps_next s < length (pl_attempts (ps_plan s)) \<Longrightarrow> h \<and> pl_attempts (ps_plan s) ! ps_next s = e \<Longrightarrow>
   nextLoop h e s = nextLoop h e (s\<lparr>ps_next := ps_next s + 1\<rparr>)"
  by (subst nextLoop.simps) (simp add: Let_def)

lemma nextLoop_offer:
  "nextLoop h e s = ((sel, True), s') \<Longrightarrow>
   (\<exists>pre. remaining s = pre @ sl_id sel # remaining s' \<and> set pre \<subseteq> {e} \<and> (\<not> h \<longrightarrow> pre = []))
   \<and> sl_valid sel \<and> (h \<longrightarrow> sl_id sel \<noteq> e) \<and> ps_plan s' = ps_plan s
   \<and> sl_egress sel = (if ps_next s' - 1 < length (pl_egresses (ps_plan s))
                      then pl_egresses (ps_plan s) ! (ps_next s' - 1) else None)
   \<and> 0 < ps_next s' \<and> sl_id sel = pl_attempts (ps_plan s) ! (ps_next s' - 1)
   \<and> ps_next s' \<le> length (pl_attempts (ps_plan s))"
proof (induction h e s rule: nextLoop.induct)
  case (1 h e s)
  show ?case
  proof (cases "ps_next s < length (pl_attempts (ps_plan s))")
    case False
    with "1.prems" show ?thesis by (simp add: nextLoop.simps [of h e s])
  next
    case lt: True
    let ?i = "pl_attempts (ps_plan s) ! ps_next s" and ?t = "s\<lparr>ps_next := ps_next s + 1\<rparr>"
    show ?thesis
    proof (cases "h \<and> ?i = e")
      case True
      have "nextLoop h e ?t = ((sel, True), s')"
        using "1.prems" nextLoop_skip [OF lt True] by simp
      from "1.IH" [OF lt refl True this] show ?thesis
        using remaining_step [OF lt] True by (fastforce intro: exI [of _ "e # pre" for pre])
    next
      case False
      with "1.prems" lt show ?thesis using remaining_step [OF lt]
        by (auto simp: nextLoop.simps [of h e s] Let_def)
    qed
  qed
qed

lemma nextLoop_end:
  "nextLoop h e s = ((sel, False), s') \<Longrightarrow> remaining s' = [] \<and> set (remaining s) \<subseteq> {e} \<and> (\<not> h \<longrightarrow> remaining s = [])"
proof (induction h e s rule: nextLoop.induct)
  case (1 h e s)
  show ?case
  proof (cases "ps_next s < length (pl_attempts (ps_plan s))")
    case False
    with "1.prems" show ?thesis by (auto simp: nextLoop.simps [of h e s] remaining_def)
  next
    case lt: True
    with "1.prems" have t: "h \<and> pl_attempts (ps_plan s) ! ps_next s = e"
      by (auto simp: nextLoop.simps [of h e s] Let_def split: if_splits)
    with "1.prems" have "nextLoop h e (s\<lparr>ps_next := ps_next s + 1\<rparr>) = ((sel, False), s')"
      using nextLoop_skip [OF lt t] by simp
    from "1.IH" [OF lt refl t this] show ?thesis using remaining_step [OF lt] t by auto
  qed
qed

lemma Next_loop: "Next i prev s = nextLoop (sl_valid prev) (sl_id prev) s"
  by (simp add: Next_def SelectionResolve_def)

interpretation plan_sel: egress_selector Next remaining
proof
  fix i prev s sel s'
  assume "Next i prev s = ((sel, True), s')"
  then have n: "nextLoop (sl_valid prev) (sl_id prev) s = ((sel, True), s')" by (simp add: Next_loop)
  obtain pre where pre: "remaining s = pre @ sl_id sel # remaining s'" "set pre \<subseteq> {sl_id prev}" "\<not> sl_valid prev \<longrightarrow> pre = []"
    using nextLoop_offer [OF n] by blast
  then have "\<forall>x \<in> set pre. sl_valid prev \<and> x = sl_id prev" by (cases "sl_valid prev") auto
  with pre(1) show "\<exists>pre. remaining s = pre @ sl_id sel # remaining s' \<and> (\<forall>x \<in> set pre. sl_valid prev \<and> x = sl_id prev)"
    by blast
  show "sl_valid sel" using nextLoop_offer [OF n] by blast
  assume "sl_valid prev"
  then show "sl_id sel \<noteq> sl_id prev" using nextLoop_offer [OF n] by blast
next
  fix i prev s sel s'
  assume "Next i prev s = ((sel, False), s')"
  then show "remaining s' = [] \<and> (\<forall>x \<in> set (remaining s). sl_valid prev \<and> x = sl_id prev)"
    using nextLoop_end [of "sl_valid prev" "sl_id prev" s sel s'] by (auto simp: Next_loop)
qed

text \<open>A plan resolved by the scheduler keeps ids and egresses together.\<close>

lemma Next_pinned:
  assumes "Next i prev s = ((sel, True), s')" and "pl_egresses (ps_plan s) = map f (pl_attempts (ps_plan s))"
  shows "sl_egress sel = f (sl_id sel)"
proof -
  have n: "nextLoop (sl_valid prev) (sl_id prev) s = ((sel, True), s')" using assms(1) by (simp add: Next_loop)
  from nextLoop_offer [OF n] have "ps_next s' - 1 < length (pl_attempts (ps_plan s))"
    and "sl_id sel = pl_attempts (ps_plan s) ! (ps_next s' - 1)"
    and "sl_egress sel = (if ps_next s' - 1 < length (pl_egresses (ps_plan s))
                      then pl_egresses (ps_plan s) ! (ps_next s' - 1) else None)"
    by linarith+
  with assms(2) show ?thesis by simp
qed

lemma Next_plan: "Next i prev s = ((sel, True), s') \<Longrightarrow> ps_plan s' = ps_plan s"
  using nextLoop_offer by (auto simp: Next_loop)

text \<open>An offer moves the selector on, and is the plan's entry just passed.\<close>

lemma Next_grows:
  assumes "Next i prev s = ((sel, True), s')"
  shows "ps_next s < ps_next s'"
proof -
  have "length (remaining s') < length (remaining s)" using plan_sel.nxt_shrinks [OF assms] .
  then show ?thesis by (simp add: remaining_def Next_plan [OF assms])
qed

lemma Next_entry: "Next i prev s = ((sel, True), s') \<Longrightarrow> sl_id sel = pl_attempts (ps_plan s) ! (ps_next s' - 1)"
  using nextLoop_offer by (auto simp: Next_loop)

definition two_plan :: route_plan where
  "two_plan = \<lparr>pl_route_id = ''r'', pl_strategy = [], pl_attempts = [''a'', ''b''], pl_egresses = [None, None]\<rparr>"

section \<open>Properties\<close>

text \<open>
  A request that consumes a plan of distinct egresses, echoing each handle back, dials each
  egress at most once, only egresses of the plan, and never the one it just left.
\<close>

theorem selection_distinct:
  assumes "plan_sel.asks prev (NewPlanSelector plan) ids" and "distinct (pl_attempts plan)"
  shows "distinct ids \<and> set ids \<subseteq> set (pl_attempts plan) \<and> length ids \<le> length (pl_attempts plan) \<and>
         (sl_valid prev \<and> ids \<noteq> [] \<longrightarrow> hd ids \<noteq> sl_id prev)"
  using plan_sel.asks_distinct [OF assms(1)] plan_sel.asks_bounded [OF assms(1)]
    plan_sel.asks_moves [OF assms(1)] assms(2) by simp

theorem selection_distinct_witness:
  "distinct [''a'', ''b''] \<and> set [''a'', ''b''] \<subseteq> set (pl_attempts two_plan)"
proof -
  let ?s0 = "NewPlanSelector two_plan"
  let ?a = "\<lparr>sl_id = ''a'', sl_egress = None, sl_valid = True\<rparr>" and ?b = "\<lparr>sl_id = ''b'', sl_egress = None, sl_valid = True\<rparr>"
  have a: "Next IntentNormal zeroSelection ?s0 = ((?a, True), ?s0\<lparr>ps_next := 1\<rparr>)"
    by (simp add: Next_loop zeroSelection_def nextLoop.simps NewPlanSelector_def two_plan_def)
  have b: "Next IntentNewEgress ?a (?s0\<lparr>ps_next := 1\<rparr>) = ((?b, True), ?s0\<lparr>ps_next := 2\<rparr>)"
    by (simp add: Next_loop nextLoop.simps NewPlanSelector_def two_plan_def Let_def)
  have "plan_sel.asks zeroSelection ?s0 [sl_id ?a, sl_id ?b]"
    by (rule plan_sel.asks_more [OF a], rule plan_sel.asks_more [OF b], rule plan_sel.asks_stop)
  then show ?thesis using selection_distinct [of zeroSelection two_plan "[''a'', ''b'']"]
    by (simp add: two_plan_def)
qed

end
