(* ===== verification/Counting.thy ===== *)
theory Counting
  imports Prelude "HOL-Library.Multiset"
begin

text \<open>
  Counted holds. The concurrency limiter and the health registry both count in-flight holders per
  key, with a guarded decrement. The locale states what such a counter promises and proves, once,
  that paired holds and drops make the count equal to the holders.
\<close>

section \<open>Other requests\<close>

text \<open>
  While a request runs, others take and drop holds of their own. A step \<open>g\<close> of theirs is described by what they may hold
  before it, \<open>A\<close>, and after it, \<open>B\<close>, while the request itself holds \<open>M\<close>: from any state that counts both it leads to
  one that counts both again. They may take and drop what they like, only never what the request holds.
\<close>

definition interferes :: "('s \<Rightarrow> 'h multiset \<Rightarrow> bool) \<Rightarrow> 'h multiset \<Rightarrow> 'h multiset set \<Rightarrow> ('s \<Rightarrow> 's) \<Rightarrow> 'h multiset set \<Rightarrow> bool" where
  "interferes holds M A g B \<longleftrightarrow> (\<forall>s. \<forall>H \<in> A. holds s (M + H) \<longrightarrow> (\<exists>H' \<in> B. holds (g s) (M + H')))"

lemma interferesD: "interferes holds M A g B \<Longrightarrow> H \<in> A \<Longrightarrow> holds s (M + H) \<Longrightarrow> \<exists>H' \<in> B. holds (g s) (M + H')"
  by (auto simp: interferes_def)

lemma interferes_idle: "A \<subseteq> B \<Longrightarrow> interferes holds M A (\<lambda>s. s) B"
  by (auto simp: interferes_def)

text \<open>
  What the others hold along a walk of turns, two of their steps a turn: the second happens only in a turn that gets as
  far, and the first only in one that gets to the shared state at all.
\<close>

definition along :: "(nat \<Rightarrow> 'h multiset set) \<Rightarrow> bool" where
  "along S \<longleftrightarrow> (\<forall>j. S (2 * j) \<subseteq> S (2 * j + 2) \<and> S (2 * j + 1) \<subseteq> S (2 * j + 2))"

lemma along_turns: "along S \<Longrightarrow> i \<le> j \<Longrightarrow> S (2 * i) \<subseteq> S (2 * j)"
proof (induction j)
  case (Suc j)
  then show ?case by (cases "i \<le> j") (auto simp: along_def le_Suc_eq)
qed simp

lemma along_refused: "along S \<Longrightarrow> S (2 * j + 1) \<subseteq> S (2 * j + 2)"
  by (simp add: along_def)

lemma along_next:
  assumes "along S" and "m < n"
  shows "S (2 * m + 2) \<subseteq> S (2 * n)"
  using along_turns [OF assms(1), of "Suc m" n] assms(2) by simp

section \<open>The counter\<close>

locale hold_counter =
  fixes cnt :: "'s \<Rightarrow> 'k \<Rightarrow> int" and hold :: "'k \<Rightarrow> 's \<Rightarrow> 's" and drp :: "'k \<Rightarrow> 's \<Rightarrow> 's"
  assumes cnt_hold: "cnt (hold k s) k' = (if k' = k then cnt s k + 1 else cnt s k')"
    and cnt_drp: "cnt (drp k s) k' = (if k' = k \<and> 0 < cnt s k then cnt s k - 1 else cnt s k')"
begin

definition tracks :: "'s \<Rightarrow> 'k multiset \<Rightarrow> bool" where
  "tracks s H \<longleftrightarrow> (\<forall>k. cnt s k = int (count H k))"

lemma tracks_count: "tracks s H \<Longrightarrow> cnt s k = int (count H k)"
  by (simp add: tracks_def)

lemma tracks_pos: "tracks s H \<Longrightarrow> 0 < cnt s k \<longleftrightarrow> k \<in># H"
  by (simp add: tracks_def)

lemma tracks_hold: "tracks s H \<Longrightarrow> tracks (hold k s) (add_mset k H)"
  by (simp add: tracks_def cnt_hold)

lemma tracks_drp: "tracks s H \<Longrightarrow> tracks (drp k s) (H - {#k#})"
  by (auto simp: tracks_def cnt_drp of_nat_diff Suc_leI not_in_iff)

lemma tracks_holds: "tracks s H \<Longrightarrow> tracks (fold hold ks s) (mset ks + H)"
proof (induction ks arbitrary: s H)
  case (Cons k ks)
  have "tracks (fold hold ks (hold k s)) (mset ks + add_mset k H)"
    by (rule Cons.IH [OF tracks_hold [OF Cons.prems]])
  then show ?case by simp
qed simp

lemma tracks_drps: "tracks s H \<Longrightarrow> tracks (fold drp ks s) (H - mset ks)"
proof (induction ks arbitrary: s H)
  case (Cons k ks)
  have "tracks (fold drp ks (drp k s)) (H - {#k#} - mset ks)"
    by (rule Cons.IH [OF tracks_drp [OF Cons.prems]])
  then show ?case by (simp add: diff_diff_add_mset)
qed simp

text \<open>Steps of other requests: they take anything, and drop what they hold or what the request does not.\<close>

lemma holds_interfere: "interferes tracks M A (fold hold ks) ((\<lambda>H. mset ks + H) ` A)"
  using tracks_holds [where ks = ks] by (fastforce simp: interferes_def union_lcomm)

lemma drops_interfere:
  assumes "\<forall>H \<in> A. mset ks \<subseteq># H"
  shows "interferes tracks M A (fold drp ks) ((\<lambda>H. H - mset ks) ` A)"
  using assms tracks_drps [where ks = ks] by (fastforce simp: interferes_def)

lemma foreign_drop_interferes:
  assumes "k \<notin># M"
  shows "interferes tracks M A (drp k) ((\<lambda>H. H - {#k#}) ` A)"
proof -
  have "M + H - {#k#} = M + (H - {#k#})" for H
    using assms by (intro multiset_eqI) (auto simp: not_in_iff)
  then show ?thesis using tracks_drp [where k = k] by (fastforce simp: interferes_def)
qed

text \<open>A drop nobody paired with a hold changes nothing when nobody holds.\<close>

lemma drp_idle: "tracks s H \<Longrightarrow> k \<notin># H \<Longrightarrow> cnt (drp k s) k' = cnt s k'"
  using tracks_pos [of s H k] by (simp add: cnt_drp)

end

end
