(* ===== verification/Health.thy ===== *)
theory Health
  imports Counting ConfigResolve
begin

text \<open>
  The health registry (\<^verbatim>\<open>internal/health/health.go\<close>): failure streaks and cooldowns per egress
  identity, in-flight pins, and reclamation. An instant is an integer number of nanoseconds and the
  zero instant is Go's zero \<^verbatim>\<open>time.Time\<close>; each clock read of an operation is an argument.
\<close>

section \<open>Policy and state\<close>

record hpolicy =
  hp_enabled :: bool
  hp_threshold :: int
  hp_cooldown :: int

definition PolicyFromSnapshot :: "runtime \<Rightarrow> hpolicy" where
  "PolicyFromSnapshot rt = \<lparr>
     hp_enabled = (case hc_enabled (rt_health rt) of None \<Rightarrow> True | Some b \<Rightarrow> b),
     hp_threshold = HealthThreshold rt,
     hp_cooldown = HealthCooldown rt\<rparr>"

record hstate =
  hs_failures :: int
  hs_until :: int

record registry =
  rg_states :: "(string, hstate) gomap"
  rg_refs :: "(string, int) gomap"

definition New :: registry where
  "New = \<lparr>rg_states = [], rg_refs = []\<rparr>"

section \<open>Operations\<close>

definition pin_key :: "string \<Rightarrow> registry \<Rightarrow> registry" where
  "pin_key k r = r\<lparr>rg_refs := gm_set k (gm_count (rg_refs r) k + 1) (rg_refs r)\<rparr>"

definition Pin :: "string list \<Rightarrow> registry \<Rightarrow> registry" where
  "Pin keys r = fold pin_key keys r"

definition unpin_key :: "string \<Rightarrow> registry \<Rightarrow> registry" where
  "unpin_key k r =
     (if gm_count (rg_refs r) k > 0 then
        let refs = gm_set k (gm_count (rg_refs r) k - 1) (rg_refs r) in
        r\<lparr>rg_refs := (if gm_count refs k = 0 then gm_del k refs else refs)\<rparr>
      else r)"

text \<open>The function \<^verbatim>\<open>Pin\<close> returns.\<close>

definition PinRelease :: "string list \<Rightarrow> registry \<Rightarrow> registry" where
  "PinRelease keys r = fold unpin_key keys r"

definition Reclaim :: "string list \<Rightarrow> registry \<Rightarrow> nat \<times> registry" where
  "Reclaim active r =
     (let kept = filter (\<lambda>(k, st). k \<in> set active \<or> gm_count (rg_refs r) k > 0) (rg_states r) in
      (length (rg_states r) - length kept, r\<lparr>rg_states := kept\<rparr>))"

definition ActiveKeys :: "runtime \<Rightarrow> string list" where
  "ActiveKeys rt =
     concat (map (\<lambda>route. concat (map (\<lambda>i. case Egress rt i of
                None \<Rightarrow> [] | Some e \<Rightarrow> [HealthKey e]) (r_egress route))) (Routes rt))"

definition zero_state :: hstate where
  "zero_state = \<lparr>hs_failures = 0, hs_until = 0\<rparr>"

text \<open>\<open>now1\<close> is the clock read by the cooling check and \<open>now2\<close> the one that arms the cooldown.\<close>

definition Observe :: "string \<Rightarrow> bool \<Rightarrow> hpolicy \<Rightarrow> int \<Rightarrow> int \<Rightarrow> registry \<Rightarrow> registry" where
  "Observe key ok p now1 now2 r =
     (if \<not> hp_enabled p \<or> hp_threshold p \<le> 0 then r
      else
        let st = (case gm_get (rg_states r) key of None \<Rightarrow> zero_state | Some st \<Rightarrow> st);
            st' = (if ok then st\<lparr>hs_failures := 0, hs_until := 0\<rparr>
                   else if now1 < hs_until st then st
                   else let n = hs_failures st + 1 in
                        if n \<ge> hp_threshold p
                        then st\<lparr>hs_until := now2 + hp_cooldown p, hs_failures := 0\<rparr>
                        else st\<lparr>hs_failures := n\<rparr>)
        in r\<lparr>rg_states := gm_set key st' (rg_states r)\<rparr>)"

definition Healthy :: "string \<Rightarrow> hpolicy \<Rightarrow> int \<Rightarrow> registry \<Rightarrow> bool" where
  "Healthy key p now r =
     (if \<not> hp_enabled p then True
      else case gm_get (rg_states r) key of
        None \<Rightarrow> True
      | Some st \<Rightarrow> hs_until st = 0 \<or> \<not> now < hs_until st)"

section \<open>Pins\<close>

interpretation pins: hold_counter "\<lambda>r. gm_count (rg_refs r)" pin_key unpin_key
  by unfold_locales (auto simp: pin_key_def unpin_key_def Let_def)

lemma Pin_tracks: "pins.tracks r H \<Longrightarrow> pins.tracks (Pin keys r) (mset keys + H)"
  unfolding Pin_def by (rule pins.tracks_holds)

lemma PinRelease_tracks: "pins.tracks r H \<Longrightarrow> pins.tracks (PinRelease keys r) (H - mset keys)"
  unfolding PinRelease_def by (rule pins.tracks_drps)

lemma pin_key_states [simp]: "rg_states (pin_key k r) = rg_states r"
  by (simp add: pin_key_def)

lemma unpin_key_states [simp]: "rg_states (unpin_key k r) = rg_states r"
  by (simp add: unpin_key_def Let_def)

lemma Pin_states [simp]: "rg_states (Pin keys r) = rg_states r"
  unfolding Pin_def by (induction keys arbitrary: r) simp_all

lemma PinRelease_states [simp]: "rg_states (PinRelease keys r) = rg_states r"
  unfolding PinRelease_def by (induction keys arbitrary: r) simp_all

lemma Observe_refs [simp]: "rg_refs (Observe key ok p n1 n2 r) = rg_refs r"
  by (simp add: Observe_def Let_def)

lemma Reclaim_refs [simp]: "rg_refs (snd (Reclaim active r)) = rg_refs r"
  by (simp add: Reclaim_def Let_def)

lemma Reclaim_get:
  "gm_wf (rg_states r) \<Longrightarrow>
   gm_get (rg_states (snd (Reclaim active r))) k =
     (if k \<in> set active \<or> gm_count (rg_refs r) k > 0 then gm_get (rg_states r) k else None)"
  by (simp add: Reclaim_def Let_def gm_get_filter)

lemma Observe_wf: "gm_wf (rg_states r) \<Longrightarrow> gm_wf (rg_states (Observe key ok p n1 n2 r))"
  by (simp add: Observe_def Let_def)

lemma Reclaim_wf: "gm_wf (rg_states r) \<Longrightarrow> gm_wf (rg_states (snd (Reclaim active r)))"
  by (simp add: Reclaim_def Let_def)

text \<open>
  The registry shared by the requests of all generations. \<open>P\<close> lists the pins taken and not yet
  released, one key list per request in flight.
\<close>

inductive reg_step :: "registry \<times> string list list \<Rightarrow> registry \<times> string list list \<Rightarrow> bool" where
  reg_pin: "reg_step (r, P) (Pin keys r, keys # P)"
| reg_release: "keys \<in> set P \<Longrightarrow> reg_step (r, P) (PinRelease keys r, remove1 keys P)"
| reg_observe: "reg_step (r, P) (Observe key ok p n1 n2 r, P)"
| reg_reclaim: "reg_step (r, P) (snd (Reclaim active r), P)"

inductive_cases reg_step_cases: "reg_step (r, P) (r', P')"

definition pinned :: "string list list \<Rightarrow> string multiset" where
  "pinned P = mset (concat P)"

definition reg_inv :: "registry \<times> string list list \<Rightarrow> bool" where
  "reg_inv rP = (case rP of (r, P) \<Rightarrow> gm_wf (rg_states r) \<and> pins.tracks r (pinned P))"

lemma pinned_remove1: "keys \<in> set P \<Longrightarrow> pinned (remove1 keys P) = pinned P - mset keys"
proof -
  assume "keys \<in> set P"
  then have "pinned P = mset keys + pinned (remove1 keys P)"
    unfolding pinned_def by (induction P) (auto simp: ac_simps)
  then show ?thesis by simp
qed

lemma tracks_refs: "rg_refs r = rg_refs r' \<Longrightarrow> pins.tracks r H = pins.tracks r' H"
  by (simp add: pins.tracks_def)

lemma reg_inv_step:
  assumes "reg_step (r, P) (r', P')" and "reg_inv (r, P)"
  shows "reg_inv (r', P')"
  using assms(1)
proof cases
  case (reg_pin keys)
  then show ?thesis using assms(2) Pin_tracks by (auto simp: reg_inv_def pinned_def)
next
  case (reg_release keys)
  then show ?thesis using assms(2) PinRelease_tracks by (auto simp: reg_inv_def pinned_remove1)
next
  case (reg_observe key ok p n1 n2)
  then show ?thesis using assms(2) tracks_refs [of r r'] by (auto simp: reg_inv_def Observe_wf)
next
  case (reg_reclaim active)
  then show ?thesis using assms(2) tracks_refs [of r r'] by (auto simp: reg_inv_def Reclaim_wf)
qed

lemma reg_inv_reach: "reg_step\<^sup>*\<^sup>* (New, []) rP \<Longrightarrow> reg_inv rP"
proof (induction rule: rtranclp_induct)
  case base
  show ?case by (simp add: reg_inv_def New_def pinned_def pins.tracks_def)
next
  case (step y z)
  then show ?case by (cases y; cases z) (auto dest: reg_inv_step)
qed

section \<open>Streaks and cooldowns\<close>

text \<open>A run of failed observations of one identity, each with its two clock reads.\<close>

definition observe_fails :: "string \<Rightarrow> hpolicy \<Rightarrow> (int \<times> int) list \<Rightarrow> registry \<Rightarrow> registry" where
  "observe_fails key p ts r = fold (\<lambda>(n1, n2). Observe key False p n1 n2) ts r"

definition active_policy :: "hpolicy \<Rightarrow> bool" where
  "active_policy p \<longleftrightarrow> hp_enabled p \<and> 0 < hp_threshold p"

definition state_of :: "registry \<Rightarrow> string \<Rightarrow> hstate" where
  "state_of r key = (case gm_get (rg_states r) key of None \<Rightarrow> zero_state | Some st \<Rightarrow> st)"

lemma Observe_other: "k \<noteq> key \<Longrightarrow> state_of (Observe key ok p n1 n2 r) k = state_of r k"
  by (simp add: Observe_def state_of_def Let_def gm_get_set)

lemma Observe_inactive: "\<not> active_policy p \<Longrightarrow> Observe key ok p n1 n2 r = r"
  by (auto simp: Observe_def active_policy_def)

lemma Observe_success:
  "active_policy p \<Longrightarrow> state_of (Observe key True p n1 n2 r) key = zero_state"
  by (simp add: Observe_def active_policy_def state_of_def Let_def gm_get_set zero_state_def split: option.splits)

lemma Observe_failure:
  "active_policy p \<Longrightarrow> state_of (Observe key False p n1 n2 r) key =
     (let st = state_of r key in
      if n1 < hs_until st then st
      else if hs_failures st + 1 \<ge> hp_threshold p
           then st\<lparr>hs_until := n2 + hp_cooldown p, hs_failures := 0\<rparr>
           else st\<lparr>hs_failures := hs_failures st + 1\<rparr>)"
  by (simp add: Observe_def active_policy_def state_of_def Let_def gm_get_set)

lemma Healthy_state:
  "Healthy key p now r \<longleftrightarrow> \<not> hp_enabled p \<or> hs_until (state_of r key) = 0 \<or> hs_until (state_of r key) \<le> now"
  by (auto simp: Healthy_def state_of_def zero_state_def split: option.splits)

lemma observe_fails_Nil [simp]: "observe_fails key p [] r = r"
  by (simp add: observe_fails_def)

lemma observe_fails_Cons [simp]:
  "observe_fails key p ((n1, n2) # ts) r = observe_fails key p ts (Observe key False p n1 n2 r)"
  by (simp add: observe_fails_def)

lemma observe_fails_snoc:
  "observe_fails key p (ts @ [(n1, n2)]) r = Observe key False p n1 n2 (observe_fails key p ts r)"
  by (simp add: observe_fails_def)

lemma observe_fails_below:
  assumes "active_policy p" and "list_all (\<lambda>(n1, n2). hs_until (state_of r key) \<le> n1) ts"
    and "hs_failures (state_of r key) + int (length ts) < hp_threshold p"
  shows "state_of (observe_fails key p ts r) key =
           (state_of r key)\<lparr>hs_failures := hs_failures (state_of r key) + int (length ts)\<rparr>"
  using assms(2,3)
proof (induction ts arbitrary: r)
  case (Cons t ts)
  obtain n1 n2 where t: "t = (n1, n2)" by (cases t)
  let ?r = "Observe key False p n1 n2 r"
  have "state_of ?r key = (state_of r key)\<lparr>hs_failures := hs_failures (state_of r key) + 1\<rparr>"
    using Cons.prems by (simp add: Observe_failure [OF assms(1)] Let_def t)
  with Cons.IH [of ?r] Cons.prems show ?case by (simp add: t)
qed simp

lemma observe_fails_cooling:
  assumes "list_all (\<lambda>(n1, n2). n1 < hs_until (state_of r key)) ts"
  shows "state_of (observe_fails key p ts r) key = state_of r key"
  using assms
proof (induction ts arbitrary: r)
  case (Cons t ts)
  obtain n1 n2 where t: "t = (n1, n2)" by (cases t)
  have "state_of (Observe key False p n1 n2 r) key = state_of r key"
    using Cons.prems Observe_failure [of p key n1 n2 r] Observe_inactive [of p key False n1 n2 r]
    by (cases "active_policy p") (simp_all add: t Let_def)
  with Cons show ?case by (simp add: t)
qed simp

text \<open>The streak is always below the threshold of the policy that last judged it, so it never wraps.\<close>

lemma Observe_streak_bound:
  "active_policy p \<Longrightarrow> \<not> n1 < hs_until (state_of r key) \<Longrightarrow> 0 \<le> hs_failures (state_of r key) \<Longrightarrow>
   0 \<le> hs_failures (state_of (Observe key ok p n1 n2 r) key) \<and>
   hs_failures (state_of (Observe key ok p n1 n2 r) key) < hp_threshold p"
  by (cases ok) (auto simp: Observe_success Observe_failure Let_def zero_state_def active_policy_def)

section \<open>Properties\<close>

text \<open>
  C40. Cooldown is armed by exactly the threshold-th consecutive failure: every shorter streak leaves
  the identity schedulable at any time, and the last failure keeps it out until its clock read plus
  the cooldown, and no longer.
\<close>

theorem cooldown_at_threshold:
  assumes "active_policy p" and "state_of r key = zero_state"
    and "list_all (\<lambda>(n1, n2). 0 \<le> n1) ts" and "int (length ts) = hp_threshold p - 1"
    and "0 \<le> n1" and "0 < n2 + hp_cooldown p"
  shows "(\<forall>k now. Healthy key p now (observe_fails key p (take k ts) r)) \<and>
         (\<forall>now. Healthy key p now (observe_fails key p (ts @ [(n1, n2)]) r) \<longleftrightarrow> n2 + hp_cooldown p \<le> now)"
proof -
  have pre: "state_of (observe_fails key p us r) key = zero_state\<lparr>hs_failures := int (length us)\<rparr>"
    if "us = take k ts" for us k
  proof -
    have "set us \<subseteq> set ts" "length us \<le> length ts" using that by (auto dest: in_set_takeD)
    then have "list_all (\<lambda>(n1, n2). 0 \<le> n1) us" "int (length us) < hp_threshold p"
      using assms(3,4) by (auto simp: list_all_iff)
    then show ?thesis using observe_fails_below [OF assms(1), of r key us]
      by (simp add: assms(2) zero_state_def)
  qed
  have "Healthy key p now (observe_fails key p (take k ts) r)" for k now
    by (simp add: Healthy_state pre [OF refl] zero_state_def)
  moreover have "state_of (observe_fails key p (ts @ [(n1, n2)]) r) key =
        \<lparr>hs_failures = 0, hs_until = n2 + hp_cooldown p\<rparr>"
    using assms pre [of ts "length ts"]
    by (simp add: observe_fails_snoc Observe_failure Let_def zero_state_def)
  ultimately show ?thesis using assms(1,6) by (auto simp: Healthy_state active_policy_def)
qed

theorem cooldown_at_threshold_witness:
  "Healthy ''k'' \<lparr>hp_enabled = True, hp_threshold = 2, hp_cooldown = 30\<rparr> 41
     (observe_fails ''k'' \<lparr>hp_enabled = True, hp_threshold = 2, hp_cooldown = 30\<rparr> ([(10, 10)] @ [(11, 11)]) New)
   \<and> \<not> Healthy ''k'' \<lparr>hp_enabled = True, hp_threshold = 2, hp_cooldown = 30\<rparr> 40
     (observe_fails ''k'' \<lparr>hp_enabled = True, hp_threshold = 2, hp_cooldown = 30\<rparr> ([(10, 10)] @ [(11, 11)]) New)"
proof -
  let ?p = "\<lparr>hp_enabled = True, hp_threshold = 2, hp_cooldown = 30\<rparr>"
  have "\<forall>now. Healthy ''k'' ?p now (observe_fails ''k'' ?p ([(10, 10)] @ [(11, 11)]) New)
          \<longleftrightarrow> 11 + hp_cooldown ?p \<le> now"
    by (rule conjunct2, rule cooldown_at_threshold)
       (simp_all add: active_policy_def state_of_def New_def)
  then show ?thesis by simp
qed

text \<open>
  Failures during a cooldown never extend it, and one success clears both the streak and the
  cooldown.
\<close>

theorem cooldown_not_extended:
  assumes "list_all (\<lambda>(n1, n2). n1 < hs_until (state_of r key)) ts"
  shows "state_of (observe_fails key p ts r) key = state_of r key \<and>
         (active_policy p \<longrightarrow> state_of (Observe key True p n1 n2 r) key = zero_state)"
  using observe_fails_cooling [OF assms] Observe_success by simp

theorem cooldown_not_extended_witness:
  "state_of (observe_fails ''k'' \<lparr>hp_enabled = True, hp_threshold = 1, hp_cooldown = 30\<rparr> [(20, 20), (30, 30)]
       \<lparr>rg_states = [(''k'', \<lparr>hs_failures = 0, hs_until = 35\<rparr>)], rg_refs = []\<rparr>) ''k''
     = \<lparr>hs_failures = 0, hs_until = 35\<rparr>"
  using cooldown_not_extended
    [of "\<lparr>rg_states = [(''k'', \<lparr>hs_failures = 0, hs_until = 35\<rparr>)], rg_refs = []\<rparr>" "''k''" "[(20, 20), (30, 30)]"
        "\<lparr>hp_enabled = True, hp_threshold = 1, hp_cooldown = 30\<rparr>"]
  by (simp add: state_of_def)

text \<open>
  In every reachable registry, reclamation keeps the state of each identity that is active or
  pinned by a request in flight, and drops every other one.
\<close>

theorem Reclaim_exact:
  assumes "reg_step\<^sup>*\<^sup>* (New, []) (r, P)"
  shows "gm_get (rg_states (snd (Reclaim active r))) k =
           (if k \<in> set active \<or> (\<exists>keys \<in> set P. k \<in> set keys) then gm_get (rg_states r) k else None)"
proof -
  have i: "gm_wf (rg_states r)" "pins.tracks r (pinned P)"
    using reg_inv_reach [OF assms] by (auto simp: reg_inv_def)
  have "gm_count (rg_refs r) k > 0 \<longleftrightarrow> (\<exists>keys \<in> set P. k \<in> set keys)"
    using pins.tracks_pos [OF i(2), of k] by (simp add: pinned_def)
  with i(1) show ?thesis by (simp add: Reclaim_get)
qed

theorem Reclaim_exact_witness:
  "gm_get (rg_states (snd (Reclaim []
      (Observe ''k'' False \<lparr>hp_enabled = True, hp_threshold = 3, hp_cooldown = 30\<rparr> 1 1 (Pin [''k''] New))))) ''k''
     = Some \<lparr>hs_failures = 1, hs_until = 0\<rparr>"
proof -
  let ?p = "\<lparr>hp_enabled = True, hp_threshold = 3, hp_cooldown = 30\<rparr>"
  have "reg_step (New, []) (Pin [''k''] New, [[''k'']])" by (rule reg_pin)
  moreover have "reg_step (Pin [''k''] New, [[''k'']]) (Observe ''k'' False ?p 1 1 (Pin [''k''] New), [[''k'']])"
    by (rule reg_observe)
  ultimately have "reg_step\<^sup>*\<^sup>* (New, []) (Observe ''k'' False ?p 1 1 (Pin [''k''] New), [[''k'']])"
    by (blast intro: converse_rtranclp_into_rtranclp)
  from Reclaim_exact [OF this, of "[]" "''k''"] show ?thesis
    by (simp add: Observe_def New_def Let_def zero_state_def)
qed

end
