(* ===== verification/Limiter.thy ===== *)
theory Limiter
  imports Counting
begin

text \<open>
  The per-egress concurrency gate (\<^verbatim>\<open>internal/upstream/limits.go\<close>) and its use by concurrent
  requests as a step relation over the gate and the requests that hold a slot.
\<close>

section \<open>The gate\<close>

type_synonym limiter = "(string, int) gomap"

definition NewLimiter :: limiter where
  "NewLimiter = []"

definition Peek :: "limiter \<Rightarrow> string \<Rightarrow> int \<Rightarrow> bool" where
  "Peek l i cap = (if cap \<le> 0 then True else gm_count l i < cap)"

definition take_slot :: "string \<Rightarrow> limiter \<Rightarrow> limiter" where
  "take_slot i l = gm_set i (gm_count l i + 1) l"

definition Acquire :: "limiter \<Rightarrow> string \<Rightarrow> int \<Rightarrow> bool \<times> limiter" where
  "Acquire l i cap =
     (if cap \<le> 0 then (True, l)
      else if gm_count l i \<ge> cap then (False, l)
      else (True, take_slot i l))"

definition Release :: "string \<Rightarrow> limiter \<Rightarrow> limiter" where
  "Release i l = (if gm_count l i > 0 then gm_set i (gm_count l i - 1) l else l)"

definition InFlight :: "limiter \<Rightarrow> string \<Rightarrow> int" where
  "InFlight l i = gm_count l i"

interpretation slots: hold_counter InFlight take_slot Release
  by unfold_locales (auto simp: InFlight_def take_slot_def Release_def)

lemma Acquire_iff_Peek: "fst (Acquire l i cap) = Peek l i cap"
  by (simp add: Acquire_def Peek_def)

lemma NewLimiter_tracks: "slots.tracks NewLimiter {#}"
  by (simp add: slots.tracks_def NewLimiter_def InFlight_def)

section \<open>Concurrent use\<close>

text \<open>
  A holder is the egress id and the cap its request acquired under: requests of different
  configuration generations may name the same egress with different caps, and the gate survives
  reloads. \<open>allowed\<close> restricts the caps in use.
\<close>

inductive lim_step ::
  "(string \<Rightarrow> int \<Rightarrow> bool) \<Rightarrow> limiter \<times> (string \<times> int) multiset \<Rightarrow> limiter \<times> (string \<times> int) multiset \<Rightarrow> bool"
  for allowed where
  lim_acquire: "allowed i cap \<Longrightarrow> Acquire l i cap = (True, l') \<Longrightarrow>
     lim_step allowed (l, H) (l', add_mset (i, cap) H)"
| lim_refuse: "allowed i cap \<Longrightarrow> Acquire l i cap = (False, l') \<Longrightarrow> lim_step allowed (l, H) (l', H)"
| lim_release: "(i, cap) \<in># H \<Longrightarrow> lim_step allowed (l, H) (Release i l, H - {#(i, cap)#})"

inductive_cases lim_step_cases: "lim_step allowed (l, H) (l', H')"

definition capped :: "(string \<times> int) multiset \<Rightarrow> string multiset" where
  "capped H = image_mset fst (filter_mset (\<lambda>(i, cap). 0 < cap) H)"

text \<open>While every generation agrees on the cap of an egress, the gate is exact.\<close>

definition lim_inv :: "(string \<Rightarrow> int) \<Rightarrow> limiter \<times> (string \<times> int) multiset \<Rightarrow> bool" where
  "lim_inv cap_of lH = (case lH of (l, H) \<Rightarrow>
     slots.tracks l (capped H) \<and> (\<forall>(i, cap) \<in># H. cap = cap_of i) \<and>
     (\<forall>i. 0 < cap_of i \<longrightarrow> InFlight l i \<le> cap_of i))"

lemma capped_add: "capped (add_mset (i, cap) H) = (if 0 < cap then add_mset i (capped H) else capped H)"
  by (simp add: capped_def)

lemma capped_remove:
  "(i, cap) \<in># H \<Longrightarrow> capped (H - {#(i, cap)#}) = (if 0 < cap then capped H - {#i#} else capped H)"
  by (auto simp: capped_def image_mset_Diff filter_diff_mset)

lemma capped_notin: "(\<forall>(i, cap) \<in># H. cap = cap_of i) \<Longrightarrow> cap_of i \<le> 0 \<Longrightarrow> i \<notin># capped H"
  by (auto simp: capped_def)

lemma lim_inv_acquire:
  assumes "lim_inv cap_of (l, H)" and "Acquire l i (cap_of i) = (True, l')"
  shows "lim_inv cap_of (l', add_mset (i, cap_of i) H)"
proof (cases "cap_of i \<le> 0")
  case True
  then show ?thesis using assms by (auto simp: lim_inv_def Acquire_def capped_add)
next
  case False
  with assms have l': "l' = take_slot i l" and room: "InFlight l i < cap_of i"
    by (auto simp: Acquire_def InFlight_def split: if_splits)
  have "InFlight l' j \<le> cap_of j" if "0 < cap_of j" for j
    using assms(1) room that by (auto simp: l' slots.cnt_hold lim_inv_def)
  then show ?thesis using assms(1) False
    by (auto simp: lim_inv_def l' capped_add slots.tracks_hold)
qed

lemma lim_inv_release:
  assumes "lim_inv cap_of (l, H)" and "(i, cap) \<in># H"
  shows "lim_inv cap_of (Release i l, H - {#(i, cap)#})"
proof -
  from assms have t: "slots.tracks l (capped H)" and c: "\<forall>(i, cap) \<in># H. cap = cap_of i"
    and b: "\<forall>i. 0 < cap_of i \<longrightarrow> InFlight l i \<le> cap_of i" and cap: "cap = cap_of i"
    by (auto simp: lim_inv_def)
  have "slots.tracks (Release i l) (capped (H - {#(i, cap)#}))"
  proof (cases "0 < cap")
    case True
    then show ?thesis using slots.tracks_drp [OF t, of i] assms(2) by (simp add: capped_remove)
  next
    case False
    then have "i \<notin># capped H" using capped_notin [OF c, of i] cap by simp
    then have "capped H - {#i#} = capped H" by simp
    then show ?thesis using False slots.tracks_drp [OF t, of i] assms(2) by (simp add: capped_remove)
  qed
  moreover have "InFlight (Release i l) j \<le> cap_of j" if "0 < cap_of j" for j
    using b that by (simp add: slots.cnt_drp) (metis add_increasing2 diff_le_eq order_trans zero_le_one)
  moreover have "\<forall>(j, c) \<in># H - {#(i, cap)#}. c = cap_of j" using c by (auto dest: in_diffD)
  ultimately show ?thesis by (simp add: lim_inv_def)
qed

lemma lim_inv_step:
  "lim_step (\<lambda>i cap. cap = cap_of i) (l, H) (l', H') \<Longrightarrow> lim_inv cap_of (l, H) \<Longrightarrow> lim_inv cap_of (l', H')"
  by (erule lim_step_cases)
     (auto simp: lim_inv_acquire lim_inv_release Acquire_def split: if_splits)

lemma lim_inv_reach:
  "(lim_step (\<lambda>i cap. cap = cap_of i))\<^sup>*\<^sup>* (NewLimiter, {#}) lH \<Longrightarrow> lim_inv cap_of lH"
proof (induction rule: rtranclp_induct)
  case base
  show ?case using NewLimiter_tracks by (simp add: lim_inv_def capped_def slots.tracks_count)
next
  case (step y z)
  then show ?case by (cases y; cases z) (auto dest: lim_inv_step)
qed

section \<open>Properties\<close>

text \<open>
  While all requests name one cap per egress, the gate counts exactly the requests that hold a
  slot, and never more than the cap of them are in flight at once.
\<close>

theorem limiter_exact:
  assumes "(lim_step (\<lambda>i cap. cap = cap_of i))\<^sup>*\<^sup>* (NewLimiter, {#}) (l, H)" and "0 < cap_of i"
  shows "InFlight l i = int (count (capped H) i) \<and> InFlight l i \<le> cap_of i"
  using lim_inv_reach [OF assms(1)] assms(2) by (auto simp: lim_inv_def slots.tracks_count)

theorem limiter_exact_witness:
  "InFlight (take_slot ''a'' NewLimiter) ''a'' = int (count (capped {#(''a'', 2)#}) ''a'') \<and>
   InFlight (take_slot ''a'' NewLimiter) ''a'' \<le> 2"
proof -
  have "lim_step (\<lambda>i cap. cap = 2) (NewLimiter, {#}) (take_slot ''a'' NewLimiter, {#(''a'', 2)#})"
    by (rule lim_acquire) (simp_all add: Acquire_def NewLimiter_def)
  then have "(lim_step (\<lambda>i cap. cap = 2))\<^sup>*\<^sup>* (NewLimiter, {#}) (take_slot ''a'' NewLimiter, {#(''a'', 2)#})"
    by (rule r_into_rtranclp)
  from limiter_exact [of "\<lambda>_. 2", OF this, of "''a''"] show ?thesis by simp
qed

text \<open>
  The cap does not survive a reload that changes an egress from unlimited to capped: a request
  of the uncapped generation releases a slot it never took, and with a cap of one two capped
  requests run at once.
\<close>

theorem limiter_reload_exceeds_cap:
  "\<exists>l H. (lim_step (\<lambda>i cap. cap \<in> {0, 1}))\<^sup>*\<^sup>* (NewLimiter, {#}) (l, H) \<and>
         count H (''a'', 1) = 2"
proof -
  let ?s = "lim_step (\<lambda>i cap. cap \<in> {0, 1})"
  let ?l1 = "take_slot ''a'' NewLimiter" and ?l2 = "Release ''a'' (take_slot ''a'' NewLimiter)"
  have "?s (NewLimiter, {#}) (NewLimiter, {#(''a'', 0)#})"
    by (rule lim_acquire) (simp_all add: Acquire_def)
  moreover have "?s (NewLimiter, {#(''a'', 0)#}) (?l1, {#(''a'', 1), (''a'', 0)#})"
    by (rule lim_acquire) (simp_all add: Acquire_def NewLimiter_def)
  moreover have "?s (?l1, {#(''a'', 1), (''a'', 0)#}) (?l2, {#(''a'', 1), (''a'', 0)#} - {#(''a'', 0)#})"
    by (rule lim_release) simp
  moreover have "?s (?l2, {#(''a'', 1)#}) (take_slot ''a'' ?l2, {#(''a'', 1), (''a'', 1)#})"
    by (rule lim_acquire) (simp_all add: Acquire_def NewLimiter_def take_slot_def Release_def gm_count_def)
  ultimately have "?s\<^sup>*\<^sup>* (NewLimiter, {#}) (take_slot ''a'' ?l2, {#(''a'', 1), (''a'', 1)#})"
    by (auto intro!: converse_rtranclp_into_rtranclp)
  moreover have "count {#(''a'', 1 :: int), (''a'', 1)#} (''a'', 1) = 2" by simp
  ultimately show ?thesis by blast
qed

end
