(* ===== verification/Executor.thy ===== *)
theory Executor
  imports ClientProps Selector Health Limiter
begin

text \<open>
  Egress failover (\<^verbatim>\<open>internal/upstream/fallback.go\<close>): one request walks its pinned plan, dials one
  egress at a time, moves on only after a failure that provably preceded the request, and accounts
  for slots, health and evidence.

  Other requests share the limiter and the registry: before each acquire and while each dial runs an
  arbitrary function may change both. The log of collaborator calls is the model's own; it is what the
  statements about ordering and balance speak of.
\<close>

section \<open>Policy, environment and state\<close>

record attempt_policy =
  ap_fallback_enabled :: bool
  ap_max_attempts :: int
  ap_max_concurrency :: "(string, int) gomap"
  ap_health_policy :: hpolicy

definition Budget :: "attempt_policy \<Rightarrow> int" where
  "Budget p = (if \<not> ap_fallback_enabled p \<or> ap_max_attempts p < 1 then 1 else ap_max_attempts p)"

type_synonym shared = "registry option \<times> limiter option"

datatype exec_event =
    ExAcquire string
  | ExDial string call_result
  | ExRelease string
  | ExObserve string bool
  | ExSkip string string

record exec_env =
  xe_client :: "egress \<Rightarrow> client option"
  xe_world :: "nat \<Rightarrow> world"
  xe_headers :: "nat \<Rightarrow> (string, string) gomap"
  xe_dur :: "nat \<Rightarrow> int"
  xe_now1 :: "nat \<Rightarrow> int"
  xe_now2 :: "nat \<Rightarrow> int"
  xe_reg :: "nat \<Rightarrow> registry \<Rightarrow> registry"
  xe_slots :: "nat \<Rightarrow> limiter \<Rightarrow> limiter"
  xe_target :: string
  xe_body :: "string option"

text \<open>What the other requests did to the shared state up to a point of this one.\<close>

definition xe_others :: "exec_env \<Rightarrow> nat \<Rightarrow> shared \<Rightarrow> shared" where
  "xe_others env k sh = (map_option (xe_reg env k) (fst sh), map_option (xe_slots env k) (snd sh))"

record exec_loop =
  xl_sel :: plan_selector
  xl_intent :: intent
  xl_prev :: selection
  xl_attempts :: nat
  xl_last_id :: string
  xl_last_failure :: failure
  xl_last_err :: "upstream_error option"
  xl_terminal :: int
  xl_shared :: shared
  xl_rec :: recorder
  xl_log :: "exec_event list"

record exec_result =
  xr_response :: "http_response option"
  xr_id :: string
  xr_attempts :: nat
  xr_failure :: failure
  xr_error :: "upstream_error option"
  xr_shared :: shared
  xr_rec :: recorder
  xr_log :: "exec_event list"

fun intent_string :: "intent \<Rightarrow> string" where
  "intent_string IntentNormal = ''normal''"
| "intent_string IntentNewEgress = ''new-egress''"

definition proxyTypeName :: "egress option \<Rightarrow> string" where
  "proxyTypeName eg = (case eg of
     None \<Rightarrow> ''direct''
   | Some e \<Rightarrow> (case e_proxy e of None \<Rightarrow> ''direct'' | Some p \<Rightarrow> p_type p))"

definition annotateDecision :: "recorder \<Rightarrow> nat \<Rightarrow> string \<Rightarrow> string \<Rightarrow> int \<times> recorder" where
  "annotateDecision rec startRow health fallback =
     (let lst = int (Len rec) - 1 in
      if lst < int startRow then (-1, rec)
      else (lst, Annotate lst (\<lambda>r. r\<lparr>ro_health := health, ro_fallback := fallback\<rparr>) rec))"

definition skipRow :: "string \<Rightarrow> string \<Rightarrow> intent \<Rightarrow> string \<Rightarrow> row" where
  "skipRow i typ itn reason = zero_row\<lparr>ro_phase := ''skip'', ro_egress := i, ro_egress_type := typ,
     ro_intent := intent_string itn, ro_reason := reason\<rparr>"

section \<open>One turn of the walk\<close>

text \<open>After the loop: the last real verdict, or the synthetic envelope when nothing was dialed.\<close>

definition finishPlan :: "exec_loop \<Rightarrow> exec_result" where
  "finishPlan x = (case xl_last_err x of
     Some uerr \<Rightarrow> \<lparr>xr_response = None, xr_id = xl_last_id x, xr_attempts = xl_attempts x,
       xr_failure = xl_last_failure x, xr_error = Some uerr, xr_shared = xl_shared x,
       xr_rec = (if xl_terminal x \<ge> 0 then AnnotateAt (xl_terminal x) (\<lambda>r. r\<lparr>ro_fallback := ''stop''\<rparr>) (xl_rec x)
                 else xl_rec x),
       xr_log = xl_log x\<rparr>
   | None \<Rightarrow> \<lparr>xr_response = None, xr_id = xl_last_id x, xr_attempts = xl_attempts x,
       xr_failure = xl_last_failure x,
       xr_error = Some \<lparr>ue_status = 502, ue_message = ''none of the eligible egresses could serve the request''\<rparr>,
       xr_shared = xl_shared x, xr_rec = xl_rec x, xr_log = xl_log x\<rparr>)"

definition skipEntry :: "attempt_policy \<Rightarrow> row \<Rightarrow> exec_loop \<Rightarrow> exec_result + exec_loop" where
  "skipEntry pol r x =
     (let x' = x\<lparr>xl_rec := Append r (xl_rec x), xl_log := xl_log x @ [ExSkip (ro_egress r) (ro_reason r)]\<rparr> in
      if \<not> ap_fallback_enabled pol then Inl (finishPlan x') else Inr x')"

definition acquireSlot :: "string \<Rightarrow> int \<Rightarrow> shared \<Rightarrow> bool \<times> shared" where
  "acquireSlot i cap sh = (case snd sh of
     None \<Rightarrow> (True, sh)
   | Some l \<Rightarrow> (case Acquire l i cap of (ok, l') \<Rightarrow> (ok, (fst sh, Some l'))))"

definition releaseSlot :: "string \<Rightarrow> shared \<Rightarrow> shared" where
  "releaseSlot i sh = (fst sh, map_option (Release i) (snd sh))"

definition slot_log :: "shared \<Rightarrow> exec_event \<Rightarrow> exec_event list" where
  "slot_log sh e = (if snd sh = None then [] else [e])"

definition observeHealth :: "exec_env \<Rightarrow> nat \<Rightarrow> attempt_policy \<Rightarrow> egress \<Rightarrow> bool \<Rightarrow> shared \<Rightarrow> shared" where
  "observeHealth env n pol eg ok sh =
     (map_option (Observe (HealthKey eg) ok (ap_health_policy pol) (xe_now1 env n) (xe_now2 env n)) (fst sh), snd sh)"

text \<open>The dial and everything after it, with the slot held.\<close>

definition dialEgress ::
  "exec_env \<Rightarrow> attempt_policy \<Rightarrow> selection \<Rightarrow> egress \<Rightarrow> client \<Rightarrow> exec_loop \<Rightarrow> exec_result + exec_loop" where
  "dialEgress env pol sel eg c x =
     (let i = sl_id sel;
          n = xl_attempts x + 1;
          turn = ps_next (xl_sel x);
          sh0 = xl_shared x;
          inFlight = (case snd sh0 of
                        None \<Rightarrow> 0
                      | Some l \<Rightarrow> if gm_count (ap_max_concurrency pol) i > 0 then InFlight l i else 0);
          startRow = Len (xl_rec x);
          (res, rec1) = DoClassifiedObserved (xe_world env n) c (xe_target env) (xe_headers env n) (xe_body env)
                          (xe_dur env n) (xl_rec x);
          rec2 = Annotate (int startRow) (\<lambda>r. r\<lparr>ro_egress := i, ro_egress_type := proxyTypeName (Some eg),
                   ro_attempt := int n, ro_in_flight := inFlight, ro_intent := intent_string (xl_intent x)\<rparr>) rec1;
          f = cr_failure res;
          sh1 = xe_others env (2 * turn + 1) sh0;
          log1 = xl_log x @ slot_log sh0 (ExAcquire i) @ [ExDial i res]
      in case cr_error res of
        Some uerr \<Rightarrow>
          let sh2 = releaseSlot i sh1;
              log2 = log1 @ slot_log sh0 (ExRelease i);
              safe = ReplaySafe f;
              mark = (MarksEgressHealth f \<and> fst sh2 \<noteq> None);
              sh3 = (if mark then observeHealth env n pol eg False sh2 else sh2);
              log3 = log2 @ (if mark then [ExObserve (HealthKey eg) False] else []);
              health = (if mark then ''marked'' else ''neutral'')
          in if \<not> safe \<or> int n \<ge> Budget pol then
               Inl \<lparr>xr_response = None, xr_id = i, xr_attempts = n, xr_failure = f, xr_error = Some uerr,
                    xr_shared = sh3, xr_rec = snd (annotateDecision rec2 startRow health ''stop''), xr_log = log3\<rparr>
             else
               case annotateDecision rec2 startRow health ''fallback'' of (t, rec3) \<Rightarrow>
                 Inr (x\<lparr>xl_intent := IntentNewEgress, xl_prev := sel, xl_attempts := n, xl_last_id := i,
                        xl_last_failure := f, xl_last_err := Some uerr, xl_terminal := t, xl_shared := sh3,
                        xl_rec := rec3, xl_log := log3\<rparr>)
      | None \<Rightarrow>
          let sh3 = (if fst sh1 \<noteq> None then observeHealth env n pol eg True sh1 else sh1);
              log3 = log1 @ (if fst sh1 \<noteq> None then [ExObserve (HealthKey eg) True] else [])
          in Inl \<lparr>xr_response = cr_response res, xr_id = i, xr_attempts = n, xr_failure = f, xr_error = None,
                  xr_shared = sh3, xr_rec = rec2, xr_log = log3\<rparr>)"

definition execStep :: "exec_env \<Rightarrow> attempt_policy \<Rightarrow> exec_loop \<Rightarrow> exec_result + exec_loop" where
  "execStep env pol x = (case Next (xl_intent x) (xl_prev x) (xl_sel x) of ((sel, selected), s') \<Rightarrow>
     let x0 = x\<lparr>xl_sel := s'\<rparr>; i = sl_id sel in
     if \<not> selected then Inl (finishPlan x0)
     else case sl_egress sel of
       None \<Rightarrow> skipEntry pol (skipRow i [] (xl_intent x) ''unknown_egress'') x0
     | Some eg \<Rightarrow> (case xe_client env eg of
         None \<Rightarrow> skipEntry pol (skipRow i (proxyTypeName (Some eg)) (xl_intent x) ''transport_build'') x0
       | Some c \<Rightarrow>
           (case acquireSlot i (gm_count (ap_max_concurrency pol) i)
                   (xe_others env (2 * ps_next s') (xl_shared x0)) of
              (False, sh) \<Rightarrow> skipEntry pol (skipRow i (proxyTypeName (Some eg)) (xl_intent x) ''slot_full'')
                              (x0\<lparr>xl_shared := sh\<rparr>)
            | (True, sh) \<Rightarrow> dialEgress env pol sel eg c (x0\<lparr>xl_shared := sh\<rparr>))))"

lemma dialEgress_sel: "dialEgress env pol sel eg c x = Inr x' \<Longrightarrow> xl_sel x' = xl_sel x"
  by (auto simp: dialEgress_def Let_def split: prod.splits option.splits if_splits)

lemma skipEntry_sel: "skipEntry pol r x = Inr x' \<Longrightarrow> x' = x\<lparr>xl_rec := Append r (xl_rec x), xl_log := xl_log x @ [ExSkip (ro_egress r) (ro_reason r)]\<rparr> \<and> ap_fallback_enabled pol"
  by (auto simp: skipEntry_def Let_def split: if_splits)

lemma execStep_sel:
  assumes "execStep env pol x = Inr x'"
  shows "\<exists>sel. Next (xl_intent x) (xl_prev x) (xl_sel x) = ((sel, True), xl_sel x')"
  using assms
  by (auto simp: execStep_def Let_def split: prod.splits option.splits if_splits bool.splits
           dest!: skipEntry_sel dialEgress_sel)

function execLoop :: "exec_env \<Rightarrow> attempt_policy \<Rightarrow> exec_loop \<Rightarrow> exec_result" where
  "execLoop env pol x = (case execStep env pol x of Inl res \<Rightarrow> res | Inr x' \<Rightarrow> execLoop env pol x')"
  by pat_completeness auto
termination
  by (relation "measure (\<lambda>(env, pol, x). length (remaining (xl_sel x)))")
     (auto dest!: execStep_sel intro: plan_sel.nxt_shrinks)

declare execLoop.simps [simp del]

definition ExecuteObserved :: "exec_env \<Rightarrow> route_plan \<Rightarrow> attempt_policy \<Rightarrow> shared \<Rightarrow> recorder \<Rightarrow> exec_result" where
  "ExecuteObserved env plan pol sh rec = execLoop env pol
     \<lparr>xl_sel = NewPlanSelector plan, xl_intent = IntentNormal, xl_prev = zeroSelection, xl_attempts = 0,
      xl_last_id = [], xl_last_failure = NoDialFailure, xl_last_err = None, xl_terminal = -1,
      xl_shared = sh, xl_rec = rec, xl_log = []\<rparr>"

definition Execute :: "exec_env \<Rightarrow> route_plan \<Rightarrow> attempt_policy \<Rightarrow> shared \<Rightarrow> exec_result" where
  "Execute env plan pol sh = ExecuteObserved env plan pol sh None"

section \<open>The slot of a live response\<close>

record slot_body =
  sb_id :: string
  sb_freed :: bool

text \<open>Closing the body: the connection first, then the slot, once however often it is closed.\<close>

datatype body_event = ConnClosed | SlotFreed string

definition CloseBody :: "slot_body \<Rightarrow> limiter \<Rightarrow> slot_body \<times> limiter \<times> body_event list" where
  "CloseBody b l =
     (if sb_freed b then (b, l, [ConnClosed])
      else (b\<lparr>sb_freed := True\<rparr>, Release (sb_id b) l, [ConnClosed, SlotFreed (sb_id b)]))"

end
