(* ===== verification/ExecutorProps.thy ===== *)
theory ExecutorProps
  imports Executor "HOL-Library.Sublist"
begin

text \<open>
  What failover guarantees. Each turn of the walk is described once, by \<open>execStep_next\<close> and
  \<open>execStep_stop\<close>; the properties are invariants of the walk over that description: which dials are
  followed by another, how many there are, where the returned verdict comes from, how slots are paired,
  and what the health registry is told.
\<close>

section \<open>One turn\<close>

definition call_of :: "exec_env \<Rightarrow> client \<Rightarrow> nat \<Rightarrow> recorder \<Rightarrow> call_result" where
  "call_of env c n rec = fst (DoClassifiedObserved (xe_world env n) c (xe_target env) (xe_headers env n) (xe_body env)
     (xe_dur env n) rec)"

definition health_log :: "shared \<Rightarrow> egress \<Rightarrow> call_result \<Rightarrow> exec_event list" where
  "health_log sh eg res =
     (if fst sh = None then []
      else if cr_error res = None then [ExObserve (HealthKey eg) True]
      else if MarksEgressHealth (cr_failure res) then [ExObserve (HealthKey eg) False] else [])"

definition dial_log :: "shared \<Rightarrow> egress \<Rightarrow> string \<Rightarrow> call_result \<Rightarrow> exec_event list" where
  "dial_log sh eg i res = slot_log sh (ExAcquire i) @ [ExDial i res]
     @ (if cr_error res = None then [] else slot_log sh (ExRelease i)) @ health_log sh eg res"

text \<open>The wiring of the collaborators never changes.\<close>

definition same_wiring :: "shared \<Rightarrow> shared \<Rightarrow> bool" where
  "same_wiring a b \<longleftrightarrow> (fst a = None) = (fst b = None) \<and> (snd a = None) = (snd b = None)"

lemma wiring_simps [simp]:
  "same_wiring a a" "fst (xe_others env k sh) = None \<longleftrightarrow> fst sh = None" "snd (xe_others env k sh) = None \<longleftrightarrow> snd sh = None"
  "fst (releaseSlot i sh) = fst sh" "snd (releaseSlot i sh) = None \<longleftrightarrow> snd sh = None"
  "fst (observeHealth env n pol eg ok sh) = None \<longleftrightarrow> fst sh = None" "snd (observeHealth env n pol eg ok sh) = snd sh"
  by (simp_all add: same_wiring_def xe_others_def releaseSlot_def observeHealth_def)

lemma same_wiring_trans: "same_wiring a b \<Longrightarrow> same_wiring b c \<Longrightarrow> same_wiring a c"
  by (simp add: same_wiring_def)

lemma slot_log_wiring: "same_wiring a b \<Longrightarrow> slot_log a e = slot_log b e"
  by (simp add: slot_log_def same_wiring_def)

lemma acquireSlot_wiring: "acquireSlot i cap sh = (ok, sh') \<Longrightarrow> same_wiring sh sh'"
  by (auto simp: acquireSlot_def same_wiring_def split: option.splits prod.splits)

lemma dialEgress_won:
  assumes "cr_error (call_of env c (Suc (xl_attempts x)) (xl_rec x)) = None"
  shows "\<exists>r. dialEgress env pol sel eg c x = Inl r \<and> xr_response r = cr_response (call_of env c (Suc (xl_attempts x)) (xl_rec x))
    \<and> xr_error r = None \<and> xr_failure r = cr_failure (call_of env c (Suc (xl_attempts x)) (xl_rec x)) \<and> xr_id r = sl_id sel
    \<and> xr_attempts r = Suc (xl_attempts x)
    \<and> snd (xr_shared r) = snd (xe_others env (2 * ps_next (xl_sel x) + 1) (xl_shared x))
    \<and> xr_log r = xl_log x @ dial_log (xl_shared x) eg (sl_id sel) (call_of env c (Suc (xl_attempts x)) (xl_rec x))"
  using assms
  by (simp add: dialEgress_def call_of_def dial_log_def health_log_def Let_def split_beta del: not_None_eq)

lemma dialEgress_lost:
  assumes "cr_error (call_of env c (Suc (xl_attempts x)) (xl_rec x)) = Some uerr"
    and "\<not> ReplaySafe (cr_failure (call_of env c (Suc (xl_attempts x)) (xl_rec x))) \<or> Budget pol \<le> int (Suc (xl_attempts x))"
  shows "\<exists>r. dialEgress env pol sel eg c x = Inl r \<and> xr_response r = None
    \<and> xr_error r = Some uerr \<and> xr_failure r = cr_failure (call_of env c (Suc (xl_attempts x)) (xl_rec x)) \<and> xr_id r = sl_id sel
    \<and> xr_attempts r = Suc (xl_attempts x)
    \<and> snd (xr_shared r) = snd (releaseSlot (sl_id sel) (xe_others env (2 * ps_next (xl_sel x) + 1) (xl_shared x)))
    \<and> xr_log r = xl_log x @ dial_log (xl_shared x) eg (sl_id sel) (call_of env c (Suc (xl_attempts x)) (xl_rec x))"
  using assms
  by (simp add: dialEgress_def call_of_def dial_log_def health_log_def Let_def split_beta del: not_None_eq)

lemma dialEgress_moved:
  assumes "cr_error (call_of env c (Suc (xl_attempts x)) (xl_rec x)) = Some uerr"
    and "ReplaySafe (cr_failure (call_of env c (Suc (xl_attempts x)) (xl_rec x)))" and "int (Suc (xl_attempts x)) < Budget pol"
  shows "\<exists>x'. dialEgress env pol sel eg c x = Inr x' \<and> xl_last_err x' = Some uerr
    \<and> xl_last_failure x' = cr_failure (call_of env c (Suc (xl_attempts x)) (xl_rec x)) \<and> xl_last_id x' = sl_id sel
    \<and> xl_prev x' = sel \<and> xl_sel x' = xl_sel x \<and> xl_attempts x' = Suc (xl_attempts x)
    \<and> snd (xl_shared x') = snd (releaseSlot (sl_id sel) (xe_others env (2 * ps_next (xl_sel x) + 1) (xl_shared x)))
    \<and> (fst (xl_shared x') = None) = (fst (xl_shared x) = None)
    \<and> xl_log x' = xl_log x @ dial_log (xl_shared x) eg (sl_id sel) (call_of env c (Suc (xl_attempts x)) (xl_rec x))"
  using assms
  by (simp add: dialEgress_def call_of_def dial_log_def health_log_def Let_def split_beta del: not_None_eq)

text \<open>
  A turn that goes on either passed an entry over or saw a dial fail safely with budget left; a turn
  that ends the request found the plan consumed, passed an entry over with fallback off, or dialed.
\<close>

definition skipped :: "exec_loop \<Rightarrow> string \<Rightarrow> exec_loop \<Rightarrow> bool" where
  "skipped x i x' \<longleftrightarrow> (\<exists>reason. xl_log x' = xl_log x @ [ExSkip i reason]) \<and> xl_prev x' = xl_prev x \<and> xl_attempts x' = xl_attempts x
     \<and> xl_last_err x' = xl_last_err x \<and> xl_last_failure x' = xl_last_failure x \<and> xl_last_id x' = xl_last_id x"

definition moved :: "exec_env \<Rightarrow> attempt_policy \<Rightarrow> exec_loop \<Rightarrow> selection \<Rightarrow> egress \<Rightarrow> call_result \<Rightarrow> exec_loop \<Rightarrow> bool" where
  "moved env pol x sel eg res x' \<longleftrightarrow> ReplaySafe (cr_failure res) \<and> cr_error res \<noteq> None \<and> int (Suc (xl_attempts x)) < Budget pol
     \<and> xl_last_err x' = cr_error res \<and> xl_last_failure x' = cr_failure res \<and> xl_last_id x' = sl_id sel
     \<and> xl_prev x' = sel \<and> xl_attempts x' = Suc (xl_attempts x)
     \<and> xl_log x' = xl_log x @ dial_log (xl_shared x) eg (sl_id sel) res"

definition settled :: "exec_env \<Rightarrow> attempt_policy \<Rightarrow> exec_loop \<Rightarrow> selection \<Rightarrow> egress \<Rightarrow> call_result \<Rightarrow> exec_result \<Rightarrow> bool" where
  "settled env pol x sel eg res r \<longleftrightarrow> (cr_error res = None \<or> \<not> ReplaySafe (cr_failure res) \<or> Budget pol \<le> int (Suc (xl_attempts x)))
     \<and> xr_response r = (if cr_error res = None then cr_response res else None) \<and> xr_error r = cr_error res
     \<and> xr_failure r = cr_failure res \<and> xr_id r = sl_id sel \<and> xr_attempts r = Suc (xl_attempts x)
     \<and> xr_log r = xl_log x @ dial_log (xl_shared x) eg (sl_id sel) res"

lemma dialEgress_next:
  assumes "dialEgress env pol sel eg c x = Inr x'"
  shows "moved env pol x sel eg (call_of env c (Suc (xl_attempts x)) (xl_rec x)) x' \<and> same_wiring (xl_shared x) (xl_shared x')
    \<and> snd (xl_shared x') = snd (releaseSlot (sl_id sel) (xe_others env (2 * ps_next (xl_sel x) + 1) (xl_shared x)))"
proof (cases "cr_error (call_of env c (Suc (xl_attempts x)) (xl_rec x))")
  case None
  then show ?thesis using dialEgress_won [OF None, of pol sel eg] assms by simp
next
  case (Some uerr)
  then show ?thesis using dialEgress_lost [OF Some, of pol sel eg] dialEgress_moved [OF Some, of pol sel eg] assms
    by (cases "ReplaySafe (cr_failure (call_of env c (Suc (xl_attempts x)) (xl_rec x))) \<and> int (Suc (xl_attempts x)) < Budget pol")
       (auto simp: moved_def same_wiring_def)
qed

lemma dialEgress_stop:
  assumes "dialEgress env pol sel eg c x = Inl r"
  shows "settled env pol x sel eg (call_of env c (Suc (xl_attempts x)) (xl_rec x)) r
    \<and> snd (xr_shared r) = (if xr_error r = None then snd (xe_others env (2 * ps_next (xl_sel x) + 1) (xl_shared x))
        else snd (releaseSlot (sl_id sel) (xe_others env (2 * ps_next (xl_sel x) + 1) (xl_shared x))))"
proof (cases "cr_error (call_of env c (Suc (xl_attempts x)) (xl_rec x))")
  case None
  then show ?thesis using dialEgress_won [OF None, of pol sel eg] assms by (auto simp: settled_def)
next
  case (Some uerr)
  then show ?thesis using dialEgress_lost [OF Some, of pol sel eg] dialEgress_moved [OF Some, of pol sel eg] assms
    by (cases "ReplaySafe (cr_failure (call_of env c (Suc (xl_attempts x)) (xl_rec x))) \<and> int (Suc (xl_attempts x)) < Budget pol")
       (auto simp: settled_def)
qed

text \<open>The state a dial starts in: the selection consumed, the others' moves seen, the slot taken.\<close>

definition dial_start :: "exec_env \<Rightarrow> attempt_policy \<Rightarrow> exec_loop \<Rightarrow> selection \<Rightarrow> plan_selector \<Rightarrow> egress \<Rightarrow> client \<Rightarrow> exec_loop \<Rightarrow> bool" where
  "dial_start env pol x sel s' eg c x1 \<longleftrightarrow> (\<exists>sh. sl_egress sel = Some eg \<and> xe_client env eg = Some c
     \<and> acquireSlot (sl_id sel) (gm_count (ap_max_concurrency pol) (sl_id sel)) (xe_others env (2 * ps_next s') (xl_shared x)) = (True, sh)
     \<and> x1 = x\<lparr>xl_sel := s', xl_shared := sh\<rparr>)"

lemma dial_start_wiring: "dial_start env pol x sel s' eg c x1 \<Longrightarrow> same_wiring (xl_shared x) (xl_shared x1)"
  by (auto simp: dial_start_def same_wiring_def dest!: acquireSlot_wiring)

lemma skipEntry_next:
  "skipEntry pol (skipRow i typ itn reason) (x\<lparr>xl_sel := s', xl_shared := sh\<rparr>) = Inr x' \<Longrightarrow>
     xl_sel x' = s' \<and> xl_shared x' = sh \<and> ap_fallback_enabled pol \<and> skipped x i x'"
  "skipEntry pol (skipRow i typ itn reason) (x\<lparr>xl_sel := s'\<rparr>) = Inr x' \<Longrightarrow>
     xl_sel x' = s' \<and> xl_shared x' = xl_shared x \<and> ap_fallback_enabled pol \<and> skipped x i x'"
  by (drule skipEntry_sel, simp add: skipped_def skipRow_def)+

lemma skipEntry_stop:
  "skipEntry pol (skipRow i typ itn reason) (x\<lparr>xl_sel := s', xl_shared := sh\<rparr>) = Inl r \<Longrightarrow>
     \<not> ap_fallback_enabled pol \<and> (\<exists>x'. r = finishPlan x' \<and> skipped x i x' \<and> xl_sel x' = s' \<and> xl_shared x' = sh)"
  "skipEntry pol (skipRow i typ itn reason) (x\<lparr>xl_sel := s'\<rparr>) = Inl r \<Longrightarrow>
     \<not> ap_fallback_enabled pol \<and> (\<exists>x'. r = finishPlan x' \<and> skipped x i x' \<and> xl_sel x' = s' \<and> xl_shared x' = xl_shared x)"
  by (fastforce simp: skipEntry_def skipped_def skipRow_def Let_def split: if_splits)+

lemma acquire_refused: "acquireSlot i cap sh = (False, sh') \<Longrightarrow> sh' = sh"
  by (cases sh) (auto simp: acquireSlot_def Acquire_def split: option.splits if_splits)

lemma execStep_next:
  assumes "execStep env pol x = Inr x'"
  shows "\<exists>sel. Next (xl_intent x) (xl_prev x) (xl_sel x) = ((sel, True), xl_sel x') \<and>
    (ap_fallback_enabled pol \<and> skipped x (sl_id sel) x'
       \<and> xl_shared x' \<in> {xl_shared x, xe_others env (2 * ps_next (xl_sel x')) (xl_shared x)} \<or>
     (\<exists>eg c x1. dial_start env pol x sel (xl_sel x') eg c x1 \<and> dialEgress env pol sel eg c x1 = Inr x'))"
proof -
  obtain sel s' where n: "Next (xl_intent x) (xl_prev x) (xl_sel x) = ((sel, True), s')" and s': "xl_sel x' = s'"
    using execStep_sel [OF assms] by auto
  let ?sh = "xe_others env (2 * ps_next s') (xl_shared x)"
  note step = assms [unfolded execStep_def, simplified n, simplified Let_def, simplified]
  show ?thesis
  proof (cases "sl_egress sel")
    case None
    with step n s' show ?thesis by (auto dest!: skipEntry_next)
  next
    case eg: (Some eg)
    show ?thesis
    proof (cases "xe_client env eg")
      case None
      with eg step n s' show ?thesis by (auto dest!: skipEntry_next)
    next
      case c: (Some c)
      obtain ok sh where a: "acquireSlot (sl_id sel) (gm_count (ap_max_concurrency pol) (sl_id sel)) ?sh = (ok, sh)"
        by (metis surj_pair)
      show ?thesis
      proof (cases ok)
        case True
        with eg c a step have "dialEgress env pol sel eg c (x\<lparr>xl_sel := s', xl_shared := sh\<rparr>) = Inr x'" by simp
        moreover have "dial_start env pol x sel s' eg c (x\<lparr>xl_sel := s', xl_shared := sh\<rparr>)"
          using eg c a True by (auto simp: dial_start_def)
        ultimately show ?thesis using n s' by blast
      next
        case False
        then have "sh = ?sh" using a by (auto dest: acquire_refused)
        with eg c a step n s' False show ?thesis by (auto dest!: skipEntry_next)
      qed
    qed
  qed
qed

lemma execStep_stop:
  assumes "execStep env pol x = Inl r"
  shows "\<exists>sel ok s'. Next (xl_intent x) (xl_prev x) (xl_sel x) = ((sel, ok), s') \<and>
    (\<not> ok \<and> r = finishPlan (x\<lparr>xl_sel := s'\<rparr>) \<or>
     ok \<and> \<not> ap_fallback_enabled pol \<and> (\<exists>x'. r = finishPlan x' \<and> skipped x (sl_id sel) x' \<and> xl_sel x' = s'
       \<and> xl_shared x' \<in> {xl_shared x, xe_others env (2 * ps_next s') (xl_shared x)}) \<or>
     ok \<and> (\<exists>eg c x1. dial_start env pol x sel s' eg c x1 \<and> dialEgress env pol sel eg c x1 = Inl r))"
proof -
  obtain sel ok s' where n: "Next (xl_intent x) (xl_prev x) (xl_sel x) = ((sel, ok), s')"
    by (metis surj_pair)
  let ?sh = "xe_others env (2 * ps_next s') (xl_shared x)"
  note step = assms [unfolded execStep_def, simplified n, simplified Let_def, simplified]
  show ?thesis
  proof (cases "\<not> ok \<or> sl_egress sel = None \<or> xe_client env (the (sl_egress sel)) = None")
    case True
    with step n show ?thesis by (cases ok; cases "sl_egress sel") (auto dest!: skipEntry_stop)
  next
    case False
    then obtain eg c where ok: ok and eg: "sl_egress sel = Some eg" and c: "xe_client env eg = Some c" by auto
    obtain acq sh where a: "acquireSlot (sl_id sel) (gm_count (ap_max_concurrency pol) (sl_id sel)) ?sh = (acq, sh)"
      by (metis surj_pair)
    show ?thesis
    proof (cases acq)
      case True
      with ok eg c a step have "dialEgress env pol sel eg c (x\<lparr>xl_sel := s', xl_shared := sh\<rparr>) = Inl r" by simp
      moreover have "dial_start env pol x sel s' eg c (x\<lparr>xl_sel := s', xl_shared := sh\<rparr>)"
        using eg c a True by (auto simp: dial_start_def)
      ultimately show ?thesis using n ok by blast
    next
      case False
      then have "sh = ?sh" using a by (auto dest: acquire_refused)
      with ok eg c a step n False show ?thesis by (auto dest!: skipEntry_stop)
    qed
  qed
qed

lemma execLoop_inv:
  assumes step: "\<And>x x'. I x \<Longrightarrow> execStep env pol x = Inr x' \<Longrightarrow> I x'"
    and stop: "\<And>x r. I x \<Longrightarrow> execStep env pol x = Inl r \<Longrightarrow> P r"
    and start: "I x"
  shows "P (execLoop env pol x)"
  using start
proof (induction "length (remaining (xl_sel x))" arbitrary: x rule: less_induct)
  case less
  show ?case
  proof (cases "execStep env pol x")
    case (Inl r)
    then show ?thesis using stop [OF less.prems Inl] by (simp add: execLoop.simps)
  next
    case (Inr x')
    have "P (execLoop env pol x')"
      using execStep_sel [OF Inr] step [OF less.prems Inr] by (intro less.hyps) (auto intro: plan_sel.nxt_shrinks)
    then show ?thesis using Inr by (simp add: execLoop.simps [of env pol x])
  qed
qed

section \<open>The history of a request\<close>

fun dials :: "exec_event list \<Rightarrow> (string \<times> call_result) list" where
  "dials [] = []"
| "dials (ExDial i r # es) = (i, r) # dials es"
| "dials (_ # es) = dials es"

fun visited :: "exec_event list \<Rightarrow> string list" where
  "visited [] = []"
| "visited (ExDial i r # es) = i # visited es"
| "visited (ExSkip i reason # es) = i # visited es"
| "visited (_ # es) = visited es"

lemma dials_append [simp]: "dials (xs @ ys) = dials xs @ dials ys"
  by (induction xs rule: dials.induct) simp_all

lemma visited_append [simp]: "visited (xs @ ys) = visited xs @ visited ys"
  by (induction xs rule: visited.induct) simp_all

lemma slot_log_plain [simp]:
  "dials (slot_log sh (ExAcquire i)) = []" "dials (slot_log sh (ExRelease i)) = []"
  "visited (slot_log sh (ExAcquire i)) = []" "visited (slot_log sh (ExRelease i)) = []"
  by (simp_all add: slot_log_def)

lemma dial_log_history [simp]:
  "dials (dial_log sh eg i res) = [(i, res)]" "visited (dial_log sh eg i res) = [i]"
  by (simp_all add: dial_log_def health_log_def)

lemma dials_visited: "set (map fst (dials es)) \<subseteq> set (visited es)"
  by (induction es rule: dials.induct) auto

lemma dials_distinct: "distinct (visited es) \<Longrightarrow> distinct (map fst (dials es))"
  by (induction es rule: visited.induct) (use dials_visited in auto)

section \<open>The invariant of the walk\<close>

text \<open>A dial that was followed by another selection.\<close>

definition left_behind :: "string \<times> call_result \<Rightarrow> bool" where
  "left_behind d \<longleftrightarrow> ReplaySafe (cr_failure (snd d)) \<and> cr_response (snd d) = None \<and> \<not> wrote_ever (cr_events (snd d))
     \<and> Responded \<notin> set (cr_events (snd d)) \<and> length (cr_sent (snd d)) \<le> 1"

definition last_dial :: "exec_event list \<Rightarrow> string \<times> failure \<times> upstream_error option" where
  "last_dial es = (case rev (dials es) of
     [] \<Rightarrow> ([], NoDialFailure, None)
   | (i, r) # _ \<Rightarrow> (i, cr_failure r, cr_error r))"

definition exec_inv :: "attempt_policy \<Rightarrow> exec_loop \<Rightarrow> bool" where
  "exec_inv pol x \<longleftrightarrow> list_all left_behind (dials (xl_log x)) \<and> length (dials (xl_log x)) = xl_attempts x
     \<and> (xl_attempts x = 0 \<or> int (xl_attempts x) < Budget pol)
     \<and> last_dial (xl_log x) = (xl_last_id x, xl_last_failure x, xl_last_err x)
     \<and> (xl_attempts x = 0) = (xl_last_err x = None)"

lemma last_dial_dial [simp]: "last_dial (es @ dial_log sh eg i res) = (i, cr_failure res, cr_error res)"
  by (simp add: last_dial_def)

lemma last_dial_skip [simp]: "last_dial (es @ [ExSkip i reason]) = last_dial es"
  by (simp add: last_dial_def)

lemma call_left_behind: "ReplaySafe (cr_failure (call_of env c n rec)) \<Longrightarrow> left_behind (i, call_of env c n rec)"
  unfolding call_of_def left_behind_def using call_moved_on by (metis snd_conv)

lemma exec_inv_skip: "exec_inv pol x \<Longrightarrow> skipped x i x' \<Longrightarrow> exec_inv pol x'"
  by (auto simp: exec_inv_def skipped_def)

lemma exec_inv_start: "exec_inv pol x \<Longrightarrow> dial_start env pol x sel s' eg c x1 \<Longrightarrow> exec_inv pol x1"
  by (auto simp: exec_inv_def dial_start_def)

lemma exec_inv_moved:
  "exec_inv pol x \<Longrightarrow> moved env pol x sel eg (call_of env c n rec) x' \<Longrightarrow> exec_inv pol x'"
  by (auto simp: exec_inv_def moved_def call_left_behind)

lemma exec_inv_next:
  assumes "exec_inv pol x" and "execStep env pol x = Inr x'"
  shows "exec_inv pol x'"
  using execStep_next [OF assms(2)] exec_inv_skip [OF assms(1)] exec_inv_start [OF assms(1)]
  by (meson dialEgress_next exec_inv_moved)

text \<open>What the caller gets back, by the last dial of the history.\<close>

definition verdict_ok :: "exec_result \<Rightarrow> bool" where
  "verdict_ok r \<longleftrightarrow> (case rev (dials (xr_log r)) of
     [] \<Rightarrow> xr_response r = None \<and> xr_failure r = NoDialFailure \<and> xr_id r = [] \<and> xr_attempts r = 0
          \<and> xr_error r = Some \<lparr>ue_status = 502, ue_message = ''none of the eligible egresses could serve the request''\<rparr>
   | (i, d) # _ \<Rightarrow> xr_id r = i \<and> xr_failure r = cr_failure d \<and> xr_error r = cr_error d
          \<and> xr_response r = (if cr_error d = None then cr_response d else None))"

definition history_ok :: "attempt_policy \<Rightarrow> exec_result \<Rightarrow> bool" where
  "history_ok pol r \<longleftrightarrow> list_all left_behind (butlast (dials (xr_log r))) \<and> length (dials (xr_log r)) = xr_attempts r
     \<and> int (xr_attempts r) \<le> Budget pol \<and> verdict_ok r"

lemma Budget_pos: "1 \<le> Budget pol"
  by (simp add: Budget_def)

lemma finishPlan_ok: "exec_inv pol x \<Longrightarrow> history_ok pol (finishPlan x)"
  using Budget_pos [of pol]
  by (cases "rev (dials (xl_log x))"; cases "xl_last_err x")
     (auto simp: history_ok_def verdict_ok_def finishPlan_def exec_inv_def last_dial_def list_all_iff dest: in_set_butlastD)

lemma settled_ok: "exec_inv pol x \<Longrightarrow> settled env pol x sel eg res r \<Longrightarrow> history_ok pol r"
  using Budget_pos [of pol]
  by (auto simp: history_ok_def verdict_ok_def settled_def exec_inv_def butlast_append)

lemma exec_inv_stop:
  assumes "exec_inv pol x" and "execStep env pol x = Inl r"
  shows "history_ok pol r"
proof -
  have f: "exec_inv pol (x\<lparr>xl_sel := s'\<rparr>)" for s' using assms(1) by (auto simp: exec_inv_def)
  show ?thesis
    using execStep_stop [OF assms(2)] exec_inv_skip [OF assms(1)] exec_inv_start [OF assms(1)] f
    by (meson dialEgress_stop settled_ok finishPlan_ok)
qed

definition exec_start :: "route_plan \<Rightarrow> shared \<Rightarrow> recorder \<Rightarrow> exec_loop" where
  "exec_start plan sh rec =
     \<lparr>xl_sel = NewPlanSelector plan, xl_intent = IntentNormal, xl_prev = zeroSelection, xl_attempts = 0,
      xl_last_id = [], xl_last_failure = NoDialFailure, xl_last_err = None, xl_terminal = -1,
      xl_shared = sh, xl_rec = rec, xl_log = []\<rparr>"

lemma ExecuteObserved_start: "ExecuteObserved env plan pol sh rec = execLoop env pol (exec_start plan sh rec)"
  by (simp add: ExecuteObserved_def exec_start_def)

lemma exec_history: "history_ok pol (ExecuteObserved env plan pol sh rec)"
  unfolding ExecuteObserved_start
proof (rule execLoop_inv [where I = "exec_inv pol"])
  show "exec_inv pol (exec_start plan sh rec)" by (simp add: exec_inv_def exec_start_def last_dial_def)
qed (blast intro: exec_inv_next exec_inv_stop)+

section \<open>How far the plan was walked\<close>

definition cover_inv :: "route_plan \<Rightarrow> exec_loop \<Rightarrow> bool" where
  "cover_inv plan x \<longleftrightarrow> ps_plan (xl_sel x) = plan \<and> visited (xl_log x) @ remaining (xl_sel x) = pl_attempts plan
     \<and> (sl_valid (xl_prev x) \<longrightarrow> sl_id (xl_prev x) \<in> set (visited (xl_log x)))"

text \<open>The request was free to go on: fallback is on, the budget is not spent, the last dial may be repeated.\<close>

definition may_go_on :: "attempt_policy \<Rightarrow> exec_result \<Rightarrow> bool" where
  "may_go_on pol r \<longleftrightarrow> ap_fallback_enabled pol \<and> int (xr_attempts r) < Budget pol
     \<and> (case rev (dials (xr_log r)) of [] \<Rightarrow> True | d # _ \<Rightarrow> cr_error (snd d) \<noteq> None \<and> ReplaySafe (cr_failure (snd d)))"

definition covered :: "attempt_policy \<Rightarrow> route_plan \<Rightarrow> exec_result \<Rightarrow> bool" where
  "covered pol plan r \<longleftrightarrow> (\<exists>rest. visited (xr_log r) @ rest = pl_attempts plan)
     \<and> (may_go_on pol r \<longrightarrow> visited (xr_log r) = pl_attempts plan)"

lemma cover_fresh:
  assumes "distinct (pl_attempts plan)" and "cover_inv plan x"
  shows "sl_valid (xl_prev x) \<longrightarrow> sl_id (xl_prev x) \<notin> set (remaining (xl_sel x))"
proof -
  have "visited (xl_log x) @ remaining (xl_sel x) = pl_attempts plan" using assms(2) by (simp add: cover_inv_def)
  then have "distinct (visited (xl_log x) @ remaining (xl_sel x))" using assms(1) by simp
  then show ?thesis using assms(2) by (auto simp: cover_inv_def)
qed

lemma cover_inv_next:
  assumes "distinct (pl_attempts plan)" and "cover_inv plan x" and "execStep env pol x = Inr x'"
  shows "cover_inv plan x'"
proof -
  obtain sel where n: "Next (xl_intent x) (xl_prev x) (xl_sel x) = ((sel, True), xl_sel x')"
    and d: "ap_fallback_enabled pol \<and> skipped x (sl_id sel) x' \<or>
      (\<exists>eg c x1. dial_start env pol x sel (xl_sel x') eg c x1 \<and> dialEgress env pol sel eg c x1 = Inr x')"
    using execStep_next [OF assms(3)] by blast
  have r: "remaining (xl_sel x) = sl_id sel # remaining (xl_sel x')"
    by (rule plan_sel.nxt_exact [OF n cover_fresh [OF assms(1,2)]])
  from d show ?thesis
  proof (elim disjE exE conjE)
    assume "skipped x (sl_id sel) x'"
    then show ?thesis using assms(2) r Next_plan [OF n] by (auto simp: cover_inv_def skipped_def)
  next
    fix eg c x1 assume "dial_start env pol x sel (xl_sel x') eg c x1" and "dialEgress env pol sel eg c x1 = Inr x'"
    then show ?thesis using assms(2) r Next_plan [OF n] dialEgress_next [of env pol sel eg c x1 x']
      by (auto simp: cover_inv_def dial_start_def moved_def)
  qed
qed

lemma finishPlan_log [simp]:
  "xr_log (finishPlan x) = xl_log x" "xr_attempts (finishPlan x) = xl_attempts x" "xr_shared (finishPlan x) = xl_shared x"
  "xr_response (finishPlan x) = None" "xr_error (finishPlan x) \<noteq> None"
  by (simp_all add: finishPlan_def split: option.splits)

lemma cover_stop:
  assumes "distinct (pl_attempts plan)" and "cover_inv plan x" and "execStep env pol x = Inl r"
  shows "covered pol plan r"
proof -
  obtain sel ok s' where n: "Next (xl_intent x) (xl_prev x) (xl_sel x) = ((sel, ok), s')"
    and d: "\<not> ok \<and> r = finishPlan (x\<lparr>xl_sel := s'\<rparr>) \<or>
      ok \<and> \<not> ap_fallback_enabled pol \<and> (\<exists>x'. r = finishPlan x' \<and> skipped x (sl_id sel) x') \<or>
      ok \<and> (\<exists>eg c x1. dial_start env pol x sel s' eg c x1 \<and> dialEgress env pol sel eg c x1 = Inl r)"
    using execStep_stop [OF assms(3)] by blast
  note fresh = cover_fresh [OF assms(1,2)]
  have v: "visited (xl_log x) @ remaining (xl_sel x) = pl_attempts plan" using assms(2) by (simp add: cover_inv_def)
  have more: "remaining (xl_sel x) = sl_id sel # remaining s'" if ok
    using plan_sel.nxt_exact [of _ _ _ sel s', OF _ fresh] n that by simp
  from d show ?thesis
  proof (elim disjE exE conjE)
    assume "\<not> ok" and r: "r = finishPlan (x\<lparr>xl_sel := s'\<rparr>)"
    then have "remaining (xl_sel x) = []" using plan_sel.nxt_exhausted [of _ _ _ sel s', OF _ fresh] n by simp
    with v r show ?thesis by (simp add: covered_def)
  next
    fix x' assume ok "\<not> ap_fallback_enabled pol" "r = finishPlan x'" "skipped x (sl_id sel) x'"
    then show ?thesis using v more by (auto simp: covered_def may_go_on_def skipped_def)
  next
    fix eg c x1 assume ok and "dial_start env pol x sel s' eg c x1" and "dialEgress env pol sel eg c x1 = Inl r"
    then show ?thesis using v more dialEgress_stop [of env pol sel eg c x1 r]
      by (auto simp: covered_def may_go_on_def settled_def dial_start_def)
  qed
qed

lemma exec_covered: "distinct (pl_attempts plan) \<Longrightarrow> covered pol plan (ExecuteObserved env plan pol sh rec)"
  unfolding ExecuteObserved_start
proof (rule execLoop_inv [where I = "cover_inv plan"])
  show "cover_inv plan (exec_start plan sh rec)"
    by (simp add: cover_inv_def exec_start_def zeroSelection_def) (simp add: NewPlanSelector_def)
qed (blast intro: cover_inv_next cover_stop)+

section \<open>Slots\<close>

text \<open>
  Between two moves of this request the others take and free slots of their own: \<open>S k\<close> is what they may hold before the
  step \<open>k\<close> of theirs, with the caps they hold it under. In the turn of the plan's entry \<open>k\<close> they move once before this
  request asks for the slot and once while it dials with the slot held; a turn that is refused, or that fails before it
  asks, leaves the second or both of these out. All of them read one cap per egress.
\<close>

definition slot_holds :: "(string \<Rightarrow> int) \<Rightarrow> limiter \<Rightarrow> (string \<times> int) multiset \<Rightarrow> bool" where
  "slot_holds cap_of l H \<longleftrightarrow> lim_inv cap_of (l, H)"

definition slot_traffic :: "(string \<Rightarrow> int) \<Rightarrow> string list \<Rightarrow> exec_env \<Rightarrow> (nat \<Rightarrow> (string \<times> int) multiset set) \<Rightarrow> bool" where
  "slot_traffic cap_of ids env S \<longleftrightarrow> along S \<and> (\<forall>k < length ids.
     interferes (slot_holds cap_of) {#} (S (2 * k + 2)) (xe_slots env (2 * k + 2)) (S (2 * k + 3)) \<and>
     interferes (slot_holds cap_of) {#(ids ! k, cap_of (ids ! k))#} (S (2 * k + 3)) (xe_slots env (2 * k + 3)) (S (2 * k + 4)))"

definition slots_held :: "(string \<Rightarrow> int) \<Rightarrow> (string \<times> int) multiset \<Rightarrow> shared \<Rightarrow> bool" where
  "slots_held cap_of H sh \<longleftrightarrow> (\<exists>l. snd sh = Some l \<and> lim_inv cap_of (l, H))"

definition slots_after :: "(string \<Rightarrow> int) \<Rightarrow> (nat \<Rightarrow> (string \<times> int) multiset set) \<Rightarrow> exec_result \<Rightarrow> bool" where
  "slots_after cap_of S r \<longleftrightarrow> (\<exists>k. \<exists>H \<in> S k. slots_held cap_of
     (if xr_error r = None then add_mset (xr_id r, cap_of (xr_id r)) H else H) (xr_shared r))"

definition slots_inv :: "(string \<Rightarrow> int) \<Rightarrow> route_plan \<Rightarrow> (nat \<Rightarrow> (string \<times> int) multiset set) \<Rightarrow> exec_loop \<Rightarrow> bool" where
  "slots_inv cap_of plan S x \<longleftrightarrow> ps_plan (xl_sel x) = plan \<and>
     (\<exists>H \<in> S (2 * ps_next (xl_sel x) + 2). slots_held cap_of H (xl_shared x))"

lemma slots_others:
  assumes "interferes (slot_holds cap_of) M A (xe_slots env k) B" and "H \<in> A" and "slots_held cap_of (M + H) sh"
  shows "\<exists>H' \<in> B. slots_held cap_of (M + H') (xe_others env k sh)"
  using assms by (fastforce simp: interferes_def slots_held_def slot_holds_def xe_others_def)

lemma slots_acquire:
  "slots_held cap_of H sh \<Longrightarrow> acquireSlot i (cap_of i) sh = (True, sh') \<Longrightarrow> slots_held cap_of (add_mset (i, cap_of i) H) sh'"
  by (auto simp: slots_held_def acquireSlot_def lim_inv_acquire split: prod.splits)

lemma slots_release:
  assumes "slots_held cap_of (add_mset (i, cap_of i) H) sh"
  shows "slots_held cap_of H (releaseSlot i sh)"
  using assms lim_inv_release [of cap_of _ "add_mset (i, cap_of i) H" i "cap_of i"]
  by (auto simp: slots_held_def releaseSlot_def)

text \<open>A turn is the turn of an entry of the plan, later than the ones before.\<close>

lemma turn_entry:
  assumes "Next i prev s = ((sel, True), s')"
  shows "\<exists>k < length (pl_attempts (ps_plan s)). ps_next s' = Suc k \<and> sl_id sel = pl_attempts (ps_plan s) ! k \<and> ps_next s < Suc k"
proof -
  have "0 < ps_next s'" "ps_next s' \<le> length (pl_attempts (ps_plan s))"
    using nextLoop_offer assms by (auto simp: Next_loop)
  then show ?thesis using Next_entry [OF assms] Next_grows [OF assms] by (intro exI [of _ "ps_next s' - 1"]) auto
qed

lemma slots_turn:
  assumes "slot_traffic cap_of (pl_attempts plan) env S" and "slots_inv cap_of plan S x"
    and "Next i prev (xl_sel x) = ((sel, True), s')"
  shows "(\<exists>H \<in> S (2 * ps_next s' + 2). slots_held cap_of H (xl_shared x)) \<and>
    (\<exists>H \<in> S (2 * ps_next s' + 1). slots_held cap_of H (xe_others env (2 * ps_next s') (xl_shared x)))"
proof -
  have al: "along S" using assms(1) by (simp add: slot_traffic_def)
  obtain k where k: "k < length (pl_attempts plan)" "ps_next s' = Suc k" "ps_next (xl_sel x) < Suc k"
    using turn_entry [OF assms(3)] assms(2) by (auto simp: slots_inv_def)
  obtain H where H: "H \<in> S (2 * ps_next (xl_sel x) + 2)" "slots_held cap_of H (xl_shared x)"
    using assms(2) by (auto simp: slots_inv_def)
  have "H \<in> S (2 * k + 2)" using along_next [OF al k(3)] H(1) by auto
  moreover have "S (2 * k + 2) \<subseteq> S (2 * k + 4)" using along_turns [OF al, of "Suc k" "Suc (Suc k)"] by (simp add: numeral_eq_Suc)
  moreover have "interferes (slot_holds cap_of) {#} (S (2 * k + 2)) (xe_slots env (2 * k + 2)) (S (2 * k + 3))"
    using assms(1) k(1) by (simp add: slot_traffic_def)
  ultimately show ?thesis using slots_others [of cap_of "{#}" "S (2 * k + 2)" env "2 * k + 2" "S (2 * k + 3)" H] H(2) k(2)
    by (auto simp: numeral_eq_Suc)
qed

lemma slots_start:
  assumes "slot_traffic cap_of (pl_attempts plan) env S" and "\<forall>i. gm_count (ap_max_concurrency pol) i = cap_of i"
    and "slots_inv cap_of plan S x" and "Next i prev (xl_sel x) = ((sel, True), s')" and "dial_start env pol x sel s' eg c x1"
  shows "xl_sel x1 = s' \<and> ps_plan s' = plan \<and>
    (\<exists>H \<in> S (2 * ps_next s' + 2). slots_held cap_of (add_mset (sl_id sel, cap_of (sl_id sel)) H) (xe_others env (2 * ps_next s' + 1) (xl_shared x1)))"
proof -
  obtain k where k: "k < length (pl_attempts plan)" "ps_next s' = Suc k" "sl_id sel = pl_attempts plan ! k"
    using turn_entry [OF assms(4)] assms(3) by (auto simp: slots_inv_def)
  obtain H where H: "H \<in> S (2 * ps_next s' + 1)" "slots_held cap_of H (xe_others env (2 * ps_next s') (xl_shared x))"
    using slots_turn [OF assms(1,3,4)] by blast
  have "slots_held cap_of (add_mset (sl_id sel, cap_of (sl_id sel)) H) (xl_shared x1)"
    using assms(2,5) slots_acquire [OF H(2)] by (auto simp: dial_start_def)
  then have h: "slots_held cap_of ({#(pl_attempts plan ! k, cap_of (pl_attempts plan ! k))#} + H) (xl_shared x1)" by (simp add: k(3))
  have "interferes (slot_holds cap_of) {#(pl_attempts plan ! k, cap_of (pl_attempts plan ! k))#} (S (2 * k + 3)) (xe_slots env (2 * k + 3)) (S (2 * k + 4))"
    using assms(1) k(1) by (simp add: slot_traffic_def)
  from slots_others [OF this _ h] have "\<exists>H' \<in> S (2 * k + 4). slots_held cap_of
      ({#(pl_attempts plan ! k, cap_of (pl_attempts plan ! k))#} + H') (xe_others env (2 * k + 3) (xl_shared x1))"
    using H(1) by (simp add: k(2) numeral_eq_Suc)
  moreover have "xl_sel x1 = s'" "ps_plan s' = plan" using assms(3,5) Next_plan [OF assms(4)] by (auto simp: dial_start_def slots_inv_def)
  ultimately show ?thesis by (simp add: k(2,3) numeral_eq_Suc)
qed

lemma slots_held_cong: "snd sh = snd sh' \<Longrightarrow> slots_held cap_of H sh = slots_held cap_of H sh'"
  by (simp add: slots_held_def)

lemma slots_later:
  assumes "slot_traffic cap_of (pl_attempts plan) env S" and "slots_inv cap_of plan S x"
    and "Next i prev (xl_sel x) = ((sel, True), s')" and "sh \<in> {xl_shared x, xe_others env (2 * ps_next s') (xl_shared x)}"
  shows "\<exists>H \<in> S (2 * ps_next s' + 2). slots_held cap_of H sh"
proof -
  have "S (2 * ps_next s' + 1) \<subseteq> S (2 * ps_next s' + 2)" using assms(1) along_refused unfolding slot_traffic_def by blast
  then show ?thesis using slots_turn [OF assms(1-3)] assms(4) by blast
qed

lemma slots_next:
  assumes "slot_traffic cap_of (pl_attempts plan) env S" and "\<forall>i. gm_count (ap_max_concurrency pol) i = cap_of i"
    and "slots_inv cap_of plan S x" and "execStep env pol x = Inr x'"
  shows "slots_inv cap_of plan S x'"
  using execStep_next [OF assms(4)]
proof (elim exE conjE disjE)
  fix sel assume n: "Next (xl_intent x) (xl_prev x) (xl_sel x) = ((sel, True), xl_sel x')"
    and "xl_shared x' \<in> {xl_shared x, xe_others env (2 * ps_next (xl_sel x')) (xl_shared x)}"
  from slots_later [OF assms(1,3) this] show ?thesis using assms(3) Next_plan [OF n] by (simp add: slots_inv_def)
next
  fix sel eg c x1 assume n: "Next (xl_intent x) (xl_prev x) (xl_sel x) = ((sel, True), xl_sel x')"
    and d: "dial_start env pol x sel (xl_sel x') eg c x1" and g: "dialEgress env pol sel eg c x1 = Inr x'"
  have g': "xl_sel x' = xl_sel x1" "snd (xl_shared x') = snd (releaseSlot (sl_id sel) (xe_others env (2 * ps_next (xl_sel x1) + 1) (xl_shared x1)))"
    using dialEgress_next [OF g] dialEgress_sel [OF g] by blast+
  obtain H where st: "xl_sel x1 = xl_sel x'" "ps_plan (xl_sel x') = plan" "H \<in> S (2 * ps_next (xl_sel x') + 2)"
      "slots_held cap_of (add_mset (sl_id sel, cap_of (sl_id sel)) H) (xe_others env (2 * ps_next (xl_sel x') + 1) (xl_shared x1))"
    using slots_start [OF assms(1-3) n d] by metis
  from slots_release [OF st(4)] slots_held_cong [OF g'(2)] have "slots_held cap_of H (xl_shared x')" by (simp only: st(1))
  with st(2,3) show ?thesis unfolding slots_inv_def by blast
qed

lemma slots_stop:
  assumes "slot_traffic cap_of (pl_attempts plan) env S" and "\<forall>i. gm_count (ap_max_concurrency pol) i = cap_of i"
    and "slots_inv cap_of plan S x" and "execStep env pol x = Inl r"
  shows "slots_after cap_of S r"
  using execStep_stop [OF assms(4)]
proof (elim exE conjE disjE)
  fix sel ok s' x' assume n: "Next (xl_intent x) (xl_prev x) (xl_sel x) = ((sel, ok), s')" and ok and "r = finishPlan x'"
    and s: "xl_shared x' \<in> {xl_shared x, xe_others env (2 * ps_next s') (xl_shared x)}"
  then have "\<exists>H \<in> S (2 * ps_next s' + 2). slots_held cap_of H (xl_shared x')" using slots_later [OF assms(1,3) _ s] n by simp
  then show ?thesis using \<open>r = finishPlan x'\<close> by (simp add: slots_after_def del: not_None_eq add_2_eq_Suc add_2_eq_Suc') blast
next
  fix sel ok s' eg c x1 assume n: "Next (xl_intent x) (xl_prev x) (xl_sel x) = ((sel, ok), s')" and ok
    and s: "dial_start env pol x sel s' eg c x1" and d: "dialEgress env pol sel eg c x1 = Inl r"
  obtain H where H: "H \<in> S (2 * ps_next s' + 2)"
      "slots_held cap_of (add_mset (sl_id sel, cap_of (sl_id sel)) H) (xe_others env (2 * ps_next (xl_sel x1) + 1) (xl_shared x1))"
  proof -
    have "Next (xl_intent x) (xl_prev x) (xl_sel x) = ((sel, True), s')" using n \<open>ok\<close> by simp
    from slots_start [OF assms(1-3) this s] that show ?thesis by metis
  qed
  have i: "xr_id r = sl_id sel" using dialEgress_stop [OF d] by (simp add: settled_def)
  show ?thesis
  proof (cases "xr_error r")
    case None
    then have "snd (xr_shared r) = snd (xe_others env (2 * ps_next (xl_sel x1) + 1) (xl_shared x1))"
      using dialEgress_stop [OF d] by simp
    from slots_held_cong [OF this] show ?thesis using H i None by (auto simp: slots_after_def)
  next
    case (Some e)
    then have "snd (xr_shared r) = snd (releaseSlot (sl_id sel) (xe_others env (2 * ps_next (xl_sel x1) + 1) (xl_shared x1)))"
      using dialEgress_stop [OF d] by simp
    from slots_held_cong [OF this] show ?thesis using slots_release [OF H(2)] H(1) Some by (auto simp: slots_after_def)
  qed
qed (use assms(3) in \<open>auto simp: slots_after_def slots_inv_def simp del: not_None_eq\<close>)

lemma exec_slots:
  assumes "slot_traffic cap_of (pl_attempts plan) env S" and "\<forall>i. gm_count (ap_max_concurrency pol) i = cap_of i"
    and "slots_held cap_of H sh" and "H \<in> S 0"
  shows "slots_after cap_of S (ExecuteObserved env plan pol sh rec)"
  unfolding ExecuteObserved_start
proof (rule execLoop_inv [where I = "slots_inv cap_of plan S"])
  have "S 0 \<subseteq> S (Suc (Suc 0))" using along_turns [of S 0 1] assms(1) by (simp add: slot_traffic_def numeral_eq_Suc)
  then show "slots_inv cap_of plan S (exec_start plan sh rec)"
    using assms(3,4) by (auto simp: slots_inv_def exec_start_def NewPlanSelector_def)
qed (blast intro: slots_next [OF assms(1,2)] slots_stop [OF assms(1,2)])+

section \<open>Health\<close>

text \<open>What one dial tells the registry.\<close>

definition tell :: "exec_env \<Rightarrow> attempt_policy \<Rightarrow> (string \<Rightarrow> egress option) \<Rightarrow> nat \<times> string \<times> call_result \<Rightarrow> registry \<Rightarrow> registry" where
  "tell env pol look d reg = (case d of (n, i, res) \<Rightarrow> (case look i of
     None \<Rightarrow> reg
   | Some eg \<Rightarrow>
       if cr_error res = None then Observe (HealthKey eg) True (ap_health_policy pol) (xe_now1 env n) (xe_now2 env n) reg
       else if MarksEgressHealth (cr_failure res)
       then Observe (HealthKey eg) False (ap_health_policy pol) (xe_now1 env n) (xe_now2 env n) reg
       else reg))"

definition told :: "exec_env \<Rightarrow> attempt_policy \<Rightarrow> (string \<Rightarrow> egress option) \<Rightarrow> exec_event list \<Rightarrow> registry \<Rightarrow> registry" where
  "told env pol look es reg = fold (tell env pol look) (enumerate 1 (dials es)) reg"

lemma told_dial: "told env pol look (es @ dial_log sh eg i res) reg =
    tell env pol look (Suc (length (dials es)), i, res) (told env pol look es reg)"
  by (simp add: told_def enumerate_append_eq)

lemma told_skip: "told env pol look (es @ [ExSkip i reason]) reg = told env pol look es reg"
  by (simp add: told_def)

lemma dialEgress_reg:
  assumes "look (sl_id sel) = Some eg"
  shows "(case dialEgress env pol sel eg c x of Inl r \<Rightarrow> fst (xr_shared r) | Inr x' \<Rightarrow> fst (xl_shared x')) =
     map_option (tell env pol look (Suc (xl_attempts x), sl_id sel, call_of env c (Suc (xl_attempts x)) (xl_rec x)))
       (fst (xe_others env (2 * ps_next (xl_sel x) + 1) (xl_shared x)))" (is "?L = ?R")
proof (cases "fst (xl_shared x)")
  case None
  then show ?thesis
    by (cases "cr_error (call_of env c (Suc (xl_attempts x)) (xl_rec x))")
       (simp_all add: dialEgress_def call_of_def Let_def split_beta xe_others_def releaseSlot_def)
next
  case (Some reg)
  then show ?thesis
    using assms
    by (cases "cr_error (call_of env c (Suc (xl_attempts x)) (xl_rec x))";
        cases "MarksEgressHealth (cr_failure (call_of env c (Suc (xl_attempts x)) (xl_rec x)))")
       (simp_all add: dialEgress_def call_of_def Let_def split_beta tell_def observeHealth_def xe_others_def releaseSlot_def)
qed

definition health_inv :: "exec_env \<Rightarrow> attempt_policy \<Rightarrow> route_plan \<Rightarrow> (string \<Rightarrow> egress option) \<Rightarrow> registry \<Rightarrow> exec_loop \<Rightarrow> bool" where
  "health_inv env pol plan look reg x \<longleftrightarrow> ps_plan (xl_sel x) = plan \<and> xl_attempts x = length (dials (xl_log x))
     \<and> fst (xl_shared x) = Some (told env pol look (xl_log x) reg)"

lemma others_quiet: "\<forall>k r. xe_reg env k r = r \<Longrightarrow> fst (xe_others env k sh) = fst sh"
  by (cases "fst sh") (simp_all add: xe_others_def)

lemma acquireSlot_fst: "acquireSlot i cap sh = (ok, sh') \<Longrightarrow> fst sh' = fst sh"
  by (auto simp: acquireSlot_def split: option.splits prod.splits)

lemma health_dial:
  assumes "\<forall>k r. xe_reg env k r = r" and "pl_egresses plan = map look (pl_attempts plan)"
    and "health_inv env pol plan look reg x" and "Next (xl_intent x) (xl_prev x) (xl_sel x) = ((sel, True), s')"
    and "dial_start env pol x sel s' eg c x1"
  shows "(case dialEgress env pol sel eg c x1 of Inl r \<Rightarrow> fst (xr_shared r) | Inr x' \<Rightarrow> fst (xl_shared x')) =
     Some (told env pol look (xl_log x1 @ dial_log (xl_shared x1) eg (sl_id sel) (call_of env c (Suc (xl_attempts x1)) (xl_rec x1))) reg)"
proof -
  have "look (sl_id sel) = Some eg"
    using Next_pinned [OF assms(4), of look] assms(2,3,5) by (auto simp: health_inv_def dial_start_def)
  moreover have "fst (xl_shared x1) = Some (told env pol look (xl_log x1) reg)" "xl_attempts x1 = length (dials (xl_log x1))"
    using assms(3,5) by (auto simp: health_inv_def dial_start_def others_quiet [OF assms(1)] dest!: acquireSlot_fst)
  ultimately show ?thesis
    using dialEgress_reg [of look sel eg env pol c x1] by (simp add: told_dial others_quiet [OF assms(1)])
qed

lemma health_next:
  assumes "\<forall>k r. xe_reg env k r = r" and "pl_egresses plan = map look (pl_attempts plan)"
    and "health_inv env pol plan look reg x" and "execStep env pol x = Inr x'"
  shows "health_inv env pol plan look reg x'"
  using execStep_next [OF assms(4)]
proof (elim exE conjE disjE)
  fix sel assume n: "Next (xl_intent x) (xl_prev x) (xl_sel x) = ((sel, True), xl_sel x')"
    and s: "skipped x (sl_id sel) x'" "xl_shared x' \<in> {xl_shared x, xe_others env (2 * ps_next (xl_sel x')) (xl_shared x)}"
  have "fst (xl_shared x') = fst (xl_shared x)" using s(2) by (auto simp: others_quiet [OF assms(1)])
  then show ?thesis using assms(3) s(1) Next_plan [OF n] by (auto simp: health_inv_def skipped_def told_skip)
next
  fix sel eg c x1 assume n: "Next (xl_intent x) (xl_prev x) (xl_sel x) = ((sel, True), xl_sel x')"
    and s: "dial_start env pol x sel (xl_sel x') eg c x1" and d: "dialEgress env pol sel eg c x1 = Inr x'"
  show ?thesis using health_dial [OF assms(1-3) n s] dialEgress_next [OF d] d assms(3) s Next_plan [OF n]
    by (auto simp: health_inv_def moved_def dial_start_def)
qed

lemma health_stop:
  assumes "\<forall>k r. xe_reg env k r = r" and "pl_egresses plan = map look (pl_attempts plan)"
    and "health_inv env pol plan look reg x" and "execStep env pol x = Inl r"
  shows "fst (xr_shared r) = Some (told env pol look (xr_log r) reg)"
  using execStep_stop [OF assms(4)]
proof (elim exE conjE disjE)
  fix sel s' x' assume "r = finishPlan x'"
    and s: "skipped x (sl_id sel) x'" "xl_shared x' \<in> {xl_shared x, xe_others env (2 * ps_next s') (xl_shared x)}"
  moreover have "fst (xl_shared x') = fst (xl_shared x)" using s(2) by (auto simp: others_quiet [OF assms(1)])
  ultimately show ?thesis using assms(3) by (auto simp: health_inv_def skipped_def told_skip)
next
  fix sel ok s' eg c x1 assume n: "Next (xl_intent x) (xl_prev x) (xl_sel x) = ((sel, ok), s')" and ok
    and s: "dial_start env pol x sel s' eg c x1" and d: "dialEgress env pol sel eg c x1 = Inl r"
  then show ?thesis using health_dial [OF assms(1-3) _ s] dialEgress_stop [OF d] d by (auto simp: settled_def)
qed (use assms(3) in \<open>auto simp: health_inv_def\<close>)

lemma exec_health:
  assumes "\<forall>k r. xe_reg env k r = r" and "pl_egresses plan = map look (pl_attempts plan)" and "fst sh = Some reg"
  shows "fst (xr_shared (ExecuteObserved env plan pol sh rec)) =
     Some (told env pol look (xr_log (ExecuteObserved env plan pol sh rec)) reg)"
  unfolding ExecuteObserved_start
proof (rule execLoop_inv [where I = "health_inv env pol plan look reg"])
  show "health_inv env pol plan look reg (exec_start plan sh rec)"
    using assms(3) by (simp add: health_inv_def exec_start_def told_def NewPlanSelector_def)
qed (blast intro: health_next [OF assms(1,2)] health_stop [OF assms(1,2)])+

section \<open>Closing the body\<close>

text \<open>The relay closes the body of a live response any number of times.\<close>

fun closeBodies :: "nat \<Rightarrow> slot_body \<Rightarrow> limiter \<Rightarrow> limiter \<times> body_event list" where
  "closeBodies 0 b l = (l, [])"
| "closeBodies (Suc n) b l = (case CloseBody b l of (b', l', es) \<Rightarrow>
     (case closeBodies n b' l' of (l'', es') \<Rightarrow> (l'', es @ es')))"

lemma closeBodies_freed: "sb_freed b \<Longrightarrow> closeBodies n b l = (l, replicate n ConnClosed)"
  by (induction n) (simp_all add: CloseBody_def)

lemma closeBodies_once:
  "\<not> sb_freed b \<Longrightarrow> closeBodies (Suc n) b l = (Release (sb_id b) l, ConnClosed # SlotFreed (sb_id b) # replicate n ConnClosed)"
  by (simp add: CloseBody_def closeBodies_freed)

section \<open>A sample request\<close>

definition sample_look :: "string \<Rightarrow> egress option" where
  "sample_look i = (if i = ''a'' then Some (direct_egress\<lparr>e_id := ''a''\<rparr>)
     else if i = ''b'' then Some (direct_egress\<lparr>e_id := ''b''\<rparr>) else None)"

definition sample_plan :: route_plan where
  "sample_plan = \<lparr>pl_route_id = ''r'', pl_strategy = [], pl_attempts = [''a'', ''b''],
     pl_egresses = map sample_look [''a'', ''b'']\<rparr>"

definition sample_env :: exec_env where
  "sample_env = \<lparr>xe_client = (\<lambda>_. Some sample_client), xe_world = (\<lambda>_. sample_world refusing), xe_headers = (\<lambda>_. []),
     xe_dur = (\<lambda>_. 0), xe_now1 = int, xe_now2 = int, xe_reg = (\<lambda>_ r. r), xe_slots = (\<lambda>_ l. l),
     xe_target = ''https://api.x/a'', xe_body = Some ''{}''\<rparr>"

definition sample_pol :: attempt_policy where
  "sample_pol = \<lparr>ap_fallback_enabled = True, ap_max_attempts = 3, ap_max_concurrency = [(''a'', 1)],
     ap_health_policy = \<lparr>hp_enabled = True, hp_threshold = 1, hp_cooldown = 10\<rparr>\<rparr>"

definition sample_shared :: shared where
  "sample_shared = (Some New, Some NewLimiter)"

lemma sample_distinct: "distinct (pl_attempts sample_plan)"
  by (simp add: sample_plan_def)

text \<open>The same request while another one, of the same egress and cap, still holds its slot and frees it just in time.\<close>

definition busy_env :: exec_env where
  "busy_env = sample_env\<lparr>xe_slots := (\<lambda>k. if k = 2 then Release ''a'' else (\<lambda>l. l))\<rparr>"

definition busy_shared :: shared where
  "busy_shared = (Some New, Some (take_slot ''a'' NewLimiter))"

definition busy_slots :: "nat \<Rightarrow> (string \<times> int) multiset set" where
  "busy_slots k = (if k \<le> 2 then {{#(''a'', 1)#}} else if k = 3 then {{#}} else {{#}, {#(''a'', 1)#}})"

lemma busy_held: "lim_inv (gm_count (ap_max_concurrency sample_pol)) (take_slot ''a'' NewLimiter, {#(''a'', 1)#})"
proof -
  have "lim_inv (gm_count (ap_max_concurrency sample_pol)) (NewLimiter, {#})" by (rule lim_inv_reach) simp
  from lim_inv_acquire [OF this, of "''a''"] show ?thesis
    by (simp add: sample_pol_def gm_count_def Acquire_def NewLimiter_def)
qed

lemma busy_traffic: "slot_traffic (gm_count (ap_max_concurrency sample_pol)) (pl_attempts sample_plan) busy_env busy_slots"
proof -
  have al: "along busy_slots" by (auto simp: along_def busy_slots_def)
  have "interferes (slot_holds cap) {#} {{#(''a'', 1)#}} (Release ''a'') {{#}}" for cap
    using lim_inv_release [of cap _ "{#(''a'', 1)#}" "''a''" 1] by (simp add: interferes_def slot_holds_def)
  then have "interferes (slot_holds cap) M (busy_slots k) (xe_slots busy_env k) (busy_slots (Suc k))" if "M = {#} \<or> k \<noteq> 2" for cap M k
    using that by (auto simp: busy_env_def sample_env_def busy_slots_def intro!: interferes_idle)
  then show ?thesis using al by (simp add: slot_traffic_def numeral_eq_Suc)
qed

section \<open>Properties\<close>

text \<open>
  C1. A request is delivered at most once. However the network, the other requests and the clocks
  behave, every dial of a request except its last one ended before any request byte was handed to a
  connection, without any answer and without a response: no upstream can have seen the request twice.
\<close>

theorem failover_at_most_once:
  "list_all (\<lambda>(i, d). cr_response d = None \<and> \<not> wrote_ever (cr_events d) \<and> Responded \<notin> set (cr_events d))
     (butlast (dials (xr_log (ExecuteObserved env plan pol sh rec))))"
  using exec_history [of pol env plan sh rec] by (auto simp: history_ok_def left_behind_def list_all_iff)

text \<open>
  Failover is bounded: a request consumes one attempt per dial, never more than the budget of its
  policy, and on a plan without repetitions it dials no egress twice and none outside the plan, in the
  order of the plan.
\<close>

theorem failover_bounded:
  assumes "distinct (pl_attempts plan)"
  shows "length (dials (xr_log (ExecuteObserved env plan pol sh rec))) = xr_attempts (ExecuteObserved env plan pol sh rec)
     \<and> int (xr_attempts (ExecuteObserved env plan pol sh rec)) \<le> Budget pol
     \<and> distinct (map fst (dials (xr_log (ExecuteObserved env plan pol sh rec))))
     \<and> prefix (visited (xr_log (ExecuteObserved env plan pol sh rec))) (pl_attempts plan)"
proof -
  obtain rest where v: "visited (xr_log (ExecuteObserved env plan pol sh rec)) @ rest = pl_attempts plan"
    using exec_covered [OF assms, of pol env sh rec] by (auto simp: covered_def)
  then have "distinct (visited (xr_log (ExecuteObserved env plan pol sh rec)))" using assms by (metis distinct_append)
  then show ?thesis using exec_history [of pol env plan sh rec] v [symmetric] dials_distinct
    by (auto simp: history_ok_def prefix_def)
qed

theorem failover_bounded_witness:
  "int (xr_attempts (ExecuteObserved sample_env sample_plan sample_pol sample_shared None)) \<le> Budget sample_pol"
  using failover_bounded [OF sample_distinct] by blast

text \<open>
  C9. Failover does not give up early: when a request fails while fallback is on, budget is left and its
  last dial was provably safe to repeat, every egress of the plan was selected, in order.
\<close>

theorem failover_complete:
  assumes "distinct (pl_attempts plan)" and "may_go_on pol (ExecuteObserved env plan pol sh rec)"
  shows "visited (xr_log (ExecuteObserved env plan pol sh rec)) = pl_attempts plan"
  using exec_covered [OF assms(1), of pol env sh rec] assms(2) by (simp add: covered_def)

theorem failover_complete_witness:
  "visited (xr_log (ExecuteObserved sample_env sample_plan sample_pol sample_shared None)) = [''a'', ''b'']"
proof -
  have "may_go_on sample_pol (ExecuteObserved sample_env sample_plan sample_pol sample_shared None)" by code_simp
  from failover_complete [OF sample_distinct this] show ?thesis by (simp add: sample_plan_def)
qed

text \<open>
  The verdict a caller gets is that of the last dial, unchanged; only a request that dialed nothing
  gets the synthetic 502, with the record of a request that was never sent.
\<close>

theorem returned_verdict:
  "case rev (dials (xr_log (ExecuteObserved env plan pol sh rec))) of
     [] \<Rightarrow> xr_response (ExecuteObserved env plan pol sh rec) = None
          \<and> xr_failure (ExecuteObserved env plan pol sh rec) = NoDialFailure
          \<and> xr_attempts (ExecuteObserved env plan pol sh rec) = 0
          \<and> map_option ue_status (xr_error (ExecuteObserved env plan pol sh rec)) = Some 502
   | (i, d) # _ \<Rightarrow> xr_id (ExecuteObserved env plan pol sh rec) = i
          \<and> xr_failure (ExecuteObserved env plan pol sh rec) = cr_failure d
          \<and> xr_error (ExecuteObserved env plan pol sh rec) = cr_error d
          \<and> xr_response (ExecuteObserved env plan pol sh rec) = (if cr_error d = None then cr_response d else None)"
  using exec_history [of pol env plan sh rec]
  by (auto simp: history_ok_def verdict_ok_def split: list.splits)

text \<open>
  C10. A slot taken for an attempt is given back. While all requests of all generations name one cap per egress, and the
  others, between two moves of this request, take and free slots of their own and never the one it holds, then a request
  that fails leaves the gate counting exactly the slots the others hold by then, with none over its cap; a request that
  succeeds adds exactly its winning egress; and closing the body of the response any positive number of times removes
  exactly that holder, after the connection was closed. Across a reload that caps an unlimited egress the first condition
  fails, and with it the cap (\<open>limiter_reload_exceeds_cap\<close> of \<open>Limiter\<close>).
\<close>

theorem slots_balanced:
  assumes "slot_traffic cap_of (pl_attempts plan) env S" and "\<forall>i. gm_count (ap_max_concurrency pol) i = cap_of i"
    and "snd sh = Some l" and "lim_inv cap_of (l, H)" and "H \<in> S 0"
  shows "\<exists>l' k. \<exists>H' \<in> S k. snd (xr_shared (ExecuteObserved env plan pol sh rec)) = Some l' \<and>
     (case xr_error (ExecuteObserved env plan pol sh rec) of
        Some e \<Rightarrow> lim_inv cap_of (l', H')
      | None \<Rightarrow> (let i = xr_id (ExecuteObserved env plan pol sh rec);
                     closed = closeBodies (Suc n) \<lparr>sb_id = i, sb_freed = False\<rparr> l' in
                 lim_inv cap_of (l', add_mset (i, cap_of i) H') \<and> lim_inv cap_of (fst closed, H') \<and>
                 snd closed = ConnClosed # SlotFreed i # replicate n ConnClosed))"
proof -
  let ?r = "ExecuteObserved env plan pol sh rec"
  have "slots_after cap_of S ?r"
    using assms by (intro exec_slots [where H = H]) (auto simp: slots_held_def)
  then obtain l' k H' where l': "H' \<in> S k" "snd (xr_shared ?r) = Some l'"
    and h: "lim_inv cap_of (l', if xr_error ?r = None then add_mset (xr_id ?r, cap_of (xr_id ?r)) H' else H')"
    by (auto simp: slots_after_def slots_held_def)
  show ?thesis
  proof (cases "xr_error ?r")
    case None
    then have a: "lim_inv cap_of (l', add_mset (xr_id ?r, cap_of (xr_id ?r)) H')" using h by simp
    from lim_inv_release [OF a, of "xr_id ?r" "cap_of (xr_id ?r)"] have "lim_inv cap_of (Release (xr_id ?r) l', H')" by simp
    with None l' a show ?thesis
      by (intro exI [of _ l'] exI [of _ k] bexI [of _ H']) (simp_all add: closeBodies_once Let_def del: closeBodies.simps)
  qed (use h l' in auto)
qed

theorem slots_balanced_witness:
  "\<exists>l'. snd (xr_shared (ExecuteObserved busy_env sample_plan sample_pol busy_shared None)) = Some l' \<and> InFlight l' ''a'' \<le> 1"
proof -
  let ?cap = "gm_count (ap_max_concurrency sample_pol)"
  have a: "?cap ''a'' = 1" by (simp add: sample_pol_def gm_count_def)
  have "{#(''a'', 1)#} \<in> busy_slots 0" by (simp add: busy_slots_def)
  from slots_balanced [OF busy_traffic _ _ busy_held this, of sample_pol busy_shared None 0]
  obtain l' G where "snd (xr_shared (ExecuteObserved busy_env sample_plan sample_pol busy_shared None)) = Some l'" "lim_inv ?cap (l', G)"
    by (auto simp: busy_shared_def Let_def split: option.splits)
  moreover have "InFlight l' ''a'' \<le> 1" using calculation(2) a unfolding lim_inv_def prod.case by (metis zero_less_one)
  ultimately show ?thesis by blast
qed

text \<open>
  C11. The registry is told exactly what the dials showed: on a plan pinned to its egresses and with no
  other request around, the registry after a request is the one before it with one observation per
  dial that succeeded, or that failed in a step against the egress endpoint itself, in dial order and
  under the request's own policy; nothing else is recorded.
\<close>

theorem health_exact:
  assumes "\<forall>k r. xe_reg env k r = r" and "pl_egresses plan = map look (pl_attempts plan)" and "fst sh = Some reg"
  shows "fst (xr_shared (ExecuteObserved env plan pol sh rec)) =
     Some (fold (tell env pol look) (enumerate 1 (dials (xr_log (ExecuteObserved env plan pol sh rec)))) reg)"
  using exec_health [OF assms, of pol rec] by (simp add: told_def)

theorem health_exact_witness:
  "fst (xr_shared (ExecuteObserved sample_env sample_plan sample_pol sample_shared None)) =
     Some (fold (tell sample_env sample_pol sample_look)
       (enumerate 1 (dials (xr_log (ExecuteObserved sample_env sample_plan sample_pol sample_shared None)))) New)"
  by (rule health_exact) (simp_all add: sample_env_def sample_plan_def sample_shared_def)

end
