(* ===== verification/WrrFairness.thy ===== *)
theory WrrFairness
  imports Scheduler
begin

text \<open>
  Smooth weighted round robin, as the scheduler's selection loop computes it on 64-bit integers:
  what one pick does to the running weights, and how often each candidate is picked.
\<close>

section \<open>One pick\<close>

definition pool_ids :: "wrr_candidate list \<Rightarrow> string set" where
  "pool_ids pool = wc_id ` set pool"

definition pool_total :: "wrr_candidate list \<Rightarrow> int" where
  "pool_total pool = sum_list (map wc_w pool)"

definition pool_ok :: "wrr_candidate list \<Rightarrow> bool" where
  "pool_ok pool \<longleftrightarrow> pool \<noteq> [] \<and> distinct (map wc_id pool) \<and> (\<forall>c \<in> set pool. 0 < wc_w c) \<and>
     int (length pool) * pool_total pool < 2 ^ 63"

lemma wrrLoop_cw_other:
  "wrrLoop first t best v cw pool = (t', best', cw') \<Longrightarrow> i \<notin> pool_ids pool \<Longrightarrow> gm_count cw' i = gm_count cw i"
proof (induction pool arbitrary: first t best v cw)
  case (Cons c pool)
  then have "i \<noteq> wc_id c" "i \<notin> pool_ids pool" by (auto simp: pool_ids_def)
  with Cons show ?case by (fastforce simp: Let_def)
qed simp

lemma wrrLoop_cw:
  "wrrLoop first t best v cw pool = (t', best', cw') \<Longrightarrow> distinct (map wc_id pool) \<Longrightarrow> c \<in> set pool \<Longrightarrow>
   gm_count cw' (wc_id c) = wrap64 (gm_count cw (wc_id c) + wc_w c)"
proof (induction pool arbitrary: first t best v cw)
  case (Cons d pool)
  let ?cw = "gm_set (wc_id d) (wrap64 (gm_count cw (wc_id d) + wc_w d)) cw"
  from Cons.prems(1) obtain f2 t2 b2 v2 where r: "wrrLoop f2 t2 b2 v2 ?cw pool = (t', best', cw')"
    by (auto simp: Let_def)
  show ?case
  proof (cases "c = d")
    case True
    have "wc_id d \<notin> pool_ids pool" using Cons.prems(2) by (auto simp: pool_ids_def)
    from wrrLoop_cw_other [OF r this] show ?thesis by (simp add: True)
  next
    case False
    with Cons.prems(2,3) have "c \<in> set pool" "wc_id c \<noteq> wc_id d" by (auto simp: image_iff)
    with Cons.IH [OF r] Cons.prems(2) show ?thesis by simp
  qed
qed simp

lemma wrrLoop_tot:
  "wrrLoop first t best v cw pool = (t', best', cw') \<Longrightarrow> (\<forall>c \<in> set pool. 0 < wc_w c) \<Longrightarrow> 0 \<le> t \<Longrightarrow>
   t + pool_total pool < 2 ^ 63 \<Longrightarrow> t' = t + pool_total pool"
proof (induction pool arbitrary: first t best v cw)
  case (Cons c pool)
  have p: "0 \<le> pool_total pool" using Cons.prems(2)
    unfolding pool_total_def by (intro sum_list_nonneg) auto
  have w: "0 < wc_w c" using Cons.prems(2) by simp
  have "wrap64 (t + wc_w c) = t + wc_w c"
    using Cons.prems(3,4) p w by (intro wrap64_id) (simp add: in64_def pool_total_def)
  moreover obtain f2 b2 v2 cw2 where "wrrLoop f2 (wrap64 (t + wc_w c)) b2 v2 cw2 pool = (t', best', cw')"
    using Cons.prems(1) by (auto simp: Let_def)
  ultimately show ?case using Cons.IH [of f2 "t + wc_w c" b2 v2 cw2] Cons.prems w
    by (simp add: pool_total_def)
qed (simp add: pool_total_def)

text \<open>The winner has the largest running weight of the pool.\<close>

lemma wrrLoop_best:
  "wrrLoop first t best v cw pool = (t', best', cw') \<Longrightarrow> distinct (map wc_id pool) \<Longrightarrow>
   (if pool = [] then best' = best
    else if first then best' \<in> pool_ids pool \<and> (\<forall>i \<in> pool_ids pool. gm_count cw' i \<le> gm_count cw' best')
    else (best' = best \<and> (\<forall>i \<in> pool_ids pool. gm_count cw' i \<le> v)) \<or>
         (best' \<in> pool_ids pool \<and> v < gm_count cw' best' \<and>
          (\<forall>i \<in> pool_ids pool. gm_count cw' i \<le> gm_count cw' best')))"
proof (induction pool arbitrary: first t best v cw)
  case (Cons c pool)
  let ?cw = "gm_set (wc_id c) (wrap64 (gm_count cw (wc_id c) + wc_w c)) cw"
  let ?v = "gm_count ?cw (wc_id c)"
  let ?b = "first \<or> ?v > v"
  have r: "wrrLoop False (wrap64 (t + wc_w c)) (if ?b then wc_id c else best) (if ?b then ?v else v) ?cw pool
            = (t', best', cw')"
    using Cons.prems(1) by (simp add: Let_def)
  have n: "wc_id c \<notin> pool_ids pool" using Cons.prems(2) by (auto simp: pool_ids_def)
  have k: "gm_count cw' (wc_id c) = ?v" by (rule wrrLoop_cw_other [OF r n])
  have ins: "pool_ids (c # pool) = insert (wc_id c) (pool_ids pool)" by (simp add: pool_ids_def)
  note ih = Cons.IH [OF r]
  show ?case
  proof (cases "pool = []")
    case True
    then show ?thesis using r k ins by (cases ?b) (auto simp: pool_ids_def split: if_splits)
  next
    case False
    with ih Cons.prems(2) have
      "(best' = (if ?b then wc_id c else best) \<and> (\<forall>i \<in> pool_ids pool. gm_count cw' i \<le> (if ?b then ?v else v))) \<or>
       (best' \<in> pool_ids pool \<and> (if ?b then ?v else v) < gm_count cw' best' \<and>
        (\<forall>i \<in> pool_ids pool. gm_count cw' i \<le> gm_count cw' best'))"
      by simp
    then show ?thesis using k ins by (cases ?b) (auto split: if_splits)
  qed
qed simp

section \<open>The invariant of the running weights\<close>

definition cw_sum :: "wrr_candidate list \<Rightarrow> (string, int) gomap \<Rightarrow> int" where
  "cw_sum pool cw = sum_list (map (\<lambda>c. gm_count cw (wc_id c)) pool)"

definition wrr_inv :: "wrr_candidate list \<Rightarrow> (string, int) gomap \<Rightarrow> bool" where
  "wrr_inv pool cw \<longleftrightarrow> cw_sum pool cw = 0 \<and> (\<forall>i \<in> pool_ids pool. - pool_total pool < gm_count cw i)"

lemma wrr_inv_empty: "pool_ok pool \<Longrightarrow> wrr_inv pool []"
proof -
  assume ok: "pool_ok pool"
  then obtain c cs where p: "pool = c # cs" by (cases pool) (auto simp: pool_ok_def)
  with ok have "0 \<le> sum_list (map wc_w cs)" and "0 < wc_w c"
    by (auto simp: pool_ok_def less_imp_le intro!: sum_list_nonneg)
  then have "0 < pool_total pool" by (simp add: pool_total_def p)
  moreover have "cw_sum pool [] = 0" by (induction pool) (auto simp: cw_sum_def)
  ultimately show ?thesis by (simp add: wrr_inv_def)
qed

lemma sum_list_lower:
  "(\<forall>x \<in> set xs. - b < f x) \<Longrightarrow> xs \<noteq> [] \<Longrightarrow> - (int (length xs) * b) < sum_list (map f xs)" for f :: "'a \<Rightarrow> int"
proof (induction xs)
  case (Cons x xs)
  then show ?case by (cases "xs = []") (auto simp: algebra_simps)
qed simp

lemma wrr_inv_upper:
  assumes "wrr_inv pool cw" and "c \<in> set pool"
  shows "gm_count cw (wc_id c) \<le> (int (length pool) - 1) * pool_total pool"
proof -
  obtain xs ys where p: "pool = xs @ c # ys" using assms(2) by (meson split_list)
  let ?f = "\<lambda>c. gm_count cw (wc_id c)"
  have s: "?f c = - sum_list (map ?f (xs @ ys))"
    using assms(1) by (simp add: wrr_inv_def cw_sum_def p)
  have "\<forall>x \<in> set (xs @ ys). - pool_total pool < ?f x"
    using assms(1) by (auto simp: wrr_inv_def pool_ids_def p)
  then have "- (int (length (xs @ ys)) * pool_total pool) \<le> sum_list (map ?f (xs @ ys))"
    using sum_list_lower [of "xs @ ys" "pool_total pool" ?f] by (cases "xs @ ys = []") force+
  moreover have "int (length (xs @ ys)) = int (length pool) - 1" by (simp add: p)
  ultimately show ?thesis using s by simp
qed

lemma pool_total_pos: "pool_ok pool \<Longrightarrow> 0 < pool_total pool"
  using wrr_inv_empty [of pool] by (cases pool) (auto simp: wrr_inv_def pool_ids_def pool_ok_def)

lemma pool_total_bound: "pool_ok pool \<Longrightarrow> pool_total pool < 2 ^ 63"
proof -
  assume ok: "pool_ok pool"
  then have "1 * pool_total pool \<le> int (length pool) * pool_total pool"
    using pool_total_pos [OF ok] by (intro mult_right_mono) (cases pool, auto simp: pool_ok_def)
  with ok show ?thesis by (simp add: pool_ok_def)
qed

lemma sum_list_pos_max:
  "0 < sum_list (map f xs) \<Longrightarrow> (\<forall>x \<in> set xs. f x \<le> (m :: int)) \<Longrightarrow> 0 < m"
proof (rule ccontr)
  assume s: "0 < sum_list (map f xs)" and b: "\<forall>x \<in> set xs. f x \<le> m" and "\<not> 0 < m"
  then have "\<forall>x \<in> set xs. f x \<le> 0" by force
  then have "sum_list (map f xs) \<le> 0" by (induction xs) auto
  with s show False by simp
qed

lemma weight_le_total: "pool_ok pool \<Longrightarrow> c \<in> set pool \<Longrightarrow> wc_w c \<le> pool_total pool"
  unfolding pool_total_def pool_ok_def
  by (rule member_le_sum_list) (auto intro: order.strict_implies_order)

text \<open>
  One pick adds its weight to every candidate, takes the pool's total from the winner, and keeps the
  invariant; no addition wraps.
\<close>

lemma wrrPick_effect:
  assumes ok: "pool_ok pool" and inv: "wrr_inv pool cw" and pick: "wrrPick pool cw = (best, cw2)"
  shows "best \<in> pool_ids pool"
    and "c \<in> set pool \<Longrightarrow> gm_count cw2 (wc_id c) =
           gm_count cw (wc_id c) + wc_w c - (if wc_id c = best then pool_total pool else 0)"
    and "wrr_inv pool cw2"
proof -
  let ?W = "pool_total pool"
  obtain t b cw' where l: "wrrLoop True 0 [] 0 cw pool = (t, b, cw')" by (cases "wrrLoop True 0 [] 0 cw pool") auto
  have b: "b = best" and cw2: "cw2 = gm_set best (wrap64 (gm_count cw' best - t)) cw'"
    using pick l by (auto simp: wrrPick_def)
  have d: "distinct (map wc_id pool)" and ne: "pool \<noteq> []" and pos: "\<forall>c \<in> set pool. 0 < wc_w c"
    using ok by (auto simp: pool_ok_def)
  have t: "t = ?W" using wrrLoop_tot [OF l pos] pool_total_bound [OF ok] by simp
  have W: "0 < ?W" by (rule pool_total_pos [OF ok])
  show best: "best \<in> pool_ids pool" using wrrLoop_best [OF l d] ne b by simp
  have rng: "- ?W < gm_count cw (wc_id c) + wc_w c \<and> gm_count cw (wc_id c) + wc_w c \<le> int (length pool) * ?W"
    if "c \<in> set pool" for c
  proof -
    have "- ?W < gm_count cw (wc_id c)" using inv that by (auto simp: wrr_inv_def pool_ids_def)
    moreover have "gm_count cw (wc_id c) \<le> (int (length pool) - 1) * ?W" by (rule wrr_inv_upper [OF inv that])
    ultimately show ?thesis using pos that weight_le_total [OF ok that] by (auto simp: algebra_simps)
  qed
  have add: "gm_count cw' (wc_id c) = gm_count cw (wc_id c) + wc_w c" if "c \<in> set pool" for c
    using wrrLoop_cw [OF l d that] rng [OF that] pool_total_bound [OF ok] ok
    by (simp add: in64_def pool_ok_def)
  have "0 < sum_list (map (\<lambda>c. gm_count cw' (wc_id c)) pool)"
  proof -
    have "map (\<lambda>c. gm_count cw' (wc_id c)) pool = map (\<lambda>c. gm_count cw (wc_id c) + wc_w c) pool"
      by (simp add: add)
    then have "sum_list (map (\<lambda>c. gm_count cw' (wc_id c)) pool) = cw_sum pool cw + ?W"
      by (simp only: cw_sum_def pool_total_def sum_list_addf)
    with inv W show ?thesis by (simp add: wrr_inv_def)
  qed
  moreover have "\<forall>c \<in> set pool. gm_count cw' (wc_id c) \<le> gm_count cw' best"
    using wrrLoop_best [OF l d] ne b by (auto simp: pool_ids_def)
  ultimately have top: "0 < gm_count cw' best" by (rule sum_list_pos_max)
  obtain cb where cb: "cb \<in> set pool" "wc_id cb = best" using best by (auto simp: pool_ids_def)
  have sub: "wrap64 (gm_count cw' best - t) = gm_count cw' best - ?W"
    using top t add [OF cb(1)] rng [OF cb(1)] cb(2) pool_total_bound [OF ok] W ok
    by (simp add: in64_def pool_ok_def)
  have eff: "gm_count cw2 (wc_id c) = gm_count cw (wc_id c) + wc_w c - (if wc_id c = best then ?W else 0)"
    if "c \<in> set pool" for c
    using that add [OF that] by (auto simp: cw2 sub)
  then show "c \<in> set pool \<Longrightarrow> gm_count cw2 (wc_id c) =
           gm_count cw (wc_id c) + wc_w c - (if wc_id c = best then ?W else 0)" .
  have low: "- ?W < gm_count cw2 i" if i: "i \<in> pool_ids pool" for i
  proof -
    obtain c where c: "c \<in> set pool" "wc_id c = i" using i by (auto simp: pool_ids_def)
    show ?thesis using top add [OF c(1)] eff [OF c(1)] rng [OF c(1)] c(2) by (cases "i = best") simp_all
  qed
  have "(\<Sum>c\<leftarrow>pool. if wc_id c = best then ?W else 0) = ?W"
  proof -
    obtain xs ys where p: "pool = xs @ cb # ys" using cb(1) by (meson split_list)
    have "wc_id x \<noteq> best" if "x \<in> set (xs @ ys)" for x
      using d that cb(2) by (auto simp: p image_iff)
    then have "(\<Sum>c\<leftarrow>xs @ ys. if wc_id c = best then ?W else 0) = (\<Sum>c\<leftarrow>xs @ ys. 0)"
      by (intro arg_cong [where f = sum_list] map_cong) auto
    then show ?thesis by (simp add: p cb(2))
  qed
  moreover have "map (\<lambda>c. gm_count cw2 (wc_id c)) pool =
      map (\<lambda>c. gm_count cw (wc_id c) + wc_w c - (if wc_id c = best then ?W else 0)) pool"
    using eff by simp
  ultimately have "cw_sum pool cw2 = 0"
    using inv unfolding cw_sum_def wrr_inv_def
    by (simp only: sum_list_subtractf sum_list_addf) (simp add: pool_total_def)
  with low show "wrr_inv pool cw2" by (simp add: wrr_inv_def)
qed

section \<open>Many picks\<close>

fun wrrRun :: "wrr_candidate list \<Rightarrow> nat \<Rightarrow> (string, int) gomap \<Rightarrow> string list \<times> (string, int) gomap" where
  "wrrRun pool 0 cw = ([], cw)"
| "wrrRun pool (Suc n) cw =
     (let (best, cw1) = wrrPick pool cw; (bests, cw2) = wrrRun pool n cw1 in (best # bests, cw2))"

lemma wrrRun_effect:
  "pool_ok pool \<Longrightarrow> wrr_inv pool cw \<Longrightarrow> wrrRun pool n cw = (bests, cw') \<Longrightarrow>
   wrr_inv pool cw' \<and> length bests = n \<and> set bests \<subseteq> pool_ids pool \<and>
   (\<forall>c \<in> set pool. gm_count cw' (wc_id c) =
      gm_count cw (wc_id c) + int n * wc_w c - pool_total pool * int (count_list bests (wc_id c)))"
proof (induction n arbitrary: cw bests)
  case (Suc n)
  obtain best cw1 where p: "wrrPick pool cw = (best, cw1)" by (cases "wrrPick pool cw")
  obtain bs where r: "wrrRun pool n cw1 = (bs, cw')" and b: "bests = best # bs"
    using Suc.prems(3) by (auto simp: p split: prod.splits)
  note e = wrrPick_effect [OF Suc.prems(1,2) p]
  have "gm_count cw' (wc_id c) =
      gm_count cw (wc_id c) + int (Suc n) * wc_w c - pool_total pool * int (count_list bests (wc_id c))"
    if c: "c \<in> set pool" for c
  proof -
    have "gm_count cw' (wc_id c) =
        gm_count cw1 (wc_id c) + int n * wc_w c - pool_total pool * int (count_list bs (wc_id c))"
      using Suc.IH [OF Suc.prems(1) e(3) r] c by blast
    also have "gm_count cw1 (wc_id c) =
        gm_count cw (wc_id c) + wc_w c - (if wc_id c = best then pool_total pool else 0)"
      by (rule e(2) [OF c])
    finally show ?thesis by (cases "wc_id c = best") (simp_all add: b algebra_simps)
  qed
  then show ?case using Suc.IH [OF Suc.prems(1) e(3) r] e(1) b by auto
qed simp

text \<open>No candidate is ever served more than its share plus less than one turn.\<close>

lemma wrrRun_share:
  assumes "pool_ok pool" and "wrrRun pool n [] = (bests, cw')" and "c \<in> set pool"
  shows "pool_total pool * int (count_list bests (wc_id c)) < int n * wc_w c + pool_total pool"
proof -
  note e = wrrRun_effect [OF assms(1) wrr_inv_empty [OF assms(1)] assms(2)]
  from e assms(3) have "- pool_total pool < gm_count cw' (wc_id c)"
    by (auto simp: wrr_inv_def pool_ids_def)
  with e assms(3) show ?thesis by fastforce
qed

lemma count_list_sum:
  "distinct ids \<Longrightarrow> set xs \<subseteq> set ids \<Longrightarrow> (\<Sum>i\<leftarrow>ids. count_list xs i) = length xs"
proof (induction xs)
  case (Cons x xs)
  have "(\<Sum>i\<leftarrow>ids. if x = i then 1 else 0 :: nat) = 1"
  proof -
    have "(\<Sum>i\<leftarrow>js. if x = i then 1 else 0 :: nat) = (if x \<in> set js then 1 else 0)" if "distinct js" for js
      using that by (induction js) auto
    then show ?thesis using Cons.prems by simp
  qed
  moreover have "(\<Sum>i\<leftarrow>ids. count_list (x # xs) i) =
      (\<Sum>i\<leftarrow>ids. (if x = i then 1 else 0) + count_list xs i)"
    by (intro arg_cong [where f = sum_list] map_cong) auto
  ultimately show ?case using Cons by (simp add: sum_list_addf)
qed simp

lemma sum_list_le_eq:
  "(\<forall>x \<in> set xs. f x \<le> g x) \<Longrightarrow> sum_list (map f xs) = sum_list (map g xs) \<Longrightarrow> x \<in> set xs \<Longrightarrow> f x = g x"
  for f g :: "'a \<Rightarrow> int"
proof (induction xs)
  case (Cons y ys)
  have "sum_list (map f ys) \<le> sum_list (map g ys)" using Cons.prems(1) by (intro sum_list_mono) auto
  with Cons show ?case by auto
qed simp

text \<open>Over one full cycle every candidate is picked exactly as often as its weight says.\<close>

lemma wrrRun_cycle:
  assumes ok: "pool_ok pool" and r: "wrrRun pool (nat (pool_total pool)) [] = (bests, cw')" and c: "c \<in> set pool"
  shows "int (count_list bests (wc_id c)) = wc_w c" and "gm_count cw' (wc_id c) = 0"
proof -
  let ?W = "pool_total pool"
  have W: "0 < ?W" by (rule pool_total_pos [OF ok])
  note e = wrrRun_effect [OF ok wrr_inv_empty [OF ok] r]
  have le: "int (count_list bests (wc_id x)) \<le> wc_w x" if "x \<in> set pool" for x
  proof -
    have "?W * int (count_list bests (wc_id x)) < ?W * wc_w x + ?W"
      using wrrRun_share [OF ok r that] W by simp
    then have "?W * int (count_list bests (wc_id x)) < ?W * (wc_w x + 1)" by (simp add: algebra_simps)
    then show ?thesis using W by simp
  qed
  have "distinct (map wc_id pool)" using ok by (simp add: pool_ok_def)
  then have "(\<Sum>i\<leftarrow>map wc_id pool. count_list bests i) = length bests"
    using e by (intro count_list_sum) (auto simp: pool_ids_def)
  then have "int (\<Sum>i\<leftarrow>map wc_id pool. count_list bests i) = ?W"
    using e W by simp
  moreover have "(\<Sum>c\<leftarrow>xs. int (count_list bests (wc_id c))) = int (\<Sum>i\<leftarrow>map wc_id xs. count_list bests i)" for xs
    by (induction xs) auto
  ultimately have "(\<Sum>c\<leftarrow>pool. int (count_list bests (wc_id c))) = ?W" by metis
  then show eq: "int (count_list bests (wc_id c)) = wc_w c"
    by (intro sum_list_le_eq [OF _ _ c, of "\<lambda>c. int (count_list bests (wc_id c))" wc_w])
       (auto simp: le pool_total_def)
  show "gm_count cw' (wc_id c) = 0" using e c W eq by simp
qed

end
