(* ===== verification/Planning.thy ===== *)
theory Planning
  imports WrrFairness
begin

text \<open>
  What the scheduler's \<^verbatim>\<open>Plan\<close> guarantees: complete plans, fair rotation under both strategies, no
  panic, and rotation state that a superseded configuration can neither replace nor advance.
\<close>

section \<open>Pools and orders\<close>

lemma wrrPool_ids: "map wc_id (wrrPool rt heads) = filter (\<lambda>i. 0 < route_weight rt i) heads"
  by (induction heads) (auto simp: wrrPool_def Let_def)

lemma wrrPool_weight: "c \<in> set (wrrPool rt heads) \<Longrightarrow> wc_w c = route_weight rt (wc_id c) \<and> 0 < wc_w c"
  by (auto simp: wrrPool_def Let_def split: if_splits)

lemma pool_ids_pool: "pool_ids (wrrPool rt heads) = {i \<in> set heads. 0 < route_weight rt i}"
proof -
  have "pool_ids (wrrPool rt heads) = set (map wc_id (wrrPool rt heads))" by (simp add: pool_ids_def)
  then show ?thesis by (simp add: wrrPool_ids)
qed

lemma wrrPool_empty: "wrrPool rt heads = [] \<longleftrightarrow> (\<forall>i \<in> set heads. route_weight rt i \<le> 0)"
proof -
  have "wrrPool rt heads = [] \<longleftrightarrow> map wc_id (wrrPool rt heads) = []" by simp
  then show ?thesis unfolding wrrPool_ids by (auto simp: filter_empty_conv not_less)
qed

lemma without_filter: "without xs d = filter (\<lambda>x. x \<noteq> d) xs"
  by (induction xs) auto

lemma mset_pick: "distinct xs \<Longrightarrow> d \<in> set xs \<Longrightarrow> mset (d # without xs d) = mset xs"
proof -
  assume d: "distinct xs" "d \<in> set xs"
  have "filter_mset (\<lambda>x. x \<noteq> d) (mset xs) = mset xs - {#d#}"
    using d by (intro multiset_eqI) (auto simp: distinct_count_atmost_1)
  then show ?thesis using d by (simp add: without_filter)
qed

lemma wrrPick_mem:
  assumes "wrrPick pool cw = (best, cw')" and "pool \<noteq> []" and "distinct (map wc_id pool)"
  shows "best \<in> pool_ids pool"
proof -
  obtain t b cw2 where l: "wrrLoop True 0 [] 0 cw pool = (t, b, cw2)"
    by (cases "wrrLoop True 0 [] 0 cw pool") auto
  with assms(1) have "b = best" by (simp add: wrrPick_def)
  with wrrLoop_best [OF l assms(3)] assms(2) show ?thesis by simp
qed

lemma mset_rotateHeads:
  assumes "rotateHeads route heads (wrrPool rt heads) st = Some (attempts, st')"
    and "distinct heads" and "r_strategy route = StrategyWeightedRR \<Longrightarrow> wrrPool rt heads \<noteq> []"
  shows "mset attempts = mset heads"
    and "r_strategy route = StrategyWeightedRR \<Longrightarrow> 0 < route_weight rt (hd attempts)"
proof -
  have "mset attempts = mset heads \<and>
        (r_strategy route = StrategyWeightedRR \<longrightarrow> 0 < route_weight rt (hd attempts))"
  proof (cases "r_strategy route = StrategyWeightedRR")
    case True
    with assms(1) obtain cw best cw' where p: "wrrPick (wrrPool rt heads) cw = (best, cw')"
      and a: "attempts = best # without heads best"
      by (auto simp: rotateHeads_def split: option.splits prod.splits)
    have "best \<in> pool_ids (wrrPool rt heads)"
      by (rule wrrPick_mem [OF p assms(3) [OF True]]) (simp add: wrrPool_ids assms(2))
    then have "best \<in> set heads" "0 < route_weight rt best" by (auto simp: pool_ids_pool)
    then show ?thesis using mset_pick [OF assms(2)] a by simp
  next
    case False
    with assms(1) obtain i where "attempts = drop i heads @ take i heads"
      by (auto simp: rotateHeads_def Let_def split: if_splits)
    moreover have "mset (drop i heads @ take i heads) = mset heads"
      by (metis append_take_drop_id mset_append union_commute)
    ultimately show ?thesis using False by simp
  qed
  then show "mset attempts = mset heads"
    and "r_strategy route = StrategyWeightedRR \<Longrightarrow> 0 < route_weight rt (hd attempts)" by auto
qed

definition servable :: "runtime \<Rightarrow> route \<Rightarrow> string list \<Rightarrow> bool" where
  "servable rt route heads \<longleftrightarrow> heads \<noteq> [] \<and>
     (r_strategy route = StrategyWeightedRR \<longrightarrow> (\<exists>i \<in> set heads. 0 < route_weight rt i))"

lemma Plan_unservable: "\<not> servable rt route heads \<Longrightarrow> Plan rt route heads s = Some (emptyPlan route, s)"
  by (auto simp: Plan_def servable_def wrrPool_empty not_less Let_def)

lemma rotateHeads_pool:
  "r_strategy route \<noteq> StrategyWeightedRR \<Longrightarrow> rotateHeads route heads p st = rotateHeads route heads q st"
  by (simp add: rotateHeads_def)

lemma Plan_servable:
  "servable rt route heads \<Longrightarrow> Plan rt route heads s =
     (case stateFor route rt s of (st, held, s') \<Rightarrow>
       (case rotateHeads route heads (wrrPool rt heads) st of
          None \<Rightarrow> None
        | Some (attempts, st') \<Rightarrow>
            Some ((emptyPlan route)\<lparr>pl_attempts := attempts, pl_egresses := resolveEgresses rt attempts\<rparr>,
                  if held then gm_set (r_id route) st' s' else s')))"
  using rotateHeads_pool [of route heads "[]" _ "wrrPool rt heads"]
  by (auto simp: Plan_def servable_def wrrPool_empty Let_def not_less split: option.splits)

section \<open>Runs of plans\<close>

text \<open>\<open>n\<close> consecutive plans of one route for the same heads: the heads chosen.\<close>

fun plan_run :: "runtime \<Rightarrow> route \<Rightarrow> string list \<Rightarrow> nat \<Rightarrow> scheduler \<Rightarrow> (string list \<times> scheduler) option" where
  "plan_run rt route heads 0 s = Some ([], s)"
| "plan_run rt route heads (Suc n) s = (case Plan rt route heads s of
     None \<Rightarrow> None
   | Some (plan, s1) \<Rightarrow> (case plan_run rt route heads n s1 of
       None \<Rightarrow> None
     | Some (hs, s2) \<Rightarrow> Some (hd (pl_attempts plan) # hs, s2)))"

text \<open>The rotation position the next plan of this shape starts from.\<close>

definition at_state :: "runtime \<Rightarrow> route \<Rightarrow> scheduler \<Rightarrow> route_state \<Rightarrow> bool" where
  "at_state rt route s st \<longleftrightarrow>
     gm_get s (r_id route) = Some st \<and> rs_fingerprint st = schedulerFingerprint route rt \<or>
     gm_get s (r_id route) = None \<and>
       st = (freshState route (schedulerFingerprint route rt))\<lparr>rs_generation := rt_generation rt\<rparr>"

lemma at_state_fp: "at_state rt route s st \<Longrightarrow> rs_fingerprint st = schedulerFingerprint route rt"
  by (auto simp: at_state_def freshState_def)

lemma stateFor_at:
  "at_state rt route s st \<Longrightarrow> \<exists>s'. stateFor route rt s = (st, True, s')"
  by (auto simp: at_state_def stateFor_def Let_def)

lemma rotateHeads_fp: "rotateHeads route heads pool st = Some (a, st') \<Longrightarrow> rs_fingerprint st' = rs_fingerprint st"
  by (auto simp: rotateHeads_def Let_def split: if_splits option.splits prod.splits)

lemma Plan_at:
  assumes "servable rt route heads" and "at_state rt route s st"
    and "rotateHeads route heads (wrrPool rt heads) st = Some (attempts, st')"
  shows "\<exists>plan s'. Plan rt route heads s = Some (plan, s') \<and> pl_attempts plan = attempts \<and> at_state rt route s' st'"
proof -
  obtain s1 where f: "stateFor route rt s = (st, True, s1)" using stateFor_at [OF assms(2)] by blast
  have "at_state rt route (gm_set (r_id route) st' s1) st'"
    using rotateHeads_fp [OF assms(3)] at_state_fp [OF assms(2)] by (simp add: at_state_def gm_get_set)
  then show ?thesis by (simp add: Plan_servable [OF assms(1)] f assms(3))
qed

text \<open>Weighted: a run of plans is a run of picks.\<close>

lemma plan_run_wrr:
  assumes "servable rt route heads" and w: "r_strategy route = StrategyWeightedRR"
  shows "at_state rt route s st \<Longrightarrow> rs_cw st = Some cw \<Longrightarrow> wrrRun (wrrPool rt heads) n cw = (bests, cw') \<Longrightarrow>
    \<exists>s'. plan_run rt route heads n s = Some (bests, s')"
proof (induction n arbitrary: s st cw bests)
  case (Suc n)
  obtain best cw1 where p: "wrrPick (wrrPool rt heads) cw = (best, cw1)"
    by (cases "wrrPick (wrrPool rt heads) cw")
  obtain bs where r: "wrrRun (wrrPool rt heads) n cw1 = (bs, cw')" and b: "bests = best # bs"
    using Suc.prems(3) by (auto simp: p split: prod.splits)
  have "rotateHeads route heads (wrrPool rt heads) st
        = Some (best # without heads best, st\<lparr>rs_cw := Some cw1\<rparr>)"
    by (simp add: rotateHeads_def w Suc.prems(2) p)
  from Plan_at [OF assms(1) Suc.prems(1) this] obtain plan s1 where
    pl: "Plan rt route heads s = Some (plan, s1)" "pl_attempts plan = best # without heads best"
    and at: "at_state rt route s1 (st\<lparr>rs_cw := Some cw1\<rparr>)" by blast
  from Suc.IH [OF at _ r] obtain s2 where "plan_run rt route heads n s1 = Some (bs, s2)" by auto
  with pl b show ?case by simp
qed simp

text \<open>Round robin: the heads in rotation from the cursor.\<close>

lemma plan_run_rr:
  assumes "servable rt route heads" and w: "r_strategy route \<noteq> StrategyWeightedRR"
  shows "at_state rt route s st \<Longrightarrow> 0 \<le> rs_cursor st \<Longrightarrow> rs_cursor st + int n < 2 ^ 63 \<Longrightarrow>
    \<exists>s'. plan_run rt route heads n s =
      Some (map (\<lambda>j. heads ! (nat (rs_cursor st + int j) mod length heads)) [0 ..< n], s')"
proof (induction n arbitrary: s st)
  case (Suc n)
  let ?len = "length heads" and ?c = "rs_cursor st"
  have ne: "0 < ?len" using assms(1) by (simp add: servable_def)
  have i: "?c smod int ?len = ?c mod int ?len"
    using Suc.prems(2) ne by (intro smod_nonneg) simp_all
  have sm: "nat (?c smod int ?len) = nat ?c mod ?len"
    using Suc.prems(2) ne by (simp add: i nat_mod_distrib)
  let ?i = "nat ?c mod ?len"
  have "rotateHeads route heads (wrrPool rt heads) st
        = Some (drop ?i heads @ take ?i heads, st\<lparr>rs_cursor := ?c + 1\<rparr>)"
  proof -
    have "0 \<le> ?c smod int ?len" using Suc.prems(2) ne by (simp add: i)
    moreover have "wrap64 (?c + 1) = ?c + 1"
      using Suc.prems by (intro wrap64_id) (simp add: in64_def)
    ultimately show ?thesis by (simp add: rotateHeads_def w Let_def sm)
  qed
  from Plan_at [OF assms(1) Suc.prems(1) this] obtain plan s1 where
    pl: "Plan rt route heads s = Some (plan, s1)" "pl_attempts plan = drop ?i heads @ take ?i heads"
    and at: "at_state rt route s1 (st\<lparr>rs_cursor := ?c + 1\<rparr>)" by blast
  have lt: "?i < ?len" using ne by simp
  then have h: "hd (pl_attempts plan) = heads ! ?i" by (simp add: pl hd_drop_conv_nth)
  from Suc.IH [OF at] Suc.prems obtain s2 where
    "plan_run rt route heads n s1 =
       Some (map (\<lambda>j. heads ! (nat (?c + 1 + int j) mod ?len)) [0 ..< n], s2)" by auto
  moreover have "map (\<lambda>j. heads ! (nat (?c + int j) mod ?len)) [0 ..< Suc n] =
      heads ! ?i # map (\<lambda>j. heads ! (nat (?c + 1 + int j) mod ?len)) [0 ..< n]"
    by (simp add: upt_conv_Cons map_Suc_upt [symmetric] del: upt_Suc) (simp add: algebra_simps)
  ultimately show ?case using pl(1) h by simp
qed simp

section \<open>No panic\<close>

text \<open>
  Every stored state was built for a route of its own id: it has running weights exactly when that
  route is weighted, and its cursor counts at most the plans made so far.
\<close>

definition state_ok :: "nat \<Rightarrow> string \<Rightarrow> route_state \<Rightarrow> bool" where
  "state_ok n i st \<longleftrightarrow> 0 \<le> rs_cursor st \<and> rs_cursor st \<le> int n \<and>
     (\<exists>route rt. nul_free_route route \<and> r_id route = i \<and> rs_fingerprint st = schedulerFingerprint route rt \<and>
        (rs_cw st \<noteq> None \<longleftrightarrow> normStrategy route = StrategyWeightedRR))"

definition sched_ok :: "nat \<Rightarrow> scheduler \<Rightarrow> bool" where
  "sched_ok n s \<longleftrightarrow> gm_wf s \<and> (\<forall>i st. gm_get s i = Some st \<longrightarrow> state_ok n i st)"

lemma norm_wrr: "normStrategy route = StrategyWeightedRR \<longleftrightarrow> r_strategy route = StrategyWeightedRR"
  by (auto simp: normStrategy_def StrategyRoundRobin_def StrategyWeightedRR_def)

lemma freshState_ok:
  "nul_free_route route \<Longrightarrow>
   state_ok n (r_id route) ((freshState route (schedulerFingerprint route rt))\<lparr>rs_generation := g\<rparr>)"
  unfolding state_ok_def
  by (intro conjI exI [of _ route] exI [of _ rt]) (auto simp: freshState_def norm_wrr)

lemma stateFor_ok:
  assumes "sched_ok n s" and "nul_free_route route" and "stateFor route rt s = (st, held, s')"
  shows "sched_ok n s'" and "state_ok n (r_id route) st" and "rs_fingerprint st = schedulerFingerprint route rt"
proof -
  note f = freshState_ok [OF assms(2), where n = n and rt = rt]
  have f0: "state_ok n (r_id route) (freshState route (schedulerFingerprint route rt))"
    using f [where g = 0] by (simp add: freshState_def)
  show "sched_ok n s'" "state_ok n (r_id route) st" "rs_fingerprint st = schedulerFingerprint route rt"
    using assms(1,3) f f0
    by (auto simp: stateFor_def Let_def sched_ok_def gm_get_set freshState_def split: option.splits if_splits)
qed

lemma state_ok_cw:
  assumes "state_ok n (r_id route) st" and "nul_free_route route"
    and "rs_fingerprint st = schedulerFingerprint route rt"
  shows "rs_cw st \<noteq> None \<longleftrightarrow> r_strategy route = StrategyWeightedRR"
proof -
  obtain r' rt' where "nul_free_route r'" "rs_fingerprint st = schedulerFingerprint r' rt'"
    and c: "rs_cw st \<noteq> None \<longleftrightarrow> normStrategy r' = StrategyWeightedRR"
    using assms(1) by (auto simp: state_ok_def)
  with assms have "normStrategy route = normStrategy r'" using fingerprint_inject by metis
  with c show ?thesis by (metis norm_wrr)
qed

lemma rotateHeads_ok:
  assumes st: "state_ok n (r_id route) st" and nf: "nul_free_route route"
    and fp: "rs_fingerprint st = schedulerFingerprint route rt" and ne: "heads \<noteq> []" and n: "int n < 2 ^ 63 - 1"
  shows "\<exists>a st'. rotateHeads route heads pool st = Some (a, st') \<and> state_ok (Suc n) (r_id route) st'"
proof (cases "r_strategy route = StrategyWeightedRR")
  case True
  with state_ok_cw [OF st nf fp] obtain cw where cw: "rs_cw st = Some cw" by auto
  obtain best cw' where p: "wrrPick pool cw = (best, cw')" by (cases "wrrPick pool cw")
  have "state_ok (Suc n) (r_id route) (st\<lparr>rs_cw := Some cw'\<rparr>)"
    using st cw unfolding state_ok_def by auto
  then show ?thesis using True cw p by (simp add: rotateHeads_def)
next
  case False
  let ?c = "rs_cursor st"
  have c: "0 \<le> ?c" "?c \<le> int n" using st by (auto simp: state_ok_def)
  have "\<not> ?c smod int (length heads) < 0"
    using c ne by (simp add: smod_nonneg not_less)
  moreover have "wrap64 (?c + 1) = ?c + 1" using c n by (intro wrap64_id) (simp add: in64_def)
  moreover have "state_ok (Suc n) (r_id route) (st\<lparr>rs_cursor := ?c + 1\<rparr>)"
    using st c unfolding state_ok_def by auto
  ultimately show ?thesis using False by (simp add: rotateHeads_def Let_def)
qed

lemma state_ok_Suc: "state_ok n i st \<Longrightarrow> state_ok (Suc n) i st"
  by (force simp: state_ok_def)

lemma Plan_ok:
  assumes "sched_ok n s" and "nul_free_route route" and "int n < 2 ^ 63 - 1"
  shows "\<exists>plan s'. Plan rt route heads s = Some (plan, s') \<and> sched_ok (Suc n) s'"
proof (cases "servable rt route heads")
  case False
  then show ?thesis using assms(1) by (auto simp: Plan_unservable sched_ok_def intro: state_ok_Suc)
next
  case True
  obtain st held s1 where f: "stateFor route rt s = (st, held, s1)" by (cases "stateFor route rt s") auto
  note o = stateFor_ok [OF assms(1,2) f]
  have "heads \<noteq> []" using True by (simp add: servable_def)
  from rotateHeads_ok [OF o(2) assms(2) o(3) this assms(3)] obtain a st' where
    r: "rotateHeads route heads (wrrPool rt heads) st = Some (a, st')" and s: "state_ok (Suc n) (r_id route) st'"
    by blast
  have "sched_ok (Suc n) (if held then gm_set (r_id route) st' s1 else s1)"
    using o(1) s by (auto simp: sched_ok_def gm_get_set intro: state_ok_Suc)
  then show ?thesis by (simp add: Plan_servable [OF True] f r)
qed

lemma PruneRoutes_get:
  "gm_wf s \<Longrightarrow> gm_get (snd (PruneRoutes keep s)) i = (if i \<in> set keep then gm_get s i else None)"
  by (simp add: PruneRoutes_def Let_def gm_get_filter)

lemma PruneRoutes_ok: "sched_ok n s \<Longrightarrow> sched_ok n (snd (PruneRoutes keep s))"
  using PruneRoutes_get [of s keep]
  by (auto simp: sched_ok_def PruneRoutes_def Let_def split: if_splits)

text \<open>The schedulers a server can hold after \<open>n\<close> plans.\<close>

inductive sched_reach :: "nat \<Rightarrow> scheduler \<Rightarrow> bool" where
  sched_new: "sched_reach 0 NewScheduler"
| sched_plan: "sched_reach n s \<Longrightarrow> nul_free_route route \<Longrightarrow> Plan rt route heads s = Some (plan, s') \<Longrightarrow>
    sched_reach (Suc n) s'"
| sched_prune: "sched_reach n s \<Longrightarrow> sched_reach n (snd (PruneRoutes keep s))"

lemma sched_reach_ok: "sched_reach n s \<Longrightarrow> int n < 2 ^ 63 \<Longrightarrow> sched_ok n s"
proof (induction rule: sched_reach.induct)
  case sched_new
  show ?case by (simp add: sched_ok_def NewScheduler_def)
next
  case (sched_plan n s route rt heads plan s')
  then show ?case using Plan_ok [of n s route rt heads] by auto
next
  case (sched_prune n s keep)
  then show ?case by (simp add: PruneRoutes_ok)
qed

section \<open>Generations\<close>

lemma rotateHeads_gen: "rotateHeads route heads pool st = Some (a, st') \<Longrightarrow> rs_generation st' = rs_generation st"
  by (auto simp: rotateHeads_def Let_def split: if_splits option.splits prod.splits)

lemma stateFor_other: "stateFor route rt s = (st, held, s') \<Longrightarrow> i \<noteq> r_id route \<Longrightarrow> gm_get s' i = gm_get s i"
  by (auto simp: stateFor_def Let_def gm_get_set split: option.splits if_splits)

lemma Plan_other:
  assumes "Plan rt route heads s = Some (plan, s')" and "i \<noteq> r_id route"
  shows "gm_get s' i = gm_get s i"
proof (cases "servable rt route heads")
  case True
  with assms show ?thesis
    by (auto simp: Plan_servable gm_get_set stateFor_other split: prod.splits option.splits if_splits)
qed (use assms in \<open>simp add: Plan_unservable\<close>)

lemma rr_rotation:
  assumes "xs \<noteq> []"
  shows "mset (map (\<lambda>j. xs ! ((c + j) mod length xs)) [0 ..< length xs]) = mset xs"
proof -
  have "map (\<lambda>j. xs ! ((c + j) mod length xs)) [0 ..< length xs] = rotate c xs"
    by (rule nth_equalityI) (simp_all add: nth_rotate)
  also have "mset (rotate c xs) = mset xs"
    by (metis append_take_drop_id mset_append rotate_drop_take union_commute)
  finally show ?thesis .
qed

section \<open>A sample runtime\<close>

definition sample_rt :: runtime where
  "sample_rt = buildRuntime sample_file"

definition sample_route :: route where
  "sample_route = f_routes sample_file ! 1"

lemma sample_weights: "route_weight sample_rt ''b'' = 3" "route_weight sample_rt ''direct'' = 1"
  by code_simp+

lemma sample_servable: "servable sample_rt sample_route [''b'', ''direct'']"
  by (simp add: servable_def sample_weights)

lemma sample_pool: "wrrPool sample_rt [''b'', ''direct''] = [\<lparr>wc_id = ''b'', wc_w = 3\<rparr>, \<lparr>wc_id = ''direct'', wc_w = 1\<rparr>]"
  by (simp add: wrrPool_def sample_weights Let_def)

lemma sample_pool_ok: "pool_ok (wrrPool sample_rt [''b'', ''direct''])"
  by (simp add: sample_pool pool_ok_def pool_total_def)

lemma sample_strategy: "r_strategy sample_route = StrategyWeightedRR" "r_id sample_route = ''gpt''"
  by (simp_all add: sample_route_def sample_file_def StrategyWeightedRR_def)

lemma sample_nul_free: "nul_free_route sample_route"
  by (simp add: nul_free_route_def sample_route_def sample_file_def)

lemma Plan_shape:
  assumes "Plan rt route heads s = Some (plan, s')" and "distinct heads"
  shows "pl_egresses plan = map (Egress rt) (pl_attempts plan) \<and>
         (if servable rt route heads
          then mset (pl_attempts plan) = mset heads \<and>
               (r_strategy route = StrategyWeightedRR \<longrightarrow> 0 < route_weight rt (hd (pl_attempts plan)))
          else pl_attempts plan = [] \<and> s' = s)"
proof (cases "servable rt route heads")
  case True
  obtain st held s1 where f: "stateFor route rt s = (st, held, s1)" by (cases "stateFor route rt s") auto
  from assms(1) obtain a st' where r: "rotateHeads route heads (wrrPool rt heads) st = Some (a, st')"
    and p: "pl_attempts plan = a" "pl_egresses plan = resolveEgresses rt a"
    by (auto simp: Plan_servable [OF True] f split: option.splits)
  have "r_strategy route = StrategyWeightedRR \<Longrightarrow> wrrPool rt heads \<noteq> []"
    using True by (auto simp: servable_def wrrPool_empty not_le)
  from mset_rotateHeads [OF r assms(2) this] show ?thesis
    using True by (simp add: p resolveEgresses_def)
next
  case False
  with assms(1) show ?thesis by (auto simp: Plan_unservable emptyPlan_def)
qed

section \<open>Properties\<close>

text \<open>
  C24. A plan for distinct heads holds every head exactly once, resolved against the request's own
  snapshot; under weighted round robin its head has a positive weight. It is empty exactly when
  nothing can be served.
\<close>

theorem Plan_complete:
  assumes "Plan rt route heads s = Some (plan, s')" and "distinct heads"
  shows "pl_egresses plan = map (Egress rt) (pl_attempts plan) \<and>
         (if servable rt route heads
          then mset (pl_attempts plan) = mset heads \<and>
               (r_strategy route = StrategyWeightedRR \<longrightarrow> 0 < route_weight rt (hd (pl_attempts plan)))
          else pl_attempts plan = [] \<and> s' = s)"
  using Plan_shape [OF assms] .

theorem Plan_complete_witness:
  "\<exists>plan s'. Plan sample_rt sample_route [''b'', ''direct''] NewScheduler = Some (plan, s') \<and>
     mset (pl_attempts plan) = {#''b'', ''direct''#}"
proof -
  have "sched_ok 0 NewScheduler" by (simp add: sched_ok_def NewScheduler_def)
  then obtain plan s' where p: "Plan sample_rt sample_route [''b'', ''direct''] NewScheduler = Some (plan, s')"
    using Plan_ok [of 0 NewScheduler sample_route] sample_nul_free by fastforce
  from Plan_complete [OF this] have "mset (pl_attempts plan) = {#''b'', ''direct''#}"
    using sample_servable by simp
  with p show ?thesis by blast
qed

text \<open>
  Planning never panics: on every scheduler reached by fewer than \<open>2\<^sup>6\<^sup>3 - 1\<close> plans, whatever was
  pruned in between, a plan is returned for every route.
\<close>

theorem Plan_never_panics:
  assumes "sched_reach n s" and "int n < 2 ^ 63 - 1" and "nul_free_route route"
  shows "\<exists>plan s'. Plan rt route heads s = Some (plan, s')"
proof -
  have "sched_ok n s" using assms(2) by (intro sched_reach_ok [OF assms(1)]) simp
  from Plan_ok [OF this assms(3,2)] show ?thesis by blast
qed

theorem Plan_never_panics_witness:
  "\<exists>plan s'. Plan sample_rt sample_route [''b''] NewScheduler = Some (plan, s')"
  by (rule Plan_never_panics [OF sched_new _ sample_nul_free]) simp

text \<open>
  Round robin is even: from any rotation position, as many consecutive plans as there are heads
  put each head first exactly once.
\<close>

theorem round_robin_fair:
  assumes "r_strategy route \<noteq> StrategyWeightedRR" and "heads \<noteq> []" and "at_state rt route s st"
    and "0 \<le> rs_cursor st" and "rs_cursor st + int (length heads) < 2 ^ 63"
  shows "\<exists>firsts s'. plan_run rt route heads (length heads) s = Some (firsts, s') \<and> mset firsts = mset heads"
proof -
  have sv: "servable rt route heads" using assms(1,2) by (simp add: servable_def)
  obtain s' where "plan_run rt route heads (length heads) s =
      Some (map (\<lambda>j. heads ! (nat (rs_cursor st + int j) mod length heads)) [0 ..< length heads], s')"
    using plan_run_rr [OF sv assms(1,3,4,5)] by blast
  moreover have "map (\<lambda>j. heads ! (nat (rs_cursor st + int j) mod length heads)) [0 ..< length heads]
      = map (\<lambda>j. heads ! ((nat (rs_cursor st) + j) mod length heads)) [0 ..< length heads]"
    using assms(4) by (simp add: nat_add_distrib)
  ultimately show ?thesis using rr_rotation [OF assms(2)] by auto
qed

theorem round_robin_fair_witness:
  "\<exists>firsts s'. plan_run sample_rt default_route [''b'', ''direct''] 2 NewScheduler = Some (firsts, s') \<and>
     mset firsts = {#''b'', ''direct''#}"
proof -
  let ?st = "(freshState default_route (schedulerFingerprint default_route sample_rt))
               \<lparr>rs_generation := rt_generation sample_rt\<rparr>"
  have "at_state sample_rt default_route NewScheduler ?st" by (simp add: at_state_def NewScheduler_def)
  from round_robin_fair [OF _ _ this, of "[''b'', ''direct'']"] show ?thesis
    by (simp add: freshState_def default_route_def defaultStrategy_def StrategyRoundRobin_def StrategyWeightedRR_def
             numeral_2_eq_2)
qed

text \<open>
  Smooth weighted round robin is exact: from fresh state, over as many consecutive plans as the
  weights add up to, each head of positive weight comes first exactly as often as its weight says,
  although the running weights live in 64-bit integers.
\<close>

theorem weighted_round_robin_fair:
  assumes "r_strategy route = StrategyWeightedRR" and "gm_get s (r_id route) = None"
    and "pool_ok (wrrPool rt heads)"
  shows "\<exists>firsts s'. plan_run rt route heads (nat (pool_total (wrrPool rt heads))) s = Some (firsts, s') \<and>
           (\<forall>i \<in> set heads. int (count_list firsts i) = max 0 (route_weight rt i))"
proof -
  let ?pool = "wrrPool rt heads" and ?n = "nat (pool_total (wrrPool rt heads))"
  let ?st = "(freshState route (schedulerFingerprint route rt))\<lparr>rs_generation := rt_generation rt\<rparr>"
  have sv: "servable rt route heads"
    using assms(3) wrrPool_empty [of rt heads] by (auto simp: servable_def pool_ok_def wrrPool_def not_le)
  have at: "at_state rt route s ?st" using assms(2) by (simp add: at_state_def)
  have cw: "rs_cw ?st = Some []" using assms(1) by (simp add: freshState_def)
  obtain firsts cw' where r: "wrrRun ?pool ?n [] = (firsts, cw')" by (cases "wrrRun ?pool ?n []")
  obtain s' where "plan_run rt route heads ?n s = Some (firsts, s')"
    using plan_run_wrr [OF sv assms(1) at cw r] by blast
  moreover have "int (count_list firsts i) = max 0 (route_weight rt i)" if i: "i \<in> set heads" for i
  proof (cases "0 < route_weight rt i")
    case True
    with i have "i \<in> pool_ids ?pool" by (simp add: pool_ids_pool)
    then obtain c where c: "c \<in> set ?pool" "wc_id c = i" by (auto simp: pool_ids_def)
    with wrrRun_cycle(1) [OF assms(3) r c(1)] wrrPool_weight [OF c(1)] show ?thesis by simp
  next
    case False
    then have "i \<notin> pool_ids ?pool" by (simp add: pool_ids_pool)
    moreover have "set firsts \<subseteq> pool_ids ?pool"
      using wrrRun_effect [OF assms(3) wrr_inv_empty [OF assms(3)] r] by simp
    ultimately have "count_list firsts i = 0" by (auto simp: count_list_0_iff)
    with False show ?thesis by simp
  qed
  ultimately show ?thesis by blast
qed

theorem weighted_round_robin_fair_witness:
  "\<exists>firsts s'. plan_run sample_rt sample_route [''b'', ''direct''] 4 NewScheduler = Some (firsts, s') \<and>
     count_list firsts ''b'' = 3 \<and> count_list firsts ''direct'' = 1"
proof -
  have "gm_get NewScheduler (r_id sample_route) = None" by (simp add: NewScheduler_def)
  from weighted_round_robin_fair [OF sample_strategy(1) this sample_pool_ok] show ?thesis
    by (fastforce simp: sample_weights sample_pool pool_total_def)
qed

text \<open>
  Rotation survives reloads safely: a plan touches no other route's state; a plan from a
  superseded generation whose shape differs changes nothing; and no plan lowers the generation of
  the stored state.
\<close>

theorem Plan_generation_guard:
  assumes "Plan rt route heads s = Some (plan, s')"
  shows "(\<forall>i. i \<noteq> r_id route \<longrightarrow> gm_get s' i = gm_get s i) \<and>
         (\<forall>cur. gm_get s (r_id route) = Some cur \<longrightarrow>
            (rs_fingerprint cur \<noteq> schedulerFingerprint route rt \<and> rt_generation rt < rs_generation cur \<longrightarrow> s' = s) \<and>
            (\<exists>st'. gm_get s' (r_id route) = Some st' \<and> rs_generation cur \<le> rs_generation st'))"
proof (cases "servable rt route heads")
  case True
  obtain st held s1 where f: "stateFor route rt s = (st, held, s1)" by (cases "stateFor route rt s") auto
  from assms obtain a st' where r: "rotateHeads route heads (wrrPool rt heads) st = Some (a, st')"
    and s': "s' = (if held then gm_set (r_id route) st' s1 else s1)"
    by (auto simp: Plan_servable [OF True] f split: option.splits)
  have g: "rs_generation st' = rs_generation st" by (rule rotateHeads_gen [OF r])
  show ?thesis using Plan_other [OF assms] f g
    by (auto simp: s' stateFor_def Let_def gm_get_set split: option.splits if_splits)
next
  case False
  with assms show ?thesis by (auto simp: Plan_unservable)
qed

theorem Plan_generation_guard_witness:
  "\<exists>plan. Plan sample_rt sample_route [''b''] [(''gpt'', \<lparr>rs_fingerprint = [], rs_generation = 7, rs_cursor = 0, rs_cw = None\<rparr>)]
     = Some (plan, [(''gpt'', \<lparr>rs_fingerprint = [], rs_generation = 7, rs_cursor = 0, rs_cw = None\<rparr>)])"
proof -
  let ?cur = "\<lparr>rs_fingerprint = [], rs_generation = 7, rs_cursor = 0, rs_cw = None\<rparr>"
  have g: "rt_generation sample_rt = 0" by (simp add: sample_rt_def buildRuntime_def Let_def)
  have fp: "schedulerFingerprint sample_route sample_rt \<noteq> []" by (simp add: schedulerFingerprint_def Let_def)
  have sv: "servable sample_rt sample_route [''b'']" by (simp add: servable_def sample_weights)
  obtain best cw' where "wrrPick (wrrPool sample_rt [''b'']) [] = (best, cw')" by (rule prod.exhaust)
  then obtain plan s' where p: "Plan sample_rt sample_route [''b''] [(''gpt'', ?cur)] = Some (plan, s')"
    using fp by (auto simp: Plan_servable [OF sv] stateFor_def Let_def g sample_strategy rotateHeads_def
                   freshState_def split: prod.splits)
  from Plan_generation_guard [OF p] fp g have "s' = [(''gpt'', ?cur)]" by (simp add: sample_strategy)
  with p show ?thesis by blast
qed

text \<open>
  The fingerprint identifies the rotation's shape: equal fingerprints mean the same strategy, the
  same route, the same members in the same order and, when weighted, the same weights.
\<close>

theorem fingerprint_injective:
  assumes "nul_free_route r" and "nul_free_route r'"
    and "schedulerFingerprint r rt = schedulerFingerprint r' rt'"
  shows "normStrategy r = normStrategy r' \<and> r_id r = r_id r' \<and> r_egress r = r_egress r' \<and>
         (normStrategy r = StrategyWeightedRR \<longrightarrow>
            (\<forall>i \<in> set (r_egress r). route_weight rt i = route_weight rt' i))"
  by (rule fingerprint_inject [OF assms])

theorem fingerprint_injective_witness:
  "schedulerFingerprint (sample_route\<lparr>r_strategy := []\<rparr>) sample_rt =
     schedulerFingerprint (sample_route\<lparr>r_strategy := StrategyRoundRobin\<rparr>) DefaultRuntime \<and>
   r_egress sample_route = r_egress sample_route"
proof -
  let ?a = "sample_route\<lparr>r_strategy := []\<rparr>" and ?b = "sample_route\<lparr>r_strategy := StrategyRoundRobin\<rparr>"
  have "nul_free_route ?a" "nul_free_route ?b"
    using sample_nul_free by (simp_all add: nul_free_route_def StrategyRoundRobin_def)
  moreover have eq: "schedulerFingerprint ?a sample_rt = schedulerFingerprint ?b DefaultRuntime"
    by (simp add: schedulerFingerprint_def normStrategy_def Let_def StrategyRoundRobin_def StrategyWeightedRR_def)
  ultimately show ?thesis using fingerprint_injective [of ?a ?b sample_rt DefaultRuntime] by simp
qed

end
