(* ===== verification/Server.thy ===== *)
theory Server
  imports ExecutorProps Planning
begin

text \<open>
  The process-wide wiring (\<^verbatim>\<open>internal/router/server.go\<close>), the construction of per-egress clients
  (\<^verbatim>\<open>NewClientFor\<close> of \<^verbatim>\<open>internal/upstream/transport.go\<close>), and the routing part of a request
  (\<^verbatim>\<open>relay\<close> of \<^verbatim>\<open>internal/router/handler.go\<close>): match a route of the snapshot taken on arrival, pin the
  health identities, run the once-per-generation maintenance, filter to the eligible egresses, plan, walk.

  Each locked section is one step. The nil registry and limiter of hand-built servers are kept as
  options.
\<close>

section \<open>Clients\<close>

text \<open>The parameter \<open>q\<close> is \<^verbatim>\<open>strconv.Quote\<close>, the text of the \<^verbatim>\<open>%q\<close> verb.\<close>

definition NewClientFor :: "(string \<Rightarrow> string) \<Rightarrow> go_url \<Rightarrow> proxy option \<Rightarrow> string + client" where
  "NewClientFor q gu p = (case p of
     None \<Rightarrow> Inr \<lparr>cl_tunneled = False, cl_follow = True\<rparr>
   | Some px \<Rightarrow> (case gu_parse gu (p_url px) of
       Inl reason \<Rightarrow> Inl (''egress proxy '' @ RedactProxyURL gu (p_url px) @ '': '' @ reason)
     | Inr u \<Rightarrow>
         if p_type px = ProxyHTTP \<or> p_type px = ProxyHTTPS then Inr \<lparr>cl_tunneled = True, cl_follow = True\<rparr>
         else if p_type px = ProxySOCKS5 then Inr \<lparr>cl_tunneled = False, cl_follow = True\<rparr>
         else Inl (''egress proxy '' @ RedactProxyURL gu (p_url px) @ '': unknown type '' @ q (p_type px))))"

lemma egress_client_follows: "NewClientFor q gu p = Inr c \<Longrightarrow> cl_follow c"
  by (auto simp: NewClientFor_def split: option.splits sum.splits if_splits)

record server =
  sv_sched :: "scheduler option"
  sv_health :: "registry option"
  sv_slots :: "limiter option"
  sv_clients :: "(string, client) gomap"
  sv_pruned :: nat
  sv_draining :: bool

definition NewServer :: server where
  "NewServer = \<lparr>sv_sched = Some NewScheduler, sv_health = Some New, sv_slots = Some NewLimiter, sv_clients = [],
     sv_pruned = 0, sv_draining = False\<rparr>"

definition Drain :: "server \<Rightarrow> server" where
  "Drain s = s\<lparr>sv_draining := True\<rparr>"

definition clientForEgress :: "(string \<Rightarrow> string) \<Rightarrow> go_url \<Rightarrow> egress \<Rightarrow> server \<Rightarrow> client option \<times> server" where
  "clientForEgress q gu e s =
     (let sig = TransportSignature e in
      case gm_get (sv_clients s) sig of
        Some c \<Rightarrow> (Some c, s)
      | None \<Rightarrow> (case NewClientFor q gu (e_proxy e) of
          Inl _ \<Rightarrow> (None, s)
        | Inr c \<Rightarrow> (Some c, s\<lparr>sv_clients := gm_set sig c (sv_clients s)\<rparr>)))"

section \<open>Generation maintenance\<close>

definition route_egresses :: "runtime \<Rightarrow> route \<Rightarrow> egress list" where
  "route_egresses rt r = List.map_filter (Egress rt) (r_egress r)"

definition generationKeepSets :: "runtime \<Rightarrow> string list \<times> string list \<times> string list" where
  "generationKeepSets rt =
     (concat (map (\<lambda>r. map TransportSignature (route_egresses rt r)) (Routes rt)),
      concat (map (\<lambda>r. map HealthKey (route_egresses rt r)) (Routes rt)),
      map r_id (Routes rt))"

definition pruneClientsLocked :: "string list \<Rightarrow> server \<Rightarrow> server" where
  "pruneClientsLocked keep s = s\<lparr>sv_clients := filter (\<lambda>(sig, c). sig \<in> set keep) (sv_clients s)\<rparr>"

definition onGeneration :: "runtime \<Rightarrow> server \<Rightarrow> server" where
  "onGeneration rt s =
     (if rt_generation rt = 0 then s
      else if sv_pruned s \<ge> rt_generation rt then s
      else (case generationKeepSets rt of (sigs, active, routes) \<Rightarrow>
        (pruneClientsLocked sigs (s\<lparr>sv_pruned := rt_generation rt\<rparr>))
          \<lparr>sv_health := map_option (\<lambda>r. snd (Reclaim active r)) (sv_health s),
           sv_sched := map_option (\<lambda>sc. snd (PruneRoutes routes sc)) (sv_sched s)\<rparr>))"

section \<open>Eligibility\<close>

text \<open>\<open>clk i\<close> is the clock when the health of egress \<open>i\<close> is asked.\<close>

definition headOk :: "(string \<Rightarrow> int) \<Rightarrow> runtime \<Rightarrow> profile \<Rightarrow> hpolicy \<Rightarrow> server \<Rightarrow> string \<Rightarrow> bool" where
  "headOk clk rt p hp s i = (case Egress rt i of
     None \<Rightarrow> False
   | Some e \<Rightarrow>
       if \<not> IsEnabled e then False
       else if \<not> AcceptsStreaming e \<and> pr_streaming p then False
       else if e_models e \<noteq> [] \<and> \<not> ModelAllowed (e_models e) (pr_model p) then False
       else if e_max_body_bytes e > 0 \<and> pr_body_bytes p > e_max_body_bytes e then False
       else if (case sv_health s of None \<Rightarrow> False | Some r \<Rightarrow> \<not> Healthy (HealthKey e) hp (clk i) r) then False
       else if (case sv_slots s of None \<Rightarrow> False | Some l \<Rightarrow> \<not> Peek l i (e_max_concurrency e)) then False
       else True)"

fun routeHeadsLoop :: "(string \<Rightarrow> bool) \<Rightarrow> string list \<Rightarrow> string list" where
  "routeHeadsLoop ok [] = []"
| "routeHeadsLoop ok (i # is) = (if ok i then i # routeHeadsLoop ok is else routeHeadsLoop ok is)"

definition routeHeads :: "(string \<Rightarrow> int) \<Rightarrow> runtime \<Rightarrow> route \<Rightarrow> profile \<Rightarrow> hpolicy \<Rightarrow> server \<Rightarrow> string list" where
  "routeHeads clk rt route p hp s = routeHeadsLoop (headOk clk rt p hp s) (r_egress route)"

definition routeHealthKeys :: "runtime \<Rightarrow> route \<Rightarrow> string list" where
  "routeHealthKeys rt route = map HealthKey (route_egresses rt route)"

section \<open>The routing part of a request\<close>

definition attemptPolicy :: "runtime \<Rightarrow> hpolicy \<Rightarrow> string list \<Rightarrow> attempt_policy" where
  "attemptPolicy rt hp heads =
     \<lparr>ap_fallback_enabled = (case fb_enabled (rt_fallback rt) of None \<Rightarrow> True | Some b \<Rightarrow> b),
      ap_max_attempts = fb_max_attempts (rt_fallback rt),
      ap_max_concurrency = fold (\<lambda>i m. case Egress rt i of
          None \<Rightarrow> m | Some e \<Rightarrow> gm_set i (e_max_concurrency e) m) heads [],
      ap_health_policy = hp\<rparr>"

datatype relay_outcome =
    NoRoute
  | NoEligible string
  | PlanPanic
  | Executed route_plan exec_result

text \<open>
  \<open>others k\<close> is what concurrent requests do to the server before the request pins (\<open>k = 0\<close>), before
  its maintenance (1), before it reads eligibility (2), before it plans (3), and before its pins are
  released (4); during the walk their effect is in the environment of the executor.
\<close>

text \<open>The plan, its eligible egresses and the pinned health identities; or an answer without a dial.\<close>

definition releasePins :: "string list \<Rightarrow> server \<Rightarrow> server" where
  "releasePins keys t = t\<lparr>sv_health := map_option (PinRelease keys) (sv_health t)\<rparr>"

definition relayPlan ::
  "(nat \<Rightarrow> server \<Rightarrow> server) \<Rightarrow> (string \<Rightarrow> int) \<Rightarrow> runtime \<Rightarrow> profile \<Rightarrow> server \<Rightarrow>
   (relay_outcome + string list \<times> string list \<times> route_plan) \<times> server" where
  "relayPlan others clk rt p s =
     (let hp = PolicyFromSnapshot rt in
      case MatchRoute rt (pr_streaming p) (pr_body_bytes p) (pr_model p) of
        None \<Rightarrow> (Inl NoRoute, s)
      | Some route \<Rightarrow>
          let s0 = others 0 s;
              keys = routeHealthKeys rt route;
              s1 = others 1 (s0\<lparr>sv_health := map_option (Pin keys) (sv_health s0)\<rparr>);
              s2 = others 2 (onGeneration rt s1);
              heads = routeHeads clk rt route p hp s2
          in if heads = [] then (Inl (NoEligible (r_id route)), releasePins keys (others 4 s2))
             else let s3 = others 3 s2 in
               case sv_sched s3 of
                 None \<Rightarrow> (Inl PlanPanic, releasePins keys (others 4 s3))
               | Some sc \<Rightarrow> (case Plan rt route heads sc of
                   None \<Rightarrow> (Inl PlanPanic, releasePins keys (others 4 s3))
                 | Some (plan, sc') \<Rightarrow> (Inr (keys, heads, plan), s3\<lparr>sv_sched := Some sc'\<rparr>)))"

definition relayExec ::
  "exec_env \<Rightarrow> (nat \<Rightarrow> server \<Rightarrow> server) \<Rightarrow> runtime \<Rightarrow> string list \<Rightarrow> string list \<Rightarrow> route_plan \<Rightarrow> server \<Rightarrow> exec_result \<times> server" where
  "relayExec env others rt keys heads plan s4 =
     (let res = ExecuteObserved env plan (attemptPolicy rt (PolicyFromSnapshot rt) heads) (sv_health s4, sv_slots s4) NewRecorder;
          s5 = s4\<lparr>sv_health := fst (xr_shared res), sv_slots := snd (xr_shared res)\<rparr>
      in (res, releasePins keys (others 4 s5)))"

definition relayRoute ::
  "exec_env \<Rightarrow> (nat \<Rightarrow> server \<Rightarrow> server) \<Rightarrow> (string \<Rightarrow> int) \<Rightarrow> runtime \<Rightarrow> profile \<Rightarrow> server \<Rightarrow> relay_outcome \<times> server" where
  "relayRoute env others clk rt p s = (case relayPlan others clk rt p s of
     (Inl out, s') \<Rightarrow> (out, s')
   | (Inr (keys, heads, plan), s4) \<Rightarrow> (case relayExec env others rt keys heads plan s4 of (res, s') \<Rightarrow> (Executed plan res, s')))"

section \<open>Clients are determined by their signature\<close>

definition known_type :: "egress \<Rightarrow> bool" where
  "known_type e \<longleftrightarrow> (case e_proxy e of None \<Rightarrow> True | Some p \<Rightarrow> p_type p \<in> {ProxyHTTP, ProxyHTTPS, ProxySOCKS5})"

definition clients_ok :: "(string \<Rightarrow> string) \<Rightarrow> go_url \<Rightarrow> server \<Rightarrow> bool" where
  "clients_ok q gu s \<longleftrightarrow> gm_wf (sv_clients s) \<and> (\<forall>sig c. gm_get (sv_clients s) sig = Some c \<longrightarrow>
     (\<exists>e. known_type e \<and> TransportSignature e = sig \<and> NewClientFor q gu (e_proxy e) = Inr c))"

lemma colon_split:
  assumes "CHR '':'' \<notin> set a" and "CHR '':'' \<notin> set b" and "a @ '':'' @ x = b @ '':'' @ y"
  shows "a = b \<and> x = y"
proof -
  have t: "takeWhile (\<lambda>c. c \<noteq> CHR '':'') (w @ '':'' @ z) = w" if "CHR '':'' \<notin> set w" for w z :: string
    using that by (induction w) auto
  have "a = b" using t [OF assms(1), of x] t [OF assms(2), of y] assms(3) by simp
  with assms(3) show ?thesis by simp
qed

lemma signature_proxy:
  assumes "known_type a" and "known_type b" and "TransportSignature a = TransportSignature b"
  shows "e_proxy a = e_proxy b"
proof -
  have t: "t \<in> {ProxyHTTP, ProxyHTTPS, ProxySOCKS5} \<Longrightarrow> CHR '':'' \<notin> set t \<and> hd t \<noteq> CHR ''d'' \<and> t \<noteq> []" for t
    by (auto simp: ProxyHTTP_def ProxyHTTPS_def ProxySOCKS5_def)
  have nd: "t @ '':'' @ u \<noteq> ''direct''" if "t \<in> {ProxyHTTP, ProxyHTTPS, ProxySOCKS5}" for t u
    using t [OF that] by (cases t) auto
  show ?thesis
  proof (cases "e_proxy a"; cases "e_proxy b")
    fix p q assume pq: "e_proxy a = Some p" "e_proxy b = Some q"
    then have "p_type p = p_type q \<and> p_url p = p_url q"
      using assms t by (intro colon_split) (auto simp: known_type_def TransportSignature_def)
    then show ?thesis using pq by simp
  qed (use assms nd in \<open>auto simp: known_type_def TransportSignature_def dest: sym\<close>)
qed

lemma clientForEgress_fresh:
  assumes "clients_ok q gu s" and "known_type e"
  shows "fst (clientForEgress q gu e s) = (case NewClientFor q gu (e_proxy e) of Inl _ \<Rightarrow> None | Inr c \<Rightarrow> Some c)"
proof (cases "gm_get (sv_clients s) (TransportSignature e)")
  case None
  then show ?thesis by (simp add: clientForEgress_def Let_def split: sum.splits)
next
  case (Some c)
  then obtain e' where "known_type e'" "TransportSignature e' = TransportSignature e" "NewClientFor q gu (e_proxy e') = Inr c"
    using assms(1) by (auto simp: clients_ok_def)
  with Some signature_proxy [OF this(1) assms(2)] show ?thesis by (simp add: clientForEgress_def Let_def)
qed

lemma clients_ok_step:
  assumes "clients_ok q gu s" and "known_type e"
  shows "clients_ok q gu (snd (clientForEgress q gu e s))"
  using assms by (auto simp: clients_ok_def clientForEgress_def Let_def gm_get_set split: option.splits sum.splits)

lemma clients_ok_prune: "clients_ok q gu s \<Longrightarrow> clients_ok q gu (pruneClientsLocked keep s)"
  by (auto simp: clients_ok_def pruneClientsLocked_def gm_get_filter split: if_splits)

lemma clients_ok_generation: "clients_ok q gu s \<Longrightarrow> clients_ok q gu (onGeneration rt s)"
  using clients_ok_prune [of q gu "s\<lparr>sv_pruned := rt_generation rt\<rparr>"]
  by (auto simp: onGeneration_def clients_ok_def pruneClientsLocked_def split: prod.splits)

section \<open>Reachable servers\<close>

text \<open>Requests resolve clients of their snapshots and service generations, in any order.\<close>

inductive srv_step :: "(string \<Rightarrow> string) \<Rightarrow> go_url \<Rightarrow> server \<Rightarrow> server \<Rightarrow> bool" for q gu where
  srv_client: "known_type e \<Longrightarrow> srv_step q gu s (snd (clientForEgress q gu e s))"
| srv_generation: "srv_step q gu s (onGeneration rt s)"
| srv_drain: "srv_step q gu s (Drain s)"

inductive_cases srv_step_cases: "srv_step q gu s s'"

lemma clients_ok_drain: "clients_ok q gu s \<Longrightarrow> clients_ok q gu (Drain s)"
  by (simp add: clients_ok_def Drain_def)

lemma clients_ok_srv: "srv_step q gu s s' \<Longrightarrow> clients_ok q gu s \<Longrightarrow> clients_ok q gu s'"
  by (erule srv_step_cases) (simp_all add: clients_ok_step clients_ok_generation clients_ok_drain)

lemma clients_ok_reach: "(srv_step q gu)\<^sup>*\<^sup>* NewServer s \<Longrightarrow> clients_ok q gu s"
  by (induction rule: rtranclp_induct) (auto simp: clients_ok_srv, simp add: clients_ok_def NewServer_def)

lemma pruned_mono: "srv_step q gu s s' \<Longrightarrow> sv_pruned s \<le> sv_pruned s'"
  by (erule srv_step_cases)
     (auto simp: clientForEgress_def Let_def onGeneration_def pruneClientsLocked_def Drain_def split: option.splits sum.splits prod.splits)

lemma pruned_reach: "(srv_step q gu)\<^sup>*\<^sup>* s s' \<Longrightarrow> sv_pruned s \<le> sv_pruned s'"
  by (induction rule: rtranclp_induct) (auto dest: pruned_mono)

lemma onGeneration_pruned: "sv_pruned (onGeneration rt s) = max (sv_pruned s) (rt_generation rt)"
  by (simp add: onGeneration_def pruneClientsLocked_def split: prod.splits)

lemma onGeneration_stale: "rt_generation rt \<le> sv_pruned s \<Longrightarrow> onGeneration rt s = s"
  by (simp add: onGeneration_def)

section \<open>Heads\<close>

lemma routeHeads_filter: "routeHeads clk rt route p hp s = filter (headOk clk rt p hp s) (r_egress route)"
proof -
  have "routeHeadsLoop ok is = filter ok is" for ok "is" by (induction "is") auto
  then show ?thesis by (simp add: routeHeads_def)
qed

text \<open>What a request may be sent to, by its snapshot alone.\<close>

definition servesRequest :: "runtime \<Rightarrow> profile \<Rightarrow> string \<Rightarrow> bool" where
  "servesRequest rt p i \<longleftrightarrow> (\<exists>e. Egress rt i = Some e \<and> IsEnabled e \<and> (AcceptsStreaming e \<or> \<not> pr_streaming p)
     \<and> (e_models e = [] \<or> ModelAllowed (e_models e) (pr_model p))
     \<and> (e_max_body_bytes e \<le> 0 \<or> pr_body_bytes p \<le> e_max_body_bytes e))"

lemma headOk_serves: "headOk clk rt p hp s i \<Longrightarrow> servesRequest rt p i"
  unfolding headOk_def servesRequest_def by (cases "Egress rt i") (simp, fastforce split: if_splits)

lemma attemptPolicy_budget: "fb_enabled (rt_fallback rt) = Some b \<Longrightarrow> 1 \<le> fb_max_attempts (rt_fallback rt) \<Longrightarrow>
    Budget (attemptPolicy rt hp heads) = (if b then fb_max_attempts (rt_fallback rt) else 1)"
  by (simp add: Budget_def attemptPolicy_def)

section \<open>Properties\<close>

text \<open>
  C32. The client cache is transparent: in every server reached by resolving clients, servicing
  generations and draining, in any order, resolving an egress gives exactly the client a fresh build
  for its transport would give.
\<close>

theorem client_cache_transparent:
  assumes "(srv_step q gu)\<^sup>*\<^sup>* NewServer s" and "known_type e"
  shows "fst (clientForEgress q gu e s) = (case NewClientFor q gu (e_proxy e) of Inl _ \<Rightarrow> None | Inr c \<Rightarrow> Some c)"
  by (rule clientForEgress_fresh [OF clients_ok_reach [OF assms(1)] assms(2)])

theorem client_cache_transparent_witness:
  "fst (clientForEgress id walk_gu direct_egress (onGeneration DefaultRuntime NewServer)) =
     Some \<lparr>cl_tunneled = False, cl_follow = True\<rparr>"
proof -
  have "(srv_step id walk_gu)\<^sup>*\<^sup>* NewServer (onGeneration DefaultRuntime NewServer)"
    by (rule r_into_rtranclp) (rule srv_generation)
  from client_cache_transparent [OF this, of direct_egress] show ?thesis
    by (simp add: known_type_def direct_egress_def NewClientFor_def)
qed

text \<open>
  Generation maintenance runs against the newest snapshot only: whatever happened before, servicing
  a snapshot no newer than one already serviced changes nothing, and right after servicing a newer one
  every cached transport, every route's rotation state and every unpinned health identity is one the
  new snapshot names.
\<close>

theorem generation_maintenance:
  assumes "(srv_step q gu)\<^sup>*\<^sup>* (onGeneration new s0) s" and "rt_generation old \<le> rt_generation new"
    and "sv_pruned s0 < rt_generation new" and "sv_health s0 = Some reg" and "sv_sched s0 = Some sc"
  shows "onGeneration old s = s \<and>
     (case generationKeepSets new of (sigs, active, routes) \<Rightarrow>
        set (map fst (sv_clients (onGeneration new s0))) \<subseteq> set sigs \<and>
        set (map fst (the (sv_sched (onGeneration new s0)))) \<subseteq> set routes \<and>
        (\<exists>reg'. sv_health (onGeneration new s0) = Some reg' \<and>
          list_all (\<lambda>(k, st). k \<in> set active \<or> 0 < gm_count (rg_refs reg) k) (rg_states reg')))"
proof -
  have "rt_generation old \<le> sv_pruned s"
    using pruned_reach [OF assms(1)] assms(2) by (simp add: onGeneration_pruned)
  then have "onGeneration old s = s" by (rule onGeneration_stale)
  then show ?thesis using assms(3-5)
    by (auto simp: onGeneration_def pruneClientsLocked_def Reclaim_def PruneRoutes_def Let_def list_all_iff split: prod.splits)
qed

theorem generation_maintenance_witness:
  "onGeneration DefaultRuntime (onGeneration (DefaultRuntime\<lparr>rt_generation := 1\<rparr>) NewServer) =
     onGeneration (DefaultRuntime\<lparr>rt_generation := 1\<rparr>) NewServer"
proof -
  have "(srv_step id walk_gu)\<^sup>*\<^sup>* (onGeneration (DefaultRuntime\<lparr>rt_generation := 1\<rparr>) NewServer)
      (onGeneration (DefaultRuntime\<lparr>rt_generation := 1\<rparr>) NewServer)" by simp
  from generation_maintenance [OF this, of DefaultRuntime New NewScheduler] show ?thesis
    by (simp add: NewServer_def New_def DefaultRuntime_def)
qed

end
