(* ===== verification/LineScan.thy ===== *)
theory LineScan
  imports GoStrings "HOL-Library.Sublist"
begin

text \<open>
  The line scanner of streamed bodies (\<^verbatim>\<open>ScanLines\<close> of \<^verbatim>\<open>internal/upstream/client.go\<close>): a reader goroutine
  splits what it reads into lines and a consumer hands them to a callback, over channels of bounded
  capacity, under cancellation and a stall timer. The two run as the steps of one relation, in any
  interleaving. A read returns bytes and perhaps the end of the stream; the timer may fire whenever the
  consumer waits, and a callback may fail on any line. (A coalesced progress ping only re-arms the timer.)
\<close>

datatype read_end = EOF | Broken string

datatype scan_result = ScanOK | ScanRead string | ScanFn string | ScanStall | ScanCtx

record scan =
  sn_reads :: "(string \<times> read_end option) list"
  sn_pending :: string
  sn_out :: "string list"
  sn_stop :: "read_end option"
  sn_lines :: "string list"
  sn_tails :: "string option"
  sn_readErr :: "string option"
  sn_closed :: bool
  sn_cancel :: bool
  sn_seen :: "string list"
  sn_tail :: "string option"
  sn_res :: "scan_result option"

abbreviation nl :: char where
  "nl \<equiv> CHR 0x0A"

text \<open>The complete lines of the pending bytes, newline included, and what is left.\<close>

fun takeLines :: "string \<Rightarrow> string \<Rightarrow> string list \<times> string" where
  "takeLines acc [] = ([], acc)"
| "takeLines acc (c # cs) = (if c = nl then (case takeLines [] cs of (ls, rest) \<Rightarrow> ((acc @ [c]) # ls, rest)) else takeLines (acc @ [c]) cs)"

definition scan_start :: "(string \<times> read_end option) list \<Rightarrow> scan" where
  "scan_start reads = \<lparr>sn_reads = reads, sn_pending = [], sn_out = [], sn_stop = None, sn_lines = [], sn_tails = None,
     sn_readErr = None, sn_closed = False, sn_cancel = False, sn_seen = [], sn_tail = None, sn_res = None\<rparr>"

definition linesCap :: nat where
  "linesCap = 64"

inductive scan_step :: "scan \<Rightarrow> scan \<Rightarrow> bool" where
  rd_read: "\<not> sn_closed s \<Longrightarrow> sn_out s = [] \<Longrightarrow> sn_stop s = None \<Longrightarrow> sn_reads s = (c, e) # rs \<Longrightarrow>
     takeLines [] (sn_pending s @ c) = (ls, rest) \<Longrightarrow>
     scan_step s (s\<lparr>sn_reads := rs, sn_pending := rest, sn_out := ls, sn_stop := e\<rparr>)"
| rd_send: "\<not> sn_closed s \<Longrightarrow> sn_out s = l # ls \<Longrightarrow> length (sn_lines s) < linesCap \<Longrightarrow>
     scan_step s (s\<lparr>sn_out := ls, sn_lines := sn_lines s @ [l]\<rparr>)"
| rd_abort: "\<not> sn_closed s \<Longrightarrow> sn_out s \<noteq> [] \<Longrightarrow> sn_cancel s \<Longrightarrow> scan_step s (s\<lparr>sn_closed := True\<rparr>)"
| rd_eof: "\<not> sn_closed s \<Longrightarrow> sn_out s = [] \<Longrightarrow> sn_stop s = Some EOF \<Longrightarrow>
     scan_step s (s\<lparr>sn_tails := (if sn_pending s = [] then None else Some (sn_pending s)), sn_closed := True\<rparr>)"
| rd_eof_abort: "\<not> sn_closed s \<Longrightarrow> sn_out s = [] \<Longrightarrow> sn_stop s = Some EOF \<Longrightarrow> sn_cancel s \<Longrightarrow>
     scan_step s (s\<lparr>sn_closed := True\<rparr>)"
| rd_broken: "\<not> sn_closed s \<Longrightarrow> sn_out s = [] \<Longrightarrow> sn_stop s = Some (Broken e) \<Longrightarrow>
     scan_step s (s\<lparr>sn_readErr := Some e, sn_closed := True\<rparr>)"
| cancelled: "scan_step s (s\<lparr>sn_cancel := True\<rparr>)"
| cs_line: "sn_res s = None \<Longrightarrow> sn_lines s = l # ls \<Longrightarrow>
     scan_step s (s\<lparr>sn_lines := ls, sn_seen := sn_seen s @ [trimRightByte l nl]\<rparr>)"
| cs_line_err: "sn_res s = None \<Longrightarrow> sn_lines s = l # ls \<Longrightarrow>
     scan_step s (s\<lparr>sn_lines := ls, sn_seen := sn_seen s @ [trimRightByte l nl], sn_res := Some (ScanFn e)\<rparr>)"
| cs_end: "sn_res s = None \<Longrightarrow> sn_lines s = [] \<Longrightarrow> sn_closed s \<Longrightarrow>
     scan_step s (s\<lparr>sn_tail := sn_tails s, sn_tails := None,
       sn_res := Some (case sn_readErr s of Some e \<Rightarrow> ScanRead e | None \<Rightarrow> ScanOK)\<rparr>)"
| cs_end_err: "sn_res s = None \<Longrightarrow> sn_lines s = [] \<Longrightarrow> sn_closed s \<Longrightarrow> sn_tails s = Some t \<Longrightarrow>
     scan_step s (s\<lparr>sn_tail := Some t, sn_tails := None, sn_res := Some (ScanFn e)\<rparr>)"
| cs_stall: "sn_res s = None \<Longrightarrow> scan_step s (s\<lparr>sn_res := Some ScanStall\<rparr>)"
| cs_ctx: "sn_res s = None \<Longrightarrow> sn_cancel s \<Longrightarrow> scan_step s (s\<lparr>sn_res := Some ScanCtx\<rparr>)"

section \<open>Lines\<close>

definition is_line :: "string \<Rightarrow> bool" where
  "is_line l \<longleftrightarrow> l \<noteq> [] \<and> last l = nl \<and> nl \<notin> set (butlast l)"

lemma takeLines_split:
  assumes "takeLines acc s = (ls, rest)" and "nl \<notin> set acc"
  shows "acc @ s = concat ls @ rest \<and> list_all is_line ls \<and> nl \<notin> set rest"
  using assms
proof (induction acc s arbitrary: ls rest rule: takeLines.induct)
  case (2 acc c cs)
  show ?case
  proof (cases "c = nl")
    case True
    obtain ls' where t: "takeLines [] cs = (ls', rest)" "ls = (acc @ [c]) # ls'"
      using 2(3) True by (auto split: prod.splits)
    with 2(1) [OF True t(1)] show ?thesis using True 2(4) by (simp add: is_line_def)
  next
    case False
    with 2(2) [OF False, of ls rest] 2(3,4) show ?thesis by simp
  qed
qed simp

lemma is_line_trim: "is_line l \<Longrightarrow> l = trimRightByte l nl @ [nl] \<and> nl \<notin> set (trimRightByte l nl)"
proof -
  assume l: "is_line l"
  then obtain x where x: "l = x @ [nl]" "nl \<notin> set x" unfolding is_line_def by (metis append_butlast_last_id)
  then have "trimRightByte l nl = x"
    by (cases x rule: rev_cases) (auto simp: trimRightByte_def)
  with x show ?thesis by simp
qed

lemma splitByte_line: "nl \<notin> set x \<Longrightarrow> splitByte (x @ nl # s) nl = x # splitByte s nl"
  by (induction x) auto

lemma splitByte_rest: "nl \<notin> set x \<Longrightarrow> splitByte x nl = [x]"
  by (induction x) auto

lemma splitByte_lines:
  assumes "\<forall>x \<in> set xs. nl \<notin> set x"
  shows "splitByte (concat (map (\<lambda>x. x @ [nl]) xs) @ rest) nl = xs @ splitByte rest nl"
  using assms by (induction xs) (auto simp: splitByte_line)

section \<open>The invariant\<close>

text \<open>What was read is what was handed over, what is under way, and what is pending.\<close>

definition scan_ok :: "(string \<times> read_end option) list \<Rightarrow> scan \<Rightarrow> bool" where
  "scan_ok reads s \<longleftrightarrow> (\<exists>got. reads = got @ sn_reads s \<and>
     concat (map fst got) = concat (map (\<lambda>x. x @ [nl]) (sn_seen s)) @ concat (sn_lines s) @ concat (sn_out s) @ sn_pending s \<and>
     (sn_stop s = None \<or> (got \<noteq> [] \<and> snd (last got) = sn_stop s))) \<and>
     (\<forall>x \<in> set (sn_seen s). nl \<notin> set x) \<and> list_all is_line (sn_lines s) \<and> list_all is_line (sn_out s) \<and> nl \<notin> set (sn_pending s)"

definition ends_ok :: "scan \<Rightarrow> bool" where
  "ends_ok s \<longleftrightarrow>
     (\<not> sn_closed s \<longrightarrow> sn_tails s = None \<and> sn_readErr s = None \<and> sn_tail s = None) \<and>
     (sn_closed s \<longrightarrow> (sn_cancel s \<and> sn_readErr s = None) \<or>
        (sn_out s = [] \<and> (sn_stop s = Some EOF \<and> sn_readErr s = None \<and>
             (sn_res s = None \<longrightarrow> sn_tails s = (if sn_pending s = [] then None else Some (sn_pending s))) \<or>
           (\<exists>e. sn_stop s = Some (Broken e) \<and> sn_readErr s = Some e \<and> sn_tails s = None)))) \<and>
     (sn_res s = None \<longrightarrow> sn_tail s = None) \<and>
     (sn_res s = Some ScanOK \<longrightarrow> sn_closed s \<and> sn_lines s = [] \<and> sn_readErr s = None \<and>
        (sn_cancel s \<or> sn_tail s = (if sn_pending s = [] then None else Some (sn_pending s)))) \<and>
     (\<forall>e. sn_res s = Some (ScanRead e) \<longrightarrow> sn_closed s \<and> sn_lines s = [] \<and> sn_readErr s = Some e \<and> sn_tail s = None)"

lemma scan_ok_start: "scan_ok reads (scan_start reads) \<and> ends_ok (scan_start reads)"
  by (simp add: scan_ok_def ends_ok_def scan_start_def)

lemma scan_ok_step: "scan_step s s' \<Longrightarrow> scan_ok reads s \<Longrightarrow> scan_ok reads s'"
proof (induction rule: scan_step.induct)
  case (rd_read s c e rs ls rest)
  then obtain got where g: "reads = got @ (c, e) # rs"
      "concat (map fst got) = concat (map (\<lambda>x. x @ [nl]) (sn_seen s)) @ concat (sn_lines s) @ sn_pending s"
      "nl \<notin> set (sn_pending s)"
    by (auto simp: scan_ok_def)
  from takeLines_split [OF rd_read(5)] have t: "sn_pending s @ c = concat ls @ rest" "list_all is_line ls" "nl \<notin> set rest" by auto
  have "concat (map fst (got @ [(c, e)])) = concat (map (\<lambda>x. x @ [nl]) (sn_seen s)) @ concat (sn_lines s) @ concat ls @ rest"
    using g(2) t(1) by simp
  then show ?case using rd_read(6) g t(2,3)
    by (auto simp: scan_ok_def intro!: exI [of _ "got @ [(c, e)]"])
next
  case (cs_line s l ls)
  then have "is_line l" by (simp add: scan_ok_def)
  from is_line_trim [OF this] have "trimRightByte l nl @ [nl] = l" "nl \<notin> set (trimRightByte l nl)" by auto
  then show ?case using cs_line by (auto simp: scan_ok_def)
next
  case (cs_line_err s l ls e)
  then have "is_line l" by (simp add: scan_ok_def)
  from is_line_trim [OF this] have "trimRightByte l nl @ [nl] = l" "nl \<notin> set (trimRightByte l nl)" by auto
  then show ?case using cs_line_err by (auto simp: scan_ok_def)
qed (auto simp: scan_ok_def)

lemma ends_ok_step: "scan_step s s' \<Longrightarrow> ends_ok s \<Longrightarrow> ends_ok s'"
proof (induction rule: scan_step.induct)
  case (cs_end s)
  then show ?case by (cases "sn_readErr s") (auto simp: ends_ok_def)
qed (auto simp: ends_ok_def)

lemma scan_reach: "scan_step\<^sup>*\<^sup>* (scan_start reads) s \<Longrightarrow> scan_ok reads s \<and> ends_ok s"
  by (induction rule: rtranclp_induct) (auto simp: scan_ok_start dest: scan_ok_step ends_ok_step)

lemma all_read:
  assumes "list_all (\<lambda>(c, e). e = None) (butlast reads)" and "reads = got @ rs" and "got \<noteq> []" and "snd (last got) \<noteq> None"
  shows "rs = []"
proof (rule ccontr)
  assume "rs \<noteq> []"
  then have "last got \<in> set (butlast reads)" using assms(2,3) by (simp add: butlast_append)
  then show False using assms(1,4) by (auto simp: list_all_iff)
qed

lemma scan_stopped:
  assumes "scan_ok reads s" and "list_all (\<lambda>(c, e). e = None) (butlast reads)" and "sn_stop s = Some e"
    and "sn_lines s = []" and "sn_out s = []"
  shows "splitByte (concat (map fst reads)) nl = sn_seen s @ [sn_pending s] \<and> snd (last reads) = Some e"
proof -
  obtain got where g: "reads = got @ sn_reads s" "got \<noteq> []" "snd (last got) = Some e"
      "concat (map fst got) = concat (map (\<lambda>x. x @ [nl]) (sn_seen s)) @ sn_pending s"
    using assms(1,3-5) by (auto simp: scan_ok_def)
  with all_read [OF assms(2) g(1,2)] have "got = reads" by simp
  with g assms(1) show ?thesis by (auto simp: splitByte_lines splitByte_rest scan_ok_def)
qed

section \<open>Properties\<close>

text \<open>
  C39. Lines do not depend on how the body is cut into reads nor on the interleaving of reader and
  consumer: at every moment the lines handed over are a prefix of the complete lines of the body; a scan
  that ends cleanly, uncancelled, handed over all of them, then the unterminated rest if there is one; a
  scan that ends with a read error handed over all complete lines and never the partial one.
\<close>

theorem line_scan_exact:
  assumes "scan_step\<^sup>*\<^sup>* (scan_start reads) s" and "list_all (\<lambda>(c, e). e = None) (butlast reads)"
  shows "prefix (sn_seen s) (butlast (splitByte (concat (map fst reads)) nl)) \<and>
     (sn_res s = Some ScanOK \<and> \<not> sn_cancel s \<longrightarrow>
        splitByte (concat (map fst reads)) nl = sn_seen s @ [case sn_tail s of None \<Rightarrow> [] | Some t \<Rightarrow> t] \<and>
        sn_tail s \<noteq> Some [] \<and> snd (last reads) = Some EOF) \<and>
     (\<forall>e. sn_res s = Some (ScanRead e) \<longrightarrow>
        butlast (splitByte (concat (map fst reads)) nl) = sn_seen s \<and> sn_tail s = None \<and> snd (last reads) = Some (Broken e))"
proof (intro conjI impI allI)
  have inv: "scan_ok reads s" and fin: "ends_ok s" using scan_reach [OF assms(1)] by auto
  then obtain x where "concat (map fst reads) = concat (map (\<lambda>x. x @ [nl]) (sn_seen s)) @ x" "\<forall>x \<in> set (sn_seen s). nl \<notin> set x"
    by (auto simp: scan_ok_def)
  then have "butlast (splitByte (concat (map fst reads)) nl) = sn_seen s @ butlast (splitByte x nl)"
    using splitByte_ne by (simp add: splitByte_lines butlast_append)
  then show "prefix (sn_seen s) (butlast (splitByte (concat (map fst reads)) nl))" by simp
  {
    assume "sn_res s = Some ScanOK \<and> \<not> sn_cancel s"
    with fin have "sn_stop s = Some EOF" "sn_lines s = []" "sn_out s = []"
        and t: "sn_tail s = (if sn_pending s = [] then None else Some (sn_pending s))"
      by (auto simp: ends_ok_def)
    from scan_stopped [OF inv assms(2) this(1-3)] t
    show "splitByte (concat (map fst reads)) nl = sn_seen s @ [case sn_tail s of None \<Rightarrow> [] | Some t \<Rightarrow> t]"
      and "sn_tail s \<noteq> Some []" and "snd (last reads) = Some EOF" by auto
  next
    fix e assume "sn_res s = Some (ScanRead e)"
    with fin have "sn_stop s = Some (Broken e)" "sn_lines s = []" "sn_out s = []" and t: "sn_tail s = None"
      by (auto simp: ends_ok_def)
    from scan_stopped [OF inv assms(2) this(1-3)] t
    show "butlast (splitByte (concat (map fst reads)) nl) = sn_seen s" and "sn_tail s = None" and "snd (last reads) = Some (Broken e)" by auto
  }
qed

lemma scan_tail_run:
  "scan_step\<^sup>*\<^sup>* (scan_start [(''a'', Some EOF)]) ((scan_start [])\<lparr>sn_pending := ''a'', sn_stop := Some EOF, sn_closed := True,
     sn_tail := Some ''a'', sn_res := Some ScanOK\<rparr>)"
proof -
  let ?s1 = "(scan_start [])\<lparr>sn_pending := ''a'', sn_stop := Some EOF\<rparr>"
  let ?s2 = "?s1\<lparr>sn_closed := True, sn_tails := Some ''a''\<rparr>"
  have "scan_step (scan_start [(''a'', Some EOF)]) ?s1"
    using rd_read [of "scan_start [(''a'', Some EOF)]" "''a''" "Some EOF" "[]" "[]" "''a''"] by (simp add: scan_start_def)
  moreover have "scan_step ?s1 ?s2" using rd_eof [of ?s1] by (simp add: scan_start_def)
  moreover have "scan_step ?s2 ((scan_start [])\<lparr>sn_pending := ''a'', sn_stop := Some EOF, sn_closed := True,
     sn_tail := Some ''a'', sn_res := Some ScanOK\<rparr>)"
    using cs_end [of ?s2] by (simp add: scan_start_def)
  ultimately show ?thesis by (meson converse_rtranclp_into_rtranclp rtranclp.rtrancl_refl)
qed

theorem line_scan_exact_witness:
  "splitByte (concat (map fst [(''a'', Some EOF)])) nl = [] @ [''a'']"
  using line_scan_exact [OF scan_tail_run] by (simp add: scan_start_def)

text \<open>
  A cancelled stream can end as if it were complete: the reader abandons a line it could not send, closes
  its channel, and the consumer, for which both the closed channel and the cancellation are ready, takes
  the former.
\<close>

lemma cancelled_scan_ends_clean:
  "\<exists>s. scan_step\<^sup>*\<^sup>* (scan_start [([nl], None)]) s \<and> sn_res s = Some ScanOK \<and> sn_seen s = []"
proof -
  let ?s1 = "(scan_start [])\<lparr>sn_out := [[nl]]\<rparr>"
  let ?s2 = "?s1\<lparr>sn_cancel := True\<rparr>"
  let ?s3 = "?s2\<lparr>sn_closed := True\<rparr>"
  let ?s4 = "?s3\<lparr>sn_res := Some ScanOK\<rparr>"
  have "scan_step (scan_start [([nl], None)]) ?s1"
    using rd_read [of "scan_start [([nl], None)]" "[nl]" None "[]" "[[nl]]" "[]"] by (simp add: scan_start_def)
  moreover have "scan_step ?s1 ?s2" by (rule cancelled)
  moreover have "scan_step ?s2 ?s3" using rd_abort [of ?s2] by (simp add: scan_start_def)
  moreover have "scan_step ?s3 ?s4" using cs_end [of ?s3] by (simp add: scan_start_def)
  ultimately have "scan_step\<^sup>*\<^sup>* (scan_start [([nl], None)]) ?s4"
    by (meson converse_rtranclp_into_rtranclp rtranclp.rtrancl_refl)
  then show ?thesis by (intro exI [of _ ?s4]) (simp add: scan_start_def)
qed

section \<open>The scan ends\<close>

text \<open>
  Every step but a repeated cancellation uses something up: a read, a byte, a line on its way, or the right to close, to
  cancel or to answer.
\<close>

definition scan_fuel :: "scan \<Rightarrow> nat" where
  "scan_fuel s = sum_list (map (\<lambda>(c, e). 3 * length c + 1) (sn_reads s)) + 3 * length (sn_pending s) + 2 * length (sn_out s) +
     length (sn_lines s) + (if sn_closed s then 0 else 1) + (if sn_cancel s then 0 else 1) + (if sn_res s = None then 1 else 0)"

lemma takeLines_count: "takeLines acc s = (ls, rest) \<Longrightarrow> length acc + length s = length (concat ls) + length rest \<and> length ls \<le> length (concat ls)"
  by (induction acc s arbitrary: ls rest rule: takeLines.induct) (force split: if_splits prod.splits)+

lemma scan_fuel_step: "scan_step s s' \<Longrightarrow> s' \<noteq> s \<Longrightarrow> scan_fuel s' < scan_fuel s"
proof (induction rule: scan_step.induct)
  case (rd_read s c e rs ls rest)
  with takeLines_count [OF rd_read(5)] show ?case by (simp add: scan_fuel_def)
qed (auto simp: scan_fuel_def)

text \<open>What is left of a body goes to its end by reading, sending and taking alone.\<close>

lemma scan_moves:
  assumes "sn_res s = None" and "sn_stop s \<noteq> None \<or> sn_reads s \<noteq> []"
  shows "\<exists>s'. scan_step s s' \<and> scan_fuel s' < scan_fuel s \<and>
    (sn_res s' = None \<and> (sn_stop s' = sn_stop s \<and> sn_reads s' = sn_reads s \<or> sn_stop s = None \<and> (\<exists>c. sn_reads s = (c, sn_stop s') # sn_reads s')) \<or>
     sn_res s' = Some ScanOK \<or> (\<exists>e. sn_res s' = Some (ScanRead e)))"
proof (cases "sn_lines s")
  case (Cons l ls)
  with cs_line [OF assms(1) Cons] assms(1) show ?thesis by (intro exI conjI) (assumption, auto simp: scan_fuel_def)
next
  case Nil
  note nolines = Nil
  show ?thesis
  proof (cases "sn_closed s")
    case True
    with cs_end [OF assms(1) Nil True] assms(1) Nil show ?thesis
      by (intro exI conjI) (assumption, auto simp: scan_fuel_def split: option.splits)
  next
    case open_: False
    show ?thesis
    proof (cases "sn_out s")
      case (Cons l ls)
      have "length (sn_lines s) < linesCap" by (simp add: nolines linesCap_def)
      from rd_send [OF open_ Cons this] Cons assms(1) show ?thesis by (intro exI conjI) (assumption, auto simp: scan_fuel_def)
    next
      case Nil
      note noout = Nil
      consider "sn_stop s = None" | "sn_stop s = Some EOF" | e where "sn_stop s = Some (Broken e)"
        by (metis option.exhaust read_end.exhaust)
      then show ?thesis
      proof cases
        case 1
        then obtain c e rs where r: "sn_reads s = (c, e) # rs" using assms(2) by (cases "sn_reads s") auto
        obtain ls rest where t: "takeLines [] (sn_pending s @ c) = (ls, rest)" by force
        from rd_read [OF open_ noout 1 r t] scan_fuel_step [OF rd_read [OF open_ noout 1 r t]] r assms(1) 1
        show ?thesis by (intro exI conjI) (assumption, fastforce dest: arg_cong [where f = sn_reads], auto)
      next
        case 2
        with rd_eof [OF open_ noout 2] open_ assms(1) noout nolines show ?thesis
          by (intro exI conjI) (assumption, auto simp: scan_fuel_def)
      next
        case (3 e)
        with rd_broken [OF open_ noout 3] open_ assms(1) noout nolines show ?thesis
          by (intro exI conjI) (assumption, auto simp: scan_fuel_def)
      qed
    qed
  qed
qed

definition body_ends :: "(string \<times> read_end option) list \<Rightarrow> bool" where
  "body_ends reads \<longleftrightarrow> reads \<noteq> [] \<and> snd (last reads) \<noteq> None"

lemma scan_finishes:
  "sn_res s = None \<Longrightarrow> sn_stop s \<noteq> None \<or> body_ends (sn_reads s) \<Longrightarrow>
   \<exists>s'. scan_step\<^sup>*\<^sup>* s s' \<and> (sn_res s' = Some ScanOK \<or> (\<exists>e. sn_res s' = Some (ScanRead e)))"
proof (induction "scan_fuel s" arbitrary: s rule: less_induct)
  case less
  have "sn_stop s \<noteq> None \<or> sn_reads s \<noteq> []" using less.prems(2) by (auto simp: body_ends_def)
  from scan_moves [OF less.prems(1) this] obtain s' where s': "scan_step s s'" "scan_fuel s' < scan_fuel s"
    "sn_res s' = None \<and> (sn_stop s' = sn_stop s \<and> sn_reads s' = sn_reads s \<or> sn_stop s = None \<and> (\<exists>c. sn_reads s = (c, sn_stop s') # sn_reads s')) \<or>
     sn_res s' = Some ScanOK \<or> (\<exists>e. sn_res s' = Some (ScanRead e))" by blast
  show ?case
  proof (cases "sn_res s' = None")
    case True
    with s'(3) less.prems(2) have "sn_stop s' \<noteq> None \<or> body_ends (sn_reads s')"
      by (auto simp: body_ends_def split: if_splits)
    from less.hyps [OF s'(2) True this] s'(1) show ?thesis by (meson converse_rtranclp_into_rtranclp)
  next
    case False
    with s' show ?thesis by blast
  qed
qed

text \<open>Once cancelled, the reader closes its channel, whoever still listens.\<close>

lemma reader_closes:
  "sn_cancel s \<Longrightarrow> sn_stop s \<noteq> None \<or> body_ends (sn_reads s) \<Longrightarrow> \<exists>s'. scan_step\<^sup>*\<^sup>* s s' \<and> sn_closed s'"
proof (induction "scan_fuel s" arbitrary: s rule: less_induct)
  case less
  consider "sn_closed s" | "\<not> sn_closed s" "sn_out s \<noteq> []" | "\<not> sn_closed s" "sn_out s = []" "sn_stop s \<noteq> None"
    | c e rs where "\<not> sn_closed s" "sn_out s = []" "sn_stop s = None" "sn_reads s = (c, e) # rs"
    using less.prems(2) by (cases "sn_reads s") (auto simp: body_ends_def)
  then show ?case
  proof cases
    case 2
    from rd_abort [OF this less.prems(1)] show ?thesis by (intro exI conjI, rule r_into_rtranclp) auto
  next
    case 3
    then consider "sn_stop s = Some EOF" | e where "sn_stop s = Some (Broken e)" by (metis option.exhaust read_end.exhaust)
    then show ?thesis
    proof cases
      case 1
      from rd_eof [OF 3(1,2) 1] show ?thesis by (intro exI conjI, rule r_into_rtranclp) auto
    next
      case (2 e)
      from rd_broken [OF 3(1,2) 2] show ?thesis by (intro exI conjI, rule r_into_rtranclp) auto
    qed
  next
    case (4 c e rs)
    obtain ls rest where t: "takeLines [] (sn_pending s @ c) = (ls, rest)" by force
    let ?s = "s\<lparr>sn_reads := rs, sn_pending := rest, sn_out := ls, sn_stop := e\<rparr>"
    note st = rd_read [OF 4 t]
    have "?s \<noteq> s" using 4(4) by (auto dest: arg_cong [where f = sn_reads])
    from scan_fuel_step [OF st this] have "scan_fuel ?s < scan_fuel s" .
    moreover have "sn_stop ?s \<noteq> None \<or> body_ends (sn_reads ?s)" using less.prems(2) 4(3,4) by (auto simp: body_ends_def split: if_splits)
    moreover have "sn_cancel ?s" using less.prems(1) by simp
    ultimately obtain s' where "scan_step\<^sup>*\<^sup>* ?s s'" "sn_closed s'" using less.hyps [of ?s] by blast
    with st show ?thesis by (meson converse_rtranclp_into_rtranclp)
  qed blast
qed

lemma ends_reach: "scan_step\<^sup>*\<^sup>* s t \<Longrightarrow> sn_stop s \<noteq> None \<or> body_ends (sn_reads s) \<Longrightarrow> sn_stop t \<noteq> None \<or> body_ends (sn_reads t)"
proof (induction rule: rtranclp_induct)
  case (step t u)
  then have "sn_stop t \<noteq> None \<or> body_ends (sn_reads t)" by simp
  with step(2) show ?case by (induction rule: scan_step.induct) (auto simp: body_ends_def split: if_splits)
qed

text \<open>
  C36. The scan ends, however reader and consumer interleave: no run goes on for ever, for every step that changes anything
  uses up fuel fixed by the body; a body that ends can always be brought to its own end, without the stall timer and
  without a failure; and the reader goroutine does not leak: once the scan is cancelled it closes its channel, also when
  the consumer has gone.
\<close>

theorem scan_terminates:
  assumes "scan_step\<^sup>*\<^sup>* (scan_start reads) s" and "body_ends reads"
  shows "wfp (\<lambda>t s. scan_step s t \<and> t \<noteq> s) \<and>
    (sn_res s \<noteq> None \<or> (\<exists>t. scan_step\<^sup>*\<^sup>* s t \<and> (sn_res t = Some ScanOK \<or> (\<exists>e. sn_res t = Some (ScanRead e))))) \<and>
    (\<exists>t. scan_step\<^sup>*\<^sup>* (s\<lparr>sn_cancel := True\<rparr>) t \<and> sn_closed t)"
proof (intro conjI)
  show "wfp (\<lambda>t s. scan_step s t \<and> t \<noteq> s)" by (rule wfp_if_convertible_to_nat [where f = scan_fuel]) (auto intro: scan_fuel_step)
  have ends: "sn_stop s \<noteq> None \<or> body_ends (sn_reads s)" using ends_reach [OF assms(1)] assms(2) by (simp add: scan_start_def)
  then show "sn_res s \<noteq> None \<or> (\<exists>t. scan_step\<^sup>*\<^sup>* s t \<and> (sn_res t = Some ScanOK \<or> (\<exists>e. sn_res t = Some (ScanRead e))))"
    using scan_finishes [of s] by blast
  show "\<exists>t. scan_step\<^sup>*\<^sup>* (s\<lparr>sn_cancel := True\<rparr>) t \<and> sn_closed t"
    using reader_closes [of "s\<lparr>sn_cancel := True\<rparr>"] ends by simp
qed

theorem scan_terminates_witness:
  "\<exists>t. scan_step\<^sup>*\<^sup>* (scan_start [(''a'', Some EOF)]) t \<and> (sn_res t = Some ScanOK \<or> (\<exists>e. sn_res t = Some (ScanRead e)))"
  using scan_terminates [of "[(''a'', Some EOF)]" "scan_start [(''a'', Some EOF)]"]
  by (auto simp: body_ends_def scan_start_def)

end
