(* ===== verification/Usage.thy ===== *)
theory Usage
  imports Json PathMatch
begin

text \<open>
  Token accounting (\<^verbatim>\<open>internal/usage/usage.go\<close>): coercion of decoded values to numbers, the normal and
  canonical forms of a usage block, merging of the blocks a stream reports, estimates from text lengths,
  and the synthesized share of reasoning tokens. A usage block is an optional map, \<open>None\<close> for the nil map.
\<close>

type_synonym usage = "(string, json) gomap option"

section \<open>Numbers and texts\<close>

text \<open>\<^verbatim>\<open>JSNumStr\<close>: the exponent of Go's spelling loses its leading zeros.\<close>

definition fixExponent :: "string \<Rightarrow> string" where
  "fixExponent s = (case indexByte s (CHR ''e'') of
     None \<Rightarrow> s
   | Some i \<Rightarrow>
       let mant = take i s; exp0 = drop (Suc i) s;
           (sign, exp1) = (case exp0 of
              c # cs \<Rightarrow> if c = CHR ''+'' \<or> c = CHR ''-'' then ([c], cs) else (''+'', exp0)
            | [] \<Rightarrow> (''+'', []));
           exp2 = dropWhile (\<lambda>c. c = CHR ''0'') exp1
       in mant @ ''e'' @ sign @ (if exp2 = [] then ''0'' else exp2))"

definition JSNumStr :: "num_env \<Rightarrow> f64 \<Rightarrow> string" where
  "JSNumStr N f = (case f of
     Fin q \<Rightarrow>
       if q = 0 then ''0''
       else fixExponent (if 1 / 10 ^ 6 \<le> \<bar>q\<bar> \<and> \<bar>q\<bar> < 10 ^ 21 then ne_format_f N q else ne_format_g N q)
   | PInf \<Rightarrow> ''+Inf''
   | NInf \<Rightarrow> ''-Inf''
   | NaN \<Rightarrow> ''NaN'')"

fun JSStr :: "num_env \<Rightarrow> json \<Rightarrow> string" where
  "JSStr N JNull = ''null''"
| "JSStr N (JStr s) = s"
| "JSStr N (JBool b) = (if b then ''true'' else ''false'')"
| "JSStr N (JNum n) = JSNumStr N n"
| "JSStr N (JArr a) = joinWith '','' (map (\<lambda>e. if e = JNull then [] else JSStr N e) a)"
| "JSStr N (JObj _) = [CHR 0x5B] @ ''object Object'' @ [CHR 0x5D]"

definition arrayJoin :: "num_env \<Rightarrow> json list \<Rightarrow> string" where
  "arrayJoin N a = joinWith '','' (map (\<lambda>e. if e = JNull then [] else JSStr N e) a)"

text \<open>
  \<^verbatim>\<open>strconv.ParseUint(s, 0, 64)\<close> on a text that starts with a radix prefix and has no separators.
\<close>

definition radixDigit :: "nat \<Rightarrow> char \<Rightarrow> nat option" where
  "radixDigit r c =
     (let n = of_char c :: nat;
          d = (if 48 \<le> n \<and> n \<le> 57 then Some (n - 48)
               else if 97 \<le> n \<and> n \<le> 122 then Some (n - 87)
               else if 65 \<le> n \<and> n \<le> 90 then Some (n - 55)
               else None)
      in case d of None \<Rightarrow> None | Some v \<Rightarrow> if v < r then Some v else None)"

fun radixValue :: "nat \<Rightarrow> nat \<Rightarrow> string \<Rightarrow> nat option" where
  "radixValue r acc [] = Some acc"
| "radixValue r acc (c # cs) = (case radixDigit r c of None \<Rightarrow> None | Some d \<Rightarrow> radixValue r (acc * r + d) cs)"

definition parseUint0 :: "string \<Rightarrow> nat option" where
  "parseUint0 s =
     (let r = (case lowerByte (s ! 1) of CHR ''x'' \<Rightarrow> 16 | CHR ''b'' \<Rightarrow> 2 | _ \<Rightarrow> 8) in
      if drop 2 s = [] then None
      else case radixValue r 0 (drop 2 s) of
        None \<Rightarrow> None
      | Some n \<Rightarrow> if n < 2 ^ 64 then Some n else None)"

definition numString :: "num_env \<Rightarrow> string \<Rightarrow> f64 \<times> bool" where
  "numString N n =
     (let s = trimSpace n in
      if s = [] then (Fin 0, True)
      else if CHR ''_'' \<in> set s then (Fin 0, False)
      else if length s \<ge> 2 \<and> s ! 0 = CHR ''0'' \<and> lowerByte (s ! 1) \<in> {CHR ''x'', CHR ''b'', CHR ''o''} then
        (case parseUint0 s of
           None \<Rightarrow> (Fin 0, False)
         | Some u \<Rightarrow> (ne_round N (of_nat u), True))
      else (case ne_parse N s of
          (f, Some err) \<Rightarrow> if err = ErrRange \<and> f = Fin 0 then (Fin 0, True) else (Fin 0, False)
        | (f, None) \<Rightarrow> if isInf f then (Fin 0, False) else (f, True)))"

definition NumOK :: "num_env \<Rightarrow> json \<Rightarrow> f64 \<times> bool" where
  "NumOK N v = (case v of
     JNum n \<Rightarrow> if n = NaN \<or> isInf n then (Fin 0, False) else (n, True)
   | JBool b \<Rightarrow> (if b then Fin 1 else Fin 0, True)
   | JStr s \<Rightarrow> numString N s
   | JArr a \<Rightarrow> numString N (arrayJoin N a)
   | _ \<Rightarrow> (Fin 0, False))"

definition num :: "num_env \<Rightarrow> json \<Rightarrow> f64" where
  "num N v = fst (NumOK N v)"

definition jsTruthy :: "json \<Rightarrow> bool" where
  "jsTruthy v = (case v of
     JNull \<Rightarrow> False
   | JBool b \<Rightarrow> b
   | JNum n \<Rightarrow> n \<noteq> Fin 0 \<and> n \<noteq> NaN
   | JStr s \<Rightarrow> s \<noteq> []
   | _ \<Rightarrow> True)"

fun jsOr :: "json list \<Rightarrow> json" where
  "jsOr [] = JNull"
| "jsOr [v] = v"
| "jsOr (v # vs) = (if jsTruthy v then v else jsOr vs)"

fun firstNonNull :: "json list \<Rightarrow> json" where
  "firstNonNull [] = JNull"
| "firstNonNull (v # vs) = (if v \<noteq> JNull then v else firstNonNull vs)"

section \<open>Normal and canonical forms\<close>

definition normalKeys :: "string list" where
  "normalKeys = [''prompt_tokens'', ''completion_tokens'', ''total_tokens'', ''cache_read_input_tokens'',
     ''cache_creation_input_tokens'', ''cached_tokens'', ''reasoning_tokens'']"

definition normalNumber :: "num_env \<Rightarrow> (string, json) gomap \<Rightarrow> string \<Rightarrow> (string, json) gomap \<Rightarrow> (string, json) gomap" where
  "normalNumber N u k out =
     (if mget u k = JNull then out
      else case NumOK N (mget u k) of (f, ok) \<Rightarrow> if ok then gm_set k (JNum f) out else out)"

definition normalDetails :: "(string, json) gomap \<Rightarrow> string \<Rightarrow> (string, json) gomap \<Rightarrow> (string, json) gomap" where
  "normalDetails u k out = (case mget u k of
     JObj d \<Rightarrow> gm_set k (JObj d) out
   | JArr d \<Rightarrow> gm_set k (JArr d) out
   | _ \<Rightarrow> out)"

definition Normalize :: "num_env \<Rightarrow> usage \<Rightarrow> usage" where
  "Normalize N u0 = (case u0 of
     None \<Rightarrow> None
   | Some u \<Rightarrow>
       let out = fold (normalDetails u) [''prompt_tokens_details'', ''completion_tokens_details''] (fold (normalNumber N u) normalKeys [])
       in if out = [] then None else Some out)"

definition Canonical :: "num_env \<Rightarrow> usage \<Rightarrow> usage" where
  "Canonical N u0 = (case u0 of
     None \<Rightarrow> None
   | Some u \<Rightarrow>
       let completion = num N (firstNonNull [mget u ''completion_tokens'', mget u ''output_tokens'']);
           reasoning = num N (mget u ''reasoning_tokens'');
           cacheCreation = num N (firstNonNull [mget u ''cache_creation_input_tokens'',
             Get (mget u ''prompt_tokens_details'') ''cache_creation_tokens'']);
           prompt0 = num N (firstNonNull [mget u ''prompt_tokens'', mget u ''input_tokens'']);
           (prompt, cached) =
             (if \<not> has u ''cached_tokens'' \<and> (has u ''cache_read_input_tokens'' \<or> has u ''cache_creation_input_tokens'')
              then let c = num N (mget u ''cache_read_input_tokens'') in (f_add N (f_add N prompt0 c) cacheCreation, c)
              else (prompt0, num N (firstNonNull [mget u ''cached_tokens'', Get (mget u ''prompt_tokens_details'') ''cached_tokens''])));
           result = [(''prompt_tokens'', JNum prompt), (''completion_tokens'', JNum completion),
             (''total_tokens'', JNum (f_add N prompt completion)), (''cached_tokens'', JNum cached),
             (''cache_creation_input_tokens'', JNum cacheCreation)]
       in Some (if f_lt (Fin 0) reasoning then gm_set ''reasoning_tokens'' (JNum reasoning) result else result))"

section \<open>Merging\<close>

definition mergeField :: "string \<times> json \<Rightarrow> (string, json) gomap \<Rightarrow> (string, json) gomap" where
  "mergeField kv merged = (case kv of (k, v) \<Rightarrow> (case v of
     JNum n \<Rightarrow>
       if n \<noteq> NaN \<and> \<not> isInf n
       then gm_set k (JNum (f_max (case mget merged k of JNum cur \<Rightarrow> cur | _ \<Rightarrow> Fin 0) n)) merged
       else merged
   | JObj o1 \<Rightarrow> gm_set k (JObj o1) merged
   | JArr a \<Rightarrow> gm_set k (JArr a) merged
   | _ \<Rightarrow> merged))"

definition Merge :: "usage \<Rightarrow> usage \<Rightarrow> usage" where
  "Merge prev next = (case (prev, next) of
     (None, _) \<Rightarrow> next
   | (_, None) \<Rightarrow> prev
   | (Some p, Some n) \<Rightarrow> Some (fold mergeField n p))"

definition HasValid :: "usage \<Rightarrow> bool" where
  "HasValid u0 = (case u0 of
     None \<Rightarrow> False
   | Some u \<Rightarrow> list_ex (\<lambda>k. case mget u k of JNum n \<Rightarrow> f_lt (Fin 0) n | _ \<Rightarrow> False)
       [''prompt_tokens'', ''completion_tokens'', ''total_tokens'', ''input_tokens'', ''output_tokens'',
        ''promptTokenCount'', ''candidatesTokenCount''])"

section \<open>Extraction\<close>

definition ExtractFromChat :: "num_env \<Rightarrow> (string, json) gomap \<Rightarrow> usage" where
  "ExtractFromChat N chunk = (case asObj (mget chunk ''usage'') of
     None \<Rightarrow> None
   | Some u \<Rightarrow>
       if \<not> has u ''prompt_tokens'' then None
       else Normalize N (Some [
         (''prompt_tokens'', mget u ''prompt_tokens''),
         (''completion_tokens'', jsOr [mget u ''completion_tokens'', JNum (Fin 0)]),
         (''cached_tokens'', jsOr [Get (mget u ''prompt_tokens_details'') ''cached_tokens'', mget u ''prompt_cache_hit_tokens'']),
         (''reasoning_tokens'', Get (mget u ''completion_tokens_details'') ''reasoning_tokens''),
         (''prompt_tokens_details'', mget u ''prompt_tokens_details''),
         (''completion_tokens_details'', mget u ''completion_tokens_details'')]))"

definition ExtractFromResponses :: "num_env \<Rightarrow> (string, json) gomap \<Rightarrow> usage" where
  "ExtractFromResponses N chunk =
     (let t = asStr (mget chunk ''type'') in
      if t \<noteq> ''response.completed'' \<and> t \<noteq> ''response.done'' then None
      else case asObj (Get (mget chunk ''response'') ''usage'') of
        None \<Rightarrow> None
      | Some u \<Rightarrow>
          let cached = Get (mget u ''input_tokens_details'') ''cached_tokens'';
              ptd = (if jsTruthy cached then ObjOf [(''cached_tokens'', cached)] else JNull)
          in Normalize N (Some [
            (''prompt_tokens'', jsOr [mget u ''input_tokens'', mget u ''prompt_tokens'', JNum (Fin 0)]),
            (''completion_tokens'', jsOr [mget u ''output_tokens'', mget u ''completion_tokens'', JNum (Fin 0)]),
            (''cached_tokens'', cached),
            (''reasoning_tokens'', Get (mget u ''output_tokens_details'') ''reasoning_tokens''),
            (''prompt_tokens_details'', ptd)]))"

section \<open>Estimates\<close>

definition bufferTokens :: f64 where
  "bufferTokens = Fin 2000"

definition AddBuffer :: "num_env \<Rightarrow> usage \<Rightarrow> usage" where
  "AddBuffer N u0 = (case u0 of
     None \<Rightarrow> None
   | Some u \<Rightarrow>
       let bump = (\<lambda>k m. if has m k then gm_set k (JNum (f_add N (num N (mget m k)) bufferTokens)) m else m);
           out1 = bump ''prompt_tokens'' (bump ''input_tokens'' u)
       in Some (if has out1 ''total_tokens'' then bump ''total_tokens'' out1
                else if has out1 ''prompt_tokens'' \<and> has out1 ''completion_tokens''
                then gm_set ''total_tokens'' (JNum (f_add N (num N (mget out1 ''prompt_tokens'')) (num N (mget out1 ''completion_tokens'')))) out1
                else out1))"

definition hex4 :: "string \<Rightarrow> nat option" where
  "hex4 s = (if length s < 4 then None else radixValue 16 0 (take 4 s))"

lemma decodeRune_pos: "(r, sz) = decodeRune (c # cs) \<Longrightarrow> 0 < sz"
  using decodeRune_width [of "c # cs"] by (metis list.distinct(1) snd_conv)

function UTF16Len :: "string \<Rightarrow> nat" where
  "UTF16Len [] = 0"
| "UTF16Len (c # cs) =
     (if c = CHR 0x5C \<and> cs \<noteq> [] then
        if hd cs \<in> {CHR 0x22, CHR 0x5C, CHR ''/'', CHR ''b'', CHR ''f'', CHR ''n'', CHR ''r'', CHR ''t''}
        then 1 + UTF16Len (drop 1 cs)
        else if hd cs = CHR ''u'' then
          (case hex4 (drop 1 cs) of
             Some cp \<Rightarrow>
               if 0xD800 \<le> cp \<and> cp < 0xDC00 \<and> take 2 (drop 5 cs) = [CHR 0x5C, CHR ''u''] \<and>
                  (case hex4 (drop 7 cs) of Some lo \<Rightarrow> 0xDC00 \<le> lo \<and> lo \<le> 0xDFFF | None \<Rightarrow> False)
               then 2 + UTF16Len (drop 11 cs)
               else 1 + UTF16Len (drop 5 cs)
           | None \<Rightarrow> 1 + UTF16Len cs)
        else 1 + UTF16Len cs
      else case decodeRune (c # cs) of (r, sz) \<Rightarrow>
        if r = runeError \<and> sz = 1 then 1 + UTF16Len cs
        else (if r > 0xFFFF then 2 else 1) + UTF16Len (drop sz (c # cs)))"
  by pat_completeness auto
termination
  by (relation "measure length") (auto dest: decodeRune_pos)

declare UTF16Len.simps(2) [simp del]

text \<open>
  \<open>enc\<close> is the encoder without HTML escaping, its trailing newline included; \<open>None\<close> when it fails.
\<close>

definition EstimateInput :: "num_env \<Rightarrow> (json \<Rightarrow> string option) \<Rightarrow> json \<Rightarrow> f64" where
  "EstimateInput N enc body =
     (if (case body of JObj _ \<Rightarrow> True | JArr _ \<Rightarrow> True | _ \<Rightarrow> False) then
        (case enc body of
           None \<Rightarrow> Fin 0
         | Some sb \<Rightarrow>
             let s = (if sb \<noteq> [] \<and> last sb = CHR 0x0A then butlast sb else sb)
             in f_ceil (f_mul N (ne_round N (of_nat (UTF16Len s))) (Fin (1 / 4))))
      else Fin 0)"

definition EstimateOutput :: "num_env \<Rightarrow> int \<Rightarrow> f64" where
  "EstimateOutput N contentLen =
     (if contentLen \<le> 0 then Fin 0
      else f_max (Fin 1) (f_floor (f_mul N (ne_round N (of_int contentLen)) (Fin (1 / 4)))))"

definition Estimate :: "num_env \<Rightarrow> (json \<Rightarrow> string option) \<Rightarrow> json \<Rightarrow> int \<Rightarrow> usage" where
  "Estimate N enc body contentLen =
     (let i = EstimateInput N enc body; o1 = EstimateOutput N contentLen in
      AddBuffer N (Some [(''prompt_tokens'', JNum i), (''completion_tokens'', JNum o1), (''total_tokens'', JNum (f_add N i o1)),
        (''estimated'', JBool True)]))"

definition EstimateResponses :: "num_env \<Rightarrow> (json \<Rightarrow> string option) \<Rightarrow> json \<Rightarrow> int \<Rightarrow> usage" where
  "EstimateResponses N enc body contentLen =
     (let buffered = (case Estimate N enc body contentLen of None \<Rightarrow> [] | Some b \<Rightarrow> b) in
      Some [(''input_tokens'', JNum (num N (mget buffered ''prompt_tokens''))),
        (''output_tokens'', JNum (num N (mget buffered ''completion_tokens''))), (''estimated'', JBool True)])"

section \<open>Synthesized reasoning tokens\<close>

definition SynthMaxOutput :: f64 where
  "SynthMaxOutput = Fin 10"

definition DefaultRatio :: f64 where
  "DefaultRatio = Fin (3 / 4)"

definition SynthesizeThinking :: "num_env \<Rightarrow> usage \<Rightarrow> string \<Rightarrow> f64 \<Rightarrow> usage" where
  "SynthesizeThinking N u0 target ratio0 = (case u0 of
     None \<Rightarrow> None
   | Some u \<Rightarrow>
       let completion = num N (firstNonNull [mget u ''completion_tokens'', mget u ''output_tokens'', mget u ''candidatesTokenCount''])
       in if \<not> f_lt (Fin 0) completion \<and> completion \<noteq> NaN then Some u
          else
            let reported = num N (firstNonNull [mget u ''reasoning_tokens'',
                  Get (mget u ''completion_tokens_details'') ''reasoning_tokens'',
                  Get (mget u ''output_tokens_details'') ''reasoning_tokens'', mget u ''thoughtsTokenCount''])
            in if f_lt (Fin 0) reported then Some u
               else
                 let ratio = (if ratio0 = NaN \<or> isInf ratio0 then DefaultRatio else ratio0);
                     synthesized = (if f_lt SynthMaxOutput completion then f_floor (f_mul N completion ratio) else Fin 0);
                     key = (if target = ''responses'' then ''output_tokens_details'' else ''completion_tokens_details'');
                     src = (case asObj (mget u key) of None \<Rightarrow> [] | Some m \<Rightarrow> m)
                 in Some (gm_set key (JObj (gm_set ''reasoning_tokens'' (JNum synthesized) src)) u))"

section \<open>Canonical form\<close>

lemma mget_gm_set: "mget (gm_set k v m) k' = (if k' = k then v else mget m k')"
  by (simp add: mget_def gm_get_set)

lemma has_gm_set: "has (gm_set k v m) k' \<longleftrightarrow> k' = k \<or> has m k'"
  by (simp add: has_def gm_get_set)

lemma mget_gm_del: "mget (gm_del k m) k' = (if k' = k then JNull else mget m k')"
  by (simp add: mget_def gm_get_del)

lemma has_gm_del: "has (gm_del k m) k' \<longleftrightarrow> k' \<noteq> k \<and> has m k'"
  by (simp add: has_def gm_get_del)

lemma mget_Cons: "mget ((k, v) # m) k' = (if k' = k then v else mget m k')"
  by (simp add: mget_def)

lemmas map_reads = mget_gm_set mget_gm_del has_gm_set has_gm_del

lemma num_finite [simp]: "num N (JNum (Fin q)) = Fin q"
  by (simp add: num_def NumOK_def isInf_def)

text \<open>The five counts a canonical block always has, and the reasoning count it may have.\<close>

definition canonicalOf :: "f64 \<Rightarrow> f64 \<Rightarrow> f64 \<Rightarrow> f64 \<Rightarrow> f64 \<Rightarrow> f64 \<Rightarrow> (string, json) gomap" where
  "canonicalOf p c t k w r =
     (let result = [(''prompt_tokens'', JNum p), (''completion_tokens'', JNum c), (''total_tokens'', JNum t),
        (''cached_tokens'', JNum k), (''cache_creation_input_tokens'', JNum w)]
      in if f_lt (Fin 0) r then gm_set ''reasoning_tokens'' (JNum r) result else result)"

lemma Canonical_form: "\<exists>p c k w r. Canonical N (Some u) = Some (canonicalOf p c (f_add N p c) k w r)"
  unfolding Canonical_def canonicalOf_def Let_def option.case split_beta by (intro exI) (rule refl)

lemma canonicalOf_get:
  "mget (canonicalOf p c t k w r) ''prompt_tokens'' = JNum p"
  "mget (canonicalOf p c t k w r) ''completion_tokens'' = JNum c"
  "mget (canonicalOf p c t k w r) ''cached_tokens'' = JNum k"
  "mget (canonicalOf p c t k w r) ''cache_creation_input_tokens'' = JNum w"
  "mget (canonicalOf p c t k w r) ''reasoning_tokens'' = (if f_lt (Fin 0) r then JNum r else JNull)"
  "has (canonicalOf p c t k w r) ''cached_tokens''"
  by (simp_all add: canonicalOf_def Let_def mget_def has_def)

lemma num_null: "num N JNull = Fin 0"
  by (simp add: num_def NumOK_def)

lemma Canonical_canonicalOf:
  assumes "finite64 p" and "finite64 c" and "finite64 k" and "finite64 w" and "f_lt (Fin 0) r \<Longrightarrow> finite64 r"
  shows "Canonical N (Some (canonicalOf p c t k w r)) = Some (canonicalOf p c (f_add N p c) k w r)"
proof -
  have n: "num N (JNum x) = x" if "finite64 x" for x using that by (auto simp: finite64_def)
  show ?thesis using assms n
    by (simp add: Canonical_def canonicalOf_get num_null Let_def) (simp add: canonicalOf_def Let_def)
qed

section \<open>Merging field by field\<close>

definition mergeVal :: "json \<Rightarrow> json \<Rightarrow> json" where
  "mergeVal p v = (case v of
     JNum n \<Rightarrow> if n \<noteq> NaN \<and> \<not> isInf n then JNum (f_max (case p of JNum cur \<Rightarrow> cur | _ \<Rightarrow> Fin 0) n) else p
   | JObj o1 \<Rightarrow> JObj o1
   | JArr a \<Rightarrow> JArr a
   | _ \<Rightarrow> p)"

lemma mget_mergeField: "mget (mergeField (k', v) m) k = (if k = k' then mergeVal (mget m k) v else mget m k)"
  by (cases v) (auto simp: mergeField_def mergeVal_def mget_gm_set)

lemma mget_merge: "gm_wf n \<Longrightarrow> mget (fold mergeField n p) k = mergeVal (mget p k) (mget n k)"
proof (induction n arbitrary: p)
  case Nil
  then show ?case by (simp add: mget_def mergeVal_def)
next
  case (Cons a n)
  obtain k' v where a: "a = (k', v)" by force
  have wf: "gm_wf n" "k' \<notin> fst ` set n" using Cons(2) by (auto simp: gm_wf_def a)
  have "gm_get n k' = None" using wf(2) by (simp add: map_of_eq_None_iff)
  then have abs: "mget n k' = JNull" by (simp add: mget_def)
  have null: "mergeVal x JNull = x" for x by (simp add: mergeVal_def)
  have "mget (fold mergeField (a # n) p) k = mergeVal (mget (mergeField a p) k) (mget n k)"
    using Cons(1) [OF wf(1), of "mergeField a p"] by simp
  then show ?case by (cases "k = k'") (simp_all add: a mget_mergeField abs null mget_def [of "(k', v) # n"], simp add: mget_def)
qed

definition usageField :: "usage \<Rightarrow> string \<Rightarrow> json" where
  "usageField u k = (case u of None \<Rightarrow> JNull | Some m \<Rightarrow> mget m k)"

definition usage_wf :: "usage \<Rightarrow> bool" where
  "usage_wf u \<longleftrightarrow> (case u of None \<Rightarrow> True | Some m \<Rightarrow> gm_wf m)"

definition countOf :: "string \<Rightarrow> usage \<Rightarrow> rat option" where
  "countOf k u = (case usageField u k of JNum (Fin q) \<Rightarrow> Some q | _ \<Rightarrow> None)"

text \<open>A field of a reported block: absent, or a finite count that is not negative.\<close>

definition count_ok :: "string \<Rightarrow> usage \<Rightarrow> bool" where
  "count_ok k u \<longleftrightarrow> usage_wf u \<and> (usageField u k = JNull \<or> (\<exists>q. usageField u k = JNum (Fin q) \<and> 0 \<le> q))"

lemma Merge_field: "usage_wf u \<Longrightarrow> usageField (Merge v u) k = mergeVal (usageField v k) (usageField u k) \<or>
    (v = None \<and> usageField (Merge v u) k = usageField u k)"
  by (cases u; cases v) (auto simp: Merge_def usageField_def usage_wf_def mget_merge mergeVal_def)

lemma f_max_Fin: "f_max (Fin a) (Fin b) = Fin (max a b)"
  by (auto simp: f_max_def max_def)

lemma merge_fold:
  assumes "list_all (count_ok k) us"
  shows "usageField (foldl Merge None us) k =
     (let qs = List.map_filter (countOf k) us in if qs = [] then JNull else JNum (Fin (Max (set qs))))"
  using assms
proof (induction us rule: rev_induct)
  case Nil
  then show ?case by (simp add: usageField_def)
next
  case (snoc u us)
  let ?v = "foldl Merge None us" and ?qs = "List.map_filter (countOf k) us"
  have ok: "count_ok k u" and wf: "usage_wf u" using snoc(2) by (simp_all add: count_ok_def)
  have IH: "usageField ?v k = (if ?qs = [] then JNull else JNum (Fin (Max (set ?qs))))" using snoc by (simp add: Let_def)
  have nonneg: "\<forall>q \<in> set ?qs. 0 \<le> q"
    using snoc(2) by (force simp: map_filter_def countOf_def count_ok_def list_all_iff split: json.splits f64.splits)
  have app: "List.map_filter (countOf k) (us @ [u]) = ?qs @ (case countOf k u of None \<Rightarrow> [] | Some q \<Rightarrow> [q])"
    by (simp add: map_filter_def split: option.splits)
  have step: "foldl Merge None (us @ [u]) = Merge ?v u" by simp
  consider (absent) "usageField u k = JNull" | (count) q where "usageField u k = JNum (Fin q)" "0 \<le> q"
    using ok by (auto simp: count_ok_def)
  then show ?case
  proof cases
    case absent
    then have "countOf k u = None" by (simp add: countOf_def)
    moreover have "usageField (Merge ?v u) k = usageField ?v k"
      using Merge_field [OF wf, of ?v k] absent by (auto simp: mergeVal_def usageField_def)
    ultimately show ?thesis unfolding step app using IH by (simp add: Let_def)
  next
    case count
    then have c: "countOf k u = Some q" by (simp add: countOf_def)
    have "usageField (Merge ?v u) k = JNum (Fin (if ?qs = [] then q else max (Max (set ?qs)) q))"
      using Merge_field [OF wf, of ?v k] IH count
      by (auto simp: mergeVal_def isInf_def f_max_Fin usageField_def split: if_splits)
    then show ?thesis unfolding step app c by (simp add: Let_def max.commute)
  qed
qed

section \<open>UTF-16 lengths\<close>

text \<open>The UTF-8 bytes and the UTF-16 code units of a scalar value.\<close>

definition utf8 :: "nat \<Rightarrow> string" where
  "utf8 n =
     (if n < 0x80 then [char_of n]
      else if n < 0x800 then [char_of (0xC0 + n div 64), char_of (0x80 + n mod 64)]
      else if n < 0x10000 then [char_of (0xE0 + n div 4096), char_of (0x80 + n div 64 mod 64), char_of (0x80 + n mod 64)]
      else [char_of (0xF0 + n div 262144), char_of (0x80 + n div 4096 mod 64), char_of (0x80 + n div 64 mod 64), char_of (0x80 + n mod 64)])"

definition scalar :: "nat \<Rightarrow> bool" where
  "scalar n \<longleftrightarrow> n \<le> 0x10FFFF \<and> \<not> (0xD800 \<le> n \<and> n \<le> 0xDFFF)"

definition units16 :: "nat \<Rightarrow> nat" where
  "units16 n = (if n > 0xFFFF then 2 else 1)"

lemma of_char_of: "(of_char (char_of (n :: nat)) :: nat) = n mod 256"
  by simp

lemma cont_of: "n < 64 \<Longrightarrow> contByte (char_of (0x80 + n :: nat)) \<and> contBits (char_of (0x80 + n :: nat)) = n"
  by (simp add: contByte_def contBits_def)

lemma decode_utf8:
  assumes "scalar n"
  shows "decodeRune (utf8 n @ s) = (n, length (utf8 n))"
proof -
  have c: "contByte (char_of (128 + x :: nat))" "contBits (char_of (128 + x :: nat)) = x" "(of_char (char_of (128 + x :: nat)) :: nat) = 128 + x"
    if "x < 64" for x using cont_of [OF that] that by simp_all
  have m: "x mod 64 < 64" for x :: nat by simp
  have split1: "n = n div 4096 * 4096 + n div 64 mod 64 * 64 + n mod 64"
  proof -
    have "n div 4096 * 64 + n div 64 mod 64 = n div 64" using div_mult2_eq [of n 64 64] by simp
    then have "(n div 4096 * 64 + n div 64 mod 64) * 64 + n mod 64 = n" by (simp only: div_mult_mod_eq)
    then show ?thesis unfolding add_mult_distrib mult.assoc by simp
  qed
  have split2: "n div 4096 = n div 262144 * 64 + n div 4096 mod 64"
    using div_mult2_eq [of n 4096 64] by simp
  consider "n < 0x80" | "0x80 \<le> n" "n < 0x800" | "0x800 \<le> n" "n < 0x10000" | "0x10000 \<le> n" "n \<le> 0x10FFFF"
    using assms by (force simp: scalar_def)
  then show ?thesis
  proof cases
    case 1
    then show ?thesis by (simp add: utf8_def decodeRune_def)
  next
    case 2
    then have "n div 64 < 32" "2 \<le> n div 64" by auto
    then show ?thesis using 2 by (simp add: utf8_def decodeRune_def c m)
  next
    case 3
    define a b d where "a = n div 4096" and "b = n div 64 mod 64" and "d = n mod 64"
    have n: "n = a * 4096 + b * 64 + d" using split1 by (simp add: a_def b_def d_def)
    have bd: "b < 64" "d < 64" by (simp_all add: b_def d_def)
    have mb: "(128 + b) mod 256 = 128 + b" using bd by simp
    have a: "a < 16" using 3 by (auto simp: a_def)
    have lo: "a = 0 \<Longrightarrow> 32 \<le> b" and hi: "a = 13 \<Longrightarrow> b \<le> 31" using 3 assms bd by (auto simp: n scalar_def)
    have "utf8 n = [char_of (224 + a), char_of (128 + b), char_of (128 + d)]" using 3 by (simp add: utf8_def a_def b_def d_def)
    moreover have "(of_char (char_of (224 + a)) :: nat) = 224 + a" using a by simp
    moreover have "decodeRune (char_of (224 + a) # char_of (128 + b) # char_of (128 + d) # s) = (a * 4096 + b * 64 + d, 3)"
      using a lo hi bd mb by (auto simp: decodeRune_def c)
    ultimately show ?thesis by (simp add: n)
  next
    case 4
    define a b d e where "a = n div 262144" and "b = n div 4096 mod 64" and "d = n div 64 mod 64" and "e = n mod 64"
    have n: "n = a * 262144 + b * 4096 + d * 64 + e" using split1 split2 by (simp add: a_def b_def d_def e_def)
    have bd: "b < 64" "d < 64" "e < 64" by (simp_all add: b_def d_def e_def)
    have mb: "(128 + b) mod 256 = 128 + b" using bd by simp
    have a: "a < 5" using 4 by (auto simp: a_def)
    have lo: "a = 0 \<Longrightarrow> 16 \<le> b" and hi: "a = 4 \<Longrightarrow> b \<le> 15" using 4 bd by (auto simp: n)
    have "utf8 n = [char_of (240 + a), char_of (128 + b), char_of (128 + d), char_of (128 + e)]"
      using 4 by (simp add: utf8_def a_def b_def d_def e_def)
    moreover have "decodeRune (char_of (240 + a) # char_of (128 + b) # char_of (128 + d) # char_of (128 + e) # s) =
        (a * 262144 + b * 4096 + d * 64 + e, 4)"
      using a lo hi bd mb by (auto simp: decodeRune_def c)
    ultimately show ?thesis by (simp add: n)
  qed
qed

lemma utf8_cons: "\<exists>c cs. utf8 n = c # cs"
  by (simp add: utf8_def)

lemma utf8_backslash: "scalar n \<Longrightarrow> hd (utf8 n) = CHR 0x5C \<Longrightarrow> n = 0x5C"
  using decode_utf8 [of n "[]"] utf8_cons [of n] by (auto simp: decodeRune_def split: list.splits)

lemma UTF16Len_utf8:
  assumes "scalar n" and "n \<noteq> 0x5C" and "n \<noteq> runeError \<or> length (utf8 n) \<noteq> 1"
  shows "UTF16Len (utf8 n @ s) = units16 n + UTF16Len s"
proof -
  obtain c cs where u: "utf8 n = c # cs" using utf8_cons by blast
  have "c \<noteq> CHR 0x5C" using utf8_backslash [OF assms(1)] assms(2) u by auto
  moreover have "decodeRune (c # cs @ s) = (n, length (c # cs))" using decode_utf8 [OF assms(1), of s] u by simp
  ultimately show ?thesis using assms(3) u by (auto simp: UTF16Len.simps(2) units16_def)
qed

section \<open>Rounding\<close>

text \<open>Rounding to nearest is monotone and keeps what a double can hold.\<close>

definition round_mono :: "num_env \<Rightarrow> bool" where
  "round_mono N \<longleftrightarrow> (\<forall>x y. x \<le> y \<longrightarrow> ne_round N x \<noteq> NaN \<and> ne_round N y \<noteq> NaN \<and> \<not> f_lt (ne_round N y) (ne_round N x))"

lemma round_between:
  assumes "round_mono N" and "ne_round N a = Fin a" and "ne_round N b = Fin b" and "a \<le> x" and "x \<le> b"
  obtains r where "ne_round N x = Fin r" and "a \<le> r" and "r \<le> b"
proof -
  have "\<not> f_lt (ne_round N x) (Fin a)" "\<not> f_lt (Fin b) (ne_round N x)" "ne_round N x \<noteq> NaN"
    using assms(1,4,5) unfolding round_mono_def by (metis assms(2), metis assms(3), blast)
  then show thesis using that by (cases "ne_round N x") auto
qed

lemma synthesized_between:
  assumes "round_mono N" and "ne_round N 0 = Fin 0" and "ne_round N c = Fin c" and "0 \<le> c" and "0 \<le> q" and "q \<le> 1"
  shows "\<exists>r. f_floor (f_mul N (Fin c) (Fin q)) = Fin r \<and> 0 \<le> r \<and> r \<le> c"
proof -
  have "0 \<le> c * q" "c * q \<le> c" using assms(4-6) by (simp_all add: mult_left_le)
  from round_between [OF assms(1,2,3) this] obtain r where r: "ne_round N (c * q) = Fin r" "0 \<le> r" "r \<le> c" by metis
  have "0 \<le> \<lfloor>r\<rfloor>" using r(2) by simp
  then have "(0 :: rat) \<le> of_int \<lfloor>r\<rfloor>" by simp
  moreover have "of_int \<lfloor>r\<rfloor> \<le> c" using of_int_floor_le [of r] r(3) by (rule order_trans)
  ultimately show ?thesis using r(1) by simp
qed

text \<open>The completion count the synthesis reads.\<close>

definition completionOf :: "num_env \<Rightarrow> (string, json) gomap \<Rightarrow> f64" where
  "completionOf N u = num N (firstNonNull [mget u ''completion_tokens'', mget u ''output_tokens'', mget u ''candidatesTokenCount''])"

definition detailsKey :: "string \<Rightarrow> string" where
  "detailsKey target = (if target = ''responses'' then ''output_tokens_details'' else ''completion_tokens_details'')"

lemma Get_JObj: "Get (JObj m) k = mget m k"
  by (simp add: Get_def)

lemma SynthesizeThinking_cases:
  assumes "completionOf N u = Fin c" and "ratio = Fin q"
  shows "SynthesizeThinking N (Some u) target ratio = Some u \<or>
     (0 < c \<and> SynthesizeThinking N (Some u) target ratio = Some (gm_set (detailsKey target)
        (JObj (gm_set ''reasoning_tokens'' (JNum (if f_lt SynthMaxOutput (Fin c) then f_floor (f_mul N (Fin c) (Fin q)) else Fin 0))
          (case asObj (mget u (detailsKey target)) of None \<Rightarrow> [] | Some m \<Rightarrow> m))) u))"
proof -
  have c: "num N (firstNonNull [mget u ''completion_tokens'', mget u ''output_tokens'', mget u ''candidatesTokenCount'']) = Fin c"
    using assms(1) by (simp add: completionOf_def)
  show ?thesis unfolding SynthesizeThinking_def option.case Let_def c assms(2)
    by (simp add: isInf_def detailsKey_def)
qed

section \<open>Properties\<close>

text \<open>
  The canonical form is a fixed point: canonicalizing a block whose counts are finite folds the cache
  into the prompt once and never again.
\<close>

theorem canonical_idempotent:
  assumes "Canonical N u = Some m" and "list_all (\<lambda>(k, v). case v of JNum x \<Rightarrow> finite64 x | _ \<Rightarrow> True) m"
  shows "Canonical N (Some m) = Some m"
proof -
  obtain u' where "u = Some u'" using assms(1) by (cases u) (auto simp: Canonical_def)
  with Canonical_form [of N u'] assms(1) obtain p c k w r where m: "m = canonicalOf p c (f_add N p c) k w r" by auto
  have "finite64 p" "finite64 c" "finite64 k" "finite64 w" "f_lt (Fin 0) r \<Longrightarrow> finite64 r"
    using assms(2) by (auto simp: m canonicalOf_def Let_def split: if_splits)
  then show ?thesis unfolding m by (rule Canonical_canonicalOf)
qed

definition exact_env :: num_env where
  "exact_env = \<lparr>ne_round = Fin, ne_parse = (\<lambda>_. (Fin 0, Some ErrSyntax)), ne_format_f = (\<lambda>_. []), ne_format_g = (\<lambda>_. [])\<rparr>"

theorem canonical_idempotent_witness:
  "let m = [(''prompt_tokens'', JNum (Fin 17)), (''completion_tokens'', JNum (Fin 3)), (''total_tokens'', JNum (Fin 20)),
       (''cached_tokens'', JNum (Fin 5)), (''cache_creation_input_tokens'', JNum (Fin 2))]
   in Canonical exact_env (Some [(''prompt_tokens'', JNum (Fin 10)), (''completion_tokens'', JNum (Fin 3)),
        (''cache_read_input_tokens'', JNum (Fin 5)), (''cache_creation_input_tokens'', JNum (Fin 2))]) = Some m \<and>
      Canonical exact_env (Some m) = Some m"
proof -
  let ?m = "[(''prompt_tokens'', JNum (Fin 17)), (''completion_tokens'', JNum (Fin 3)), (''total_tokens'', JNum (Fin 20)),
       (''cached_tokens'', JNum (Fin 5)), (''cache_creation_input_tokens'', JNum (Fin 2))]"
  have "Canonical exact_env (Some [(''prompt_tokens'', JNum (Fin 10)), (''completion_tokens'', JNum (Fin 3)),
      (''cache_read_input_tokens'', JNum (Fin 5)), (''cache_creation_input_tokens'', JNum (Fin 2))]) = Some ?m"
    by (simp add: Canonical_def mget_def has_def exact_env_def num_null Let_def)
  with canonical_idempotent [OF this] show ?thesis by (simp add: finite64_def)
qed

text \<open>
  Merging the usage blocks of a stream, in whatever order they arrive, gives for each count the
  largest value any block reported.
\<close>

theorem usage_merge_max:
  assumes "list_all (count_ok k) us"
  shows "usageField (foldl Merge None us) k =
     (let qs = List.map_filter (countOf k) us in if qs = [] then JNull else JNum (Fin (Max (set qs))))"
  by (rule merge_fold [OF assms])

theorem usage_merge_max_witness:
  "usageField (foldl Merge None [Some [(''n'', JNum (Fin 7))], None, Some [(''n'', JNum (Fin 4))]]) ''n'' = JNum (Fin 7)"
  using usage_merge_max [of "''n''" "[Some [(''n'', JNum (Fin 7))], None, Some [(''n'', JNum (Fin 4))]]"]
  by (simp add: count_ok_def usage_wf_def usageField_def gm_wf_def mget_def countOf_def)

text \<open>
  On text without backslashes the length counts UTF-16 code units: two for a scalar value beyond the
  basic plane, one for any other, whatever the number of bytes.
\<close>

theorem utf16_len_units:
  assumes "list_all (\<lambda>n. scalar n \<and> n \<noteq> 0x5C) cps"
  shows "UTF16Len (concat (map utf8 cps)) = sum_list (map units16 cps)"
  using assms
proof (induction cps)
  case (Cons n cps)
  have "n \<noteq> runeError \<or> length (utf8 n) \<noteq> 1" by (simp add: utf8_def runeError_def)
  with Cons UTF16Len_utf8 [of n "concat (map utf8 cps)"] show ?case by simp
qed simp

theorem utf16_len_units_witness:
  "UTF16Len (concat (map utf8 [0x1F600, 0xE9, 0x41])) = 4"
  using utf16_len_units [of "[0x1F600, 0xE9, 0x41]"] by (simp add: scalar_def units16_def)

text \<open>
  A backslash and the letter after it count once: the length of a JSON text, or of decoded content that
  holds a backslash, falls below the number of its code units.
\<close>

lemma utf16_backslash_undercount: "UTF16Len [CHR 0x5C, CHR ''n''] = 1"
  by (simp add: UTF16Len.simps(2))

text \<open>A string that \<^verbatim>\<open>strconv.ParseFloat\<close> reads as NaN is accepted as a number.\<close>

lemma numok_accepts_nan: "ne_parse N ''nan'' = (NaN, None) \<Longrightarrow> trimSpace ''nan'' = ''nan'' \<Longrightarrow> NumOK N (JStr ''nan'') = (NaN, True)"
  by (simp add: NumOK_def numString_def Let_def isInf_def)

text \<open>
  A synthesized reasoning count never exceeds the completion it is a share of and is never negative,
  for every share between 0 and 1; no field but the details of the target format changes; and a block
  without completion tokens, or that already reports reasoning, is returned as it is.
\<close>

theorem synthesized_bounds:
  assumes "round_mono N" and "ne_round N 0 = Fin 0" and "ne_round N c = Fin c" and "completionOf N u = Fin c"
    and "0 \<le> q" and "q \<le> 1"
  shows "\<exists>m. SynthesizeThinking N (Some u) target (Fin q) = Some m \<and>
     (m = u \<or> ((\<exists>r. Get (mget m (detailsKey target)) ''reasoning_tokens'' = JNum (Fin r) \<and> 0 \<le> r \<and> r \<le> c) \<and>
        list_all (\<lambda>k. k = detailsKey target \<or> mget m k = mget u k) (map fst m)))"
proof -
  let ?s = "if f_lt SynthMaxOutput (Fin c) then f_floor (f_mul N (Fin c) (Fin q)) else Fin 0"
  show ?thesis
  proof (cases "SynthesizeThinking N (Some u) target (Fin q) = Some u")
    case False
    with SynthesizeThinking_cases [OF assms(4) refl, of target q] obtain src where c: "0 < c"
      and e: "SynthesizeThinking N (Some u) target (Fin q) =
        Some (gm_set (detailsKey target) (JObj (gm_set ''reasoning_tokens'' (JNum ?s) src)) u)" by blast
    have "\<exists>r. ?s = Fin r \<and> 0 \<le> r \<and> r \<le> c"
      using synthesized_between [OF assms(1-3) _ assms(5,6)] c by auto
    then show ?thesis unfolding e by (auto simp: mget_gm_set Get_JObj list_all_iff)
  qed blast
qed

theorem synthesized_bounds_witness:
  "\<exists>m. SynthesizeThinking exact_env (Some [(''completion_tokens'', JNum (Fin 21))]) ''chat'' (Fin (3 / 4)) = Some m \<and>
     (m = [(''completion_tokens'', JNum (Fin 21))] \<or>
      (\<exists>r. Get (mget m ''completion_tokens_details'') ''reasoning_tokens'' = JNum (Fin r) \<and> 0 \<le> r \<and> r \<le> 21))"
proof -
  have "round_mono exact_env" by (simp add: round_mono_def exact_env_def)
  moreover have "completionOf exact_env [(''completion_tokens'', JNum (Fin 21))] = Fin 21"
    by (simp add: completionOf_def mget_def)
  ultimately show ?thesis
    using synthesized_bounds [of exact_env 21 "[(''completion_tokens'', JNum (Fin 21))]" "3 / 4" "''chat''"]
    by (auto simp: detailsKey_def exact_env_def)
qed

end
