(* ===== verification/Cloak.thy ===== *)
theory Cloak
  imports Usage
begin

text \<open>
  What makes a request look like the official client's (\<^verbatim>\<open>internal/cloak/cloak.go\<close> and
  \<^verbatim>\<open>thinking.go\<close>, with the constants of \<^verbatim>\<open>internal/config/config.go\<close>): which endpoint serves a model,
  the tool quartet the upstream's gate demands, the shapes the Responses endpoint accepts, and the
  unified thinking intent.

  A body is a map whose nested objects are values, so an in-place change of a nested object is written as
  the update of the path to it. The clock is read by index: \<open>clk n\<close> is the millisecond at which the
  \<open>n\<close>-th call identifier is made up.
\<close>

type_synonym jmap = "(string, json) gomap"

section \<open>Models\<close>

definition is_paren :: "char \<Rightarrow> bool" where
  "is_paren c \<longleftrightarrow> c = CHR 0x28 \<or> c = CHR 0x29"

definition suffixRe :: regex where
  "suffixRe = rx_lit [CHR 0x28] @ [PPlus (\<lambda>c. \<not> is_paren c)] @ rx_lit [CHR 0x29] @ [PStar is_blank, PEnd]"

definition BaseModelID :: "string \<Rightarrow> string" where
  "BaseModelID model = trimSpace (case rx_before suffixRe model of None \<Rightarrow> model | Some pre \<Rightarrow> pre)"

definition UpstreamModelID :: "string \<Rightarrow> string" where
  "UpstreamModelID model =
     (let base = BaseModelID model in
      case indexByte base (CHR ''/'') of None \<Rightarrow> base | Some i \<Rightarrow> drop (Suc i) base)"

definition afterLastSlash :: "string \<Rightarrow> string" where
  "afterLastSlash s = rev (takeWhile (\<lambda>c. c \<noteq> CHR ''/'') (rev s))"

text \<open>\<^verbatim>\<open>(?i)^muse[-_]?spark(?:$|[-_:.\s])\<close>\<close>

definition ResponsesModelRe :: "string \<Rightarrow> bool" where
  "ResponsesModelRe s = (case foldDrop ''muse'' s of
     None \<Rightarrow> False
   | Some r \<Rightarrow>
       let r1 = (case r of c # cs \<Rightarrow> if c = CHR ''-'' \<or> c = CHR ''_'' then cs else r | [] \<Rightarrow> r) in
       (case foldDrop ''spark'' r1 of
          None \<Rightarrow> False
        | Some [] \<Rightarrow> True
        | Some (c # _) \<Rightarrow> c \<in> {CHR ''-'', CHR ''_'', CHR '':'', CHR ''.''} \<or> is_blank c))"

definition IsResponsesModel :: "string \<Rightarrow> bool" where
  "IsResponsesModel model = ResponsesModelRe (afterLastSlash (BaseModelID model))"

definition URL :: "string \<Rightarrow> string \<Rightarrow> string" where
  "URL upstreamBase model =
     (if IsResponsesModel model then upstreamBase @ ''/inference/v1/responses''
      else upstreamBase @ ''/inference/v1/chat/completions'')"

section \<open>The fingerprint tools\<close>

definition toolNameOf :: "json \<Rightarrow> string" where
  "toolNameOf tool = (case asObj tool of
     None \<Rightarrow> []
   | Some o1 \<Rightarrow>
       if asStr (mget o1 ''name'') \<noteq> [] then trimSpace (asStr (mget o1 ''name''))
       else trimSpace (asStr (Get (mget o1 ''function'') ''name'')))"

record fingerprint_tool =
  ft_description :: string
  ft_properties :: "(string \<times> json) list"
  ft_required :: "string list"

definition toolProp :: "string \<Rightarrow> string \<Rightarrow> string \<Rightarrow> string \<times> json" where
  "toolProp name t d = (name, JObj [(''type'', JStr t), (''description'', JStr d)])"

definition FingerprintTools :: "string list" where
  "FingerprintTools = [''shell'', ''glob'', ''grep'', ''read'']"

definition FingerprintToolSchemas :: "(string, fingerprint_tool) gomap" where
  "FingerprintToolSchemas = [
      (''shell'',
        \<lparr>ft_description = ''Execute a shell command and return its output. Quote file paths containing spaces or special characters. Prefer dedicated tools over shell commands when possible. When output is large, the full result is saved to a file and a truncated preview is returned. Rely on automatic truncation unless filtering the output is more useful. Commands accept an optional timeout, background commands have no timeout by default. Background commands return immediately, and you will be notified when they complete.'',
         ft_properties = [
          toolProp ''command'' ''string'' (''Shell command string to execute''),
          toolProp ''workdir'' ''string'' (''Working directory to execute the command in. Defaults to the current working directory. When possible, avoid changing directories in the command and set the working directory here instead.''),
          toolProp ''timeout'' ''integer'' (''Timeout in milliseconds. Set to 0 to disable the timeout. Defaults to 120000 for foreground commands. Background commands have no timeout by default.''),
          toolProp ''background'' ''boolean'' (''Run the command in the background and return immediately (useful for dev servers and long-running builds). You do not need to use '' @ [CHR 0x27] @ ''&'' @ [CHR 0x27] @ '' at the end of the command when using this parameter. You will be notified when it completes. DO NOT poll for completion.'')],
         ft_required = [''command'']\<rparr>),
      (''glob'',
        \<lparr>ft_description = ''Search file paths using a glob pattern (examples: '' @ [CHR 0x22] @ ''**/*.ts'' @ [CHR 0x22] @ '', '' @ [CHR 0x22] @ ''src/**/*.tsx'' @ [CHR 0x22] @ '').'',
         ft_properties = [
          toolProp ''pattern'' ''string'' (''Glob pattern to match files against''),
          toolProp ''path'' ''string'' (''Directory to search. Defaults to the current working directory.''),
          toolProp ''hidden'' ''boolean'' (''Include hidden files and directories (default: false).''),
          toolProp ''limit'' ''integer'' (''Maximum number of matching files to return (default: 100)'')],
         ft_required = [''pattern'']\<rparr>),
      (''grep'',
        \<lparr>ft_description = ''Search file contents using ripgrep'' @ [CHR 0x27] @ ''s regular expression syntax or literal text matching. Use it to locate specific code, symbols, or text patterns, and narrow searches with '' @ [CHR 0x60] @ ''path'' @ [CHR 0x60] @ '' or '' @ [CHR 0x60] @ ''include'' @ [CHR 0x60] @ ''. Returns matching file paths, line numbers, and line previews.'',
         ft_properties = [
          toolProp ''pattern'' ''string'' (''Regular expression or literal text to match in file contents.''),
          toolProp ''path'' ''string'' (''File or directory to search. Defaults to the current working directory.''),
          toolProp ''include'' ''string'' (''Glob pattern to filter files (for example, '' @ [CHR 0x22] @ ''*.js'' @ [CHR 0x22] @ '' or '' @ [CHR 0x22] @ ''*.{ts,tsx}'' @ [CHR 0x22] @ '')''),
          toolProp ''literal'' ''boolean'' (''Treat '' @ [CHR 0x60] @ ''pattern'' @ [CHR 0x60] @ '' as exact text instead of a regular expression (default: false).''),
          toolProp ''caseSensitive'' ''boolean'' (''Use case-sensitive matching (default: true).''),
          toolProp ''limit'' ''integer'' (''Maximum number of matching lines to return (default: 100)'')],
         ft_required = [''pattern'']\<rparr>),
      (''read'',
        \<lparr>ft_description = ''Read the contents of a file or directory. Supports text files, images, and PDFs. Images and PDFs are presented directly to the model. Each text line is prefixed by its 1-based line number as <line>: <content>. The prefix is for reference and is not part of the file content. Directory entries are returned one per line. Use offset and limit to read large files or directories in sections. Prefer one larger read over many small slices, and use grep to find specific content in large files.'',
         ft_properties = [
          toolProp ''path'' ''string'' (''File or directory to read''),
          toolProp ''offset'' ''integer'' (''The line or directory entry to start reading from (1-based)''),
          toolProp ''limit'' ''integer'' (''The maximum number of lines or directory entries to read (defaults to and capped at 2000)'')],
         ft_required = [''path'']\<rparr>)]"

definition fingerprintParams :: "string \<Rightarrow> json" where
  "fingerprintParams name = (case gm_get FingerprintToolSchemas name of
     None \<Rightarrow> ObjOf [(''type'', JStr ''object''), (''properties'', ObjOf [])]
   | Some def \<Rightarrow>
       if ft_properties def = [] then ObjOf [(''type'', JStr ''object''), (''properties'', ObjOf [])]
       else
         let params = [(''type'', JStr ''object''), (''properties'', JObj (ft_properties def))] in
         JObj (if ft_required def \<noteq> [] then gm_set ''required'' (JArr (map JStr (ft_required def))) params else params))"

definition fingerprintDescription :: "string \<Rightarrow> string" where
  "fingerprintDescription name = (case gm_get FingerprintToolSchemas name of
     Some def \<Rightarrow> if ft_description def \<noteq> [] then ft_description def else ''OpenCode built-in '' @ name @ '' tool''
   | None \<Rightarrow> ''OpenCode built-in '' @ name @ '' tool'')"

definition fingerprintToolChat :: "string \<Rightarrow> json" where
  "fingerprintToolChat name = ObjOf [(''type'', JStr ''function''), (''function'', ObjOf [(''name'', JStr name),
     (''description'', JStr (fingerprintDescription name)), (''parameters'', fingerprintParams name)])]"

definition fingerprintToolResponses :: "string \<Rightarrow> json" where
  "fingerprintToolResponses name = ObjOf [(''type'', JStr ''function''), (''name'', JStr name),
     (''description'', JStr (fingerprintDescription name)), (''parameters'', fingerprintParams name)]"

text \<open>The appending loop: names present already are skipped.\<close>

fun appendMissing :: "(string \<Rightarrow> json) \<Rightarrow> string list \<Rightarrow> string list \<Rightarrow> json list \<Rightarrow> json list" where
  "appendMissing mk [] present tools = tools"
| "appendMissing mk (n # ns) present tools =
     (if n \<in> set present then appendMissing mk ns present tools
      else appendMissing mk ns (n # present) (tools @ [mk n]))"

definition toolNames :: "json list \<Rightarrow> string list" where
  "toolNames tools = filter (\<lambda>n. n \<noteq> []) (map toolNameOf tools)"

definition EnsureChatFingerprintTools :: "jmap \<Rightarrow> jmap" where
  "EnsureChatFingerprintTools body =
     (let callerTools = (case mget body ''tools'' of JArr ts \<Rightarrow> ts | _ \<Rightarrow> []);
          body1 = gm_set ''tools'' (JArr (appendMissing fingerprintToolChat FingerprintTools (toolNames callerTools) callerTools)) body
      in if length callerTools = 0 \<and> \<not> truthy (mget body1 ''tool_choice'')
         then gm_set ''tool_choice'' (JStr ''none'') body1 else body1)"

definition EnsureResponsesFingerprintTools :: "jmap \<Rightarrow> jmap" where
  "EnsureResponsesFingerprintTools body =
     (let callerTools = (case mget body ''tools'' of JArr ts \<Rightarrow> ts | _ \<Rightarrow> []);
          body1 = gm_set ''tools'' (JArr (appendMissing fingerprintToolResponses FingerprintTools (toolNames callerTools) callerTools)) body
      in if \<not> truthy (mget body1 ''tool_choice'') then gm_set ''tool_choice'' (JStr ''auto'') body1 else body1)"

section \<open>Responses shapes\<close>

definition MaxToolNameLen :: nat where
  "MaxToolNameLen = 128"

definition MaxResponsesCallID :: nat where
  "MaxResponsesCallID = 64"

text \<open>The text codec: \<^verbatim>\<open>json.Marshal\<close>, \<^verbatim>\<open>json.Unmarshal\<close>, \<^verbatim>\<open>json.Valid\<close> and the text \<^verbatim>\<open>fmt.Sprint\<close> prints.\<close>

record codec =
  co_encode :: "json \<Rightarrow> string option"
  co_decode :: "string \<Rightarrow> json option"
  co_valid :: "string \<Rightarrow> bool"
  co_sprint :: "json \<Rightarrow> string"

definition flatParameters :: "codec \<Rightarrow> jmap \<Rightarrow> jmap option \<Rightarrow> jmap" where
  "flatParameters co tool fn =
     (let parameters = (case mget tool ''parameters'' of
            JObj p \<Rightarrow> p
          | _ \<Rightarrow> (case fn of
              None \<Rightarrow> [(''type'', JStr ''object''), (''properties'', JObj [])]
            | Some f \<Rightarrow> (case mget f ''parameters'' of
                JObj p \<Rightarrow> p
              | _ \<Rightarrow> [(''type'', JStr ''object''), (''properties'', JObj [])])))
      in if asStr (mget parameters ''type'') = ''object'' \<and> \<not> truthy (mget parameters ''properties'')
         then gm_set ''properties'' (JObj []) (case Clone (co_encode co) (co_decode co) (JObj parameters) of JObj c \<Rightarrow> c | _ \<Rightarrow> [])
         else parameters)"

definition flatTool :: "codec \<Rightarrow> json \<Rightarrow> jmap option" where
  "flatTool co rt = (case asObj rt of
     None \<Rightarrow> None
   | Some tool \<Rightarrow>
       let fn = asObj (mget tool ''function'');
           name0 = trimSpace (asStr (mget tool ''name''));
           name = (if name0 = [] then (case fn of None \<Rightarrow> [] | Some f \<Rightarrow> trimSpace (asStr (mget f ''name''))) else name0)
       in if name = [] then None
          else
            let description0 = asStr (mget tool ''description'');
                description = (if description0 = [] then (case fn of None \<Rightarrow> [] | Some f \<Rightarrow> asStr (mget f ''description'')) else description0);
                flat = [(''type'', JStr ''function''), (''name'', JStr (take MaxToolNameLen name))]
            in Some (gm_set ''parameters'' (JObj (flatParameters co tool fn))
                 (if description \<noteq> [] then gm_set ''description'' (JStr description) flat else flat)))"

definition NormalizeResponsesTools :: "codec \<Rightarrow> jmap \<Rightarrow> jmap" where
  "NormalizeResponsesTools co body = (case mget body ''tools'' of
     JArr rawTools \<Rightarrow>
       let flats = List.map_filter (flatTool co) rawTools;
           validNames = map (\<lambda>f. asStr (mget f ''name'')) flats;
           body1 = gm_set ''tools'' (JArr (map JObj flats)) body
       in (case mget body1 ''tool_choice'' of
             JObj choice \<Rightarrow>
               if asStr (mget choice ''type'') = ''function'' \<and>
                  (let n = trimSpace (asStr (mget choice ''name'')) in n = [] \<or> n \<notin> set validNames)
               then gm_del ''tool_choice'' body1 else body1
           | _ \<Rightarrow> body1)
   | _ \<Rightarrow> body)"

definition ClampResponsesCallID :: "(int \<Rightarrow> int) \<Rightarrow> json \<Rightarrow> int \<Rightarrow> string \<times> int" where
  "ClampResponsesCallID clk i seq =
     (let s = asStr i in
      if s = [] then let seq1 = wrap64 (seq + 1) in (''call_'' @ itoa (clk seq1) @ ''_'' @ itoa seq1, seq1)
      else if length s > MaxResponsesCallID then (take MaxResponsesCallID s, seq)
      else (s, seq))"

definition CoerceResponsesArguments :: "codec \<Rightarrow> json \<Rightarrow> string" where
  "CoerceResponsesArguments co v =
     (let braces = [CHR 0x7B, CHR 0x7D] in
      case v of
        JNull \<Rightarrow> braces
      | JStr s \<Rightarrow> if s = [] then braces else if co_valid co s then s else braces
      | _ \<Rightarrow> (case co_encode co v of None \<Rightarrow> braces | Some b \<Rightarrow> b))"

definition outputPart :: "codec \<Rightarrow> json \<Rightarrow> string" where
  "outputPart co c =
     (let whole = (case co_encode co c of None \<Rightarrow> co_sprint co c | Some b \<Rightarrow> b) in
      case asObj c of
        None \<Rightarrow> whole
      | Some o1 \<Rightarrow> (case mget o1 ''text'' of
          JNull \<Rightarrow> whole
        | JStr s \<Rightarrow> s
        | t \<Rightarrow> (case co_encode co t of None \<Rightarrow> [] | Some b \<Rightarrow> b)))"

definition CoerceResponsesOutput :: "codec \<Rightarrow> json \<Rightarrow> string" where
  "CoerceResponsesOutput co v = (case v of
     JStr s \<Rightarrow> s
   | JNull \<Rightarrow> []
   | JArr a \<Rightarrow> concat (map (outputPart co) a)
   | _ \<Rightarrow> (case co_encode co v of None \<Rightarrow> co_sprint co v | Some b \<Rightarrow> b))"

definition userMessage :: "string \<Rightarrow> json" where
  "userMessage txt = ObjOf [(''type'', JStr ''message''), (''role'', JStr ''user''),
     (''content'', ArrOf [ObjOf [(''type'', JStr ''input_text''), (''text'', JStr txt)]])]"

definition NormalizeResponsesInput :: "json \<Rightarrow> json list option" where
  "NormalizeResponsesInput input = (case input of
     JStr t \<Rightarrow> Some [userMessage (if trimSpace t = [] then ''...'' else t)]
   | JArr v \<Rightarrow> Some (if v = [] then [userMessage ''...''] else v)
   | _ \<Rightarrow> None)"

text \<open>One item: \<open>None\<close> when it is dropped, and the sequence number.\<close>

definition sanitizeItem :: "codec \<Rightarrow> (int \<Rightarrow> int) \<Rightarrow> json \<Rightarrow> int \<Rightarrow> json option \<times> int" where
  "sanitizeItem co clk raw seq = (case asObj raw of
     None \<Rightarrow> (Some raw, seq)
   | Some item0 \<Rightarrow>
       let t = asStr (mget item0 ''type'') in
       if t = ''reasoning'' then (None, seq)
       else
         let item = gm_del ''reasoning_encrypted_content'' (gm_del ''encrypted_content'' item0) in
         if t = ''function_call'' then
           let name = trimSpace (asStr (mget item ''name'')) in
           if name = [] then (None, seq)
           else
             let item1 = gm_set ''name'' (JStr (take MaxToolNameLen name)) item;
                 (cid, seq1) = ClampResponsesCallID clk (mget item1 ''call_id'') seq;
                 item2 = gm_set ''call_id'' (JStr cid) item1
             in (Some (JObj (gm_set ''arguments'' (JStr (CoerceResponsesArguments co (mget item2 ''arguments''))) item2)), seq1)
         else if t = ''function_call_output'' then
           let (cid, seq1) = ClampResponsesCallID clk (mget item ''call_id'') seq;
               item2 = gm_set ''call_id'' (JStr cid) item
           in (Some (JObj (gm_set ''output'' (JStr (CoerceResponsesOutput co (mget item2 ''output''))) item2)), seq1)
         else (Some (JObj item), seq))"

fun sanitizeLoop :: "codec \<Rightarrow> (int \<Rightarrow> int) \<Rightarrow> json list \<Rightarrow> int \<Rightarrow> json list \<times> int" where
  "sanitizeLoop co clk [] seq = ([], seq)"
| "sanitizeLoop co clk (raw # items) seq =
     (case sanitizeItem co clk raw seq of (r, seq1) \<Rightarrow>
      case sanitizeLoop co clk items seq1 of (out, seq2) \<Rightarrow>
        ((case r of None \<Rightarrow> out | Some v \<Rightarrow> v # out), seq2))"

definition SanitizeResponsesItems :: "codec \<Rightarrow> (int \<Rightarrow> int) \<Rightarrow> jmap \<Rightarrow> int \<Rightarrow> jmap \<times> int" where
  "SanitizeResponsesItems co clk body seq = (case mget body ''input'' of
     JArr input \<Rightarrow> (case sanitizeLoop co clk input seq of (out, seq1) \<Rightarrow> (gm_set ''input'' (JArr out) body, seq1))
   | _ \<Rightarrow> (body, seq))"

definition ForceAutoToolChoiceModels :: "string list" where
  "ForceAutoToolChoiceModels = [''muse-spark-1.2-contributor-free'', ''muse-spark-1.3-contributor-free'']"

definition DemoteToolChoice :: "jmap \<Rightarrow> string \<Rightarrow> jmap" where
  "DemoteToolChoice body model =
     (if BaseModelID model \<notin> set ForceAutoToolChoiceModels then body
      else if has body ''tool_choice'' \<and> mget body ''tool_choice'' \<noteq> JStr ''auto''
      then gm_set ''tool_choice'' (JStr ''auto'') body else body)"

definition injectReasoning :: "json \<Rightarrow> json" where
  "injectReasoning raw = (case asObj raw of
     None \<Rightarrow> raw
   | Some msg \<Rightarrow>
       if asStr (mget msg ''role'') \<noteq> ''assistant'' then raw
       else if asStr (mget msg ''reasoning_content'') \<noteq> [] then raw
       else JObj (gm_set ''reasoning_content'' (JStr '' '') msg))"

definition InjectReasoningContent :: "string \<Rightarrow> jmap \<Rightarrow> jmap" where
  "InjectReasoningContent model body = (case mget body ''messages'' of
     JArr messages \<Rightarrow>
       if \<not> foldContains ''deepseek'' model then body
       else gm_set ''messages'' (JArr (map injectReasoning messages)) body
   | _ \<Rightarrow> body)"

end
