(* ===== verification/Thinking.thy ===== *)
theory Thinking
  imports Cloak
begin

text \<open>
  The unified thinking intent (\<^verbatim>\<open>internal/cloak/thinking.go\<close>): where a request or a model name asks for
  reasoning, how that is rendered for the upstream, and the removal of every other spelling of it.
  \<open>lw\<close> is \<^verbatim>\<open>strings.ToLower\<close>.
\<close>

definition plainKnobs :: "string list" where
  "plainKnobs = [''thinking'', ''reasoning_effort'', ''reasoning'', ''thinkingConfig'', ''enable_thinking'', ''thinking_budget'',
     ''output_config'']"

definition dropThinkingConfig :: "json \<Rightarrow> json" where
  "dropThinkingConfig v = (case v of JObj gc \<Rightarrow> JObj (gm_del ''thinkingConfig'' gc) | _ \<Rightarrow> v)"

definition StripAll :: "jmap \<Rightarrow> jmap" where
  "StripAll body =
     (let b1 = fold gm_del plainKnobs body;
          b2 = (case asObj (mget b1 ''generationConfig'') of
             None \<Rightarrow> b1 | Some gc \<Rightarrow> gm_set ''generationConfig'' (JObj (gm_del ''thinkingConfig'' gc)) b1)
      in case asObj (mget b2 ''request'') of
           None \<Rightarrow> b2
         | Some req \<Rightarrow> (case asObj (mget req ''generationConfig'') of
             None \<Rightarrow> b2
           | Some gc \<Rightarrow> gm_set ''request'' (JObj (gm_set ''generationConfig'' (JObj (gm_del ''thinkingConfig'' gc)) req)) b2))"

definition LevelToBudget :: "(string, f64) gomap" where
  "LevelToBudget = [(''none'', Fin 0), (''minimal'', Fin 512), (''low'', Fin 1024), (''medium'', Fin 8192), (''high'', Fin 24576),
     (''xhigh'', Fin 32768), (''max'', Fin 128000)]"

definition f_le :: "f64 \<Rightarrow> f64 \<Rightarrow> bool" where
  "f_le x y \<longleftrightarrow> f_lt x y \<or> (x = y \<and> x \<noteq> NaN)"

definition BudgetToLevel :: "f64 \<Rightarrow> string" where
  "BudgetToLevel budget =
     (if f_le budget (Fin 0) then []
      else if f_le budget (Fin 768) then ''minimal''
      else if f_le budget (Fin 4096) then ''low''
      else if f_le budget (Fin 16384) then ''medium''
      else if f_le budget (Fin 28672) then ''high''
      else ''xhigh'')"

definition suffixCaptureRe :: regex where
  "suffixCaptureRe = [POpen, PStar (\<lambda>c. c \<noteq> CHR 0x0A), PClose] @ rx_lit [CHR 0x28] @ [POpen, PPlus (\<lambda>c. \<not> is_paren c), PClose]
     @ rx_lit [CHR 0x29] @ [PStar is_blank, PEnd]"

record thinking_cfg =
  tc_mode :: string
  tc_level :: string
  tc_budget :: f64

definition cfg_mode :: "string \<Rightarrow> thinking_cfg" where
  "cfg_mode md = \<lparr>tc_mode = md, tc_level = [], tc_budget = Fin 0\<rparr>"

definition cfg_level :: "string \<Rightarrow> thinking_cfg" where
  "cfg_level l = \<lparr>tc_mode = ''level'', tc_level = l, tc_budget = Fin 0\<rparr>"

definition cfg_budget :: "f64 \<Rightarrow> thinking_cfg" where
  "cfg_budget b = \<lparr>tc_mode = ''budget'', tc_level = [], tc_budget = b\<rparr>"

definition ParseSuffix :: "num_env \<Rightarrow> (string \<Rightarrow> string) \<Rightarrow> string \<Rightarrow> string \<times> thinking_cfg option" where
  "ParseSuffix N lw model = (case rx_match suffixCaptureRe model of
     Some (m1 # m2 # _, _) \<Rightarrow>
       let clean = trimSpace m1; raw = lw (trimSpace m2) in
       if raw = ''none'' \<or> raw = ''off'' then (clean, Some (cfg_mode ''none''))
       else if raw = ''auto'' then (clean, Some (cfg_mode ''auto''))
       else if raw = ''ultra'' then (clean, Some (cfg_level ''ultra''))
       else if raw \<noteq> [] \<and> list_all is_digit raw then (clean, Some (cfg_budget (fst (ne_parse N raw))))
       else if gm_get LevelToBudget raw \<noteq> None then (clean, Some (cfg_level raw))
       else (clean, None)
   | _ \<Rightarrow> (model, None))"

definition lowerEffort :: "(string \<Rightarrow> string) \<Rightarrow> json \<Rightarrow> thinking_cfg option" where
  "lowerEffort lw v = (case v of
     JStr s \<Rightarrow>
       if s = [] then None
       else let e = lw s in
         if e = ''none'' \<or> e = ''off'' then Some (cfg_mode ''none'')
         else if e = ''auto'' then Some (cfg_mode ''auto'')
         else Some (cfg_level e)
   | _ \<Rightarrow> None)"

text \<open>The sources of an intent, in the order they are consulted; the first that has one wins.\<close>

definition fromOutputConfig :: "(string \<Rightarrow> string) \<Rightarrow> jmap \<Rightarrow> thinking_cfg option" where
  "fromOutputConfig lw body = (case asObj (mget body ''output_config'') of
     None \<Rightarrow> None | Some oc \<Rightarrow> lowerEffort lw (mget oc ''effort''))"

definition fromEffort :: "(string \<Rightarrow> string) \<Rightarrow> jmap \<Rightarrow> thinking_cfg option" where
  "fromEffort lw body =
     (if mget body ''reasoning_effort'' \<noteq> JNull then lowerEffort lw (mget body ''reasoning_effort'')
      else case asObj (mget body ''reasoning'') of None \<Rightarrow> None | Some r \<Rightarrow> lowerEffort lw (mget r ''effort''))"

definition fromClaude :: "num_env \<Rightarrow> jmap \<Rightarrow> thinking_cfg option" where
  "fromClaude N body = (case asObj (mget body ''thinking'') of
     None \<Rightarrow> None
   | Some t \<Rightarrow>
       let ty = asStr (mget t ''type'') in
       if ty = ''disabled'' then Some (cfg_mode ''none'')
       else if ty = ''adaptive'' \<or> ty = ''enabled'' then
         (case NumOK N (mget t ''budget_tokens'') of (budget, ok) \<Rightarrow>
            if ok \<and> f_lt (Fin 0) budget then Some (cfg_budget budget) else Some (cfg_mode ''auto''))
       else None)"

definition fromGemini :: "num_env \<Rightarrow> (string \<Rightarrow> string) \<Rightarrow> jmap \<Rightarrow> thinking_cfg option" where
  "fromGemini N lw body =
     (let t1 = mget body ''thinkingConfig'';
          t2 = (if truthy t1 then t1 else Get (mget body ''generationConfig'') ''thinkingConfig'');
          t3 = (if truthy t2 then t2 else Get (Get (mget body ''request'') ''generationConfig'') ''thinkingConfig'')
      in case t3 of
        JObj tc \<Rightarrow> (case mget tc ''thinkingLevel'' of
          JStr s \<Rightarrow> Some (cfg_level (lw s))
        | _ \<Rightarrow> (case NumOK N (mget tc ''thinkingBudget'') of (tb, ok) \<Rightarrow>
            if \<not> ok then None
            else if tb = Fin 0 then Some (cfg_mode ''none'')
            else if f_lt tb (Fin 0) then Some (cfg_mode ''auto'')
            else Some (cfg_budget tb)))
      | _ \<Rightarrow> None)"

definition fromQwen :: "num_env \<Rightarrow> jmap \<Rightarrow> thinking_cfg option" where
  "fromQwen N body = (case mget body ''enable_thinking'' of
     JBool b \<Rightarrow>
       if \<not> b then Some (cfg_mode ''none'')
       else (case NumOK N (mget body ''thinking_budget'') of (tb, ok) \<Rightarrow>
         if ok \<and> f_lt (Fin 0) tb then Some (cfg_budget tb) else Some (cfg_mode ''auto''))
   | _ \<Rightarrow> None)"

fun firstSome :: "'a option list \<Rightarrow> 'a option" where
  "firstSome [] = None"
| "firstSome (None # xs) = firstSome xs"
| "firstSome (Some x # xs) = Some x"

definition ExtractThinking :: "num_env \<Rightarrow> (string \<Rightarrow> string) \<Rightarrow> jmap \<Rightarrow> thinking_cfg option" where
  "ExtractThinking N lw body =
     firstSome [fromOutputConfig lw body, fromEffort lw body, fromClaude N body, fromGemini N lw body, fromQwen N body]"

definition normalizeOpenAILevel :: "string \<Rightarrow> string list \<Rightarrow> string" where
  "normalizeOpenAILevel level supported =
     (if level \<noteq> ''max'' \<and> level \<noteq> ''ultra'' then level
      else if level \<in> set supported then level
      else if level = ''ultra'' \<and> ''max'' \<in> set supported then ''max''
      else ''xhigh'')"

definition toLevel :: "thinking_cfg \<Rightarrow> string" where
  "toLevel cfg =
     (if tc_mode cfg = ''level'' then tc_level cfg
      else if tc_mode cfg = ''budget'' then (let l = BudgetToLevel (tc_budget cfg) in if l \<noteq> [] then l else ''medium'')
      else if tc_mode cfg = ''auto'' then ''auto''
      else [])"

definition IsReasoningModel :: "string \<Rightarrow> bool" where
  "IsReasoningModel model = IsResponsesModel model"

definition MuseSparkLevels :: "string list" where
  "MuseSparkLevels = [''none'', ''minimal'', ''low'', ''medium'', ''high'', ''xhigh'']"

text \<open>The intent that counts: the model's suffix, else the snapshot, else what the body says.\<close>

definition effectiveIntent :: "num_env \<Rightarrow> (string \<Rightarrow> string) \<Rightarrow> string \<Rightarrow> thinking_cfg option \<Rightarrow> jmap \<Rightarrow> thinking_cfg option" where
  "effectiveIntent N lw model intent body =
     (case snd (ParseSuffix N lw model) of
        Some override \<Rightarrow> Some override
      | None \<Rightarrow> (case intent of Some i \<Rightarrow> Some i | None \<Rightarrow> ExtractThinking N lw body))"

definition ApplyThinking :: "num_env \<Rightarrow> (string \<Rightarrow> string) \<Rightarrow> jmap \<Rightarrow> string \<Rightarrow> thinking_cfg option \<Rightarrow> jmap" where
  "ApplyThinking N lw body model intent =
     (let cfg = effectiveIntent N lw model intent body in
      if \<not> IsReasoningModel (fst (ParseSuffix N lw model)) then StripAll body
      else case cfg of
        None \<Rightarrow> body
      | Some c \<Rightarrow>
          let b = StripAll body in
          if tc_mode c = ''none'' then gm_set ''reasoning_effort'' (JStr ''none'') b
          else let level = toLevel c in
            if level \<noteq> [] then gm_set ''reasoning_effort'' (JStr (normalizeOpenAILevel level MuseSparkLevels)) b else b)"

definition NormalizeOpencodeReasoning :: "(string \<Rightarrow> string) \<Rightarrow> jmap \<Rightarrow> jmap" where
  "NormalizeOpencodeReasoning lw body =
     (let current = asObj (mget body ''reasoning'');
          requested = (case mget body ''reasoning_effort'' of
             JStr s \<Rightarrow> Some s
           | _ \<Rightarrow> (case current of
               None \<Rightarrow> None
             | Some r \<Rightarrow> (case mget r ''effort'' of JStr s \<Rightarrow> Some s | _ \<Rightarrow> None)))
      in case requested of
        None \<Rightarrow> body
      | Some req \<Rightarrow>
          let e0 = lw (trimSpace req);
              effort = (if (e0 = ''max'' \<or> e0 = ''ultra'') \<and> e0 \<notin> set MuseSparkLevels then
                 (if e0 = ''ultra'' \<and> ''max'' \<in> set MuseSparkLevels then ''max''
                  else if ''xhigh'' \<in> set MuseSparkLevels then ''xhigh'' else e0) else e0);
              r1 = gm_set ''effort'' (JStr effort) (case current of None \<Rightarrow> [] | Some r \<Rightarrow> r);
              r2 = (if \<not> truthy (mget r1 ''summary'') then gm_set ''summary'' (JStr ''auto'') r1 else r1)
          in gm_del ''reasoning_effort'' (gm_set ''reasoning'' (JObj r2) body))"

section \<open>No knob is left behind\<close>

definition knobFree :: "jmap \<Rightarrow> bool" where
  "knobFree b \<longleftrightarrow> list_all (\<lambda>k. \<not> has b k) plainKnobs \<and> Get (mget b ''generationConfig'') ''thinkingConfig'' = JNull \<and>
     Get (Get (mget b ''request'') ''generationConfig'') ''thinkingConfig'' = JNull"

lemma fold_del_has: "has (fold gm_del ks m) k \<longleftrightarrow> k \<notin> set ks \<and> has m k"
  by (simp add: has_def fold_gm_del)

text \<open>Removing the nested setting of one object.\<close>

definition dropNested :: "string \<Rightarrow> jmap \<Rightarrow> jmap" where
  "dropNested k b = (case asObj (mget b k) of None \<Rightarrow> b | Some gc \<Rightarrow> gm_set k (JObj (gm_del ''thinkingConfig'' gc)) b)"

lemma dropNested_reads:
  "k' \<noteq> k \<Longrightarrow> mget (dropNested k b) k' = mget b k'"
  "has (dropNested k b) k' \<longleftrightarrow> has b k'"
  "Get (mget (dropNested k b) k) ''thinkingConfig'' = JNull"
  by (auto simp: dropNested_def mget_gm_set has_gm_set asObj_def has_def mget_def Get_def gm_get_set gm_get_del split: json.splits option.splits)

lemma StripAll_eq: "StripAll body =
    (let b2 = dropNested ''generationConfig'' (fold gm_del plainKnobs body) in
     case asObj (mget b2 ''request'') of
       None \<Rightarrow> b2
     | Some req \<Rightarrow> if asObj (mget req ''generationConfig'') = None then b2
         else gm_set ''request'' (JObj (dropNested ''generationConfig'' req)) b2)"
  by (simp add: StripAll_def dropNested_def Let_def split: option.splits)

lemma StripAll_knobFree: "knobFree (StripAll body)"
proof -
  define b2 where "b2 = dropNested ''generationConfig'' (fold gm_del plainKnobs body)"
  have h: "list_all (\<lambda>k. \<not> has b2 k) plainKnobs" by (simp add: b2_def list_all_iff dropNested_reads fold_del_has)
  have g: "Get (mget b2 ''generationConfig'') ''thinkingConfig'' = JNull" unfolding b2_def by (rule dropNested_reads)
  show ?thesis
  proof (cases "asObj (mget b2 ''request'')")
    case None
    then have "StripAll body = b2" "\<And>k. Get (mget b2 ''request'') k = JNull"
      by (auto simp: StripAll_eq b2_def [symmetric] asObj_def Get_def split: json.splits)
    with h g show ?thesis by (simp add: knobFree_def Get_def [of JNull])
  next
    case (Some req)
    then have r: "mget b2 ''request'' = JObj req" by (auto simp: asObj_def split: json.splits)
    show ?thesis
    proof (cases "asObj (mget req ''generationConfig'') = None")
      case True
      with Some have "StripAll body = b2" by (simp add: StripAll_eq b2_def [symmetric])
      moreover have "Get (mget req ''generationConfig'') ''thinkingConfig'' = JNull"
        using True by (auto simp: asObj_def Get_def split: json.splits)
      ultimately show ?thesis using h g r by (simp add: knobFree_def Get_def [of "JObj req"])
    next
      case False
      with Some have "StripAll body = gm_set ''request'' (JObj (dropNested ''generationConfig'' req)) b2"
        by (auto simp: StripAll_eq b2_def [symmetric])
      moreover have "list_all (\<lambda>k. \<not> has (gm_set ''request'' (JObj (dropNested ''generationConfig'' req)) b2) k) plainKnobs"
        using h by (simp add: plainKnobs_def has_gm_set)
      ultimately show ?thesis using g dropNested_reads(3) [of "''generationConfig''" req]
        by (simp add: knobFree_def mget_gm_set Get_def [of "JObj _"])
    qed
  qed
qed

lemma normalized_level: "normalizeOpenAILevel l MuseSparkLevels \<notin> {''max'', ''ultra''}"
  by (simp add: normalizeOpenAILevel_def MuseSparkLevels_def)

lemma knobFree_effort:
  assumes "knobFree b"
  shows "knobFree (gm_del ''reasoning_effort'' (gm_set ''reasoning_effort'' v b))"
  using assms by (simp add: knobFree_def list_all_iff has_gm_set has_gm_del mget_gm_set mget_gm_del)

section \<open>Properties\<close>

text \<open>
  Thinking is spelled one way or not at all. For a model that does not reason, every spelling of the
  setting is removed from the body; for one that does and an intent from its suffix, the snapshot or the
  body, every spelling is removed but \<^verbatim>\<open>reasoning_effort\<close>, whose level is never one of the two (max, ultra)
  the upstream lacks.
\<close>

theorem thinking_applied:
  "(\<not> IsReasoningModel (fst (ParseSuffix N lw model)) \<longrightarrow> knobFree (ApplyThinking N lw body model intent)) \<and>
   (\<forall>c. IsReasoningModel (fst (ParseSuffix N lw model)) \<and> effectiveIntent N lw model intent body = Some c \<longrightarrow>
      knobFree (gm_del ''reasoning_effort'' (ApplyThinking N lw body model intent)) \<and>
      (has (ApplyThinking N lw body model intent) ''reasoning_effort'' \<longrightarrow>
        (\<exists>l. mget (ApplyThinking N lw body model intent) ''reasoning_effort'' = JStr l \<and> l \<noteq> ''max'' \<and> l \<noteq> ''ultra'')))"
proof (intro conjI allI impI)
  assume "\<not> IsReasoningModel (fst (ParseSuffix N lw model))"
  then show "knobFree (ApplyThinking N lw body model intent)" by (simp add: ApplyThinking_def StripAll_knobFree)
next
  fix c assume c: "IsReasoningModel (fst (ParseSuffix N lw model)) \<and> effectiveIntent N lw model intent body = Some c"
  have no: "\<not> has (StripAll body) ''reasoning_effort''"
    using StripAll_knobFree [of body] by (simp add: knobFree_def plainKnobs_def)
  have same: "knobFree (gm_del ''reasoning_effort'' (StripAll body))"
    using StripAll_knobFree [of body] by (simp add: knobFree_def list_all_iff has_gm_del mget_gm_del)
  show "knobFree (gm_del ''reasoning_effort'' (ApplyThinking N lw body model intent))"
    using c same knobFree_effort [OF StripAll_knobFree] by (simp add: ApplyThinking_def Let_def)
  assume "has (ApplyThinking N lw body model intent) ''reasoning_effort''"
  then show "\<exists>l. mget (ApplyThinking N lw body model intent) ''reasoning_effort'' = JStr l \<and> l \<noteq> ''max'' \<and> l \<noteq> ''ultra''"
    using c no normalized_level [of "toLevel c"] by (auto simp: ApplyThinking_def Let_def mget_gm_set split: if_splits)
qed

theorem thinking_applied_witness:
  "knobFree (ApplyThinking exact_env (\<lambda>s. s) [(''reasoning_effort'', JStr ''high'')] ''gpt'' None) \<and>
   knobFree (gm_del ''reasoning_effort'' (ApplyThinking exact_env (\<lambda>s. s) [(''reasoning_effort'', JStr ''max'')] ''muse-spark-1'' None))"
proof
  have "\<not> IsReasoningModel (fst (ParseSuffix exact_env (\<lambda>s. s) ''gpt''))" by code_simp
  then show "knobFree (ApplyThinking exact_env (\<lambda>s. s) [(''reasoning_effort'', JStr ''high'')] ''gpt'' None)"
    using thinking_applied [of exact_env "\<lambda>s. s" "''gpt''" "[(''reasoning_effort'', JStr ''high'')]" None] by blast
  have "IsReasoningModel (fst (ParseSuffix exact_env (\<lambda>s. s) ''muse-spark-1''))" by code_simp
  moreover have "effectiveIntent exact_env (\<lambda>s. s) ''muse-spark-1'' None [(''reasoning_effort'', JStr ''max'')] = Some (cfg_level ''max'')"
    by code_simp
  ultimately show "knobFree (gm_del ''reasoning_effort'' (ApplyThinking exact_env (\<lambda>s. s) [(''reasoning_effort'', JStr ''max'')] ''muse-spark-1'' None))"
    using thinking_applied [of exact_env "\<lambda>s. s" "''muse-spark-1''" "[(''reasoning_effort'', JStr ''max'')]" None] by blast
qed

end
