(* ===== verification/SessionId.thy ===== *)
theory SessionId
  imports Regex "HOL-Library.Word"
begin

unbundle bit_operations_syntax

text \<open>
  Session and request identifiers (\<^verbatim>\<open>internal/identity/session.go\<close>). Bytes are 8-bit words and the
  time field a 64-bit word, with the wrap-around of \<^verbatim>\<open>uint64\<close>. SHA-256 is a parameter \<open>sha\<close>
  with 32-byte digests; the random bytes of a call are an argument, \<open>None\<close> when \<^verbatim>\<open>rand.Read\<close> fails.
\<close>

type_synonym byte = "8 word"

definition SessionRE :: regex where
  "SessionRE = rx_lit ''ses_'' @ [PRep 12 is_hex, PRep 14 is_alnum, PEnd]"

definition RequestRE :: regex where
  "RequestRE = rx_lit ''msg_'' @ [PRep 12 is_hex, PRep 14 is_alnum, PEnd]"

definition MatchString :: "regex \<Rightarrow> string \<Rightarrow> bool" where
  "MatchString re s \<longleftrightarrow> rx_match re s \<noteq> None"

definition base62Chars :: string where
  "base62Chars = ''0123456789ABCDEFGHIJKLMNOPQRSTUVWXYZabcdefghijklmnopqrstuvwxyz''"

record id_clock =
  lastMilli :: int
  counter :: int

definition unstableRandom :: "byte list option \<Rightarrow> string" where
  "unstableRandom rnd =
     (let b = (case rnd of Some bs \<Rightarrow> bs | None \<Rightarrow> map of_nat [0..<14])
      in map (\<lambda>c. base62Chars ! (unat c mod 62)) b)"

definition timeBytes :: "64 word \<Rightarrow> byte list" where
  "timeBytes v = map (\<lambda>i. ucast (drop_bit (40 - 8 * i) v AND 0xff)) [0..<6]"

definition hexDigit :: "nat \<Rightarrow> char" where
  "hexDigit n = ''0123456789abcdef'' ! n"

definition hexEncode :: "byte list \<Rightarrow> string" where
  "hexEncode bs = concat (map (\<lambda>b. [hexDigit (unat b div 16), hexDigit (unat b mod 16)]) bs)"

definition hexTime :: "64 word \<Rightarrow> string" where
  "hexTime v = hexEncode (timeBytes v)"

definition GenerateSessionID :: "int \<Rightarrow> byte list option \<Rightarrow> id_clock \<Rightarrow> string \<times> id_clock" where
  "GenerateSessionID milli rnd k =
     (let k1 = (if milli \<noteq> lastMilli k then \<lparr>lastMilli = milli, counter = 0\<rparr> else k);
          k2 = k1\<lparr>counter := wrap64 (counter k1 + 1)\<rparr>;
          v = word_of_int milli * 0x1000 + word_of_int (counter k2)
      in (''ses_'' @ hexTime (NOT v) @ unstableRandom rnd, k2))"

definition GenerateRequestID :: "int \<Rightarrow> byte list option \<Rightarrow> string" where
  "GenerateRequestID milli rnd =
     (let v = word_of_int milli * 0x1000 + 1 in ''msg_'' @ hexTime v @ unstableRandom rnd)"

fun hexNat :: "nat \<Rightarrow> string" where
  "hexNat n = (if n < 16 then [hexDigit n] else hexNat (n div 16) @ [hexDigit (n mod 16)])"

declare hexNat.simps [simp del]

text \<open>The verb \<^verbatim>\<open>%012x\<close>.\<close>

definition fmt012x :: "64 word \<Rightarrow> string" where
  "fmt012x x = (let ds = hexNat (unat x) in replicate (12 - length ds) (CHR ''0'') @ ds)"

definition bigEndian :: "byte list \<Rightarrow> 64 word" where
  "bigEndian bs = fold (\<lambda>b x. x * 256 + ucast b) bs 0"

definition TranslateSessionID :: "(string \<Rightarrow> byte list) \<Rightarrow> string \<Rightarrow> string \<Rightarrow> string" where
  "TranslateSessionID sha sessionID clientTool =
     (let trimmed = trimSpace sessionID in
      if MatchString SessionRE trimmed then trimmed
      else let tool = (if clientTool = [] then ''generic'' else clientTool);
               hash = sha (''opencode'' @ [CHR 0x00] @ tool @ [CHR 0x00] @ sessionID);
               x = bigEndian ([0, 0] @ take 6 hash);
               y = (x AND NOT 0xfff) OR (NOT 1 AND 0xfff);
               random = map (\<lambda>b. base62Chars ! (unat b mod 62)) (take 14 (drop 6 hash))
           in ''ses_'' @ fmt012x y @ random)"

definition IsValidSession :: "string \<Rightarrow> bool" where
  "IsValidSession s = MatchString SessionRE (trimSpace s)"

section \<open>Shapes\<close>

text \<open>A digest has 32 bytes; \<^verbatim>\<open>rand.Read\<close> fills the 14 it was asked for.\<close>

definition digest32 :: "(string \<Rightarrow> byte list) \<Rightarrow> bool" where
  "digest32 sha \<longleftrightarrow> (\<forall>s. length (sha s) = 32)"

definition rnd14 :: "byte list option \<Rightarrow> bool" where
  "rnd14 rnd \<longleftrightarrow> (case rnd of None \<Rightarrow> True | Some bs \<Rightarrow> length bs = 14)"

lemma id_shape: "rx_run (rx_lit w @ [PRep 12 is_hex, PRep 14 is_alnum, PEnd]) s st caps \<noteq> None \<longleftrightarrow>
    (\<exists>t r. s = w @ t @ r \<and> length t = 12 \<and> list_all is_hex t \<and> length r = 14 \<and> list_all is_alnum r)"
  (is "?l \<longleftrightarrow> ?r")
proof
  assume ?l
  then have p: "hasPrefix s w" and q: "rx_run [PRep 12 is_hex, PRep 14 is_alnum, PEnd] (drop (length w) s) st caps \<noteq> None"
    by (auto simp: rx_run_lit split: if_splits)
  obtain u where u: "s = w @ u" using p by (auto simp: hasPrefix_iff)
  from q have "length u = 26 \<and> list_all is_hex (take 12 u) \<and> list_all is_alnum (drop 12 u)"
    unfolding rx_run_rep2 by (simp add: u)
  then show ?r by (intro exI [of _ "take 12 u"] exI [of _ "drop 12 u"]) (simp add: u)
next
  assume ?r
  then obtain t r where s: "s = w @ t @ r" "length t = 12" "list_all is_hex t" "length r = 14" "list_all is_alnum r" by blast
  then have "rx_run [PRep 12 is_hex, PRep 14 is_alnum, PEnd] (t @ r) st caps \<noteq> None"
    unfolding rx_run_rep2 by simp
  then show ?l by (simp add: rx_run_lit s(1) del: rx_run.simps)
qed

lemma SessionRE_iff: "MatchString SessionRE s \<longleftrightarrow>
    (\<exists>t r. s = ''ses_'' @ t @ r \<and> length t = 12 \<and> list_all is_hex t \<and> length r = 14 \<and> list_all is_alnum r)"
  unfolding MatchString_def SessionRE_def rx_match_def by (rule id_shape)

lemma RequestRE_iff: "MatchString RequestRE s \<longleftrightarrow>
    (\<exists>t r. s = ''msg_'' @ t @ r \<and> length t = 12 \<and> list_all is_hex t \<and> length r = 14 \<and> list_all is_alnum r)"
  unfolding MatchString_def RequestRE_def rx_match_def by (rule id_shape)

lemma base62_alnum: "n < 62 \<Longrightarrow> is_alnum (base62Chars ! n)"
proof -
  assume "n < 62"
  then have "base62Chars ! n \<in> set base62Chars" by (intro nth_mem) (simp add: base62Chars_def)
  moreover have "list_all is_alnum base62Chars" by code_simp
  ultimately show ?thesis by (simp add: list_all_iff)
qed

lemma hexDigit_hex: "n < 16 \<Longrightarrow> is_hex (hexDigit n)"
proof -
  assume "n < 16"
  then have "hexDigit n \<in> set ''0123456789abcdef''" unfolding hexDigit_def by (intro nth_mem) simp
  moreover have "list_all is_hex ''0123456789abcdef''" by code_simp
  ultimately show ?thesis by (auto simp: list_all_iff)
qed

lemma base62_map: "list_all is_alnum (map (\<lambda>b. base62Chars ! (unat b mod 62)) (bs :: byte list))"
  by (simp add: list_all_iff base62_alnum)

lemma unstableRandom_shape: "rnd14 rnd \<Longrightarrow> length (unstableRandom rnd) = 14 \<and> list_all is_alnum (unstableRandom rnd)"
  by (auto simp: unstableRandom_def rnd14_def Let_def base62_map split: option.splits)

lemma unat_byte: "unat (b :: byte) < 256"
  using unsigned_less [of b, where ?'a = nat] by simp

lemma hexEncode_shape: "length (hexEncode bs) = 2 * length bs \<and> list_all is_hex (hexEncode bs)"
  using unat_byte by (induction bs) (auto simp: hexEncode_def hexDigit_hex less_mult_imp_div_less)

lemma hexTime_shape: "length (hexTime v) = 12 \<and> list_all is_hex (hexTime v)"
  using hexEncode_shape [of "timeBytes v"] by (simp add: hexTime_def timeBytes_def)

section \<open>Decoding the time field\<close>

text \<open>What the upstream reads back from the 12 hexadecimal digits.\<close>

definition hexDigitVal :: "char \<Rightarrow> nat" where
  "hexDigitVal c = (if is_digit c then of_char c - 48 else of_char c - 87)"

definition hexVal :: "string \<Rightarrow> nat" where
  "hexVal s = fold (\<lambda>c x. 16 * x + hexDigitVal c) s 0"

definition sessionTime :: "string \<Rightarrow> nat" where
  "sessionTime s = hexVal (take 12 (drop 4 s))"

lemma hexDigitVal_hexDigit: "n < 16 \<Longrightarrow> hexDigitVal (hexDigit n) = n"
proof -
  assume "n < 16"
  then have "n \<in> set [0..<16]" by simp
  moreover have "list_all (\<lambda>n. hexDigitVal (hexDigit n) = n) [0..<16]" by code_simp
  ultimately show ?thesis unfolding list_all_iff by blast
qed

lemma hexVal_snoc: "hexVal (s @ [c]) = 16 * hexVal s + hexDigitVal c"
  by (simp add: hexVal_def)

lemma hexVal_hexNat: "hexVal (hexNat n) = n"
proof (induction n rule: hexNat.induct)
  case (1 n)
  show ?case
  proof (cases "n < 16")
    case True
    then show ?thesis by (subst hexNat.simps) (simp add: hexVal_def hexDigitVal_hexDigit)
  next
    case False
    with 1 show ?thesis by (subst hexNat.simps) (simp add: hexVal_snoc hexDigitVal_hexDigit)
  qed
qed

lemma hexVal_zeros: "hexVal (replicate k (CHR ''0'') @ s) = hexVal s"
proof -
  have "hexDigitVal (CHR ''0'') = 0" by code_simp
  then have "fold (\<lambda>c x. 16 * x + hexDigitVal c) (replicate k (CHR ''0'')) 0 = 0" by (induction k) auto
  then show ?thesis by (simp add: hexVal_def)
qed

lemma hexNat_hex: "list_all is_hex (hexNat n)"
proof (induction n rule: hexNat.induct)
  case (1 n)
  then show ?case by (subst hexNat.simps) (simp add: hexDigit_hex)
qed

lemma length_hexNat: "n < 16 ^ k \<Longrightarrow> 0 < k \<Longrightarrow> length (hexNat n) \<le> k"
proof (induction n arbitrary: k rule: hexNat.induct)
  case (1 n)
  show ?case
  proof (cases "n < 16")
    case True
    with 1 show ?thesis by (subst hexNat.simps) simp
  next
    case False
    with 1(2) obtain j where k: "k = Suc j" "0 < j" by (cases k; cases "k - 1") auto
    with 1(2) have "n div 16 < 16 ^ j" by (simp add: less_mult_imp_div_less mult.commute)
    with 1(1) [OF False this k(2)] False k show ?thesis by (subst hexNat.simps) simp
  qed
qed

lemma fmt012x_shape:
  assumes "unat x < 2 ^ 48"
  shows "length (fmt012x x) = 12 \<and> list_all is_hex (fmt012x x) \<and> hexVal (fmt012x x) = unat x"
proof -
  have "is_hex (CHR ''0'')" by code_simp
  moreover have "length (hexNat (unat x)) \<le> 12" using assms by (intro length_hexNat) simp_all
  ultimately show ?thesis using hexNat_hex [of "unat x"]
    by (auto simp: fmt012x_def Let_def hexVal_zeros hexVal_hexNat list_all_iff)
qed

lemma hexVal_hexEncode: "hexVal (hexEncode bs) = fold (\<lambda>b x. 256 * x + unat b) bs 0"
proof -
  have "fold (\<lambda>c x. 16 * x + hexDigitVal c) (hexEncode bs) a = fold (\<lambda>b x. 256 * x + unat b) bs a" for a
    using unat_byte
    by (induction bs arbitrary: a) (auto simp: hexEncode_def hexDigitVal_hexDigit less_mult_imp_div_less algebra_simps)
  then show ?thesis by (simp add: hexVal_def)
qed

lemma fold_base256: "fold (\<lambda>b x. 256 * x + b) (map (\<lambda>i. n div 256 ^ (k - 1 - i) mod 256) [0..<k]) 0 = (n :: nat) mod 256 ^ k"
proof (induction k arbitrary: n)
  case (Suc k)
  have eq: "map (\<lambda>i. n div 256 ^ (Suc k - 1 - i) mod 256) [0..<k] = map (\<lambda>i. (n div 256) div 256 ^ (k - 1 - i) mod 256) [0..<k]"
  proof (rule map_cong)
    fix i assume "i \<in> set [0..<k]"
    then have "Suc k - 1 - i = Suc (k - 1 - i)" by simp
    then show "n div 256 ^ (Suc k - 1 - i) mod 256 = (n div 256) div 256 ^ (k - 1 - i) mod 256"
      by (metis div_mult2_eq power_Suc)
  qed simp
  have "fold (\<lambda>b x. 256 * x + b) (map (\<lambda>i. n div 256 ^ (Suc k - 1 - i) mod 256) [0..<Suc k]) 0 =
      256 * (n div 256 mod 256 ^ k) + n mod 256"
    unfolding upt_Suc_append [OF le0] map_append eq fold_append comp_apply Suc by simp
  also have "\<dots> = n mod 256 ^ Suc k" by (simp add: mod_mult2_eq)
  finally show ?case .
qed simp

lemma unat_timeByte: "unat (ucast (drop_bit k v AND 0xff) :: byte) = unat (v :: 64 word) div 2 ^ k mod 256"
proof -
  have "drop_bit k v AND 0xff = take_bit 8 (drop_bit k v)"
    by (simp add: take_bit_eq_mask mask_numeral mask_Suc_exp)
  moreover have "take_bit 64 (unat v) = unat v" using unsigned_less [of v, where ?'a = nat] by (simp add: take_bit_nat_eq_self)
  ultimately have "unat (ucast (drop_bit k v AND 0xff) :: byte) = take_bit 8 (drop_bit k (unat v))"
    by (simp add: unsigned_ucast_eq unsigned_take_bit_eq unsigned_drop_bit_eq)
  then show ?thesis by (simp add: take_bit_eq_mod drop_bit_eq_div)
qed

lemma hexVal_hexTime: "hexVal (hexTime v) = unat v mod 2 ^ 48"
proof -
  have "(256 :: nat) ^ (6 - 1 - i) = 2 ^ (40 - 8 * i)" if "i < 6" for i
  proof -
    have "(256 :: nat) ^ (5 - i) = (2 ^ 8) ^ (5 - i)" by simp
    also have "\<dots> = 2 ^ (8 * (5 - i))" by (rule power_mult [symmetric])
    finally show ?thesis by (simp add: diff_mult_distrib2)
  qed
  then have "map unat (timeBytes v) = map (\<lambda>i. unat v div 256 ^ (6 - 1 - i) mod 256) [0..<6]"
    by (simp add: timeBytes_def unat_timeByte del: upt.simps)
  then have "fold (\<lambda>b x. 256 * x + b) (map unat (timeBytes v)) 0 = unat v mod 256 ^ 6"
    using fold_base256 [of "unat v" 6] by simp
  then show ?thesis by (simp add: hexTime_def hexVal_hexEncode fold_map comp_def)
qed

section \<open>Translated identifiers\<close>

lemma bigEndian48:
  assumes "length bs = 6"
  shows "unat (bigEndian ([0, 0] @ bs)) = fold (\<lambda>b x. 256 * x + unat b) bs 0 \<and> fold (\<lambda>b x. 256 * x + unat b) bs 0 < 2 ^ 48"
proof -
  have bound: "fold (\<lambda>b x. 256 * x + unat b) cs 0 < 256 ^ length cs" for cs :: "byte list"
  proof (induction cs rule: rev_induct)
    case (snoc c cs)
    then have "256 * fold (\<lambda>b x. 256 * x + unat b) cs 0 + unat c < 256 * 256 ^ length cs"
      using unat_byte [of c] by linarith
    then show ?case by simp
  qed simp
  have "uint (fold (\<lambda>b x. x * 256 + ucast b) cs 0 :: 64 word) = int (fold (\<lambda>b x. 256 * x + unat b) cs 0)"
    if "length cs \<le> 8" for cs :: "byte list"
    using that
  proof (induction cs rule: rev_induct)
    case (snoc c cs)
    have "(256 :: nat) ^ length (cs @ [c]) \<le> 256 ^ 8" using snoc(2) by (intro power_increasing) simp_all
    with bound [of "cs @ [c]"] have "256 * fold (\<lambda>b x. 256 * x + unat b) cs 0 + unat c < 2 ^ 64" by simp
    then have "int (256 * fold (\<lambda>b x. 256 * x + unat b) cs 0 + unat c) < int (2 ^ 64)" by (simp only: of_nat_less_iff)
    then show ?case using snoc(1) snoc(2) by (simp add: uint_word_ariths unsigned_ucast_eq take_bit_eq_mod mult.commute mod_simps)
  qed simp
  from this [of "[0, 0] @ bs"] assms have "int (unat (bigEndian ([0, 0] @ bs))) = int (fold (\<lambda>b x. 256 * x + unat b) bs 0)"
    by (simp add: bigEndian_def)
  then have "unat (bigEndian ([0, 0] @ bs)) = fold (\<lambda>b x. 256 * x + unat b) bs 0" by (simp only: of_nat_eq_iff)
  with bound [of bs] assms show ?thesis by simp
qed

lemma low12:
  fixes x :: "64 word"
  shows "unat ((x AND NOT 0xfff) OR (NOT 1 AND 0xfff)) = unat x div 4096 * 4096 + 4094"
proof -
  have c: "(NOT 1 AND 0xfff :: 64 word) = 4094" by simp
  have m: "(0xfff :: 64 word) = mask 12" by (simp add: mask_eq_exp_minus_1)
  have a: "x AND NOT (mask 12) = push_bit 12 (drop_bit 12 x)"
    by (rule bit_word_eqI) (auto simp: bit_simps)
  have u: "unat (x AND NOT 0xfff) = unat x div 4096 * 4096"
  proof -
    have lt: "unat x < 2 ^ 64" using unsigned_less [of x, where ?'a = nat] by simp
    then have "drop_bit 12 (unat x) * 2 ^ 12 < 2 ^ 64" by (simp add: drop_bit_eq_div)
    then have "unat (push_bit 12 (drop_bit 12 x)) = push_bit 12 (drop_bit 12 (unat x))"
      unfolding unsigned_push_bit_eq unsigned_drop_bit_eq
      using lt by (simp add: take_bit_nat_eq_self push_bit_eq_mult del: drop_bit_eq_div)
    then show ?thesis unfolding m a by (simp add: push_bit_eq_mult drop_bit_eq_div)
  qed
  have "unat ((x AND NOT 0xfff) OR (NOT 1 AND 0xfff)) = unat (x AND NOT 0xfff) OR unat (4094 :: 64 word)"
    by (simp only: c unsigned_or_eq)
  also have "\<dots> = push_bit 12 (unat x div 4096) OR 4094" unfolding u by (simp add: push_bit_eq_mult)
  also have "\<dots> = push_bit 12 (unat x div 4096) + 4094"
  proof (rule disjunctive_add_eq_or [symmetric], rule bit_eqI)
    fix n
    have "bit (4094 :: nat) n \<Longrightarrow> n < 12" using bit_take_bit_iff [of 12 "4094 :: nat" n] by (simp add: take_bit_eq_mod)
    then show "bit (push_bit 12 (unat x div 4096) AND 4094) n = bit 0 n" by (auto simp: bit_simps)
  qed
  finally show ?thesis by (simp add: push_bit_eq_mult)
qed

section \<open>Trimming leaves identifiers alone\<close>

definition printable :: "char \<Rightarrow> bool" where
  "printable c \<longleftrightarrow> 32 < (of_char c :: nat) \<and> (of_char c :: nat) < 128"

lemma stripEnc_printable:
  assumes "list_all (\<lambda>e. e \<noteq> [] \<and> \<not> printable (hd e)) encs" and "s \<noteq> []" and "printable (hd s)"
  shows "stripEnc encs s = None"
proof -
  have "\<not> hasPrefix s e" if "e \<in> set encs" for e
  proof
    assume "hasPrefix s e"
    moreover have "e \<noteq> []" "\<not> printable (hd e)" using that assms(1) by (auto simp: list_all_iff)
    ultimately have "hd s = hd e" by (auto simp: hasPrefix_iff)
    with assms(3) \<open>\<not> printable (hd e)\<close> show False by simp
  qed
  then have "filter (\<lambda>p. p \<noteq> [] \<and> hasPrefix s p) encs = []" by (simp add: filter_empty_conv)
  then show ?thesis by (simp add: stripEnc_def)
qed

lemma trimSpace_id:
  assumes "s \<noteq> []" and "printable (hd s)" and "printable (last s)"
  shows "trimSpace s = s"
proof -
  have "list_all (\<lambda>e. e \<noteq> [] \<and> \<not> printable (hd e)) space_encodings" by code_simp
  from stripEnc_printable [OF this assms(1,2)] have "trimEncs space_encodings s = s" by (simp add: trimEncs.simps)
  moreover have "list_all (\<lambda>e. e \<noteq> [] \<and> \<not> printable (hd e)) (map rev space_encodings)" by code_simp
  from stripEnc_printable [OF this, of "rev s"] assms have "trimEncs (map rev space_encodings) (rev s) = rev s"
    by (simp add: trimEncs.simps hd_rev)
  ultimately show ?thesis by (simp add: trimSpace_def)
qed

lemma is_alnum_printable: "is_alnum c \<Longrightarrow> printable c"
  by (auto simp: is_alnum_def is_digit_def is_lower_def is_upper_def printable_def)

lemma session_trim: "MatchString SessionRE s \<Longrightarrow> trimSpace s = s"
proof -
  assume "MatchString SessionRE s"
  then obtain t r where s: "s = ''ses_'' @ t @ r" "length r = 14" "list_all is_alnum r" by (auto simp: SessionRE_iff)
  then have "r \<noteq> []" by auto
  then have "printable (last r)" using s by (intro is_alnum_printable) (simp add: list_all_iff)
  moreover have "printable (CHR ''s'')" by code_simp
  ultimately show ?thesis using \<open>r \<noteq> []\<close> by (intro trimSpace_id) (simp_all add: s)
qed

lemma TranslateSessionID_native: "MatchString SessionRE s \<Longrightarrow> TranslateSessionID sha s tool = s"
  by (simp add: TranslateSessionID_def session_trim)

text \<open>The digest behind an identifier that is not native.\<close>

definition keyDigest :: "(string \<Rightarrow> byte list) \<Rightarrow> string \<Rightarrow> string \<Rightarrow> byte list" where
  "keyDigest sha s tool = sha (''opencode'' @ [CHR 0x00] @ (if tool = [] then ''generic'' else tool) @ [CHR 0x00] @ s)"

lemma TranslateSessionID_derived:
  assumes "digest32 sha" and "\<not> IsValidSession s"
  obtains t r where "TranslateSessionID sha s tool = ''ses_'' @ t @ r" and "length t = 12" and "list_all is_hex t"
    and "length r = 14" and "list_all is_alnum r"
    and "hexVal t = fold (\<lambda>b x. 256 * x + unat b) (take 6 (keyDigest sha s tool)) 0 div 4096 * 4096 + 4094"
proof -
  let ?h = "keyDigest sha s tool"
  let ?n = "fold (\<lambda>b x. 256 * x + unat b) (take 6 ?h) 0"
  let ?y = "(bigEndian ([0, 0] @ take 6 ?h) AND NOT 0xfff) OR (NOT 1 AND 0xfff)"
  have len: "length ?h = 32" using assms(1) by (simp add: digest32_def keyDigest_def)
  have be: "unat (bigEndian ([0, 0] @ take 6 ?h)) = ?n" "?n < 2 ^ 48" using bigEndian48 [of "take 6 ?h"] len by auto
  have y: "unat ?y = ?n div 4096 * 4096 + 4094" by (simp only: low12 be)
  have "?n div 4096 < 2 ^ 36" using be(2) by (simp add: less_mult_imp_div_less)
  then have "?n div 4096 * 4096 + 4094 < 2 ^ 36 * 4096" by linarith
  then have "?n div 4096 * 4096 + 4094 < 2 ^ 48" by simp
  then have f: "length (fmt012x ?y) = 12 \<and> list_all is_hex (fmt012x ?y) \<and> hexVal (fmt012x ?y) = unat ?y"
    by (intro fmt012x_shape) (simp only: y)
  have eq: "TranslateSessionID sha s tool = ''ses_'' @ fmt012x ?y @ map (\<lambda>b. base62Chars ! (unat b mod 62)) (take 14 (drop 6 ?h))"
    using assms(2) unfolding TranslateSessionID_def IsValidSession_def keyDigest_def Let_def by (simp del: drop_bit_eq_div)
  show thesis by (rule that [OF eq]) (use f y len base62_map in simp_all)
qed

section \<open>Generated identifiers\<close>

lemma GenerateSessionID_shape:
  "rnd14 rnd \<Longrightarrow> MatchString SessionRE (fst (GenerateSessionID m rnd k))"
  using unstableRandom_shape [of rnd] hexTime_shape by (auto simp: SessionRE_iff GenerateSessionID_def Let_def)

lemma GenerateRequestID_shape:
  "rnd14 rnd \<Longrightarrow> MatchString RequestRE (GenerateRequestID m rnd)"
  using unstableRandom_shape [of rnd] hexTime_shape by (auto simp: RequestRE_iff GenerateRequestID_def Let_def)

text \<open>The identifiers a sequence of calls returns, and the value each one encodes.\<close>

fun generateAll :: "(int \<times> byte list option) list \<Rightarrow> id_clock \<Rightarrow> string list" where
  "generateAll [] k = []"
| "generateAll ((m, rnd) # cs) k = (case GenerateSessionID m rnd k of (i, k') \<Rightarrow> i # generateAll cs k')"

fun clockValues :: "int list \<Rightarrow> int \<Rightarrow> int \<Rightarrow> int list" where
  "clockValues [] lm c = []"
| "clockValues (m # ms) lm c = (if m = lm then (m * 4096 + (c + 1)) # clockValues ms m (c + 1) else (m * 4096 + 1) # clockValues ms m 1)"

lemma sessionTime_generated: "sessionTime (''ses_'' @ hexTime v @ r) = unat v mod 2 ^ 48"
  using hexTime_shape [of v] by (simp add: sessionTime_def hexVal_hexTime)

lemma unat_not_mod: "unat (NOT (word_of_int x :: 64 word)) mod 2 ^ 48 = nat ((- x - 1) mod 2 ^ 48)"
proof -
  have "NOT (word_of_int x :: 64 word) = word_of_int (- x - 1)" by (simp add: not_eq_complement)
  then have u: "unat (NOT (word_of_int x :: 64 word)) = nat ((- x - 1) mod 2 ^ 64)"
    by (simp only: unat_eq_nat_uint uint_word_of_int) simp
  have "unat (NOT (word_of_int x :: 64 word)) mod 2 ^ 48 = nat ((- x - 1) mod 2 ^ 64) mod nat (2 ^ 48)"
    by (simp only: u nat_power_eq [OF zero_le_numeral] nat_numeral)
  also have "\<dots> = nat ((- x - 1) mod 2 ^ 64 mod 2 ^ 48)"
    by (rule nat_mod_distrib [symmetric]) simp_all
  also have "(- x - 1) mod 2 ^ 64 mod 2 ^ 48 = (- x - 1) mod 2 ^ 48"
    by (rule mod_mod_cancel) (simp add: le_imp_power_dvd)
  finally show ?thesis .
qed

lemma generated_values:
  assumes "0 \<le> counter k" and "counter k + int (length cs) < 2 ^ 63"
  shows "map sessionTime (generateAll cs k) = map (\<lambda>x. nat ((- x - 1) mod 2 ^ 48)) (clockValues (map fst cs) (lastMilli k) (counter k))"
  using assms
proof (induction cs arbitrary: k)
  case (Cons a cs)
  obtain m rnd where a: "a = (m, rnd)" by force
  define c where "c = (if m \<noteq> lastMilli k then 1 else counter k + 1)"
  have c: "0 \<le> c" "c + int (length cs) < 2 ^ 63" using Cons(2,3) by (auto simp: c_def)
  then have w: "wrap64 c = c" by (intro wrap64_id) (simp add: in64_def)
  have g: "GenerateSessionID m rnd k =
      (''ses_'' @ hexTime (NOT (word_of_int (m * 4096 + c))) @ unstableRandom rnd, \<lparr>lastMilli = m, counter = c\<rparr>)"
    using w by (cases k) (auto simp: GenerateSessionID_def Let_def c_def)
  have t: "sessionTime (fst (GenerateSessionID m rnd k)) = nat ((- (m * 4096 + c) - 1) mod 2 ^ 48)"
    unfolding g fst_conv sessionTime_generated by (rule unat_not_mod)
  have v: "clockValues (m # map fst cs) (lastMilli k) (counter k) = (m * 4096 + c) # clockValues (map fst cs) m c"
    by (simp add: c_def)
  have r: "generateAll (a # cs) k = fst (GenerateSessionID m rnd k) # generateAll cs \<lparr>lastMilli = m, counter = c\<rparr>"
    by (simp add: a g)
  show ?case unfolding r using Cons(1) [of "\<lparr>lastMilli = m, counter = c\<rparr>"] c t v by (simp add: a del: clockValues.simps)
qed simp

section \<open>Distinct identifiers\<close>

text \<open>
  The values are strictly increasing while the clock does not run backwards and no millisecond sees
  more than 4095 calls.
\<close>

definition calm :: "int list \<Rightarrow> bool" where
  "calm ms \<longleftrightarrow> sorted ms \<and> (\<forall>m \<in> set ms. count_list ms m \<le> 4095)"

lemma clockValues_bounds:
  assumes "sorted ms" and "\<forall>m \<in> set ms. lm \<le> m" and "0 \<le> c" and "c \<le> 4095"
    and "\<forall>m \<in> set ms. int (count_list ms m) + (if m = lm then c else 0) \<le> 4095"
  shows "sorted_wrt (<) (clockValues ms lm c) \<and> (\<forall>v \<in> set (clockValues ms lm c). lm * 4096 + c < v \<and>
     (\<exists>m \<in> set ms. m * 4096 < v \<and> v < (m + 1) * 4096))"
  using assms
proof (induction ms arbitrary: lm c)
  case (Cons m ms)
  define c' where "c' = (if m = lm then c + 1 else 1)"
  have eq: "clockValues (m # ms) lm c = (m * 4096 + c') # clockValues ms m c'" by (simp add: c'_def)
  have c': "0 \<le> c'" "1 \<le> c'" using Cons(4) by (simp_all add: c'_def)
  have "int (count_list (m # ms) m) + (if m = lm then c else 0) \<le> 4095" using Cons(6) by (rule bspec) simp
  then have m: "int (count_list ms m) + c' \<le> 4095" by (simp add: c'_def split: if_splits)
  then have m': "c' \<le> 4095" by linarith
  have cnt: "int (count_list ms x) + (if x = m then c' else 0) \<le> 4095" if "x \<in> set ms" for x
  proof (cases "x = m")
    case False
    have "int (count_list (m # ms) x) + (if x = lm then c else 0) \<le> 4095" using Cons(6) by (rule bspec) (simp add: that)
    with False Cons(4) show ?thesis by (simp split: if_splits)
  qed (simp add: m)
  have IH: "sorted_wrt (<) (clockValues ms m c') \<and> (\<forall>v \<in> set (clockValues ms m c'). m * 4096 + c' < v \<and>
     (\<exists>x \<in> set ms. x * 4096 < v \<and> v < (x + 1) * 4096))"
    using Cons(2) c'(1) m' cnt by (intro Cons(1)) simp_all
  have low: "lm * 4096 + c < m * 4096 + c'"
  proof (cases "m = lm")
    case False
    then have "lm + 1 \<le> m" using Cons(3) by simp
    then have "(lm + 1) * 4096 \<le> m * 4096" by simp
    then show ?thesis using c' Cons(5) False by (simp add: c'_def)
  qed (simp add: c'_def)
  have "m * 4096 < m * 4096 + c' \<and> m * 4096 + c' < (m + 1) * 4096" using c' m' by simp
  with IH low show ?case unfolding eq by (auto intro: order.strict_trans)
qed simp

text \<open>The encoded fields separate values less than \<open>2 ^ 48\<close> apart.\<close>

lemma field_inj:
  assumes "nat ((- x - 1) mod 2 ^ 48) = nat ((- y - 1) mod 2 ^ 48)" and "\<bar>x - y\<bar> < 2 ^ 48"
  shows "x = (y :: int)"
proof -
  have "(- x - 1) mod 2 ^ 48 = (- y - 1) mod 2 ^ 48" using assms(1) by (simp add: eq_nat_nat_iff)
  then have "(2 ^ 48 :: int) dvd x - y" by (simp add: mod_eq_dvd_iff dvd_diff_commute)
  then show ?thesis using assms(2) zdvd_imp_le [of "2 ^ 48" "\<bar>x - y\<bar>"] by (cases "x = y") auto
qed

lemma counter_one: "n < 2 ^ 48 \<Longrightarrow> (2 ^ 48 - 1 - (n div 4096 * 4096 + 4094)) mod 4096 = (1 :: nat)"
proof -
  have gen: "(b * 4096 - 1 - (q * 4096 + 4094)) mod 4096 = (1 :: nat)" if "q < b" for b q
  proof -
    obtain k where "b = Suc (q + k)" using less_imp_Suc_add [OF \<open>q < b\<close>] by blast
    then have "b * 4096 - 1 - (q * 4096 + 4094) = 1 + k * 4096" by simp
    then show ?thesis by (simp only: mod_mult_self1) simp
  qed
  assume "n < 2 ^ 48"
  then have "n div 4096 < 2 ^ 36" by (simp add: less_mult_imp_div_less)
  from gen [OF this] show ?thesis by simp
qed

section \<open>Properties\<close>

text \<open>
  Translating any conversation key gives an identifier of the upstream's shape; translating the
  result again, for any tool, leaves it unchanged; and unless the key was native its time field decodes
  to the counter 1 the upstream's gate accepts, with the 36 bits of the millisecond field taken from the
  digest of tool and key.
\<close>

theorem translate_session:
  assumes "digest32 sha"
  shows "MatchString SessionRE (TranslateSessionID sha key tool) \<and>
     TranslateSessionID sha (TranslateSessionID sha key tool) tool' = TranslateSessionID sha key tool \<and>
     (IsValidSession key \<or>
       ((2 ^ 48 - 1 - sessionTime (TranslateSessionID sha key tool)) mod 4096 = 1 \<and>
        sessionTime (TranslateSessionID sha key tool) div 4096 =
          fold (\<lambda>b x. 256 * x + unat b) (take 6 (keyDigest sha key tool)) 0 div 4096))"
proof (cases "IsValidSession key")
  case True
  then have "MatchString SessionRE (trimSpace key)" by (simp add: IsValidSession_def)
  moreover from this have "TranslateSessionID sha key tool = trimSpace key" by (simp add: TranslateSessionID_def)
  ultimately show ?thesis using True by (simp add: TranslateSessionID_native)
next
  case False
  obtain t r where
    e: "TranslateSessionID sha key tool = ''ses_'' @ t @ r" "length t = 12" "list_all is_hex t" "length r = 14" "list_all is_alnum r"
    and v: "hexVal t = fold (\<lambda>b x. 256 * x + unat b) (take 6 (keyDigest sha key tool)) 0 div 4096 * 4096 + 4094"
    by (rule TranslateSessionID_derived [OF assms False])
  have shape: "MatchString SessionRE (TranslateSessionID sha key tool)" using e unfolding SessionRE_iff by metis
  have st: "sessionTime (TranslateSessionID sha key tool) = hexVal t" using e by (simp add: sessionTime_def)
  have len: "length (take 6 (keyDigest sha key tool)) = 6" using assms by (simp add: digest32_def keyDigest_def)
  from bigEndian48 [OF len] have b: "fold (\<lambda>b x. 256 * x + unat b) (take 6 (keyDigest sha key tool)) 0 < 2 ^ 48" by simp
  have "(2 ^ 48 - 1 - sessionTime (TranslateSessionID sha key tool)) mod 4096 = 1"
    unfolding st v by (rule counter_one [OF b])
  moreover have "sessionTime (TranslateSessionID sha key tool) div 4096 =
      fold (\<lambda>b x. 256 * x + unat b) (take 6 (keyDigest sha key tool)) 0 div 4096"
    unfolding st v by simp
  ultimately show ?thesis using shape TranslateSessionID_native [OF shape] by blast
qed

theorem translate_session_witness:
  "MatchString SessionRE (TranslateSessionID (\<lambda>_. replicate 32 0) ''conversation'' ''claude'')"
  using translate_session [of "\<lambda>_. replicate 32 0" "''conversation''" "''claude''"] by (simp add: digest32_def)

text \<open>
  Generated session identifiers never repeat, whatever the random part: over any calls of a process
  whose clock does not run backwards, made within \<open>2 ^ 36\<close> milliseconds of each other and at most 4095 in
  one millisecond, the identifiers are pairwise distinct.
\<close>

theorem generated_sessions_distinct:
  assumes "calm (map fst cs)" and "\<forall>m \<in> set (map fst cs). base \<le> m \<and> m < base + 2 ^ 36" and "0 \<le> base"
    and "length cs < 2 ^ 63"
  shows "distinct (generateAll cs \<lparr>lastMilli = 0, counter = 0\<rparr>)"
proof -
  let ?vs = "clockValues (map fst cs) 0 0"
  have b: "sorted_wrt (<) ?vs \<and> (\<forall>v \<in> set ?vs. 0 * 4096 + 0 < v \<and> (\<exists>m \<in> set (map fst cs). m * 4096 < v \<and> v < (m + 1) * 4096))"
    using assms by (intro clockValues_bounds) (auto simp: calm_def)
  have near: "base * 4096 < v \<and> v < base * 4096 + 2 ^ 48" if v: "v \<in> set ?vs" for v
  proof -
    obtain m where "m \<in> set (map fst cs)" "m * 4096 < v" "v < (m + 1) * 4096"
      using bspec [OF conjunct2 [OF b] v] by blast
    moreover from this assms(2) have "base \<le> m" "m + 1 \<le> base + 2 ^ 36" by auto
    moreover from this(2) have "(m + 1) * 4096 \<le> (base + 2 ^ 36) * 4096" by (rule mult_right_mono) simp
    ultimately show ?thesis by simp
  qed
  have "inj_on (\<lambda>x. nat ((- x - 1) mod 2 ^ 48)) (set ?vs)"
  proof (rule inj_onI)
    fix x y assume xy: "x \<in> set ?vs" "y \<in> set ?vs" and e: "nat ((- x - 1) mod 2 ^ 48) = nat ((- y - 1) mod 2 ^ 48)"
    from near [OF xy(1)] near [OF xy(2)] have "\<bar>x - y\<bar> < 2 ^ 48" unfolding abs_less_iff by (intro conjI) linarith+
    with e show "x = y" by (rule field_inj)
  qed
  moreover have "distinct ?vs" using b strict_sorted_iff by blast
  ultimately have "distinct (map (\<lambda>x. nat ((- x - 1) mod 2 ^ 48)) ?vs)" by (simp add: distinct_map)
  then have "distinct (map sessionTime (generateAll cs \<lparr>lastMilli = 0, counter = 0\<rparr>))"
    using generated_values [of "\<lparr>lastMilli = 0, counter = 0\<rparr>" cs] assms(4) by simp
  then show ?thesis by (simp add: distinct_map)
qed

theorem generated_sessions_distinct_witness:
  "distinct (generateAll [(5, None), (5, None), (6, None)] \<lparr>lastMilli = 0, counter = 0\<rparr>)"
  by (rule generated_sessions_distinct [where base = 5]) (simp_all add: calm_def)

end
