(* ===== verification/SessionResolver.thy ===== *)
theory SessionResolver
  imports SessionId Json "HOL-Library.Multiset"
begin

text \<open>
  Resolution of the conversation's session (\<^verbatim>\<open>internal/identity/sessionresolver.go\<close>,
  \<^verbatim>\<open>clienttool.go\<close> and the session part of \<^verbatim>\<open>internal/upstream/executor.go\<close>): the identifier a client
  sends under one of several names, else a hash of the assistant's text, else one stable identifier per
  process, the last two kept in stores bounded by size and age.

  Parameters: SHA-256, \<^verbatim>\<open>json.Unmarshal\<close>, the text of \<^verbatim>\<open>fmt\<close>'s \<^verbatim>\<open>%v\<close>, \<^verbatim>\<open>strings.ToLower\<close>, and the
  order in which a range over a store visits its entries. Instants are nanoseconds.
\<close>

section \<open>Stores\<close>

record store_entry =
  se_id :: string
  se_last :: int

record id_store =
  st_entries :: "(string, store_entry) gomap"
  st_max :: nat

type_synonym visit = "(string, store_entry) gomap \<Rightarrow> (string, store_entry) gomap"

definition newStore :: "nat \<Rightarrow> id_store" where
  "newStore n = \<lparr>st_entries = [], st_max = n\<rparr>"

text \<open>The loop's variables \<^verbatim>\<open>oldestKey\<close> and \<^verbatim>\<open>oldest\<close>; \<open>None\<close> while \<^verbatim>\<open>first\<close> holds.\<close>

fun oldestLoop :: "(string, store_entry) gomap \<Rightarrow> (string \<times> int) option \<Rightarrow> (string \<times> int) option" where
  "oldestLoop [] acc = acc"
| "oldestLoop ((k, e) # es) acc = oldestLoop es (case acc of
     None \<Rightarrow> Some (k, se_last e)
   | Some (ok, ot) \<Rightarrow> if se_last e < ot then Some (k, se_last e) else acc)"

definition getOrCreate :: "visit \<Rightarrow> int \<Rightarrow> string \<Rightarrow> string \<Rightarrow> id_store \<Rightarrow> string \<times> id_store" where
  "getOrCreate visit now fresh key s =
     (case gm_get (st_entries s) key of
        Some e \<Rightarrow> (se_id e, s\<lparr>st_entries := gm_set key \<lparr>se_id = se_id e, se_last = now\<rparr> (st_entries s)\<rparr>)
      | None \<Rightarrow>
          let es = (if st_max s \<le> length (st_entries s)
                    then gm_del (case oldestLoop (visit (st_entries s)) None of None \<Rightarrow> [] | Some (k, _) \<Rightarrow> k) (st_entries s)
                    else st_entries s)
          in (fresh, s\<lparr>st_entries := gm_set key \<lparr>se_id = fresh, se_last = now\<rparr> es\<rparr>))"

record id_stores =
  connectionStore :: id_store
  assistantStore :: id_store
  idClock :: id_clock

definition initStores :: id_stores where
  "initStores = \<lparr>connectionStore = newStore 1000, assistantStore = newStore 5000, idClock = \<lparr>lastMilli = 0, counter = 0\<rparr>\<rparr>"

definition evictStore :: "int \<Rightarrow> id_store \<Rightarrow> id_store" where
  "evictStore cutoff s = s\<lparr>st_entries := filter (\<lambda>(k, e). \<not> se_last e < cutoff) (st_entries s)\<rparr>"

definition evictExpired :: "int \<Rightarrow> id_stores \<Rightarrow> id_stores" where
  "evictExpired cutoff ss =
     ss\<lparr>connectionStore := evictStore cutoff (connectionStore ss), assistantStore := evictStore cutoff (assistantStore ss)\<rparr>"

section \<open>What the client sends\<close>

type_synonym headers = "(string, string) gomap"
type_synonym body = "(string, json) gomap"

record session_env =
  sn_sha :: "string \<Rightarrow> byte list"
  sn_decode :: "string \<Rightarrow> json option"
  sn_sprint :: "json \<Rightarrow> string"
  sn_lower :: "string \<Rightarrow> string"
  sn_visit :: visit

definition header :: "headers \<Rightarrow> string \<Rightarrow> string" where
  "header hs k = (case gm_get hs k of None \<Rightarrow> [] | Some v \<Rightarrow> v)"

definition normalizeSessionID :: "json option \<Rightarrow> string" where
  "normalizeSessionID value = (case value of
     Some (JStr s) \<Rightarrow> let v = trimSpace s in if v = [] \<or> length v > 256 then [] else v
   | _ \<Rightarrow> [])"

definition headerValue :: "headers \<Rightarrow> string \<Rightarrow> string" where
  "headerValue hs key = normalizeSessionID (Some (JStr (header hs key)))"

definition is_sessionid :: "char \<Rightarrow> bool" where
  "is_sessionid c \<longleftrightarrow> is_hex c \<or> c = CHR ''-''"

definition claudeCodeSessionRe :: regex where
  "claudeCodeSessionRe = rx_lit ''_session_'' @ [POpen, PPlus is_sessionid, PClose, PEnd]"

definition extractClaudeCodeSession :: "session_env \<Rightarrow> body \<Rightarrow> string" where
  "extractClaudeCodeSession env body =
     (let userID = AsStr (JGet (gm_get body ''metadata'') ''user_id'') in
      if userID = [] then []
      else case rx_search claudeCodeSessionRe userID of
        Some (m1 # _, _) \<Rightarrow> m1
      | _ \<Rightarrow>
          if hasPrefix userID ''{'' then
            (case decodeMap (sn_decode env) userID of
               None \<Rightarrow> []
             | Some parsed \<Rightarrow> normalizeSessionID (gm_get parsed ''session_id''))
          else [])"

text \<open>
  \<^verbatim>\<open>(?i)^[a-z]+/([0-9a-f-]{36})/\<close>: under case folding the letters also match the long s (U+017F) and
  the Kelvin sign (U+212A).
\<close>

fun dropLetters :: "string \<Rightarrow> string" where
  "dropLetters [] = []"
| "dropLetters (c # cs) =
     (if is_lower c \<or> is_upper c then dropLetters cs
      else if c = CHR 0xC5 \<and> hasPrefix cs [CHR 0xBF] then dropLetters (drop 1 cs)
      else if c = CHR 0xE2 \<and> hasPrefix cs [CHR 0x84, CHR 0xAA] then dropLetters (drop 2 cs)
      else c # cs)"

definition antigravityConv :: "string \<Rightarrow> string option" where
  "antigravityConv s =
     (let rest = dropLetters s in
      if length rest = length s then None
      else case rx_match (rx_lit ''/'' @ [POpen, PRep 36 (\<lambda>c. is_sessionid (lowerByte c)), PClose] @ rx_lit ''/'') rest of
        Some (m1 # _, _) \<Rightarrow> Some m1
      | _ \<Rightarrow> None)"

definition extractAntigravitySession :: "session_env \<Rightarrow> body \<Rightarrow> string" where
  "extractAntigravitySession env body =
     (let fromRequest = (case AsObj (gm_get body ''request'') of
            None \<Rightarrow> None
          | Some req \<Rightarrow> (case gm_get req ''sessionId'' of
              None \<Rightarrow> None
            | Some JNull \<Rightarrow> None
            | Some (JStr s) \<Rightarrow> if s \<noteq> [] then Some (normalizeSessionID (Some (JStr s))) else None
            | Some sid \<Rightarrow> Some (normalizeSessionID (Some (JStr (sn_sprint env sid))))))
      in case fromRequest of
        Some r \<Rightarrow> r
      | None \<Rightarrow> (case gm_get body ''requestId'' of
          Some (JStr rid) \<Rightarrow> (case antigravityConv rid of
            Some m1 \<Rightarrow> normalizeSessionID (Some (JStr m1))
          | None \<Rightarrow> [])
        | _ \<Rightarrow> []))"

definition sessionHeaderKeys :: "string list" where
  "sessionHeaderKeys = [''x-session-id'', ''session-id'', ''session_id'', ''x-amp-thread-id'']"

fun firstNonEmpty :: "string list \<Rightarrow> string" where
  "firstNonEmpty [] = []"
| "firstNonEmpty (v # vs) = (if v \<noteq> [] then v else firstNonEmpty vs)"

definition extractClientSessionID :: "session_env \<Rightarrow> headers \<Rightarrow> body \<Rightarrow> string" where
  "extractClientSessionID env hs body =
     (let claude = extractClaudeCodeSession env body;
          cc = headerValue hs ''x-claude-code-session-id'';
          ag = extractAntigravitySession env body
      in if claude \<noteq> [] then ''claude:'' @ claude
         else if cc \<noteq> [] then ''claude:'' @ cc
         else if ag \<noteq> [] then ''antigravity:'' @ ag
         else firstNonEmpty (map (headerValue hs) sessionHeaderKeys
           @ [headerValue hs ''x-client-request-id'',
              normalizeSessionID (gm_get body ''prompt_cache_key''),
              normalizeSessionID (gm_get body ''session_id''),
              normalizeSessionID (gm_get body ''conversation_id''),
              normalizeSessionID (JGet (gm_get body ''metadata'') ''user_id'')]))"

section \<open>The assistant's text\<close>

definition partText :: "json \<Rightarrow> string" where
  "partText p = (case AsObj (Some p) of
     None \<Rightarrow> []
   | Some c \<Rightarrow>
       if Truthy (gm_get c ''text'') then AsStr (gm_get c ''text'')
       else if Truthy (gm_get c ''output'') then AsStr (gm_get c ''output'')
       else [])"

fun accumulateLoop :: "json list \<Rightarrow> string \<Rightarrow> string" where
  "accumulateLoop [] b = b"
| "accumulateLoop (raw # items) b = (case AsObj (Some raw) of
     None \<Rightarrow> accumulateLoop items b
   | Some item \<Rightarrow>
       if AsStr (gm_get item ''role'') \<noteq> ''assistant'' then accumulateLoop items b
       else let b' = (case gm_get item ''content'' of
              Some (JStr s) \<Rightarrow> b @ s
            | Some (JArr content) \<Rightarrow> b @ concat (map partText content)
            | _ \<Rightarrow> b)
         in if length b' \<ge> 50 then b' else accumulateLoop items b')"

definition accumulateAssistantText :: "body \<Rightarrow> string" where
  "accumulateAssistantText body =
     (let items = (case AsArr (gm_get body ''messages'') of
            Some a \<Rightarrow> a
          | None \<Rightarrow> (case AsArr (gm_get body ''input'') of Some a \<Rightarrow> a | None \<Rightarrow> []))
      in accumulateLoop items [])"

definition sha16 :: "(string \<Rightarrow> byte list) \<Rightarrow> string \<Rightarrow> string" where
  "sha16 sha t = take 16 (hexEncode (sha t))"

function itoa64Loop :: "int \<Rightarrow> string \<Rightarrow> string" where
  "itoa64Loop n acc = (if 0 < n then itoa64Loop (n div 10) (digitChar (nat (n mod 10)) # acc) else acc)"
  by pat_completeness auto
termination
  by (relation "measure (\<lambda>(n, acc). nat n)") auto

declare itoa64Loop.simps [simp del]

definition itoa64 :: "int \<Rightarrow> string" where
  "itoa64 n = (if n = 0 then ''0'' else itoa64Loop n [])"

text \<open>One request's draw of the clock and of \<^verbatim>\<open>crypto/rand\<close> (the 16-byte buffer as it is after the read).\<close>

record draw =
  dr_now :: int
  dr_buf16 :: "byte list"
  dr_rnd14 :: "byte list option"

definition unixMilli :: "int \<Rightarrow> int" where
  "unixMilli t = t div 1000000"

definition generateBinaryStyleID :: "draw \<Rightarrow> string" where
  "generateBinaryStyleID d = hexEncode (dr_buf16 d) @ itoa64 (unixMilli (dr_now d))"

definition ResolveSessionIDScoped ::
  "session_env \<Rightarrow> draw \<Rightarrow> body \<Rightarrow> headers \<Rightarrow> string \<Rightarrow> id_stores \<Rightarrow> string \<times> id_stores" where
  "ResolveSessionIDScoped env d body hs connectionID ss =
     (let client = extractClientSessionID env hs body;
          txt = accumulateAssistantText body
      in if client \<noteq> [] then (client, ss)
         else if length txt \<ge> 50 then
           (let key = sha16 (sn_sha env) (''opencode:'' @ connectionID @ '':'' @ take (min (length txt) 50) txt) in
            case getOrCreate (sn_visit env) (dr_now d) (generateBinaryStyleID d) key (assistantStore ss) of
              (i, st) \<Rightarrow> (i, ss\<lparr>assistantStore := st\<rparr>))
         else
           (case getOrCreate (sn_visit env) (dr_now d) (generateBinaryStyleID d) (''opencode:'' @ connectionID) (connectionStore ss) of
              (i, st) \<Rightarrow> (i, ss\<lparr>connectionStore := st\<rparr>)))"

definition ResolveSessionID :: "session_env \<Rightarrow> draw \<Rightarrow> body \<Rightarrow> headers \<Rightarrow> id_stores \<Rightarrow> string \<times> id_stores" where
  "ResolveSessionID env d body hs ss = ResolveSessionIDScoped env d body hs [] ss"

section \<open>The client's tool\<close>

definition DetectClientTool :: "session_env \<Rightarrow> headers \<Rightarrow> body \<Rightarrow> string" where
  "DetectClientTool env hs body =
     (let ua = sn_lower env (header hs ''user-agent'');
          xApp = sn_lower env (header hs ''x-app'')
      in if AsStr (gm_get body ''userAgent'') = ''antigravity'' then ''antigravity''
         else if contains ua ''githubcopilotchat'' then ''github-copilot''
         else if contains ua ''claude-cli'' \<or> contains ua ''claude-code'' \<or> xApp = ''cli'' then ''claude''
         else if contains ua ''gemini-cli'' then ''gemini-cli''
         else if contains ua ''codex-tui'' \<or> contains ua ''codex-cli'' \<or> contains ua ''codex_cli_rs'' \<or> contains ua ''codex desktop''
           then ''codex''
         else if contains ua ''deepseek-tui'' then ''deepseek-tui''
         else [])"

section \<open>The upstream session\<close>

definition MaxSessionLength :: nat where
  "MaxSessionLength = 256"

definition SessionHeader :: string where
  "SessionHeader = ''x-opencode-session''"

definition normalizeSession :: "string \<Rightarrow> string" where
  "normalizeSession value =
     (let normalized = trimSpace value in
      if normalized = [] \<or> length normalized > MaxSessionLength then [] else normalized)"

definition nativeSession :: "headers \<Rightarrow> string" where
  "nativeSession hs = (case gm_get hs SessionHeader of
     None \<Rightarrow> []
   | Some v \<Rightarrow>
       let normalized = normalizeSession v in
       if normalized \<noteq> [] \<and> MatchString SessionRE normalized then normalized else [])"

definition ResolveSession :: "session_env \<Rightarrow> draw \<Rightarrow> body \<Rightarrow> headers \<Rightarrow> id_stores \<Rightarrow> string \<times> id_stores" where
  "ResolveSession env d body hs ss =
     (let native = nativeSession hs in
      if native \<noteq> [] then (native, ss)
      else
        let incoming = (case gm_get hs SessionHeader of None \<Rightarrow> [] | Some v \<Rightarrow> normalizeSession v);
            (resolved, ss1) = (if incoming = [] then ResolveSessionID env d body hs ss else (incoming, ss))
        in if resolved = [] then
             (case GenerateSessionID (unixMilli (dr_now d)) (dr_rnd14 d) (idClock ss1) of
                (i, k) \<Rightarrow> (i, ss1\<lparr>idClock := k\<rparr>))
           else (TranslateSessionID (sn_sha env) resolved (DetectClientTool env hs body), ss1))"

section \<open>The oldest entry\<close>

lemma oldestLoop_acc:
  "oldestLoop es acc = Some (k, t) \<Longrightarrow>
     ((k, t) \<in> (\<lambda>(k, e). (k, se_last e)) ` set es \<or> acc = Some (k, t)) \<and>
     (\<forall>e' \<in> snd ` set es. t \<le> se_last e') \<and> (\<forall>k' t'. acc = Some (k', t') \<longrightarrow> t \<le> t')"
proof (induction es arbitrary: acc)
  case (Cons p es)
  obtain k' e where p: "p = (k', e)" by force
  let ?acc = "case acc of None \<Rightarrow> Some (k', se_last e)
    | Some (ok, ot) \<Rightarrow> if se_last e < ot then Some (k', se_last e) else acc"
  from Cons(2) have "oldestLoop es ?acc = Some (k, t)" by (simp add: p)
  note IH = Cons(1) [OF this]
  have acc: "?acc = Some (k', se_last e) \<or> ?acc = acc" by (simp split: option.splits prod.splits)
  have le: "\<exists>k1 t1. ?acc = Some (k1, t1) \<and> t1 \<le> se_last e \<and> (\<forall>k2 t2. acc = Some (k2, t2) \<longrightarrow> t1 \<le> t2)"
    by (auto split: option.splits prod.splits)
  then obtain k1 t1 where a: "?acc = Some (k1, t1)" "t1 \<le> se_last e" "\<forall>k2 t2. acc = Some (k2, t2) \<longrightarrow> t1 \<le> t2" by blast
  have t1: "t \<le> t1" using IH a(1) by blast
  have "(k, t) \<in> (\<lambda>(k, e). (k, se_last e)) ` set (p # es) \<or> acc = Some (k, t)"
    using IH acc by (auto simp: p)
  moreover have "\<forall>e' \<in> snd ` set (p # es). t \<le> se_last e'" using IH t1 a(2) by (auto simp: p)
  moreover have "\<forall>k' t'. acc = Some (k', t') \<longrightarrow> t \<le> t'" using t1 a(3) by fastforce
  ultimately show ?case by blast
qed simp

lemma oldestLoop_ex: "es \<noteq> [] \<or> acc \<noteq> None \<Longrightarrow> \<exists>k t. oldestLoop es acc = Some (k, t)"
  by (induction es acc rule: oldestLoop.induct) (auto split: option.splits prod.splits)

text \<open>A visit sees every entry once.\<close>

definition visits_all :: "visit \<Rightarrow> bool" where
  "visits_all visit \<longleftrightarrow> (\<forall>m. mset (visit m) = mset m)"

definition oldestKey :: "visit \<Rightarrow> id_store \<Rightarrow> string" where
  "oldestKey visit s = (case oldestLoop (visit (st_entries s)) None of None \<Rightarrow> [] | Some (k, _) \<Rightarrow> k)"

lemma oldestKey_min:
  assumes "visits_all visit" and "gm_wf (st_entries s)" and "gm_get (st_entries s) k = Some e"
  obtains e0 where "gm_get (st_entries s) (oldestKey visit s) = Some e0" and "se_last e0 \<le> se_last e"
proof -
  have mem: "set (visit (st_entries s)) = set (st_entries s)"
    using assms(1) unfolding visits_all_def by (metis mset_eq_setD)
  have ke: "(k, e) \<in> set (st_entries s)" using assms(3) by (rule map_of_SomeD)
  then have "visit (st_entries s) \<noteq> []" using mem by auto
  then obtain k0 t where o: "oldestLoop (visit (st_entries s)) None = Some (k0, t)" using oldestLoop_ex by blast
  from oldestLoop_acc [OF o] mem obtain e0 where e0: "(k0, e0) \<in> set (st_entries s)" "t = se_last e0" by auto
  moreover have "t \<le> se_last e" using oldestLoop_acc [OF o] ke mem by force
  moreover have "gm_get (st_entries s) k0 = Some e0" using e0(1) assms(2) by (simp add: gm_wf_def)
  ultimately show thesis using that o by (simp add: oldestKey_def)
qed

section \<open>Sequences of uses\<close>

datatype store_op = Use string int string | Evict int

fun store_run :: "visit \<Rightarrow> store_op list \<Rightarrow> id_store \<Rightarrow> id_store" where
  "store_run visit [] s = s"
| "store_run visit (Use k now fresh # ops) s = store_run visit ops (snd (getOrCreate visit now fresh k s))"
| "store_run visit (Evict cutoff # ops) s = store_run visit ops (evictStore cutoff s)"

definition op_ok :: "string \<Rightarrow> int \<Rightarrow> store_op \<Rightarrow> bool" where
  "op_ok key t p = (case p of Use k now _ \<Rightarrow> k = key \<longrightarrow> t \<le> now | Evict cutoff \<Rightarrow> cutoff \<le> t)"

fun used_keys :: "store_op list \<Rightarrow> string list" where
  "used_keys [] = []"
| "used_keys (Use k _ _ # ops) = k # used_keys ops"
| "used_keys (Evict _ # ops) = used_keys ops"

text \<open>
  The entry of \<open>key\<close> holds \<open>i\<close> and was used at \<open>t\<close> or later; every entry outside the keys \<open>ks\<close> used since
  is older.
\<close>

definition held :: "string \<Rightarrow> string \<Rightarrow> int \<Rightarrow> string set \<Rightarrow> id_store \<Rightarrow> bool" where
  "held key i t ks s \<longleftrightarrow> gm_wf (st_entries s) \<and>
     (\<exists>e. gm_get (st_entries s) key = Some e \<and> se_id e = i \<and> t \<le> se_last e) \<and>
     (\<forall>k e. gm_get (st_entries s) k = Some e \<longrightarrow> k = key \<or> k \<in> ks \<or> se_last e < t)"

lemma getOrCreate_eq: "getOrCreate visit now fresh key s =
     (case gm_get (st_entries s) key of
        Some e \<Rightarrow> (se_id e, s\<lparr>st_entries := gm_set key \<lparr>se_id = se_id e, se_last = now\<rparr> (st_entries s)\<rparr>)
      | None \<Rightarrow> (fresh, s\<lparr>st_entries := gm_set key \<lparr>se_id = fresh, se_last = now\<rparr>
           (if st_max s \<le> length (st_entries s) then gm_del (oldestKey visit s) (st_entries s) else st_entries s)\<rparr>))"
  by (simp add: getOrCreate_def oldestKey_def Let_def split: option.splits)

lemma held_use_present:
  assumes "held key i t ks s" and "gm_get (st_entries s) k = Some e" and "k = key \<longrightarrow> t \<le> now"
  shows "held key i t (insert k ks) (snd (getOrCreate visit now fresh k s))"
  using assms by (auto simp: held_def getOrCreate_eq gm_get_set)

lemma held_use_room:
  assumes "held key i t ks s" and "gm_get (st_entries s) k = None" and "length (st_entries s) < st_max s"
  shows "held key i t (insert k ks) (snd (getOrCreate visit now fresh k s))"
  using assms by (auto simp: held_def getOrCreate_eq gm_get_set)

lemma held_use_full:
  assumes h: "held key i t ks s" and n: "gm_get (st_entries s) k = None" and "visits_all visit"
    and full: "st_max s \<le> length (st_entries s)" and fin: "finite ks" and room: "card (insert k ks - {key}) < st_max s"
  shows "held key i t (insert k ks) (snd (getOrCreate visit now fresh k s))"
proof -
  have wf: "gm_wf (st_entries s)" using h by (simp add: held_def)
  let ?dom = "set (map fst (st_entries s))"
  have kk: "k \<noteq> key" using h n by (auto simp: held_def)
  have "k \<notin> ?dom" using n by (simp add: map_of_eq_None_iff)
  then have "?dom \<inter> insert key ks \<subseteq> insert key (insert k ks - {key} - {k})" by auto
  then have "card (?dom \<inter> insert key ks) \<le> card (insert key (insert k ks - {key} - {k}))"
    using fin by (intro card_mono) auto
  also have "\<dots> = Suc (card (insert k ks - {key} - {k}))" using fin by (intro card_insert_disjoint) auto
  also have "\<dots> = card (insert k ks - {key})" using fin kk by (intro card_Suc_Diff1) auto
  also have "\<dots> < length (map fst (st_entries s))" using room full by simp
  also have "\<dots> = card ?dom" using wf by (simp only: gm_wf_def distinct_card)
  finally have "\<exists>k'. k' \<in> ?dom \<and> k' \<notin> insert key ks" by (metis inf.orderE less_irrefl subsetI)
  then obtain k' e' where "gm_get (st_entries s) k' = Some e'" "k' \<noteq> key" "k' \<notin> ks"
    by (auto simp: map_of_eq_None_iff [symmetric] simp flip: not_None_eq) (metis map_of_eq_None_iff not_None_eq image_iff fst_conv)
  moreover from this h have "se_last e' < t" by (auto simp: held_def)
  ultimately obtain e0 where e0: "gm_get (st_entries s) (oldestKey visit s) = Some e0" "se_last e0 < t"
    using oldestKey_min [OF assms(3) wf] by (metis order.strict_trans1)
  then have "oldestKey visit s \<noteq> key" using h by (auto simp: held_def)
  then show ?thesis using h n full by (auto simp: held_def getOrCreate_eq gm_get_set gm_get_del)
qed

lemma gm_get_filter_entry:
  "gm_wf m \<Longrightarrow> gm_get (filter (\<lambda>(k, v). P v) m) k = (case gm_get m k of None \<Rightarrow> None | Some v \<Rightarrow> if P v then Some v else None)"
proof (induction m)
  case (Cons a m)
  then have "fst a \<notin> fst ` set m" "gm_wf m" by (auto simp: gm_wf_def)
  with Cons show ?case by (cases a) (auto simp: map_of_eq_None_iff split: option.splits)
qed simp

lemma held_evict:
  assumes "held key i t ks s" and "cutoff \<le> t"
  shows "held key i t ks (evictStore cutoff s)"
proof -
  have wf: "gm_wf (st_entries s)" using assms(1) by (simp add: held_def)
  show ?thesis using assms
    by (auto simp: held_def evictStore_def gm_get_filter_entry [OF wf, where P = "\<lambda>e. \<not> se_last e < cutoff"] split: option.splits if_splits)
qed

lemma st_max_get [simp]: "st_max (snd (getOrCreate visit now fresh k s)) = st_max s"
  by (simp add: getOrCreate_eq split: option.splits)

lemma st_max_evict [simp]: "st_max (evictStore cutoff s) = st_max s"
  by (simp add: evictStore_def)

lemma held_use:
  assumes "held key i t ks s" and "visits_all visit" and "k = key \<longrightarrow> t \<le> now" and "finite ks"
    and "card (insert k ks - {key}) < st_max s"
  shows "held key i t (insert k ks) (snd (getOrCreate visit now fresh k s))"
proof (cases "gm_get (st_entries s) k")
  case None
  show ?thesis
  proof (cases "st_max s \<le> length (st_entries s)")
    case True
    then show ?thesis using assms None by (intro held_use_full)
  next
    case False
    then show ?thesis using assms None by (intro held_use_room) auto
  qed
next
  case (Some e)
  then show ?thesis using assms by (intro held_use_present)
qed

lemma held_run:
  assumes "visits_all visit" and "list_all (op_ok key t) ops" and "held key i t ks s" and "finite ks"
    and "card (set (used_keys ops) \<union> ks - {key}) < st_max s"
  shows "\<exists>ks'. held key i t ks' (store_run visit ops s)"
  using assms(2-)
proof (induction ops arbitrary: ks s)
  case (Cons p ops)
  show ?case
  proof (cases p)
    case (Use k now fresh)
    have sub: "card (insert k ks - {key}) \<le> card (set (used_keys (p # ops)) \<union> ks - {key})"
      using Cons(4) by (intro card_mono) (auto simp: Use)
    have "held key i t (insert k ks) (snd (getOrCreate visit now fresh k s))"
      using Cons sub by (intro held_use assms(1)) (auto simp: Use op_ok_def)
    then show ?thesis using Cons by (auto simp: Use intro!: Cons(1) [where ks = "insert k ks"])
  next
    case (Evict cutoff)
    have "held key i t ks (evictStore cutoff s)" using Cons by (intro held_evict) (auto simp: Evict op_ok_def)
    then show ?thesis using Cons by (auto simp: Evict intro!: Cons(1))
  qed
qed auto

section \<open>Size\<close>

definition store_fits :: "id_store \<Rightarrow> bool" where
  "store_fits s \<longleftrightarrow> gm_wf (st_entries s) \<and> length (st_entries s) \<le> st_max s"

lemma length_gm_set: "length (gm_set k v m) = (if gm_get m k = None then Suc (length m) else length m)"
  by (induction m) auto

lemma length_gm_del:
  assumes "gm_wf m" and "gm_get m k \<noteq> None"
  shows "length (gm_del k m) < length m"
proof -
  have "\<exists>p \<in> set m. fst p = k" using assms(2) by (metis map_of_eq_None_iff image_iff)
  then show ?thesis unfolding AList.delete_eq by (auto intro: length_filter_less)
qed

lemma store_fits_get:
  assumes "store_fits s" and "visits_all visit" and "0 < st_max s"
  shows "store_fits (snd (getOrCreate visit now fresh k s))"
proof (cases "gm_get (st_entries s) k")
  case None
  show ?thesis
  proof (cases "st_max s \<le> length (st_entries s)")
    case True
    with assms(3) obtain p ps where "st_entries s = p # ps" by (cases "st_entries s") auto
    then have "gm_get (st_entries s) (fst p) = Some (snd p)" by (cases p) simp
    then obtain e0 where "gm_get (st_entries s) (oldestKey visit s) = Some e0"
      using oldestKey_min [OF assms(2), of s] assms(1) by (metis store_fits_def)
    then have "length (gm_del (oldestKey visit s) (st_entries s)) < length (st_entries s)"
      using assms(1) by (intro length_gm_del) (auto simp: store_fits_def)
    then show ?thesis using assms(1) None True by (simp add: store_fits_def getOrCreate_eq length_gm_set)
  next
    case False
    then show ?thesis using assms None by (simp add: store_fits_def getOrCreate_eq length_gm_set)
  qed
next
  case (Some e)
  then show ?thesis using assms by (simp add: store_fits_def getOrCreate_eq length_gm_set)
qed

lemma store_fits_evict: "store_fits s \<Longrightarrow> store_fits (evictStore cutoff s)"
  by (auto simp: store_fits_def evictStore_def intro: order_trans [OF length_filter_le])

lemma store_fits_run:
  "visits_all visit \<Longrightarrow> store_fits s \<Longrightarrow> 0 < st_max s \<Longrightarrow> store_fits (store_run visit ops s) \<and> st_max (store_run visit ops s) = st_max s"
proof (induction ops arbitrary: s)
  case (Cons p ops)
  then show ?case by (cases p) (simp_all add: store_fits_get store_fits_evict)
qed simp

lemma held_start:
  assumes "store_fits s" and "list_all (\<lambda>(k, e). se_last e < t) (st_entries s)" and "getOrCreate visit t fresh key s = (i, s1)"
  shows "held key i t {} s1"
proof -
  have old: "se_last e < t" if "gm_get (st_entries s) k = Some e" for k e
    using map_of_SomeD [OF that] assms(2) by (auto simp: list_all_iff)
  have wf: "gm_wf (st_entries s)" using assms(1) by (simp add: store_fits_def)
  have s1: "s1 = snd (getOrCreate visit t fresh key s)" "i = fst (getOrCreate visit t fresh key s)" using assms(3) by simp_all
  show ?thesis
  proof (cases "gm_get (st_entries s) key")
    case None
    then show ?thesis unfolding s1 using wf by (auto simp: held_def getOrCreate_eq gm_get_set gm_get_del dest: old)
  next
    case (Some e)
    then show ?thesis unfolding s1 using wf by (auto simp: held_def getOrCreate_eq gm_get_set dest: old)
  qed
qed

section \<open>Properties\<close>

text \<open>
  C33. Conversation stickiness. A key resolved at an instant later than every earlier use keeps its
  identifier as long as fewer than the store's capacity of other keys are used and no sweep's cutoff
  passes that instant, whatever the order in which a range visits the entries and whatever the clock says
  later; and the store never grows beyond its capacity.
\<close>

theorem session_sticky:
  assumes "visits_all visit" and "store_fits s" and "0 < st_max s"
    and "list_all (\<lambda>(k, e). se_last e < t) (st_entries s)"
    and "getOrCreate visit t fresh key s = (i, s1)"
    and "list_all (op_ok key t) ops" and "card (set (used_keys ops) - {key}) < st_max s"
  shows "fst (getOrCreate visit t' fresh' key (store_run visit ops s1)) = i \<and>
     length (st_entries (store_run visit ops s1)) \<le> st_max s"
proof -
  have s1: "s1 = snd (getOrCreate visit t fresh key s)" using assms(5) by simp
  have fits: "store_fits s1" "st_max s1 = st_max s" unfolding s1 using store_fits_get assms(1-3) by auto
  have "\<exists>ks. held key i t ks (store_run visit ops s1)"
    using held_run [OF assms(1,6) held_start [OF assms(2,4,5)]] assms(7) fits(2) by simp
  then have "fst (getOrCreate visit t' fresh' key (store_run visit ops s1)) = i"
    by (auto simp: held_def getOrCreate_eq)
  moreover have "length (st_entries (store_run visit ops s1)) \<le> st_max s"
    using store_fits_run [OF assms(1) fits(1), of ops] assms(3) fits(2) by (simp add: store_fits_def)
  ultimately show ?thesis by blast
qed

theorem session_sticky_witness:
  "fst (getOrCreate (\<lambda>m. m) 9 ''z'' ''k'' (store_run (\<lambda>m. m) [Use ''b'' 6 ''y'', Evict 3]
     (snd (getOrCreate (\<lambda>m. m) 5 ''x'' ''k'' (newStore 2))))) = ''x''"
  using session_sticky [of "\<lambda>m. m" "newStore 2" 5 "''x''" "''k''" "''x''"
      "snd (getOrCreate (\<lambda>m. m) 5 ''x'' ''k'' (newStore 2))" "[Use ''b'' 6 ''y'', Evict 3]" 9 "''z''"]
  by (simp add: visits_all_def store_fits_def newStore_def getOrCreate_def op_ok_def)

text \<open>
  C34. Whatever the client sends, the session the upstream request carries has the upstream's shape, and
  a native session header is carried verbatim, up to surrounding white space.
\<close>

theorem resolve_session_shape:
  assumes "digest32 (sn_sha env)" and "rnd14 (dr_rnd14 d)"
  shows "MatchString SessionRE (fst (ResolveSession env d body hs ss)) \<and>
     (\<forall>v. gm_get hs SessionHeader = Some v \<and> IsValidSession v \<longrightarrow> ResolveSession env d body hs ss = (trimSpace v, ss))"
proof (intro conjI allI impI)
  have tr: "MatchString SessionRE (TranslateSessionID (sn_sha env) key tool)" for key tool
  proof (cases "IsValidSession key")
    case True
    then show ?thesis by (simp add: IsValidSession_def TranslateSessionID_def)
  next
    case False
    from TranslateSessionID_derived [OF assms(1) this, of tool] show ?thesis by (metis SessionRE_iff)
  qed
  have nat: "nativeSession hs \<noteq> [] \<Longrightarrow> MatchString SessionRE (nativeSession hs)"
    by (auto simp: nativeSession_def Let_def split: option.splits if_splits)
  show "MatchString SessionRE (fst (ResolveSession env d body hs ss))"
    using tr nat GenerateSessionID_shape [OF assms(2)]
    by (auto simp: ResolveSession_def Let_def split: prod.splits) (metis fst_conv)
next
  fix v assume v: "gm_get hs SessionHeader = Some v \<and> IsValidSession v"
  then have m: "MatchString SessionRE (trimSpace v)" by (simp add: IsValidSession_def)
  then have "length (trimSpace v) = 30" by (auto simp: SessionRE_iff)
  then have "normalizeSession v = trimSpace v" "trimSpace v \<noteq> []" by (auto simp: normalizeSession_def MaxSessionLength_def)
  with v m show "ResolveSession env d body hs ss = (trimSpace v, ss)"
    by (simp add: ResolveSession_def nativeSession_def)
qed

definition sample_session_env :: session_env where
  "sample_session_env = \<lparr>sn_sha = (\<lambda>_. replicate 32 0), sn_decode = (\<lambda>_. None), sn_sprint = (\<lambda>_. []), sn_lower = (\<lambda>s. s),
     sn_visit = (\<lambda>m. m)\<rparr>"

definition sample_draw :: draw where
  "sample_draw = \<lparr>dr_now = 1000000, dr_buf16 = replicate 16 0, dr_rnd14 = None\<rparr>"

theorem resolve_session_shape_witness:
  "MatchString SessionRE (fst (ResolveSession sample_session_env sample_draw [] [(''session-id'', ''abc'')] initStores))"
  using resolve_session_shape [of sample_session_env sample_draw "[]" "[(''session-id'', ''abc'')]" initStores]
  by (simp add: sample_session_env_def sample_draw_def digest32_def rnd14_def)

end
