(* ===== verification/UserAgent.thy ===== *)
theory UserAgent
  imports Regex
begin

text \<open>
  The client identity of the upstream request (\<^verbatim>\<open>internal/identity/useragent.go\<close>): the version check
  of a downstream User-Agent, the two wire forms, the probe round that resolves both, and the cache that
  keeps them. GitHub's answers of one round are a parameter, indexed by the URL asked.
\<close>

section \<open>Versions\<close>

definition UARe :: regex where
  "UARe = rx_fold ''opencode/'' @ [POpen, PPlus is_digit, PClose] @ rx_lit ''.'' @ [POpen, PPlus is_digit, PClose,
     POpt (rx_lit ''.'' @ [POpen, PPlus is_digit, PClose])]"

definition rx_semver :: regex where
  "rx_semver = [PPlus is_digit] @ rx_lit ''.'' @ [PPlus is_digit] @ rx_lit ''.'' @ [PPlus is_digit]"

definition TagRe :: regex where
  "TagRe = [POpt (rx_lit ''v''), POpen] @ rx_semver @ [PClose]"

text \<open>
  \<^verbatim>\<open>strconv.Atoi\<close> on decimal digits with its error ignored: a value out of range is clamped.
\<close>

definition atoiDigits :: "string \<Rightarrow> nat" where
  "atoiDigits s = (case parseNat s of None \<Rightarrow> 0 | Some n \<Rightarrow> min n (2 ^ 63 - 1))"

definition ClientMinMajor :: nat where
  "ClientMinMajor = 1"

definition ClientMinMinor :: nat where
  "ClientMinMinor = 18"

definition HasValidVersion :: "string \<Rightarrow> bool" where
  "HasValidVersion ua = (case rx_search UARe ua of
     Some (m1 # m2 # _, _) \<Rightarrow>
       atoiDigits m1 > ClientMinMajor \<or> (atoiDigits m1 = ClientMinMajor \<and> atoiDigits m2 \<ge> ClientMinMinor)
   | _ \<Rightarrow> False)"

record ua_triple =
  ut_opencode :: string
  ut_provider_utils :: string
  ut_bun :: string

definition Compose :: "ua_triple \<Rightarrow> string" where
  "Compose t = ''opencode/'' @ ut_opencode t @ '' ai-sdk/provider-utils/'' @ ut_provider_utils t @ '' runtime/bun/'' @ ut_bun t"

definition FallbackTriple :: ua_triple where
  "FallbackTriple = \<lparr>ut_opencode = ''1.18.31'', ut_provider_utils = ''4.0.23'', ut_bun = ''1.3.14''\<rparr>"

definition FallbackUA :: string where
  "FallbackUA = Compose FallbackTriple"

definition FallbackV2 :: string where
  "FallbackV2 = ''opencode/latest/'' @ ''2.0.1'' @ ''/cli''"

section \<open>A probe round\<close>

definition puTail :: regex where
  "puTail = rx_lit ''@ai-sdk/openai-compatible/@ai-sdk/provider-utils'' @ rx_lit [CHR 0x22] @ rx_lit '':''
     @ [PStar is_blank] @ rx_lit [CHR 0x5B] @ [PStar is_blank] @ rx_lit ([CHR 0x22] @ ''@ai-sdk/provider-utils@'')
     @ [POpen] @ rx_semver @ [PClose] @ rx_lit [CHR 0x22]"

definition puReExact :: regex where
  "puReExact = rx_lit ([CHR 0x22] @ ''opencode/'') @ puTail"

definition puReAny :: regex where
  "puReAny = rx_lit [CHR 0x22] @ [PStar (\<lambda>c. c \<noteq> CHR 0x22)] @ puTail"

definition packageManagerRe :: regex where
  "packageManagerRe = rx_lit ([CHR 0x22] @ ''packageManager'' @ [CHR 0x22]) @ [PStar is_blank] @ rx_lit '':'' @ [PStar is_blank]
     @ rx_lit ([CHR 0x22] @ ''bun@'') @ [POpen] @ rx_semver @ [PClose]"

definition v2TagRe :: regex where
  "v2TagRe = [POpt (rx_lit ''v''), POpen] @ rx_lit ''2.'' @ [PPlus is_digit] @ rx_lit ''.'' @ [PPlus is_digit, PClose, PEnd]"

datatype probe_error =
    PTransport string
  | PStatus int
  | PRead string
  | PTooLarge string
  | PDecode string
  | PNoSemver
  | PNoPin string
  | PNoChain string
  | PNoV2Tag

text \<open>A response: its status, the bytes its body yields, and the error the body ends with, if any.\<close>

record gh_response =
  gr_status :: int
  gr_body :: string
  gr_fail :: "string option"

text \<open>
  \<open>gh_get\<close> performs a GET; \<open>gh_tag\<close> and \<open>gh_names\<close> decode the first JSON value of a body into the
  structures with the fields \<^verbatim>\<open>tag_name\<close> and \<^verbatim>\<open>name\<close>.
\<close>

record gh_round =
  gh_get :: "string \<Rightarrow> string + gh_response"
  gh_tag :: "gh_response \<Rightarrow> string + string"
  gh_names :: "gh_response \<Rightarrow> string + string list"

definition maxRaw :: nat where
  "maxRaw = 4 * 2 ^ 20"

definition getOK :: "gh_round \<Rightarrow> string \<Rightarrow> probe_error + gh_response" where
  "getOK g url = (case gh_get g url of
     Inl e \<Rightarrow> Inl (PTransport e)
   | Inr r \<Rightarrow> if gr_status r \<noteq> 200 then Inl (PStatus (gr_status r)) else Inr r)"

definition fetchRaw :: "gh_round \<Rightarrow> string \<Rightarrow> string \<Rightarrow> probe_error + string" where
  "fetchRaw g tag path =
     (let url = ''https://raw.githubusercontent.com/anomalyco/opencode'' @ ''/v'' @ tag @ ''/'' @ path in
      case getOK g url of
        Inl e \<Rightarrow> Inl e
      | Inr r \<Rightarrow>
          if length (gr_body r) > maxRaw then Inl (PTooLarge url)
          else (case gr_fail r of Some e \<Rightarrow> Inl (PRead e) | None \<Rightarrow> Inr (gr_body r)))"

definition fetchLatestRelease :: "gh_round \<Rightarrow> probe_error + string" where
  "fetchLatestRelease g = (case getOK g ''https://api.github.com/repos/anomalyco/opencode/releases/latest'' of
     Inl e \<Rightarrow> Inl e
   | Inr r \<Rightarrow> (case gh_tag g r of
       Inl e \<Rightarrow> Inl (PDecode e)
     | Inr tag \<Rightarrow> (case rx_match TagRe tag of
         Some (m1 # _, _) \<Rightarrow> Inr m1
       | _ \<Rightarrow> Inl PNoSemver)))"

definition fetchBunVersion :: "gh_round \<Rightarrow> string \<Rightarrow> probe_error + string" where
  "fetchBunVersion g tag = (case fetchRaw g tag ''package.json'' of
     Inl e \<Rightarrow> Inl e
   | Inr raw \<Rightarrow> (case rx_search packageManagerRe raw of
       Some (m1 # _, _) \<Rightarrow> Inr m1
     | _ \<Rightarrow> Inl (PNoPin tag)))"

definition fetchProviderUtilsVersion :: "gh_round \<Rightarrow> string \<Rightarrow> probe_error + string" where
  "fetchProviderUtilsVersion g tag = (case fetchRaw g tag ''bun.lock'' of
     Inl e \<Rightarrow> Inl e
   | Inr raw \<Rightarrow> (case rx_search puReExact raw of
       Some (m1 # _, _) \<Rightarrow> Inr m1
     | _ \<Rightarrow> (case rx_search puReAny raw of
         Some (m1 # _, _) \<Rightarrow> Inr m1
       | _ \<Rightarrow> Inl (PNoChain tag))))"

definition fetchTriple :: "gh_round \<Rightarrow> probe_error + ua_triple" where
  "fetchTriple g = (case fetchLatestRelease g of
     Inl e \<Rightarrow> Inl e
   | Inr version \<Rightarrow> (case fetchBunVersion g version of
       Inl e \<Rightarrow> Inl e
     | Inr bun \<Rightarrow> (case fetchProviderUtilsVersion g version of
         Inl e \<Rightarrow> Inl e
       | Inr pu \<Rightarrow> Inr \<lparr>ut_opencode = version, ut_provider_utils = pu, ut_bun = bun\<rparr>)))"

fun firstV2 :: "string list \<Rightarrow> probe_error + string" where
  "firstV2 [] = Inl PNoV2Tag"
| "firstV2 (n # ns) = (case rx_match v2TagRe n of
     Some (m1 # _, _) \<Rightarrow> Inr (''opencode/latest/'' @ m1 @ ''/cli'')
   | _ \<Rightarrow> firstV2 ns)"

text \<open>The decoder reads at most \<open>maxRaw\<close> bytes of the tags list.\<close>

definition fetchV2Version :: "gh_round \<Rightarrow> probe_error + string" where
  "fetchV2Version g = (case getOK g ''https://api.github.com/repos/anomalyco/opencode/tags?per_page=100'' of
     Inl e \<Rightarrow> Inl e
   | Inr r \<Rightarrow>
       let limited = (if length (gr_body r) \<ge> maxRaw then r\<lparr>gr_body := take maxRaw (gr_body r), gr_fail := None\<rparr> else r) in
       (case gh_names g limited of Inl e \<Rightarrow> Inl (PDecode e) | Inr names \<Rightarrow> firstV2 names))"

record ua_dual =
  ud_v1 :: "ua_triple option"
  ud_v2 :: "string option"

definition fetchDual :: "gh_round \<Rightarrow> ua_dual" where
  "fetchDual g = \<lparr>ud_v1 = (case fetchTriple g of Inl _ \<Rightarrow> None | Inr t \<Rightarrow> Some t),
     ud_v2 = (case fetchV2Version g of Inl _ \<Rightarrow> None | Inr v \<Rightarrow> Some v)\<rparr>"

section \<open>The cache\<close>

text \<open>
  The style provider is called at each read; \<open>style\<close> is what it answers then. \<^verbatim>\<open>Warm\<close> holds the lock
  in two sections, before and after the probe.
\<close>

record ua_cache =
  uc_inflight :: bool
  uc_dual :: ua_dual
  uc_cached_at :: int

definition NewUserAgentCache :: ua_cache where
  "NewUserAgentCache = \<lparr>uc_inflight = False, uc_dual = \<lparr>ud_v1 = None, ud_v2 = None\<rparr>, uc_cached_at = 0\<rparr>"

definition VersionCacheTTL :: int where
  "VersionCacheTTL = 12 * 3600 * 1000000000"

definition uaLocked :: "string \<Rightarrow> ua_cache \<Rightarrow> string" where
  "uaLocked style c =
     (if style = ''v2'' then (case ud_v2 (uc_dual c) of Some v \<Rightarrow> v | None \<Rightarrow> FallbackV2)
      else (case ud_v1 (uc_dual c) of Some t \<Rightarrow> Compose t | None \<Rightarrow> FallbackUA))"

datatype warm_choice = WarmFresh | WarmBusy | WarmProbe

definition warmBegin :: "int \<Rightarrow> bool \<Rightarrow> ua_cache \<Rightarrow> warm_choice \<times> ua_cache" where
  "warmBegin now force c =
     (if \<not> force \<and> ud_v1 (uc_dual c) \<noteq> None \<and> now - uc_cached_at c < VersionCacheTTL then (WarmFresh, c)
      else if uc_inflight c then (WarmBusy, c)
      else (WarmProbe, c\<lparr>uc_inflight := True\<rparr>))"

definition warmEnd :: "int \<Rightarrow> ua_dual \<Rightarrow> ua_cache \<Rightarrow> ua_cache" where
  "warmEnd now dual c =
     (let c1 = c\<lparr>uc_inflight := False, uc_cached_at := now\<rparr>;
          c2 = (if ud_v1 dual \<noteq> None then c1\<lparr>uc_dual := (uc_dual c1)\<lparr>ud_v1 := ud_v1 dual\<rparr>\<rparr> else c1)
      in if ud_v2 dual \<noteq> None then c2\<lparr>uc_dual := (uc_dual c2)\<lparr>ud_v2 := ud_v2 dual\<rparr>\<rparr> else c2)"

text \<open>\<open>others\<close> is what other callers do to the cache while the lock is released.\<close>

definition Warm :: "(ua_cache \<Rightarrow> ua_cache) \<Rightarrow> gh_round \<Rightarrow> int \<Rightarrow> int \<Rightarrow> string \<Rightarrow> bool \<Rightarrow> ua_cache \<Rightarrow> string \<times> ua_cache" where
  "Warm others g now1 now2 style force c =
     (case warmBegin now1 force c of
        (WarmProbe, c1) \<Rightarrow> let c2 = warmEnd now2 (fetchDual g) (others c1) in (uaLocked style c2, c2)
      | (_, c1) \<Rightarrow> let c2 = others c1 in (uaLocked style c2, c2))"

section \<open>Matching versions\<close>

lemma rx_run_star_greedy:
  assumes "list_all P d" and "rx_run ps rest st caps = Some r" and "rest = [] \<or> \<not> P (hd rest)"
  shows "rx_run (PStar P # ps) (d @ rest) st caps = Some r"
  using assms(1)
proof (induction d)
  case Nil
  then show ?case using assms(2,3) by (cases rest) auto
qed simp

lemma rx_run_plus_greedy:
  assumes "list_all P d" and "d \<noteq> []" and "rx_run ps rest st caps = Some r" and "rest = [] \<or> \<not> P (hd rest)"
  shows "rx_run (PPlus P # ps) (d @ rest) st caps = Some r"
  using assms rx_run_star_greedy [of P "tl d" ps rest st caps r] by (cases d) auto

lemma rx_run_fold_self: "rx_run (rx_fold w @ ps) (w @ s) st caps = rx_run ps s st caps"
  by (induction w) (auto simp: rx_fold_def)

lemma decNat_digits: "list_all is_digit (decNat n)"
proof -
  have "digitVal c \<noteq> None \<Longrightarrow> is_digit c" for c
    by (auto simp: digitVal_def is_digit_def Let_def split: if_splits)
  then show ?thesis using set_decNat by (auto simp: list_all_iff)
qed

lemma is_digit_dot [simp]: "\<not> is_digit (CHR ''.'')"
  by code_simp

lemma UARe_version:
  "\<exists>caps rest. rx_match UARe (''opencode/'' @ decNat a @ ''.'' @ decNat b @ ''.'' @ decNat c @ CHR '' '' # t) =
     Some (decNat a # decNat b # caps, rest)"
proof -
  let ?s3 = "decNat c @ CHR '' '' # t"
  let ?s2 = "decNat b @ ''.'' @ ?s3"
  let ?s1 = "decNat a @ ''.'' @ ?s2"
  have sp: "\<not> is_digit (CHR '' '')" by code_simp
  have o3: "rx_run [POpen, PPlus is_digit, PClose] ?s3 ?s2 [decNat b, decNat a] = Some ([decNat a, decNat b, decNat c], CHR '' '' # t)"
    using rx_run_plus_greedy [where d = "decNat c" and rest = "CHR '' '' # t" and ps = "[PClose]" and st = ?s3 and caps = "[decNat b, decNat a]"] sp
    by (simp add: decNat_digits)
  have o2: "rx_run [POpt (rx_lit ''.'' @ [POpen, PPlus is_digit, PClose])] (''.'' @ ?s3) ?s2 [decNat b, decNat a]
      = Some ([decNat a, decNat b, decNat c], CHR '' '' # t)"
    using o3 rx_run_lit [of "''.''" "[POpen, PPlus is_digit, PClose]" "''.'' @ ?s3" ?s2 "[decNat b, decNat a]"]
    by (simp add: hasPrefix_iff)
  have p2: "rx_run [POpen, PPlus is_digit, PClose, POpt (rx_lit ''.'' @ [POpen, PPlus is_digit, PClose])] ?s2 ?s1 [decNat a]
      = Some ([decNat a, decNat b, decNat c], CHR '' '' # t)"
    using rx_run_plus_greedy [where d = "decNat b" and rest = "''.'' @ ?s3" and st = ?s2 and caps = "[decNat a]"
        and ps = "[PClose, POpt (rx_lit ''.'' @ [POpen, PPlus is_digit, PClose])]"] o2
    by (simp add: decNat_digits del: rx_run.simps(6))
  let ?tail = "[POpen, PPlus is_digit, PClose, POpt (rx_lit ''.'' @ [POpen, PPlus is_digit, PClose])]"
  have l1: "rx_run (rx_lit ''.'' @ ?tail) (''.'' @ ?s2) ?s1 [decNat a] = Some ([decNat a, decNat b, decNat c], CHR '' '' # t)"
    using p2 unfolding rx_run_lit by (simp add: hasPrefix_iff del: rx_run.simps)
  have c1: "rx_run (PClose # rx_lit ''.'' @ ?tail) (''.'' @ ?s2) ?s1 [] = Some ([decNat a, decNat b, decNat c], CHR '' '' # t)"
    using l1 unfolding rx_run.simps(8) by (simp del: rx_run.simps)
  have "rx_run (POpen # PPlus is_digit # PClose # rx_lit ''.'' @ ?tail) ?s1 [] [] = Some ([decNat a, decNat b, decNat c], CHR '' '' # t)"
    unfolding rx_run.simps(7) by (rule rx_run_plus_greedy [OF decNat_digits _ c1]) simp_all
  then have "rx_match UARe (''opencode/'' @ ?s1) = Some ([decNat a, decNat b, decNat c], CHR '' '' # t)"
    unfolding rx_match_def UARe_def rx_run_fold_self by (simp del: rx_run.simps)
  then show ?thesis by blast
qed

lemma rx_search_match: "rx_match ps s = Some r \<Longrightarrow> rx_search ps s = Some r"
  by (cases s) auto

lemma atoiDigits_decNat: "atoiDigits (decNat n) = min n (2 ^ 63 - 1)"
  by (simp add: atoiDigits_def)

text \<open>Where the first letter cannot start a match, the search moves on.\<close>

lemma UARe_skip: "lowerByte c \<noteq> CHR ''o'' \<Longrightarrow> rx_search UARe (c # cs) = rx_search UARe cs"
proof -
  assume "lowerByte c \<noteq> CHR ''o''"
  moreover have "lowerByte (CHR ''o'') = CHR ''o''" by code_simp
  ultimately have "rx_match UARe (c # cs) = None" by (simp add: rx_match_def UARe_def rx_fold_def)
  then show ?thesis by simp
qed

lemma UARe_skip_all: "list_all (\<lambda>c. lowerByte c \<noteq> CHR ''o'') w \<Longrightarrow> rx_search UARe (w @ s) = rx_search UARe s"
  by (induction w) (simp_all add: UARe_skip del: rx_search.simps)

lemma UARe_empty: "rx_search UARe [] = None"
  by (simp add: rx_match_def UARe_def rx_fold_def)

lemma v2_no_match:
  assumes "list_all (\<lambda>c. lowerByte c \<noteq> CHR ''o'') v"
  shows "rx_search UARe (''opencode/latest/'' @ v @ ''/cli'') = None"
proof -
  have m0: "rx_match UARe (''opencode/latest/'' @ x) = None" for x
  proof -
    have d: "\<not> is_digit (CHR ''l'')" by code_simp
    have "rx_match UARe (''opencode/'' @ ''latest/'' @ x) = None"
      unfolding rx_match_def UARe_def rx_run_fold_self by (simp add: d)
    then show ?thesis by simp
  qed
  have m4: "rx_match UARe (''ode/latest/'' @ x) = None" for x
  proof -
    have "lowerByte (CHR ''d'') \<noteq> lowerByte (CHR ''p'')" by code_simp
    then show ?thesis by (simp add: rx_match_def UARe_def rx_fold_def)
  qed
  have a: "list_all (\<lambda>c. lowerByte c \<noteq> CHR ''o'') ''penc''" by code_simp
  have b: "list_all (\<lambda>c. lowerByte c \<noteq> CHR ''o'') ''de/latest/''" by code_simp
  have c: "list_all (\<lambda>c. lowerByte c \<noteq> CHR ''o'') ''/cli''" by code_simp
  have "rx_search UARe (''opencode/latest/'' @ v @ ''/cli'') = rx_search UARe (''penc'' @ ''ode/latest/'' @ v @ ''/cli'')"
    using m0 by simp
  also have "\<dots> = rx_search UARe (''ode/latest/'' @ v @ ''/cli'')" by (rule UARe_skip_all [OF a])
  also have "\<dots> = rx_search UARe (''de/latest/'' @ v @ ''/cli'')" using m4 by simp
  also have "\<dots> = rx_search UARe (v @ ''/cli'')" by (rule UARe_skip_all [OF b])
  also have "\<dots> = rx_search UARe (''/cli'' @ [])" using UARe_skip_all [OF assms] by simp
  also have "\<dots> = None" unfolding UARe_skip_all [OF c] by (rule UARe_empty)
  finally show ?thesis .
qed

section \<open>Rounds\<close>

text \<open>
  The cache, the rounds under way and the rounds that ended, newest first.
\<close>

inductive ua_step :: "ua_cache \<times> gh_round list \<times> gh_round list \<Rightarrow> ua_cache \<times> gh_round list \<times> gh_round list \<Rightarrow> bool" where
  ua_begin: "warmBegin now force c = (WarmProbe, c') \<Longrightarrow> ua_step (c, ps, hist) (c', g # ps, hist)"
| ua_skip: "warmBegin now force c = (choice, c') \<Longrightarrow> choice \<noteq> WarmProbe \<Longrightarrow> ua_step (c, ps, hist) (c', ps, hist)"
| ua_end: "g \<in> set ps \<Longrightarrow> ua_step (c, ps, hist) (warmEnd now (fetchDual g) c, remove1 g ps, g # hist)"

inductive_cases ua_step_cases: "ua_step a b"

text \<open>The abstract cache: each form is the newest one a round resolved.\<close>

definition newestUA :: "string \<Rightarrow> gh_round list \<Rightarrow> string" where
  "newestUA style hist =
     (if style = ''v2'' then (case List.map_filter (\<lambda>g. ud_v2 (fetchDual g)) hist of v # _ \<Rightarrow> v | [] \<Rightarrow> FallbackV2)
      else (case List.map_filter (\<lambda>g. ud_v1 (fetchDual g)) hist of t # _ \<Rightarrow> Compose t | [] \<Rightarrow> FallbackUA))"

definition ua_ok :: "ua_cache \<times> gh_round list \<times> gh_round list \<Rightarrow> bool" where
  "ua_ok = (\<lambda>(c, ps, hist). length ps = (if uc_inflight c then 1 else 0) \<and>
     ud_v1 (uc_dual c) = (case List.map_filter (\<lambda>g. ud_v1 (fetchDual g)) hist of t # _ \<Rightarrow> Some t | [] \<Rightarrow> None) \<and>
     ud_v2 (uc_dual c) = (case List.map_filter (\<lambda>g. ud_v2 (fetchDual g)) hist of v # _ \<Rightarrow> Some v | [] \<Rightarrow> None))"

lemma warmEnd_fields:
  "uc_inflight (warmEnd now d c) = False"
  "ud_v1 (uc_dual (warmEnd now d c)) = (case ud_v1 d of None \<Rightarrow> ud_v1 (uc_dual c) | Some t \<Rightarrow> Some t)"
  "ud_v2 (uc_dual (warmEnd now d c)) = (case ud_v2 d of None \<Rightarrow> ud_v2 (uc_dual c) | Some v \<Rightarrow> Some v)"
  by (auto simp: warmEnd_def Let_def split: option.splits)

lemma ua_ok_step: "ua_step a b \<Longrightarrow> ua_ok a \<Longrightarrow> ua_ok b"
proof (induction rule: ua_step.induct)
  case (ua_begin now force c c' ps hist g)
  then show ?case by (auto simp: ua_ok_def warmBegin_def split: if_splits)
next
  case (ua_skip now force c choice c' ps hist)
  then have "c' = c" by (auto simp: warmBegin_def split: if_splits)
  with ua_skip show ?case by simp
next
  case (ua_end g ps c hist now)
  then have "ps = [g]" by (auto simp: ua_ok_def length_Suc_conv split: if_splits)
  with ua_end show ?case
    by (auto simp: ua_ok_def warmEnd_fields map_filter_simps split: option.splits)
qed

lemma ua_ok_reach: "ua_step\<^sup>*\<^sup>* (NewUserAgentCache, [], []) a \<Longrightarrow> ua_ok a"
  by (induction rule: rtranclp_induct) (auto simp: ua_ok_step, simp add: ua_ok_def NewUserAgentCache_def map_filter_simps)

text \<open>A failed first round leaves the release form empty: a later unforced refresh probes again.\<close>

lemma cold_cache_not_gated: "ud_v1 (uc_dual c) = None \<Longrightarrow> \<not> uc_inflight c \<Longrightarrow> fst (warmBegin now force c) = WarmProbe"
  by (simp add: warmBegin_def)

lemma v2_without_v1:
  "ud_v1 (uc_dual (warmEnd now \<lparr>ud_v1 = None, ud_v2 = Some v\<rparr> NewUserAgentCache)) = None \<and>
   ud_v2 (uc_dual (warmEnd now \<lparr>ud_v1 = None, ud_v2 = Some v\<rparr> NewUserAgentCache)) = Some v"
  by (simp add: warmEnd_fields NewUserAgentCache_def)

section \<open>Properties\<close>

text \<open>
  Composing and checking agree: a composed User-Agent of any release passes the version check exactly
  when the release is at least 1.18. The channel form of the 2.x clients never passes it, so the genuine
  User-Agent of such a client is replaced, not forwarded.
\<close>

theorem ua_version_check:
  "(HasValidVersion (Compose (t\<lparr>ut_opencode := decNat a @ ''.'' @ decNat b @ ''.'' @ decNat c\<rparr>)) \<longleftrightarrow> 1 < a \<or> (a = 1 \<and> 18 \<le> b)) \<and>
   \<not> HasValidVersion (''opencode/latest/'' @ decNat a @ ''.'' @ decNat b @ ''.'' @ decNat c @ ''/cli'')"
proof
  let ?rest = "''ai-sdk/provider-utils/'' @ ut_provider_utils t @ '' runtime/bun/'' @ ut_bun t"
  obtain caps rest where "rx_match UARe (''opencode/'' @ decNat a @ ''.'' @ decNat b @ ''.'' @ decNat c @ CHR '' '' # ?rest) =
      Some (decNat a # decNat b # caps, rest)" using UARe_version by blast
  from rx_search_match [OF this]
  have "rx_search UARe (Compose (t\<lparr>ut_opencode := decNat a @ ''.'' @ decNat b @ ''.'' @ decNat c\<rparr>)) =
      Some (decNat a # decNat b # caps, rest)" by (simp add: Compose_def del: rx_search.simps)
  then show "HasValidVersion (Compose (t\<lparr>ut_opencode := decNat a @ ''.'' @ decNat b @ ''.'' @ decNat c\<rparr>)) \<longleftrightarrow> 1 < a \<or> (a = 1 \<and> 18 \<le> b)"
    by (auto simp: HasValidVersion_def atoiDigits_decNat ClientMinMajor_def ClientMinMinor_def min_def)
next
  have "lowerByte c \<noteq> CHR ''o''" if "is_digit c" for c
    using that by (auto simp: is_digit_def lowerByte_def)
  then have "list_all (\<lambda>c. lowerByte c \<noteq> CHR ''o'') (decNat n)" for n using decNat_digits [of n] by (auto simp: list_all_iff)
  moreover have "lowerByte (CHR ''.'') \<noteq> CHR ''o''" by code_simp
  ultimately have "rx_search UARe (''opencode/latest/'' @ (decNat a @ ''.'' @ decNat b @ ''.'' @ decNat c) @ ''/cli'') = None"
    by (intro v2_no_match) simp
  then show "\<not> HasValidVersion (''opencode/latest/'' @ decNat a @ ''.'' @ decNat b @ ''.'' @ decNat c @ ''/cli'')"
    by (simp add: HasValidVersion_def del: rx_search.simps)
qed

text \<open>
  The cache implements the newest success: through any interleaving of refreshes, what a read returns
  in either style is the form resolved by the newest round that resolved it, each form by itself, or the
  compiled-in one before the first; and at most one round is under way.
\<close>

theorem ua_newest_success:
  assumes "ua_step\<^sup>*\<^sup>* (NewUserAgentCache, [], []) (c, ps, hist)"
  shows "uaLocked style c = newestUA style hist \<and> length ps \<le> 1"
  using ua_ok_reach [OF assms] by (auto simp: ua_ok_def uaLocked_def newestUA_def split: list.splits)

definition dead_round :: gh_round where
  "dead_round = \<lparr>gh_get = (\<lambda>_. Inl ''refused''), gh_tag = (\<lambda>_. Inl []), gh_names = (\<lambda>_. Inl [])\<rparr>"

theorem ua_newest_success_witness:
  "uaLocked ''v1'' (warmEnd 7 (fetchDual dead_round) (NewUserAgentCache\<lparr>uc_inflight := True\<rparr>)) = FallbackUA"
proof -
  let ?c1 = "NewUserAgentCache\<lparr>uc_inflight := True\<rparr>"
  have "ua_step (NewUserAgentCache, [], []) (?c1, [dead_round], [])"
    by (rule ua_begin [where now = 0 and force = True]) (simp add: warmBegin_def NewUserAgentCache_def)
  moreover have "ua_step (?c1, [dead_round], []) (warmEnd 7 (fetchDual dead_round) ?c1, remove1 dead_round [dead_round], [dead_round])"
    by (rule ua_end) simp
  ultimately have "ua_step\<^sup>*\<^sup>* (NewUserAgentCache, [], [])
      (warmEnd 7 (fetchDual dead_round) ?c1, remove1 dead_round [dead_round], [dead_round])" by simp
  from ua_newest_success [OF this, of "''v1''"] show ?thesis
    by (simp add: newestUA_def map_filter_simps fetchDual_def fetchTriple_def fetchLatestRelease_def getOK_def dead_round_def)
qed

end
