(* ===== verification/UpstreamRequest.thy ===== *)
theory UpstreamRequest
  imports Thinking SessionResolver UserAgent
begin

text \<open>
  The executor boundary (\<^verbatim>\<open>internal/upstream/executor.go\<close>): the body and the headers of the upstream
  request. The session is the resolver's, the User-Agent the cache's.
\<close>

definition MinMaxOutputTokens :: rat where
  "MinMaxOutputTokens = 16"

definition clampMaxOutput :: "num_env \<Rightarrow> json \<Rightarrow> json" where
  "clampMaxOutput N v =
     (let n = NumCoerce N v in
      if n = PInf then JNull
      else if f_lt n (Fin MinMaxOutputTokens) then JNum (Fin MinMaxOutputTokens)
      else JNum n)"

definition jsonTruthy :: "json \<Rightarrow> bool" where
  "jsonTruthy v = (case v of
     JNull \<Rightarrow> False | JStr s \<Rightarrow> s \<noteq> [] | JBool b \<Rightarrow> b | JNum n \<Rightarrow> n \<noteq> Fin 0 | _ \<Rightarrow> True)"

text \<open>The branches of the transformation, in the order the code takes them.\<close>

definition responsesToolChoice :: "string \<Rightarrow> jmap \<Rightarrow> jmap" where
  "responsesToolChoice model body =
     (if has body ''tool_choice'' \<and> mget body ''tool_choice'' \<noteq> JStr ''auto'' \<and> BaseModelID model \<in> set ForceAutoToolChoiceModels
      then gm_set ''tool_choice'' (JStr ''auto'') body else body)"

definition responsesInput :: "jmap \<Rightarrow> jmap" where
  "responsesInput body =
     (let b1 = (case NormalizeResponsesInput (mget body ''input'') of
            Some v \<Rightarrow> gm_set ''input'' (JArr v) body | None \<Rightarrow> body)
      in if (case mget b1 ''input'' of JArr v \<Rightarrow> v = [] | _ \<Rightarrow> True)
         then gm_set ''input'' (JArr [userMessage ''...'']) b1 else b1)"

definition responsesTokens :: "num_env \<Rightarrow> jmap \<Rightarrow> jmap" where
  "responsesTokens N body =
     (let b1 = (if has body ''max_output_tokens'' then body
                else if has body ''max_completion_tokens'' then gm_set ''max_output_tokens'' (mget body ''max_completion_tokens'') body
                else if has body ''max_tokens'' then gm_set ''max_output_tokens'' (mget body ''max_tokens'') body
                else body);
          b2 = gm_del ''max_completion_tokens'' (gm_del ''max_tokens'' b1)
      in if has b2 ''max_output_tokens'' then gm_set ''max_output_tokens'' (clampMaxOutput N (mget b2 ''max_output_tokens'')) b2 else b2)"

record xform_env =
  xf_num :: num_env
  xf_lower :: "string \<Rightarrow> string"
  xf_codec :: codec
  xf_clk :: "int \<Rightarrow> int"

definition TransformRequest :: "xform_env \<Rightarrow> string \<Rightarrow> jmap \<Rightarrow> int \<Rightarrow> jmap \<times> int" where
  "TransformRequest env model body seq =
     (let b1 = (if model \<noteq> [] \<and> \<not> jsonTruthy (mget body ''model'') then gm_set ''model'' (JStr model) body else body);
          b2 = gm_set ''stream'' (JBool True) b1;
          (b3, seq1) =
            (if IsResponsesModel model then
               let c1 = responsesTokens (xf_num env) (responsesInput (responsesToolChoice model b2));
                   c2 = gm_set ''store'' (JBool False) (NormalizeOpencodeReasoning (xf_lower env) c1);
                   c3 = NormalizeResponsesTools (xf_codec env) (EnsureResponsesFingerprintTools c2)
               in SanitizeResponsesItems (xf_codec env) (xf_clk env) c3 seq
             else (EnsureChatFingerprintTools b2, seq))
      in (InjectReasoningContent model b3, seq1))"

definition BuildURL :: "string \<Rightarrow> string \<Rightarrow> string" where
  "BuildURL upstreamBase model = URL upstreamBase model"

definition passThrough :: "headers \<Rightarrow> string \<Rightarrow> headers \<Rightarrow> headers" where
  "passThrough d k h = (case gm_get d k of None \<Rightarrow> h | Some v \<Rightarrow> if v \<noteq> [] then gm_set k v h else h)"

definition BuildHeaders :: "draw \<Rightarrow> headers \<Rightarrow> string \<Rightarrow> string \<Rightarrow> headers" where
  "BuildHeaders dr d session cachedUA =
     (let h = [(''Content-Type'', ''application/json''), (''Authorization'', ''Bearer public''), (''x-opencode-client'', ''desktop''),
          (''x-opencode-session'', session), (''x-opencode-session-id'', session), (''x-session-affinity'', session),
          (''x-session-id'', session),
          (''x-opencode-request-id'', GenerateRequestID (unixMilli (dr_now dr)) (dr_rnd14 dr)),
          (''x-opencode-project'', ''global''), (''Accept'', ''text/event-stream'')];
          ua = header d ''user-agent'';
          h1 = gm_set ''User-Agent'' (if HasValidVersion ua then ua else cachedUA) h
      in passThrough d ''x-opencode-project'' (passThrough d ''x-opencode-request-id'' (passThrough d ''x-opencode-client'' h1)))"

definition StripContinuityFields :: "jmap \<Rightarrow> jmap" where
  "StripContinuityFields body = (case mget body ''messages'' of
     JArr ms \<Rightarrow> gm_set ''messages'' (JArr (map (\<lambda>raw. case raw of
         JObj msg \<Rightarrow> JObj (gm_del ''reasoning_encrypted_content'' (gm_del ''encrypted_content'' msg)) | _ \<Rightarrow> raw) ms)) body
   | _ \<Rightarrow> body)"

definition PrepareRequest ::
  "session_env \<Rightarrow> xform_env \<Rightarrow> draw \<Rightarrow> string \<Rightarrow> jmap \<Rightarrow> headers \<Rightarrow> id_stores \<Rightarrow> int \<Rightarrow> string \<times> jmap \<times> id_stores \<times> int" where
  "PrepareRequest senv env dr model body d ss seq =
     (let b1 = StripContinuityFields body;
          (session, ss1) = ResolveSession senv dr b1 d ss;
          (b2, seq1) = TransformRequest env model b1 seq
      in (session, b2, ss1, seq1))"

text \<open>The client headers the router keeps for the executor (\<^verbatim>\<open>captureDownstream\<close> of \<^verbatim>\<open>router/handler.go\<close>), by lower-case name.\<close>

definition capturedNames :: "string list" where
  "capturedNames = [''user-agent'', ''x-opencode-client'', ''x-opencode-session'', ''x-opencode-request-id'', ''x-opencode-project'',
     ''x-session-id'', ''session-id'', ''session_id'', ''x-amp-thread-id'', ''x-claude-code-session-id'', ''x-client-request-id'', ''x-app'']"

definition captureDownstream :: "(string \<Rightarrow> string) \<Rightarrow> headers" where
  "captureDownstream get = fold (\<lambda>n h. if get n \<noteq> [] then gm_set n (get n) h else h) capturedNames []"

section \<open>Which keys each stage touches\<close>

lemma inject_reads: "k \<noteq> ''messages'' \<Longrightarrow> mget (InjectReasoningContent model b) k = mget b k \<and> (has (InjectReasoningContent model b) k \<longleftrightarrow> has b k)"
  by (auto simp: InjectReasoningContent_def map_reads split: json.splits)

lemma sanitize_reads: "k \<noteq> ''input'' \<Longrightarrow> mget (fst (SanitizeResponsesItems co clk b seq)) k = mget b k \<and>
    (has (fst (SanitizeResponsesItems co clk b seq)) k \<longleftrightarrow> has b k)"
  by (auto simp: SanitizeResponsesItems_def map_reads split: json.splits prod.splits)

lemma normtools_reads: "k \<noteq> ''tools'' \<Longrightarrow> k \<noteq> ''tool_choice'' \<Longrightarrow> mget (NormalizeResponsesTools co b) k = mget b k \<and>
    (has (NormalizeResponsesTools co b) k \<longleftrightarrow> has b k)"
  by (simp add: NormalizeResponsesTools_def map_reads Let_def split: json.splits)

lemma ensure_responses_reads: "k \<noteq> ''tools'' \<Longrightarrow> k \<noteq> ''tool_choice'' \<Longrightarrow> mget (EnsureResponsesFingerprintTools b) k = mget b k \<and>
    (has (EnsureResponsesFingerprintTools b) k \<longleftrightarrow> has b k)"
  by (simp add: EnsureResponsesFingerprintTools_def map_reads Let_def)

lemma ensure_chat_reads: "k \<noteq> ''tools'' \<Longrightarrow> k \<noteq> ''tool_choice'' \<Longrightarrow> mget (EnsureChatFingerprintTools b) k = mget b k"
  by (simp add: EnsureChatFingerprintTools_def map_reads Let_def)

lemma reasoning_reads: "k \<noteq> ''reasoning'' \<Longrightarrow> k \<noteq> ''reasoning_effort'' \<Longrightarrow> mget (NormalizeOpencodeReasoning lw b) k = mget b k \<and>
    (has (NormalizeOpencodeReasoning lw b) k \<longleftrightarrow> has b k)"
  by (simp add: NormalizeOpencodeReasoning_def map_reads Let_def split: option.splits)

section \<open>The quartet\<close>

lemma appendMissing_keeps: "set tools \<subseteq> set (appendMissing mk ns present tools)"
  by (induction mk ns present tools rule: appendMissing.induct) auto

lemma appendMissing_names:
  assumes "list_all (\<lambda>n. toolNameOf (mk n) = n) ns" and "set present \<subseteq> toolNameOf ` set tools"
  shows "set ns \<subseteq> toolNameOf ` set (appendMissing mk ns present tools)"
  using assms
proof (induction mk ns present tools rule: appendMissing.induct)
  case (2 mk n ns present tools)
  show ?case
  proof (cases "n \<in> set present")
    case True
    then have "n \<in> toolNameOf ` set tools" using 2(4) by blast
    then have "n \<in> toolNameOf ` set (appendMissing mk ns present tools)"
      using appendMissing_keeps [of tools mk ns present] by blast
    with True 2 show ?thesis by simp
  next
    case False
    have "set (n # present) \<subseteq> toolNameOf ` set (tools @ [mk n])" using 2(3,4) by auto
    with 2(2) [OF False] 2(3) have "set ns \<subseteq> toolNameOf ` set (appendMissing mk ns (n # present) (tools @ [mk n]))" by simp
    moreover have "mk n \<in> set (appendMissing mk ns (n # present) (tools @ [mk n]))" using appendMissing_keeps by fastforce
    ultimately show ?thesis using False 2(3) by (auto simp: image_iff) (metis)
  qed
qed simp

lemma fingerprint_trim: "list_all (\<lambda>n. n \<noteq> [] \<and> trimSpace n = n \<and> length n \<le> 128) FingerprintTools"
proof -
  have "list_all (\<lambda>n. n \<noteq> [] \<and> printable (hd n) \<and> printable (last n) \<and> length n \<le> 128) FingerprintTools" by code_simp
  then show ?thesis by (auto simp: list_all_iff trimSpace_id)
qed

lemma chat_tool_name: "n \<in> set FingerprintTools \<Longrightarrow> toolNameOf (fingerprintToolChat n) = n"
proof -
  assume "n \<in> set FingerprintTools"
  then have "trimSpace n = n" using fingerprint_trim by (auto simp: list_all_iff)
  then show ?thesis by (simp add: toolNameOf_def fingerprintToolChat_def ObjOf_def asObj_def asStr_def mget_def Get_def)
qed

lemma responses_tool_name: "n \<in> set FingerprintTools \<Longrightarrow> toolNameOf (fingerprintToolResponses n) = n"
proof -
  assume "n \<in> set FingerprintTools"
  then have "trimSpace n = n" "n \<noteq> []" using fingerprint_trim by (auto simp: list_all_iff)
  then show ?thesis by (simp add: toolNameOf_def fingerprintToolResponses_def ObjOf_def asObj_def asStr_def mget_def Get_def)
qed

definition quartet :: "jmap \<Rightarrow> bool" where
  "quartet b \<longleftrightarrow> (\<exists>ts. mget b ''tools'' = JArr ts \<and> set FingerprintTools \<subseteq> toolNameOf ` set ts)"

lemma toolNames_sub: "set (toolNames ts) \<subseteq> toolNameOf ` set ts"
  by (auto simp: toolNames_def)

lemma ensure_chat_quartet: "quartet (EnsureChatFingerprintTools b)"
proof -
  have "list_all (\<lambda>n. toolNameOf (fingerprintToolChat n) = n) FingerprintTools" by (simp add: list_all_iff chat_tool_name)
  from appendMissing_names [OF this toolNames_sub] show ?thesis
    by (simp add: quartet_def EnsureChatFingerprintTools_def Let_def mget_gm_set)
qed

lemma ensure_responses_quartet: "quartet (EnsureResponsesFingerprintTools b)"
proof -
  have "list_all (\<lambda>n. toolNameOf (fingerprintToolResponses n) = n) FingerprintTools" by (simp add: list_all_iff responses_tool_name)
  from appendMissing_names [OF this toolNames_sub] show ?thesis
    by (simp add: quartet_def EnsureResponsesFingerprintTools_def Let_def mget_gm_set)
qed

text \<open>A flat tool, as the Responses endpoint takes it.\<close>

definition flat_ok :: "json \<Rightarrow> bool" where
  "flat_ok t \<longleftrightarrow> (\<exists>m. t = JObj m \<and> mget m ''type'' = JStr ''function'' \<and>
     (\<exists>n. mget m ''name'' = JStr n \<and> n \<noteq> [] \<and> length n \<le> MaxToolNameLen) \<and> (\<exists>p. mget m ''parameters'' = JObj p))"

lemma flatTool_ok: "flatTool co t = Some f \<Longrightarrow> flat_ok (JObj f)"
  by (auto simp: flatTool_def Let_def flat_ok_def map_reads mget_Cons MaxToolNameLen_def split: option.splits if_splits)

definition flatName :: "jmap \<Rightarrow> string" where
  "flatName o1 = (let name0 = trimSpace (asStr (mget o1 ''name'')) in
     if name0 = [] then (case asObj (mget o1 ''function'') of None \<Rightarrow> [] | Some f \<Rightarrow> trimSpace (asStr (mget f ''name''))) else name0)"

lemma flatTool_flatName: "flatName o1 \<noteq> [] \<Longrightarrow> \<exists>d p. flatTool co (JObj o1) = Some (gm_set ''parameters'' p (if d \<noteq> []
    then gm_set ''description'' (JStr d) [(''type'', JStr ''function''), (''name'', JStr (take MaxToolNameLen (flatName o1)))]
    else [(''type'', JStr ''function''), (''name'', JStr (take MaxToolNameLen (flatName o1)))]))"
  unfolding flatTool_def asObj_def json.case option.case Let_def flatName_def [unfolded asObj_def Let_def, symmetric]
  by (simp only: if_False) blast

lemma toolNameOf_flatName:
  assumes "toolNameOf (JObj o1) = n" and "n \<noteq> []"
  shows "flatName o1 = n"
proof (cases "asStr (mget o1 ''name'') = []")
  case True
  have te: "trimSpace [] = []" by code_simp
  from True assms show ?thesis
    by (cases "mget o1 ''function''") (simp_all add: toolNameOf_def flatName_def asObj_def Get_def asStr_def te Let_def)
next
  case False
  with assms show ?thesis by (simp add: toolNameOf_def flatName_def asObj_def Let_def)
qed

lemma flatTool_name:
  assumes "toolNameOf t = n" and "n \<in> set FingerprintTools"
  shows "\<exists>f. flatTool co t = Some f \<and> toolNameOf (JObj f) = n"
proof -
  have n: "n \<noteq> []" "trimSpace n = n" "length n \<le> 128" using fingerprint_trim assms(2) by (auto simp: list_all_iff)
  then obtain o1 where t: "t = JObj o1" using assms(1) by (cases t) (simp_all add: toolNameOf_def asObj_def)
  have nm: "flatName o1 = n" using assms(1) n(1) unfolding t by (rule toolNameOf_flatName)
  from flatTool_flatName [of o1 co] nm n(1)
  obtain d p where f: "flatTool co t = Some (gm_set ''parameters'' p (if d \<noteq> []
      then gm_set ''description'' (JStr d) [(''type'', JStr ''function''), (''name'', JStr (take MaxToolNameLen n))]
      else [(''type'', JStr ''function''), (''name'', JStr (take MaxToolNameLen n))]))" unfolding t by auto
  have tk: "take MaxToolNameLen n = n" using n(3) by (simp add: MaxToolNameLen_def)
  show ?thesis using n(1,2) unfolding f tk
    by (cases "d = []") (simp_all add: toolNameOf_def asObj_def asStr_def mget_Cons)
qed

lemma normtools_tools:
  assumes "mget b ''tools'' = JArr ts"
  shows "mget (NormalizeResponsesTools co b) ''tools'' = JArr (map JObj (List.map_filter (flatTool co) ts))"
  using assms by (simp add: NormalizeResponsesTools_def Let_def map_reads split: json.splits)

lemma normtools_quartet: "quartet b \<Longrightarrow> quartet (NormalizeResponsesTools co b) \<and>
    (\<exists>ts. mget (NormalizeResponsesTools co b) ''tools'' = JArr ts \<and> list_all flat_ok ts)"
proof -
  assume "quartet b"
  then obtain ts where ts: "mget b ''tools'' = JArr ts" "set FingerprintTools \<subseteq> toolNameOf ` set ts" by (auto simp: quartet_def)
  let ?fs = "List.map_filter (flatTool co) ts"
  have "n \<in> toolNameOf ` set (map JObj ?fs)" if n: "n \<in> set FingerprintTools" for n
  proof -
    obtain t where "t \<in> set ts" "toolNameOf t = n" using ts(2) n by auto
    with flatTool_name [OF this(2) n, of co] obtain f where "flatTool co t = Some f" "toolNameOf (JObj f) = n" by blast
    with \<open>t \<in> set ts\<close> show ?thesis by (force simp: map_filter_def)
  qed
  moreover have "list_all flat_ok (map JObj ?fs)" by (auto simp: list_all_iff map_filter_def dest: flatTool_ok)
  ultimately show ?thesis using normtools_tools [OF ts(1), of co] by (auto simp: quartet_def)
qed

section \<open>The token cap\<close>

definition cap_ok :: "jmap \<Rightarrow> bool" where
  "cap_ok b \<longleftrightarrow> \<not> has b ''max_tokens'' \<and> \<not> has b ''max_completion_tokens'' \<and>
     (case mget b ''max_output_tokens'' of JNull \<Rightarrow> True | JNum x \<Rightarrow> \<not> f_lt x (Fin 16) | _ \<Rightarrow> False)"

lemma clamp_ok: "case clampMaxOutput N v of JNull \<Rightarrow> True | JNum x \<Rightarrow> \<not> f_lt x (Fin 16) | _ \<Rightarrow> False"
  by (simp add: clampMaxOutput_def Let_def MinMaxOutputTokens_def)

lemma tokens_cap: "cap_ok (responsesTokens N b)"
proof -
  define b2 where "b2 = gm_del ''max_completion_tokens'' (gm_del ''max_tokens'' (if has b ''max_output_tokens'' then b
      else if has b ''max_completion_tokens'' then gm_set ''max_output_tokens'' (mget b ''max_completion_tokens'') b
      else if has b ''max_tokens'' then gm_set ''max_output_tokens'' (mget b ''max_tokens'') b else b))"
  have r: "responsesTokens N b = (if has b2 ''max_output_tokens''
      then gm_set ''max_output_tokens'' (clampMaxOutput N (mget b2 ''max_output_tokens'')) b2 else b2)"
    by (simp add: responsesTokens_def b2_def Let_def)
  have n: "\<not> has b2 ''max_tokens''" "\<not> has b2 ''max_completion_tokens''" by (simp_all add: b2_def has_gm_del)
  show ?thesis
  proof (cases "has b2 ''max_output_tokens''")
    case True
    with n clamp_ok [of N "mget b2 ''max_output_tokens''"] show ?thesis by (simp add: cap_ok_def r map_reads)
  next
    case False
    then have "mget b2 ''max_output_tokens'' = JNull" by (simp add: has_def mget_def)
    with n False show ?thesis by (simp add: cap_ok_def r)
  qed
qed

lemma cap_ok_cong:
  assumes "\<And>k. k \<in> {''max_tokens'', ''max_completion_tokens'', ''max_output_tokens''} \<Longrightarrow> mget b' k = mget b k \<and> (has b' k \<longleftrightarrow> has b k)"
    and "cap_ok b"
  shows "cap_ok b'"
  using assms by (simp add: cap_ok_def)

lemma choice_reads: "k \<noteq> ''tool_choice'' \<Longrightarrow> mget (responsesToolChoice model b) k = mget b k"
  by (simp add: responsesToolChoice_def mget_gm_set)

lemma input_reads: "k \<noteq> ''input'' \<Longrightarrow> mget (responsesInput b) k = mget b k"
  by (cases "NormalizeResponsesInput (mget b ''input'')") (simp_all add: responsesInput_def mget_gm_set Let_def)

lemma tokens_reads: "k \<notin> {''max_tokens'', ''max_completion_tokens'', ''max_output_tokens''} \<Longrightarrow> mget (responsesTokens N b) k = mget b k"
  by (simp add: responsesTokens_def map_reads Let_def)

lemma stream_kept: "mget (responsesTokens N (responsesInput (responsesToolChoice model b))) ''stream'' = mget b ''stream''"
  by (simp add: tokens_reads input_reads choice_reads)

definition responsesBody :: "xform_env \<Rightarrow> string \<Rightarrow> jmap \<Rightarrow> jmap" where
  "responsesBody env model b = NormalizeResponsesTools (xf_codec env) (EnsureResponsesFingerprintTools
     (gm_set ''store'' (JBool False) (NormalizeOpencodeReasoning (xf_lower env)
        (responsesTokens (xf_num env) (responsesInput (responsesToolChoice model b))))))"

lemma responsesBody_reads:
  assumes "k \<notin> {''tools'', ''tool_choice'', ''store'', ''reasoning'', ''reasoning_effort''}"
  shows "mget (responsesBody env model b) k = mget (responsesTokens (xf_num env) (responsesInput (responsesToolChoice model b))) k \<and>
    (has (responsesBody env model b) k \<longleftrightarrow> has (responsesTokens (xf_num env) (responsesInput (responsesToolChoice model b))) k)"
  using assms by (simp add: responsesBody_def normtools_reads ensure_responses_reads map_reads reasoning_reads)

lemma responsesBody_ok:
  "quartet (responsesBody env model b) \<and> (\<exists>ts. mget (responsesBody env model b) ''tools'' = JArr ts \<and> list_all flat_ok ts) \<and>
   cap_ok (responsesBody env model b) \<and> mget (responsesBody env model b) ''store'' = JBool False \<and>
   mget (responsesBody env model b) ''stream'' = mget b ''stream''"
proof -
  have t: "quartet (responsesBody env model b) \<and> (\<exists>ts. mget (responsesBody env model b) ''tools'' = JArr ts \<and> list_all flat_ok ts)"
    unfolding responsesBody_def by (rule normtools_quartet [OF ensure_responses_quartet])
  have c: "cap_ok (responsesBody env model b)"
    by (rule cap_ok_cong [OF _ tokens_cap]) (rule responsesBody_reads, auto)
  have "mget (responsesBody env model b) ''store'' = JBool False"
    by (simp add: responsesBody_def normtools_reads ensure_responses_reads map_reads)
  moreover have "mget (responsesBody env model b) ''stream'' = mget b ''stream''"
    using responsesBody_reads [of "''stream''" env model b] stream_kept [of "xf_num env" model b] by simp
  ultimately show ?thesis using t c by blast
qed

definition baseBody :: "string \<Rightarrow> jmap \<Rightarrow> jmap" where
  "baseBody model body = gm_set ''stream'' (JBool True)
     (if model \<noteq> [] \<and> \<not> jsonTruthy (mget body ''model'') then gm_set ''model'' (JStr model) body else body)"

lemma baseBody_stream: "mget (baseBody model body) ''stream'' = JBool True"
  by (simp add: baseBody_def mget_gm_set)

lemma TransformRequest_responses:
  assumes "IsResponsesModel model"
  shows "fst (TransformRequest env model body seq) = InjectReasoningContent model
     (fst (SanitizeResponsesItems (xf_codec env) (xf_clk env) (responsesBody env model (baseBody model body)) seq))"
  unfolding TransformRequest_def Let_def baseBody_def [symmetric] responsesBody_def [symmetric] if_P [OF assms]
  by (simp add: split_beta)

lemma TransformRequest_chat:
  assumes "\<not> IsResponsesModel model"
  shows "fst (TransformRequest env model body seq) = InjectReasoningContent model (EnsureChatFingerprintTools (baseBody model body))"
  unfolding TransformRequest_def Let_def baseBody_def [symmetric] if_not_P [OF assms] by simp

lemma tokens_has: "k \<notin> {''max_tokens'', ''max_completion_tokens'', ''max_output_tokens''} \<Longrightarrow> has (responsesTokens N b) k \<longleftrightarrow> has b k"
  by (simp add: responsesTokens_def map_reads Let_def)

lemma input_has: "k \<noteq> ''input'' \<Longrightarrow> has (responsesInput b) k \<longleftrightarrow> has b k"
  by (cases "NormalizeResponsesInput (mget b ''input'')") (simp_all add: responsesInput_def has_gm_set Let_def)

lemma choice_has: "k \<noteq> ''tool_choice'' \<Longrightarrow> has (responsesToolChoice model b) k \<longleftrightarrow> has b k"
  by (simp add: responsesToolChoice_def has_gm_set)

lemma ensure_chat_has: "k \<noteq> ''tools'' \<Longrightarrow> k \<noteq> ''tool_choice'' \<Longrightarrow> has (EnsureChatFingerprintTools b) k \<longleftrightarrow> has b k"
  by (simp add: EnsureChatFingerprintTools_def map_reads Let_def)

lemma base_has: "k \<noteq> ''model'' \<Longrightarrow> k \<noteq> ''stream'' \<Longrightarrow> has (baseBody model b) k \<longleftrightarrow> has b k"
  by (simp add: baseBody_def has_gm_set)

lemma base_reads: "k \<noteq> ''model'' \<Longrightarrow> k \<noteq> ''stream'' \<Longrightarrow> mget (baseBody model b) k = mget b k"
  by (simp add: baseBody_def mget_gm_set)

text \<open>The keys the transformation never touches, for both endpoints and for the chat endpoint alone.\<close>

definition transformKeys :: "string list" where
  "transformKeys = [''model'', ''stream'', ''messages'', ''tools'', ''tool_choice'', ''input'', ''max_tokens'', ''max_completion_tokens'',
     ''max_output_tokens'', ''store'', ''reasoning'', ''reasoning_effort'']"

lemma transform_has:
  assumes "k \<notin> set transformKeys"
  shows "has (fst (TransformRequest env model b seq)) k \<longleftrightarrow> has b k"
proof (cases "IsResponsesModel model")
  case True
  with assms show ?thesis
    using responsesBody_reads [of k env model "baseBody model b"]
    by (simp add: TransformRequest_responses inject_reads sanitize_reads tokens_has input_has choice_has base_has transformKeys_def)
next
  case False
  with assms show ?thesis by (simp add: TransformRequest_chat inject_reads ensure_chat_has base_has transformKeys_def)
qed

lemma transform_chat_reads:
  assumes "\<not> IsResponsesModel model" and "k \<notin> {''model'', ''stream'', ''messages'', ''tools'', ''tool_choice''}"
  shows "mget (fst (TransformRequest env model b seq)) k = mget b k"
    and "has (fst (TransformRequest env model b seq)) k \<longleftrightarrow> has b k"
  using assms by (simp_all add: TransformRequest_chat inject_reads ensure_chat_reads ensure_chat_has base_has base_reads)

lemma transform_model:
  assumes "jsonTruthy (mget b ''model'')"
  shows "mget (fst (TransformRequest env model b seq)) ''model'' = mget b ''model''"
proof -
  have m: "mget (baseBody model b) ''model'' = mget b ''model''" using assms by (simp add: baseBody_def mget_gm_set)
  show ?thesis
  proof (cases "IsResponsesModel model")
    case True
    then show ?thesis using responsesBody_reads [of "''model''" env model "baseBody model b"]
      by (simp add: TransformRequest_responses inject_reads sanitize_reads tokens_reads input_reads choice_reads m)
  next
    case False
    then show ?thesis by (simp add: TransformRequest_chat inject_reads ensure_chat_reads m)
  qed
qed

lemma body_conforms:
  "mget (fst (TransformRequest env model body seq)) ''stream'' = JBool True \<and> quartet (fst (TransformRequest env model body seq)) \<and>
   (IsResponsesModel model \<longrightarrow>
      (\<exists>ts. mget (fst (TransformRequest env model body seq)) ''tools'' = JArr ts \<and> list_all flat_ok ts) \<and>
      cap_ok (fst (TransformRequest env model body seq)) \<and> mget (fst (TransformRequest env model body seq)) ''store'' = JBool False)"
proof (cases "IsResponsesModel model")
  case True
  let ?r = "responsesBody env model (baseBody model body)" and ?f = "fst (TransformRequest env model body seq)"
  have k: "mget ?f k = mget ?r k \<and> (has ?f k \<longleftrightarrow> has ?r k)" if "k \<noteq> ''messages''" "k \<noteq> ''input''" for k
    unfolding TransformRequest_responses [OF True] using that by (simp add: inject_reads sanitize_reads)
  have "cap_ok ?f" by (rule cap_ok_cong [where b = ?r]) (auto simp: k responsesBody_ok)
  then show ?thesis using responsesBody_ok [of env model "baseBody model body"] by (simp add: k quartet_def baseBody_stream)
next
  case False
  then show ?thesis using ensure_chat_quartet [of "baseBody model body"]
    by (simp add: TransformRequest_chat quartet_def inject_reads ensure_chat_reads baseBody_stream)
qed

section \<open>Properties\<close>

text \<open>
  Every upstream body conforms to what the free-tier gate and the endpoint demand, whatever the
  client sent: it streams; it declares the four tools of the official client; and for a model of the
  Responses endpoint every tool is flat, named within the limit and parameterised by an object, the
  output cap is under its Responses name only and at least 16, and nothing is stored.
\<close>

theorem upstream_body_conforms:
  "mget (fst (TransformRequest env model body seq)) ''stream'' = JBool True \<and> quartet (fst (TransformRequest env model body seq)) \<and>
   (IsResponsesModel model \<longrightarrow>
      (\<exists>ts. mget (fst (TransformRequest env model body seq)) ''tools'' = JArr ts \<and> list_all flat_ok ts) \<and>
      cap_ok (fst (TransformRequest env model body seq)) \<and> mget (fst (TransformRequest env model body seq)) ''store'' = JBool False)"
  by (rule body_conforms)

definition sample_xform :: xform_env where
  "sample_xform = \<lparr>xf_num = exact_env, xf_lower = (\<lambda>s. s),
     xf_codec = \<lparr>co_encode = (\<lambda>_. None), co_decode = (\<lambda>_. None), co_valid = (\<lambda>_. False), co_sprint = (\<lambda>_. [])\<rparr>, xf_clk = (\<lambda>_. 0)\<rparr>"

lemma muse_is_responses: "IsResponsesModel ''muse-spark-1''"
  by code_simp

theorem upstream_body_conforms_witness:
  "cap_ok (fst (TransformRequest sample_xform ''muse-spark-1'' [(''max_tokens'', JNum (Fin 3))] 0))"
  using upstream_body_conforms [of sample_xform "''muse-spark-1''" "[(''max_tokens'', JNum (Fin 3))]" 0] muse_is_responses by simp

text \<open>
  The default user message is inserted before the reasoning items are dropped: an input of reasoning
  items only reaches the upstream empty.
\<close>

lemma reasoning_only_input_is_sent_empty:
  "mget (fst (TransformRequest sample_xform ''muse-spark-1'' [(''input'', JArr [JObj [(''type'', JStr ''reasoning'')]])] 0)) ''input'' = JArr []"
proof -
  let ?in = "[JObj [(''type'', JStr ''reasoning'')]]"
  let ?b0 = "baseBody ''muse-spark-1'' [(''input'', JArr ?in)]"
  have b0: "mget ?b0 ''input'' = JArr ?in" by (simp add: baseBody_def map_reads mget_Cons)
  have "mget (responsesInput (responsesToolChoice ''muse-spark-1'' ?b0)) ''input'' = JArr ?in"
    by (simp add: responsesInput_def choice_reads b0 NormalizeResponsesInput_def Let_def mget_gm_set)
  then have "mget (responsesBody sample_xform ''muse-spark-1'' ?b0) ''input'' = JArr ?in"
    using responsesBody_reads [of "''input''" sample_xform "''muse-spark-1''" ?b0] by (simp add: tokens_reads)
  then have "mget (fst (SanitizeResponsesItems (xf_codec sample_xform) (xf_clk sample_xform) (responsesBody sample_xform ''muse-spark-1'' ?b0) 0)) ''input'' = JArr []"
    by (simp add: SanitizeResponsesItems_def sanitizeItem_def asObj_def asStr_def mget_Cons mget_gm_set)
  then show ?thesis unfolding TransformRequest_responses [OF muse_is_responses] by (simp add: inject_reads)
qed

text \<open>
  The upstream request carries the resolved session under exactly the four names the official client
  uses and the legacy request header under no circumstances: the header names are a fixed set, so
  nothing a client sends under another name is forwarded.
\<close>

theorem upstream_headers:
  "set (map fst (BuildHeaders dr d session cachedUA)) =
     {''Content-Type'', ''Authorization'', ''x-opencode-client'', ''x-opencode-session'', ''x-opencode-session-id'', ''x-session-affinity'',
      ''x-session-id'', ''x-opencode-request-id'', ''x-opencode-project'', ''Accept'', ''User-Agent''} \<and>
   list_all (\<lambda>k. gm_get (BuildHeaders dr d session cachedUA) k = Some session)
     [''x-opencode-session'', ''x-opencode-session-id'', ''x-session-affinity'', ''x-session-id''] \<and>
   gm_get (BuildHeaders dr d session cachedUA) ''x-opencode-request'' = None"
proof -
  have keys: "set (map fst (passThrough d k h)) = set (map fst h)" if "k \<in> set (map fst h)" for k h
    using that by (auto simp: passThrough_def dom_update split: option.splits)
  have get: "gm_get (passThrough d k h) k' = gm_get h k'" if "k' \<noteq> k" for k k' h
    using that by (auto simp: passThrough_def gm_get_set split: option.splits)
  define h1 where "h1 = gm_set ''User-Agent'' (if HasValidVersion (header d ''user-agent'') then header d ''user-agent'' else cachedUA)
     [(''Content-Type'', ''application/json''), (''Authorization'', ''Bearer public''), (''x-opencode-client'', ''desktop''),
          (''x-opencode-session'', session), (''x-opencode-session-id'', session), (''x-session-affinity'', session),
          (''x-session-id'', session),
          (''x-opencode-request-id'', GenerateRequestID (unixMilli (dr_now dr)) (dr_rnd14 dr)),
          (''x-opencode-project'', ''global''), (''Accept'', ''text/event-stream'')]"
  have b: "BuildHeaders dr d session cachedUA =
      passThrough d ''x-opencode-project'' (passThrough d ''x-opencode-request-id'' (passThrough d ''x-opencode-client'' h1))"
    by (simp add: BuildHeaders_def h1_def Let_def)
  have k1: "set (map fst h1) = {''Content-Type'', ''Authorization'', ''x-opencode-client'', ''x-opencode-session'', ''x-opencode-session-id'',
      ''x-session-affinity'', ''x-session-id'', ''x-opencode-request-id'', ''x-opencode-project'', ''Accept'', ''User-Agent''}"
    by (auto simp: h1_def)
  have "set (map fst (BuildHeaders dr d session cachedUA)) = set (map fst h1)"
    unfolding b by (simp only: keys k1 insert_iff simp_thms)
  moreover have "list_all (\<lambda>k. gm_get (BuildHeaders dr d session cachedUA) k = Some session)
     [''x-opencode-session'', ''x-opencode-session-id'', ''x-session-affinity'', ''x-session-id'']"
    unfolding b by (simp add: get) (simp add: h1_def)
  moreover have "gm_get (BuildHeaders dr d session cachedUA) ''x-opencode-request'' = None"
    unfolding b by (simp add: get) (simp add: h1_def)
  ultimately show ?thesis unfolding k1 by blast
qed

end
