(* ===== verification/Sse.thy ===== *)
theory Sse
  imports Thinking
begin

text \<open>
  Frames and chunk helpers of the relay (\<^verbatim>\<open>internal/relay/sse.go\<close> and \<^verbatim>\<open>common.go\<close>). \<open>co\<close> is the text
  codec; \<^verbatim>\<open>json.Marshal\<close>'s error is ignored by the callers, its bytes are then empty.
\<close>

type_synonym format = string

definition FormatChat :: format where
  "FormatChat = ''chat''"

definition FormatResponses :: format where
  "FormatResponses = ''responses''"

definition marshal :: "codec \<Rightarrow> jmap \<Rightarrow> string" where
  "marshal co m = (case co_encode co (JObj m) of None \<Rightarrow> [] | Some b \<Rightarrow> b)"

section \<open>Frames\<close>

definition cleanUsage :: "jmap \<Rightarrow> jmap" where
  "cleanUsage m = (case gm_get m ''usage'' of
     None \<Rightarrow> m
   | Some JNull \<Rightarrow> gm_del ''usage'' m
   | Some (JObj uo) \<Rightarrow>
       if gm_get uo ''perf_metrics'' = Some JNull then gm_set ''usage'' (JObj (gm_del ''perf_metrics'' uo)) m else m
   | Some _ \<Rightarrow> m)"

lemma size_gm_get: "gm_get m k = Some (JObj r) \<Longrightarrow> size_list (size_prod (\<lambda>_. 0) size) r < size_list (size_prod (\<lambda>_. 0) size) m"
proof (induction m)
  case (Cons a m)
  then show ?case by (cases a) (auto split: if_splits)
qed simp

function CleanUsagePayload :: "jmap \<Rightarrow> jmap" where
  "CleanUsagePayload m = (case gm_get m ''response'' of
     Some (JObj r) \<Rightarrow> gm_set ''response'' (JObj (CleanUsagePayload r)) (cleanUsage m)
   | _ \<Rightarrow> cleanUsage m)"
  by pat_completeness auto
termination
  by (relation "measure (size_list (size_prod (\<lambda>_. 0) size))") (auto dest: size_gm_get)

declare CleanUsagePayload.simps [simp del]

definition newline :: string where
  "newline = [CHR 0x0A]"

definition FormatEvent :: "codec \<Rightarrow> string \<Rightarrow> jmap \<Rightarrow> string" where
  "FormatEvent co event data = ''event: '' @ event @ newline @ ''data: '' @ marshal co (CleanUsagePayload data) @ newline @ newline"

definition doneFrame :: string where
  "doneFrame = ''data: '' @ [CHR 0x5B] @ ''DONE'' @ [CHR 0x5D] @ newline @ newline"

definition FormatData :: "codec \<Rightarrow> jmap \<Rightarrow> string" where
  "FormatData co data =
     (if mget data ''done'' = JBool True then doneFrame
      else case (mget data ''event'', asObj (mget data ''data'')) of
        (JStr ev, Some inner) \<Rightarrow>
          if ev \<noteq> [] then FormatEvent co ev inner
          else ''data: '' @ marshal co (CleanUsagePayload data) @ newline @ newline
      | _ \<Rightarrow> ''data: '' @ marshal co (CleanUsagePayload data) @ newline @ newline)"

definition FormatDataLine :: "codec \<Rightarrow> jmap \<Rightarrow> string" where
  "FormatDataLine co data = ''data: '' @ marshal co (CleanUsagePayload data) @ newline"

section \<open>Lines\<close>

definition dataPayload :: "string \<Rightarrow> string option" where
  "dataPayload line =
     (let trimmed = trimSpace line in
      if hasPrefix trimmed ''data:'' then Some (trimSpace (drop 5 trimmed)) else None)"

record line_class =
  lc_parsed :: "jmap option"
  lc_is_data :: bool
  lc_is_done :: bool
  lc_non_object :: bool

definition classifyDataLine :: "codec \<Rightarrow> string \<Rightarrow> line_class" where
  "classifyDataLine co line = (case dataPayload line of
     None \<Rightarrow> \<lparr>lc_parsed = None, lc_is_data = False, lc_is_done = False, lc_non_object = False\<rparr>
   | Some payload \<Rightarrow>
       if payload = [CHR 0x5B] @ ''DONE'' @ [CHR 0x5D]
       then \<lparr>lc_parsed = None, lc_is_data = True, lc_is_done = True, lc_non_object = False\<rparr>
       else (case co_decode co payload of
         None \<Rightarrow> \<lparr>lc_parsed = None, lc_is_data = True, lc_is_done = False, lc_non_object = False\<rparr>
       | Some (JObj m) \<Rightarrow> \<lparr>lc_parsed = Some m, lc_is_data = True, lc_is_done = False, lc_non_object = False\<rparr>
       | Some v \<Rightarrow> \<lparr>lc_parsed = None, lc_is_data = True, lc_is_done = False, lc_non_object = (v \<noteq> JNull)\<rparr>))"

definition parseDataLine :: "codec \<Rightarrow> string \<Rightarrow> jmap option \<times> bool" where
  "parseDataLine co line =
     (let c = classifyDataLine co line in
      case lc_parsed c of
        None \<Rightarrow> (None, lc_is_data c \<and> lc_is_done c)
      | Some m \<Rightarrow> (Some m, True))"

definition EventName :: "string \<Rightarrow> jmap \<Rightarrow> string" where
  "EventName eventName chunk = (if eventName \<noteq> [] then eventName else asStr (mget chunk ''type''))"

definition TerminalResponsesEvent :: "string \<Rightarrow> jmap \<Rightarrow> bool" where
  "TerminalResponsesEvent eventName chunk =
     (EventName eventName chunk \<in> {''response.completed'', ''response.done'', ''response.failed'', ''error''} \<or>
      (let status = asStr (Get (mget chunk ''response'') ''status'') in status = ''completed'' \<or> status = ''failed''))"

section \<open>Chunks\<close>

record synthesis =
  sy_enabled :: bool
  sy_ratio :: f64

definition ResolveSynthesis :: "num_env \<Rightarrow> (string \<Rightarrow> string) \<Rightarrow> jmap \<Rightarrow> string \<Rightarrow> thinking_cfg option \<Rightarrow> synthesis" where
  "ResolveSynthesis N lw body model intent = (case effectiveIntent N lw model intent body of
     Some cfg \<Rightarrow> \<lparr>sy_enabled = (tc_mode cfg \<noteq> ''none''), sy_ratio = DefaultRatio\<rparr>
   | None \<Rightarrow> \<lparr>sy_enabled = False, sy_ratio = DefaultRatio\<rparr>)"

definition int36Digits :: string where
  "int36Digits = ''0123456789abcdefghijklmnopqrstuvwxyz''"

function int36Loop :: "int \<Rightarrow> string \<Rightarrow> string" where
  "int36Loop n acc = (if 0 < n then int36Loop (n div 36) (int36Digits ! nat (n mod 36) # acc) else acc)"
  by pat_completeness auto
termination
  by (relation "measure (\<lambda>(n, acc). nat n)") auto

declare int36Loop.simps [simp del]

definition formatInt36 :: "int \<Rightarrow> string" where
  "formatInt36 n =
     (if n = 0 then ''0''
      else if n < 0 then ''-'' @ int36Loop (wrap64 (- n)) [] else int36Loop n [])"

definition fixInvalidID :: "int \<Rightarrow> jmap \<Rightarrow> jmap \<times> bool" where
  "fixInvalidID milli parsed = (case mget parsed ''id'' of
     JStr i \<Rightarrow>
       if i \<noteq> ''chat'' \<and> i \<noteq> ''completion'' \<and> length i \<ge> 8 then (parsed, False)
       else
         let fallback0 = (case asObj (mget parsed ''extend_fields'') of
               None \<Rightarrow> []
             | Some ef \<Rightarrow> if asStr (mget ef ''requestId'') \<noteq> [] then asStr (mget ef ''requestId'') else asStr (mget ef ''traceId''));
             fallback = (if fallback0 = [] then formatInt36 milli else fallback0)
         in (gm_set ''id'' (JStr (''chatcmpl-'' @ fallback)) parsed, True)
   | _ \<Rightarrow> (parsed, False))"

text \<open>The truthiness of \<^verbatim>\<open>common.go\<close>; over decoded values it agrees with the other copies.\<close>

definition rTruthy :: "json \<Rightarrow> bool" where
  "rTruthy v = (case v of JNull \<Rightarrow> False | JBool b \<Rightarrow> b | JStr s \<Rightarrow> s \<noteq> [] | JNum n \<Rightarrow> n \<noteq> Fin 0 | _ \<Rightarrow> True)"

definition nonEmptyArr :: "json \<Rightarrow> bool" where
  "nonEmptyArr v = (case v of JArr a \<Rightarrow> a \<noteq> [] | _ \<Rightarrow> False)"

definition hasValuableContent :: "jmap \<Rightarrow> bool" where
  "hasValuableContent chunk = (case asArr (mget chunk ''choices'') of
     None \<Rightarrow> True
   | Some [] \<Rightarrow> True
   | Some (c0 # _) \<Rightarrow> (case asObj c0 of
       None \<Rightarrow> True
     | Some choice \<Rightarrow> (case asObj (mget choice ''delta'') of
         None \<Rightarrow> True
       | Some delta \<Rightarrow>
           rTruthy (mget delta ''content'') \<or> rTruthy (mget delta ''reasoning_content'') \<or> nonEmptyArr (mget delta ''tool_calls'') \<or>
           rTruthy (mget choice ''finish_reason'') \<or> rTruthy (mget delta ''role'') \<or> HasValid (asObj (mget chunk ''usage'')))))"

definition jsNullish :: "json list \<Rightarrow> json" where
  "jsNullish vals = firstNonNull vals"

definition jsNumOr0 :: "num_env \<Rightarrow> json \<Rightarrow> f64" where
  "jsNumOr0 N v = (case NumOK N v of (f, ok) \<Rightarrow> if ok then f else Fin 0)"

record progress =
  pg_len :: int
  pg_content :: string
  pg_thinking :: string

definition accumulate :: "jmap option \<Rightarrow> progress \<Rightarrow> progress" where
  "accumulate delta p = (case delta of
     None \<Rightarrow> p
   | Some d \<Rightarrow>
       let c = asStr (mget d ''content'');
           p1 = (if c \<noteq> [] then p\<lparr>pg_len := pg_len p + int (UTF16Len c), pg_content := pg_content p @ c\<rparr> else p);
           r = asStr (mget d ''reasoning_content'')
       in if r \<noteq> [] then p1\<lparr>pg_len := pg_len p1 + int (UTF16Len r), pg_thinking := pg_thinking p1 @ r\<rparr> else p1)"

definition FormatIncompleteResponsesFailure :: "codec \<Rightarrow> int \<Rightarrow> string" where
  "FormatIncompleteResponsesFailure co milli = FormatEvent co ''response.failed''
     [(''type'', JStr ''response.failed''),
      (''response'', ObjOf [(''id'', JStr (''resp_'' @ itoa milli)), (''status'', JStr ''failed''),
        (''error'', ObjOf [(''type'', JStr ''stream_error''), (''code'', JStr ''stream_disconnected''),
          (''message'', JStr ''stream closed before response.completed'')])])]"

end
