(* ===== verification/Passthrough.thy ===== *)
theory Passthrough
  imports Sse
begin

text \<open>
  The same-format relay (\<^verbatim>\<open>internal/relay/passthrough.go\<close>): every upstream line is forwarded, repaired,
  or dropped; usage is tracked and injected; the stream is closed by a sentinel, on the Responses route
  after a terminal event or a synthesized failure.

  The state keeps the frames written, each with the reason it was written; the bytes on the wire are
  their texts in order. \<open>pw_fail\<close> says whether a write fails, given the frames already written.
\<close>

datatype frame = Forward string | Rewrite string | FailureFrame string | Sentinel string

fun frame_text :: "frame \<Rightarrow> string" where
  "frame_text (Forward s) = s"
| "frame_text (Rewrite s) = s"
| "frame_text (FailureFrame s) = s"
| "frame_text (Sentinel s) = s"

record relay_env =
  re_num :: num_env
  re_codec :: codec
  re_encode_raw :: "json \<Rightarrow> string option"
  re_fail :: "frame list \<Rightarrow> string option"

text \<open>The clock readings of one call: for a repaired id, for a creation time, for a failure frame.\<close>

record ticks =
  tk_id :: int
  tk_created :: int
  tk_failure :: int

record pass_cfg =
  pc_body :: json
  pc_format :: format
  pc_synthesis :: synthesis

record pass_relay =
  pr_frames :: "frame list"
  pr_terminalSeen :: bool
  pr_doneSent :: bool
  pr_finalized :: bool
  pr_progress :: progress
  pr_trackedUsage :: usage
  pr_FinalUsage :: usage
  pr_FinalContent :: string
  pr_FinalThinking :: string

definition NewPassthroughRelay :: pass_relay where
  "NewPassthroughRelay = \<lparr>pr_frames = [], pr_terminalSeen = False, pr_doneSent = False, pr_finalized = False,
     pr_progress = \<lparr>pg_len = 0, pg_content = [], pg_thinking = []\<rparr>, pr_trackedUsage = None, pr_FinalUsage = None,
     pr_FinalContent = [], pr_FinalThinking = []\<rparr>"

section \<open>Usage for the client\<close>

definition convertUsageForFormat :: "num_env \<Rightarrow> usage \<Rightarrow> format \<Rightarrow> usage" where
  "convertUsageForFormat N u0 fmt = (case u0 of
     None \<Rightarrow> None
   | Some u \<Rightarrow>
       if fmt \<noteq> FormatResponses then Some u
       else
         let c0 = [(''input_tokens'', JNum (jsNumOr0 N (jsNullish [mget u ''input_tokens'', mget u ''prompt_tokens'']))),
               (''output_tokens'', JNum (jsNumOr0 N (jsNullish [mget u ''output_tokens'', mget u ''completion_tokens''])))];
             (cached, ok1) = NumOK N (jsNullish [Get (mget u ''input_tokens_details'') ''cached_tokens'', mget u ''cached_tokens'',
               Get (mget u ''prompt_tokens_details'') ''cached_tokens'']);
             c1 = (if ok1 \<and> cached \<noteq> Fin 0 then gm_set ''input_tokens_details'' (ObjOf [(''cached_tokens'', JNum cached)]) c0 else c0);
             (reasoning, ok2) = NumOK N (jsNullish [Get (mget u ''output_tokens_details'') ''reasoning_tokens'', mget u ''reasoning_tokens'',
               mget u ''thoughtsTokenCount'']);
             c2 = (if ok2 \<and> reasoning \<noteq> Fin 0 then gm_set ''output_tokens_details'' (ObjOf [(''reasoning_tokens'', JNum reasoning)]) c1 else c1)
         in Some (if rTruthy (mget u ''estimated'') then gm_set ''estimated'' (JBool True) c2 else c2))"

definition allowedUsage :: "format \<Rightarrow> string list" where
  "allowedUsage fmt =
     (if fmt = FormatResponses then [''input_tokens'', ''output_tokens'', ''input_tokens_details'', ''output_tokens_details'', ''estimated'']
      else [''prompt_tokens'', ''completion_tokens'', ''total_tokens'', ''cached_tokens'', ''reasoning_tokens'', ''prompt_tokens_details'',
        ''completion_tokens_details'', ''estimated''])"

definition filterUsageForFormat :: "usage \<Rightarrow> format \<Rightarrow> usage" where
  "filterUsageForFormat u0 fmt = (case u0 of
     None \<Rightarrow> None
   | Some u \<Rightarrow> Some (fold (\<lambda>k out. case gm_get u k of None \<Rightarrow> out | Some v \<Rightarrow> gm_set k v out) (allowedUsage fmt) []))"

fun numOr :: "json list \<Rightarrow> f64" where
  "numOr [] = Fin 0"
| "numOr (v # vs) = (case v of JNum n \<Rightarrow> if n \<noteq> Fin 0 then n else numOr vs | _ \<Rightarrow> numOr vs)"

definition buildClientUsage :: "relay_env \<Rightarrow> pass_cfg \<Rightarrow> usage \<Rightarrow> usage" where
  "buildClientUsage env cfg u =
     (let converted = convertUsageForFormat (re_num env) u (pc_format cfg);
          synth = (if sy_enabled (pc_synthesis cfg)
                   then SynthesizeThinking (re_num env) converted (pc_format cfg) (sy_ratio (pc_synthesis cfg)) else converted)
      in filterUsageForFormat synth (pc_format cfg))"

definition mergeTracked :: "usage \<Rightarrow> usage \<Rightarrow> usage" where
  "mergeTracked prev next = (case next of
     None \<Rightarrow> prev
   | Some n \<Rightarrow> (case prev of
       Some p \<Rightarrow> if rTruthy (mget p ''estimated'') then next else Merge prev next
     | None \<Rightarrow> Merge prev next))"

definition extractAnyUsage :: "num_env \<Rightarrow> jmap \<Rightarrow> usage" where
  "extractAnyUsage N parsed = (case ExtractFromResponses N parsed of Some u \<Rightarrow> Some u | None \<Rightarrow> ExtractFromChat N parsed)"

section \<open>Writing\<close>

definition writeRaw :: "relay_env \<Rightarrow> frame \<Rightarrow> pass_relay \<Rightarrow> string option \<times> pass_relay" where
  "writeRaw env f r = (case re_fail env (pr_frames r) of
     Some e \<Rightarrow> (Some e, r)
   | None \<Rightarrow> (None, r\<lparr>pr_frames := pr_frames r @ [f]\<rparr>))"

definition normalizeDataPrefix :: "string \<Rightarrow> string" where
  "normalizeDataPrefix line =
     (if hasPrefix line ''data:'' \<and> \<not> hasPrefix line ''data: '' then ''data: '' @ drop 5 line @ newline
      else if \<not> hasSuffix line newline then line @ newline
      else line)"

definition formatDataLine :: "codec \<Rightarrow> jmap \<Rightarrow> string" where
  "formatDataLine co parsed = ''data: '' @ marshal co parsed @ newline"

section \<open>One line\<close>

text \<open>A chunk whose choices make the original's iteration throw is dropped.\<close>

definition choicesThrow :: "jmap \<Rightarrow> bool" where
  "choicesThrow parsed =
     (let cv = mget parsed ''choices'' in
      rTruthy cv \<and> (case cv of JArr a \<Rightarrow> JNull \<in> set a | JStr _ \<Rightarrow> False | _ \<Rightarrow> True))"

definition unixSeconds :: "int \<Rightarrow> int" where
  "unixSeconds milli = (if 0 \<le> milli then milli div 1000 else - ((- milli) div 1000))"

definition injectFields :: "ticks \<Rightarrow> jmap \<Rightarrow> jmap \<times> bool" where
  "injectFields tk p =
     (if \<not> has p ''choices'' then (p, False)
      else
        let (p1, i1) = (if rTruthy (mget p ''object'') then (p, False) else (gm_set ''object'' (JStr ''chat.completion.chunk'') p, True)) in
        if rTruthy (mget p1 ''created'') then (p1, i1)
        else (gm_set ''created'' (JNum (Fin (of_int (unixSeconds (tk_created tk))))) p1, True))"

definition dropPromptFilter :: "jmap \<Rightarrow> jmap \<times> bool" where
  "dropPromptFilter p = (if has p ''prompt_filter_results'' then (gm_del ''prompt_filter_results'' p, True) else (p, False))"

text \<open>Each of the two loops over the choices, and whether it changed one of them.\<close>

definition stripContentFilter :: "json \<Rightarrow> json \<times> bool" where
  "stripContentFilter choice = (case choice of
     JObj c \<Rightarrow> if has c ''content_filter_results'' then (JObj (gm_del ''content_filter_results'' c), True) else (choice, False)
   | _ \<Rightarrow> (choice, False))"

definition stripEmptyToolCalls :: "json \<Rightarrow> json \<times> bool" where
  "stripEmptyToolCalls choice = (case choice of
     JObj c \<Rightarrow> (case mget c ''delta'' of
       JObj delta \<Rightarrow>
         if mget delta ''tool_calls'' = JArr [] then (JObj (gm_set ''delta'' (JObj (gm_del ''tool_calls'' delta)) c), True)
         else (choice, False)
     | _ \<Rightarrow> (choice, False))
   | _ \<Rightarrow> (choice, False))"

definition overChoices :: "(json \<Rightarrow> json \<times> bool) \<Rightarrow> jmap \<Rightarrow> jmap \<times> bool" where
  "overChoices f p = (case mget p ''choices'' of
     JArr cs \<Rightarrow> if list_ex (\<lambda>c. snd (f c)) cs then (gm_set ''choices'' (JArr (map (\<lambda>c. fst (f c)) cs)) p, True) else (p, False)
   | _ \<Rightarrow> (p, False))"

text \<open>All repairs: the chunk, and whether any of them touched it.\<close>

definition repairChunk :: "ticks \<Rightarrow> jmap \<Rightarrow> jmap \<times> bool" where
  "repairChunk tk p =
     (let (p0, b0) = fixInvalidID (tk_id tk) p;
          (p1, b1) = injectFields tk p0;
          (p2, b2) = dropPromptFilter p1;
          (p3, b3) = overChoices stripContentFilter p2;
          (p4, b4) = overChoices stripEmptyToolCalls p3
      in (p4, b0 \<or> b1 \<or> b2 \<or> b3 \<or> b4))"

definition firstChoice :: "jmap \<Rightarrow> jmap option" where
  "firstChoice p = (case mget p ''choices'' of JArr (c # _) \<Rightarrow> asObj c | _ \<Rightarrow> None)"

definition firstDelta :: "jmap \<Rightarrow> jmap option" where
  "firstDelta p = (case firstChoice p of
     None \<Rightarrow> None
   | Some choice \<Rightarrow> (case asObj (mget choice ''delta'') of None \<Rightarrow> Some [] | Some d \<Rightarrow> Some d))"

definition usageJson :: "usage \<Rightarrow> json" where
  "usageJson u = (case u of None \<Rightarrow> JNull | Some m \<Rightarrow> JObj m)"

definition finalize :: "relay_env \<Rightarrow> pass_cfg \<Rightarrow> pass_relay \<Rightarrow> pass_relay" where
  "finalize env cfg r =
     (if pr_finalized r then r
      else
        let r1 = r\<lparr>pr_finalized := True\<rparr>;
            r2 = (if \<not> HasValid (pr_trackedUsage r1) \<and> pg_len (pr_progress r1) > 0
                  then r1\<lparr>pr_trackedUsage := Estimate (re_num env) (re_encode_raw env) (pc_body cfg) (pg_len (pr_progress r1))\<rparr> else r1)
        in r2\<lparr>pr_FinalUsage := pr_trackedUsage r2, pr_FinalContent := pg_content (pr_progress r2),
              pr_FinalThinking := pg_thinking (pr_progress r2)\<rparr>)"

text \<open>The usage seam: the frame to write for a chunk, and the tracked usage.\<close>

definition usageSeam :: "relay_env \<Rightarrow> pass_cfg \<Rightarrow> string \<Rightarrow> jmap \<Rightarrow> bool \<Rightarrow> pass_relay \<Rightarrow> frame \<times> usage" where
  "usageSeam env cfg line p touched r =
     (let isFinishChunk = rTruthy (case firstChoice p of None \<Rightarrow> JNull | Some c \<Rightarrow> mget c ''finish_reason'');
          u = asObj (mget p ''usage'');
          carriesUsage = HasValid u;
          tracked = pr_trackedUsage r;
          co = re_codec env
      in if isFinishChunk \<and> \<not> carriesUsage \<and> \<not> HasValid tracked then
           let estimated = Estimate (re_num env) (re_encode_raw env) (pc_body cfg) (pg_len (pr_progress r))
           in (Rewrite (formatDataLine co (gm_set ''usage'' (usageJson (buildClientUsage env cfg estimated)) p)), estimated)
         else if carriesUsage then
           (Rewrite (formatDataLine co (if sy_enabled (pc_synthesis cfg)
              then gm_set ''usage'' (usageJson (SynthesizeThinking (re_num env) u (pc_format cfg) (sy_ratio (pc_synthesis cfg)))) p else p)), tracked)
         else if isFinishChunk \<and> tracked \<noteq> None then
           (Rewrite (formatDataLine co (gm_set ''usage'' (usageJson (buildClientUsage env cfg (AddBuffer (re_num env) tracked))) p)), tracked)
         else if touched then (Rewrite (formatDataLine co p), tracked)
         else (Forward (normalizeDataPrefix line), tracked))"

definition processChunk :: "relay_env \<Rightarrow> pass_cfg \<Rightarrow> ticks \<Rightarrow> string \<Rightarrow> jmap \<Rightarrow> pass_relay \<Rightarrow> string option \<times> pass_relay" where
  "processChunk env cfg tk line parsed r =
     (if choicesThrow parsed then (None, r)
      else
        let terminal = TerminalResponsesEvent [] parsed;
            r1 = (if terminal then r\<lparr>pr_terminalSeen := True\<rparr> else r);
            (p, touched) = repairChunk tk parsed
        in if \<not> hasValuableContent p then (None, r1)
           else
             let r2 = r1\<lparr>pr_progress := accumulate (firstDelta p) (pr_progress r1)\<rparr>;
                 extracted = extractAnyUsage (re_num env) p;
                 r3 = (if extracted \<noteq> None then r2\<lparr>pr_trackedUsage := mergeTracked (pr_trackedUsage r2) extracted\<rparr> else r2);
                 (f, tracked) = usageSeam env cfg line p touched r3
             in (case writeRaw env f (r3\<lparr>pr_trackedUsage := tracked\<rparr>) of
                   (Some e, r4) \<Rightarrow> (Some e, r4)
                 | (None, r4) \<Rightarrow> (None, if terminal then finalize env cfg r4 else r4)))"

definition emitResponsesDone :: "relay_env \<Rightarrow> ticks \<Rightarrow> string \<Rightarrow> pass_relay \<Rightarrow> string option \<times> pass_relay" where
  "emitResponsesDone env tk sentinel r =
     (let (e1, r1) = (if pr_terminalSeen r then (None, r)
            else case writeRaw env (FailureFrame (FormatIncompleteResponsesFailure (re_codec env) (tk_failure tk))) r of
              (Some e, r') \<Rightarrow> (Some e, r')
            | (None, r') \<Rightarrow> (None, r'\<lparr>pr_terminalSeen := True\<rparr>))
      in case e1 of
        Some e \<Rightarrow> (Some e, r1)
      | None \<Rightarrow>
          if pr_doneSent r1 then (None, r1)
          else (case writeRaw env (Sentinel sentinel) r1 of
              (Some e, r2) \<Rightarrow> (Some e, r2)
            | (None, r2) \<Rightarrow> (None, r2\<lparr>pr_doneSent := True\<rparr>)))"

definition ProcessLine :: "relay_env \<Rightarrow> pass_cfg \<Rightarrow> ticks \<Rightarrow> string \<Rightarrow> pass_relay \<Rightarrow> string option \<times> pass_relay" where
  "ProcessLine env cfg tk line r =
     (let c = classifyDataLine (re_codec env) line in
      if \<not> lc_is_data c then writeRaw env (Forward (normalizeDataPrefix line)) r
      else if lc_is_done c then
        if pc_format cfg = FormatResponses then emitResponsesDone env tk (normalizeDataPrefix line) r
        else writeRaw env (Sentinel (normalizeDataPrefix line)) r
      else case lc_parsed c of
        None \<Rightarrow> if \<not> lc_non_object c then (None, r) else writeRaw env (Forward (normalizeDataPrefix line)) r
      | Some parsed \<Rightarrow> processChunk env cfg tk line parsed r)"

definition ProcessTail :: "relay_env \<Rightarrow> pass_cfg \<Rightarrow> ticks \<Rightarrow> string \<Rightarrow> pass_relay \<Rightarrow> string option \<times> pass_relay" where
  "ProcessTail env cfg tk line r =
     (if line = [] then (None, r)
      else if pc_format cfg = FormatResponses \<and> lc_is_data (classifyDataLine (re_codec env) line) \<and> lc_is_done (classifyDataLine (re_codec env) line)
      then emitResponsesDone env tk doneFrame r
      else if hasPrefix line ''data:'' \<and> \<not> hasPrefix line ''data: '' then writeRaw env (Forward (''data: '' @ drop 5 line)) r
      else writeRaw env (Forward line) r)"

definition Flush :: "relay_env \<Rightarrow> pass_cfg \<Rightarrow> ticks \<Rightarrow> pass_relay \<Rightarrow> string option \<times> pass_relay" where
  "Flush env cfg tk r =
     (if pc_format cfg = FormatResponses then
        (case emitResponsesDone env tk doneFrame r of
           (Some e, r1) \<Rightarrow> (Some e, r1)
         | (None, r1) \<Rightarrow> (None, finalize env cfg r1))
      else (case writeRaw env (Sentinel doneFrame) r of
           (Some e, r1) \<Rightarrow> (Some e, r1)
         | (None, r1) \<Rightarrow> (None, finalize env cfg r1)))"

section \<open>A whole stream\<close>

text \<open>The lines of the body, the unterminated rest, and the flush, as the stream handler feeds them.\<close>

fun runLines :: "relay_env \<Rightarrow> pass_cfg \<Rightarrow> (ticks \<times> string) list \<Rightarrow> pass_relay \<Rightarrow> string option \<times> pass_relay" where
  "runLines env cfg [] r = (None, r)"
| "runLines env cfg ((tk, line) # ls) r = (case ProcessLine env cfg tk line r of
     (Some e, r1) \<Rightarrow> (Some e, r1)
   | (None, r1) \<Rightarrow> runLines env cfg ls r1)"

definition runStream :: "relay_env \<Rightarrow> pass_cfg \<Rightarrow> (ticks \<times> string) list \<Rightarrow> ticks \<times> string \<Rightarrow> ticks \<Rightarrow> string option \<times> pass_relay" where
  "runStream env cfg ls tail tk =
     (case runLines env cfg ls NewPassthroughRelay of
        (Some e, r) \<Rightarrow> (Some e, r)
      | (None, r) \<Rightarrow> (case ProcessTail env cfg (fst tail) (snd tail) r of
          (Some e, r1) \<Rightarrow> (Some e, r1)
        | (None, r1) \<Rightarrow> Flush env cfg tk r1))"

definition isS :: "frame \<Rightarrow> bool" where
  "isS f = (case f of Sentinel _ \<Rightarrow> True | _ \<Rightarrow> False)"

definition isF :: "frame \<Rightarrow> bool" where
  "isF f = (case f of FailureFrame _ \<Rightarrow> True | _ \<Rightarrow> False)"

definition closing_ok :: "pass_relay \<Rightarrow> bool" where
  "closing_ok r \<longleftrightarrow> length (filter isS (pr_frames r)) = (if pr_doneSent r then 1 else 0) \<and>
     (pr_doneSent r \<longrightarrow> pr_terminalSeen r) \<and>
     length (filter isF (pr_frames r)) \<le> 1 \<and> (\<not> pr_terminalSeen r \<longrightarrow> filter isF (pr_frames r) = []) \<and>
     list_all (\<lambda>f. \<not> isF f) (dropWhile (\<lambda>f. \<not> isS f) (pr_frames r))"

lemma isSF [simp]:
  "\<not> isS (Forward x)" "\<not> isS (Rewrite x)" "\<not> isS (FailureFrame x)" "isS (Sentinel x)"
  "\<not> isF (Forward x)" "\<not> isF (Rewrite x)" "isF (FailureFrame x)" "\<not> isF (Sentinel x)"
  by (simp_all add: isS_def isF_def)

lemma dropWhile_snoc: "dropWhile P (xs @ [x]) = (if list_all P xs then (if P x then [] else [x]) else dropWhile P xs @ [x])"
  by (induction xs) auto

lemma no_S: "filter isS fs = [] \<longleftrightarrow> list_all (\<lambda>f. \<not> isS f) fs"
  by (simp add: filter_empty_conv list_all_iff)

lemma closing_plain:
  assumes "closing_ok r" and "\<not> isS f" and "\<not> isF f"
  shows "closing_ok (r\<lparr>pr_frames := pr_frames r @ [f]\<rparr>)"
  using assms by (auto simp: closing_ok_def dropWhile_snoc)

lemma closing_failure:
  assumes "closing_ok r" and "\<not> pr_terminalSeen r"
  shows "closing_ok (r\<lparr>pr_frames := pr_frames r @ [FailureFrame x], pr_terminalSeen := True\<rparr>)"
proof -
  have "filter isS (pr_frames r) = []" using assms by (auto simp: closing_ok_def)
  then have "list_all (\<lambda>f. \<not> isS f) (pr_frames r)" by (simp add: no_S)
  then show ?thesis using assms by (auto simp: closing_ok_def dropWhile_snoc)
qed

lemma closing_sentinel:
  assumes "closing_ok r" and "pr_terminalSeen r" and "\<not> pr_doneSent r"
  shows "closing_ok (r\<lparr>pr_frames := pr_frames r @ [Sentinel x], pr_doneSent := True\<rparr>)"
  using assms by (auto simp: closing_ok_def dropWhile_snoc no_S)

lemma finalize_frames [simp]:
  "pr_frames (finalize env cfg r) = pr_frames r" "pr_terminalSeen (finalize env cfg r) = pr_terminalSeen r"
  "pr_doneSent (finalize env cfg r) = pr_doneSent r" "pr_finalized (finalize env cfg r)"
  by (simp_all add: finalize_def Let_def)

text \<open>The invariant reads four fields only.\<close>

lemma closing_cong: "pr_frames r' = pr_frames r \<Longrightarrow> pr_terminalSeen r' = pr_terminalSeen r \<Longrightarrow> pr_doneSent r' = pr_doneSent r \<Longrightarrow>
    closing_ok r' = closing_ok r"
  by (simp add: closing_ok_def)

lemma closing_terminal: "closing_ok r \<Longrightarrow> closing_ok (r\<lparr>pr_terminalSeen := True\<rparr>)"
  by (auto simp: closing_ok_def)

definition never_fails :: "relay_env \<Rightarrow> bool" where
  "never_fails env \<longleftrightarrow> (\<forall>fs. re_fail env fs = None)"

lemma writeRaw_ok: "never_fails env \<Longrightarrow> writeRaw env f r = (None, r\<lparr>pr_frames := pr_frames r @ [f]\<rparr>)"
  by (simp add: writeRaw_def never_fails_def)

lemma emit_ok:
  assumes "never_fails env" and "closing_ok r"
  shows "\<exists>r'. emitResponsesDone env tk x r = (None, r') \<and> closing_ok r' \<and> pr_doneSent r' \<and> pr_terminalSeen r' \<and>
     pr_finalized r' = pr_finalized r \<and> (filter isF (pr_frames r') = [] \<longleftrightarrow> pr_terminalSeen r \<and> filter isF (pr_frames r) = [])"
proof (cases "pr_terminalSeen r")
  case True
  show ?thesis
  proof (cases "pr_doneSent r")
    case False
    with True closing_sentinel [OF assms(2) True False, of x] show ?thesis
      by (simp add: emitResponsesDone_def writeRaw_ok [OF assms(1)])
  qed (use True assms in \<open>simp add: emitResponsesDone_def\<close>)
next
  case False
  let ?f = "FailureFrame (FormatIncompleteResponsesFailure (re_codec env) (tk_failure tk))"
  let ?r1 = "r\<lparr>pr_frames := pr_frames r @ [?f], pr_terminalSeen := True\<rparr>"
  have c1: "closing_ok ?r1" by (rule closing_failure [OF assms(2) False])
  have d: "\<not> pr_doneSent r" using assms(2) False by (auto simp: closing_ok_def)
  with closing_sentinel [OF c1, of x] False show ?thesis
    by (simp add: emitResponsesDone_def writeRaw_ok [OF assms(1)])
qed

lemma usageSeam_frame: "usageSeam env cfg line p touched r = (f, u) \<Longrightarrow> \<not> isS f \<and> \<not> isF f"
  by (auto simp: usageSeam_def Let_def split: if_splits)

lemma processChunk_ok:
  assumes "never_fails env" and "closing_ok r"
  shows "\<exists>r'. processChunk env cfg tk line parsed r = (None, r') \<and> closing_ok r' \<and>
     filter isF (pr_frames r') = filter isF (pr_frames r) \<and> pr_doneSent r' = pr_doneSent r \<and>
     pr_terminalSeen r' = (pr_terminalSeen r \<or> (\<not> choicesThrow parsed \<and> TerminalResponsesEvent [] parsed))"
proof (cases "choicesThrow parsed")
  case True
  then show ?thesis using assms(2) by (simp add: processChunk_def)
next
  case False
  let ?t = "TerminalResponsesEvent [] parsed"
  define r1 where "r1 = (if ?t then r\<lparr>pr_terminalSeen := True\<rparr> else r)"
  have c1: "closing_ok r1" using assms(2) closing_terminal by (simp add: r1_def)
  have f1: "pr_frames r1 = pr_frames r" "pr_doneSent r1 = pr_doneSent r" "pr_terminalSeen r1 = (pr_terminalSeen r \<or> ?t)"
    by (auto simp: r1_def)
  obtain p touched where rep: "repairChunk tk parsed = (p, touched)" by force
  show ?thesis
  proof (cases "hasValuableContent p")
    case no: False
    then have "processChunk env cfg tk line parsed r = (None, r1)"
      using False rep by (simp add: processChunk_def r1_def [symmetric] Let_def)
    then show ?thesis using c1 f1 False by simp
  next
    case True
    define r2 where "r2 = r1\<lparr>pr_progress := accumulate (firstDelta p) (pr_progress r1)\<rparr>"
    define r3 where "r3 = (if extractAnyUsage (re_num env) p \<noteq> None
      then r2\<lparr>pr_trackedUsage := mergeTracked (pr_trackedUsage r2) (extractAnyUsage (re_num env) p)\<rparr> else r2)"
    obtain f tracked where seam: "usageSeam env cfg line p touched r3 = (f, tracked)" by force
    define r4 where "r4 = r3\<lparr>pr_trackedUsage := tracked\<rparr>"
    have f4: "pr_frames r4 = pr_frames r1" "pr_doneSent r4 = pr_doneSent r1" "pr_terminalSeen r4 = pr_terminalSeen r1"
      by (simp_all add: r4_def r3_def r2_def)
    then have c4: "closing_ok r4" using c1 closing_cong [of r4 r1] by simp
    let ?r5 = "r4\<lparr>pr_frames := pr_frames r4 @ [f]\<rparr>"
    have nf: "\<not> isS f" "\<not> isF f" using usageSeam_frame [OF seam] by auto
    have c5: "closing_ok ?r5" by (rule closing_plain [OF c4 nf])
    have "processChunk env cfg tk line parsed r = (None, if ?t then finalize env cfg ?r5 else ?r5)"
      unfolding processChunk_def Let_def rep prod.case r1_def [symmetric] r2_def [symmetric] r3_def [symmetric] seam r4_def [symmetric]
        writeRaw_ok [OF assms(1)] option.case
      using False True by (simp del: not_None_eq)
    moreover have "closing_ok (if ?t then finalize env cfg ?r5 else ?r5)"
      using c5 closing_cong [of "finalize env cfg ?r5" ?r5] by simp
    ultimately show ?thesis using f1 f4 nf False by simp
  qed
qed

section \<open>The responses route\<close>

text \<open>The lines that end a Responses stream: a terminal event that is neither dropped nor the sentinel, and the sentinel.\<close>

definition terminalLine :: "codec \<Rightarrow> string \<Rightarrow> bool" where
  "terminalLine co line =
     (let c = classifyDataLine co line in
      lc_is_data c \<and> \<not> lc_is_done c \<and>
      (case lc_parsed c of None \<Rightarrow> False | Some p \<Rightarrow> \<not> choicesThrow p \<and> TerminalResponsesEvent [] p))"

definition doneLine :: "codec \<Rightarrow> string \<Rightarrow> bool" where
  "doneLine co line = (lc_is_data (classifyDataLine co line) \<and> lc_is_done (classifyDataLine co line))"

text \<open>How one call moves the relay towards its close.\<close>

definition closes :: "pass_relay \<Rightarrow> bool \<Rightarrow> bool \<Rightarrow> pass_relay \<Rightarrow> bool" where
  "closes r terminal done r' \<longleftrightarrow> closing_ok r' \<and> pr_doneSent r' = (pr_doneSent r \<or> done) \<and>
     pr_terminalSeen r' = (pr_terminalSeen r \<or> terminal \<or> done) \<and>
     (filter isF (pr_frames r') = [] \<longleftrightarrow> filter isF (pr_frames r) = [] \<and> (done \<longrightarrow> pr_terminalSeen r))"

lemma write_closes:
  assumes "never_fails env" and "closing_ok r" and "\<not> isS f" and "\<not> isF f"
  shows "\<exists>r'. writeRaw env f r = (None, r') \<and> closes r False False r'"
  using closing_plain [OF assms(2-4)] assms(4) by (simp add: writeRaw_ok [OF assms(1)] closes_def)

lemma emit_closes:
  assumes "never_fails env" and "closing_ok r"
  shows "\<exists>r'. emitResponsesDone env tk x r = (None, r') \<and> closes r False True r'"
  using emit_ok [OF assms, of tk x] by (auto simp: closes_def)

lemma chunk_closes:
  assumes "never_fails env" and "closing_ok r"
  shows "\<exists>r'. processChunk env cfg tk line parsed r = (None, r') \<and>
     closes r (\<not> choicesThrow parsed \<and> TerminalResponsesEvent [] parsed) False r'"
  using processChunk_ok [OF assms, of cfg tk line parsed] by (auto simp: closes_def)

lemma line_closes:
  assumes "never_fails env" and "closing_ok r" and "pc_format cfg = FormatResponses"
  shows "\<exists>r'. ProcessLine env cfg tk line r = (None, r') \<and>
     closes r (terminalLine (re_codec env) line) (doneLine (re_codec env) line) r'"
proof -
  define c where "c = classifyDataLine (re_codec env) line"
  have self: "closes r False False r" using assms(2) by (simp add: closes_def)
  have raw: "\<exists>r'. writeRaw env (Forward s) r = (None, r') \<and> closes r False False r'" for s
    by (rule write_closes [OF assms(1,2)]) simp_all
  show ?thesis
    using raw [of "normalizeDataPrefix line"] self assms(3) emit_closes [OF assms(1,2), of tk "normalizeDataPrefix line"]
      chunk_closes [OF assms(1,2), of cfg tk line]
    by (auto simp: ProcessLine_def terminalLine_def doneLine_def c_def [symmetric] Let_def split: option.splits)
qed

lemma tail_closes:
  assumes "never_fails env" and "closing_ok r" and "pc_format cfg = FormatResponses"
  shows "\<exists>r'. ProcessTail env cfg tk line r = (None, r') \<and> closes r False (line \<noteq> [] \<and> doneLine (re_codec env) line) r'"
proof -
  have self: "closes r False False r" using assms(2) by (simp add: closes_def)
  have raw: "\<exists>r'. writeRaw env (Forward s) r = (None, r') \<and> closes r False False r'" for s
    by (rule write_closes [OF assms(1,2)]) simp_all
  show ?thesis
    using raw [of line] raw [of "''data: '' @ drop 5 line"] self assms(3) emit_closes [OF assms(1,2), of tk doneFrame]
    by (auto simp: ProcessTail_def doneLine_def)
qed

text \<open>Whether a failure frame is due after the lines, given whether a terminal event came before them.\<close>

fun lines_fail :: "codec \<Rightarrow> bool \<Rightarrow> string list \<Rightarrow> bool" where
  "lines_fail co seen [] = False"
| "lines_fail co seen (l # ls) =
     (if doneLine co l then \<not> seen
      else lines_fail co (seen \<or> terminalLine co l) ls)"

lemma closes_seen:
  "closes r t d r' \<Longrightarrow> pr_terminalSeen r \<Longrightarrow> pr_terminalSeen r' \<and> (filter isF (pr_frames r') = [] \<longleftrightarrow> filter isF (pr_frames r) = [])"
  by (auto simp: closes_def)

lemma lines_fail_seen [simp]: "lines_fail co True ls = False"
  by (induction ls) auto

lemma runLines_closes:
  assumes "never_fails env" and "pc_format cfg = FormatResponses"
  shows "closing_ok r \<Longrightarrow> \<exists>r'. runLines env cfg ls r = (None, r') \<and> closing_ok r' \<and>
     pr_terminalSeen r' = (pr_terminalSeen r \<or> list_ex (terminalLine (re_codec env)) (map snd ls) \<or> list_ex (doneLine (re_codec env)) (map snd ls)) \<and>
     (filter isF (pr_frames r') = [] \<longleftrightarrow> filter isF (pr_frames r) = [] \<and> \<not> lines_fail (re_codec env) (pr_terminalSeen r) (map snd ls))"
proof (induction ls arbitrary: r)
  case (Cons p ls)
  obtain tk line where p: "p = (tk, line)" by force
  obtain r1 where r1: "ProcessLine env cfg tk line r = (None, r1)"
    and c1: "closes r (terminalLine (re_codec env) line) (doneLine (re_codec env) line) r1"
    using line_closes [OF assms(1) Cons.prems assms(2)] by blast
  from c1 have "closing_ok r1" by (simp add: closes_def)
  from Cons.IH [OF this] c1 show ?case
    by (auto simp: p r1 closes_def)
qed simp

text \<open>
  A Responses stream is always closed, whatever the upstream sent: when the client keeps reading, the
  relay ends without an error, has written exactly one sentinel and at most one failure event, has written no
  failure event after the sentinel, and has finalized its usage. It writes the synthesized failure event
  exactly when the first sentinel (or the end of the stream, when there is none) comes before any terminal event.
\<close>

theorem responses_stream_closed:
  assumes "never_fails env" and "pc_format cfg = FormatResponses"
  shows "case runStream env cfg ls rest tk of (e, r) \<Rightarrow>
     e = None \<and> length (filter isS (pr_frames r)) = 1 \<and> length (filter isF (pr_frames r)) \<le> 1 \<and>
     list_all (\<lambda>f. \<not> isF f) (dropWhile (\<lambda>f. \<not> isS f) (pr_frames r)) \<and> pr_finalized r \<and>
     (filter isF (pr_frames r) \<noteq> []) =
       (if list_ex (doneLine (re_codec env)) (map snd ls) then lines_fail (re_codec env) False (map snd ls)
        else \<not> list_ex (terminalLine (re_codec env)) (map snd ls))"
proof -
  let ?co = "re_codec env"
  have c0: "closing_ok NewPassthroughRelay" by (simp add: closing_ok_def NewPassthroughRelay_def)
  have i0: "\<not> pr_terminalSeen NewPassthroughRelay" "pr_frames NewPassthroughRelay = []"
    by (simp_all add: NewPassthroughRelay_def)
  obtain r1 where r1: "runLines env cfg ls NewPassthroughRelay = (None, r1)" "closing_ok r1"
      "pr_terminalSeen r1 = (list_ex (terminalLine ?co) (map snd ls) \<or> list_ex (doneLine ?co) (map snd ls))"
      "filter isF (pr_frames r1) = [] \<longleftrightarrow> \<not> lines_fail ?co False (map snd ls)"
    using runLines_closes [OF assms c0, of ls] i0 by auto
  obtain r2 where r2: "ProcessTail env cfg (fst rest) (snd rest) r1 = (None, r2)"
      "closes r1 False (snd rest \<noteq> [] \<and> doneLine ?co (snd rest)) r2"
    using tail_closes [OF assms(1) r1(2) assms(2)] by blast
  from r2(2) have k2: "closing_ok r2" by (simp add: closes_def)
  obtain r3 where r3: "emitResponsesDone env tk doneFrame r2 = (None, r3)" "closes r2 False True r3"
    using emit_closes [OF assms(1) k2] by blast
  have run: "runStream env cfg ls rest tk = (None, finalize env cfg r3)"
    using assms(2) by (simp add: runStream_def r1(1) r2(1) Flush_def r3(1))
  have nf: "\<not> list_ex (doneLine ?co) ls' \<Longrightarrow> \<not> lines_fail ?co seen ls'" for ls' seen
    by (induction ls' arbitrary: seen) auto
  have fail: "filter isF (pr_frames r3) \<noteq> [] \<longleftrightarrow> (if list_ex (doneLine ?co) (map snd ls) then lines_fail ?co False (map snd ls)
        else \<not> list_ex (terminalLine ?co) (map snd ls))"
    using r1(3,4) r2(2) r3(2) nf [of "map snd ls" False] unfolding closes_def by auto
  show ?thesis using r3(2) fail unfolding run by (simp add: closes_def closing_ok_def)
qed

text \<open>A client that keeps reading; an upstream whose only text \<^verbatim>\<open>T\<close> stands for a completed event.\<close>

definition demo_env :: relay_env where
  "demo_env = \<lparr>re_num = \<lparr>ne_round = Fin, ne_parse = (\<lambda>_. (NaN, None)), ne_format_f = (\<lambda>_. []), ne_format_g = (\<lambda>_. [])\<rparr>,
     re_codec = \<lparr>co_encode = (\<lambda>_. Some ''{}''),
       co_decode = (\<lambda>s. if s = ''T'' then Some (JObj [(''type'', JStr ''response.completed'')]) else None),
       co_valid = (\<lambda>_. True), co_sprint = (\<lambda>_. [])\<rparr>,
     re_encode_raw = (\<lambda>_. Some ''{}''), re_fail = (\<lambda>_. None)\<rparr>"

definition demo_cfg :: pass_cfg where
  "demo_cfg = \<lparr>pc_body = JObj [], pc_format = FormatResponses, pc_synthesis = \<lparr>sy_enabled = False, sy_ratio = DefaultRatio\<rparr>\<rparr>"

definition demo_ticks :: ticks where
  "demo_ticks = \<lparr>tk_id = 5, tk_created = 5, tk_failure = 5\<rparr>"

theorem responses_stream_closed_witness:
  "length (filter isF (pr_frames (snd (runStream demo_env demo_cfg
      [(demo_ticks, ''data: T''), (demo_ticks, ''data: '' @ [CHR 0x5B] @ ''DONE'' @ [CHR 0x5D])] (demo_ticks, []) demo_ticks)))) = 0 \<and>
   length (filter isS (pr_frames (snd (runStream demo_env demo_cfg
      [(demo_ticks, ''data: T''), (demo_ticks, ''data: '' @ [CHR 0x5B] @ ''DONE'' @ [CHR 0x5D])] (demo_ticks, []) demo_ticks)))) = 1 \<and>
   length (filter isF (pr_frames (snd (runStream demo_env demo_cfg [] (demo_ticks, []) demo_ticks)))) = 1"
proof -
  let ?ls = "[(demo_ticks, ''data: T''), (demo_ticks, ''data: '' @ [CHR 0x5B] @ ''DONE'' @ [CHR 0x5D])]"
  have h: "never_fails demo_env" "pc_format demo_cfg = FormatResponses"
    by (simp_all add: never_fails_def demo_env_def demo_cfg_def)
  have t: "list_ex (doneLine (re_codec demo_env)) (map snd ?ls)" by code_simp
  have u: "\<not> lines_fail (re_codec demo_env) False (map snd ?ls)" by code_simp
  note closed = responses_stream_closed [OF h, of ?ls "(demo_ticks, [])" demo_ticks]
  note bare = responses_stream_closed [OF h, of "[]" "(demo_ticks, [])" demo_ticks]
  have a: "filter isF (pr_frames (snd (runStream demo_env demo_cfg ?ls (demo_ticks, []) demo_ticks))) = []"
    using closed t u by (auto simp only: case_prod_beta if_True)
  have b: "length (filter isS (pr_frames (snd (runStream demo_env demo_cfg ?ls (demo_ticks, []) demo_ticks)))) = 1"
    using closed by (auto simp only: case_prod_beta)
  have c: "filter isF (pr_frames (snd (runStream demo_env demo_cfg [] (demo_ticks, []) demo_ticks))) \<noteq> []"
      "length (filter isF (pr_frames (snd (runStream demo_env demo_cfg [] (demo_ticks, []) demo_ticks)))) \<le> 1"
    using bare by (simp_all add: case_prod_beta)
  have d: "length (filter isF (pr_frames (snd (runStream demo_env demo_cfg [] (demo_ticks, []) demo_ticks)))) = 1"
    using c(2) c(1) [folded length_0_conv] by linarith
  show ?thesis using a b d by simp
qed

end
