(* ===== verification/Chunk.thy ===== *)
theory Chunk
  imports Cloak
begin

text \<open>
  Helpers of the stream translators (\<^verbatim>\<open>internal/translate/chunk.go\<close>): the chat chunk and its usage block,
  the reasoning text of a delta, and JavaScript's coercions of decoded values to strings, numbers,
  map keys and indices.

  A Go integer put into a message is the number it prints as. What a conversion from \<^verbatim>\<open>float64\<close> to
  \<^verbatim>\<open>int64\<close> gives outside the range depends on the machine; it is the parameter \<open>ce_int64\<close>, read as a 64-bit
  value. \<open>ce_stringify\<close> is the JSON encoder without HTML escapes.
\<close>

record chunk_env =
  ce_num :: num_env
  ce_codec :: codec
  ce_stringify :: "json \<Rightarrow> string option"
  ce_int64 :: "f64 \<Rightarrow> int"

abbreviation jint :: "int \<Rightarrow> json" where
  "jint n \<equiv> JNum (Fin (of_int n))"

definition ModelFallback :: string where
  "ModelFallback = ''unknown''"

definition BuildChunk :: "string \<Rightarrow> int \<Rightarrow> string \<Rightarrow> jmap \<Rightarrow> json \<Rightarrow> jmap" where
  "BuildChunk i created model delta finishReason =
     [(''id'', JStr i), (''object'', JStr ''chat.completion.chunk''), (''created'', jint created), (''model'', JStr model),
      (''choices'', JArr [JObj [(''index'', jint 0), (''delta'', JObj delta), (''finish_reason'', finishReason)]])]"

section \<open>Coercions\<close>

definition toInt64 :: "chunk_env \<Rightarrow> f64 \<Rightarrow> int" where
  "toInt64 E f = (case f of
     Fin q \<Rightarrow> let n = (if 0 \<le> q then \<lfloor>q\<rfloor> else \<lceil>q\<rceil>) in if in64 n then n else wrap64 (ce_int64 E f)
   | _ \<Rightarrow> wrap64 (ce_int64 E f))"

definition jsNumString :: "chunk_env \<Rightarrow> f64 \<Rightarrow> string" where
  "jsNumString E f = (case f of
     Fin q \<Rightarrow> if q = of_int \<lfloor>q\<rfloor> \<and> \<bar>q\<bar> < 10 ^ 21 then itoa (toInt64 E f) else ne_format_g (ce_num E) q
   | PInf \<Rightarrow> ''+Inf''
   | NInf \<Rightarrow> ''-Inf''
   | NaN \<Rightarrow> ''NaN'')"

fun jsStringOf :: "chunk_env \<Rightarrow> json \<Rightarrow> string" where
  "jsStringOf E (JStr s) = s"
| "jsStringOf E (JBool b) = (if b then ''true'' else ''false'')"
| "jsStringOf E (JNum n) = jsNumString E n"
| "jsStringOf E (JArr a) = joinWith '','' (map (\<lambda>e. if e = JNull then [] else jsStringOf E e) a)"
| "jsStringOf E JNull = ''null''"
| "jsStringOf E (JObj _) = [CHR 0x5B] @ ''object Object'' @ [CHR 0x5D]"

definition jsConcatOperand :: "json \<Rightarrow> bool" where
  "jsConcatOperand v = (case v of JStr _ \<Rightarrow> True | JArr _ \<Rightarrow> True | JObj _ \<Rightarrow> True | _ \<Rightarrow> False)"

definition jsAdd :: "chunk_env \<Rightarrow> json \<Rightarrow> json \<Rightarrow> json" where
  "jsAdd E a b =
     (if jsConcatOperand a \<or> jsConcatOperand b then JStr (jsStringOf E a @ jsStringOf E b)
      else JNum (f_add (ce_num E) (NumCoerce (ce_num E) a) (NumCoerce (ce_num E) b)))"

definition jsGT0 :: "chunk_env \<Rightarrow> json \<Rightarrow> bool" where
  "jsGT0 E v = f_lt (Fin 0) (NumCoerce (ce_num E) v)"

definition jsonStringifyOf :: "chunk_env \<Rightarrow> json \<Rightarrow> string" where
  "jsonStringifyOf E v = (case ce_stringify E v of None \<Rightarrow> ''null'' | Some s \<Rightarrow> s)"

definition JSONStringifyStr :: "chunk_env \<Rightarrow> json \<Rightarrow> string" where
  "JSONStringifyStr E v = (case v of
     JStr s \<Rightarrow> s
   | _ \<Rightarrow> (case co_encode (ce_codec E) v of None \<Rightarrow> ''null'' | Some b \<Rightarrow> b))"

definition mapKeyOf :: "chunk_env \<Rightarrow> json \<Rightarrow> string" where
  "mapKeyOf E v = (case v of
     JStr t \<Rightarrow> ''s:'' @ t
   | JNum n \<Rightarrow> ''n:'' @ jsNumString E n
   | JBool b \<Rightarrow> if b then ''b:true'' else ''b:false''
   | _ \<Rightarrow> ''j:'' @ jsonStringifyOf E v)"

definition jsIndex :: "chunk_env \<Rightarrow> json \<Rightarrow> int" where
  "jsIndex E v = (case v of
     JNum n \<Rightarrow> toInt64 E n
   | JStr s \<Rightarrow> (case atoi s of Some n \<Rightarrow> n | None \<Rightarrow> 0)
   | _ \<Rightarrow> 0)"

lemma toInt64_in64: "in64 (toInt64 E f)"
  by (auto simp: toInt64_def Let_def split: f64.splits)

lemma atoi_in64: "atoi s = Some n \<Longrightarrow> in64 n"
  by (auto simp: atoi_def Let_def split: prod.splits option.splits if_splits)

lemma jsIndex_in64: "in64 (jsIndex E v)"
  by (auto simp: jsIndex_def toInt64_in64 atoi_in64 in64_def [of 0] split: json.splits option.splits)

lemma toInt64_int: "in64 n \<Longrightarrow> toInt64 E (Fin (of_int n)) = n"
  by (simp add: toInt64_def)

lemma jsIndex_jint: "in64 n \<Longrightarrow> jsIndex E (jint n) = n"
  by (simp add: jsIndex_def toInt64_int)

lemma in64_small: "in64 n \<Longrightarrow> \<bar>of_int n :: rat\<bar> < 10 ^ 21"
proof -
  assume "in64 n"
  then have "\<bar>n\<bar> < 10 ^ 21" by (auto simp: in64_def)
  then have "(of_int \<bar>n\<bar> :: rat) < of_int (10 ^ 21)" by (simp only: of_int_less_iff)
  then show ?thesis by simp
qed

lemma mapKeyOf_jint: "in64 n \<Longrightarrow> mapKeyOf E (jint n) = ''n:'' @ itoa n"
  using in64_small [of n] by (simp add: mapKeyOf_def jsNumString_def toInt64_int)

section \<open>Usage and reasoning\<close>

definition BuildUsage :: "chunk_env \<Rightarrow> json \<Rightarrow> json \<Rightarrow> json \<Rightarrow> json \<Rightarrow> json \<Rightarrow> json \<Rightarrow> jmap" where
  "BuildUsage E prompt completion tokens cached cacheCreation reasoning =
     (let u = [(''prompt_tokens'', prompt), (''completion_tokens'', completion), (''total_tokens'', tokens)];
          d1 = (if jsGT0 E cached then [(''cached_tokens'', cached)] else []);
          d2 = (if jsGT0 E cacheCreation then d1 @ [(''cache_creation_tokens'', cacheCreation)] else d1);
          u1 = (if jsGT0 E cached \<or> jsGT0 E cacheCreation then gm_set ''prompt_tokens_details'' (JObj d2) u else u)
      in if jsGT0 E reasoning then gm_set ''completion_tokens_details'' (JObj [(''reasoning_tokens'', reasoning)]) u1 else u1)"

definition ReasoningDelta :: "json \<Rightarrow> jmap" where
  "ReasoningDelta v = [(''reasoning_content'', v)]"

definition detailText :: "json \<Rightarrow> string" where
  "detailText d = (case d of
     JStr s \<Rightarrow> s
   | JObj v \<Rightarrow> if asStr (mget v ''text'') \<noteq> [] then asStr (mget v ''text'') else asStr (mget v ''content'')
   | _ \<Rightarrow> [])"

definition ExtractReasoningText :: "jmap \<Rightarrow> string" where
  "ExtractReasoningText delta =
     (if asStr (mget delta ''reasoning_content'') \<noteq> [] then asStr (mget delta ''reasoning_content'')
      else if asStr (mget delta ''reasoning'') \<noteq> [] then asStr (mget delta ''reasoning'')
      else case mget delta ''reasoning_details'' of
        JArr details \<Rightarrow> concat (map detailText details)
      | _ \<Rightarrow> [])"

definition FallbackToolCallID :: "int \<Rightarrow> string" where
  "FallbackToolCallID milli = ''call_'' @ itoa milli"

end
