(* ===== verification/RespToChat.thy ===== *)
theory RespToChat
  imports Chunk
begin

text \<open>
  The translator for a Responses upstream and a chat client
  (\<^verbatim>\<open>internal/translate/stream_resp2chat.go\<close>). \<open>ms\<close> gives the clock readings of one call, in milliseconds,
  by the place that reads: 0 and 1 at the start, 2 for a missing call id, 3 and 4 in a final chunk.
\<close>

record r2c =
  rc_Started :: bool
  rc_ChatID :: string
  rc_Created :: int
  rc_Model :: string
  rc_ToolCallIndex :: int
  rc_CurrentToolCall :: json
  rc_RespToolChatIndex :: "(string, int) gomap"
  rc_RespToolArgsEmitted :: "(string, bool) gomap"
  rc_FinishReasonSent :: bool
  rc_FinishReason :: string
  rc_Usage :: "jmap option"
  rc_Error :: json

definition NewRespToChatState :: "string \<Rightarrow> r2c" where
  "NewRespToChatState model = \<lparr>rc_Started = False, rc_ChatID = [], rc_Created = 0, rc_Model = model, rc_ToolCallIndex = 0,
     rc_CurrentToolCall = JNull, rc_RespToolChatIndex = [], rc_RespToolArgsEmitted = [], rc_FinishReasonSent = False,
     rc_FinishReason = [], rc_Usage = None, rc_Error = JNull\<rparr>"

definition modelOrFallback :: "r2c \<Rightarrow> string" where
  "modelOrFallback s = (if rc_Model s \<noteq> [] then rc_Model s else ModelFallback)"

definition chunk :: "r2c \<Rightarrow> jmap \<Rightarrow> json \<Rightarrow> jmap" where
  "chunk s delta finish = BuildChunk (rc_ChatID s) (rc_Created s) (modelOrFallback s) delta finish"

definition computeFinishReason :: "r2c \<Rightarrow> string" where
  "computeFinishReason s = (if rc_ToolCallIndex s > 0 \<or> rc_CurrentToolCall s \<noteq> JNull then ''tool_calls'' else ''stop'')"

definition chunkId :: "(nat \<Rightarrow> int) \<Rightarrow> r2c \<Rightarrow> string" where
  "chunkId ms s = (if rc_ChatID s = [] then ''chatcmpl-'' @ itoa (ms 3) else rc_ChatID s)"

definition chunkCreated :: "(nat \<Rightarrow> int) \<Rightarrow> r2c \<Rightarrow> int" where
  "chunkCreated ms s = (if rc_Created s = 0 then ms 4 sdiv 1000 else rc_Created s)"

definition finalChunk :: "(nat \<Rightarrow> int) \<Rightarrow> r2c \<Rightarrow> jmap option \<times> r2c" where
  "finalChunk ms s =
     (let finish = computeFinishReason s;
          s1 = s\<lparr>rc_FinishReasonSent := True, rc_FinishReason := finish\<rparr>;
          final = BuildChunk (chunkId ms s1) (chunkCreated ms s1) (modelOrFallback s1) [] (JStr finish)
      in (Some (case rc_Usage s1 of None \<Rightarrow> final | Some u \<Rightarrow> gm_set ''usage'' (JObj u) final), s1))"

definition start :: "(nat \<Rightarrow> int) \<Rightarrow> r2c \<Rightarrow> r2c" where
  "start ms s =
     (if rc_Started s then s
      else s\<lparr>rc_Started := True, rc_ChatID := ''chatcmpl-'' @ itoa (ms 0), rc_Created := ms 1 sdiv 1000, rc_ToolCallIndex := 0,
             rc_CurrentToolCall := JNull\<rparr>)"

section \<open>One event\<close>

definition isCall :: "json \<Rightarrow> bool" where
  "isCall item = (let t = asStr (Get item ''type'') in t = ''function_call'' \<or> t = ''custom_tool_call'')"

definition lastIndex :: "r2c \<Rightarrow> int" where
  "lastIndex s = max 0 (rc_ToolCallIndex s - 1)"

definition callChunk :: "r2c \<Rightarrow> jmap \<Rightarrow> jmap option" where
  "callChunk s call = Some (chunk s [(''tool_calls'', JArr [JObj call])] JNull)"

definition onItemAdded :: "chunk_env \<Rightarrow> (nat \<Rightarrow> int) \<Rightarrow> jmap \<Rightarrow> r2c \<Rightarrow> jmap option \<times> r2c" where
  "onItemAdded E ms data s =
     (let item = mget data ''item'' in
      if \<not> isCall item then (None, s)
      else
        let callID = Get item ''call_id'';
            s1 = s\<lparr>rc_CurrentToolCall := (if truthy callID then callID else JStr (FallbackToolCallID (ms 2)))\<rparr>;
            key = (if truthy (Get item ''id'') then Get item ''id''
                   else if truthy (mget data ''item_id'') then mget data ''item_id'' else rc_CurrentToolCall s1);
            (idx, s2) = (case gm_get (rc_RespToolChatIndex s1) (mapKeyOf E key) of
                Some prev \<Rightarrow> (prev, s1)
              | None \<Rightarrow> (rc_ToolCallIndex s1, s1\<lparr>rc_ToolCallIndex := rc_ToolCallIndex s1 + 1,
                    rc_RespToolChatIndex := gm_set (mapKeyOf E key) (rc_ToolCallIndex s1) (rc_RespToolChatIndex s1)\<rparr>))
        in (callChunk s2 [(''index'', jint idx), (''id'', rc_CurrentToolCall s2), (''type'', JStr ''function''),
              (''function'', JObj [(''name'', JStr (asStr (Get item ''name''))), (''arguments'', JStr [])])], s2))"

definition onArgsDelta :: "chunk_env \<Rightarrow> jmap \<Rightarrow> r2c \<Rightarrow> jmap option \<times> r2c" where
  "onArgsDelta E data s =
     (let argsDelta = mget data ''delta'' in
      if \<not> truthy argsDelta then (None, s)
      else
        let itemID = mget data ''item_id'';
            known = (if truthy itemID then gm_get (rc_RespToolChatIndex s) (mapKeyOf E itemID) else None);
            idx = (case known of Some i \<Rightarrow> i | None \<Rightarrow> lastIndex s);
            s1 = s\<lparr>rc_RespToolArgsEmitted := gm_set (mapKeyOf E (jint idx)) True (rc_RespToolArgsEmitted s)\<rparr>
        in (callChunk s1 [(''index'', jint idx), (''function'', JObj [(''arguments'', argsDelta)])], s1))"

definition onItemDone :: "chunk_env \<Rightarrow> jmap \<Rightarrow> r2c \<Rightarrow> jmap option \<times> r2c" where
  "onItemDone E data s =
     (let item = mget data ''item'' in
      if \<not> isCall item then (None, s)
      else
        let key = (if truthy (Get item ''id'') then Get item ''id'' else mget data ''item_id'');
            idx = (if key = JNull then jint (lastIndex s)
                   else if truthy key then (case gm_get (rc_RespToolChatIndex s) (mapKeyOf E key) of
                       Some known \<Rightarrow> jint known | None \<Rightarrow> jint (lastIndex s))
                   else key);
            fullArgs = asStr (Get item ''arguments'')
        in if fullArgs \<noteq> [] \<and> gm_get (rc_RespToolArgsEmitted s) (mapKeyOf E idx) \<noteq> Some True then
             let s1 = s\<lparr>rc_RespToolArgsEmitted := gm_set (mapKeyOf E idx) True (rc_RespToolArgsEmitted s)\<rparr>
             in (callChunk s1 [(''index'', idx), (''function'', JObj [(''arguments'', JStr fullArgs)])], s1)
           else (None, s))"

definition orElse :: "json \<Rightarrow> json \<Rightarrow> json" where
  "orElse a b = (if truthy a then a else b)"

definition responseUsage :: "chunk_env \<Rightarrow> json \<Rightarrow> jmap" where
  "responseUsage E u =
     (let inputTokens = orElse (orElse (Get u ''input_tokens'') (Get u ''prompt_tokens'')) (jint 0);
          outputTokens = orElse (orElse (Get u ''output_tokens'') (Get u ''completion_tokens'')) (jint 0);
          cacheRead = orElse (orElse (Get (Get u ''input_tokens_details'') ''cached_tokens'') (Get u ''cache_read_input_tokens'')) (jint 0)
      in BuildUsage E inputTokens outputTokens (jsAdd E inputTokens outputTokens) cacheRead (jint 0) (jint 0))"

definition onCompleted :: "chunk_env \<Rightarrow> (nat \<Rightarrow> int) \<Rightarrow> jmap \<Rightarrow> r2c \<Rightarrow> jmap option \<times> r2c" where
  "onCompleted E ms data s =
     (let u = Get (mget data ''response'') ''usage'';
          s1 = (if (case u of JObj _ \<Rightarrow> True | JArr _ \<Rightarrow> True | _ \<Rightarrow> False) then s\<lparr>rc_Usage := Some (responseUsage E u)\<rparr> else s)
      in if \<not> rc_FinishReasonSent s1 then finalChunk ms s1 else (None, s1))"

definition onFailed :: "chunk_env \<Rightarrow> (nat \<Rightarrow> int) \<Rightarrow> jmap \<Rightarrow> r2c \<Rightarrow> jmap option \<times> r2c" where
  "onFailed E ms data s =
     (if rc_FinishReasonSent s then (None, s)
      else
        let errVal = orElse (mget data ''error'') (Get (mget data ''response'') ''error'') in
        if \<not> truthy errVal then (None, s)
        else
          let s1 = s\<lparr>rc_Error := errVal, rc_FinishReasonSent := True\<rparr>;
              m = Get errVal ''message'';
              msg = (if truthy m then jsStringOf E m else jsonStringifyOf E errVal)
          in (Some (BuildChunk (chunkId ms s1) (chunkCreated ms s1) (modelOrFallback s1)
                [(''content'', JStr ([CHR 0x5B] @ ''Error'' @ [CHR 0x5D] @ '' '' @ msg))] (JStr ''stop'')), s1))"

definition onDelta :: "(json \<Rightarrow> jmap) \<Rightarrow> jmap \<Rightarrow> r2c \<Rightarrow> jmap option \<times> r2c" where
  "onDelta f data s =
     (if truthy (mget data ''delta'') then (Some (chunk s (f (mget data ''delta'')) JNull), s) else (None, s))"

definition eventType :: "jmap \<Rightarrow> string" where
  "eventType c = (if asStr (mget c ''type'') \<noteq> [] then asStr (mget c ''type'') else asStr (mget c ''event''))"

definition eventData :: "jmap \<Rightarrow> jmap" where
  "eventData c = (case mget c ''data'' of JObj d \<Rightarrow> d | _ \<Rightarrow> c)"

definition Convert :: "chunk_env \<Rightarrow> (nat \<Rightarrow> int) \<Rightarrow> jmap option \<Rightarrow> r2c \<Rightarrow> jmap option \<times> r2c" where
  "Convert E ms input s = (case input of
     None \<Rightarrow> if rc_FinishReasonSent s \<or> \<not> rc_Started s then (None, s) else finalChunk ms s
   | Some c \<Rightarrow>
       let t = eventType c; data = eventData c; s1 = start ms s in
       if t = ''response.output_text.delta'' then onDelta (\<lambda>d. [(''content'', d)]) data s1
       else if t = ''response.output_text.done'' then (None, s1)
       else if t = ''response.output_item.added'' then onItemAdded E ms data s1
       else if t = ''response.function_call_arguments.delta'' \<or> t = ''response.custom_tool_call_input.delta'' then onArgsDelta E data s1
       else if t = ''response.output_item.done'' then onItemDone E data s1
       else if t = ''response.completed'' \<or> t = ''response.done'' then onCompleted E ms data s1
       else if t = ''error'' \<or> t = ''response.failed'' then onFailed E ms data s1
       else if t = ''response.reasoning_summary_text.delta'' then onDelta ReasoningDelta data s1
       else (None, s1))"

section \<open>A stream\<close>

text \<open>The chunks of a stream of events and of the flush at its end.\<close>

fun convertAll :: "chunk_env \<Rightarrow> ((nat \<Rightarrow> int) \<times> jmap) list \<Rightarrow> r2c \<Rightarrow> jmap list \<times> r2c" where
  "convertAll E [] s = ([], s)"
| "convertAll E ((ms, c) # cs) s =
     (let (o1, s1) = Convert E ms (Some c) s; (os, s2) = convertAll E cs s1
      in ((case o1 of None \<Rightarrow> os | Some x \<Rightarrow> x # os), s2))"

definition toChat :: "chunk_env \<Rightarrow> string \<Rightarrow> ((nat \<Rightarrow> int) \<times> jmap) list \<Rightarrow> (nat \<Rightarrow> int) \<Rightarrow> jmap list \<times> r2c" where
  "toChat E model cs ms =
     (let (os, s1) = convertAll E cs (NewRespToChatState model); (o1, s2) = Convert E ms None s1
      in (os @ (case o1 of None \<Rightarrow> [] | Some x \<Rightarrow> [x]), s2))"

section \<open>The state along a stream\<close>

definition firstChoiceOf :: "jmap \<Rightarrow> json" where
  "firstChoiceOf c = (case mget c ''choices'' of JArr (x # _) \<Rightarrow> x | _ \<Rightarrow> JNull)"

definition finish_of :: "jmap \<Rightarrow> json" where
  "finish_of c = Get (firstChoiceOf c) ''finish_reason''"

definition delta_of :: "jmap \<Rightarrow> json" where
  "delta_of c = Get (firstChoiceOf c) ''delta''"

lemma built_reads [simp]:
  "finish_of (BuildChunk i cr m d f) = f" "delta_of (BuildChunk i cr m d f) = JObj d"
  "finish_of (gm_set ''usage'' u (BuildChunk i cr m d f)) = f" "delta_of (gm_set ''usage'' u (BuildChunk i cr m d f)) = JObj d"
  by (simp_all add: finish_of_def delta_of_def firstChoiceOf_def BuildChunk_def mget_def Get_def)

text \<open>Announced calls are numbered from zero in the order of their first announcement.\<close>

definition index_ok :: "r2c \<Rightarrow> bool" where
  "index_ok s \<longleftrightarrow> distinct (map fst (rc_RespToolChatIndex s)) \<and>
     map snd (rc_RespToolChatIndex s) = map int [0..<length (rc_RespToolChatIndex s)] \<and>
     rc_ToolCallIndex s = int (length (rc_RespToolChatIndex s)) \<and>
     (\<not> rc_Started s \<longrightarrow> rc_RespToolChatIndex s = [] \<and> \<not> rc_FinishReasonSent s)"

text \<open>What a call with the output \<open>out\<close> may do to the state.\<close>

definition call_ok :: "r2c \<Rightarrow> jmap option \<Rightarrow> r2c \<Rightarrow> bool" where
  "call_ok s out s' \<longleftrightarrow> index_ok s' \<and> rc_Started s' \<and>
     (\<forall>k i. gm_get (rc_RespToolChatIndex s) k = Some i \<longrightarrow> gm_get (rc_RespToolChatIndex s') k = Some i) \<and>
     (case out of None \<Rightarrow> rc_FinishReasonSent s' = rc_FinishReasonSent s
      | Some c \<Rightarrow> (if finish_of c = JNull then rc_FinishReasonSent s' = rc_FinishReasonSent s
                  else \<not> rc_FinishReasonSent s \<and> rc_FinishReasonSent s' \<and> finish_of c \<in> {JStr ''stop'', JStr ''tool_calls''}))"

lemma new_key_appends: "gm_get m k = None \<Longrightarrow> gm_set k v m = m @ [(k, v)]"
  by (induction m) (auto split: if_splits)

lemma index_ok_new:
  assumes "index_ok s" and "rc_Started s" and "gm_get (rc_RespToolChatIndex s) k = None"
  shows "index_ok (s\<lparr>rc_ToolCallIndex := rc_ToolCallIndex s + 1,
    rc_RespToolChatIndex := gm_set k (rc_ToolCallIndex s) (rc_RespToolChatIndex s)\<rparr>)"
proof -
  have "k \<notin> fst ` set (rc_RespToolChatIndex s)" using assms(3) by (simp add: map_of_eq_None_iff)
  then show ?thesis using assms by (simp add: index_ok_def new_key_appends)
qed

lemma start_ok: "index_ok s \<Longrightarrow> index_ok (start ms s) \<and> rc_Started (start ms s) \<and>
    rc_RespToolChatIndex (start ms s) = rc_RespToolChatIndex s \<and> rc_FinishReasonSent (start ms s) = rc_FinishReasonSent s"
  by (auto simp: start_def index_ok_def)

lemma chunk_reads [simp]: "finish_of (chunk s d f) = f" "delta_of (chunk s d f) = JObj d"
  by (simp_all add: chunk_def)

lemma finish_value: "computeFinishReason s = ''stop'' \<or> computeFinishReason s = ''tool_calls''"
  by (simp add: computeFinishReason_def)

lemma call_ok_cong: "rc_RespToolChatIndex t = rc_RespToolChatIndex s \<Longrightarrow> rc_FinishReasonSent t = rc_FinishReasonSent s \<Longrightarrow>
    call_ok t out s' = call_ok s out s'"
  by (simp add: call_ok_def split: option.split)

lemma final_ok: "index_ok s \<Longrightarrow> rc_Started s \<Longrightarrow> \<not> rc_FinishReasonSent s \<Longrightarrow> finalChunk ms s = (out, s') \<Longrightarrow>
    call_ok s out s' \<and> rc_FinishReasonSent s'"
  using finish_value [of s] by (auto simp: finalChunk_def Let_def call_ok_def index_ok_def split: option.splits)

lemma added_ok:
  assumes "index_ok s" and "rc_Started s" and run: "onItemAdded E ms data s = (out, s')"
  shows "call_ok s out s'"
proof (cases "isCall (mget data ''item'')")
  case False
  then show ?thesis using assms by (auto simp: onItemAdded_def call_ok_def)
next
  case True
  define t where "t = s\<lparr>rc_CurrentToolCall := (if truthy (Get (mget data ''item'') ''call_id'')
     then Get (mget data ''item'') ''call_id'' else JStr (FallbackToolCallID (ms 2)))\<rparr>"
  have t: "index_ok t" "rc_Started t" "rc_RespToolChatIndex t = rc_RespToolChatIndex s"
      "rc_FinishReasonSent t = rc_FinishReasonSent s" "rc_ToolCallIndex t = rc_ToolCallIndex s"
    using assms(1,2) by (simp_all add: t_def index_ok_def)
  show ?thesis
    using run True t index_ok_new [OF t(1,2)]
    unfolding onItemAdded_def Let_def t_def [symmetric]
    by (auto simp: call_ok_def callChunk_def gm_get_set split: option.splits)
qed

lemma args_ok: "index_ok s \<Longrightarrow> rc_Started s \<Longrightarrow> onArgsDelta E data s = (out, s') \<Longrightarrow> call_ok s out s'"
  by (auto simp: onArgsDelta_def Let_def call_ok_def callChunk_def index_ok_def split: if_splits)

lemma done_ok: "index_ok s \<Longrightarrow> rc_Started s \<Longrightarrow> onItemDone E data s = (out, s') \<Longrightarrow> call_ok s out s'"
  by (auto simp: onItemDone_def Let_def call_ok_def callChunk_def index_ok_def simp del: not_None_eq split: if_splits)

lemma delta_ok: "index_ok s \<Longrightarrow> rc_Started s \<Longrightarrow> onDelta f data s = (out, s') \<Longrightarrow> call_ok s out s'"
  by (auto simp: onDelta_def call_ok_def split: if_splits)

lemma failed_ok: "index_ok s \<Longrightarrow> rc_Started s \<Longrightarrow> onFailed E ms data s = (out, s') \<Longrightarrow> call_ok s out s'"
  by (auto simp: onFailed_def Let_def call_ok_def index_ok_def split: if_splits)

lemma completed_ok:
  assumes "index_ok s" and "rc_Started s" and run: "onCompleted E ms data s = (out, s')"
  shows "call_ok s out s'"
proof -
  define u where "u = Get (mget data ''response'') ''usage''"
  define t where "t = (if (case u of JObj _ \<Rightarrow> True | JArr _ \<Rightarrow> True | _ \<Rightarrow> False) then s\<lparr>rc_Usage := Some (responseUsage E u)\<rparr> else s)"
  have t: "index_ok t" "rc_Started t" "rc_RespToolChatIndex t = rc_RespToolChatIndex s" "rc_FinishReasonSent t = rc_FinishReasonSent s"
    using assms(1,2) by (simp_all add: t_def index_ok_def)
  have r: "(if \<not> rc_FinishReasonSent t then finalChunk ms t else (None, t)) = (out, s')"
    using run unfolding onCompleted_def Let_def u_def [symmetric] t_def [symmetric] .
  show ?thesis
  proof (cases "rc_FinishReasonSent t")
    case True
    then show ?thesis using r t by (auto simp: call_ok_def)
  next
    case False
    then have "call_ok t out s'" using final_ok [OF t(1,2) False] r by simp
    then show ?thesis using call_ok_cong [OF t(3,4)] by simp
  qed
qed

lemma convert_ok:
  assumes "index_ok s" and run: "Convert E ms (Some c) s = (out, s')"
  shows "call_ok s out s'"
proof -
  let ?t = "start ms s"
  have t: "index_ok ?t" "rc_Started ?t" "rc_RespToolChatIndex ?t = rc_RespToolChatIndex s" "rc_FinishReasonSent ?t = rc_FinishReasonSent s"
    using start_ok [OF assms(1)] by auto
  have none: "call_ok ?t None ?t" using t by (simp add: call_ok_def)
  have "call_ok ?t out s'"
    using run none delta_ok [OF t(1,2)] added_ok [OF t(1,2)] args_ok [OF t(1,2)] done_ok [OF t(1,2)] completed_ok [OF t(1,2)] failed_ok [OF t(1,2)]
    by (auto simp: Convert_def Let_def split: if_splits)
  then show ?thesis using call_ok_cong [OF t(3,4)] by simp
qed

definition finishes :: "jmap list \<Rightarrow> nat" where
  "finishes os = length (filter (\<lambda>c. finish_of c \<noteq> JNull) os)"

lemma convertAll_ok:
  "index_ok s \<Longrightarrow> convertAll E cs s = (os, s') \<Longrightarrow>
     index_ok s' \<and> (rc_Started s' \<longleftrightarrow> rc_Started s \<or> cs \<noteq> []) \<and>
     (\<forall>k i. gm_get (rc_RespToolChatIndex s) k = Some i \<longrightarrow> gm_get (rc_RespToolChatIndex s') k = Some i) \<and>
     finishes os + of_bool (rc_FinishReasonSent s) = of_bool (rc_FinishReasonSent s')"
proof (induction cs arbitrary: s os s')
  case (Cons p cs)
  obtain ms c where p: "p = (ms, c)" by force
  obtain o1 s1 where one: "Convert E ms (Some c) s = (o1, s1)" by force
  obtain rest s2 where rest: "convertAll E cs s1 = (rest, s2)" by force
  have k: "call_ok s o1 s1" by (rule convert_ok [OF Cons.prems(1) one])
  then have "index_ok s1" by (simp add: call_ok_def)
  from Cons.IH [OF this rest] k Cons.prems(2) show ?case
    by (auto simp: p one rest call_ok_def finishes_def of_bool_def split: option.splits if_splits)
qed (simp add: finishes_def)

lemma new_ok: "index_ok (NewRespToChatState model)"
  by (simp add: index_ok_def NewRespToChatState_def)

section \<open>Properties\<close>

lemma chat_once:
  "case toChat E model cs ms of (os, s) \<Rightarrow>
     finishes os = (if cs = [] then 0 else 1) \<and>
     map snd (rc_RespToolChatIndex s) = map int [0..<length (rc_RespToolChatIndex s)] \<and> distinct (map fst (rc_RespToolChatIndex s))"
proof -
  obtain os s1 where run: "convertAll E cs (NewRespToChatState model) = (os, s1)" by force
  have k: "index_ok s1" "rc_Started s1 \<longleftrightarrow> cs \<noteq> []" "finishes os = of_bool (rc_FinishReasonSent s1)"
    using convertAll_ok [OF new_ok run] by (auto simp: NewRespToChatState_def)
  show ?thesis
  proof (cases "rc_FinishReasonSent s1 \<or> \<not> rc_Started s1")
    case True
    then show ?thesis using k by (auto simp: toChat_def run Convert_def index_ok_def)
  next
    case False
    obtain out s2 where fin: "finalChunk ms s1 = (out, s2)" by force
    have c: "call_ok s1 out s2" "rc_FinishReasonSent s2" using final_ok [OF k(1) _ _ fin] False by auto
    then obtain x where x: "out = Some x" "finish_of x \<noteq> JNull" using False by (auto simp: call_ok_def split: option.splits if_splits)
    then show ?thesis using False k c fin by (simp add: toChat_def run Convert_def finishes_def call_ok_def index_ok_def)
  qed
qed

text \<open>
  Whatever events a Responses upstream sends, a chat client sees exactly one finishing chunk (none when
  there was no event at all), and its tool calls are numbered from zero without gaps, one number per call.
\<close>

theorem chat_stream_finishes_once:
  "case toChat E model cs ms of (os, s) \<Rightarrow>
     finishes os = (if cs = [] then 0 else 1) \<and>
     map snd (rc_RespToolChatIndex s) = map int [0..<length (rc_RespToolChatIndex s)] \<and> distinct (map fst (rc_RespToolChatIndex s))"
  by (rule chat_once)

definition argsEvent :: "string \<Rightarrow> json \<Rightarrow> jmap" where
  "argsEvent item d = [(''type'', JStr ''response.function_call_arguments.delta''), (''item_id'', JStr item), (''delta'', d)]"

lemma argsEvent_index:
  assumes "gm_get (rc_RespToolChatIndex s) (mapKeyOf E (JStr x)) = Some i" and "x \<noteq> []" and "truthy d" and "rc_Started s"
  shows "\<exists>c. fst (Convert E ms (Some (argsEvent x d)) s) = Some c \<and>
    delta_of c = JObj [(''tool_calls'', JArr [JObj [(''index'', jint i), (''function'', JObj [(''arguments'', d)])]])]"
proof -
  have e: "eventType (argsEvent x d) = ''response.function_call_arguments.delta''" "eventData (argsEvent x d) = argsEvent x d"
      "mget (argsEvent x d) ''delta'' = d" "mget (argsEvent x d) ''item_id'' = JStr x" "truthy (JStr x)"
    using assms(2) by (simp_all add: eventType_def eventData_def argsEvent_def mget_def asStr_def truthy_def)
  have st: "start ms s = s" using assms(4) by (simp add: start_def)
  show ?thesis unfolding Convert_def option.case Let_def e(1,2) st
    by (simp add: onArgsDelta_def Let_def e assms callChunk_def)
qed

text \<open>
  The arguments of parallel calls never mix. Once an item is announced under an index, a later argument
  fragment for that item reaches the client under the same index whatever came in between, and two items
  never share an index.
\<close>

theorem parallel_calls_separate:
  assumes "convertAll E cs (NewRespToChatState model) = (os, s)" and "convertAll E cs' s = (os', s')"
    and "gm_get (rc_RespToolChatIndex s) (mapKeyOf E (JStr x)) = Some i"
    and "gm_get (rc_RespToolChatIndex s) (mapKeyOf E (JStr y)) = Some j" and "x \<noteq> y" and "x \<noteq> []" and "truthy d"
  shows "i \<noteq> j \<and> (\<exists>c. fst (Convert E ms (Some (argsEvent x d)) s') = Some c \<and>
    delta_of c = JObj [(''tool_calls'', JArr [JObj [(''index'', jint i), (''function'', JObj [(''arguments'', d)])]])])"
proof
  have ok: "index_ok s" using convertAll_ok [OF new_ok assms(1)] by blast
  have ok': "gm_get (rc_RespToolChatIndex s') (mapKeyOf E (JStr x)) = Some i" and st: "rc_Started s'"
    using convertAll_ok [OF ok assms(2)] assms(3) ok by (auto simp: index_ok_def)
  let ?m = "rc_RespToolChatIndex s"
  have m: "distinct (map fst ?m)" "map snd ?m = map int [0..<length ?m]" using ok by (auto simp: index_ok_def)
  from m(2) have "distinct (map snd ?m)" by (simp add: distinct_map)
  then have inj: "p = q" if "p \<in> set ?m" "q \<in> set ?m" "snd p = snd q" for p q
    using that by (auto simp: distinct_map inj_on_def)
  have mem: "(''s:'' @ x, i) \<in> set ?m" "(''s:'' @ y, j) \<in> set ?m" using assms(3,4) by (auto simp: mapKeyOf_def dest: map_of_SomeD)
  show "i \<noteq> j" using inj [OF mem] assms(5) by auto
  show "\<exists>c. fst (Convert E ms (Some (argsEvent x d)) s') = Some c \<and>
    delta_of c = JObj [(''tool_calls'', JArr [JObj [(''index'', jint i), (''function'', JObj [(''arguments'', d)])]])]"
    by (rule argsEvent_index [OF ok' assms(6,7) st])
qed

definition demo_chunk_env :: chunk_env where
  "demo_chunk_env = \<lparr>ce_num = \<lparr>ne_round = Fin, ne_parse = (\<lambda>_. (NaN, None)), ne_format_f = (\<lambda>_. []), ne_format_g = (\<lambda>_. [])\<rparr>,
     ce_codec = \<lparr>co_encode = (\<lambda>_. None), co_decode = (\<lambda>_. None), co_valid = (\<lambda>_. False), co_sprint = (\<lambda>_. [])\<rparr>,
     ce_stringify = (\<lambda>_. None), ce_int64 = (\<lambda>_. 0)\<rparr>"

definition addedEvent :: "string \<Rightarrow> jmap" where
  "addedEvent item = [(''type'', JStr ''response.output_item.added''),
     (''item'', JObj [(''type'', JStr ''function_call''), (''id'', JStr item), (''call_id'', JStr ''c''), (''name'', JStr ''f'')])]"

definition demo_calls :: r2c where
  "demo_calls = snd (convertAll demo_chunk_env [(\<lambda>_. 7, addedEvent ''b''), (\<lambda>_. 7, addedEvent ''a'')] (NewRespToChatState ''m''))"

theorem parallel_calls_separate_witness:
  "\<exists>c. fst (Convert demo_chunk_env (\<lambda>_. 0) (Some (argsEvent ''a'' (JStr ''x''))) demo_calls) = Some c \<and>
    delta_of c = JObj [(''tool_calls'', JArr [JObj [(''index'', jint 1), (''function'', JObj [(''arguments'', JStr ''x'')])]])]"
proof -
  let ?cs = "[(\<lambda>_. 7, addedEvent ''b''), (\<lambda>_. 7, addedEvent ''a'')]"
  have run: "convertAll demo_chunk_env ?cs (NewRespToChatState ''m'') =
      (fst (convertAll demo_chunk_env ?cs (NewRespToChatState ''m'')), demo_calls)"
    by (simp add: demo_calls_def)
  have more: "convertAll demo_chunk_env [] demo_calls = ([], demo_calls)" by simp
  have a: "gm_get (rc_RespToolChatIndex demo_calls) (mapKeyOf demo_chunk_env (JStr ''a'')) = Some 1" by code_simp
  have b: "gm_get (rc_RespToolChatIndex demo_calls) (mapKeyOf demo_chunk_env (JStr ''b'')) = Some 0" by code_simp
  show ?thesis
    using parallel_calls_separate [OF run more a b, of "JStr ''x''" "\<lambda>_. 0"] by (simp add: truthy_def)
qed

end
