(* ===== verification/ChatToResp.thy ===== *)
theory ChatToResp
  imports Chunk
begin

text \<open>
  The translator for a chat upstream and a Responses client
  (\<^verbatim>\<open>internal/translate/stream_chat2resp.go\<close>). An operation of the state returns the events it appends
  and the new state; \<open>then_do\<close> runs two in order. \<open>ms\<close> is the clock reading for a stream without an id.
\<close>

record event =
  ev_Event :: string
  ev_Data :: jmap

record c2r =
  cr_Seq :: int
  cr_Started :: bool
  cr_ResponseID :: string
  cr_Created :: int
  cr_Model :: string
  cr_InThinking :: bool
  cr_ReasoningID :: string
  cr_ReasoningIndex :: json
  cr_ReasoningDone :: bool
  cr_ReasoningPartAdded :: bool
  cr_ReasoningBuf :: string
  cr_MsgItemAdded :: "(int, bool) gomap"
  cr_MsgContentAdded :: "(int, bool) gomap"
  cr_MsgTextBuf :: "(int, string) gomap"
  cr_MsgItemDone :: "(int, bool) gomap"
  cr_FuncCallIds :: "(int, string) gomap"
  cr_FuncNames :: "(int, string) gomap"
  cr_FuncArgsBuf :: "(int, string) gomap"
  cr_FuncItemAdded :: "(int, bool) gomap"
  cr_FuncItemDone :: "(int, bool) gomap"
  cr_FuncArgsDone :: "(int, bool) gomap"
  cr_CustomToolNames :: "string list"
  cr_CompletedSent :: bool

type_synonym c2r_op = "c2r \<Rightarrow> event list \<times> c2r"

definition NewChatToRespState :: "string \<Rightarrow> int \<Rightarrow> string \<Rightarrow> c2r" where
  "NewChatToRespState model created responseID = \<lparr>cr_Seq = 0, cr_Started = False, cr_ResponseID = responseID, cr_Created = created,
     cr_Model = model, cr_InThinking = False, cr_ReasoningID = [], cr_ReasoningIndex = JNull, cr_ReasoningDone = False,
     cr_ReasoningPartAdded = False, cr_ReasoningBuf = [], cr_MsgItemAdded = [], cr_MsgContentAdded = [], cr_MsgTextBuf = [],
     cr_MsgItemDone = [], cr_FuncCallIds = [], cr_FuncNames = [], cr_FuncArgsBuf = [], cr_FuncItemAdded = [], cr_FuncItemDone = [],
     cr_FuncArgsDone = [], cr_CustomToolNames = [], cr_CompletedSent = False\<rparr>"

section \<open>Reading the maps and running operations\<close>

definition flag :: "(int, bool) gomap \<Rightarrow> int \<Rightarrow> bool" where
  "flag m i = (gm_get m i = Some True)"

definition strAt :: "(int, string) gomap \<Rightarrow> int \<Rightarrow> string" where
  "strAt m i = (case gm_get m i of None \<Rightarrow> [] | Some t \<Rightarrow> t)"

definition sortedKeys :: "(int, 'v) gomap \<Rightarrow> int list" where
  "sortedKeys m = sort (map fst m)"

definition skip :: c2r_op where
  "skip s = ([], s)"

definition then_do :: "c2r_op \<Rightarrow> c2r_op \<Rightarrow> c2r_op" where
  "then_do f g s = (let (e1, s1) = f s; (e2, s2) = g s1 in (e1 @ e2, s2))"

fun for_each :: "('x \<Rightarrow> c2r_op) \<Rightarrow> 'x list \<Rightarrow> c2r_op" where
  "for_each f [] = skip"
| "for_each f (x # xs) = then_do (f x) (for_each f xs)"

definition upd :: "(c2r \<Rightarrow> c2r) \<Rightarrow> c2r_op" where
  "upd f s = ([], f s)"

definition emit :: "string \<Rightarrow> jmap \<Rightarrow> c2r_op" where
  "emit eventType data s =
     (let n = cr_Seq s + 1 in
      ([\<lparr>ev_Event = eventType, ev_Data = gm_set ''sequence_number'' (jint n) data\<rparr>], s\<lparr>cr_Seq := n\<rparr>))"

text \<open>The decimal text of an index: the smallest 64-bit value has no positive counterpart and prints as a sign only.\<close>

function itoaLoop :: "int \<Rightarrow> string \<Rightarrow> string" where
  "itoaLoop n acc = (if 0 < n then itoaLoop (n div 10) (digitChar (nat (n mod 10)) # acc) else acc)"
  by pat_completeness auto
termination
  by (relation "measure (\<lambda>(n, acc). nat n)") auto

declare itoaLoop.simps [simp del]

definition itoaIdx :: "int \<Rightarrow> string" where
  "itoaIdx n =
     (if n = 0 then ''0''
      else if n < 0 then CHR ''-'' # itoaLoop (wrap64 (- n)) [] else itoaLoop n [])"

section \<open>Reasoning\<close>

definition startReasoning :: "chunk_env \<Rightarrow> json \<Rightarrow> c2r_op" where
  "startReasoning E rawIdx s =
     (if cr_ReasoningID s \<noteq> [] then skip s
      else
        let rid = ''rs_'' @ cr_ResponseID s @ ''_'' @ jsStringOf E rawIdx in
        then_do (emit ''response.output_item.added''
            [(''type'', JStr ''response.output_item.added''), (''output_index'', rawIdx),
             (''item'', JObj [(''id'', JStr rid), (''type'', JStr ''reasoning''), (''summary'', JArr [])])])
         (then_do (emit ''response.reasoning_summary_part.added''
            [(''type'', JStr ''response.reasoning_summary_part.added''), (''item_id'', JStr rid), (''output_index'', rawIdx),
             (''summary_index'', jint 0), (''part'', JObj [(''type'', JStr ''summary_text''), (''text'', JStr [])])])
          (upd (\<lambda>t. t\<lparr>cr_ReasoningPartAdded := True\<rparr>)))
         (s\<lparr>cr_ReasoningID := rid, cr_ReasoningIndex := rawIdx\<rparr>))"

definition emitReasoningDelta :: "string \<Rightarrow> c2r_op" where
  "emitReasoningDelta text s =
     (if text = [] then skip s
      else emit ''response.reasoning_summary_text.delta''
        [(''type'', JStr ''response.reasoning_summary_text.delta''), (''item_id'', JStr (cr_ReasoningID s)),
         (''output_index'', cr_ReasoningIndex s), (''summary_index'', jint 0), (''delta'', JStr text)]
        (s\<lparr>cr_ReasoningBuf := cr_ReasoningBuf s @ text\<rparr>))"

definition summaryText :: "c2r \<Rightarrow> json" where
  "summaryText s = JObj [(''type'', JStr ''summary_text''), (''text'', JStr (cr_ReasoningBuf s))]"

definition closeReasoning :: c2r_op where
  "closeReasoning s =
     (if cr_ReasoningID s = [] \<or> cr_ReasoningDone s then skip s
      else then_do (emit ''response.reasoning_summary_text.done''
            [(''type'', JStr ''response.reasoning_summary_text.done''), (''item_id'', JStr (cr_ReasoningID s)),
             (''output_index'', cr_ReasoningIndex s), (''summary_index'', jint 0), (''text'', JStr (cr_ReasoningBuf s))])
         (then_do (emit ''response.reasoning_summary_part.done''
            [(''type'', JStr ''response.reasoning_summary_part.done''), (''item_id'', JStr (cr_ReasoningID s)),
             (''output_index'', cr_ReasoningIndex s), (''summary_index'', jint 0), (''part'', summaryText s)])
          (emit ''response.output_item.done''
            [(''type'', JStr ''response.output_item.done''), (''output_index'', cr_ReasoningIndex s),
             (''item'', JObj [(''id'', JStr (cr_ReasoningID s)), (''type'', JStr ''reasoning''), (''summary'', JArr [summaryText s])])]))
         (s\<lparr>cr_ReasoningDone := True\<rparr>))"

section \<open>Messages\<close>

definition msgID :: "c2r \<Rightarrow> int \<Rightarrow> string" where
  "msgID s idx = ''msg_'' @ cr_ResponseID s @ ''_'' @ itoaIdx idx"

definition outputText :: "string \<Rightarrow> json" where
  "outputText t = JObj [(''type'', JStr ''output_text''), (''annotations'', JArr []), (''logprobs'', JArr []), (''text'', JStr t)]"

definition addMessage :: "chunk_env \<Rightarrow> json \<Rightarrow> c2r_op" where
  "addMessage E rawIdx s =
     (let idx = jsIndex E rawIdx in
      if flag (cr_MsgItemAdded s) idx then skip s
      else emit ''response.output_item.added''
        [(''type'', JStr ''response.output_item.added''), (''output_index'', rawIdx),
         (''item'', JObj [(''id'', JStr (msgID s idx)), (''type'', JStr ''message''), (''content'', JArr []), (''role'', JStr ''assistant'')])]
        (s\<lparr>cr_MsgItemAdded := gm_set idx True (cr_MsgItemAdded s)\<rparr>))"

definition addContentPart :: "chunk_env \<Rightarrow> json \<Rightarrow> c2r_op" where
  "addContentPart E rawIdx s =
     (let idx = jsIndex E rawIdx in
      if flag (cr_MsgContentAdded s) idx then skip s
      else emit ''response.content_part.added''
        [(''type'', JStr ''response.content_part.added''), (''item_id'', JStr (msgID s idx)), (''output_index'', rawIdx),
         (''content_index'', jint 0), (''part'', outputText [])]
        (s\<lparr>cr_MsgContentAdded := gm_set idx True (cr_MsgContentAdded s)\<rparr>))"

definition addText :: "chunk_env \<Rightarrow> json \<Rightarrow> string \<Rightarrow> c2r_op" where
  "addText E rawIdx content s =
     (let idx = jsIndex E rawIdx in
      then_do (emit ''response.output_text.delta''
        [(''type'', JStr ''response.output_text.delta''), (''item_id'', JStr (msgID s idx)), (''output_index'', rawIdx),
         (''content_index'', jint 0), (''delta'', JStr content), (''logprobs'', JArr [])])
       (upd (\<lambda>t. t\<lparr>cr_MsgTextBuf := gm_set idx (strAt (cr_MsgTextBuf t) idx @ content) (cr_MsgTextBuf t)\<rparr>)) s)"

definition emitTextContent :: "chunk_env \<Rightarrow> json \<Rightarrow> string \<Rightarrow> c2r_op" where
  "emitTextContent E rawIdx content = then_do (addMessage E rawIdx) (then_do (addContentPart E rawIdx) (addText E rawIdx content))"

definition closeMessage :: "int \<Rightarrow> c2r_op" where
  "closeMessage idx s =
     (if \<not> flag (cr_MsgItemAdded s) idx \<or> flag (cr_MsgItemDone s) idx then skip s
      else
        let fullText = strAt (cr_MsgTextBuf s) idx; mid = msgID s idx in
        then_do (emit ''response.output_text.done''
            [(''type'', JStr ''response.output_text.done''), (''item_id'', JStr mid), (''output_index'', jint idx),
             (''content_index'', jint 0), (''text'', JStr fullText), (''logprobs'', JArr [])])
         (then_do (emit ''response.content_part.done''
            [(''type'', JStr ''response.content_part.done''), (''item_id'', JStr mid), (''output_index'', jint idx),
             (''content_index'', jint 0), (''part'', outputText fullText)])
          (emit ''response.output_item.done''
            [(''type'', JStr ''response.output_item.done''), (''output_index'', jint idx),
             (''item'', JObj [(''id'', JStr mid), (''type'', JStr ''message''), (''content'', JArr [outputText fullText]), (''role'', JStr ''assistant'')])]))
         (s\<lparr>cr_MsgItemDone := gm_set idx True (cr_MsgItemDone s)\<rparr>))"

section \<open>Tool calls\<close>

definition isCustomTool :: "c2r \<Rightarrow> string \<Rightarrow> bool" where
  "isCustomTool s name \<longleftrightarrow> name \<noteq> [] \<and> name \<in> set (cr_CustomToolNames s)"

definition extractCustomToolInput :: "chunk_env \<Rightarrow> string \<Rightarrow> string" where
  "extractCustomToolInput E argumentsText = (case co_decode (ce_codec E) (trimSpace argumentsText) of
     Some (JObj o1) \<Rightarrow> (case mget o1 ''input'' of JStr i \<Rightarrow> i | _ \<Rightarrow> argumentsText)
   | _ \<Rightarrow> argumentsText)"

definition noteCall :: "int \<Rightarrow> jmap \<Rightarrow> c2r \<Rightarrow> c2r" where
  "noteCall i tc s =
     (let funcName = asStr (Get (mget tc ''function'') ''name''); newCallID = asStr (mget tc ''id'');
          s1 = (if funcName \<noteq> [] then s\<lparr>cr_FuncNames := gm_set i funcName (cr_FuncNames s)\<rparr> else s)
      in if newCallID \<noteq> [] then s1\<lparr>cr_FuncCallIds := gm_set i newCallID (cr_FuncCallIds s1)\<rparr> else s1)"

definition callItem :: "bool \<Rightarrow> string \<Rightarrow> string \<Rightarrow> string \<Rightarrow> json" where
  "callItem custom callID name payload =
     (if custom then JObj [(''id'', JStr (''ctc_'' @ callID)), (''type'', JStr ''custom_tool_call''), (''call_id'', JStr callID),
        (''name'', JStr name), (''input'', JStr payload)]
      else JObj [(''id'', JStr (''fc_'' @ callID)), (''type'', JStr ''function_call''), (''call_id'', JStr callID),
        (''name'', JStr name), (''arguments'', JStr payload)])"

definition announceCall :: "json \<Rightarrow> int \<Rightarrow> c2r_op" where
  "announceCall rawIdx i s =
     (let callID = strAt (cr_FuncCallIds s) i; name = strAt (cr_FuncNames s) i in
      if flag (cr_FuncItemAdded s) i \<or> callID = [] \<or> name = [] then skip s
      else emit ''response.output_item.added''
        [(''type'', JStr ''response.output_item.added''), (''output_index'', rawIdx),
         (''item'', callItem (isCustomTool s name) callID name [])]
        (s\<lparr>cr_FuncItemAdded := gm_set i True (cr_FuncItemAdded s)\<rparr>))"

definition callArguments :: "chunk_env \<Rightarrow> json \<Rightarrow> int \<Rightarrow> jmap \<Rightarrow> c2r_op" where
  "callArguments E rawIdx i tc s =
     (let args = Get (mget tc ''function'') ''arguments'' in
      if \<not> truthy args then skip s
      else
        let refCallID = (if strAt (cr_FuncCallIds s) i = [] then asStr (mget tc ''id'') else strAt (cr_FuncCallIds s) i);
            shown = (flag (cr_FuncItemAdded s) i \<and> refCallID \<noteq> [] \<and> \<not> isCustomTool s (strAt (cr_FuncNames s) i))
        in then_do (if shown then emit ''response.function_call_arguments.delta''
               [(''type'', JStr ''response.function_call_arguments.delta''), (''item_id'', JStr (''fc_'' @ refCallID)),
                (''output_index'', rawIdx), (''delta'', args)]
             else skip)
           (upd (\<lambda>t. t\<lparr>cr_FuncArgsBuf := gm_set i (strAt (cr_FuncArgsBuf t) i @ jsStringOf E args) (cr_FuncArgsBuf t)\<rparr>)) s)"

definition emitToolCall :: "chunk_env \<Rightarrow> jmap \<Rightarrow> c2r_op" where
  "emitToolCall E tc =
     (let rawIdx = (if mget tc ''index'' = JNull then jint 0 else mget tc ''index''); i = jsIndex E rawIdx
      in then_do (upd (noteCall i tc)) (then_do (announceCall rawIdx i) (callArguments E rawIdx i tc)))"

definition closeToolCall :: "chunk_env \<Rightarrow> int \<Rightarrow> c2r_op" where
  "closeToolCall E idx s =
     (let callID = strAt (cr_FuncCallIds s) idx in
      if callID = [] \<or> flag (cr_FuncItemDone s) idx then skip s
      else
        let args = (if strAt (cr_FuncArgsBuf s) idx = [] then ''{}'' else strAt (cr_FuncArgsBuf s) idx);
            name = strAt (cr_FuncNames s) idx;
            custom = isCustomTool s name;
            input = extractCustomToolInput E args
        in then_do (if custom then
              then_do (emit ''response.custom_tool_call_input.delta''
                [(''type'', JStr ''response.custom_tool_call_input.delta''), (''item_id'', JStr (''ctc_'' @ callID)),
                 (''output_index'', jint idx), (''delta'', JStr input)])
               (emit ''response.custom_tool_call_input.done''
                [(''type'', JStr ''response.custom_tool_call_input.done''), (''item_id'', JStr (''ctc_'' @ callID)),
                 (''output_index'', jint idx), (''input'', JStr input)])
            else emit ''response.function_call_arguments.done''
                [(''type'', JStr ''response.function_call_arguments.done''), (''item_id'', JStr (''fc_'' @ callID)),
                 (''output_index'', jint idx), (''arguments'', JStr args)])
          (then_do (emit ''response.output_item.done''
              [(''type'', JStr ''response.output_item.done''), (''output_index'', jint idx),
               (''item'', callItem custom callID name (if custom then input else args))])
           (upd (\<lambda>t. t\<lparr>cr_FuncItemDone := gm_set idx True (cr_FuncItemDone t), cr_FuncArgsDone := gm_set idx True (cr_FuncArgsDone t)\<rparr>))) s)"

section \<open>The stream\<close>

definition sendCompleted :: c2r_op where
  "sendCompleted s =
     (if cr_CompletedSent s then skip s
      else emit ''response.completed''
        [(''type'', JStr ''response.completed''),
         (''response'', JObj [(''id'', JStr (cr_ResponseID s)), (''object'', JStr ''response''), (''created_at'', jint (cr_Created s)),
           (''status'', JStr ''completed''), (''background'', JBool False), (''error'', JNull)])]
        (s\<lparr>cr_CompletedSent := True\<rparr>))"

text \<open>Closing everything in order; the keys are read when each loop starts.\<close>

definition closeAll :: "chunk_env \<Rightarrow> c2r_op" where
  "closeAll E = then_do (\<lambda>s. for_each closeMessage (sortedKeys (cr_MsgItemAdded s)) s)
     (then_do closeReasoning
       (then_do (\<lambda>s. for_each (closeToolCall E) (sortedKeys (cr_FuncCallIds s)) s) sendCompleted))"

definition flushEvents :: "chunk_env \<Rightarrow> c2r_op" where
  "flushEvents E s = (if cr_CompletedSent s then skip s else closeAll E s)"

definition scaffold :: "int \<Rightarrow> jmap \<Rightarrow> c2r_op" where
  "scaffold ms chunk s =
     (if cr_Started s then skip s
      else
        let cid = asStr (mget chunk ''id'');
            r0 = (if cid \<noteq> [] then ''resp_'' @ cid else cr_ResponseID s);
            rid = (if r0 = [] then ''resp_'' @ itoa ms else r0);
            s1 = s\<lparr>cr_Started := True, cr_ResponseID := rid\<rparr>
        in then_do (emit ''response.created'' [(''type'', JStr ''response.created''),
             (''response'', JObj [(''id'', JStr rid), (''object'', JStr ''response''), (''created_at'', jint (cr_Created s)),
               (''status'', JStr ''in_progress''), (''background'', JBool False), (''error'', JNull), (''output'', JArr [])])])
           (emit ''response.in_progress'' [(''type'', JStr ''response.in_progress''),
             (''response'', JObj [(''id'', JStr rid), (''object'', JStr ''response''), (''created_at'', jint (cr_Created s)),
               (''status'', JStr ''in_progress'')])]) s1)"

text \<open>
  A substring cut at its first occurrence: what \<^verbatim>\<open>strings.Replace\<close> of one occurrence rejoins, and the first part
  and the rejoined others of \<^verbatim>\<open>strings.Split\<close>.
\<close>

fun cutStr :: "string \<Rightarrow> string \<Rightarrow> (string \<times> string) option" where
  "cutStr [] sep = (if sep = [] then Some ([], []) else None)"
| "cutStr (x # xs) sep =
     (if hasPrefix (x # xs) sep then Some ([], drop (length sep) (x # xs))
      else case cutStr xs sep of None \<Rightarrow> None | Some (a, b) \<Rightarrow> Some (x # a, b))"

definition openThink :: "chunk_env \<Rightarrow> json \<Rightarrow> string \<Rightarrow> string \<times> c2r_op" where
  "openThink E rawIdx content = (case cutStr content ''<think>'' of
     None \<Rightarrow> (content, skip)
   | Some (a, b) \<Rightarrow> (a @ b, then_do (upd (\<lambda>s. s\<lparr>cr_InThinking := True\<rparr>)) (startReasoning E rawIdx)))"

definition closeThink :: "string \<Rightarrow> string \<times> c2r_op" where
  "closeThink content = (case cutStr content ''</think>'' of
     None \<Rightarrow> (content, skip)
   | Some (thinkPart, textPart) \<Rightarrow>
       (textPart, then_do (emitReasoningDelta thinkPart) (then_do closeReasoning (upd (\<lambda>s. s\<lparr>cr_InThinking := False\<rparr>)))))"

text \<open>The content of a delta; \<open>True\<close> when the rest of the chunk is skipped.\<close>

definition contentStage :: "chunk_env \<Rightarrow> json \<Rightarrow> string \<Rightarrow> c2r \<Rightarrow> bool \<times> event list \<times> c2r" where
  "contentStage E rawIdx content0 s =
     (if content0 = [] then (False, [], s)
      else
        let (content1, op1) = openThink E rawIdx content0;
            (content2, op2) = closeThink content1;
            (e1, s1) = then_do op1 op2 s
        in if cr_InThinking s1 \<and> content2 \<noteq> [] then
             let (e2, s2) = emitReasoningDelta content2 s1 in (True, e1 @ e2, s2)
           else
             let (e2, s2) = (if content2 \<noteq> [] then emitTextContent E rawIdx content2 else skip) s1 in (False, e1 @ e2, s2))"

definition reasoningStage :: "chunk_env \<Rightarrow> json \<Rightarrow> jmap \<Rightarrow> c2r_op" where
  "reasoningStage E rawIdx delta =
     (let reasoningText = ExtractReasoningText delta in
      if reasoningText = [] then skip else then_do (startReasoning E rawIdx) (emitReasoningDelta reasoningText))"

definition toolStage :: "chunk_env \<Rightarrow> int \<Rightarrow> jmap \<Rightarrow> c2r_op" where
  "toolStage E idx delta = (case mget delta ''tool_calls'' of
     JArr (c # cs) \<Rightarrow> then_do (closeMessage idx)
       (for_each (\<lambda>raw. case raw of JObj tc \<Rightarrow> emitToolCall E tc | _ \<Rightarrow> skip) (c # cs))
   | _ \<Rightarrow> skip)"

definition finishStage :: "chunk_env \<Rightarrow> jmap \<Rightarrow> c2r_op" where
  "finishStage E choice = (if truthy (mget choice ''finish_reason'') then closeAll E else skip)"

definition convertChoice :: "chunk_env \<Rightarrow> int \<Rightarrow> jmap \<Rightarrow> jmap \<Rightarrow> c2r_op" where
  "convertChoice E ms chunk choice s =
     (let rawIdx = (if truthy (mget choice ''index'') then mget choice ''index'' else jint 0);
          delta = (case mget choice ''delta'' of JObj d \<Rightarrow> d | _ \<Rightarrow> []);
          (e0, s0) = then_do (scaffold ms chunk) (reasoningStage E rawIdx delta) s;
          (stop, e1, s1) = contentStage E rawIdx (asStr (mget delta ''content'')) s0
      in if stop then (e0 @ e1, s1)
         else let (e2, s2) = then_do (toolStage E (jsIndex E rawIdx) delta) (finishStage E choice) s1 in (e0 @ e1 @ e2, s2))"

definition ConvertChat :: "chunk_env \<Rightarrow> int \<Rightarrow> jmap option \<Rightarrow> c2r_op" where
  "ConvertChat E ms input s = (case input of
     None \<Rightarrow> flushEvents E s
   | Some chunk \<Rightarrow> (case mget chunk ''choices'' of
       JArr (JObj choice # _) \<Rightarrow> convertChoice E ms chunk choice s
     | _ \<Rightarrow> ([], s)))"

definition toResponses :: "chunk_env \<Rightarrow> c2r \<Rightarrow> (int \<times> jmap) list \<Rightarrow> event list \<times> c2r" where
  "toResponses E s0 cs = then_do (for_each (\<lambda>(ms, c). ConvertChat E ms (Some c)) cs) (ConvertChat E 0 None) s0"

end
