(* ===== verification/ChatToRespProps.thy ===== *)
theory ChatToRespProps
  imports ChatToResp Usage
begin

text \<open>
  What the events of a translated stream promise a Responses client: numbered without gaps, opened and
  closed once, every announced item closed, and every closed text the text streamed so far.
\<close>

section \<open>What an event announces\<close>

datatype esig =
    SCreated | SCompleted
  | SMsgAdded string | SMsgDone string | SText string string | STextDone string string
  | SReasonAdded | SReasonDone | SReasonText string | SReasonTextDone string
  | SCallAdded int | SCallDone int
  | SOther

definition itemSig :: "chunk_env \<Rightarrow> bool \<Rightarrow> jmap \<Rightarrow> esig" where
  "itemSig E opened d =
     (let item = mget d ''item''; t = asStr (Get item ''type''); i = asStr (Get item ''id'') in
      if t = ''message'' then (if opened then SMsgAdded i else SMsgDone i)
      else if t = ''reasoning'' then (if opened then SReasonAdded else SReasonDone)
      else if opened then SCallAdded (jsIndex E (mget d ''output_index'')) else SCallDone (jsIndex E (mget d ''output_index'')))"

definition sig :: "chunk_env \<Rightarrow> event \<Rightarrow> esig" where
  "sig E e =
     (let n = ev_Event e; d = ev_Data e in
      if n = ''response.created'' then SCreated
      else if n = ''response.completed'' then SCompleted
      else if n = ''response.output_item.added'' then itemSig E True d
      else if n = ''response.output_item.done'' then itemSig E False d
      else if n = ''response.output_text.delta'' then SText (asStr (mget d ''item_id'')) (asStr (mget d ''delta''))
      else if n = ''response.output_text.done'' then STextDone (asStr (mget d ''item_id'')) (asStr (mget d ''text''))
      else if n = ''response.reasoning_summary_text.delta'' then SReasonText (asStr (mget d ''delta''))
      else if n = ''response.reasoning_summary_text.done'' then SReasonTextDone (asStr (mget d ''text''))
      else SOther)"

definition seqOf :: "event \<Rightarrow> json" where
  "seqOf e = mget (ev_Data e) ''sequence_number''"

fun textsOf :: "string \<Rightarrow> esig list \<Rightarrow> string" where
  "textsOf x [] = []"
| "textsOf x (e # es) = (case e of SText y t \<Rightarrow> if y = x then t else [] | _ \<Rightarrow> []) @ textsOf x es"

fun reasonsOf :: "esig list \<Rightarrow> string" where
  "reasonsOf [] = []"
| "reasonsOf (e # es) = (case e of SReasonText t \<Rightarrow> t | _ \<Rightarrow> []) @ reasonsOf es"

text \<open>Every text closed is the concatenation of the deltas before it.\<close>

fun text_closed :: "esig list \<Rightarrow> esig list \<Rightarrow> bool" where
  "text_closed pre [] \<longleftrightarrow> True"
| "text_closed pre (e # es) \<longleftrightarrow>
     (case e of STextDone x t \<Rightarrow> t = textsOf x pre | SReasonTextDone t \<Rightarrow> t = reasonsOf pre | _ \<Rightarrow> True) \<and> text_closed (pre @ [e]) es"

lemma textsOf_append [simp]: "textsOf x (a @ b) = textsOf x a @ textsOf x b"
  by (induction a) simp_all

lemma reasonsOf_append [simp]: "reasonsOf (a @ b) = reasonsOf a @ reasonsOf b"
  by (induction a) simp_all

lemma text_closed_append: "text_closed pre (a @ b) \<longleftrightarrow> text_closed pre a \<and> text_closed (pre @ a) b"
  by (induction a arbitrary: pre) simp_all

section \<open>Running operations\<close>

lemma skip_run [simp]: "skip s = ([], s)"
  by (simp add: skip_def)

lemma upd_run [simp]: "upd f s = ([], f s)"
  by (simp add: upd_def)

lemma emit_run: "emit n d s = ([\<lparr>ev_Event = n, ev_Data = gm_set ''sequence_number'' (jint (cr_Seq s + 1)) d\<rparr>], s\<lparr>cr_Seq := cr_Seq s + 1\<rparr>)"
  by (simp add: emit_def Let_def)

lemma then_run: "then_do f g s = (fst (f s) @ fst (g (snd (f s))), snd (g (snd (f s))))"
  by (simp add: then_do_def split_beta Let_def)

definition keeps :: "(event list \<Rightarrow> c2r \<Rightarrow> bool) \<Rightarrow> c2r_op \<Rightarrow> bool" where
  "keeps J f \<longleftrightarrow> (\<forall>h s. J h s \<longrightarrow> J (h @ fst (f s)) (snd (f s)))"

lemma keepsD: "keeps J f \<Longrightarrow> J h s \<Longrightarrow> J (h @ fst (f s)) (snd (f s))"
  by (simp add: keeps_def)

lemma keeps_then: "keeps J f \<Longrightarrow> keeps J g \<Longrightarrow> keeps J (then_do f g)"
  by (simp add: keeps_def then_run flip: append_assoc)

lemma keeps_skip: "keeps J skip"
  by (simp add: keeps_def)

lemma keeps_each: "(\<And>x. x \<in> set xs \<Longrightarrow> keeps J (f x)) \<Longrightarrow> keeps J (for_each f xs)"
  by (induction xs) (auto simp: keeps_skip keeps_then)

section \<open>Indices in texts\<close>

lemma itoaLoop_dec: "0 < n \<Longrightarrow> itoaLoop n acc = decNat (nat n) @ acc"
proof (induction n acc rule: itoaLoop.induct)
  case (1 n acc)
  have step: "itoaLoop n acc = itoaLoop (n div 10) (digitChar (nat (n mod 10)) # acc)"
    by (subst itoaLoop.simps) (simp only: 1(2) if_True)
  have digits: "nat (n div 10) = nat n div 10" "nat (n mod 10) = nat n mod 10"
    using 1(2) by (simp_all only: nat_div_distrib nat_mod_distrib nat_numeral)
  show ?case
  proof (cases "n < 10")
    case True
    then have "n div 10 = 0" "\<not> (0 < n div 10)" using 1(2) by simp_all
    moreover have "decNat (nat n) = [digitChar (nat n mod 10)]" using True by (subst decNat.simps) simp
    ultimately show ?thesis unfolding step digits by (subst itoaLoop.simps) simp
  next
    case False
    then have p: "0 < n div 10" by linarith
    have "decNat (nat n) = decNat (nat n div 10) @ [digitChar (nat n mod 10)]" using False by (subst decNat.simps) simp
    then show ?thesis using 1(1) [OF 1(2) p] unfolding step digits by simp
  qed
qed

lemma itoaIdx_itoa: "in64 n \<Longrightarrow> n \<noteq> - (2 ^ 63) \<Longrightarrow> itoaIdx n = itoa n"
proof -
  assume n: "in64 n" "n \<noteq> - (2 ^ 63)"
  consider "n = 0" | "0 < n" | "n < 0" by linarith
  then show ?thesis
  proof cases
    case 1
    have "char_of (48 :: nat) = CHR ''0''" by code_simp
    with 1 show ?thesis by (simp add: itoaIdx_def itoa_def decNat.simps [of 0] digitChar_def)
  next
    case 2
    then show ?thesis by (simp add: itoaIdx_def itoa_def itoaLoop_dec)
  next
    case 3
    have "in64 (- n)" using n 3 unfolding in64_def by linarith
    then have w: "wrap64 (- n) = - n" by (rule wrap64_id)
    from 3 show ?thesis by (simp add: itoaIdx_def itoa_def w itoaLoop_dec)
  qed
qed

lemma itoaIdx_min: "itoaIdx (- (2 ^ 63)) = ''-''"
proof -
  have "wrap64 (2 ^ 63) = - (2 ^ 63)" by (simp add: wrap64_def)
  then show ?thesis by (simp add: itoaIdx_def itoaLoop.simps)
qed

lemma itoa_not_sign: "itoa n \<noteq> ''-''"
  using set_decNat [of "CHR ''-''" "nat n"] by (auto simp: itoa_def split: if_splits)

lemma itoaIdx_inject: "in64 a \<Longrightarrow> in64 b \<Longrightarrow> itoaIdx a = itoaIdx b \<longleftrightarrow> a = b"
  using itoaIdx_itoa [of a] itoaIdx_itoa [of b] itoaIdx_min itoa_not_sign [of a] itoa_not_sign [of b]
  by (metis itoa_inject)

lemma msgID_inject: "in64 a \<Longrightarrow> in64 b \<Longrightarrow> msgID s a = msgID s b \<longleftrightarrow> a = b"
  by (simp add: msgID_def itoaIdx_inject)

section \<open>The invariant of a started stream\<close>

text \<open>The sequence numbers continue from \<open>q\<close>.\<close>

fun consecutive :: "int \<Rightarrow> json list \<Rightarrow> bool" where
  "consecutive q [] \<longleftrightarrow> True"
| "consecutive q (x # xs) \<longleftrightarrow> x = jint (q + 1) \<and> consecutive (q + 1) xs"

lemma consecutive_append: "consecutive q (a @ b) \<longleftrightarrow> consecutive q a \<and> consecutive (q + int (length a)) b"
  by (induction a arbitrary: q) (auto simp: ac_simps)

definition numbers :: "int \<Rightarrow> event list \<times> c2r \<Rightarrow> bool" where
  "numbers q r \<longleftrightarrow> consecutive q (map seqOf (fst r)) \<and> cr_Seq (snd r) = q + int (length (fst r))"

lemma numbers_emit: "cr_Seq s = q \<Longrightarrow> numbers q (emit n d s)"
  by (simp add: numbers_def emit_run seqOf_def mget_gm_set)

lemma numbers_nil: "cr_Seq s = q \<Longrightarrow> numbers q ([], s)"
  by (simp add: numbers_def)

lemma numbers_then: "numbers q (f s) \<Longrightarrow> (\<And>t q. cr_Seq t = q \<Longrightarrow> numbers q (g t)) \<Longrightarrow> numbers q (then_do f g s)"
  unfolding numbers_def then_run by (fastforce simp: consecutive_append)

lemmas numbers_intros = numbers_emit numbers_nil numbers_then

lemma emit_sig [simp]: "map (sig E) (fst (emit n d s)) = [sig E \<lparr>ev_Event = n, ev_Data = d\<rparr>]"
  by (simp add: emit_run sig_def itemSig_def mget_gm_set Let_def)

lemma emit_snd [simp]: "snd (emit n d s) = s\<lparr>cr_Seq := cr_Seq s + 1\<rparr>"
  by (simp add: emit_run)

lemma then_fst: "fst (then_do f g s) = fst (f s) @ fst (g (snd (f s)))"
  by (simp add: then_run)

lemma then_snd: "snd (then_do f g s) = snd (g (snd (f s)))"
  by (simp add: then_run)

lemmas run_simps = then_fst then_snd
lemma sig_name:
  "sig E \<lparr>ev_Event = ''response.created'', ev_Data = d\<rparr> = SCreated"
  "sig E \<lparr>ev_Event = ''response.completed'', ev_Data = d\<rparr> = SCompleted"
  "sig E \<lparr>ev_Event = ''response.output_item.added'', ev_Data = d\<rparr> = itemSig E True d"
  "sig E \<lparr>ev_Event = ''response.output_item.done'', ev_Data = d\<rparr> = itemSig E False d"
  "sig E \<lparr>ev_Event = ''response.output_text.delta'', ev_Data = d\<rparr> = SText (asStr (mget d ''item_id'')) (asStr (mget d ''delta''))"
  "sig E \<lparr>ev_Event = ''response.output_text.done'', ev_Data = d\<rparr> = STextDone (asStr (mget d ''item_id'')) (asStr (mget d ''text''))"
  "sig E \<lparr>ev_Event = ''response.reasoning_summary_text.delta'', ev_Data = d\<rparr> = SReasonText (asStr (mget d ''delta''))"
  "sig E \<lparr>ev_Event = ''response.reasoning_summary_text.done'', ev_Data = d\<rparr> = SReasonTextDone (asStr (mget d ''text''))"
  by (simp_all add: sig_def Let_def)

lemma sig_other:
  "list_all (\<lambda>n. sig E \<lparr>ev_Event = n, ev_Data = d\<rparr> = SOther)
     [''response.in_progress'', ''response.reasoning_summary_part.added'', ''response.reasoning_summary_part.done'',
      ''response.content_part.added'', ''response.content_part.done'', ''response.function_call_arguments.delta'',
      ''response.function_call_arguments.done'', ''response.custom_tool_call_input.delta'', ''response.custom_tool_call_input.done'']"
  by (simp add: sig_def Let_def)

lemmas sig_simps = sig_name sig_other [simplified] itemSig_def mget_Cons Get_def asStr_def

definition once_ok :: "esig list \<Rightarrow> c2r \<Rightarrow> bool" where
  "once_ok g s \<longleftrightarrow> count_list g SCompleted = of_bool (cr_CompletedSent s) \<and> count_list g SCreated = 1 \<and> g \<noteq> [] \<and> hd g = SCreated"

definition msgs_ok :: "esig list \<Rightarrow> c2r \<Rightarrow> bool" where
  "msgs_ok g s \<longleftrightarrow>
     (\<forall>x. count_list g (SMsgAdded x) = of_bool (x \<in> msgID s ` {i. flag (cr_MsgItemAdded s) i})) \<and>
     (\<forall>x. count_list g (SMsgDone x) = of_bool (x \<in> msgID s ` {i. flag (cr_MsgItemDone s) i})) \<and>
     (\<forall>i. flag (cr_MsgItemAdded s) i \<longrightarrow> in64 i) \<and> (\<forall>i. flag (cr_MsgItemDone s) i \<longrightarrow> flag (cr_MsgItemAdded s) i) \<and>
     (\<forall>i. in64 i \<longrightarrow> strAt (cr_MsgTextBuf s) i = textsOf (msgID s i) g)"

definition reason_ok :: "esig list \<Rightarrow> c2r \<Rightarrow> bool" where
  "reason_ok g s \<longleftrightarrow>
     count_list g SReasonAdded = of_bool (cr_ReasoningID s \<noteq> []) \<and> count_list g SReasonDone = of_bool (cr_ReasoningDone s) \<and>
     (cr_ReasoningDone s \<longrightarrow> cr_ReasoningID s \<noteq> []) \<and> cr_ReasoningBuf s = reasonsOf g"

definition calls_ok :: "esig list \<Rightarrow> c2r \<Rightarrow> bool" where
  "calls_ok g s \<longleftrightarrow>
     (\<forall>i. count_list g (SCallAdded i) = of_bool (flag (cr_FuncItemAdded s) i)) \<and>
     (\<forall>i. count_list g (SCallDone i) = of_bool (flag (cr_FuncItemDone s) i)) \<and>
     (\<forall>i. flag (cr_FuncItemAdded s) i \<longrightarrow> strAt (cr_FuncCallIds s) i \<noteq> []) \<and>
     (\<forall>i. strAt (cr_FuncCallIds s) i \<noteq> [] \<longrightarrow> in64 i)"

text \<open>The part over the signatures, and the whole invariant over the events.\<close>

definition sigs_ok :: "esig list \<Rightarrow> c2r \<Rightarrow> bool" where
  "sigs_ok g s \<longleftrightarrow> cr_Started s \<and> once_ok g s \<and> msgs_ok g s \<and> reason_ok g s \<and> calls_ok g s \<and> text_closed [] g"

definition live :: "chunk_env \<Rightarrow> event list \<Rightarrow> c2r \<Rightarrow> bool" where
  "live E h s \<longleftrightarrow> consecutive 0 (map seqOf h) \<and> cr_Seq s = int (length h) \<and> sigs_ok (map (sig E) h) s"

text \<open>An operation keeps the invariant when it numbers its events and its signatures fit the fields it sets.\<close>

lemma keeps_liveI:
  assumes "\<And>s. numbers (cr_Seq s) (f s)"
    and "\<And>g s. sigs_ok g s \<Longrightarrow> sigs_ok (g @ map (sig E) (fst (f s))) (snd (f s))"
  shows "keeps (live E) f"
proof (unfold keeps_def live_def, intro allI impI conjI; elim conjE)
  fix h s assume h: "consecutive 0 (map seqOf h)" "cr_Seq s = int (length h)" "sigs_ok (map (sig E) h) s"
  have n: "consecutive (int (length h)) (map seqOf (fst (f s)))" "cr_Seq (snd (f s)) = int (length h) + int (length (fst (f s)))"
    using assms(1) [of s, unfolded numbers_def] h(2) by simp_all
  show "consecutive 0 (map seqOf (h @ fst (f s)))" using h(1) n(1) by (simp add: consecutive_append)
  show "cr_Seq (snd (f s)) = int (length (h @ fst (f s)))" using n(2) by simp
  show "sigs_ok (map (sig E) (h @ fst (f s))) (snd (f s))" using assms(2) [OF h(3)] by simp
qed

text \<open>Fields the invariant does not read.\<close>

lemma msgID_cong: "cr_ResponseID s' = cr_ResponseID s \<Longrightarrow> msgID s' = msgID s"
  by (rule ext) (simp add: msgID_def)

lemma flag_set [simp]: "flag (gm_set i True m) j \<longleftrightarrow> j = i \<or> flag m j"
  by (simp add: flag_def gm_get_set)

lemma strAt_set [simp]: "strAt (gm_set i v m) j = (if j = i then v else strAt m j)"
  by (simp add: strAt_def gm_get_set)

lemma ids_insert:
  assumes "\<And>j. P j \<Longrightarrow> in64 j" and "in64 i" and "\<not> P i"
  shows "(of_bool (x \<in> msgID s ` {j. j = i \<or> P j}) :: nat) = of_bool (x \<in> msgID s ` {j. P j}) + of_bool (x = msgID s i)"
proof -
  have "{j. j = i \<or> P j} = insert i {j. P j}" by auto
  moreover have "msgID s i \<notin> msgID s ` {j. P j}" using assms msgID_inject by fastforce
  ultimately show ?thesis by auto
qed

lemma sigs_okI:
  assumes "sigs_ok g s" and "cr_Started s'" and "once_ok g s \<Longrightarrow> once_ok (g @ e) s'" and "msgs_ok g s \<Longrightarrow> msgs_ok (g @ e) s'"
    and "reason_ok g s \<Longrightarrow> reason_ok (g @ e) s'" and "calls_ok g s \<Longrightarrow> calls_ok (g @ e) s'"
    and "msgs_ok g s \<Longrightarrow> reason_ok g s \<Longrightarrow> text_closed g e"
  shows "sigs_ok (g @ e) s'"
  using assms by (simp add: sigs_ok_def text_closed_append)

text \<open>Operations that concern no message.\<close>

definition nomsg :: "esig \<Rightarrow> bool" where
  "nomsg e = (case e of SMsgAdded _ \<Rightarrow> False | SMsgDone _ \<Rightarrow> False | SText _ _ \<Rightarrow> False | _ \<Rightarrow> True)"

lemma msgs_ok_other:
  assumes "msgs_ok g s" and "cr_ResponseID s' = cr_ResponseID s" and "cr_MsgItemAdded s' = cr_MsgItemAdded s"
    and "cr_MsgItemDone s' = cr_MsgItemDone s" and "cr_MsgTextBuf s' = cr_MsgTextBuf s" and "list_all nomsg e"
  shows "msgs_ok (g @ e) s'"
proof -
  have "count_list e (SMsgAdded x) = 0" "count_list e (SMsgDone x) = 0" "textsOf x e = []" for x
    using assms(6) by (induction e) (auto simp: nomsg_def split: esig.splits)
  then show ?thesis using assms(1-5) msgID_cong [OF assms(2)] by (simp add: msgs_ok_def)
qed

lemma closeMessage_live: "keeps (live E) (closeMessage i)"
proof (rule keeps_liveI)
  show "numbers (cr_Seq s) (closeMessage i s)" for s
    by (auto simp: closeMessage_def Let_def intro!: numbers_intros)
next
  fix g s assume L: "sigs_ok g s"
  show "sigs_ok (g @ map (sig E) (fst (closeMessage i s))) (snd (closeMessage i s))"
  proof (cases "\<not> flag (cr_MsgItemAdded s) i \<or> flag (cr_MsgItemDone s) i")
    case True
    then show ?thesis using L by (auto simp: closeMessage_def)
  next
    case False
    let ?m = "msgID s i" and ?t = "strAt (cr_MsgTextBuf s) i"
    let ?s = "s\<lparr>cr_MsgItemDone := gm_set i True (cr_MsgItemDone s), cr_Seq := cr_Seq s + 3\<rparr>"
    have run: "map (sig E) (fst (closeMessage i s)) = [STextDone ?m ?t, SOther, SMsgDone ?m]" "snd (closeMessage i s) = ?s"
      using False by (simp_all add: closeMessage_def Let_def run_simps sig_simps)
    have i: "in64 i" and d: "\<And>j. flag (cr_MsgItemDone s) j \<Longrightarrow> in64 j" using L False by (auto simp: sigs_ok_def msgs_ok_def)
    have id: "msgID ?s = msgID s" by (rule msgID_cong) simp
    show ?thesis unfolding run
    proof (rule sigs_okI [OF L])
      assume m: "msgs_ok g s"
      show "msgs_ok (g @ [STextDone ?m ?t, SOther, SMsgDone ?m]) ?s"
        using m False i unfolding msgs_ok_def id by (simp add: ids_insert [OF d i]) (auto simp: msgID_inject d)
      show "text_closed g [STextDone ?m ?t, SOther, SMsgDone ?m]" using m i by (simp add: msgs_ok_def)
    qed (use L in \<open>simp_all add: sigs_ok_def once_ok_def reason_ok_def calls_ok_def\<close>)
  qed
qed

lemma emitReasoningDelta_live: "keeps (live E) (emitReasoningDelta t)"
proof (rule keeps_liveI)
  show "numbers (cr_Seq s) (emitReasoningDelta t s)" for s
    by (auto simp: emitReasoningDelta_def intro!: numbers_intros)
  fix g s assume L: "sigs_ok g s"
  let ?s = "s\<lparr>cr_ReasoningBuf := cr_ReasoningBuf s @ t, cr_Seq := cr_Seq s + 1\<rparr>"
  show "sigs_ok (g @ map (sig E) (fst (emitReasoningDelta t s))) (snd (emitReasoningDelta t s))"
  proof (cases "t = []")
    case False
    then have run: "map (sig E) (fst (emitReasoningDelta t s)) = [SReasonText t]" "snd (emitReasoningDelta t s) = ?s"
      by (simp_all add: emitReasoningDelta_def sig_simps)
    show ?thesis unfolding run
      by (rule sigs_okI [OF L], simp_all add: msgs_ok_other nomsg_def)
         (use L in \<open>simp_all add: sigs_ok_def once_ok_def reason_ok_def calls_ok_def\<close>)
  qed (use L in \<open>simp add: emitReasoningDelta_def\<close>)
qed

lemma startReasoning_live: "keeps (live E) (startReasoning E raw)"
proof (rule keeps_liveI)
  show "numbers (cr_Seq s) (startReasoning E raw s)" for s
    by (auto simp: startReasoning_def Let_def intro!: numbers_intros)
  fix g s assume L: "sigs_ok g s"
  let ?r = "''rs_'' @ cr_ResponseID s @ ''_'' @ jsStringOf E raw"
  let ?s = "s\<lparr>cr_ReasoningID := ?r, cr_ReasoningIndex := raw, cr_Seq := cr_Seq s + 2, cr_ReasoningPartAdded := True\<rparr>"
  show "sigs_ok (g @ map (sig E) (fst (startReasoning E raw s))) (snd (startReasoning E raw s))"
  proof (cases "cr_ReasoningID s = []")
    case True
    then have run: "map (sig E) (fst (startReasoning E raw s)) = [SReasonAdded, SOther]" "snd (startReasoning E raw s) = ?s"
      by (simp_all add: startReasoning_def Let_def run_simps sig_simps)
    show ?thesis unfolding run
      by (rule sigs_okI [OF L], simp_all add: msgs_ok_other nomsg_def)
         (use L True in \<open>simp_all add: sigs_ok_def once_ok_def reason_ok_def calls_ok_def\<close>)
  qed (use L in \<open>simp add: startReasoning_def\<close>)
qed

lemma closeReasoning_live: "keeps (live E) closeReasoning"
proof (rule keeps_liveI)
  show "numbers (cr_Seq s) (closeReasoning s)" for s
    by (auto simp: closeReasoning_def intro!: numbers_intros)
  fix g s assume L: "sigs_ok g s"
  let ?s = "s\<lparr>cr_ReasoningDone := True, cr_Seq := cr_Seq s + 3\<rparr>"
  show "sigs_ok (g @ map (sig E) (fst (closeReasoning s))) (snd (closeReasoning s))"
  proof (cases "cr_ReasoningID s = [] \<or> cr_ReasoningDone s")
    case False
    then have run: "map (sig E) (fst (closeReasoning s)) = [SReasonTextDone (cr_ReasoningBuf s), SOther, SReasonDone]"
        "snd (closeReasoning s) = ?s"
      by (simp_all add: closeReasoning_def run_simps sig_simps)
    show ?thesis unfolding run
      by (rule sigs_okI [OF L], simp_all add: msgs_ok_other nomsg_def)
         (use L False in \<open>simp_all add: sigs_ok_def once_ok_def reason_ok_def calls_ok_def\<close>)
  qed (use L in \<open>auto simp: closeReasoning_def\<close>)
qed

lemma addMessage_live: "keeps (live E) (addMessage E raw)"
proof (rule keeps_liveI)
  show "numbers (cr_Seq s) (addMessage E raw s)" for s
    by (auto simp: addMessage_def Let_def intro!: numbers_intros)
  fix g s assume L: "sigs_ok g s"
  let ?i = "jsIndex E raw"
  let ?s = "s\<lparr>cr_MsgItemAdded := gm_set ?i True (cr_MsgItemAdded s), cr_Seq := cr_Seq s + 1\<rparr>"
  have id: "msgID ?s = msgID s" by (rule msgID_cong) simp
  have d: "\<And>j. flag (cr_MsgItemAdded s) j \<Longrightarrow> in64 j" using L by (auto simp: sigs_ok_def msgs_ok_def)
  show "sigs_ok (g @ map (sig E) (fst (addMessage E raw s))) (snd (addMessage E raw s))"
  proof (cases "flag (cr_MsgItemAdded s) ?i")
    case False
    then have run: "map (sig E) (fst (addMessage E raw s)) = [SMsgAdded (msgID s ?i)]" "snd (addMessage E raw s) = ?s"
      by (simp_all add: addMessage_def Let_def sig_simps)
    show ?thesis unfolding run
    proof (rule sigs_okI [OF L])
      assume "msgs_ok g s"
      then show "msgs_ok (g @ [SMsgAdded (msgID s ?i)]) ?s"
        using False unfolding msgs_ok_def id
        by (simp add: ids_insert [OF d jsIndex_in64]) (auto simp: msgID_inject d jsIndex_in64)
    qed (use L in \<open>simp_all add: sigs_ok_def once_ok_def reason_ok_def calls_ok_def\<close>)
  qed (use L in \<open>simp add: addMessage_def\<close>)
qed

lemma addContentPart_live: "keeps (live E) (addContentPart E raw)"
proof (rule keeps_liveI)
  show "numbers (cr_Seq s) (addContentPart E raw s)" for s
    by (auto simp: addContentPart_def Let_def intro!: numbers_intros)
  fix g s assume L: "sigs_ok g s"
  let ?s = "s\<lparr>cr_MsgContentAdded := gm_set (jsIndex E raw) True (cr_MsgContentAdded s), cr_Seq := cr_Seq s + 1\<rparr>"
  show "sigs_ok (g @ map (sig E) (fst (addContentPart E raw s))) (snd (addContentPart E raw s))"
  proof (cases "flag (cr_MsgContentAdded s) (jsIndex E raw)")
    case False
    then have run: "map (sig E) (fst (addContentPart E raw s)) = [SOther]" "snd (addContentPart E raw s) = ?s"
      by (simp_all add: addContentPart_def Let_def sig_simps)
    show ?thesis unfolding run
      by (rule sigs_okI [OF L], simp_all add: msgs_ok_other nomsg_def)
         (use L in \<open>simp_all add: sigs_ok_def once_ok_def reason_ok_def calls_ok_def\<close>)
  qed (use L in \<open>simp add: addContentPart_def\<close>)
qed

lemma addText_live: "keeps (live E) (addText E raw content)"
proof (rule keeps_liveI)
  show "numbers (cr_Seq s) (addText E raw content s)" for s
    by (auto simp: addText_def Let_def intro!: numbers_intros)
  fix g s assume L: "sigs_ok g s"
  let ?i = "jsIndex E raw"
  let ?s = "s\<lparr>cr_Seq := cr_Seq s + 1, cr_MsgTextBuf := gm_set ?i (strAt (cr_MsgTextBuf s) ?i @ content) (cr_MsgTextBuf s)\<rparr>"
  have id: "msgID ?s = msgID s" by (rule msgID_cong) simp
  have run: "map (sig E) (fst (addText E raw content s)) = [SText (msgID s ?i) content]" "snd (addText E raw content s) = ?s"
    by (simp_all add: addText_def Let_def run_simps sig_simps)
  show "sigs_ok (g @ map (sig E) (fst (addText E raw content s))) (snd (addText E raw content s))" unfolding run
  proof (rule sigs_okI [OF L])
    assume "msgs_ok g s"
    then show "msgs_ok (g @ [SText (msgID s ?i) content]) ?s" unfolding msgs_ok_def id by (auto simp: msgID_inject jsIndex_in64)
  qed (use L in \<open>simp_all add: sigs_ok_def once_ok_def reason_ok_def calls_ok_def\<close>)
qed

lemma emitTextContent_live: "keeps (live E) (emitTextContent E raw content)"
  unfolding emitTextContent_def by (intro keeps_then addMessage_live addContentPart_live addText_live)

lemma upd_live:
  assumes "\<And>s. cr_Seq (f s) = cr_Seq s" and "\<And>g s. sigs_ok g s \<Longrightarrow> sigs_ok g (f s)"
  shows "keeps (live E) (upd f)"
  by (rule keeps_liveI) (use assms in \<open>simp_all add: numbers_def\<close>)

lemma thinking_live: "keeps (live E) (upd (\<lambda>s. s\<lparr>cr_InThinking := b\<rparr>))"
proof (rule upd_live)
  fix g s assume L: "sigs_ok g s"
  have "msgs_ok (g @ []) (s\<lparr>cr_InThinking := b\<rparr>)" by (rule msgs_ok_other [where s = s]) (use L in \<open>simp_all add: sigs_ok_def\<close>)
  then show "sigs_ok g (s\<lparr>cr_InThinking := b\<rparr>)" using L by (simp add: sigs_ok_def once_ok_def reason_ok_def calls_ok_def)
qed simp

lemma noteCall_live: "in64 i \<Longrightarrow> keeps (live E) (upd (noteCall i tc))"
proof (rule upd_live)
  fix g s assume i: "in64 i" and L: "sigs_ok g s"
  have same: "cr_Started (noteCall i tc s) = cr_Started s" "cr_CompletedSent (noteCall i tc s) = cr_CompletedSent s"
      "cr_ResponseID (noteCall i tc s) = cr_ResponseID s" "cr_MsgItemAdded (noteCall i tc s) = cr_MsgItemAdded s"
      "cr_MsgItemDone (noteCall i tc s) = cr_MsgItemDone s" "cr_MsgTextBuf (noteCall i tc s) = cr_MsgTextBuf s"
      "cr_ReasoningID (noteCall i tc s) = cr_ReasoningID s" "cr_ReasoningDone (noteCall i tc s) = cr_ReasoningDone s"
      "cr_ReasoningBuf (noteCall i tc s) = cr_ReasoningBuf s" "cr_FuncItemAdded (noteCall i tc s) = cr_FuncItemAdded s"
      "cr_FuncItemDone (noteCall i tc s) = cr_FuncItemDone s"
      "strAt (cr_FuncCallIds (noteCall i tc s)) j = (if j = i \<and> asStr (mget tc ''id'') \<noteq> [] then asStr (mget tc ''id'') else strAt (cr_FuncCallIds s) j)" for j
    by (simp_all add: noteCall_def Let_def)
  have "msgs_ok (g @ []) (noteCall i tc s)" by (rule msgs_ok_other [where s = s]) (use L in \<open>simp_all add: same sigs_ok_def\<close>)
  then show "sigs_ok g (noteCall i tc s)" using L i by (simp add: sigs_ok_def once_ok_def reason_ok_def calls_ok_def same)
qed (simp add: noteCall_def Let_def)

lemma itemSig_call: "itemSig E b ((a, v) # (''output_index'', raw) # (''item'', callItem c i n p) # r) =
    (if a = ''item'' \<or> a = ''output_index'' then itemSig E b ((a, v) # (''output_index'', raw) # (''item'', callItem c i n p) # r)
     else if b then SCallAdded (jsIndex E raw) else SCallDone (jsIndex E raw))"
  by (simp add: itemSig_def callItem_def mget_Cons Get_def asStr_def Let_def)

lemma announceCall_live: "jsIndex E raw = i \<Longrightarrow> keeps (live E) (announceCall raw i)"
proof (rule keeps_liveI)
  show "numbers (cr_Seq s) (announceCall raw i s)" for s
    by (auto simp: announceCall_def Let_def intro!: numbers_intros)
  fix g s assume i: "jsIndex E raw = i" and L: "sigs_ok g s"
  let ?s = "s\<lparr>cr_FuncItemAdded := gm_set i True (cr_FuncItemAdded s), cr_Seq := cr_Seq s + 1\<rparr>"
  show "sigs_ok (g @ map (sig E) (fst (announceCall raw i s))) (snd (announceCall raw i s))"
  proof (cases "flag (cr_FuncItemAdded s) i \<or> strAt (cr_FuncCallIds s) i = [] \<or> strAt (cr_FuncNames s) i = []")
    case False
    then have run: "map (sig E) (fst (announceCall raw i s)) = [SCallAdded i]" "snd (announceCall raw i s) = ?s"
      using i by (simp_all add: announceCall_def Let_def sig_name itemSig_call)
    show ?thesis unfolding run
      by (rule sigs_okI [OF L], simp_all add: msgs_ok_other nomsg_def)
         (use L False in \<open>auto simp: sigs_ok_def once_ok_def reason_ok_def calls_ok_def\<close>)
  qed (use L in \<open>auto simp: announceCall_def\<close>)
qed

lemma callArguments_run:
  "callArguments E raw i tc s = skip s \<or> (\<exists>b d f. callArguments E raw i tc s =
     then_do (if b then emit ''response.function_call_arguments.delta'' d else skip) (upd (\<lambda>t. t\<lparr>cr_FuncArgsBuf := f t\<rparr>)) s)"
proof (cases "truthy (Get (mget tc ''function'') ''arguments'')")
  case True
  then show ?thesis
    by (simp only: callArguments_def Let_def True not_True_eq_False if_False) (intro disjI2 exI, rule refl)
qed (simp add: callArguments_def)

lemma callArguments_live: "keeps (live E) (callArguments E raw i tc)"
proof (rule keeps_liveI)
  show "numbers (cr_Seq s) (callArguments E raw i tc s)" for s
    by (auto simp: callArguments_def Let_def intro!: numbers_intros)
  fix g s assume L: "sigs_ok g s"
  have quiet: "sigs_ok (g @ e) (s\<lparr>cr_Seq := q, cr_FuncArgsBuf := f\<rparr>)" if "e = [] \<or> e = [SOther]" for e q f
  proof -
    have m: "msgs_ok (g @ e) (s\<lparr>cr_Seq := q, cr_FuncArgsBuf := f\<rparr>)"
      by (rule msgs_ok_other [where s = s]) (use L that in \<open>auto simp: sigs_ok_def nomsg_def\<close>)
    show ?thesis by (rule sigs_okI [OF L]) (use L that m in \<open>auto simp: sigs_ok_def once_ok_def reason_ok_def calls_ok_def\<close>)
  qed
  from callArguments_run [of E raw i tc s]
  show "sigs_ok (g @ map (sig E) (fst (callArguments E raw i tc s))) (snd (callArguments E raw i tc s))"
  proof (elim disjE exE)
    fix b d f
    assume r: "callArguments E raw i tc s =
      then_do (if b then emit ''response.function_call_arguments.delta'' d else skip) (upd (\<lambda>t. t\<lparr>cr_FuncArgsBuf := f t\<rparr>)) s"
    show ?thesis
    proof (cases b)
      case True
      then show ?thesis using quiet [of "[SOther]"] by (simp add: r run_simps sig_other [simplified])
    next
      case False
      have "s\<lparr>cr_Seq := cr_Seq s, cr_FuncArgsBuf := f s\<rparr> = s\<lparr>cr_FuncArgsBuf := f s\<rparr>" by (cases s) simp
      then show ?thesis using quiet [where e = "[]" and q = "cr_Seq s" and f = "f s"] False by (simp add: r run_simps)
    qed
  qed (use L in simp)
qed

lemma emitToolCall_live: "keeps (live E) (emitToolCall E tc)"
  unfolding emitToolCall_def Let_def
  by (intro keeps_then noteCall_live announceCall_live callArguments_live jsIndex_in64 refl)

lemma closeToolCall_run:
  "closeToolCall E i s = skip s \<or> (\<exists>b d1 d2 d3 c x n p. \<not> (strAt (cr_FuncCallIds s) i = [] \<or> flag (cr_FuncItemDone s) i) \<and> closeToolCall E i s =
     then_do (if b then then_do (emit ''response.custom_tool_call_input.delta'' d1) (emit ''response.custom_tool_call_input.done'' d2)
              else emit ''response.function_call_arguments.done'' d3)
      (then_do (emit ''response.output_item.done'' [(''type'', JStr ''response.output_item.done''), (''output_index'', jint i), (''item'', callItem c x n p)])
       (upd (\<lambda>t. t\<lparr>cr_FuncItemDone := gm_set i True (cr_FuncItemDone t), cr_FuncArgsDone := gm_set i True (cr_FuncArgsDone t)\<rparr>))) s)"
proof (cases "strAt (cr_FuncCallIds s) i = [] \<or> flag (cr_FuncItemDone s) i")
  case False
  then show ?thesis
    by (simp only: closeToolCall_def Let_def False if_False) (intro disjI2 exI conjI, simp, rule refl)
qed (simp add: closeToolCall_def)

lemma closeToolCall_live: "keeps (live E) (closeToolCall E i)"
proof (rule keeps_liveI)
  show "numbers (cr_Seq s) (closeToolCall E i s)" for s
    by (auto simp: closeToolCall_def Let_def intro!: numbers_intros)
  fix g s assume L: "sigs_ok g s"
  have closing: "sigs_ok (g @ e @ [SCallDone i]) (s\<lparr>cr_Seq := q, cr_FuncItemDone := gm_set i True (cr_FuncItemDone s), cr_FuncArgsDone := f\<rparr>)"
    if "list_all (\<lambda>x. x = SOther) e" "\<not> (strAt (cr_FuncCallIds s) i = [] \<or> flag (cr_FuncItemDone s) i)" for e q f
  proof -
    let ?t = "s\<lparr>cr_Seq := q, cr_FuncItemDone := gm_set i True (cr_FuncItemDone s), cr_FuncArgsDone := f\<rparr>"
    have o: "count_list e x = 0" "reasonsOf e = []" "text_closed g e" if "x \<noteq> SOther" for x g
      using \<open>list_all (\<lambda>x. x = SOther) e\<close> that by (induction e arbitrary: g) auto
    have "list_all nomsg e" using that(1) by (auto simp: list_all_iff nomsg_def)
    then have "msgs_ok (g @ e @ [SCallDone i]) ?t" using L by (intro msgs_ok_other [where s = s]) (auto simp: sigs_ok_def nomsg_def)
    then show ?thesis
      by (intro sigs_okI [OF L]) (use L that(2) o in \<open>auto simp: sigs_ok_def once_ok_def reason_ok_def calls_ok_def text_closed_append\<close>)
  qed
  from closeToolCall_run [of E i s]
  show "sigs_ok (g @ map (sig E) (fst (closeToolCall E i s))) (snd (closeToolCall E i s))"
  proof (elim disjE exE conjE)
    fix b d1 d2 d3 c x n p
    assume a: "\<not> (strAt (cr_FuncCallIds s) i = [] \<or> flag (cr_FuncItemDone s) i)"
      and r: "closeToolCall E i s =
       then_do (if b then then_do (emit ''response.custom_tool_call_input.delta'' d1) (emit ''response.custom_tool_call_input.done'' d2)
              else emit ''response.function_call_arguments.done'' d3)
      (then_do (emit ''response.output_item.done'' [(''type'', JStr ''response.output_item.done''), (''output_index'', jint i), (''item'', callItem c x n p)])
       (upd (\<lambda>t. t\<lparr>cr_FuncItemDone := gm_set i True (cr_FuncItemDone t), cr_FuncArgsDone := gm_set i True (cr_FuncArgsDone t)\<rparr>))) s"
    have i: "in64 i" using L a by (auto simp: sigs_ok_def calls_ok_def)
    show ?thesis
    proof (cases b)
      case True
      then show ?thesis using closing [of "[SOther, SOther]"] a
        by (simp add: r run_simps sig_name sig_other [simplified] itemSig_call jsIndex_jint [OF i])
    next
      case False
      then show ?thesis using closing [of "[SOther]"] a
        by (simp add: r run_simps sig_name sig_other [simplified] itemSig_call jsIndex_jint [OF i])
    qed
  qed (use L in simp)
qed

lemma sendCompleted_live: "keeps (live E) sendCompleted"
proof (rule keeps_liveI)
  show "numbers (cr_Seq s) (sendCompleted s)" for s
    by (auto simp: sendCompleted_def intro!: numbers_intros)
  fix g s assume L: "sigs_ok g s"
  show "sigs_ok (g @ map (sig E) (fst (sendCompleted s))) (snd (sendCompleted s))"
  proof (cases "cr_CompletedSent s")
    case False
    then have run: "map (sig E) (fst (sendCompleted s)) = [SCompleted]" "snd (sendCompleted s) = s\<lparr>cr_CompletedSent := True, cr_Seq := cr_Seq s + 1\<rparr>"
      by (simp_all add: sendCompleted_def sig_simps)
    show ?thesis unfolding run
      by (rule sigs_okI [OF L], simp_all add: msgs_ok_other nomsg_def)
         (use L False in \<open>simp_all add: sigs_ok_def once_ok_def reason_ok_def calls_ok_def\<close>)
  qed (use L in \<open>simp add: sendCompleted_def\<close>)
qed

section \<open>The whole translation\<close>

lemma keeps_dep: "(\<And>h s. J h s \<Longrightarrow> keeps J (f s)) \<Longrightarrow> keeps J (\<lambda>s. f s s)"
  unfolding keeps_def by blast

lemma closeAll_live: "keeps (live E) (closeAll E)"
proof -
  have m: "keeps (live E) (\<lambda>s. for_each closeMessage (sortedKeys (cr_MsgItemAdded s)) s)"
    by (rule keeps_dep [where f = "\<lambda>s. for_each closeMessage (sortedKeys (cr_MsgItemAdded s))"]) (rule keeps_each, rule closeMessage_live)
  have c: "keeps (live E) (\<lambda>s. for_each (closeToolCall E) (sortedKeys (cr_FuncCallIds s)) s)"
    by (rule keeps_dep [where f = "\<lambda>s. for_each (closeToolCall E) (sortedKeys (cr_FuncCallIds s))"]) (rule keeps_each, rule closeToolCall_live)
  show ?thesis unfolding closeAll_def by (rule keeps_then [OF m keeps_then [OF closeReasoning_live keeps_then [OF c sendCompleted_live]]])
qed

lemma openThink_live: "openThink E raw c = (c', f) \<Longrightarrow> keeps (live E) f"
  by (auto simp: openThink_def split: option.splits intro!: keeps_skip keeps_then thinking_live startReasoning_live)

lemma closeThink_live: "closeThink c = (c', f) \<Longrightarrow> keeps (live E) f"
  by (auto simp: closeThink_def split: option.splits intro!: keeps_skip keeps_then thinking_live emitReasoningDelta_live closeReasoning_live)

lemma contentStage_live:
  assumes "live E h s" and "contentStage E raw c s = (stop, es, s')"
  shows "live E (h @ es) s'"
proof (cases "c = []")
  case False
  obtain c1 f1 where o1: "openThink E raw c = (c1, f1)" by force
  obtain c2 f2 where o2: "closeThink c1 = (c2, f2)" by force
  obtain e1 s1 where r1: "then_do f1 f2 s = (e1, s1)" by force
  have k1: "live E (h @ e1) s1"
    using keepsD [OF keeps_then [OF openThink_live [OF o1] closeThink_live [OF o2]] assms(1)] r1 by simp
  have "keeps (live E) (if c2 \<noteq> [] then emitTextContent E raw c2 else skip)"
    by (simp add: keeps_skip emitTextContent_live)
  from keepsD [OF this k1] keepsD [OF emitReasoningDelta_live k1, of c2] assms(2) False show ?thesis
    by (auto simp: contentStage_def o1 o2 r1 split_beta Let_def simp flip: append_assoc split: if_splits)
qed (use assms in \<open>simp add: contentStage_def\<close>)

lemma reasoningStage_live: "keeps (live E) (reasoningStage E raw d)"
  by (simp add: reasoningStage_def Let_def keeps_skip keeps_then startReasoning_live emitReasoningDelta_live)

lemma toolStage_live: "keeps (live E) (toolStage E i d)"
proof -
  have call: "keeps (live E) (case raw of JObj tc \<Rightarrow> emitToolCall E tc | _ \<Rightarrow> skip)" for raw
    by (simp add: keeps_skip emitToolCall_live split: json.split)
  have "keeps (live E) (then_do (closeMessage i) (for_each (\<lambda>raw. case raw of JObj tc \<Rightarrow> emitToolCall E tc | _ \<Rightarrow> skip) cs))" for cs
    by (intro keeps_then closeMessage_live keeps_each call)
  then show ?thesis by (simp add: toolStage_def keeps_skip del: for_each.simps split: json.split list.split)
qed

lemma finishStage_live: "keeps (live E) (finishStage E c)"
  by (simp add: finishStage_def keeps_skip closeAll_live)

text \<open>The state before the first chunk that counts.\<close>

definition fresh :: "c2r \<Rightarrow> bool" where
  "fresh s \<longleftrightarrow> \<not> cr_Started s \<and> cr_Seq s = 0 \<and> \<not> cr_CompletedSent s \<and> cr_MsgItemAdded s = [] \<and> cr_MsgItemDone s = [] \<and>
     cr_MsgTextBuf s = [] \<and> cr_ReasoningID s = [] \<and> \<not> cr_ReasoningDone s \<and> cr_ReasoningBuf s = [] \<and>
     cr_FuncCallIds s = [] \<and> cr_FuncItemAdded s = [] \<and> cr_FuncItemDone s = []"

definition stream_ok :: "chunk_env \<Rightarrow> event list \<Rightarrow> c2r \<Rightarrow> bool" where
  "stream_ok E h s \<longleftrightarrow> h = [] \<and> fresh s \<or> live E h s"

lemma scaffold_live:
  assumes "stream_ok E h s"
  shows "live E (h @ fst (scaffold ms c s)) (snd (scaffold ms c s))"
proof (cases "cr_Started s")
  case True
  then show ?thesis using assms by (simp add: scaffold_def stream_ok_def fresh_def)
next
  case False
  then have f: "h = []" "fresh s" using assms by (auto simp: stream_ok_def live_def sigs_ok_def)
  have n: "numbers 0 (scaffold ms c s)"
    using False f(2) by (auto simp: scaffold_def Let_def fresh_def intro!: numbers_intros)
  have g: "map (sig E) (fst (scaffold ms c s)) = [SCreated, SOther]"
    using False by (simp add: scaffold_def Let_def run_simps sig_name sig_other [simplified])
  have t: "sigs_ok [SCreated, SOther] (snd (scaffold ms c s))"
    using False f(2) by (simp add: scaffold_def Let_def run_simps sigs_ok_def once_ok_def msgs_ok_def reason_ok_def calls_ok_def
        fresh_def flag_def strAt_def)
  show ?thesis using n g t f(1) by (simp add: live_def numbers_def)
qed

lemma convertChoice_live:
  assumes "stream_ok E h s"
  shows "live E (h @ fst (convertChoice E ms c ch s)) (snd (convertChoice E ms c ch s))"
proof -
  define raw where "raw = (if truthy (mget ch ''index'') then mget ch ''index'' else jint 0)"
  define d where "d = (case mget ch ''delta'' of JObj d \<Rightarrow> d | _ \<Rightarrow> [])"
  obtain e0 s0 where r0: "then_do (scaffold ms c) (reasoningStage E raw d) s = (e0, s0)" by force
  have k0: "live E (h @ e0) s0"
    using keepsD [OF reasoningStage_live scaffold_live [OF assms, of ms c], of raw d] r0 by (simp add: then_run)
  obtain stop e1 s1 where r1: "contentStage E raw (asStr (mget d ''content'')) s0 = (stop, e1, s1)" by (metis prod_cases3)
  have k1: "live E ((h @ e0) @ e1) s1" by (rule contentStage_live [OF k0 r1])
  have "keeps (live E) (then_do (toolStage E (jsIndex E raw) d) (finishStage E ch))"
    by (intro keeps_then toolStage_live finishStage_live)
  from keepsD [OF this k1] k1 show ?thesis
    by (auto simp: convertChoice_def Let_def raw_def [symmetric] d_def [symmetric] r0 r1 split_beta)
qed

section \<open>The completed event\<close>

text \<open>When the response completes, every item announced so far is closed.\<close>

definition balanced :: "esig list \<Rightarrow> bool" where
  "balanced g \<longleftrightarrow> (\<forall>x. count_list g (SMsgDone x) = count_list g (SMsgAdded x) \<and> count_list g (SMsgAdded x) \<le> 1) \<and>
     count_list g SReasonDone = count_list g SReasonAdded \<and> count_list g SReasonAdded \<le> 1 \<and>
     (\<forall>i. count_list g (SCallAdded i) \<le> count_list g (SCallDone i) \<and> count_list g (SCallDone i) \<le> 1)"

definition completes :: "esig list \<Rightarrow> bool" where
  "completes g \<longleftrightarrow> (\<exists>pre post. g = pre @ SCompleted # post \<and> balanced pre)"

lemma completes_more: "completes g \<Longrightarrow> completes (g @ e)"
  unfolding completes_def by fastforce

definition quietly :: "c2r_op \<Rightarrow> bool" where
  "quietly f \<longleftrightarrow> (\<forall>s. cr_CompletedSent (snd (f s)) = cr_CompletedSent s)"

lemma quietlyD: "quietly f \<Longrightarrow> cr_CompletedSent (snd (f s)) = cr_CompletedSent s"
  by (simp add: quietly_def)

lemma quietly_then: "quietly f \<Longrightarrow> quietly g \<Longrightarrow> quietly (then_do f g)"
  by (simp add: quietly_def then_snd)

lemma quietly_skip: "quietly skip"
  by (simp add: quietly_def)

lemma quietly_each: "(\<And>x. quietly (f x)) \<Longrightarrow> quietly (for_each f xs)"
  by (induction xs) (auto simp: quietly_skip quietly_then)

lemma quiet_ops:
  "quietly (startReasoning E raw)" "quietly (emitReasoningDelta t)" "quietly closeReasoning"
  "quietly (addMessage E raw)" "quietly (addContentPart E raw)" "quietly (addText E raw t)" "quietly (closeMessage i)"
  "quietly (upd (noteCall i tc))" "quietly (announceCall raw i)" "quietly (scaffold ms c)"
  "quietly (upd (\<lambda>s. s\<lparr>cr_InThinking := b\<rparr>))"
  by (simp_all add: quietly_def startReasoning_def emitReasoningDelta_def closeReasoning_def addMessage_def addContentPart_def
      addText_def closeMessage_def noteCall_def announceCall_def scaffold_def Let_def run_simps)

lemma quiet_arguments: "quietly (callArguments E raw i tc)"
  unfolding quietly_def
proof
  fix s
  show "cr_CompletedSent (snd (callArguments E raw i tc s)) = cr_CompletedSent s"
    using callArguments_run [of E raw i tc s] by (auto simp: run_simps split: if_splits)
qed

lemma quiet_closeToolCall: "quietly (closeToolCall E i)"
  unfolding quietly_def
proof
  fix s
  show "cr_CompletedSent (snd (closeToolCall E i s)) = cr_CompletedSent s"
    using closeToolCall_run [of E i s] by (auto simp: run_simps split: if_splits)
qed

lemma quiet_stages: "quietly (reasoningStage E raw d)" "quietly (toolStage E i d)"
proof -
  show "quietly (reasoningStage E raw d)" by (simp add: reasoningStage_def Let_def quietly_skip quietly_then quiet_ops)
  have call: "quietly (case r of JObj tc \<Rightarrow> emitToolCall E tc | _ \<Rightarrow> skip)" for r
    by (simp add: emitToolCall_def Let_def quietly_skip quietly_then quiet_ops quiet_arguments split: json.split)
  have "quietly (then_do (closeMessage i) (for_each (\<lambda>raw. case raw of JObj tc \<Rightarrow> emitToolCall E tc | _ \<Rightarrow> skip) cs))" for cs
    by (intro quietly_then quiet_ops quietly_each call)
  then show "quietly (toolStage E i d)" by (simp add: toolStage_def quietly_skip del: for_each.simps split: json.split list.split)
qed

lemma contentStage_quiet:
  assumes "contentStage E raw c s = (stop, es, s')"
  shows "cr_CompletedSent s' = cr_CompletedSent s"
proof (cases "c = []")
  case False
  obtain c1 f1 where o1: "openThink E raw c = (c1, f1)" by force
  obtain c2 f2 where o2: "closeThink c1 = (c2, f2)" by force
  have q: "quietly f1" "quietly f2"
    using o1 o2 by (auto simp: openThink_def closeThink_def quietly_skip quietly_then quiet_ops split: option.splits)
  have e: "quietly (if c2 \<noteq> [] then emitTextContent E raw c2 else skip)"
    by (simp add: quietly_skip emitTextContent_def quietly_then quiet_ops)
  show ?thesis using assms False quietlyD [OF quietly_then [OF q]] quietlyD [OF e] quietlyD [OF quiet_ops(2)]
    by (auto simp: contentStage_def o1 o2 split_beta Let_def split: if_splits)
qed (use assms in \<open>simp add: contentStage_def\<close>)

section \<open>Closing everything\<close>

lemma closeMessages_flags:
  "cr_MsgItemAdded (snd (for_each closeMessage is s)) = cr_MsgItemAdded s \<and>
   flag (cr_MsgItemDone (snd (for_each closeMessage is s))) j = (flag (cr_MsgItemDone s) j \<or> j \<in> set is \<and> flag (cr_MsgItemAdded s) j)"
proof (induction "is" arbitrary: s)
  case (Cons i "is")
  have "cr_MsgItemAdded (snd (closeMessage i s)) = cr_MsgItemAdded s"
    "flag (cr_MsgItemDone (snd (closeMessage i s))) j = (flag (cr_MsgItemDone s) j \<or> j = i \<and> flag (cr_MsgItemAdded s) j)" for j
    by (auto simp: closeMessage_def Let_def run_simps)
  with Cons.IH [of "snd (closeMessage i s)"] show ?case by (auto simp: then_snd)
qed simp

definition same_msgs :: "c2r \<Rightarrow> c2r \<Rightarrow> bool" where
  "same_msgs s t \<longleftrightarrow> cr_MsgItemAdded t = cr_MsgItemAdded s \<and> cr_MsgItemDone t = cr_MsgItemDone s"

definition same_reason :: "c2r \<Rightarrow> c2r \<Rightarrow> bool" where
  "same_reason s t \<longleftrightarrow> cr_ReasoningID t = cr_ReasoningID s \<and> cr_ReasoningDone t = cr_ReasoningDone s"

lemma closeReasoning_flags:
  "same_msgs s (snd (closeReasoning s)) \<and> (cr_ReasoningID (snd (closeReasoning s)) \<noteq> [] \<longrightarrow> cr_ReasoningDone (snd (closeReasoning s)))"
  by (auto simp: closeReasoning_def run_simps same_msgs_def)

lemma closeCall_flags:
  "same_msgs s (snd (closeToolCall E i s)) \<and> same_reason s (snd (closeToolCall E i s)) \<and>
   cr_FuncCallIds (snd (closeToolCall E i s)) = cr_FuncCallIds s \<and>
   cr_FuncItemAdded (snd (closeToolCall E i s)) = cr_FuncItemAdded s \<and>
   (flag (cr_FuncItemDone s) j \<longrightarrow> flag (cr_FuncItemDone (snd (closeToolCall E i s))) j) \<and>
   (strAt (cr_FuncCallIds s) i \<noteq> [] \<longrightarrow> flag (cr_FuncItemDone (snd (closeToolCall E i s))) i)"
proof -
  consider "strAt (cr_FuncCallIds s) i = [] \<or> flag (cr_FuncItemDone s) i" | "\<not> (strAt (cr_FuncCallIds s) i = [] \<or> flag (cr_FuncItemDone s) i)" by blast
  then show ?thesis
  proof cases
    case 1
    then have "closeToolCall E i s = ([], s)" by (simp add: closeToolCall_def)
    then show ?thesis using 1 by (auto simp: same_msgs_def same_reason_def)
  next
    case 2
    show ?thesis using closeToolCall_run [of E i s] 2
    proof (elim disjE exE conjE)
      assume a: "closeToolCall E i s = skip s"
      have "flag (cr_FuncItemDone (snd (closeToolCall E i s))) i" using 2 by (simp add: closeToolCall_def Let_def then_snd)
      with a 2 show ?thesis by simp
    qed (auto simp: run_simps same_msgs_def same_reason_def split: if_splits)
  qed
qed

lemma closeCalls_flags:
  "same_msgs s (snd (for_each (closeToolCall E) is s)) \<and> same_reason s (snd (for_each (closeToolCall E) is s)) \<and>
   cr_FuncCallIds (snd (for_each (closeToolCall E) is s)) = cr_FuncCallIds s \<and>
   cr_FuncItemAdded (snd (for_each (closeToolCall E) is s)) = cr_FuncItemAdded s \<and>
   (flag (cr_FuncItemDone s) j \<or> j \<in> set is \<and> strAt (cr_FuncCallIds s) j \<noteq> [] \<longrightarrow> flag (cr_FuncItemDone (snd (for_each (closeToolCall E) is s))) j)"
proof (induction "is" arbitrary: s)
  case (Cons i "is")
  from Cons.IH [of "snd (closeToolCall E i s)"] closeCall_flags [of s E i j] show ?case
    by (auto simp: then_snd same_msgs_def same_reason_def)
qed (simp add: same_msgs_def same_reason_def)

lemma flag_key: "flag m j \<Longrightarrow> j \<in> set (sortedKeys m)"
  by (force simp: flag_def sortedKeys_def dest: map_of_SomeD)

lemma strAt_key: "strAt m j \<noteq> [] \<Longrightarrow> j \<in> set (sortedKeys m)"
  by (force simp: strAt_def sortedKeys_def dest: map_of_SomeD split: option.splits)

lemma balanced_closed:
  assumes "sigs_ok g s" and "\<And>i. flag (cr_MsgItemAdded s) i \<Longrightarrow> flag (cr_MsgItemDone s) i"
    and "cr_ReasoningID s \<noteq> [] \<Longrightarrow> cr_ReasoningDone s"
    and "\<And>i. flag (cr_FuncItemAdded s) i \<Longrightarrow> flag (cr_FuncItemDone s) i"
  shows "balanced g"
proof -
  have "{i. flag (cr_MsgItemDone s) i} = {i. flag (cr_MsgItemAdded s) i}"
    using assms(1,2) by (auto simp: sigs_ok_def msgs_ok_def)
  then show ?thesis using assms by (auto simp: balanced_def sigs_ok_def msgs_ok_def reason_ok_def calls_ok_def)
qed

lemma closeMessages_live: "keeps (live E) (for_each closeMessage is)"
  by (rule keeps_each) (rule closeMessage_live)

lemma closeCalls_live: "keeps (live E) (for_each (closeToolCall E) is)"
  by (rule keeps_each) (rule closeToolCall_live)

lemma closeAll_completes:
  assumes "live E h s" and "\<not> cr_CompletedSent s"
  shows "completes (map (sig E) (h @ fst (closeAll E s)))"
proof -
  let ?f1 = "for_each closeMessage (sortedKeys (cr_MsgItemAdded s))"
  define e1 s1 where "e1 = fst (?f1 s)" and "s1 = snd (?f1 s)"
  define e2 s2 where "e2 = fst (closeReasoning s1)" and "s2 = snd (closeReasoning s1)"
  let ?f3 = "for_each (closeToolCall E) (sortedKeys (cr_FuncCallIds s2))"
  define e3 s3 where "e3 = fst (?f3 s2)" and "s3 = snd (?f3 s2)"
  have k1: "live E (h @ e1) s1"
    unfolding e1_def s1_def by (rule keepsD [OF closeMessages_live assms(1)])
  have k2: "live E ((h @ e1) @ e2) s2"
    unfolding e2_def s2_def by (rule keepsD [OF closeReasoning_live k1])
  have k3: "live E (((h @ e1) @ e2) @ e3) s3"
    unfolding e3_def s3_def by (rule keepsD [OF closeCalls_live k2])
  have c3: "\<not> cr_CompletedSent s3"
    using assms(2) quietlyD [OF quietly_each [of closeMessage, OF quiet_ops(7)], of "sortedKeys (cr_MsgItemAdded s)" s]
      quietlyD [OF quiet_ops(3), of s1] quietlyD [OF quietly_each [of "closeToolCall E", OF quiet_closeToolCall], of "sortedKeys (cr_FuncCallIds s2)" s2]
    by (simp add: s1_def s2_def s3_def)
  have sg: "sigs_ok (map (sig E) (h @ e1 @ e2 @ e3)) s3" using k3 by (simp add: live_def)
  have "balanced (map (sig E) (h @ e1 @ e2 @ e3))"
  proof (rule balanced_closed [OF sg])
    fix i assume "flag (cr_MsgItemAdded s3) i"
    then show "flag (cr_MsgItemDone s3) i"
      using closeMessages_flags [of "sortedKeys (cr_MsgItemAdded s)" s i] closeReasoning_flags [of s1]
        closeCalls_flags [of s2 E "sortedKeys (cr_FuncCallIds s2)" i] flag_key [of "cr_MsgItemAdded s" i]
      by (auto simp: s1_def s2_def s3_def same_msgs_def)
  next
    assume "cr_ReasoningID s3 \<noteq> []"
    then show "cr_ReasoningDone s3"
      using closeReasoning_flags [of s1] closeCalls_flags [of s2 E "sortedKeys (cr_FuncCallIds s2)"]
      by (auto simp: s2_def s3_def same_reason_def)
  next
    fix i assume a: "flag (cr_FuncItemAdded s3) i"
    then have "strAt (cr_FuncCallIds s3) i \<noteq> []" using sg by (simp add: sigs_ok_def calls_ok_def)
    then show "flag (cr_FuncItemDone s3) i"
      using closeCalls_flags [of s2 E "sortedKeys (cr_FuncCallIds s2)" i] strAt_key [of "cr_FuncCallIds s2" i]
      by (auto simp: s3_def)
  qed
  moreover have "map (sig E) (h @ fst (closeAll E s)) = map (sig E) (h @ e1 @ e2 @ e3) @ [SCompleted]"
    using c3 by (simp add: closeAll_def then_fst then_snd e1_def s1_def [symmetric] e2_def s2_def [symmetric] e3_def s3_def [symmetric]
        sendCompleted_def sig_name)
  ultimately show ?thesis unfolding completes_def by fastforce
qed

lemma closeAll_sent: "cr_CompletedSent (snd (closeAll E s))"
  by (simp add: closeAll_def then_snd sendCompleted_def)

lemma closeAll_step:
  assumes "live E h s" and "cr_CompletedSent s \<Longrightarrow> completes (map (sig E) h)"
  shows "completes (map (sig E) (h @ fst (closeAll E s)))"
  using closeAll_completes [OF assms(1)] completes_more [OF assms(2)] by (cases "cr_CompletedSent s") auto

section \<open>A stream\<close>

definition going :: "chunk_env \<Rightarrow> event list \<Rightarrow> c2r \<Rightarrow> bool" where
  "going E h s \<longleftrightarrow> h = [] \<and> fresh s \<or> live E h s \<and> (cr_CompletedSent s \<longrightarrow> completes (map (sig E) h))"

lemma convertChoice_going:
  assumes "going E h s"
  shows "going E (h @ fst (convertChoice E ms c ch s)) (snd (convertChoice E ms c ch s))"
proof -
  have so: "stream_ok E h s" using assms by (auto simp: going_def stream_ok_def)
  have c0: "cr_CompletedSent s \<Longrightarrow> completes (map (sig E) h)" using assms by (auto simp: going_def fresh_def)
  define raw where "raw = (if truthy (mget ch ''index'') then mget ch ''index'' else jint 0)"
  define d where "d = (case mget ch ''delta'' of JObj d \<Rightarrow> d | _ \<Rightarrow> [])"
  obtain e0 s0 where r0: "then_do (scaffold ms c) (reasoningStage E raw d) s = (e0, s0)" by force
  have k0: "live E (h @ e0) s0"
    using keepsD [OF reasoningStage_live scaffold_live [OF so, of ms c], of raw d] r0 by (simp add: then_run)
  have q0: "cr_CompletedSent s0 = cr_CompletedSent s"
    using quietlyD [OF quietly_then [OF quiet_ops(10) quiet_stages(1)], of ms c E raw d s] r0 by simp
  obtain stop e1 s1 where r1: "contentStage E raw (asStr (mget d ''content'')) s0 = (stop, e1, s1)" by (metis prod_cases3)
  have k1: "live E ((h @ e0) @ e1) s1" by (rule contentStage_live [OF k0 r1])
  have q1: "cr_CompletedSent s1 = cr_CompletedSent s" using contentStage_quiet [OF r1] q0 by simp
  obtain e2 s2 where r2: "toolStage E (jsIndex E raw) d s1 = (e2, s2)" by force
  have k2: "live E (((h @ e0) @ e1) @ e2) s2" using keepsD [OF toolStage_live [of E "jsIndex E raw" d] k1] r2 by simp
  have q2: "cr_CompletedSent s2 = cr_CompletedSent s" using quietlyD [OF quiet_stages(2), of E "jsIndex E raw" d s1] r2 q1 by simp
  have k3: "live E ((((h @ e0) @ e1) @ e2) @ fst (finishStage E ch s2)) (snd (finishStage E ch s2))"
    by (rule keepsD [OF finishStage_live k2])
  have m2: "completes (map (sig E) (((h @ e0) @ e1) @ e2))" if "cr_CompletedSent s2"
    using completes_more [OF c0] that q2 by simp
  have m3: "completes (map (sig E) ((((h @ e0) @ e1) @ e2) @ fst (finishStage E ch s2)))" if "cr_CompletedSent (snd (finishStage E ch s2))"
  proof (cases "truthy (mget ch ''finish_reason'')")
    case True
    then show ?thesis using closeAll_step [OF k2 m2] by (simp add: finishStage_def)
  next
    case False
    then show ?thesis using m2 that by (simp add: finishStage_def)
  qed
  have run: "convertChoice E ms c ch s = (if stop then (e0 @ e1, s1) else (e0 @ e1 @ e2 @ fst (finishStage E ch s2), snd (finishStage E ch s2)))"
    unfolding convertChoice_def Let_def raw_def [symmetric] d_def [symmetric] r0 prod.case r1 by (simp add: then_run r2)
  show ?thesis
  proof (cases stop)
    case True
    then show ?thesis using k1 q1 c0 completes_more [of "map (sig E) h" "map (sig E) (e0 @ e1)"] by (auto simp: run going_def)
  next
    case False
    then show ?thesis using k3 m3 by (simp add: run going_def)
  qed
qed

lemma going_chunk:
  assumes "going E h s"
  shows "going E (h @ fst (ConvertChat E ms (Some c) s)) (snd (ConvertChat E ms (Some c) s))"
  using assms convertChoice_going [OF assms, of ms c] by (simp add: ConvertChat_def split: json.split list.split)

lemma going_run:
  "going E h s \<Longrightarrow> going E (h @ fst (for_each (\<lambda>(ms, c). ConvertChat E ms (Some c)) cs s)) (snd (for_each (\<lambda>(ms, c). ConvertChat E ms (Some c)) cs s))"
proof (induction cs arbitrary: h s)
  case (Cons p cs)
  obtain ms c where p: "p = (ms, c)" by force
  from Cons.IH [OF going_chunk [OF Cons.prems, of ms c]] show ?case by (simp add: p then_run)
qed simp

text \<open>The chunks that count are those with a first choice; they start the response.\<close>

definition counts :: "jmap \<Rightarrow> bool" where
  "counts c \<longleftrightarrow> (case mget c ''choices'' of JArr (JObj _ # _) \<Rightarrow> True | _ \<Rightarrow> False)"

lemma going_counts:
  assumes "going E h s" and "counts c \<or> live E h s"
  shows "live E (h @ fst (ConvertChat E ms (Some c) s)) (snd (ConvertChat E ms (Some c) s))"
proof -
  have "stream_ok E h s" using assms(1) by (auto simp: going_def stream_ok_def)
  from convertChoice_live [OF this, of ms c] show ?thesis using assms(2)
    by (auto simp: ConvertChat_def counts_def split: json.split list.split)
qed

lemma run_counts:
  "going E h s \<Longrightarrow> list_ex (\<lambda>(_, c). counts c) cs \<or> live E h s \<Longrightarrow>
     live E (h @ fst (for_each (\<lambda>(ms, c). ConvertChat E ms (Some c)) cs s)) (snd (for_each (\<lambda>(ms, c). ConvertChat E ms (Some c)) cs s))"
proof (induction cs arbitrary: h s)
  case (Cons p cs)
  obtain ms c where p: "p = (ms, c)" by force
  have "list_ex (\<lambda>(_, c). counts c) cs \<or> live E (h @ fst (ConvertChat E ms (Some c) s)) (snd (ConvertChat E ms (Some c) s))"
    using Cons.prems going_counts [OF Cons.prems(1), of c ms] by (auto simp: p)
  from Cons.IH [OF going_chunk [OF Cons.prems(1), of ms c] this] show ?case by (simp add: p then_run)
qed simp

lemma run_idle: "\<not> list_ex (\<lambda>(_, c). counts c) cs \<Longrightarrow> for_each (\<lambda>(ms, c). ConvertChat E ms (Some c)) cs s = ([], s)"
proof (induction cs arbitrary: s)
  case (Cons p cs)
  obtain ms c where p: "p = (ms, c)" by force
  have "ConvertChat E ms (Some c) s = ([], s)" using Cons.prems by (auto simp: p ConvertChat_def counts_def split: json.splits list.splits)
  with Cons p show ?case by (simp add: then_run)
qed simp

lemma fresh_close:
  assumes "fresh s"
  shows "map (sig E) (fst (closeAll E s)) = [SCompleted]" and "numbers 0 (closeAll E s)"
  using assms by (simp_all add: closeAll_def then_fst then_snd fresh_def sortedKeys_def closeReasoning_def sendCompleted_def sig_name
      numbers_def emit_run seqOf_def mget_gm_set mget_Cons then_run)

text \<open>
  C27. Whatever chunks a chat upstream sends, the events a Responses client receives are well formed: they are numbered
  from one without gaps, and the response is completed exactly once. When some chunk has a first choice, the response is
  created exactly once and before anything else; when none has, the completed event is all there is. At the completed
  event every item announced before it has been closed, each exactly once. And a text that is closed is the concatenation
  of the deltas streamed for it until then; text that a later chunk still streams for a closed item is in no close
  (\<open>text_after_close\<close> of \<open>TranslateRelay\<close>).
\<close>

theorem responses_events_well_formed:
  "case toResponses E ((NewChatToRespState model created rid)\<lparr>cr_CustomToolNames := names\<rparr>) cs of (evs, s) \<Rightarrow>
     consecutive 0 (map seqOf evs) \<and> count_list (map (sig E) evs) SCompleted = 1 \<and>
     (if list_ex (\<lambda>(_, c). counts c) cs
      then hd (map (sig E) evs) = SCreated \<and> count_list (map (sig E) evs) SCreated = 1
      else map (sig E) evs = [SCompleted]) \<and>
     completes (map (sig E) evs) \<and> text_closed [] (map (sig E) evs)"
proof -
  define s0 where "s0 = (NewChatToRespState model created rid)\<lparr>cr_CustomToolNames := names\<rparr>"
  obtain h s where run: "for_each (\<lambda>(ms, c). ConvertChat E ms (Some c)) cs s0 = (h, s)" by force
  have f0: "fresh s0" by (simp add: fresh_def s0_def NewChatToRespState_def)
  then have g0: "going E [] s0" by (simp add: going_def)
  have g: "going E h s" using going_run [OF g0, of cs] run by simp
  have out: "toResponses E s0 cs = (h @ fst (flushEvents E s), snd (flushEvents E s))"
    by (simp add: toResponses_def then_run run ConvertChat_def)
  show ?thesis
  proof (cases "list_ex (\<lambda>(_, c). counts c) cs")
    case False
    then have 1: "h = []" "fresh s" using run_idle [OF False, of E s0] run f0 by auto
    have p: "flushEvents E s = closeAll E s" using 1(2) by (simp add: flushEvents_def fresh_def)
    have "completes [SCompleted]" unfolding completes_def by (rule exI [of _ "[]"]) (simp add: balanced_def)
    then show ?thesis using fresh_close [OF 1(2), of E] False by (simp add: out [unfolded s0_def] p 1(1) numbers_def split_beta)
  next
    case True
    then have 2: "live E h s" using run_counts [OF g0, of cs] run by simp
    then have c0: "cr_CompletedSent s \<longrightarrow> completes (map (sig E) h)" using g by (auto simp: going_def fresh_def)
    let ?e = "fst (flushEvents E s)" and ?s = "snd (flushEvents E s)"
    have k: "live E (h @ ?e) ?s" using 2 keepsD [OF closeAll_live 2] by (simp add: flushEvents_def)
    have c: "cr_CompletedSent ?s" by (simp add: flushEvents_def closeAll_sent)
    have m: "completes (map (sig E) (h @ ?e))"
      using closeAll_step [OF 2] c0 by (simp add: flushEvents_def)
    show ?thesis using k c m True by (simp add: out [unfolded s0_def] live_def sigs_ok_def once_ok_def)
  qed
qed

end
