(* ===== verification/TranslateRelay.thy ===== *)
theory TranslateRelay
  imports Passthrough RespToChat ChatToRespProps
begin

text \<open>
  The translating relay (\<^verbatim>\<open>internal/relay/translate.go\<close>): the lines of an upstream of one format become the
  items of a client of the other. The state keeps the items written, each printed by \<open>FormatData\<close>;
  \<open>te_fail\<close> says whether a write fails, given the items already written.
\<close>

record trans_env =
  te_relay :: relay_env
  te_chunk :: chunk_env
  te_fail :: "jmap list \<Rightarrow> string option"

record trans_relay =
  tl_items :: "jmap list"
  tl_respToChat :: r2c
  tl_chatToResp :: c2r
  tl_progress :: progress
  tl_trackedUsage :: usage
  tl_FinalUsage :: usage
  tl_FinalContent :: string
  tl_FinalThinking :: string
  tl_finalized :: bool

text \<open>Both translators are kept; the source format says which of them runs.\<close>

definition NewTranslateRelay :: "string \<Rightarrow> int \<Rightarrow> string \<Rightarrow> trans_relay" where
  "NewTranslateRelay model created responseID = \<lparr>tl_items = [], tl_respToChat = RespToChat.NewRespToChatState model,
     tl_chatToResp = NewChatToRespState model created responseID, tl_progress = \<lparr>pg_len = 0, pg_content = [], pg_thinking = []\<rparr>,
     tl_trackedUsage = None, tl_FinalUsage = None, tl_FinalContent = [], tl_FinalThinking = [], tl_finalized = False\<rparr>"

definition SetCustomToolNames :: "string list \<Rightarrow> trans_relay \<Rightarrow> trans_relay" where
  "SetCustomToolNames names r =
     r\<lparr>tl_chatToResp := (tl_chatToResp r)\<lparr>cr_CustomToolNames := cr_CustomToolNames (tl_chatToResp r) @ names\<rparr>\<rparr>"

section \<open>The usage seam\<close>

definition synthesizeClient :: "trans_env \<Rightarrow> pass_cfg \<Rightarrow> jmap \<Rightarrow> usage" where
  "synthesizeClient env cfg u =
     (if \<not> sy_enabled (pc_synthesis cfg) then Some u
      else SynthesizeThinking (re_num (te_relay env)) (Some u) (pc_format cfg) (sy_ratio (pc_synthesis cfg)))"

definition estimateT :: "trans_env \<Rightarrow> pass_cfg \<Rightarrow> trans_relay \<Rightarrow> usage" where
  "estimateT env cfg r = Estimate (re_num (te_relay env)) (re_encode_raw (te_relay env)) (pc_body cfg) (pg_len (tl_progress r))"

definition applyUsageSeam :: "trans_env \<Rightarrow> pass_cfg \<Rightarrow> jmap \<Rightarrow> trans_relay \<Rightarrow> jmap \<times> usage" where
  "applyUsageSeam env cfg item r =
     (let isFinishChunk = (asStr (mget item ''type'') = ''message_delta'' \<or>
            rTruthy (case firstChoice item of None \<Rightarrow> JNull | Some c \<Rightarrow> mget c ''finish_reason''));
          u = asObj (mget item ''usage'');
          respUsage = asObj (Get (mget item ''response'') ''usage'');
          carriesUsage = (HasValid u \<or> HasValid respUsage);
          tracked = tl_trackedUsage r
      in if isFinishChunk \<and> \<not> carriesUsage \<and> \<not> HasValid tracked \<and> pg_len (tl_progress r) > 0 then
           let estimated = estimateT env cfg r
           in (gm_set ''usage'' (usageJson (buildClientUsage (te_relay env) cfg estimated)) item, estimated)
         else if carriesUsage then
           ((case (u, respUsage) of
               (None, Some ru) \<Rightarrow> gm_set ''response.usage'' (usageJson (synthesizeClient env cfg ru)) item
             | (Some u1, _) \<Rightarrow> gm_set ''usage'' (usageJson (synthesizeClient env cfg u1)) item
             | (None, None) \<Rightarrow> item), tracked)
         else if isFinishChunk \<and> tracked \<noteq> None then
           (gm_set ''usage'' (usageJson (buildClientUsage (te_relay env) cfg (AddBuffer (re_num (te_relay env)) tracked))) item, tracked)
         else (item, tracked))"

definition framedEvent :: "event \<Rightarrow> jmap" where
  "framedEvent e = [(''event'', JStr (ev_Event e)), (''data'', JObj (ev_Data e))]"

definition valuableForFormat :: "jmap \<Rightarrow> format \<Rightarrow> bool" where
  "valuableForFormat item source = (if source = FormatResponses then True else hasValuableContent item)"

section \<open>Lines\<close>

definition convertInput :: "trans_env \<Rightarrow> pass_cfg \<Rightarrow> (nat \<Rightarrow> int) \<Rightarrow> jmap option \<Rightarrow> trans_relay \<Rightarrow> jmap list \<times> trans_relay" where
  "convertInput env cfg ms input r =
     (if pc_format cfg = FormatChat then
        let (out, s) = RespToChat.Convert (te_chunk env) ms input (tl_respToChat r)
        in ((case out of None \<Rightarrow> [] | Some c \<Rightarrow> [c]), r\<lparr>tl_respToChat := s\<rparr>)
      else
        let (evs, s) = ConvertChat (te_chunk env) (ms 0) input (tl_chatToResp r)
        in (map framedEvent evs, r\<lparr>tl_chatToResp := s\<rparr>))"

fun writeItems :: "trans_env \<Rightarrow> pass_cfg \<Rightarrow> jmap list \<Rightarrow> trans_relay \<Rightarrow> string option \<times> trans_relay" where
  "writeItems env cfg [] r = (None, r)"
| "writeItems env cfg (item # items) r =
     (if \<not> valuableForFormat item (pc_format cfg) then writeItems env cfg items r
      else
        let (out, tracked) = applyUsageSeam env cfg item r; r1 = r\<lparr>tl_trackedUsage := tracked\<rparr>
        in case te_fail env (tl_items r1) of
             Some e \<Rightarrow> (Some e, r1)
           | None \<Rightarrow> writeItems env cfg items (r1\<lparr>tl_items := tl_items r1 @ [out]\<rparr>))"

definition noteChunk :: "trans_env \<Rightarrow> jmap \<Rightarrow> trans_relay \<Rightarrow> trans_relay" where
  "noteChunk env parsed r =
     (let r1 = (case firstChoice parsed of
            None \<Rightarrow> r
          | Some choice \<Rightarrow> r\<lparr>tl_progress := accumulate (asObj (mget choice ''delta'')) (tl_progress r)\<rparr>);
          extracted = extractAnyUsage (re_num (te_relay env)) parsed
      in if extracted \<noteq> None then r1\<lparr>tl_trackedUsage := mergeTracked (tl_trackedUsage r1) extracted\<rparr> else r1)"

definition ProcessLineT :: "trans_env \<Rightarrow> pass_cfg \<Rightarrow> (nat \<Rightarrow> int) \<Rightarrow> string \<Rightarrow> trans_relay \<Rightarrow> string option \<times> trans_relay" where
  "ProcessLineT env cfg ms line r =
     (if trimSpace line = [] then (None, r)
      else case fst (parseDataLine (re_codec (te_relay env)) line) of
        None \<Rightarrow> (None, r)
      | Some parsed \<Rightarrow>
          let (items, r1) = convertInput env cfg ms (Some parsed) (noteChunk env parsed r)
          in writeItems env cfg items r1)"

definition ProcessTailT :: "trans_env \<Rightarrow> pass_cfg \<Rightarrow> (nat \<Rightarrow> int) \<Rightarrow> string \<Rightarrow> trans_relay \<Rightarrow> string option \<times> trans_relay" where
  "ProcessTailT env cfg ms line r = ProcessLineT env cfg ms line r"

definition finalizeT :: "trans_env \<Rightarrow> pass_cfg \<Rightarrow> trans_relay \<Rightarrow> trans_relay" where
  "finalizeT env cfg r =
     (if tl_finalized r then r
      else
        let final = (if \<not> HasValid (tl_trackedUsage r) \<and> pg_len (tl_progress r) > 0 then estimateT env cfg r else tl_trackedUsage r)
        in r\<lparr>tl_finalized := True, tl_trackedUsage := final, tl_FinalUsage := final, tl_FinalContent := pg_content (tl_progress r),
             tl_FinalThinking := pg_thinking (tl_progress r)\<rparr>)"

definition FlushT :: "trans_env \<Rightarrow> pass_cfg \<Rightarrow> (nat \<Rightarrow> int) \<Rightarrow> trans_relay \<Rightarrow> string option \<times> trans_relay" where
  "FlushT env cfg ms r =
     (let (items, r1) = convertInput env cfg ms None r in
      case writeItems env cfg items r1 of
        (Some e, r2) \<Rightarrow> (Some e, r2)
      | (None, r2) \<Rightarrow> (None, finalizeT env cfg r2))"

fun runLinesT :: "trans_env \<Rightarrow> pass_cfg \<Rightarrow> ((nat \<Rightarrow> int) \<times> string) list \<Rightarrow> trans_relay \<Rightarrow> string option \<times> trans_relay" where
  "runLinesT env cfg [] r = (None, r)"
| "runLinesT env cfg ((ms, line) # ls) r = (case ProcessLineT env cfg ms line r of
     (Some e, r1) \<Rightarrow> (Some e, r1)
   | (None, r1) \<Rightarrow> runLinesT env cfg ls r1)"

text \<open>The lines of the body, the unterminated rest as one more line, and the flush.\<close>

definition runTranslate :: "trans_env \<Rightarrow> pass_cfg \<Rightarrow> ((nat \<Rightarrow> int) \<times> string) list \<Rightarrow> (nat \<Rightarrow> int) \<times> string \<Rightarrow> (nat \<Rightarrow> int) \<Rightarrow> trans_relay \<Rightarrow> string option \<times> trans_relay" where
  "runTranslate env cfg ls rest ms r = (case runLinesT env cfg ls r of
     (Some e, r1) \<Rightarrow> (Some e, r1)
   | (None, r1) \<Rightarrow> (case ProcessTailT env cfg (fst rest) (snd rest) r1 of
       (Some e, r2) \<Rightarrow> (Some e, r2)
     | (None, r2) \<Rightarrow> FlushT env cfg ms r2))"

section \<open>What is written\<close>

definition parsedLine :: "trans_env \<Rightarrow> string \<Rightarrow> jmap option" where
  "parsedLine env line = (if trimSpace line = [] then None else fst (parseDataLine (re_codec (te_relay env)) line))"

fun parsedChunks :: "trans_env \<Rightarrow> ((nat \<Rightarrow> int) \<times> string) list \<Rightarrow> ((nat \<Rightarrow> int) \<times> jmap) list" where
  "parsedChunks env [] = []"
| "parsedChunks env ((ms, line) # ls) = (case parsedLine env line of None \<Rightarrow> [] | Some p \<Rightarrow> [(ms, p)]) @ parsedChunks env ls"

lemma parsedChunks_append: "parsedChunks env (a @ b) = parsedChunks env a @ parsedChunks env b"
  by (induction a) auto

definition writes_all :: "trans_env \<Rightarrow> bool" where
  "writes_all env \<longleftrightarrow> (\<forall>items. te_fail env items = None)"

lemma runLinesT_tail: "runTranslate env cfg ls rest ms r = (case runLinesT env cfg (ls @ [rest]) r of
     (Some e, r1) \<Rightarrow> (Some e, r1) | (None, r1) \<Rightarrow> FlushT env cfg ms r1)"
proof -
  have "runLinesT env cfg (ls @ [rest]) r = (case runLinesT env cfg ls r of
     (Some e, r1) \<Rightarrow> (Some e, r1) | (None, r1) \<Rightarrow> ProcessTailT env cfg (fst rest) (snd rest) r1)"
  proof (induction ls arbitrary: r)
    case Nil
    show ?case by (cases rest) (simp add: ProcessTailT_def split: prod.split option.split)
  next
    case (Cons p ls)
    then show ?case by (cases p) (simp split: prod.split option.split)
  qed
  then show ?thesis by (simp add: runTranslate_def split: prod.split option.split)
qed

lemma noteChunk_fields [simp]:
  "tl_items (noteChunk env p r) = tl_items r" "tl_respToChat (noteChunk env p r) = tl_respToChat r"
  "tl_chatToResp (noteChunk env p r) = tl_chatToResp r" "tl_finalized (noteChunk env p r) = tl_finalized r"
  by (simp_all add: noteChunk_def Let_def split: option.split)

subsection \<open>To a Responses client\<close>

lemma seam_framed: "applyUsageSeam env cfg (framedEvent e) r = (framedEvent e, tl_trackedUsage r)"
  by (simp add: applyUsageSeam_def framedEvent_def firstChoice_def mget_def Get_def asObj_def asStr_def HasValid_def rTruthy_def Let_def)

lemma same_tracked: "r\<lparr>tl_trackedUsage := tl_trackedUsage r\<rparr> = (r :: trans_relay)"
  by (cases r) simp

lemma write_framed:
  assumes "writes_all env" and "pc_format cfg = FormatResponses"
  shows "writeItems env cfg (map framedEvent evs) r = (None, r\<lparr>tl_items := tl_items r @ map framedEvent evs\<rparr>)"
  using assms by (induction evs arbitrary: r) (simp_all add: valuableForFormat_def seam_framed same_tracked writes_all_def Let_def)

lemma line_responses:
  assumes "writes_all env" and "pc_format cfg = FormatResponses"
  shows "\<exists>r'. ProcessLineT env cfg ms line r = (None, r') \<and> (case parsedLine env line of
     None \<Rightarrow> r' = r
   | Some p \<Rightarrow> tl_items r' = tl_items r @ map framedEvent (fst (ConvertChat (te_chunk env) (ms 0) (Some p) (tl_chatToResp r))) \<and>
       tl_chatToResp r' = snd (ConvertChat (te_chunk env) (ms 0) (Some p) (tl_chatToResp r)) \<and> tl_finalized r' = tl_finalized r)"
  using assms by (auto simp: ProcessLineT_def parsedLine_def convertInput_def FormatChat_def FormatResponses_def write_framed split_beta Let_def
      split: option.split)

lemma lines_responses:
  assumes "writes_all env" and "pc_format cfg = FormatResponses"
  shows "\<exists>r'. runLinesT env cfg ls r = (None, r') \<and>
     (let run = for_each (\<lambda>(ms, c). ConvertChat (te_chunk env) ms (Some c)) (map (\<lambda>(ms, c). (ms 0, c)) (parsedChunks env ls)) (tl_chatToResp r)
      in tl_items r' = tl_items r @ map framedEvent (fst run) \<and> tl_chatToResp r' = snd run \<and> tl_finalized r' = tl_finalized r)"
proof (induction ls arbitrary: r)
  case (Cons p ls)
  obtain ms line where p: "p = (ms, line)" by force
  obtain r1 where r1: "ProcessLineT env cfg ms line r = (None, r1)" and k: "case parsedLine env line of
     None \<Rightarrow> r1 = r
   | Some p \<Rightarrow> tl_items r1 = tl_items r @ map framedEvent (fst (ConvertChat (te_chunk env) (ms 0) (Some p) (tl_chatToResp r))) \<and>
       tl_chatToResp r1 = snd (ConvertChat (te_chunk env) (ms 0) (Some p) (tl_chatToResp r)) \<and> tl_finalized r1 = tl_finalized r"
    using line_responses [OF assms, of ms line r] by blast
  show ?case
  proof (cases "parsedLine env line")
    case None
    then show ?thesis using Cons.IH [of r] r1 k by (simp add: p)
  next
    case (Some q)
    then show ?thesis using Cons.IH [of r1] r1 k by (auto simp: p Let_def then_run)
  qed
qed (simp add: Let_def)

text \<open>
  C28. The relay refines the translator: towards a Responses client, whatever bytes the upstream sends and
  however usage is accounted, the items written are exactly the framed events of the pure translation of
  the chunks that parse, and the relay ends finalized. So the stream on the wire completes exactly once.
\<close>

theorem translated_stream_refines:
  assumes "writes_all env" and "pc_format cfg = FormatResponses"
  shows "case runTranslate env cfg ls rest ms (SetCustomToolNames names (NewTranslateRelay model created rid)) of (e, r) \<Rightarrow>
     e = None \<and> tl_finalized r \<and>
     tl_items r = map framedEvent (fst (toResponses (te_chunk env) ((NewChatToRespState model created rid)\<lparr>cr_CustomToolNames := names\<rparr>)
       (map (\<lambda>(ms, c). (ms 0, c)) (parsedChunks env (ls @ [rest])))))"
proof -
  let ?r = "SetCustomToolNames names (NewTranslateRelay model created rid)"
  have i: "tl_chatToResp ?r = (NewChatToRespState model created rid)\<lparr>cr_CustomToolNames := names\<rparr>" "tl_items ?r = []"
    by (simp_all add: SetCustomToolNames_def NewTranslateRelay_def NewChatToRespState_def)
  obtain r1 where r1: "runLinesT env cfg (ls @ [rest]) ?r = (None, r1)"
    and k: "let run = for_each (\<lambda>(ms, c). ConvertChat (te_chunk env) ms (Some c)) (map (\<lambda>(ms, c). (ms 0, c)) (parsedChunks env (ls @ [rest]))) (tl_chatToResp ?r)
      in tl_items r1 = tl_items ?r @ map framedEvent (fst run) \<and> tl_chatToResp r1 = snd run \<and> tl_finalized r1 = tl_finalized ?r"
    using lines_responses [OF assms, of "ls @ [rest]" ?r] by blast
  have f: "tl_finalized (finalizeT env cfg r)" "tl_items (finalizeT env cfg r) = tl_items r" for r
    by (simp_all add: finalizeT_def Let_def)
  have "FormatResponses \<noteq> FormatChat" by (simp add: FormatResponses_def FormatChat_def)
  then show ?thesis using k
    by (simp add: runLinesT_tail r1 FlushT_def convertInput_def assms(2) write_framed [OF assms] f Let_def split_beta i toResponses_def
        then_run ConvertChat_def)
qed

definition demo_chunk :: jmap where
  "demo_chunk = [(''id'', JStr ''1''), (''choices'', JArr [JObj [(''delta'', JObj [(''content'', JStr ''hi'')]), (''finish_reason'', JStr ''stop'')]])]"

definition demo_trans :: trans_env where
  "demo_trans = \<lparr>te_relay = demo_env\<lparr>re_codec := (re_codec demo_env)\<lparr>co_decode := (\<lambda>s. if s = ''C'' then Some (JObj demo_chunk) else None)\<rparr>\<rparr>,
     te_chunk = demo_chunk_env, te_fail = (\<lambda>_. None)\<rparr>"

theorem translated_stream_refines_witness:
  "map (\<lambda>i. mget i ''event'') (tl_items (snd (runTranslate demo_trans demo_cfg [(\<lambda>_. 1, ''data: C'')] (\<lambda>_. 1, []) (\<lambda>_. 1)
      (SetCustomToolNames [] (NewTranslateRelay ''m'' 1 ''r''))))) =
   map JStr [''response.created'', ''response.in_progress'', ''response.output_item.added'', ''response.content_part.added'',
     ''response.output_text.delta'', ''response.output_text.done'', ''response.content_part.done'', ''response.output_item.done'',
     ''response.completed'']"
proof -
  have h: "writes_all demo_trans" "pc_format demo_cfg = FormatResponses"
    by (simp_all add: writes_all_def demo_trans_def demo_cfg_def)
  have p: "map (\<lambda>(ms, c). (ms 0, c)) (parsedChunks demo_trans ([(\<lambda>_. 1, ''data: C'')] @ [(\<lambda>_. 1, [])])) = [(1, demo_chunk)]"
    by code_simp
  have e: "map ev_Event (fst (toResponses demo_chunk_env ((NewChatToRespState ''m'' 1 ''r'')\<lparr>cr_CustomToolNames := []\<rparr>) [(1, demo_chunk)])) =
     [''response.created'', ''response.in_progress'', ''response.output_item.added'', ''response.content_part.added'',
     ''response.output_text.delta'', ''response.output_text.done'', ''response.content_part.done'', ''response.output_item.done'',
     ''response.completed'']"
    by code_simp
  have t: "te_chunk demo_trans = demo_chunk_env" by (simp add: demo_trans_def)
  have "map (\<lambda>i. mget i ''event'') (map framedEvent evs) = map JStr (map ev_Event evs)" for evs
    by (simp add: framedEvent_def mget_def)
  then show ?thesis
    using translated_stream_refines [OF h, where ls = "[(\<lambda>_. 1, ''data: C'')]" and rest = "(\<lambda>_. 1, [])" and ms = "\<lambda>_. 1"
      and names = "[]" and model = "''m''" and created = 1 and rid = "''r''"] e
    unfolding p t case_prod_beta by (simp only: simp_thms)
qed

subsection \<open>To a chat client\<close>

lemma finish_kept: "k \<noteq> ''choices'' \<Longrightarrow> finish_of (gm_set k v c) = finish_of c"
  by (simp add: finish_of_def firstChoiceOf_def mget_gm_set)

lemma seam_finish: "finish_of (fst (applyUsageSeam env cfg item r)) = finish_of item"
proof -
  have pick: "finish_of (fst a) = f \<Longrightarrow> finish_of (fst b) = f \<Longrightarrow> finish_of (fst (if c then a else b)) = f"
    for a b :: "jmap \<times> usage" and c f by simp
  show ?thesis unfolding applyUsageSeam_def Let_def
    by (intro pick) (simp_all add: finish_kept split: option.split)
qed

lemma finishing_valuable:
  assumes "finish_of c = JStr t" and "t \<noteq> []"
  shows "hasValuableContent c"
proof (cases "firstChoiceOf c")
  case (JObj ch)
  then have f: "mget ch ''finish_reason'' = JStr t" using assms(1) by (simp add: finish_of_def Get_def)
  obtain xs where "mget c ''choices'' = JArr (JObj ch # xs)"
    using JObj by (auto simp: firstChoiceOf_def split: json.splits list.splits)
  then show ?thesis using assms(2) f by (simp add: hasValuableContent_def asArr_def asObj_def rTruthy_def split: option.split)
qed (use assms(1) in \<open>simp_all add: finish_of_def Get_def\<close>)

lemma write_chat:
  assumes "writes_all env" and "pc_format cfg = FormatChat"
    and "list_all (\<lambda>c. finish_of c = JNull \<or> (\<exists>t. finish_of c = JStr t \<and> t \<noteq> [])) items"
  shows "\<exists>r'. writeItems env cfg items r = (None, r') \<and> finishes (tl_items r') = finishes (tl_items r) + finishes items \<and>
     tl_respToChat r' = tl_respToChat r"
  using assms(3)
proof (induction items arbitrary: r)
  case (Cons c items)
  show ?case
  proof (cases "valuableForFormat c (pc_format cfg)")
    case True
    obtain out tr where s: "applyUsageSeam env cfg c r = (out, tr)" by force
    have f: "finish_of out = finish_of c" using seam_finish [of env cfg c r] s by simp
    from Cons.IH [of "r\<lparr>tl_trackedUsage := tr, tl_items := tl_items r @ [out]\<rparr>"] Cons.prems True assms(1) show ?thesis
      by (auto simp: s writes_all_def finishes_def f Let_def)
  next
    case False
    have "FormatChat \<noteq> FormatResponses" by (simp add: FormatChat_def FormatResponses_def)
    then have "finish_of c = JNull" using False Cons.prems finishing_valuable [of c] assms(2) by (auto simp: valuableForFormat_def)
    with Cons.IH [of r] Cons.prems False show ?thesis by (auto simp: finishes_def)
  qed
qed (simp add: finishes_def)

lemma convert_chat_ok:
  assumes "index_ok s" and "RespToChat.Convert E ms (Some c) s = (out, s')"
  shows "list_all (\<lambda>c. finish_of c = JNull \<or> (\<exists>t. finish_of c = JStr t \<and> t \<noteq> [])) (case out of None \<Rightarrow> [] | Some c \<Rightarrow> [c])"
  using convert_ok [OF assms] by (auto simp: call_ok_def split: option.splits if_splits)

lemma line_chat:
  assumes "writes_all env" and "pc_format cfg = FormatChat" and "index_ok (tl_respToChat r)"
  shows "\<exists>r'. ProcessLineT env cfg ms line r = (None, r') \<and> (case parsedLine env line of
     None \<Rightarrow> r' = r
   | Some p \<Rightarrow> (case RespToChat.Convert (te_chunk env) ms (Some p) (tl_respToChat r) of (out, s) \<Rightarrow>
       tl_respToChat r' = s \<and> finishes (tl_items r') = finishes (tl_items r) + finishes (case out of None \<Rightarrow> [] | Some c \<Rightarrow> [c])))"
proof (cases "parsedLine env line")
  case None
  then show ?thesis by (auto simp: ProcessLineT_def parsedLine_def split: if_splits)
next
  case (Some p)
  obtain out s where c: "RespToChat.Convert (te_chunk env) ms (Some p) (tl_respToChat r) = (out, s)" by force
  have l: "list_all (\<lambda>c. finish_of c = JNull \<or> (\<exists>t. finish_of c = JStr t \<and> t \<noteq> [])) (case out of None \<Rightarrow> [] | Some c \<Rightarrow> [c])"
    by (rule convert_chat_ok [OF assms(3) c])
  from write_chat [OF assms(1,2) l, of "(noteChunk env p r)\<lparr>tl_respToChat := s\<rparr>"] Some c show ?thesis
    by (auto simp: ProcessLineT_def parsedLine_def convertInput_def assms(2) Let_def split: if_splits)
qed

lemma lines_chat:
  assumes "writes_all env" and "pc_format cfg = FormatChat"
  shows "index_ok (tl_respToChat r) \<Longrightarrow> \<exists>r'. runLinesT env cfg ls r = (None, r') \<and>
     (case convertAll (te_chunk env) (parsedChunks env ls) (tl_respToChat r) of (os, s) \<Rightarrow>
       tl_respToChat r' = s \<and> finishes (tl_items r') = finishes (tl_items r) + finishes os)"
proof (induction ls arbitrary: r)
  case (Cons p ls)
  obtain ms line where p: "p = (ms, line)" by force
  obtain r1 where r1: "ProcessLineT env cfg ms line r = (None, r1)" and k: "case parsedLine env line of
     None \<Rightarrow> r1 = r
   | Some p \<Rightarrow> (case RespToChat.Convert (te_chunk env) ms (Some p) (tl_respToChat r) of (out, s) \<Rightarrow>
       tl_respToChat r1 = s \<and> finishes (tl_items r1) = finishes (tl_items r) + finishes (case out of None \<Rightarrow> [] | Some c \<Rightarrow> [c]))"
    using line_chat [OF assms Cons.prems, of ms line] by blast
  show ?case
  proof (cases "parsedLine env line")
    case None
    then show ?thesis using Cons.IH [of r] Cons.prems r1 k by (simp add: p)
  next
    case (Some q)
    obtain out s where c: "RespToChat.Convert (te_chunk env) ms (Some q) (tl_respToChat r) = (out, s)" by force
    have s: "tl_respToChat r1 = s" "finishes (tl_items r1) = finishes (tl_items r) + finishes (case out of None \<Rightarrow> [] | Some c \<Rightarrow> [c])"
      using k Some c by auto
    have "index_ok s" using convert_ok [OF Cons.prems c] by (simp add: call_ok_def)
    then show ?thesis using Cons.IH [of r1] s r1 Some c
      by (auto simp: p split_beta finishes_def split: option.splits)
  qed
qed (simp add: finishes_def)

text \<open>
  Towards a chat client the relay finishes exactly once: whatever a Responses upstream sends, one of the
  items written carries a finish reason when any line parsed, none otherwise; the content filter never drops it.
\<close>

theorem translated_chat_finishes_once:
  assumes "writes_all env" and "pc_format cfg = FormatChat"
  shows "case runTranslate env cfg ls rest ms (NewTranslateRelay model created rid) of (e, r) \<Rightarrow>
     e = None \<and> tl_finalized r \<and> finishes (tl_items r) = (if parsedChunks env (ls @ [rest]) = [] then 0 else 1)"
proof -
  let ?r = "NewTranslateRelay model created rid" and ?cs = "parsedChunks env (ls @ [rest])"
  have i: "tl_respToChat ?r = NewRespToChatState model" "tl_items ?r = []" by (simp_all add: NewTranslateRelay_def)
  obtain os s where c: "convertAll (te_chunk env) ?cs (NewRespToChatState model) = (os, s)" by force
  obtain r1 where r1: "runLinesT env cfg (ls @ [rest]) ?r = (None, r1)" "tl_respToChat r1 = s" "finishes (tl_items r1) = finishes os"
    using lines_chat [OF assms, of ?r "ls @ [rest]"] new_ok [of model] by (auto simp: i c finishes_def)
  have k: "index_ok s" "rc_Started s \<longleftrightarrow> ?cs \<noteq> []" "finishes os = of_bool (rc_FinishReasonSent s)"
    using convertAll_ok [OF new_ok c] by (auto simp: NewRespToChatState_def)
  obtain out s2 where fin: "RespToChat.Convert (te_chunk env) ms None s = (out, s2)" by force
  have once: "finishes (os @ (case out of None \<Rightarrow> [] | Some c \<Rightarrow> [c])) = (if ?cs = [] then 0 else 1)"
    using chat_once [where E = "te_chunk env" and model = model and cs = ?cs and ms = ms] by (simp add: toChat_def c fin)
  have l: "list_all (\<lambda>c. finish_of c = JNull \<or> (\<exists>t. finish_of c = JStr t \<and> t \<noteq> [])) (case out of None \<Rightarrow> [] | Some c \<Rightarrow> [c])"
    using fin finish_value [of s] by (auto simp: RespToChat.Convert_def finalChunk_def Let_def split: if_splits option.splits)
  obtain r2 where r2: "writeItems env cfg (case out of None \<Rightarrow> [] | Some c \<Rightarrow> [c]) (r1\<lparr>tl_respToChat := s2\<rparr>) = (None, r2)"
      "finishes (tl_items r2) = finishes (tl_items r1) + finishes (case out of None \<Rightarrow> [] | Some c \<Rightarrow> [c])"
    using write_chat [OF assms l, of "r1\<lparr>tl_respToChat := s2\<rparr>"] by auto
  have f: "tl_finalized (finalizeT env cfg r)" "tl_items (finalizeT env cfg r) = tl_items r" for r
    by (simp_all add: finalizeT_def Let_def)
  show ?thesis using once r1 r2
    by (simp add: runLinesT_tail FlushT_def convertInput_def assms(2) fin Let_def f finishes_def)
qed

theorem translated_chat_finishes_once_witness:
  "finishes (tl_items (snd (runTranslate demo_trans (demo_cfg\<lparr>pc_format := FormatChat\<rparr>) [(\<lambda>_. 1, ''data: C'')] (\<lambda>_. 1, []) (\<lambda>_. 1)
     (NewTranslateRelay ''m'' 1 ''r'')))) = 1"
proof -
  have h: "writes_all demo_trans" "pc_format (demo_cfg\<lparr>pc_format := FormatChat\<rparr>) = FormatChat"
    by (simp_all add: writes_all_def demo_trans_def)
  have p: "parsedChunks demo_trans ([(\<lambda>_. 1, ''data: C'')] @ [(\<lambda>_. 1, [])]) \<noteq> []"
    by (simp add: parsedChunks_append) code_simp
  show ?thesis
    using translated_chat_finishes_once [OF h, where ls = "[(\<lambda>_. 1, ''data: C'')]" and rest = "(\<lambda>_. 1, [])" and ms = "\<lambda>_. 1"
      and model = "''m''" and created = 1 and rid = "''r''"] p
    by (auto simp only: case_prod_beta if_False)
qed

section \<open>Where the translation is not a clean stream\<close>

definition chatChunk :: "jmap \<Rightarrow> json \<Rightarrow> jmap" where
  "chatChunk delta finish = [(''choices'', JArr [JObj [(''delta'', JObj delta), (''finish_reason'', finish)]])]"

definition demo_sigs :: "jmap list \<Rightarrow> esig list" where
  "demo_sigs cs = map (sig demo_chunk_env) (fst (toResponses demo_chunk_env (NewChatToRespState ''m'' 1 ''r'') (map (Pair 1) cs)))"

text \<open>A chunk after the finishing one still produces events, after the completed event, and its item is never closed.\<close>

lemma text_after_completed:
  "demo_sigs [chatChunk [] (JStr ''stop''), chatChunk [(''content'', JStr ''x'')] JNull] =
     [SCreated, SOther, SCompleted, SMsgAdded ''msg_r_0'', SOther, SText ''msg_r_0'' ''x'']"
  by code_simp

text \<open>A message closed by a tool call is streamed to again, and the text streamed then is in no close.\<close>

lemma text_after_close:
  "demo_sigs [chatChunk [(''content'', JStr ''a''), (''tool_calls'', JArr [JObj []])] JNull, chatChunk [(''content'', JStr ''b'')] (JStr ''stop'')] =
     [SCreated, SOther, SMsgAdded ''msg_r_0'', SOther, SText ''msg_r_0'' ''a'', STextDone ''msg_r_0'' ''a'', SOther, SMsgDone ''msg_r_0'',
      SText ''msg_r_0'' ''b'', SCompleted]"
  by code_simp

text \<open>A closing tag that nothing opened: a reasoning delta of an item that was never announced.\<close>

lemma stray_reasoning:
  "demo_sigs [chatChunk [(''content'', JStr ''a</think>b'')] (JStr ''stop'')] =
     [SCreated, SOther, SReasonText ''a'', SMsgAdded ''msg_r_0'', SOther, SText ''msg_r_0'' ''b'', STextDone ''msg_r_0'' ''b'', SOther,
      SMsgDone ''msg_r_0'', SCompleted]"
  by code_simp

text \<open>A call that never got a name is closed without having been announced.\<close>

lemma call_closed_unannounced:
  "demo_sigs [chatChunk [(''tool_calls'', JArr [JObj [(''id'', JStr ''c'')]])] (JStr ''tool_calls'')] =
     [SCreated, SOther, SOther, SCallDone 0, SCompleted]"
  by code_simp

end
