(* ===== verification/ToolDedupe.thy ===== *)
theory ToolDedupe
  imports Cloak
begin

text \<open>
  The small request helpers of the router: the de-duplication of a Claude client's tools
  (\<^verbatim>\<open>internal/router/tooldedupe.go\<close>), the context marker of a model name (\<^verbatim>\<open>modelmarker.go\<close>) and the caller's
  correlation identifier (\<^verbatim>\<open>caller_id.go\<close>). Headers are read by a function that gives the empty text for an
  absent one (\<^verbatim>\<open>Header.Get\<close>); \<open>lower\<close> is \<^verbatim>\<open>strings.ToLower\<close>.
\<close>

section \<open>The rules\<close>

datatype dedup_matcher = Lit string | Rx regex

definition dm_matches :: "dedup_matcher \<Rightarrow> string \<Rightarrow> bool" where
  "dm_matches m name = (case m of Lit s \<Rightarrow> name = s | Rx re \<Rightarrow> rx_match re name \<noteq> None)"

record dedup_rule =
  dr_triggers :: "dedup_matcher list"
  dr_strip :: "dedup_matcher list"

definition builtinWebTools :: "dedup_matcher list" where
  "builtinWebTools = [Lit ''WebSearch'', Lit ''WebFetch'', Lit ''mcp__workspace__web_fetch'']"

definition dedupRules :: "dedup_rule list" where
  "dedupRules =
     [\<lparr>dr_triggers = [Lit ''mcp__exa__web_search_exa'', Lit ''mcp__exa__web_fetch_exa''], dr_strip = builtinWebTools\<rparr>,
      \<lparr>dr_triggers = [Lit ''mcp__tavily__tavily_search'', Lit ''mcp__tavily__tavily_extract''], dr_strip = builtinWebTools\<rparr>,
      \<lparr>dr_triggers = [Rx (rx_lit ''mcp__browsermcp__'')], dr_strip = [Rx (rx_lit ''mcp__Claude_in_Chrome__'')]\<rparr>]"

definition dedupeToolName :: "json \<Rightarrow> string" where
  "dedupeToolName tool = (case tool of
     JObj o1 \<Rightarrow> if asStr (mget o1 ''name'') \<noteq> [] then asStr (mget o1 ''name'') else asStr (Get (mget o1 ''function'') ''name'')
   | _ \<Rightarrow> [])"

definition triggered :: "dedup_rule \<Rightarrow> string list \<Rightarrow> bool" where
  "triggered rule names = list_ex (\<lambda>n. list_ex (\<lambda>t. dm_matches t n) (dr_triggers rule)) names"

definition strips :: "dedup_rule \<Rightarrow> string \<Rightarrow> bool" where
  "strips rule n = list_ex (\<lambda>p. dm_matches p n) (dr_strip rule)"

text \<open>The names a rule adds to those stripped already.\<close>

definition stripName :: "dedup_rule \<Rightarrow> string \<Rightarrow> string list \<Rightarrow> string list" where
  "stripName rule n stripped = (if n \<in> set stripped then stripped else if strips rule n then stripped @ [n] else stripped)"

definition applyRule :: "string list \<Rightarrow> dedup_rule \<Rightarrow> string list \<Rightarrow> string list" where
  "applyRule names rule stripped = (if triggered rule names then fold (stripName rule) names stripped else stripped)"

definition dedupeTools :: "json list \<Rightarrow> json list \<times> string list" where
  "dedupeTools tools =
     (if tools = [] then (tools, [])
      else
        let names = map dedupeToolName tools; stripped = fold (applyRule names) dedupRules [] in
        if stripped = [] then (tools, [])
        else (filter (\<lambda>t. dedupeToolName t \<notin> set stripped) tools, stripped))"

definition isClaudeClientTool :: "(string \<Rightarrow> string) \<Rightarrow> (string \<Rightarrow> string) \<Rightarrow> bool" where
  "isClaudeClientTool lower header =
     (let ua = lower (header ''User-Agent'') in
      contains ua ''claude-cli'' \<or> contains ua ''claude-code'' \<or> lower (header ''X-App'') = ''cli'')"

section \<open>The context marker and the caller identifier\<close>

definition contextMarkerRe :: regex where
  "contextMarkerRe = rx_lit [CHR 0x5B] @ rx_lit ''1'' @ rx_fold ''m'' @ rx_lit [CHR 0x5D] @ [PEnd]"

definition stripModelContextMarker :: "string \<Rightarrow> string \<times> bool" where
  "stripModelContextMarker model = (case rx_before contextMarkerRe (trimSpace model) of
     None \<Rightarrow> (model, False)
   | Some p \<Rightarrow> (p, True))"

definition callerIDChar :: "char \<Rightarrow> bool" where
  "callerIDChar c \<longleftrightarrow> is_alnum c \<or> c \<in> set ''._:-''"

definition callerRequestIDRe :: "string \<Rightarrow> bool" where
  "callerRequestIDRe s \<longleftrightarrow> 1 \<le> length s \<and> length s \<le> 128 \<and> list_all callerIDChar s"

definition callerRequestID :: "(string \<Rightarrow> string) \<Rightarrow> string" where
  "callerRequestID header =
     (let v = header ''X-Request-Id'' in if \<not> callerRequestIDRe v then [] else v)"

section \<open>What de-duplication does\<close>

lemma stripName_fold: "set (fold (stripName rule) names acc) = set acc \<union> {n \<in> set names. strips rule n}"
  by (induction names arbitrary: acc) (auto simp: stripName_def)

lemma applyRule_set: "set (applyRule names rule acc) = set acc \<union> {n \<in> set names. triggered rule names \<and> strips rule n}"
  by (auto simp: applyRule_def stripName_fold)

lemma rules_set: "set (fold (applyRule names) rules acc) = set acc \<union> {n \<in> set names. \<exists>rule\<in>set rules. triggered rule names \<and> strips rule n}"
  by (induction rules arbitrary: acc) (auto simp: applyRule_set)

definition duplicated :: "json list \<Rightarrow> json \<Rightarrow> bool" where
  "duplicated tools t = list_ex (\<lambda>rule. triggered rule (map dedupeToolName tools) \<and> strips rule (dedupeToolName t)) dedupRules"

lemma dedupe_filter: "fst (dedupeTools tools) = filter (\<lambda>t. \<not> duplicated tools t) tools"
proof -
  let ?names = "map dedupeToolName tools"
  have s: "set (fold (applyRule ?names) dedupRules []) = {n \<in> set ?names. \<exists>rule\<in>set dedupRules. triggered rule ?names \<and> strips rule n}"
    by (simp add: rules_set)
  have f: "filter (\<lambda>t. dedupeToolName t \<notin> set (fold (applyRule ?names) dedupRules [])) tools = filter (\<lambda>t. \<not> duplicated tools t) tools"
    unfolding s by (rule filter_cong) (auto simp: duplicated_def list_ex_iff)
  show ?thesis
  proof (cases "fold (applyRule ?names) dedupRules [] = []")
    case True
    then show ?thesis using f by (simp add: dedupeTools_def Let_def)
  next
    case False
    then have "tools \<noteq> []" using s by auto
    then show ?thesis using False f by (simp add: dedupeTools_def Let_def)
  qed
qed

lemma triggered_mono: "set names \<subseteq> set names' \<Longrightarrow> triggered rule names \<Longrightarrow> triggered rule names'"
  by (auto simp: triggered_def list_ex_iff)

lemma duplicated_mono: "set tools \<subseteq> set tools' \<Longrightarrow> duplicated tools t \<Longrightarrow> duplicated tools' t"
  using triggered_mono [of "map dedupeToolName tools" "map dedupeToolName tools'"]
  by (auto simp: duplicated_def list_ex_iff image_mono)

lemma dedupe_names: "set (snd (dedupeTools tools)) = dedupeToolName ` {t \<in> set tools. duplicated tools t}"
proof -
  have e: "fold (applyRule []) rules [] = []" for rules by (induction rules) (simp_all add: applyRule_def)
  have "snd (dedupeTools tools) = fold (applyRule (map dedupeToolName tools)) dedupRules []"
    by (cases "tools = []") (simp_all add: dedupeTools_def Let_def e)
  then have "set (snd (dedupeTools tools)) = set (fold (applyRule (map dedupeToolName tools)) dedupRules [])" by simp
  also have "\<dots> = dedupeToolName ` {t \<in> set tools. duplicated tools t}"
    unfolding rules_set by (auto simp: duplicated_def list_ex_iff)
  finally show ?thesis .
qed

text \<open>
  De-duplication removes exactly the tools that some rule strips while one of its triggers is among the tools, keeps
  the others in order, and a second pass finds nothing to strip.
\<close>

theorem dedupe_exact:
  "fst (dedupeTools tools) = filter (\<lambda>t. \<not> duplicated tools t) tools \<and>
   dedupeTools (fst (dedupeTools tools)) = (fst (dedupeTools tools), [])"
proof -
  let ?out = "filter (\<lambda>t. \<not> duplicated tools t) tools"
  have none: "\<not> duplicated ?out t" if "t \<in> set ?out" for t using duplicated_mono [of ?out tools t] that by auto
  then have "{t \<in> set ?out. duplicated ?out t} = {}" by blast
  then have "snd (dedupeTools ?out) = []" using dedupe_names [of ?out] by (simp only: image_empty set_empty)
  moreover have "fst (dedupeTools ?out) = ?out" unfolding dedupe_filter by (rule filter_True) (use none in blast)
  ultimately have "dedupeTools ?out = (?out, [])" by (simp only: prod_eq_iff fst_conv snd_conv simp_thms)
  then show ?thesis unfolding dedupe_filter by blast
qed

end
