(* ===== verification/Bypass.thy ===== *)
theory Bypass
  imports Client ChatToResp Sse ToolDedupe
begin

text \<open>
  The replies the router writes itself (\<^verbatim>\<open>writeError\<close>, \<^verbatim>\<open>corsHeaders\<close> of \<^verbatim>\<open>internal/router/handler.go\<close>,
  \<^verbatim>\<open>writeJSON\<close> of \<^verbatim>\<open>forced.go\<close>), and the requests it answers without an upstream: the bypass of a command-line
  client's housekeeping (\<^verbatim>\<open>bypass.go\<close>) and the connection test (\<^verbatim>\<open>testconnection.go\<close>). The header map of a request
  is a list of names and values; the clock is read as milliseconds and seconds.
\<close>

section \<open>Replies\<close>

record http_reply =
  hr_status :: int
  hr_headers :: "(string, string) gomap"
  hr_body :: string

definition corsHeaders :: "bool \<Rightarrow> (string, string) gomap \<Rightarrow> (string, string) gomap" where
  "corsHeaders sse h =
     (let h1 = gm_set ''Access-Control-Allow-Headers'' ''*'' (gm_set ''Access-Control-Allow-Methods'' ''POST, GET, OPTIONS''
            (gm_set ''Access-Control-Allow-Origin'' ''*'' h))
      in if sse then gm_set ''Connection'' ''keep-alive'' (gm_set ''Cache-Control'' ''no-cache'' (gm_set ''Content-Type'' ''text/event-stream'' h1))
         else h1)"

definition jsonHeaders :: "(string, string) gomap" where
  "jsonHeaders = corsHeaders False [(''Content-Type'', ''application/json'')]"

definition marshalBody :: "codec \<Rightarrow> json \<Rightarrow> string" where
  "marshalBody co v = (case co_encode co v of None \<Rightarrow> [] | Some b \<Rightarrow> b)"

definition writeJSON :: "codec \<Rightarrow> int \<Rightarrow> jmap \<Rightarrow> http_reply" where
  "writeJSON co status body = \<lparr>hr_status = status, hr_headers = jsonHeaders, hr_body = marshalBody co (JObj body)\<rparr>"

definition writeError :: "codec \<Rightarrow> int \<Rightarrow> string \<Rightarrow> http_reply" where
  "writeError co status message = \<lparr>hr_status = status, hr_headers = jsonHeaders, hr_body = marshalBody co (BuildErrorBody status message)\<rparr>"

definition HandleOptions :: http_reply where
  "HandleOptions = \<lparr>hr_status = 204, hr_headers = corsHeaders False [], hr_body = []\<rparr>"

section \<open>The bypass\<close>

definition defaultBypassText :: string where
  "defaultBypassText = ''CLI Command Execution: Clear Terminal''"

definition skipPatterns :: "string list" where
  "skipPatterns = [''Please write a 5-10 word title for the following conversation:'']"

definition bypassTextContent :: "json \<Rightarrow> string" where
  "bypassTextContent content = (case content of
     JStr c \<Rightarrow> c
   | JArr c \<Rightarrow> joinWith '' '' (List.map_filter (\<lambda>raw. case raw of
         JObj block \<Rightarrow> if asStr (mget block ''type'') \<noteq> ''text'' then None else Some (asStr (mget block ''text''))
       | _ \<Rightarrow> None) c)
   | _ \<Rightarrow> [])"

definition titleExtraction :: "json list \<Rightarrow> bool" where
  "titleExtraction messages = (case last messages of
     JObj lastMsg \<Rightarrow> asStr (mget lastMsg ''role'') = ''assistant'' \<and> (case mget lastMsg ''content'' of
         JArr (JObj first # _) \<Rightarrow> asStr (mget first ''text'') = [CHR 0x7B]
       | _ \<Rightarrow> False)
   | _ \<Rightarrow> False)"

definition warmup :: "json list \<Rightarrow> bool" where
  "warmup messages = (case hd messages of JObj first \<Rightarrow> bypassTextContent (mget first ''content'') = ''Warmup'' | _ \<Rightarrow> False)"

definition countProbe :: "json list \<Rightarrow> bool" where
  "countProbe messages \<longleftrightarrow> length messages = 1 \<and> (case hd messages of
     JObj first \<Rightarrow> asStr (mget first ''role'') = ''user'' \<and> bypassTextContent (mget first ''content'') = ''count''
   | _ \<Rightarrow> False)"

definition userTexts :: "json list \<Rightarrow> string list" where
  "userTexts messages = List.map_filter (\<lambda>raw. case raw of
     JObj m \<Rightarrow> if asStr (mget m ''role'') \<noteq> ''user'' then None else Some (bypassTextContent (mget m ''content''))
   | _ \<Rightarrow> None) messages"

definition skipRequest :: "json list \<Rightarrow> bool" where
  "skipRequest messages = list_ex (contains (joinWith '' '' (userTexts messages))) skipPatterns"

definition shouldBypass :: "jmap \<Rightarrow> string \<Rightarrow> bool" where
  "shouldBypass body userAgent =
     (if \<not> contains userAgent ''claude-cli'' then False
      else case mget body ''messages'' of
        JArr messages \<Rightarrow> messages \<noteq> [] \<and>
          (titleExtraction messages \<or> warmup messages \<or> countProbe messages \<or> skipRequest messages)
      | _ \<Rightarrow> False)"

definition openaiBypassResponse :: "string \<Rightarrow> int \<Rightarrow> string \<Rightarrow> string \<Rightarrow> jmap" where
  "openaiBypassResponse i created model t =
     [(''id'', JStr i), (''object'', JStr ''chat.completion''), (''created'', jint created), (''model'', JStr model),
      (''choices'', JArr [JObj [(''index'', jint 0), (''message'', JObj [(''role'', JStr ''assistant''), (''content'', JStr t)]),
         (''finish_reason'', JStr ''stop'')]]),
      (''usage'', JObj [(''prompt_tokens'', jint 1), (''completion_tokens'', jint 1), (''total_tokens'', jint 2)])]"

definition openaiBypassChunks :: "string \<Rightarrow> int \<Rightarrow> string \<Rightarrow> string \<Rightarrow> jmap list" where
  "openaiBypassChunks i created model t =
     [[(''id'', JStr i), (''object'', JStr ''chat.completion.chunk''), (''created'', jint created), (''model'', JStr model),
       (''choices'', JArr [JObj [(''index'', jint 0), (''delta'', JObj [(''role'', JStr ''assistant''), (''content'', JStr t)]),
          (''finish_reason'', JNull)]])],
      [(''id'', JStr i), (''object'', JStr ''chat.completion.chunk''), (''created'', jint created), (''model'', JStr model),
       (''choices'', JArr [JObj [(''index'', jint 0), (''delta'', JObj []), (''finish_reason'', JStr ''stop'')]]),
       (''usage'', JObj [(''prompt_tokens'', jint 1), (''completion_tokens'', jint 1), (''total_tokens'', jint 2)])]]"

definition sseReply :: "string \<Rightarrow> http_reply" where
  "sseReply out = \<lparr>hr_status = 200, hr_headers = corsHeaders True [], hr_body = out\<rparr>"

definition writeBypassStream :: "codec \<Rightarrow> jmap list \<Rightarrow> http_reply" where
  "writeBypassStream co chunks =
     sseReply (concat (map (\<lambda>c. ''data: '' @ marshalBody co (JObj c) @ newline @ newline) chunks) @ doneFrame)"

definition bypassEvents :: "chunk_env \<Rightarrow> int \<Rightarrow> string \<Rightarrow> int \<Rightarrow> string \<Rightarrow> string \<Rightarrow> event list" where
  "bypassEvents E ms i created model t =
     fst (toResponses E (NewChatToRespState model created []) (map (\<lambda>c. (ms, c)) (openaiBypassChunks i created model t)))"

definition writeBypassResponse :: "chunk_env \<Rightarrow> int \<Rightarrow> format \<Rightarrow> string \<Rightarrow> string \<Rightarrow> bool \<Rightarrow> http_reply" where
  "writeBypassResponse E ms sourceFormat model t stream =
     (let co = ce_codec E; i = ''chatcmpl-'' @ itoa ms; created = ms div 1000 in
      if sourceFormat \<noteq> FormatResponses then
        (if stream then writeBypassStream co (openaiBypassChunks i created model t)
         else writeJSON co 200 (openaiBypassResponse i created model t))
      else
        let events = bypassEvents E ms i created model t in
        if stream then sseReply (concat (map (\<lambda>ev. FormatEvent co (ev_Event ev) (ev_Data ev)) events) @ doneFrame)
        else if events = [] then writeJSON co 200 (openaiBypassResponse i created ''unknown'' t)
        else writeJSON co 200 (ev_Data (last events)))"

definition handleBypassRequest :: "chunk_env \<Rightarrow> int \<Rightarrow> jmap \<Rightarrow> string \<Rightarrow> string \<Rightarrow> format \<Rightarrow> http_reply option" where
  "handleBypassRequest E ms body model userAgent sourceFormat =
     (if \<not> shouldBypass body userAgent then None
      else Some (writeBypassResponse E ms sourceFormat model defaultBypassText
        (case mget body ''stream'' of JBool b \<Rightarrow> b | _ \<Rightarrow> True)))"

section \<open>The connection test\<close>

definition isTestConnectionRequest :: "(string, string list) gomap \<Rightarrow> bool" where
  "isTestConnectionRequest headers \<longleftrightarrow> gm_get headers ''X-Test-Connection'' \<noteq> None"

definition createTestConnectionResponse :: "codec \<Rightarrow> string \<Rightarrow> int \<Rightarrow> string \<Rightarrow> http_reply" where
  "createTestConnectionResponse co hex32 now model = writeJSON co 200
     [(''id'', JStr (''router-'' @ hex32)), (''object'', JStr ''chat.completion''), (''created'', jint now), (''model'', JStr model),
      (''choices'', JArr [JObj [(''index'', jint 0), (''message'', JObj [(''role'', JStr ''assistant''), (''content'', JStr ''Hello!'')]),
         (''finish_reason'', JStr ''stop'')]]),
      (''usage'', JObj [(''prompt_tokens'', jint 18), (''completion_tokens'', jint 1), (''total_tokens'', jint 19),
         (''prompt_tokens_details'', JObj [(''cached_tokens'', jint 0)])])]"

end
