(* ===== verification/StreamDrive.thy ===== *)
theory StreamDrive
  imports TranslateRelay LineScan Bypass Provenance
begin

text \<open>
  The streaming half of the router (\<^verbatim>\<open>internal/router/stream.go\<close>): the guard for bodies that are no event stream, the
  relay driven by the line scanner, and what the client gets when the stream breaks. The scanner
  (\<open>LineScan\<close>) appears by its outcome: the lines it handed over, then either the end of the stream with an
  unterminated rest or a failure.
\<close>

section \<open>The guard\<close>

definition htmlTitleRe :: regex where
  "htmlTitleRe = rx_fold ''<title>'' @ [POpen, PPlus (\<lambda>c. c \<noteq> CHR ''<''), PClose] @ rx_fold ''</title>''"

text \<open>\<^verbatim>\<open><[^>]*>\<close> removed everywhere.\<close>

function stripTags :: "string \<Rightarrow> string" where
  "stripTags s = (case s of
     [] \<Rightarrow> []
   | c # cs \<Rightarrow>
       if c = CHR ''<'' \<and> CHR ''>'' \<in> set cs then stripTags (tl (dropWhile (\<lambda>d. d \<noteq> CHR ''>'') cs))
       else c # stripTags cs)"
  by pat_completeness auto
termination
  by (relation "measure length") (auto simp: less_Suc_eq_le intro: le_trans [OF diff_le_self] length_dropWhile_le)

declare stripTags.simps [simp del]

text \<open>\<^verbatim>\<open>strings.Fields\<close>: the maximal runs without white space.\<close>

function fieldsAcc :: "string \<Rightarrow> string \<Rightarrow> string list" where
  "fieldsAcc acc s = (case s of
     [] \<Rightarrow> if acc = [] then [] else [acc]
   | c # cs \<Rightarrow> (case stripEnc space_encodings s of
       Some rest \<Rightarrow> if acc = [] then fieldsAcc [] rest else acc # fieldsAcc [] rest
     | None \<Rightarrow> fieldsAcc (acc @ [c]) cs))"
  by pat_completeness auto
termination
  by (relation "measure (\<lambda>(acc, s). length s)") (auto dest: stripEnc_shorter)

declare fieldsAcc.simps [simp del]

definition collapse :: "string \<Rightarrow> string" where
  "collapse s = joinWith '' '' (fieldsAcc [] s)"

definition clamp160 :: "string \<Rightarrow> string" where
  "clamp160 s = (if length s > 160 then take 160 s else s)"

definition shortHTMLMessage :: "string \<Rightarrow> string \<Rightarrow> string" where
  "shortHTMLMessage bodyText ct =
     (let sanitized = (case rx_search htmlTitleRe bodyText of Some (t # _, _) \<Rightarrow> collapse (stripTags t) | _ \<Rightarrow> []);
          clean = collapse (stripTags bodyText)
      in if sanitized \<noteq> [] then clamp160 sanitized
         else if clean \<noteq> [] \<and> length bodyText < 200 then clamp160 clean
         else ''Upstream returned non-SSE response ('' @ ct @ '')'')"

definition writeBareStreamError :: "codec \<Rightarrow> int \<Rightarrow> string \<Rightarrow> http_reply" where
  "writeBareStreamError co status message = \<lparr>hr_status = status, hr_headers = jsonHeaders,
     hr_body = marshalBody co (JObj [(''error'', JObj [(''message'', JStr message)])])\<rparr>"

definition nonSSEBody :: "string \<Rightarrow> bool" where
  "nonSSEBody ct \<longleftrightarrow> ct \<noteq> [] \<and> \<not> contains ct ''text/event-stream'' \<and> \<not> contains ct ''application/json''"

section \<open>The drive\<close>

text \<open>A line comes with the clock readings of its processing, \<open>'l\<close> is a line with them.\<close>

datatype 'l scan_end = Finished "'l option" | Failed scan_result

fun feedLines :: "('l \<Rightarrow> 'r \<Rightarrow> string option \<times> 'r) \<Rightarrow> 'l list \<Rightarrow> 'r \<Rightarrow> string option \<times> 'r" where
  "feedLines proc [] r = (None, r)"
| "feedLines proc (l # ls) r = (case proc l r of (Some e, r1) \<Rightarrow> (Some e, r1) | (None, r1) \<Rightarrow> feedLines proc ls r1)"

definition driveRelay ::
  "('l \<Rightarrow> 'r \<Rightarrow> string option \<times> 'r) \<Rightarrow> ('l \<Rightarrow> 'r \<Rightarrow> string option \<times> 'r) \<Rightarrow> 'l list \<Rightarrow> 'l scan_end \<Rightarrow> 'r \<Rightarrow> scan_result option \<times> 'r" where
  "driveRelay proc tailp ls ending r = (case feedLines proc ls r of
     (Some e, r1) \<Rightarrow> (Some (ScanFn e), r1)
   | (None, r1) \<Rightarrow> (case ending of
       Failed res \<Rightarrow> (Some res, r1)
     | Finished None \<Rightarrow> (None, r1)
     | Finished (Some t) \<Rightarrow> (case tailp t r1 of (Some e, r2) \<Rightarrow> (Some (ScanFn e), r2) | (None, r2) \<Rightarrow> (None, r2))))"

definition streamAbortReason :: "bool \<Rightarrow> (scan_result \<Rightarrow> bool) \<Rightarrow> scan_result \<Rightarrow> origin \<Rightarrow> origin \<times> string" where
  "streamAbortReason ctxDead isCanceled err delivered =
     (if ctxDead \<or> isCanceled err then (OriginClient, ''client_disconnect'')
      else if err = ScanStall then (delivered, ''stall'')
      else (delivered, ''read_error''))"

text \<open>What the client reads after the header, and the abort row of the evidence.\<close>

record stream_out =
  so_text :: string
  so_abort :: "(origin \<times> string) option"

record stream_env =
  se_ctxDead :: bool
  se_isCanceled :: "scan_result \<Rightarrow> bool"
  se_delivered :: origin

definition frames_text :: "frame list \<Rightarrow> string" where
  "frames_text fs = concat (map frame_text fs)"

definition items_text :: "codec \<Rightarrow> jmap list \<Rightarrow> string" where
  "items_text co items = concat (map (FormatData co) items)"

text \<open>After an abort a client of the Responses format gets a failure event and the sentinel past the relay, if it still reads.\<close>

definition writeIgnoring :: "relay_env \<Rightarrow> frame \<Rightarrow> frame list \<Rightarrow> frame list" where
  "writeIgnoring env f fs = (if re_fail env fs = None then fs @ [f] else fs)"

definition abortedFrames :: "relay_env \<Rightarrow> int \<Rightarrow> frame list \<Rightarrow> frame list" where
  "abortedFrames env milli fs = writeIgnoring env (Sentinel doneFrame)
     (writeIgnoring env (FailureFrame (FormatIncompleteResponsesFailure (re_codec env) milli)) fs)"

definition streamPassthrough ::
  "stream_env \<Rightarrow> relay_env \<Rightarrow> pass_cfg \<Rightarrow> (ticks \<times> string) list \<Rightarrow> (ticks \<times> string) scan_end \<Rightarrow> ticks \<Rightarrow> stream_out" where
  "streamPassthrough se env cfg ls ending tk =
     (case driveRelay (\<lambda>(t, l). ProcessLine env cfg t l) (\<lambda>(t, l). ProcessTail env cfg t l) ls ending NewPassthroughRelay of
        (Some err, r) \<Rightarrow>
          \<lparr>so_text = frames_text (if pc_format cfg = FormatResponses then abortedFrames env (tk_failure tk) (pr_frames r) else pr_frames r),
           so_abort = Some (streamAbortReason (se_ctxDead se) (se_isCanceled se) err (se_delivered se))\<rparr>
      | (None, r) \<Rightarrow> \<lparr>so_text = frames_text (pr_frames (snd (Flush env cfg tk r))), so_abort = None\<rparr>)"

definition streamTranslate ::
  "stream_env \<Rightarrow> trans_env \<Rightarrow> pass_cfg \<Rightarrow> trans_relay \<Rightarrow> ((nat \<Rightarrow> int) \<times> string) list \<Rightarrow> ((nat \<Rightarrow> int) \<times> string) scan_end \<Rightarrow> (nat \<Rightarrow> int) \<Rightarrow> stream_out" where
  "streamTranslate se env cfg r0 ls ending ms =
     (case driveRelay (\<lambda>(t, l). ProcessLineT env cfg t l) (\<lambda>(t, l). ProcessTailT env cfg t l) ls ending r0 of
        (Some err, r) \<Rightarrow>
          \<lparr>so_text = items_text (re_codec (te_relay env)) (tl_items r),
           so_abort = Some (streamAbortReason (se_ctxDead se) (se_isCanceled se) err (se_delivered se))\<rparr>
      | (None, r) \<Rightarrow> \<lparr>so_text = items_text (re_codec (te_relay env)) (tl_items (snd (FlushT env cfg ms r))), so_abort = None\<rparr>)"

text \<open>The whole handler: a reply of its own, or the event stream.\<close>

datatype stream_reply = GuardReply http_reply "origin \<times> string" | EventStream "(string, string) gomap" stream_out

definition streamGuard :: "codec \<Rightarrow> stream_env \<Rightarrow> (string \<Rightarrow> string) \<Rightarrow> string \<Rightarrow> int \<Rightarrow> string \<Rightarrow> stream_out \<Rightarrow> stream_reply" where
  "streamGuard co se lower contentType status bodyText relayed =
     (let ct = lower contentType in
      if nonSSEBody ct then
        GuardReply (writeBareStreamError co status ([CHR 0x5B] @ itoa status @ [CHR 0x5D] @ '': '' @ shortHTMLMessage bodyText ct))
          (se_delivered se, ''non_sse_body'')
      else EventStream (corsHeaders True []) relayed)"

section \<open>The contract of a relay\<close>

text \<open>
  What the drive relies on: in a state the invariant allows, a line and the unterminated rest are taken without an
  error and keep the invariant, and the flush closes the stream.
\<close>

locale line_relay =
  fixes proc :: "'l \<Rightarrow> 'r \<Rightarrow> string option \<times> 'r"
    and tailp :: "'l \<Rightarrow> 'r \<Rightarrow> string option \<times> 'r"
    and flush :: "'r \<Rightarrow> string option \<times> 'r"
    and inv :: "'r \<Rightarrow> bool"
    and closed :: "'r \<Rightarrow> bool"
  assumes proc_ok: "inv r \<Longrightarrow> \<exists>r'. proc l r = (None, r') \<and> inv r'"
    and tail_ok: "inv r \<Longrightarrow> \<exists>r'. tailp l r = (None, r') \<and> inv r'"
    and flush_ok: "inv r \<Longrightarrow> \<exists>r'. flush r = (None, r') \<and> closed r'"
begin

lemma feed_ok: "inv r \<Longrightarrow> \<exists>r'. feedLines proc ls r = (None, r') \<and> inv r'"
proof (induction ls arbitrary: r)
  case (Cons l ls)
  obtain r1 where "proc l r = (None, r1)" "inv r1" using proc_ok [OF Cons.prems] by blast
  with Cons.IH [of r1] show ?case by auto
qed simp

lemma drive_ok:
  assumes "inv r"
  shows "\<exists>r'. driveRelay proc tailp ls ending r = ((case ending of Failed res \<Rightarrow> Some res | Finished _ \<Rightarrow> None), r') \<and> inv r'"
proof -
  obtain r1 where f: "feedLines proc ls r = (None, r1)" "inv r1" using feed_ok [OF assms] by blast
  show ?thesis
  proof (cases ending)
    case (Finished t)
    show ?thesis
    proof (cases t)
      case (Some x)
      obtain r2 where "tailp x r1 = (None, r2)" "inv r2" using tail_ok [OF f(2)] by blast
      then show ?thesis using f by (simp add: Finished Some driveRelay_def)
    qed (use f in \<open>simp add: Finished driveRelay_def\<close>)
  next
    case (Failed res)
    then show ?thesis using f by (simp add: driveRelay_def)
  qed
qed

lemma drive_closed:
  assumes "inv r"
  shows "case driveRelay proc tailp ls (Finished t) r of (err, r1) \<Rightarrow> err = None \<and> closed (snd (flush r1))"
proof -
  obtain r1 where "driveRelay proc tailp ls (Finished t) r = (None, r1)" "inv r1" using drive_ok [OF assms, of ls "Finished t"] by auto
  with flush_ok [of r1] show ?thesis by auto
qed

end

definition pass_inv :: "relay_env \<Rightarrow> pass_cfg \<Rightarrow> pass_relay \<Rightarrow> bool" where
  "pass_inv env cfg r \<longleftrightarrow> never_fails env \<and> pc_format cfg = FormatResponses \<and> closing_ok r"

definition pass_closed :: "pass_relay \<Rightarrow> bool" where
  "pass_closed r \<longleftrightarrow> length (filter isS (pr_frames r)) = 1 \<and> pr_terminalSeen r \<and> pr_finalized r"

interpretation pass: line_relay "\<lambda>(t, l). ProcessLine env cfg t l" "\<lambda>(t, l). ProcessTail env cfg t l" "Flush env cfg tk"
    "pass_inv env cfg" pass_closed for env cfg tk
proof unfold_locales
  fix r :: pass_relay and x :: "ticks \<times> string"
  obtain t l where x: "x = (t, l)" by force
  assume i: "pass_inv env cfg r"
  then have n: "never_fails env" "closing_ok r" "pc_format cfg = FormatResponses" by (simp_all add: pass_inv_def)
  show "\<exists>r'. (case x of (t, l) \<Rightarrow> ProcessLine env cfg t l) r = (None, r') \<and> pass_inv env cfg r'"
    using line_closes [OF n, of t l] n by (auto simp: x pass_inv_def closes_def)
  show "\<exists>r'. (case x of (t, l) \<Rightarrow> ProcessTail env cfg t l) r = (None, r') \<and> pass_inv env cfg r'"
    using tail_closes [OF n, of t l] n by (auto simp: x pass_inv_def closes_def)
next
  fix r :: pass_relay
  assume "pass_inv env cfg r"
  then have n: "never_fails env" "closing_ok r" "pc_format cfg = FormatResponses" by (simp_all add: pass_inv_def)
  obtain r1 where r1: "emitResponsesDone env tk doneFrame r = (None, r1)" "closes r False True r1" using emit_closes [OF n(1,2)] by blast
  then show "\<exists>r'. Flush env cfg tk r = (None, r') \<and> pass_closed r'"
    using n(3) by (auto simp: Flush_def pass_closed_def closes_def closing_ok_def)
qed

lemma writeItems_quiet: "writes_all env \<Longrightarrow> \<exists>r'. writeItems env cfg items r = (None, r')"
proof (induction items arbitrary: r)
  case (Cons item items)
  then show ?case by (auto simp: Let_def writes_all_def split: prod.splits)
qed simp

lemma translate_quiet: "writes_all env \<Longrightarrow> \<exists>r'. ProcessLineT env cfg ms line r = (None, r')"
  using writeItems_quiet [of env cfg] by (auto simp: ProcessLineT_def split: option.splits prod.splits)

interpretation trans: line_relay "\<lambda>(t, l). ProcessLineT env cfg t l" "\<lambda>(t, l). ProcessTailT env cfg t l" "FlushT env cfg ms"
    "\<lambda>_. writes_all env" "\<lambda>r. tl_finalized r" for env cfg ms
proof unfold_locales
  fix r :: trans_relay and x :: "(nat \<Rightarrow> int) \<times> string"
  assume w: "writes_all env"
  show "\<exists>r'. (case x of (t, l) \<Rightarrow> ProcessLineT env cfg t l) r = (None, r') \<and> writes_all env"
    using translate_quiet [OF w, of cfg "fst x" "snd x" r] w by (simp add: case_prod_beta)
  show "\<exists>r'. (case x of (t, l) \<Rightarrow> ProcessTailT env cfg t l) r = (None, r') \<and> writes_all env"
    using translate_quiet [OF w, of cfg "fst x" "snd x" r] w by (simp add: case_prod_beta ProcessTailT_def)
next
  fix r :: trans_relay
  assume w: "writes_all env"
  show "\<exists>r'. FlushT env cfg ms r = (None, r') \<and> tl_finalized r'"
  proof -
    obtain items r1 where c: "convertInput env cfg ms None r = (items, r1)" by force
    obtain r2 where "writeItems env cfg items r1 = (None, r2)" using writeItems_quiet [OF w] by blast
    then show ?thesis by (simp add: FlushT_def c finalizeT_def Let_def)
  qed
qed

section \<open>Every stream ends\<close>

lemma frames_append: "frames_text (a @ b) = frames_text a @ frames_text b"
  by (simp add: frames_text_def)

lemma pass_start: "never_fails env \<Longrightarrow> pc_format cfg = FormatResponses \<Longrightarrow> pass_inv env cfg NewPassthroughRelay"
  by (simp add: pass_inv_def closing_ok_def NewPassthroughRelay_def)

text \<open>A stream the upstream ends has one sentinel among its frames, and the relay has been closed.\<close>

lemma finished_once:
  assumes "never_fails env" and "pc_format cfg = FormatResponses"
  shows "pass_closed (snd (Flush env cfg tk (snd (driveRelay (\<lambda>(t, l). ProcessLine env cfg t l) (\<lambda>(t, l). ProcessTail env cfg t l)
    ls (Finished t) NewPassthroughRelay))))"
  using pass.drive_closed [OF pass_start [OF assms], where ls = ls and t = t and tk = tk] by (auto split: prod.splits)

section \<open>What a passed-through stream consists of\<close>

text \<open>
  The text a line of the upstream gives the client when it is no sentinel: the line itself, the repaired chunk, if need be
  with a usage of its own, or nothing for a chunk that is dropped.
\<close>

definition plainText :: "codec \<Rightarrow> ticks \<Rightarrow> string \<Rightarrow> string \<Rightarrow> bool" where
  "plainText co tk line x \<longleftrightarrow>
     (let c = classifyDataLine co line in
      if \<not> lc_is_data c then x = normalizeDataPrefix line
      else case lc_parsed c of
        None \<Rightarrow> x = (if lc_non_object c then normalizeDataPrefix line else [])
      | Some p \<Rightarrow>
          if choicesThrow p \<or> \<not> hasValuableContent (fst (repairChunk tk p)) then x = []
          else x = normalizeDataPrefix line \<or> x = formatDataLine co (fst (repairChunk tk p)) \<or>
            (\<exists>u. x = formatDataLine co (gm_set ''usage'' u (fst (repairChunk tk p)))))"

text \<open>
  The two closing texts, the failure event and the sentinel, as far as they are still due: \<open>t\<close> says that a terminal event
  has been seen, \<open>d\<close> that the sentinel has been sent.
\<close>

definition closingText :: "codec \<Rightarrow> ticks \<Rightarrow> bool \<Rightarrow> bool \<Rightarrow> string \<Rightarrow> string" where
  "closingText co tk t d sentinel =
     (if t then [] else FormatIncompleteResponsesFailure co (tk_failure tk)) @ (if d then [] else sentinel)"

text \<open>The text of the lines: a sentinel of the upstream closes, every other line is plain.\<close>

inductive relayed :: "codec \<Rightarrow> bool \<Rightarrow> bool \<Rightarrow> (ticks \<times> string) list \<Rightarrow> string \<Rightarrow> bool" for co where
  relayed_end: "relayed co t d [] []"
| relayed_plain: "\<not> doneLine co line \<Longrightarrow> plainText co tk line x \<Longrightarrow> relayed co (t \<or> terminalLine co line) d ls y \<Longrightarrow>
     relayed co t d ((tk, line) # ls) (x @ y)"
| relayed_done: "doneLine co line \<Longrightarrow> relayed co True True ls y \<Longrightarrow>
     relayed co t d ((tk, line) # ls) (closingText co tk t d (normalizeDataPrefix line) @ y)"

definition sawTerminal :: "codec \<Rightarrow> (ticks \<times> string) list \<Rightarrow> bool" where
  "sawTerminal co ls \<longleftrightarrow> list_ex (\<lambda>(_, line). terminalLine co line \<or> doneLine co line) ls"

definition sawDone :: "codec \<Rightarrow> (ticks \<times> string) list \<Rightarrow> bool" where
  "sawDone co ls \<longleftrightarrow> list_ex (\<lambda>(_, line). doneLine co line) ls"

text \<open>The unterminated rest is forwarded as it is, but for a missing space after \<^verbatim>\<open>data:\<close>; a sentinel in it closes.\<close>

definition restText :: "codec \<Rightarrow> bool \<Rightarrow> bool \<Rightarrow> ticks \<times> string \<Rightarrow> string" where
  "restText co t d l = (case l of (tk, line) \<Rightarrow>
     if line = [] then [] else if doneLine co line then closingText co tk t d doneFrame
     else if hasPrefix line ''data:'' \<and> \<not> hasPrefix line ''data: '' then ''data: '' @ drop 5 line else line)"

lemma no_done_empty: "\<not> doneLine co []"
proof -
  have "trimSpace [] = []" by code_simp
  then show ?thesis by (simp add: doneLine_def classifyDataLine_def dataPayload_def hasPrefix_def)
qed

lemma emit_text:
  assumes "never_fails env" and "closing_ok r" and "emitResponsesDone env tk x r = (e, r')"
  shows "frames_text (pr_frames r') = frames_text (pr_frames r) @ closingText (re_codec env) tk (pr_terminalSeen r) (pr_doneSent r) x"
proof -
  have d: "pr_doneSent r \<Longrightarrow> pr_terminalSeen r" using assms(2) by (simp add: closing_ok_def)
  show ?thesis using assms(3) d
    by (cases "pr_terminalSeen r"; cases "pr_doneSent r")
      (auto simp: emitResponsesDone_def writeRaw_ok [OF assms(1)] closingText_def frames_text_def)
qed

lemma seam_text:
  "usageSeam env cfg line p touched r = (f, u) \<Longrightarrow> frame_text f = normalizeDataPrefix line \<or>
     frame_text f = formatDataLine (re_codec env) p \<or> (\<exists>v. frame_text f = formatDataLine (re_codec env) (gm_set ''usage'' v p))"
  by (auto simp: usageSeam_def Let_def split: if_splits)

lemma chunk_text:
  assumes "never_fails env" and "processChunk env cfg tk line p r = (e, r')"
  shows "\<exists>x. frames_text (pr_frames r') = frames_text (pr_frames r) @ x \<and>
    (if choicesThrow p \<or> \<not> hasValuableContent (fst (repairChunk tk p)) then x = []
     else x = normalizeDataPrefix line \<or> x = formatDataLine (re_codec env) (fst (repairChunk tk p)) \<or>
       (\<exists>u. x = formatDataLine (re_codec env) (gm_set ''usage'' u (fst (repairChunk tk p)))))"
proof (cases "choicesThrow p \<or> \<not> hasValuableContent (fst (repairChunk tk p))")
  case True
  then have "pr_frames r' = pr_frames r" using assms(2)
    by (auto simp: processChunk_def Let_def case_prod_beta split: if_splits)
  then show ?thesis using True by simp
next
  case False
  obtain p' touched where rep: "repairChunk tk p = (p', touched)" by force
  define r2 where "r2 = (if TerminalResponsesEvent [] p then r\<lparr>pr_terminalSeen := True\<rparr> else r)
    \<lparr>pr_progress := accumulate (firstDelta p') (pr_progress (if TerminalResponsesEvent [] p then r\<lparr>pr_terminalSeen := True\<rparr> else r))\<rparr>"
  define r3 where "r3 = (if extractAnyUsage (re_num env) p' \<noteq> None
    then r2\<lparr>pr_trackedUsage := mergeTracked (pr_trackedUsage r2) (extractAnyUsage (re_num env) p')\<rparr> else r2)"
  obtain f tracked where seam: "usageSeam env cfg line p' touched r3 = (f, tracked)" by force
  have "pr_frames r3 = pr_frames r" by (simp add: r3_def r2_def)
  then have "pr_frames r' = pr_frames r @ [f]"
    using assms(2) False unfolding processChunk_def Let_def rep prod.case r2_def [symmetric] r3_def [symmetric] seam
      writeRaw_ok [OF assms(1)] option.case
    by (auto simp: rep split: if_splits simp del: not_None_eq)
  then have "frames_text (pr_frames r') = frames_text (pr_frames r) @ frame_text f" by (simp add: frames_text_def)
  then show ?thesis using seam_text [OF seam] False by (auto simp: rep)
qed

lemma line_text:
  assumes n: "never_fails env" and "pc_format cfg = FormatResponses" and "ProcessLine env cfg tk line r = (e, r')" and "\<not> doneLine (re_codec env) line"
  shows "\<exists>x. frames_text (pr_frames r') = frames_text (pr_frames r) @ x \<and> plainText (re_codec env) tk line x"
proof -
  define c where "c = classifyDataLine (re_codec env) line"
  have nd: "lc_is_data c \<Longrightarrow> \<not> lc_is_done c" using assms(4) by (simp add: doneLine_def c_def)
  show ?thesis
  proof (cases "lc_is_data c")
    case False
    then show ?thesis using assms(3)
      by (auto simp: ProcessLine_def Let_def plainText_def c_def [symmetric] writeRaw_ok [OF n] frames_text_def)
  next
    case True
    show ?thesis
    proof (cases "lc_parsed c")
      case None
      then show ?thesis using assms(3) True nd
        by (auto simp: ProcessLine_def Let_def plainText_def c_def [symmetric] writeRaw_ok [OF n] frames_text_def split: if_splits)
    next
      case (Some p)
      then have "processChunk env cfg tk line p r = (e, r')"
        using assms(3) True nd by (simp add: ProcessLine_def Let_def c_def [symmetric])
      from chunk_text [OF n this] show ?thesis using True Some by (simp add: plainText_def c_def [symmetric])
    qed
  qed
qed

lemma done_text:
  assumes "never_fails env" and "closing_ok r" and "pc_format cfg = FormatResponses" and "ProcessLine env cfg tk line r = (e, r')"
    and "doneLine (re_codec env) line"
  shows "frames_text (pr_frames r') = frames_text (pr_frames r) @
    closingText (re_codec env) tk (pr_terminalSeen r) (pr_doneSent r) (normalizeDataPrefix line)"
proof -
  have "emitResponsesDone env tk (normalizeDataPrefix line) r = (e, r')"
    using assms(3-5) by (simp add: ProcessLine_def Let_def doneLine_def)
  from emit_text [OF assms(1,2) this] show ?thesis .
qed

lemma feed_text:
  assumes n: "never_fails env" and c: "pc_format cfg = FormatResponses"
  shows "closing_ok r \<Longrightarrow> \<exists>r' x. feedLines (\<lambda>(t, l). ProcessLine env cfg t l) ls r = (None, r') \<and> closing_ok r' \<and>
     frames_text (pr_frames r') = frames_text (pr_frames r) @ x \<and> relayed (re_codec env) (pr_terminalSeen r) (pr_doneSent r) ls x \<and>
     pr_terminalSeen r' = (pr_terminalSeen r \<or> sawTerminal (re_codec env) ls) \<and> pr_doneSent r' = (pr_doneSent r \<or> sawDone (re_codec env) ls)"
proof (induction ls arbitrary: r)
  case Nil
  then show ?case by (auto simp: sawTerminal_def sawDone_def intro: relayed_end)
next
  case (Cons l ls)
  obtain tk line where l: "l = (tk, line)" by force
  let ?co = "re_codec env"
  obtain r1 where r1: "ProcessLine env cfg tk line r = (None, r1)" "closes r (terminalLine ?co line) (doneLine ?co line) r1"
    using line_closes [OF n Cons.prems c] by blast
  then have k: "closing_ok r1" "pr_terminalSeen r1 = (pr_terminalSeen r \<or> terminalLine ?co line \<or> doneLine ?co line)"
    "pr_doneSent r1 = (pr_doneSent r \<or> doneLine ?co line)" by (simp_all add: closes_def)
  obtain r' y where r': "feedLines (\<lambda>(t, l). ProcessLine env cfg t l) ls r1 = (None, r')" "closing_ok r'"
    "frames_text (pr_frames r') = frames_text (pr_frames r1) @ y" "relayed ?co (pr_terminalSeen r1) (pr_doneSent r1) ls y"
    "pr_terminalSeen r' = (pr_terminalSeen r1 \<or> sawTerminal ?co ls)" "pr_doneSent r' = (pr_doneSent r1 \<or> sawDone ?co ls)"
    using Cons.IH [OF k(1)] by blast
  have x: "\<exists>x. frames_text (pr_frames r1) = frames_text (pr_frames r) @ x \<and> relayed ?co (pr_terminalSeen r) (pr_doneSent r) (l # ls) (x @ y)"
  proof (cases "doneLine ?co line")
    case True
    have "relayed ?co True True ls y" using r'(4) k(2,3) True by simp
    from relayed_done [OF True this] done_text [OF n Cons.prems c r1(1) True] show ?thesis unfolding l by blast
  next
    case False
    obtain x where "frames_text (pr_frames r1) = frames_text (pr_frames r) @ x" "plainText ?co tk line x"
      using line_text [OF n c r1(1) False] by blast
    moreover have "relayed ?co (pr_terminalSeen r \<or> terminalLine ?co line) (pr_doneSent r) ls y" using r'(4) k(2,3) False by simp
    ultimately show ?thesis using relayed_plain [OF False] unfolding l by blast
  qed
  then show ?case using r1(1) r' k by (auto simp: l sawTerminal_def sawDone_def)
qed

lemma tail_text:
  assumes n: "never_fails env" and "closing_ok r" and c: "pc_format cfg = FormatResponses" and "ProcessTail env cfg tk line r = (e, r')"
  shows "frames_text (pr_frames r') = frames_text (pr_frames r) @ restText (re_codec env) (pr_terminalSeen r) (pr_doneSent r) (tk, line)"
proof (cases "line = [] \<or> \<not> doneLine (re_codec env) line")
  case True
  then show ?thesis using assms(4) by (auto simp: ProcessTail_def restText_def doneLine_def c writeRaw_ok [OF n] frames_text_def split: if_splits)
next
  case False
  then have "emitResponsesDone env tk doneFrame r = (e, r')" using assms(4) by (simp add: ProcessTail_def doneLine_def c)
  from emit_text [OF n assms(2) this] False show ?thesis by (simp add: restText_def)
qed

lemma flush_text:
  assumes "never_fails env" and "closing_ok r" and "pc_format cfg = FormatResponses"
  shows "frames_text (pr_frames (snd (Flush env cfg tk r))) =
    frames_text (pr_frames r) @ closingText (re_codec env) tk (pr_terminalSeen r) (pr_doneSent r) doneFrame"
proof -
  obtain r1 where r1: "emitResponsesDone env tk doneFrame r = (None, r1)" using emit_closes [OF assms(1,2)] by blast
  from emit_text [OF assms(1,2) this] show ?thesis by (simp add: Flush_def assms(3) r1)
qed

text \<open>
  C15. While the client reads, a passed-through Responses stream always ends in a sentinel, and what the client reads is
  exactly the upstream's lines with the closing due. A line that is no sentinel is the line itself, its repaired chunk, or
  dropped; the first sentinel line is forwarded, after a failure event unless a terminal event came before it, and later
  ones are swallowed. When the upstream ends the stream, the rest follows and then what is still missing: a failure event if
  neither a terminal event nor a sentinel came, a sentinel if none came. When the stream stalls, breaks or is cancelled, the
  failure event and the sentinel follow whatever was forwarded, also after a terminal event or a sentinel (a comment says
  before a terminal event only), and the abort is attributed to the client only if the request was cancelled, otherwise to
  the delivering side.
\<close>

theorem responses_stream_ends:
  assumes "never_fails env" and "pc_format cfg = FormatResponses"
  shows "\<exists>body. relayed (re_codec env) False False ls body \<and>
    (let t = sawTerminal (re_codec env) ls; d = sawDone (re_codec env) ls; co = re_codec env;
         res = streamPassthrough se env cfg ls ending tk in
     case ending of
      Finished None \<Rightarrow> so_abort res = None \<and> so_text res = body @ closingText co tk t d doneFrame
    | Finished (Some (tk', rest)) \<Rightarrow> so_abort res = None \<and>
        so_text res = body @ restText co t d (tk', rest) @
          closingText co tk (t \<or> doneLine co rest) (d \<or> doneLine co rest) doneFrame
    | Failed err \<Rightarrow>
        so_abort res = Some (if se_ctxDead se \<or> se_isCanceled se err then (OriginClient, ''client_disconnect'')
            else (se_delivered se, if err = ScanStall then ''stall'' else ''read_error'')) \<and>
        so_text res = body @ FormatIncompleteResponsesFailure co (tk_failure tk) @ doneFrame)"
proof -
  let ?co = "re_codec env" and ?t = "sawTerminal (re_codec env) ls" and ?d = "sawDone (re_codec env) ls"
  have "closing_ok NewPassthroughRelay" by (simp add: closing_ok_def NewPassthroughRelay_def)
  from feed_text [OF assms this, of ls] obtain r body
    where r: "feedLines (\<lambda>(t, l). ProcessLine env cfg t l) ls NewPassthroughRelay = (None, r)" "closing_ok r"
      "frames_text (pr_frames r) = body" "relayed ?co False False ls body" "pr_terminalSeen r = ?t" "pr_doneSent r = ?d"
    by (auto simp: NewPassthroughRelay_def frames_text_def)
  have "case ending of
      Finished None \<Rightarrow> so_abort (streamPassthrough se env cfg ls ending tk) = None \<and>
        so_text (streamPassthrough se env cfg ls ending tk) = body @ closingText ?co tk ?t ?d doneFrame
    | Finished (Some (tk', rest)) \<Rightarrow> so_abort (streamPassthrough se env cfg ls ending tk) = None \<and>
        so_text (streamPassthrough se env cfg ls ending tk) = body @ restText ?co ?t ?d (tk', rest) @
          closingText ?co tk (?t \<or> doneLine ?co rest) (?d \<or> doneLine ?co rest) doneFrame
    | Failed err \<Rightarrow>
        so_abort (streamPassthrough se env cfg ls ending tk) =
          Some (if se_ctxDead se \<or> se_isCanceled se err then (OriginClient, ''client_disconnect'')
            else (se_delivered se, if err = ScanStall then ''stall'' else ''read_error'')) \<and>
        so_text (streamPassthrough se env cfg ls ending tk) = body @ FormatIncompleteResponsesFailure ?co (tk_failure tk) @ doneFrame"
  proof (cases ending)
    case (Finished t)
    show ?thesis
    proof (cases t)
      case None
      then show ?thesis using r flush_text [OF assms(1) r(2) assms(2), of tk] by (simp add: Finished streamPassthrough_def driveRelay_def)
    next
      case (Some l)
      obtain tk' rest where l: "l = (tk', rest)" by force
      obtain r1 where r1: "ProcessTail env cfg tk' rest r = (None, r1)" "closes r False (doneLine ?co rest) r1"
        using tail_closes [OF assms(1) r(2) assms(2), of tk' rest] by (cases "rest = []") (auto simp: no_done_empty)
      then have k: "closing_ok r1" "pr_terminalSeen r1 = (?t \<or> doneLine ?co rest)" "pr_doneSent r1 = (?d \<or> doneLine ?co rest)"
        using r(5,6) by (simp_all add: closes_def)
      show ?thesis using r r1(1) k tail_text [OF assms(1) r(2) assms(2) r1(1)] flush_text [OF assms(1) k(1) assms(2), of tk]
        by (simp add: Finished Some l streamPassthrough_def driveRelay_def)
    qed
  next
    case (Failed res)
    have "frames_text (abortedFrames env (tk_failure tk) (pr_frames r)) =
        frames_text (pr_frames r) @ FormatIncompleteResponsesFailure ?co (tk_failure tk) @ doneFrame"
      using assms(1) by (simp add: abortedFrames_def writeIgnoring_def never_fails_def frames_append) (simp add: frames_text_def)
    with r assms(2) show ?thesis by (simp add: Failed streamPassthrough_def driveRelay_def streamAbortReason_def)
  qed
  with r(4) show ?thesis unfolding Let_def by blast
qed

definition demo_stream :: stream_env where
  "demo_stream = \<lparr>se_ctxDead = False, se_isCanceled = (\<lambda>_. False), se_delivered = OriginUpstream\<rparr>"

theorem responses_stream_ends_witness:
  "so_abort (streamPassthrough demo_stream demo_env demo_cfg [(demo_ticks, ''data: T'')] (Failed ScanStall) demo_ticks) = Some (OriginUpstream, ''stall'')"
proof -
  have h: "never_fails demo_env" "pc_format demo_cfg = FormatResponses" by (simp_all add: never_fails_def demo_env_def demo_cfg_def)
  from responses_stream_ends [OF h, where se = demo_stream and ls = "[(demo_ticks, ''data: T'')]" and ending = "Failed ScanStall" and tk = demo_ticks]
  show ?thesis by (auto simp: demo_stream_def Let_def)
qed

text \<open>
  The failure event does not depend on what was forwarded: a stream that breaks after its terminal event was relayed gets a
  failure event after the completed one.
\<close>

lemma aborted_after_completed:
  "so_text (streamPassthrough demo_stream demo_env demo_cfg [(demo_ticks, ''data: T'')] (Failed ScanStall) demo_ticks) =
     frames_text (pr_frames (snd (ProcessLine demo_env demo_cfg demo_ticks ''data: T'' NewPassthroughRelay))) @
     FormatIncompleteResponsesFailure (re_codec demo_env) 5 @ doneFrame \<and>
   pr_terminalSeen (snd (ProcessLine demo_env demo_cfg demo_ticks ''data: T'' NewPassthroughRelay))"
proof -
  have n: "never_fails demo_env" "pc_format demo_cfg = FormatResponses" "closing_ok NewPassthroughRelay"
    by (simp_all add: never_fails_def demo_env_def demo_cfg_def closing_ok_def NewPassthroughRelay_def)
  obtain r where r: "ProcessLine demo_env demo_cfg demo_ticks ''data: T'' NewPassthroughRelay = (None, r)"
    "closes NewPassthroughRelay (terminalLine (re_codec demo_env) ''data: T'') (doneLine (re_codec demo_env) ''data: T'') r"
    using line_closes [OF n(1,3,2), of demo_ticks "''data: T''"] by blast
  have t: "terminalLine (re_codec demo_env) ''data: T''" by code_simp
  have "frames_text (abortedFrames demo_env 5 fs) = frames_text fs @ FormatIncompleteResponsesFailure (re_codec demo_env) 5 @ doneFrame" for fs
    using n(1) by (simp add: abortedFrames_def writeIgnoring_def never_fails_def frames_append) (simp add: frames_text_def)
  then show ?thesis using r t n(2)
    by (simp add: streamPassthrough_def driveRelay_def closes_def demo_ticks_def)
qed

end
