(* ===== verification/NonStream.thy ===== *)
theory NonStream
  imports Passthrough ChatToResp
begin

text \<open>
  Folding a stream into one answer (\<^verbatim>\<open>internal/relay/nonstream.go\<close>): chat chunks into a chat completion,
  Responses events into a response, and the two conversions between the results. \<open>ms\<close> is the clock in
  milliseconds, \<open>ns\<close> in nanoseconds.
\<close>

definition jsOrT :: "json \<Rightarrow> json \<Rightarrow> json" where
  "jsOrT a b = (if rTruthy a then a else b)"

definition firstOf :: "json \<Rightarrow> json" where
  "firstOf v = (case v of JArr (x # _) \<Rightarrow> x | _ \<Rightarrow> JNull)"

function splitStr :: "string \<Rightarrow> string \<Rightarrow> string list" where
  "splitStr s sep = (if sep = [] then [s] else case cutStr s sep of None \<Rightarrow> [s] | Some (a, b) \<Rightarrow> a # splitStr b sep)"
  by pat_completeness auto

lemma cutStr_shorter: "cutStr s sep = Some (a, b) \<Longrightarrow> length a + length sep + length b = length s"
  by (induction s arbitrary: a) (auto simp: hasPrefix_iff split: if_splits option.splits dest: arg_cong [where f = length])

lemma cutStr_less: "cutStr s sep = Some (a, b) \<Longrightarrow> sep \<noteq> [] \<Longrightarrow> length b < length s"
  using cutStr_shorter [of s sep a b] by (cases sep) auto

termination splitStr
  by (relation "measure (\<lambda>(s, sep). length s)") (auto dest: cutStr_less)

declare splitStr.simps [simp del]

section \<open>Chat chunks into a chat completion\<close>

record agg_call =
  ac_id :: json
  ac_name :: string
  ac_args :: string

record agg =
  ag_content :: "string list"
  ag_reasoning :: "string list"
  ag_calls :: "(int, agg_call) gomap"
  ag_finish :: json
  ag_usage :: json

datatype agg_result = AggNone | AggError jmap | AggBody jmap

definition doneText :: string where
  "doneText = [CHR 0x5B] @ ''DONE'' @ [CHR 0x5D]"

definition sseChunk :: "codec \<Rightarrow> string \<Rightarrow> json option" where
  "sseChunk co line =
     (let trimmed = trimSpace line in
      if \<not> hasPrefix trimmed ''data:'' then None
      else
        let payload = trimSpace (drop 5 trimmed) in
        if payload = [] \<or> payload = doneText then None else co_decode co payload)"

definition errorChunk :: "json \<Rightarrow> jmap option" where
  "errorChunk c = (case c of
     JObj m \<Rightarrow> if rTruthy (mget m ''error'') then Some (case mget m ''error'' of JObj e \<Rightarrow> e | _ \<Rightarrow> []) else None
   | _ \<Rightarrow> None)"

definition callOf :: "agg_call \<Rightarrow> json" where
  "callOf a = JObj [(''id'', ac_id a), (''type'', JStr ''function''),
     (''function'', JObj [(''name'', JStr (ac_name a)), (''arguments'', JStr (ac_args a))])]"

definition fragIndex :: "chunk_env \<Rightarrow> jmap \<Rightarrow> int" where
  "fragIndex E tc = (case mget tc ''index'' of JNum v \<Rightarrow> toInt64 E v | _ \<Rightarrow> 0)"

definition fragText :: "chunk_env \<Rightarrow> jmap \<Rightarrow> string \<Rightarrow> string" where
  "fragText E tc k = (let v = Get (mget tc ''function'') k in if rTruthy v then JSStr (ce_num E) v else [])"

definition addFragment :: "chunk_env \<Rightarrow> json \<Rightarrow> (int, agg_call) gomap \<Rightarrow> (int, agg_call) gomap" where
  "addFragment E raw calls = (case raw of
     JObj tc \<Rightarrow>
       let idx = fragIndex E tc;
           existing = (case gm_get calls idx of Some a \<Rightarrow> a | None \<Rightarrow> \<lparr>ac_id = JStr [], ac_name = [], ac_args = []\<rparr>);
           a1 = (if rTruthy (mget tc ''id'') then existing\<lparr>ac_id := mget tc ''id''\<rparr> else existing)
       in gm_set idx (a1\<lparr>ac_name := ac_name a1 @ fragText E tc ''name'', ac_args := ac_args a1 @ fragText E tc ''arguments''\<rparr>) calls
   | _ \<Rightarrow> calls)"

definition fragments :: "json \<Rightarrow> json list" where
  "fragments delta = (case Get delta ''tool_calls'' of JArr a \<Rightarrow> a | _ \<Rightarrow> [])"

definition foldChunk :: "chunk_env \<Rightarrow> json \<Rightarrow> agg \<Rightarrow> agg" where
  "foldChunk E raw g = (case raw of
     JObj chunk \<Rightarrow>
       let choice = firstOf (mget chunk ''choices''); delta = Get choice ''delta'';
           c = asStr (Get delta ''content''); r = asStr (Get delta ''reasoning_content'');
           fr = Get choice ''finish_reason''; u = mget chunk ''usage''
       in g\<lparr>ag_content := (if c \<noteq> [] then ag_content g @ [c] else ag_content g),
            ag_reasoning := (if r \<noteq> [] then ag_reasoning g @ [r] else ag_reasoning g),
            ag_calls := fold (addFragment E) (fragments delta) (ag_calls g),
            ag_finish := (if rTruthy fr then fr else ag_finish g),
            ag_usage := (case u of JObj _ \<Rightarrow> u | JArr _ \<Rightarrow> u | _ \<Rightarrow> ag_usage g)\<rparr>
   | _ \<Rightarrow> g)"

definition emptyAgg :: agg where
  "emptyAgg = \<lparr>ag_content = [], ag_reasoning = [], ag_calls = [], ag_finish = JStr ''stop'', ag_usage = JNull\<rparr>"

definition aggCalls :: "agg \<Rightarrow> json list" where
  "aggCalls g = map (\<lambda>i. callOf (the (gm_get (ag_calls g) i))) (sortedKeys (ag_calls g))"

definition aggMessage :: "agg \<Rightarrow> jmap" where
  "aggMessage g =
     (let content = concat (ag_content g);
          m0 = [(''role'', JStr ''assistant''),
                (''content'', if content \<noteq> [] then JStr content else if ag_calls g \<noteq> [] then JNull else JStr [])];
          m1 = (if ag_reasoning g \<noteq> [] then m0 @ [(''reasoning_content'', JStr (concat (ag_reasoning g)))] else m0)
      in if ag_calls g \<noteq> [] then m1 @ [(''tool_calls'', JArr (aggCalls g))] else m1)"

definition completion :: "(nat \<Rightarrow> int) \<Rightarrow> string \<Rightarrow> json \<Rightarrow> agg \<Rightarrow> jmap" where
  "completion ms fallbackModel first g =
     (let i = jsOrT (Get first ''id'') (JStr (''chatcmpl-'' @ itoa (ms 0)));
          created = jsOrT (Get first ''created'') (jint (ms 1 sdiv 1000));
          model = jsOrT (jsOrT (Get first ''model'') (JStr fallbackModel)) (JStr ''unknown'');
          res = [(''id'', i), (''object'', JStr ''chat.completion''), (''created'', created), (''model'', model),
            (''choices'', JArr [JObj [(''index'', jint 0), (''message'', JObj (aggMessage g)), (''finish_reason'', ag_finish g)]])]
      in if ag_usage g \<noteq> JNull then res @ [(''usage'', ag_usage g)] else res)"

definition ParseSSEToOpenAIResponse :: "chunk_env \<Rightarrow> (nat \<Rightarrow> int) \<Rightarrow> string \<Rightarrow> string \<Rightarrow> agg_result" where
  "ParseSSEToOpenAIResponse E ms rawSSE fallbackModel =
     (let parsed = List.map_filter (sseChunk (ce_codec E)) (splitByte rawSSE (CHR 0x0A));
          errors = List.map_filter errorChunk parsed;
          chunks = filter (\<lambda>c. errorChunk c = None) parsed
      in if errors \<noteq> [] then AggError (last errors)
         else case chunks of
           [] \<Rightarrow> AggNone
         | first # _ \<Rightarrow> AggBody (completion ms fallbackModel first (fold (foldChunk E) chunks emptyAgg)))"

section \<open>Responses events into a response\<close>

definition MaxResponsesOutputIndex :: int where
  "MaxResponsesOutputIndex = 4096"

record resp_agg =
  ra_responseID :: json
  ra_created :: json
  ra_status :: string
  ra_usage :: jmap
  ra_items :: "(int, jmap) gomap"

fun matchLines :: "string \<Rightarrow> string list \<Rightarrow> string" where
  "matchLines field [] = []"
| "matchLines field (l # ls) =
     (if hasPrefix l (field @ '':'') then trimSpace (drop (length field + 1) l) else matchLines field ls)"

definition matchSSEField :: "string \<Rightarrow> string \<Rightarrow> string" where
  "matchSSEField msg field = matchLines field (splitByte msg (CHR 0x0A))"

definition onAggCreated :: "jmap \<Rightarrow> resp_agg \<Rightarrow> resp_agg" where
  "onAggCreated parsed st =
     st\<lparr>ra_responseID := jsOrT (Get (mget parsed ''response'') ''id'') (ra_responseID st),
        ra_created := jsOrT (Get (mget parsed ''response'') ''created_at'') (ra_created st)\<rparr>"

definition onAggItem :: "chunk_env \<Rightarrow> jmap \<Rightarrow> resp_agg \<Rightarrow> resp_agg" where
  "onAggItem E parsed st =
     (let put = (\<lambda>idx. case mget parsed ''item'' of JObj item \<Rightarrow> st\<lparr>ra_items := gm_set idx item (ra_items st)\<rparr> | _ \<Rightarrow> st) in
      case mget parsed ''output_index'' of
        JNum v \<Rightarrow> if f_lt v (Fin 0) \<or> f_lt (Fin (of_int MaxResponsesOutputIndex)) v then st else put (toInt64 E v)
      | _ \<Rightarrow> put 0)"

definition onAggCompleted :: "jmap \<Rightarrow> resp_agg \<Rightarrow> resp_agg" where
  "onAggCompleted parsed st =
     (let u = Get (mget parsed ''response'') ''usage''; st1 = st\<lparr>ra_status := ''completed''\<rparr> in
      if rTruthy u
      then st1\<lparr>ra_usage := gm_set ''total_tokens'' (jsOrT (Get u ''total_tokens'') (jint 0))
             (gm_set ''output_tokens'' (jsOrT (Get u ''output_tokens'') (jint 0))
               (gm_set ''input_tokens'' (jsOrT (Get u ''input_tokens'') (jint 0)) (ra_usage st1)))\<rparr>
      else st1)"

definition processAggMessage :: "chunk_env \<Rightarrow> string \<Rightarrow> resp_agg \<Rightarrow> resp_agg" where
  "processAggMessage E msg st =
     (if trimSpace msg = [] then st
      else
        let eventType = matchSSEField msg ''event''; dataStr = matchSSEField msg ''data'' in
        if eventType = [] \<or> dataStr = [] \<or> dataStr = doneText then st
        else case decodeMap (co_decode (ce_codec E)) dataStr of
          None \<Rightarrow> st
        | Some parsed \<Rightarrow>
            if eventType = ''response.created'' then onAggCreated parsed st
            else if eventType = ''response.output_item.done'' then onAggItem E parsed st
            else if eventType = ''response.completed'' \<or> eventType = ''response.done'' then onAggCompleted parsed st
            else if eventType = ''response.failed'' then st\<lparr>ra_status := ''failed''\<rparr>
            else st)"

definition emptyRespAgg :: "int \<Rightarrow> resp_agg" where
  "emptyRespAgg ms = \<lparr>ra_responseID = JNull, ra_created = jint (ms sdiv 1000), ra_status = ''in_progress'',
     ra_usage = [(''input_tokens'', jint 0), (''output_tokens'', jint 0), (''total_tokens'', jint 0)], ra_items = []\<rparr>"

definition placeholderItem :: json where
  "placeholderItem = JObj [(''type'', JStr ''message''), (''content'', JArr []), (''role'', JStr ''assistant'')]"

definition denseOutput :: "(int, jmap) gomap \<Rightarrow> json list" where
  "denseOutput items =
     (let maxIndex = fold (\<lambda>(k, _) mx. if k > mx then k else mx) items (-1)
      in map (\<lambda>i. case gm_get items i of Some item \<Rightarrow> JObj item | None \<Rightarrow> placeholderItem) [0..maxIndex])"

definition pad6 :: "string \<Rightarrow> string" where
  "pad6 s = replicate (6 - length s) (CHR ''0'') @ s"

definition aggResponses :: "chunk_env \<Rightarrow> int \<Rightarrow> string \<Rightarrow> resp_agg" where
  "aggResponses E ms rawSSE = fold (processAggMessage E) (splitStr rawSSE (newline @ newline)) (emptyRespAgg ms)"

definition ConvertResponsesStreamToJson :: "chunk_env \<Rightarrow> int \<Rightarrow> int \<Rightarrow> string \<Rightarrow> jmap" where
  "ConvertResponsesStreamToJson E ms ns rawSSE =
     (let st = aggResponses E ms rawSSE;
          i = jsOrT (ra_responseID st) (JStr (''resp_'' @ itoa ms @ ''_'' @ pad6 (formatInt36 (ns smod 2176782336))));
          status = (if ra_status st \<noteq> [] then ra_status st else ''completed'')
      in [(''id'', i), (''object'', JStr ''response''), (''created_at'', ra_created st), (''status'', JStr status),
          (''output'', JArr (denseOutput (ra_items st))), (''usage'', JObj (ra_usage st))])"

section \<open>Between the two results\<close>

definition jsStringifyArguments :: "chunk_env \<Rightarrow> json \<Rightarrow> string" where
  "jsStringifyArguments E v = (case v of
     JStr s \<Rightarrow> s
   | _ \<Rightarrow> if \<not> rTruthy v then ''{}'' else (case co_encode (ce_codec E) v of None \<Rightarrow> [] | Some b \<Rightarrow> b))"

definition extractCustomInput :: "chunk_env \<Rightarrow> json \<Rightarrow> string" where
  "extractCustomInput E v =
     (let argumentsText = jsStringifyArguments E v in
      case co_decode (ce_codec E) argumentsText of
        Some (JObj o1) \<Rightarrow> (case mget o1 ''input'' of JStr i \<Rightarrow> i | _ \<Rightarrow> argumentsText)
      | _ \<Rightarrow> argumentsText)"

definition textOr :: "json \<Rightarrow> json" where
  "textOr v = (if rTruthy v then v else JStr [])"

definition responseCall :: "chunk_env \<Rightarrow> string list \<Rightarrow> json \<Rightarrow> json option" where
  "responseCall E customToolNames raw = (case raw of
     JObj tc \<Rightarrow>
       let fn = (case mget tc ''function'' of JObj f \<Rightarrow> f | _ \<Rightarrow> []);
           custom = (asStr (mget fn ''name'') \<in> set customToolNames);
           idSuffix = (if rTruthy (mget tc ''id'') then JSStr (ce_num E) (mget tc ''id'') else [])
       in Some (JObj (if custom then
            [(''type'', JStr ''custom_tool_call''), (''id'', JStr (''ctc_'' @ idSuffix)), (''call_id'', textOr (mget tc ''id'')),
             (''name'', textOr (mget fn ''name'')), (''input'', JStr (extractCustomInput E (mget fn ''arguments'')))]
          else
            [(''type'', JStr ''function_call''), (''id'', JStr (''fc_'' @ idSuffix)), (''call_id'', textOr (mget tc ''id'')),
             (''name'', textOr (mget fn ''name'')), (''arguments'', JStr (jsStringifyArguments E (mget fn ''arguments'')))]))
   | _ \<Rightarrow> None)"

definition arrOf :: "json \<Rightarrow> json list" where
  "arrOf v = (case v of JArr a \<Rightarrow> a | _ \<Rightarrow> [])"

definition messageReasoning :: "jmap \<Rightarrow> string" where
  "messageReasoning m =
     (if asStr (mget m ''reasoning_content'') \<noteq> [] then asStr (mget m ''reasoning_content'') else asStr (mget m ''reasoning''))"

definition responseOutput :: "chunk_env \<Rightarrow> string list \<Rightarrow> jmap \<Rightarrow> json list" where
  "responseOutput E customToolNames message =
     (let reasoning = messageReasoning message; t = asStr (mget message ''content'') in
      (if reasoning \<noteq> [] then [JObj [(''type'', JStr ''reasoning''),
          (''summary'', JArr [JObj [(''type'', JStr ''summary_text''), (''text'', JStr reasoning)]])]] else []) @
      (if t \<noteq> [] then [JObj [(''type'', JStr ''message''), (''role'', JStr ''assistant''),
          (''content'', JArr [JObj [(''type'', JStr ''output_text''), (''text'', JStr t), (''annotations'', JArr [])]])]] else []) @
      List.map_filter (responseCall E customToolNames) (arrOf (mget message ''tool_calls'')))"

definition responseId :: "chunk_env \<Rightarrow> json \<Rightarrow> string" where
  "responseId E v =
     (let i = ''resp_'' @ (if rTruthy v then JSStr (ce_num E) v else []) in
      if hasPrefix i ''resp_chatcmpl-'' then ''resp_'' @ drop (length ''resp_chatcmpl-'') i else i)"

definition ChatCompletionToResponses :: "chunk_env \<Rightarrow> int \<Rightarrow> jmap \<Rightarrow> string list \<Rightarrow> jmap" where
  "ChatCompletionToResponses E ms responseBody customToolNames = (case firstOf (mget responseBody ''choices'') of
     JObj choice \<Rightarrow>
       let message = (case mget choice ''message'' of JObj m \<Rightarrow> m | _ \<Rightarrow> []);
           u = (case mget responseBody ''usage'' of JObj x \<Rightarrow> x | _ \<Rightarrow> [])
       in [(''id'', JStr (responseId E (mget responseBody ''id''))), (''object'', JStr ''response''),
           (''created_at'', jsOrT (mget responseBody ''created'') (jint (ms sdiv 1000))),
           (''model'', jsOrT (mget responseBody ''model'') (JStr ''unknown'')), (''status'', JStr ''completed''),
           (''background'', JBool False), (''error'', JNull), (''output'', JArr (responseOutput E customToolNames message)),
           (''usage'', JObj [(''input_tokens'', JNum (numOr [mget u ''prompt_tokens'', mget u ''input_tokens''])),
             (''output_tokens'', JNum (numOr [mget u ''completion_tokens'', mget u ''output_tokens''])),
             (''total_tokens'', JNum (numOr [mget u ''total_tokens'',
                JNum (f_add (ce_num E) (numOr [mget u ''prompt_tokens'']) (numOr [mget u ''completion_tokens'']))]))])]
   | _ \<Rightarrow> responseBody)"

definition jsKeyStr :: "chunk_env \<Rightarrow> jmap \<Rightarrow> string \<Rightarrow> string" where
  "jsKeyStr E m key = (case gm_get m key of None \<Rightarrow> ''undefined'' | Some v \<Rightarrow> JSStr (ce_num E) v)"

fun firstText :: "(jmap \<Rightarrow> bool) \<Rightarrow> json list \<Rightarrow> string option" where
  "firstText P [] = None"
| "firstText P (x # xs) = (case x of
     JObj c \<Rightarrow> if P c then (case mget c ''text'' of JStr s \<Rightarrow> Some s | _ \<Rightarrow> firstText P xs) else firstText P xs
   | _ \<Rightarrow> firstText P xs)"

definition textFromResponsesMessageItem :: "jmap \<Rightarrow> string" where
  "textFromResponsesMessageItem item = (case mget item ''content'' of
     JArr content \<Rightarrow> (case firstText (\<lambda>c. asStr (mget c ''type'') = ''output_text'') content of
       Some s \<Rightarrow> s
     | None \<Rightarrow> (case firstText (\<lambda>_. True) content of Some s \<Rightarrow> s | None \<Rightarrow> []))
   | _ \<Rightarrow> [])"

definition messageItems :: "json list \<Rightarrow> jmap list" where
  "messageItems output = List.map_filter (\<lambda>item. case item of
     JObj o1 \<Rightarrow> if asStr (mget o1 ''type'') = ''message'' then Some o1 else None | _ \<Rightarrow> None) output"

definition pickAssistantMessage :: "json list \<Rightarrow> jmap option \<times> string" where
  "pickAssistantMessage output =
     (let messages = messageItems output in
      if messages = [] then (None, [])
      else case find (\<lambda>m. textFromResponsesMessageItem m \<noteq> []) (rev messages) of
        Some m \<Rightarrow> (Some m, textFromResponsesMessageItem m)
      | None \<Rightarrow> (Some (last messages), textFromResponsesMessageItem (last messages)))"

fun chatCalls :: "chunk_env \<Rightarrow> int \<Rightarrow> int \<Rightarrow> json list \<Rightarrow> json list" where
  "chatCalls E ms idx [] = []"
| "chatCalls E ms idx (item # items) = (case item of
     JObj o1 \<Rightarrow>
       if asStr (mget o1 ''type'') \<noteq> ''function_call'' then chatCalls E ms idx items
       else
         let i = (if rTruthy (mget o1 ''call_id'') then mget o1 ''call_id''
               else JStr (''call_'' @ jsKeyStr E o1 ''name'' @ ''_'' @ itoa ms @ ''_'' @ itoa idx));
             args = [(''arguments'', JStr (jsStringifyArguments E (mget o1 ''arguments'')))];
             fnObj = (case gm_get o1 ''name'' of None \<Rightarrow> args | Some v \<Rightarrow> args @ [(''name'', v)])
         in JObj [(''id'', i), (''type'', JStr ''function''), (''function'', JObj fnObj)] # chatCalls E ms (idx + 1) items
   | _ \<Rightarrow> chatCalls E ms idx items)"

definition chatUsage :: "chunk_env \<Rightarrow> jmap \<Rightarrow> jmap" where
  "chatUsage E u =
     (let N = ce_num E;
          cacheRead = numOr [mget u ''cache_read_input_tokens'', mget u ''cached_tokens''];
          cacheCreate = numOr [mget u ''cache_creation_input_tokens''];
          inTokens = f_add N (f_add N (numOr [mget u ''input_tokens'']) cacheRead) cacheCreate;
          outTokens = numOr [mget u ''output_tokens''];
          c0 = [(''prompt_tokens'', JNum inTokens), (''completion_tokens'', JNum outTokens), (''total_tokens'', JNum (f_add N inTokens outTokens))];
          d1 = (if f_lt (Fin 0) cacheRead then [(''cached_tokens'', JNum cacheRead)] else []);
          d2 = (if f_lt (Fin 0) cacheCreate then d1 @ [(''cache_creation_tokens'', JNum cacheCreate)] else d1)
      in if f_lt (Fin 0) cacheRead \<or> f_lt (Fin 0) cacheCreate then c0 @ [(''prompt_tokens_details'', JObj d2)] else c0)"

definition chatMessage :: "string \<Rightarrow> json list \<Rightarrow> jmap" where
  "chatMessage t calls =
     (let m = [(''role'', JStr ''assistant''),
          (''content'', if t \<noteq> [] then JStr t else if calls \<noteq> [] then JNull else JStr [])]
      in if calls \<noteq> [] then m @ [(''tool_calls'', JArr calls)] else m)"

definition BuildChatFromResponses :: "chunk_env \<Rightarrow> int \<Rightarrow> jmap \<Rightarrow> string \<Rightarrow> (jmap \<Rightarrow> usage) \<Rightarrow> jmap" where
  "BuildChatFromResponses E ms jr model synthesize =
     (let output = arrOf (mget jr ''output'');
          textContent = snd (pickAssistantMessage output);
          calls = chatCalls E ms 0 output;
          status = asStr (mget jr ''status'');
          responseDone = (status = ''completed'' \<or> status = ''done'');
          finishReason = (if calls \<noteq> [] then JStr ''tool_calls''
             else if \<not> responseDone \<and> rTruthy (mget jr ''status'') then mget jr ''status'' else JStr ''stop'');
          u = (case mget jr ''usage'' of JObj x \<Rightarrow> x | _ \<Rightarrow> [])
      in [(''id'', jsOrT (mget jr ''id'') (JStr (''chatcmpl-'' @ itoa ms))), (''object'', JStr ''chat.completion''),
          (''created'', jsOrT (mget jr ''created_at'') (jint (ms sdiv 1000))), (''model'', jsOrT (mget jr ''model'') (JStr model)),
          (''choices'', JArr [JObj [(''index'', jint 0), (''message'', JObj (chatMessage textContent calls)), (''finish_reason'', finishReason)]]),
          (''usage'', usageJson (synthesize (chatUsage E u)))])"

definition stripMessage :: "json \<Rightarrow> json" where
  "stripMessage m = (case m of
     JObj message \<Rightarrow>
       if asStr (mget message ''reasoning_content'') \<noteq> [] \<and> asStr (mget message ''content'') \<noteq> []
       then JObj (gm_del ''reasoning_content'' message) else m
   | _ \<Rightarrow> m)"

definition stripChoice :: "json \<Rightarrow> json" where
  "stripChoice c = (case c of
     JObj choice \<Rightarrow> if has choice ''message'' then JObj (gm_set ''message'' (stripMessage (mget choice ''message'')) choice) else c
   | _ \<Rightarrow> c)"

definition StripRedundantReasoning :: "jmap \<Rightarrow> jmap" where
  "StripRedundantReasoning body = (case mget body ''choices'' of
     JArr cs \<Rightarrow> gm_set ''choices'' (JArr (map stripChoice cs)) body
   | _ \<Rightarrow> body)"

end
