(* ===== verification/NonStreamProps.thy ===== *)
theory NonStreamProps
  imports NonStream
begin

text \<open>
  The aggregates of \<^verbatim>\<open>nonstream.go\<close>: fragments are assembled by index, the output is bounded whatever the
  upstream sends, and a chat completion survives the way through the Responses form and back.
\<close>

section \<open>Tool calls from fragments\<close>

definition toolFragments :: "json list \<Rightarrow> jmap list" where
  "toolFragments cs = List.map_filter asObj (concat (map (\<lambda>c. case c of
     JObj ch \<Rightarrow> fragments (Get (firstOf (mget ch ''choices'')) ''delta'') | _ \<Rightarrow> []) cs))"

definition callAt :: "(int, agg_call) gomap \<Rightarrow> int \<Rightarrow> agg_call" where
  "callAt calls i = (case gm_get calls i of Some a \<Rightarrow> a | None \<Rightarrow> \<lparr>ac_id = JStr [], ac_name = [], ac_args = []\<rparr>)"

definition piecesAt :: "chunk_env \<Rightarrow> string \<Rightarrow> int \<Rightarrow> jmap list \<Rightarrow> string" where
  "piecesAt E k i frs = concat (map (\<lambda>tc. fragText E tc k) (filter (\<lambda>tc. fragIndex E tc = i) frs))"

lemma addFragment_at:
  "callAt (addFragment E (JObj tc) calls) i =
     (if i = fragIndex E tc then
        \<lparr>ac_id = (if rTruthy (mget tc ''id'') then mget tc ''id'' else ac_id (callAt calls i)),
         ac_name = ac_name (callAt calls i) @ fragText E tc ''name'', ac_args = ac_args (callAt calls i) @ fragText E tc ''arguments''\<rparr>
      else callAt calls i)"
  by (simp add: callAt_def addFragment_def Let_def gm_get_set)

lemma addFragment_keys:
  "distinct (map fst calls) \<Longrightarrow> distinct (map fst (addFragment E (JObj tc) calls)) \<and>
     fst ` set (addFragment E (JObj tc) calls) = insert (fragIndex E tc) (fst ` set calls)"
  by (auto simp: addFragment_def Let_def distinct_update dom_update)

lemma fold_fragments:
  "distinct (map fst calls) \<Longrightarrow>
     distinct (map fst (fold (addFragment E) frs calls)) \<and>
     fst ` set (fold (addFragment E) frs calls) = fst ` set calls \<union> fragIndex E ` set (List.map_filter asObj frs) \<and>
     ac_args (callAt (fold (addFragment E) frs calls) i) = ac_args (callAt calls i) @ piecesAt E ''arguments'' i (List.map_filter asObj frs) \<and>
     ac_name (callAt (fold (addFragment E) frs calls) i) = ac_name (callAt calls i) @ piecesAt E ''name'' i (List.map_filter asObj frs)"
proof (induction frs arbitrary: calls)
  case (Cons f frs)
  show ?case
  proof (cases f)
    case (JObj tc)
    then have a: "asObj f = Some tc" by (simp add: asObj_def)
    from Cons.IH [of "addFragment E f calls"] Cons.prems addFragment_keys [of calls E tc] a JObj show ?thesis
      by (auto simp: map_filter_simps addFragment_at piecesAt_def)
  qed (use Cons in \<open>simp_all add: map_filter_simps addFragment_def asObj_def\<close>)
qed (simp add: map_filter_simps piecesAt_def)

lemma piecesAt_append: "piecesAt E k i (a @ b) = piecesAt E k i a @ piecesAt E k i b"
  by (simp add: piecesAt_def)

lemma toolFragments_Cons: "toolFragments (c # cs) = List.map_filter asObj (case c of
     JObj ch \<Rightarrow> fragments (Get (firstOf (mget ch ''choices'')) ''delta'') | _ \<Rightarrow> []) @ toolFragments cs"
  by (simp add: toolFragments_def map_filter_append)

lemma fold_chunks:
  "distinct (map fst (ag_calls g)) \<Longrightarrow>
     distinct (map fst (ag_calls (fold (foldChunk E) cs g))) \<and>
     fst ` set (ag_calls (fold (foldChunk E) cs g)) = fst ` set (ag_calls g) \<union> fragIndex E ` set (toolFragments cs) \<and>
     ac_args (callAt (ag_calls (fold (foldChunk E) cs g)) i) = ac_args (callAt (ag_calls g) i) @ piecesAt E ''arguments'' i (toolFragments cs) \<and>
     ac_name (callAt (ag_calls (fold (foldChunk E) cs g)) i) = ac_name (callAt (ag_calls g) i) @ piecesAt E ''name'' i (toolFragments cs)"
proof (induction cs arbitrary: g)
  case (Cons c cs)
  show ?case
  proof (cases c)
    case (JObj ch)
    let ?f = "fragments (Get (firstOf (mget ch ''choices'')) ''delta'')"
    have a: "ag_calls (foldChunk E (JObj ch) g) = fold (addFragment E) ?f (ag_calls g)" by (simp add: foldChunk_def Let_def)
    from Cons.IH [of "foldChunk E c g"] fold_fragments [OF Cons.prems, of E ?f i] show ?thesis
      by (auto simp: a toolFragments_Cons JObj piecesAt_append)
  qed (use Cons in \<open>simp_all add: foldChunk_def toolFragments_Cons map_filter_simps\<close>)
qed (simp add: toolFragments_def map_filter_simps piecesAt_def)

text \<open>
  C25. A folded chat stream has one tool call per index that any fragment named, in ascending order of index,
  and the name and arguments of each are the concatenation of its fragments in the order they came, however
  the fragments of different calls were interleaved.
\<close>

theorem tool_calls_assembled:
  "let g = fold (foldChunk E) cs emptyAgg; ks = sortedKeys (ag_calls g) in
     sorted ks \<and> distinct ks \<and> set ks = fragIndex E ` set (toolFragments cs) \<and>
     aggCalls g = map (\<lambda>i. callOf (callAt (ag_calls g) i)) ks \<and>
     list_all (\<lambda>i. ac_args (callAt (ag_calls g) i) = piecesAt E ''arguments'' i (toolFragments cs) \<and>
       ac_name (callAt (ag_calls g) i) = piecesAt E ''name'' i (toolFragments cs)) ks"
proof -
  define g where "g = fold (foldChunk E) cs emptyAgg"
  have k: "distinct (map fst (ag_calls g))" "fst ` set (ag_calls g) = fragIndex E ` set (toolFragments cs)"
      "\<And>i. ac_args (callAt (ag_calls g) i) = piecesAt E ''arguments'' i (toolFragments cs)"
      "\<And>i. ac_name (callAt (ag_calls g) i) = piecesAt E ''name'' i (toolFragments cs)"
    using fold_chunks [of emptyAgg E cs] by (auto simp: g_def emptyAgg_def callAt_def)
  have at: "the (gm_get (ag_calls g) i) = callAt (ag_calls g) i" if "i \<in> fst ` set (ag_calls g)" for i
    using that by (auto simp: callAt_def split: option.split) (metis map_of_eq_None_iff option.distinct(1) image_eqI fst_conv)
  show ?thesis unfolding g_def [symmetric] Let_def
    using k at by (auto simp: sortedKeys_def list_all_iff aggCalls_def)
qed

section \<open>A bounded response\<close>

text \<open>What \<^verbatim>\<open>encoding/json\<close> promises of the one number the aggregate indexes by: it is a number.\<close>

definition index_is_number :: "codec \<Rightarrow> bool" where
  "index_is_number co \<longleftrightarrow> (\<forall>s m. co_decode co s = Some (JObj m) \<longrightarrow> mget m ''output_index'' \<noteq> JNum NaN)"

definition slots_ok :: "resp_agg \<Rightarrow> bool" where
  "slots_ok st \<longleftrightarrow> list_all (\<lambda>(k, _). 0 \<le> k \<and> k \<le> MaxResponsesOutputIndex) (ra_items st)"

lemma put_ok: "slots_ok st \<Longrightarrow> 0 \<le> k \<Longrightarrow> k \<le> MaxResponsesOutputIndex \<Longrightarrow> slots_ok (st\<lparr>ra_items := gm_set k v (ra_items st)\<rparr>)"
proof -
  assume a: "slots_ok st" "0 \<le> k" "k \<le> MaxResponsesOutputIndex"
  have "set (gm_set k v m) \<subseteq> insert (k, v) (set m)" for m :: "(int, jmap) gomap" by (induction m) auto
  with a show ?thesis by (fastforce simp: slots_ok_def list_all_iff)
qed

lemma in_range_index:
  assumes "v \<noteq> NaN" and "\<not> (f_lt v (Fin 0) \<or> f_lt (Fin (of_int MaxResponsesOutputIndex)) v)"
  shows "0 \<le> toInt64 E v \<and> toInt64 E v \<le> MaxResponsesOutputIndex"
proof (cases v)
  case (Fin q)
  then have q: "0 \<le> q" "q \<le> of_int MaxResponsesOutputIndex" using assms(2) by auto
  then have f: "0 \<le> \<lfloor>q\<rfloor>" "\<lfloor>q\<rfloor> \<le> MaxResponsesOutputIndex" by (simp_all add: floor_le_iff)
  then have "in64 \<lfloor>q\<rfloor>" by (simp add: in64_def MaxResponsesOutputIndex_def)
  with q f Fin show ?thesis by (simp add: toInt64_def)
qed (use assms in auto)

lemma item_ok:
  assumes "slots_ok st" and "mget parsed ''output_index'' \<noteq> JNum NaN"
  shows "slots_ok (onAggItem E parsed st)"
proof -
  have put: "slots_ok (case mget parsed ''item'' of JObj item \<Rightarrow> st\<lparr>ra_items := gm_set k item (ra_items st)\<rparr> | _ \<Rightarrow> st)"
    if "0 \<le> k" "k \<le> MaxResponsesOutputIndex" for k
    using put_ok [OF assms(1) that] assms(1) by (simp split: json.split)
  have z: "0 \<le> MaxResponsesOutputIndex" by (simp add: MaxResponsesOutputIndex_def)
  show ?thesis
  proof (cases "mget parsed ''output_index''")
    case (JNum v)
    then show ?thesis using put in_range_index [of v E] assms by (simp add: onAggItem_def Let_def)
  qed (use put [of 0] z in \<open>simp_all add: onAggItem_def Let_def\<close>)
qed

lemma other_ok:
  "slots_ok st \<Longrightarrow> slots_ok (onAggCreated p st)" "slots_ok st \<Longrightarrow> slots_ok (onAggCompleted p st)"
  "slots_ok st \<Longrightarrow> slots_ok (st\<lparr>ra_status := t\<rparr>)"
  by (simp_all add: slots_ok_def onAggCreated_def onAggCompleted_def Let_def)

lemma message_ok:
  assumes "index_is_number (ce_codec E)" and "slots_ok st"
  shows "slots_ok (processAggMessage E msg st)"
proof -
  have pick: "slots_ok a \<Longrightarrow> slots_ok b \<Longrightarrow> slots_ok (if c then a else b)" for a b c by simp
  show ?thesis
  proof (cases "decodeMap (co_decode (ce_codec E)) (matchSSEField msg ''data'')")
    case None
    show ?thesis unfolding processAggMessage_def Let_def None option.case by (intro pick assms(2))
  next
    case (Some p)
    then have n: "mget p ''output_index'' \<noteq> JNum NaN"
      using assms(1) by (auto simp: decodeMap_def index_is_number_def mget_def split: option.splits json.splits)
    show ?thesis unfolding processAggMessage_def Let_def Some option.case
      by (intro pick assms(2) item_ok n other_ok)
  qed
qed

lemma messages_ok: "index_is_number (ce_codec E) \<Longrightarrow> slots_ok st \<Longrightarrow> slots_ok (fold (processAggMessage E) msgs st)"
proof (induction msgs arbitrary: st)
  case (Cons m msgs)
  show ?case unfolding fold_simps by (rule Cons.IH [OF Cons.prems(1) message_ok [OF Cons.prems]])
qed simp

lemma agg_ok: "index_is_number (ce_codec E) \<Longrightarrow> slots_ok (aggResponses E ms raw)"
  unfolding aggResponses_def by (rule messages_ok) (simp_all add: slots_ok_def emptyRespAgg_def)

lemma max_bound:
  "list_all (\<lambda>(k, _). 0 \<le> k \<and> k \<le> b) items \<Longrightarrow> mx \<le> b \<Longrightarrow> fold (\<lambda>(k, _) mx. if k > mx then k else mx) items mx \<le> (b :: int)"
proof (induction items arbitrary: mx)
  case (Cons p items)
  obtain k v where p: "p = (k, v)" by force
  have "(if k > mx then k else mx) \<le> b" using Cons.prems p by simp
  from Cons.IH [OF _ this] Cons.prems show ?case by (simp add: p)
qed simp

lemma dense_bound:
  assumes "slots_ok st"
  shows "int (length (denseOutput (ra_items st))) \<le> MaxResponsesOutputIndex + 1"
  using max_bound [OF assms [unfolded slots_ok_def], of "-1"]
  by (simp add: denseOutput_def Let_def MaxResponsesOutputIndex_def)

text \<open>
  The memory of a folded Responses answer is bounded: whatever output indices the upstream names, and
  however large, the output never has more than 4097 slots.
\<close>

theorem folded_output_bounded:
  assumes "index_is_number (ce_codec E)"
  shows "\<exists>out. mget (ConvertResponsesStreamToJson E ms ns raw) ''output'' = JArr out \<and> length out \<le> 4097"
  using dense_bound [OF agg_ok [OF assms], of ms raw]
  by (simp add: ConvertResponsesStreamToJson_def Let_def mget_def MaxResponsesOutputIndex_def)

definition plain_env :: chunk_env where
  "plain_env = \<lparr>ce_num = \<lparr>ne_round = Fin, ne_parse = (\<lambda>_. (NaN, None)), ne_format_f = (\<lambda>_. []), ne_format_g = (\<lambda>_. [])\<rparr>,
     ce_codec = \<lparr>co_encode = (\<lambda>_. Some ''{}''), co_decode = (\<lambda>s. if s = ''I'' then Some (JObj [(''output_index'', jint 2), (''item'', JObj [])]) else None),
       co_valid = (\<lambda>_. True), co_sprint = (\<lambda>_. [])\<rparr>,
     ce_stringify = (\<lambda>_. None), ce_int64 = (\<lambda>_. 0)\<rparr>"

theorem folded_output_bounded_witness:
  "\<exists>out. mget (ConvertResponsesStreamToJson plain_env 5 5 (''event:response.output_item.done'' @ newline @ ''data:I'')) ''output'' = JArr out \<and> length out \<le> 4097"
proof (rule folded_output_bounded)
  show "index_is_number (ce_codec plain_env)" by (simp add: index_is_number_def plain_env_def mget_def)
qed

section \<open>There and back\<close>

definition finishOf :: "jmap \<Rightarrow> json" where
  "finishOf body = Get (firstOf (mget body ''choices'')) ''finish_reason''"

definition callParts :: "json \<Rightarrow> string \<times> string \<times> string" where
  "callParts v = (asStr (Get v ''id''), asStr (Get (Get v ''function'') ''name''), asStr (Get (Get v ''function'') ''arguments''))"

definition goodCall :: "json \<Rightarrow> bool" where
  "goodCall v = (case v of
     JObj tc \<Rightarrow> (case mget tc ''function'' of
         JObj fn \<Rightarrow> asStr (mget tc ''id'') \<noteq> [] \<and> asStr (mget fn ''name'') \<noteq> [] \<and> (case mget fn ''arguments'' of JStr _ \<Rightarrow> True | _ \<Rightarrow> False)
       | _ \<Rightarrow> False)
   | _ \<Rightarrow> False)"

definition replyOf :: "jmap \<Rightarrow> json" where
  "replyOf body = Get (firstOf (mget body ''choices'')) ''message''"

definition replyText :: "jmap \<Rightarrow> string" where
  "replyText body = asStr (Get (replyOf body) ''content'')"

definition replyCalls :: "jmap \<Rightarrow> json list" where
  "replyCalls body = arrOf (Get (replyOf body) ''tool_calls'')"

lemma arrOf_JArr: "arrOf (JArr a) = a"
  by (simp add: arrOf_def)

lemma asStr_JStr: "asStr (JStr t) = t" "asStr JNull = []"
  by (simp_all add: asStr_def)

lemma asStr_ne: "asStr v \<noteq> [] \<longleftrightarrow> (\<exists>s. v = JStr s \<and> s \<noteq> [])"
  by (cases v) (simp_all add: asStr_def)

definition callItemOf :: "json \<Rightarrow> json" where
  "callItemOf v = (case callParts v of (i, n, a) \<Rightarrow> JObj [(''type'', JStr ''function_call''), (''id'', JStr (''fc_'' @ i)),
     (''call_id'', JStr i), (''name'', JStr n), (''arguments'', JStr a)])"

lemma goodCallE:
  assumes "goodCall v"
  obtains tc fn i n a where "v = JObj tc" "mget tc ''function'' = JObj fn" "mget tc ''id'' = JStr i" "i \<noteq> []"
    "mget fn ''name'' = JStr n" "n \<noteq> []" "mget fn ''arguments'' = JStr a"
  using assms by (auto simp: goodCall_def asStr_ne split: json.splits)

lemma goodCall_parts:
  "mget tc ''function'' = JObj fn \<Longrightarrow> mget tc ''id'' = JStr i \<Longrightarrow> mget fn ''name'' = JStr n \<Longrightarrow> mget fn ''arguments'' = JStr a \<Longrightarrow>
     callParts (JObj tc) = (i, n, a)"
  by (simp add: callParts_def Get_def asStr_def)

text \<open>A call to a tool the client declared as custom becomes an item of its own kind.\<close>

definition customCall :: "string list \<Rightarrow> json \<Rightarrow> bool" where
  "customCall customs v \<longleftrightarrow> (case callParts v of (_, n, _) \<Rightarrow> n \<in> set customs)"

definition customItemOf :: "chunk_env \<Rightarrow> json \<Rightarrow> json" where
  "customItemOf E v = (case callParts v of (i, n, a) \<Rightarrow> JObj [(''type'', JStr ''custom_tool_call''), (''id'', JStr (''ctc_'' @ i)),
     (''call_id'', JStr i), (''name'', JStr n), (''input'', JStr (extractCustomInput E (JStr a)))])"

definition itemOf :: "chunk_env \<Rightarrow> string list \<Rightarrow> json \<Rightarrow> json" where
  "itemOf E customs v = (if customCall customs v then customItemOf E v else callItemOf v)"

lemma responseCall_good: "goodCall v \<Longrightarrow> responseCall E customs v = Some (itemOf E customs v)"
proof (erule goodCallE)
  fix tc fn i n a
  assume v: "v = JObj tc" "mget tc ''function'' = JObj fn" "mget tc ''id'' = JStr i" "i \<noteq> []"
    "mget fn ''name'' = JStr n" "n \<noteq> []" "mget fn ''arguments'' = JStr a"
  then have "callParts v = (i, n, a)" by (simp add: goodCall_parts)
  then have "itemOf E customs v = (if n \<in> set customs
      then JObj [(''type'', JStr ''custom_tool_call''), (''id'', JStr (''ctc_'' @ i)),
        (''call_id'', JStr i), (''name'', JStr n), (''input'', JStr (extractCustomInput E (JStr a)))]
      else JObj [(''type'', JStr ''function_call''), (''id'', JStr (''fc_'' @ i)),
        (''call_id'', JStr i), (''name'', JStr n), (''arguments'', JStr a)])"
    by (simp add: itemOf_def customCall_def customItemOf_def callItemOf_def)
  with v show ?thesis
    by (simp add: responseCall_def Let_def textOr_def rTruthy_def jsStringifyArguments_def asStr_JStr(1))
qed

lemma calls_back:
  "list_all goodCall calls \<Longrightarrow> map callParts (chatCalls E ms idx (map callItemOf calls)) = map callParts calls \<and>
     (chatCalls E ms idx (map callItemOf calls) = [] \<longleftrightarrow> calls = [])"
proof (induction calls arbitrary: idx)
  case (Cons v calls)
  then have "goodCall v" by simp
  then obtain tc fn i n a where v: "v = JObj tc" "mget tc ''function'' = JObj fn" "mget tc ''id'' = JStr i" "i \<noteq> []"
    "mget fn ''name'' = JStr n" "n \<noteq> []" "mget fn ''arguments'' = JStr a" by (rule goodCallE)
  then have p: "callParts v = (i, n, a)" by (simp add: goodCall_parts)
  have "callItemOf v = JObj [(''type'', JStr ''function_call''), (''id'', JStr (''fc_'' @ i)),
     (''call_id'', JStr i), (''name'', JStr n), (''arguments'', JStr a)]" by (simp add: callItemOf_def p)
  with Cons v p show ?case
    by (simp add: mget_def rTruthy_def asStr_def jsStringifyArguments_def callParts_def Get_def Let_def)
qed simp

lemma map_filter_good: "list_all goodCall calls \<Longrightarrow> List.map_filter (responseCall E customs) calls = map (itemOf E customs) calls"
  by (induction calls) (simp_all add: map_filter_simps responseCall_good)

lemma item_fields: "\<exists>m. itemOf E customs v = JObj m \<and>
    asStr (mget m ''type'') = (if customCall customs v then ''custom_tool_call'' else ''function_call'')"
  by (simp add: itemOf_def callItemOf_def customItemOf_def mget_def asStr_def split: prod.split)

lemma no_message_calls: "messageItems (map (itemOf E customs) calls) = []"
proof (induction calls)
  case (Cons v calls)
  then show ?case using item_fields [of E customs v] by (auto simp: messageItems_def map_filter_simps split: if_splits)
qed (simp add: messageItems_def map_filter_simps)

lemma messageItems_append: "messageItems (a @ b) = messageItems a @ messageItems b"
  by (simp add: messageItems_def List.map_filter_def)

lemma chatCalls_skip: "(case x of JObj m \<Rightarrow> asStr (mget m ''type'') \<noteq> ''function_call'' | _ \<Rightarrow> True) \<Longrightarrow> chatCalls E ms idx (x # xs) = chatCalls E ms idx xs"
  by (cases x) simp_all

lemma calls_plain: "chatCalls E ms idx (map (itemOf E customs) calls) = chatCalls E ms idx (map callItemOf (filter (\<lambda>v. \<not> customCall customs v) calls))"
proof (induction calls arbitrary: idx)
  case (Cons v calls)
  show ?case
  proof (cases "customCall customs v")
    case True
    then have "case itemOf E customs v of JObj m \<Rightarrow> asStr (mget m ''type'') \<noteq> ''function_call'' | _ \<Rightarrow> True"
      using item_fields [of E customs v] by auto
    with Cons True show ?thesis by (simp add: chatCalls_skip del: chatCalls.simps(2))
  next
    case False
    obtain i n a where "callParts v = (i, n, a)" by (metis prod_cases3)
    then have "itemOf E customs v = callItemOf v" "\<exists>m. callItemOf v = JObj m" using False by (simp_all add: itemOf_def callItemOf_def)
    with Cons False show ?thesis by (auto simp: Let_def)
  qed
qed simp

text \<open>The custom items of a Responses body: their call, name and input.\<close>

definition customItems :: "json list \<Rightarrow> json list" where
  "customItems items = filter (\<lambda>it. asStr (Get it ''type'') = ''custom_tool_call'') items"

definition customParts :: "json \<Rightarrow> string \<times> string \<times> string" where
  "customParts it = (asStr (Get it ''call_id''), asStr (Get it ''name''), asStr (Get it ''input''))"

definition customOf :: "chunk_env \<Rightarrow> string \<times> string \<times> string \<Rightarrow> string \<times> string \<times> string" where
  "customOf E p = (case p of (i, n, a) \<Rightarrow> (i, n, extractCustomInput E (JStr a)))"

lemma calls_custom:
  "map customParts (customItems (map (itemOf E customs) calls)) = map (\<lambda>v. customOf E (callParts v)) (filter (customCall customs) calls)"
proof (induction calls)
  case (Cons v calls)
  obtain i n a where p: "callParts v = (i, n, a)" by (metis prod_cases3)
  have t: "asStr (Get (itemOf E customs v) ''type'') = ''custom_tool_call'' \<longleftrightarrow> customCall customs v"
    using item_fields [of E customs v] by (auto simp: Get_def split: if_splits)
  have "customParts (itemOf E customs v) = customOf E (callParts v)" if "customCall customs v"
    using that by (simp add: itemOf_def customItemOf_def customParts_def customOf_def p Get_def mget_Cons asStr_JStr)
  with Cons t show ?case by (simp add: customItems_def)
qed (simp add: customItems_def)

lemma output_back:
  assumes "list_all goodCall (arrOf (mget message ''tool_calls''))"
  shows "snd (pickAssistantMessage (responseOutput E customs message)) = asStr (mget message ''content'')"
    and "map callParts (chatCalls E ms 0 (responseOutput E customs message)) =
      map callParts (filter (\<lambda>v. \<not> customCall customs v) (arrOf (mget message ''tool_calls'')))"
    and "chatCalls E ms 0 (responseOutput E customs message) = [] \<longleftrightarrow> filter (\<lambda>v. \<not> customCall customs v) (arrOf (mget message ''tool_calls'')) = []"
    and "map customParts (customItems (responseOutput E customs message)) =
      map (\<lambda>v. customOf E (callParts v)) (filter (customCall customs) (arrOf (mget message ''tool_calls'')))"
proof -
  let ?calls = "arrOf (mget message ''tool_calls'')" and ?t = "asStr (mget message ''content'')"
  define rs where "rs = (if messageReasoning message \<noteq> [] then [JObj [(''type'', JStr ''reasoning''),
      (''summary'', JArr [JObj [(''type'', JStr ''summary_text''), (''text'', JStr (messageReasoning message))]])]] else [])"
  define mi where "mi = [(''type'', JStr ''message''), (''role'', JStr ''assistant''),
      (''content'', JArr [JObj [(''type'', JStr ''output_text''), (''text'', JStr ?t), (''annotations'', JArr [])]])]"
  have out: "responseOutput E customs message = rs @ (if ?t \<noteq> [] then [JObj mi] else []) @ map (itemOf E customs) ?calls"
    by (simp add: responseOutput_def Let_def rs_def mi_def map_filter_good [OF assms])
  have mr: "messageItems rs = []" "chatCalls E ms 0 (rs @ xs) = chatCalls E ms 0 xs" for xs
    by (simp_all add: rs_def messageItems_def map_filter_simps mget_def asStr_def)
  have mm: "messageItems [JObj mi] = [mi]" "chatCalls E ms 0 (JObj mi # xs) = chatCalls E ms 0 xs" for xs
    by (simp_all add: mi_def messageItems_def map_filter_simps mget_def asStr_def)
  have tx: "textFromResponsesMessageItem mi = ?t"
    by (simp add: mi_def textFromResponsesMessageItem_def mget_def asStr_def)
  have items: "messageItems (responseOutput E customs message) = (if ?t \<noteq> [] then [mi] else [])"
    by (simp add: out messageItems_append mr mm no_message_calls) (simp add: messageItems_def map_filter_simps)
  show "snd (pickAssistantMessage (responseOutput E customs message)) = ?t"
    by (simp add: pickAssistantMessage_def items Let_def tx)
  have ch: "chatCalls E ms 0 (responseOutput E customs message) = chatCalls E ms 0 (map callItemOf (filter (\<lambda>v. \<not> customCall customs v) ?calls))"
    by (simp add: out mr mm calls_plain del: chatCalls.simps(2))
  have g: "list_all goodCall (filter (\<lambda>v. \<not> customCall customs v) ?calls)" using assms by (simp add: list_all_iff)
  show "map callParts (chatCalls E ms 0 (responseOutput E customs message)) = map callParts (filter (\<lambda>v. \<not> customCall customs v) ?calls)"
    "chatCalls E ms 0 (responseOutput E customs message) = [] \<longleftrightarrow> filter (\<lambda>v. \<not> customCall customs v) ?calls = []"
    unfolding ch using calls_back [OF g] by auto
  have "customItems rs = []" "customItems [JObj mi] = []"
    by (simp_all add: rs_def mi_def customItems_def Get_def mget_Cons asStr_JStr)
  then have "customItems (responseOutput E customs message) = customItems (map (itemOf E customs) ?calls)"
    by (simp add: out customItems_def)
  then show "map customParts (customItems (responseOutput E customs message)) = map (\<lambda>v. customOf E (callParts v)) (filter (customCall customs) ?calls)"
    by (simp add: calls_custom)
qed

text \<open>
  C26. The two non-streaming conversions are inverse on what a client reads, up to the tools the client declared as
  custom: a chat completion whose tool calls carry an id, a name and textual arguments, turned into a Responses body and
  back, keeps the text of the reply and the id, name and arguments of every call to another tool, in order, and finishes
  with \<^verbatim>\<open>tool_calls\<close> exactly when it has such calls. A call to a custom tool is an item of its own in the Responses body,
  with the call's id and name and the input read off its arguments, all of these in order; it has no place in a chat body
  and does not come back.
\<close>

theorem nonstream_round_trip:
  assumes "firstOf (mget body ''choices'') = JObj choice" and "mget choice ''message'' = JObj message"
    and "list_all goodCall (arrOf (mget message ''tool_calls''))"
  shows "let r = ChatCompletionToResponses E ms body customs; back = BuildChatFromResponses E ms r model syn;
      plain = filter (\<lambda>v. \<not> customCall customs v) (replyCalls body) in
     replyText back = replyText body \<and> map callParts (replyCalls back) = map callParts plain \<and>
     finishOf back = JStr (if plain \<noteq> [] then ''tool_calls'' else ''stop'') \<and>
     map customParts (customItems (arrOf (mget r ''output''))) =
       map (\<lambda>v. customOf E (callParts v)) (filter (customCall customs) (replyCalls body))"
proof -
  define r where "r = ChatCompletionToResponses E ms body customs"
  have r: "arrOf (mget r ''output'') = responseOutput E customs message" "asStr (mget r ''status'') = ''completed''"
    by (simp_all add: r_def ChatCompletionToResponses_def assms(1,2) Let_def mget_Cons arrOf_def asStr_def)
  define calls where "calls = chatCalls E ms 0 (responseOutput E customs message)"
  note parts = output_back(1) [OF assms(3), of E customs] output_back(2,3) [OF assms(3), of E ms customs, folded calls_def]
  have body: "replyText body = asStr (mget message ''content'')" "replyCalls body = arrOf (mget message ''tool_calls'')"
    using assms(1,2) by (simp_all add: replyText_def replyCalls_def replyOf_def Get_def)
  have b: "firstOf (mget (BuildChatFromResponses E ms r model syn) ''choices'') =
      JObj [(''index'', jint 0), (''message'', JObj (chatMessage (asStr (mget message ''content'')) calls)),
        (''finish_reason'', JStr (if calls \<noteq> [] then ''tool_calls'' else ''stop''))]"
    by (simp add: BuildChatFromResponses_def Let_def r calls_def [symmetric] parts(1) mget_Cons firstOf_def)
  have fin: "finishOf (BuildChatFromResponses E ms r model syn) = JStr (if calls \<noteq> [] then ''tool_calls'' else ''stop'')"
    by (simp add: finishOf_def b Get_def mget_Cons)
  have rep: "replyOf (BuildChatFromResponses E ms r model syn) = JObj (chatMessage (asStr (mget message ''content'')) calls)"
    by (simp add: replyOf_def b Get_def mget_Cons)
  have rc: "replyCalls (BuildChatFromResponses E ms r model syn) = calls"
    by (cases "calls = []") (simp_all add: replyCalls_def rep chatMessage_def Get_def mget_Cons arrOf_JArr, simp add: mget_def arrOf_def)
  have rt: "replyText (BuildChatFromResponses E ms r model syn) = asStr (mget message ''content'')"
    by (simp add: replyText_def rep chatMessage_def Get_def mget_Cons asStr_JStr)
  have cs: "map callParts calls = map callParts (filter (\<lambda>v. \<not> customCall customs v) (replyCalls body))"
    "calls = [] \<longleftrightarrow> filter (\<lambda>v. \<not> customCall customs v) (replyCalls body) = []"
    using output_back(2,3) [OF assms(3), of E ms customs] by (simp_all add: calls_def body)
  show ?thesis unfolding Let_def r_def [symmetric] using cs fin output_back(4) [OF assms(3), of E customs] by (simp add: rc rt body r(1))
qed

theorem nonstream_round_trip_witness:
  "map callParts (replyCalls (BuildChatFromResponses plain_env 0 (ChatCompletionToResponses plain_env 0
       [(''choices'', JArr [JObj [(''message'', JObj [(''content'', JStr ''hi''), (''tool_calls'', JArr [JObj [(''id'', JStr ''c1''),
          (''function'', JObj [(''name'', JStr ''f''), (''arguments'', JStr ''{}'')])], JObj [(''id'', JStr ''c2''),
          (''function'', JObj [(''name'', JStr ''g''), (''arguments'', JStr ''{}'')])]])])]])] [''g'']) ''m'' (\<lambda>_. None))) = [(''c1'', ''f'', ''{}'')]"
  (is "map callParts (replyCalls (BuildChatFromResponses _ _ (ChatCompletionToResponses _ _ ?body _) _ _)) = _")
proof -
  let ?calls = "[JObj [(''id'', JStr ''c1''), (''function'', JObj [(''name'', JStr ''f''), (''arguments'', JStr ''{}'')])],
      JObj [(''id'', JStr ''c2''), (''function'', JObj [(''name'', JStr ''g''), (''arguments'', JStr ''{}'')])]]"
  have "firstOf (mget ?body ''choices'') = JObj [(''message'', JObj [(''content'', JStr ''hi''), (''tool_calls'', JArr ?calls)])]"
    by (simp add: mget_Cons firstOf_def)
  from nonstream_round_trip [OF this, of "[(''content'', JStr ''hi''), (''tool_calls'', JArr ?calls)]" plain_env 0 "[''g'']" "''m''" "\<lambda>_. None"]
  show ?thesis
    by (simp add: Let_def mget_Cons arrOf_def goodCall_def asStr_def replyCalls_def [of ?body] replyOf_def [of ?body] firstOf_def Get_def
      customCall_def callParts_def)
qed

end
