(* ===== verification/Forced.thy ===== *)
theory Forced
  imports StreamDrive NonStreamProps
begin

text \<open>
  The non-streaming half of the router (\<^verbatim>\<open>internal/router/forced.go\<close>): the bounded read of an event stream and
  its conversion to one JSON reply. The reader goroutine, the stall timer and the request context reach the
  loop as a list of arrivals, in the order the \<^verbatim>\<open>select\<close> takes them.
\<close>

section \<open>The bounded read\<close>

definition MaxForcedSSEBytes :: nat where
  "MaxForcedSSEBytes = 67108864"

datatype arrival = Arrived string "read_end option" | TimerFired | ContextDone

datatype forced_err = ForcedStall | ForcedTooLarge | ForcedContext | ForcedRead string

text \<open>\<open>None\<close>: the loop still waits after the arrivals.\<close>

fun readBounded :: "nat \<Rightarrow> string \<Rightarrow> arrival list \<Rightarrow> (forced_err + string) option" where
  "readBounded maxBytes out [] = None"
| "readBounded maxBytes out (TimerFired # as) = Some (Inl ForcedStall)"
| "readBounded maxBytes out (ContextDone # as) = Some (Inl ForcedContext)"
| "readBounded maxBytes out (Arrived d e # as) =
     (if d \<noteq> [] \<and> length out + length d > maxBytes then Some (Inl ForcedTooLarge)
      else (case e of
          Some EOF \<Rightarrow> Some (Inr (out @ d))
        | Some (Broken x) \<Rightarrow> Some (Inl (ForcedRead x))
        | None \<Rightarrow> readBounded maxBytes (out @ d) as))"

definition readBoundedSSE :: "arrival list \<Rightarrow> (forced_err + string) option" where
  "readBoundedSSE arrivals = readBounded MaxForcedSSEBytes [] arrivals"

definition forcedAbortReason :: "bool \<Rightarrow> (forced_err \<Rightarrow> bool) \<Rightarrow> forced_err \<Rightarrow> origin \<Rightarrow> origin \<times> string" where
  "forcedAbortReason ctxDead isCanceled err delivered =
     (if err = ForcedStall then (delivered, ''stall'')
      else if err = ForcedTooLarge then (delivered, ''too_large'')
      else if ctxDead \<or> isCanceled err then (OriginClient, ''cancel'')
      else (delivered, ''read''))"

definition forcedUpstreamIsSSE :: "string \<Rightarrow> bool" where
  "forcedUpstreamIsSSE contentType = contains contentType ''text/event-stream''"

section \<open>The conversion\<close>

record forced_env =
  fe_chunk :: chunk_env
  fe_lower :: "string \<Rightarrow> string"
  fe_ctxDead :: bool
  fe_isCanceled :: "forced_err \<Rightarrow> bool"
  fe_delivered :: origin
  fe_milli :: "nat \<Rightarrow> int"
  fe_nano :: int

record forced_req =
  fr_source :: format
  fr_target :: format
  fr_model :: string
  fr_upstreamModel :: string
  fr_customTools :: "string list"
  fr_body :: jmap
  fr_intent :: "thinking_cfg option"

text \<open>\<^verbatim>\<open>nonstreamSynthesize\<close> of \<^verbatim>\<open>handler.go\<close>\<close>

definition nonstreamSynthesize :: "forced_env \<Rightarrow> forced_req \<Rightarrow> usage \<Rightarrow> usage" where
  "nonstreamSynthesize env rq u =
     (let s = ResolveSynthesis (ce_num (fe_chunk env)) (fe_lower env) (fr_body rq) (fr_upstreamModel rq) (fr_intent rq) in
      if \<not> sy_enabled s \<or> u = None then u
      else SynthesizeThinking (ce_num (fe_chunk env)) u (fr_source rq) (sy_ratio s))"

definition synthesizeFinal :: "(usage \<Rightarrow> usage) \<Rightarrow> jmap \<Rightarrow> jmap" where
  "synthesizeFinal synth body = (case mget body ''usage'' of
     JObj u \<Rightarrow> gm_set ''usage'' (usageJson (synth (Some u))) body
   | _ \<Rightarrow> body)"

definition forcedResponses :: "forced_env \<Rightarrow> forced_req \<Rightarrow> string \<Rightarrow> jmap" where
  "forcedResponses env rq raw =
     (let E = fe_chunk env; synth = nonstreamSynthesize env rq;
          jsonResponse = ConvertResponsesStreamToJson E (fe_milli env 0) (fe_nano env) raw
      in if fr_source rq = FormatResponses then synthesizeFinal synth jsonResponse
         else BuildChatFromResponses E (fe_milli env 1) jsonResponse (fr_model rq) (\<lambda>u. synth (Some u)))"

definition forcedChat :: "forced_env \<Rightarrow> forced_req \<Rightarrow> jmap \<Rightarrow> jmap" where
  "forcedChat env rq parsed =
     (let synth = nonstreamSynthesize env rq;
          p1 = (case mget parsed ''usage'' of
              JObj u \<Rightarrow> if u \<noteq> [] then gm_set ''usage'' (usageJson (synth (Some u))) parsed else parsed
            | _ \<Rightarrow> parsed);
          p2 = StripRedundantReasoning p1
      in if fr_source rq = FormatResponses
         then synthesizeFinal synth (ChatCompletionToResponses (fe_chunk env) (fe_milli env 2) p2 (fr_customTools rq))
         else p2)"

text \<open>The reply, and the abort row when there is one.\<close>

definition forcedSSEToJson :: "forced_env \<Rightarrow> forced_req \<Rightarrow> forced_err + string \<Rightarrow> http_reply \<times> (origin \<times> string) option" where
  "forcedSSEToJson env rq read =
     (let co = ce_codec (fe_chunk env) in
      case read of
        Inl err \<Rightarrow> (writeError co 502 ''Failed to convert streaming response to JSON'',
          Some (forcedAbortReason (fe_ctxDead env) (fe_isCanceled env) err (fe_delivered env)))
      | Inr raw \<Rightarrow>
          if fr_target rq = FormatResponses then (writeJSON co 200 (forcedResponses env rq raw), None)
          else (case ParseSSEToOpenAIResponse (fe_chunk env) (fe_milli env) raw (fr_model rq) of
              AggNone \<Rightarrow> (writeError co 502 ''Invalid SSE response for non-streaming request'', Some (fe_delivered env, ''convert''))
            | AggError errBody \<Rightarrow>
                (writeError co 502 (if asStr (mget errBody ''message'') = [] then ''Upstream SSE stream failed'' else asStr (mget errBody ''message'')),
                 Some (fe_delivered env, ''sse_error_frame''))
            | AggBody parsed \<Rightarrow> (writeJSON co 200 (forcedChat env rq parsed), None)))"

section \<open>What is read and what is answered\<close>

fun arrivedBytes :: "arrival list \<Rightarrow> string" where
  "arrivedBytes [] = []"
| "arrivedBytes (Arrived d e # as) = d @ arrivedBytes as"
| "arrivedBytes (_ # as) = arrivedBytes as"

fun wholeStream :: "arrival list \<Rightarrow> bool" where
  "wholeStream [] = False"
| "wholeStream (Arrived d None # as) = wholeStream as"
| "wholeStream (Arrived d (Some EOF) # as) = (as = [])"
| "wholeStream (_ # as) = False"

lemma readBounded_whole:
  "wholeStream as \<Longrightarrow> length out \<le> maxBytes \<Longrightarrow> readBounded maxBytes out as =
     Some (if length (out @ arrivedBytes as) \<le> maxBytes then Inr (out @ arrivedBytes as) else Inl ForcedTooLarge)"
proof (induction as arbitrary: out rule: wholeStream.induct)
  case (2 d as)
  then show ?case by (cases "length (out @ d) \<le> maxBytes") auto
qed auto

lemma readBounded_size:
  "readBounded maxBytes out as = Some (Inr r) \<Longrightarrow> length out \<le> maxBytes \<Longrightarrow> length r \<le> maxBytes"
  by (induction maxBytes out as rule: readBounded.induct) (auto split: if_splits option.splits read_end.splits)

text \<open>
  C30. The bounded read returns a stream that ends in time byte for byte when it has at most 64 MiB, refuses it as too large
  otherwise, and never returns more than 64 MiB of anything.
\<close>

theorem forced_read_exact:
  "(wholeStream arrivals \<longrightarrow> readBoundedSSE arrivals =
      Some (if length (arrivedBytes arrivals) \<le> MaxForcedSSEBytes then Inr (arrivedBytes arrivals) else Inl ForcedTooLarge)) \<and>
   (\<forall>r. readBoundedSSE arrivals = Some (Inr r) \<longrightarrow> length r \<le> MaxForcedSSEBytes)"
proof -
  have z: "length [] \<le> MaxForcedSSEBytes" by simp
  show ?thesis unfolding readBoundedSSE_def
  proof (intro conjI impI allI)
    assume "wholeStream arrivals"
    from readBounded_whole [OF this z]
    show "readBounded MaxForcedSSEBytes [] arrivals =
        Some (if length (arrivedBytes arrivals) \<le> MaxForcedSSEBytes then Inr (arrivedBytes arrivals) else Inl ForcedTooLarge)"
      by (simp only: append_Nil)
  next
    fix r
    assume "readBounded MaxForcedSSEBytes [] arrivals = Some (Inr r)"
    then show "length r \<le> MaxForcedSSEBytes" using z by (rule readBounded_size)
  qed
qed

theorem forced_read_exact_witness:
  "readBoundedSSE [Arrived ''data'' None, Arrived [] (Some EOF)] = Some (Inr ''data'')"
proof -
  have "wholeStream [Arrived ''data'' None, Arrived [] (Some EOF)]" by simp
  moreover have "length (arrivedBytes [Arrived ''data'' None, Arrived [] (Some EOF)]) \<le> MaxForcedSSEBytes"
    by (simp add: MaxForcedSSEBytes_def)
  ultimately show ?thesis using forced_read_exact [of "[Arrived ''data'' None, Arrived [] (Some EOF)]"] by simp
qed

lemma write_status [simp]:
  "hr_status (writeJSON co n m) = n"
  "hr_status (writeError co n msg) = n"
  by (simp_all only: writeJSON_def writeError_def http_reply.simps Let_def)

lemma abort_who:
  "forcedAbortReason ctxDead isCanceled err delivered = (who, why) \<Longrightarrow>
   who = delivered \<or> (who = OriginClient \<and> why = ''cancel'' \<and> (ctxDead \<or> isCanceled err))"
  by (auto simp: forcedAbortReason_def split: if_splits)

text \<open>
  The reply to a non-streaming client is a 200 exactly when the stream was read and converted; every failure is a 502
  with one abort row, and the row names the client only when the client cancelled.
\<close>

theorem forced_reply:
  "case forcedSSEToJson env rq read of (reply, abort) \<Rightarrow>
     hr_status reply = (if abort = None then 200 else 502) \<and>
     (abort = None \<longleftrightarrow> (case read of
         Inl _ \<Rightarrow> False
       | Inr raw \<Rightarrow> fr_target rq = FormatResponses \<or>
           (case ParseSSEToOpenAIResponse (fe_chunk env) (fe_milli env) raw (fr_model rq) of AggBody _ \<Rightarrow> True | _ \<Rightarrow> False))) \<and>
     (case abort of
         None \<Rightarrow> True
       | Some (who, why) \<Rightarrow> who = fe_delivered env \<or>
           (who = OriginClient \<and> why = ''cancel'' \<and>
            (case read of Inl err \<Rightarrow> fe_ctxDead env \<or> fe_isCanceled env err | Inr _ \<Rightarrow> False)))"
proof (cases read)
  case (Inl err)
  obtain who why where w: "forcedAbortReason (fe_ctxDead env) (fe_isCanceled env) err (fe_delivered env) = (who, why)"
    by fastforce
  show ?thesis using abort_who [OF w] by (simp add: Inl w forcedSSEToJson_def)
next
  case (Inr raw)
  show ?thesis
  proof (cases "fr_target rq = FormatResponses")
    case True
    with Inr show ?thesis by (simp add: forcedSSEToJson_def)
  next
    case False
    with Inr show ?thesis
      by (cases "ParseSSEToOpenAIResponse (fe_chunk env) (fe_milli env) raw (fr_model rq)")
         (simp_all add: forcedSSEToJson_def)
  qed
qed

end
