(* ===== verification/Prenorm.thy ===== *)
theory Prenorm
  imports ChatToResp
begin

text \<open>
  The normalizations every request goes through before and after its translation
  (\<^verbatim>\<open>internal/translate/prenorm.go\<close>): the stray thinking block, tool call identifiers, missing tool responses
  and the clean chat shape. The Go code changes the decoded body in place; here each function returns the
  changed body. A nil body is the empty map: both are returned as they are.
\<close>

section \<open>Definitions\<close>

definition NormalizeThinkingConfig :: "jmap \<Rightarrow> jmap" where
  "NormalizeThinkingConfig body =
     (let messages = (if asArr (mget body ''messages'') = None then mget body ''contents'' else mget body ''messages'') in
      case messages of
        JArr a \<Rightarrow>
          if a = [] then body
          else (case last a of
            JObj l \<Rightarrow> if asStr (mget l ''role'') \<noteq> ''user'' then gm_del ''thinking'' body else body
          | _ \<Rightarrow> gm_del ''thinking'' body)
      | _ \<Rightarrow> body)"

text \<open>\<^verbatim>\<open>[a-zA-Z0-9_-]\<close>\<close>

definition is_id_char :: "char \<Rightarrow> bool" where
  "is_id_char c \<longleftrightarrow> is_alnum c \<or> c = CHR ''_'' \<or> c = CHR ''-''"

definition toolIDRe :: "string \<Rightarrow> bool" where
  "toolIDRe s \<longleftrightarrow> s \<noteq> [] \<and> list_all is_id_char s"

definition sanitizeToolID :: "json \<Rightarrow> string" where
  "sanitizeToolID i = filter is_id_char (asStr i)"

definition GenerateToolCallID :: "int \<Rightarrow> int \<Rightarrow> string \<Rightarrow> string" where
  "GenerateToolCallID msgIndex tcIndex toolName =
     (let cleaned = filter is_id_char toolName;
          suffix = (if toolName \<noteq> [] \<and> cleaned \<noteq> [] then ''_'' @ cleaned else [])
      in ''call_msg'' @ itoaIdx msgIndex @ ''_tc'' @ itoaIdx tcIndex @ suffix)"

definition repairID :: "json \<Rightarrow> string \<Rightarrow> json" where
  "repairID i generated = JStr (if sanitizeToolID i = [] then generated else sanitizeToolID i)"

definition ensureCallID :: "int \<Rightarrow> int \<Rightarrow> jmap \<Rightarrow> jmap" where
  "ensureCallID i j tc =
     (if toolIDRe (asStr (mget tc ''id'')) then tc
      else gm_set ''id'' (repairID (mget tc ''id'') (GenerateToolCallID i j (asStr (Get (mget tc ''function'') ''name'')))) tc)"

definition ensureCallType :: "jmap \<Rightarrow> jmap" where
  "ensureCallType tc = (if asStr (mget tc ''type'') = [] then gm_set ''type'' (JStr ''function'') tc else tc)"

text \<open>Truthy arguments that are not a text are replaced by their encoding.\<close>

definition ensureArgs :: "codec \<Rightarrow> json \<Rightarrow> json" where
  "ensureArgs co f = (case f of
     JObj fn \<Rightarrow>
       let args = mget fn ''arguments'' in
       (case args of
         JStr _ \<Rightarrow> f
       | _ \<Rightarrow>
           if truthy args
           then (case co_encode co args of None \<Rightarrow> f | Some b \<Rightarrow> JObj (gm_set ''arguments'' (JStr b) fn))
           else f)
   | _ \<Rightarrow> f)"

definition ensureCallArgs :: "codec \<Rightarrow> jmap \<Rightarrow> jmap" where
  "ensureCallArgs co tc = (case mget tc ''function'' of
     JObj fn \<Rightarrow> gm_set ''function'' (ensureArgs co (JObj fn)) tc
   | _ \<Rightarrow> tc)"

definition ensureCall :: "codec \<Rightarrow> int \<Rightarrow> int \<Rightarrow> json \<Rightarrow> json" where
  "ensureCall co i j raw = (case raw of
     JObj tc \<Rightarrow> JObj (ensureCallArgs co (ensureCallType (ensureCallID i j tc)))
   | _ \<Rightarrow> raw)"

definition ensureBlock :: "int \<Rightarrow> int \<Rightarrow> json \<Rightarrow> json" where
  "ensureBlock i k raw = (case raw of
     JObj b \<Rightarrow>
       let t = asStr (mget b ''type''); i1 = asStr (mget b ''id''); i2 = asStr (mget b ''tool_use_id'') in
       if t = ''tool_use'' \<and> i1 \<noteq> [] \<and> \<not> toolIDRe i1
       then JObj (gm_set ''id'' (repairID (mget b ''id'') (GenerateToolCallID i k (asStr (mget b ''name'')))) b)
       else if t = ''tool_result'' \<and> i2 \<noteq> [] \<and> \<not> toolIDRe i2
       then JObj (gm_set ''tool_use_id'' (repairID (mget b ''tool_use_id'') (GenerateToolCallID i k [])) b)
       else raw
   | _ \<Rightarrow> raw)"

text \<open>The loops count their elements.\<close>

fun indexed :: "(int \<Rightarrow> 'a \<Rightarrow> 'b) \<Rightarrow> int \<Rightarrow> 'a list \<Rightarrow> 'b list" where
  "indexed f i [] = []"
| "indexed f i (x # xs) = f i x # indexed f (i + 1) xs"

lemma indexed_all: "(\<And>i x. P (f i x)) \<Longrightarrow> list_all P (indexed f i xs)"
  by (induction xs arbitrary: i) simp_all

definition ensureCalls :: "codec \<Rightarrow> int \<Rightarrow> jmap \<Rightarrow> jmap" where
  "ensureCalls co i msg =
     (if asStr (mget msg ''role'') = ''assistant'' then
        case mget msg ''tool_calls'' of
          JArr toolCalls \<Rightarrow> gm_set ''tool_calls'' (JArr (indexed (ensureCall co i) 0 toolCalls)) msg
        | _ \<Rightarrow> msg
      else msg)"

definition ensureToolMessage :: "int \<Rightarrow> jmap \<Rightarrow> jmap" where
  "ensureToolMessage i msg =
     (let tcID = asStr (mget msg ''tool_call_id'') in
      if asStr (mget msg ''role'') = ''tool'' \<and> tcID \<noteq> [] \<and> \<not> toolIDRe tcID
      then gm_set ''tool_call_id'' (repairID (mget msg ''tool_call_id'') (GenerateToolCallID i 0 [])) msg else msg)"

definition ensureBlocks :: "int \<Rightarrow> jmap \<Rightarrow> jmap" where
  "ensureBlocks i msg = (case mget msg ''content'' of
     JArr content \<Rightarrow> gm_set ''content'' (JArr (indexed (ensureBlock i) 0 content)) msg
   | _ \<Rightarrow> msg)"

definition ensureMessage :: "codec \<Rightarrow> int \<Rightarrow> json \<Rightarrow> json" where
  "ensureMessage co i raw = (case raw of
     JObj msg \<Rightarrow> JObj (ensureBlocks i (ensureToolMessage i (ensureCalls co i msg)))
   | _ \<Rightarrow> raw)"

definition EnsureToolCallIDs :: "codec \<Rightarrow> jmap \<Rightarrow> jmap" where
  "EnsureToolCallIDs co body = (case mget body ''messages'' of
     JArr messages \<Rightarrow> gm_set ''messages'' (JArr (indexed (ensureMessage co) 0 messages)) body
   | _ \<Rightarrow> body)"

definition elems :: "json \<Rightarrow> json list" where
  "elems v = (case v of JArr a \<Rightarrow> a | _ \<Rightarrow> [])"

definition callID :: "json \<Rightarrow> string option" where
  "callID tcRaw = (case tcRaw of
     JObj tc \<Rightarrow> let i = asStr (mget tc ''id'') in if i \<noteq> [] then Some i else None
   | _ \<Rightarrow> None)"

definition blockID :: "string \<Rightarrow> string \<Rightarrow> json \<Rightarrow> string option" where
  "blockID t key blockRaw = (case blockRaw of
     JObj b \<Rightarrow> let i = asStr (mget b key) in if asStr (mget b ''type'') = t \<and> i \<noteq> [] then Some i else None
   | _ \<Rightarrow> None)"

definition assistantToolCallIDs :: "jmap \<Rightarrow> string list" where
  "assistantToolCallIDs msg =
     (if asStr (mget msg ''role'') \<noteq> ''assistant'' then []
      else List.map_filter callID (elems (mget msg ''tool_calls'')) @
        List.map_filter (blockID ''tool_use'' ''id'') (elems (mget msg ''content'')))"

definition messageHasToolResults :: "jmap \<Rightarrow> string list \<Rightarrow> bool" where
  "messageHasToolResults msg ids =
     (if ids = [] then False
      else
        let tcID = asStr (mget msg ''tool_call_id'') in
        if asStr (mget msg ''role'') = ''tool'' \<and> tcID \<noteq> [] \<and> tcID \<in> set ids then True
        else if asStr (mget msg ''role'') = ''user''
        then list_ex (\<lambda>i. i \<in> set ids) (List.map_filter (blockID ''tool_result'' ''tool_use_id'') (elems (mget msg ''content'')))
        else False)"

definition emptyToolResponse :: "string \<Rightarrow> json" where
  "emptyToolResponse i = JObj [(''role'', JStr ''tool''), (''tool_call_id'', JStr i), (''content'', JStr [])]"

text \<open>The identifiers a message leaves unanswered, given the message after it.\<close>

definition unanswered :: "json \<Rightarrow> json list \<Rightarrow> string list" where
  "unanswered raw rest = (case (raw, rest) of
     (JObj msg, JObj next # _) \<Rightarrow>
       let ids = assistantToolCallIDs msg in if messageHasToolResults next ids then [] else ids
   | _ \<Rightarrow> [])"

fun fixMessages :: "json list \<Rightarrow> json list" where
  "fixMessages [] = []"
| "fixMessages (raw # rest) = raw # map emptyToolResponse (unanswered raw rest) @ fixMessages rest"

definition FixMissingToolResponses :: "jmap \<Rightarrow> jmap" where
  "FixMissingToolResponses body = (case mget body ''messages'' of
     JArr messages \<Rightarrow> gm_set ''messages'' (JArr (fixMessages messages)) body
   | _ \<Rightarrow> body)"

section \<open>The clean chat shape\<close>

definition validOpenAIContentTypes :: "string list" where
  "validOpenAIContentTypes = [''text'', ''image_url'', ''image'', ''input_audio'', ''audio_url'', ''file'']"

definition cleanBlock :: "jmap \<Rightarrow> json" where
  "cleanBlock block = JObj (gm_del ''cache_control'' (gm_del ''signature'' block))"

definition filterBlock :: "json \<Rightarrow> json option" where
  "filterBlock raw = (case raw of
     JObj block \<Rightarrow>
       let t = asStr (mget block ''type'') in
       if t = ''thinking'' \<or> t = ''redacted_thinking'' then None
       else if t = ''tool_use'' then None
       else if t = ''tool_result'' then Some (cleanBlock block)
       else if t \<in> set validOpenAIContentTypes then Some (cleanBlock block)
       else None
   | _ \<Rightarrow> None)"

definition toolTurn :: "jmap \<Rightarrow> bool" where
  "toolTurn msg \<longleftrightarrow> asStr (mget msg ''role'') = ''tool'' \<or>
     (asStr (mget msg ''role'') = ''assistant'' \<and> truthy (mget msg ''tool_calls''))"

definition mapMessage :: "json \<Rightarrow> json" where
  "mapMessage raw = (case raw of
     JObj msg0 \<Rightarrow>
       let msg = (if asStr (mget msg0 ''role'') = ''developer'' then gm_set ''role'' (JStr ''system'') msg0 else msg0) in
       if toolTurn msg then JObj msg
       else (case mget msg ''content'' of
         JArr content \<Rightarrow>
           let filtered = List.map_filter filterBlock content;
               filtered1 = (if filtered = [] then [JObj [(''type'', JStr ''text''), (''text'', JStr [])]] else filtered)
           in JObj (gm_set ''content'' (JArr filtered1) msg)
       | _ \<Rightarrow> JObj msg)
   | _ \<Rightarrow> raw)"

definition keepBlock :: "json \<Rightarrow> bool" where
  "keepBlock raw = (case raw of
     JObj block \<Rightarrow> asStr (mget block ''type'') = ''text'' \<longrightarrow> trimSpace (asStr (mget block ''text'')) \<noteq> []
   | _ \<Rightarrow> False)"

definition keepMessage :: "json \<Rightarrow> bool" where
  "keepMessage raw = (case raw of
     JObj msg \<Rightarrow>
       if toolTurn msg then True
       else (case mget msg ''content'' of
         JStr s \<Rightarrow> trimSpace s \<noteq> []
       | JArr content \<Rightarrow> list_ex keepBlock content
       | _ \<Rightarrow> True)
   | _ \<Rightarrow> True)"

definition paramsOr :: "json \<Rightarrow> json" where
  "paramsOr v = (case v of JObj _ \<Rightarrow> v | _ \<Rightarrow> JObj [(''type'', JStr ''object''), (''properties'', JObj [])])"

definition chatTool :: "string \<Rightarrow> string \<Rightarrow> json \<Rightarrow> json" where
  "chatTool name description params = JObj [(''type'', JStr ''function''), (''function'', JObj [(''name'', JStr name),
     (''description'', JStr description), (''parameters'', params)])]"

definition declTool :: "json \<Rightarrow> json option" where
  "declTool declRaw = (case declRaw of
     JObj fn \<Rightarrow> Some (chatTool (asStr (mget fn ''name'')) (asStr (mget fn ''description'')) (paramsOr (mget fn ''parameters'')))
   | _ \<Rightarrow> None)"

definition filterTool :: "json \<Rightarrow> json list" where
  "filterTool toolRaw = (case toolRaw of
     JObj tool \<Rightarrow>
       let name = asStr (mget tool ''name'') in
       if asStr (mget tool ''type'') = ''function'' \<and> truthy (mget tool ''function'') then [toolRaw]
       else if name \<noteq> [] \<and> (has tool ''input_schema'' \<or> has tool ''description'')
       then [chatTool name (asStr (mget tool ''description'')) (paramsOr (mget tool ''input_schema''))]
       else (case mget tool ''functionDeclarations'' of
         JArr decls \<Rightarrow> List.map_filter declTool decls
       | _ \<Rightarrow> [toolRaw])
   | _ \<Rightarrow> [toolRaw])"

definition filterTools :: "jmap \<Rightarrow> jmap" where
  "filterTools body = (case mget body ''tools'' of
     JArr tools \<Rightarrow>
       if tools = [] then gm_del ''tools'' body
       else gm_set ''tools'' (JArr (concat (map filterTool tools))) body
   | _ \<Rightarrow> body)"

definition filterToolChoice :: "jmap \<Rightarrow> jmap" where
  "filterToolChoice body = (case mget body ''tool_choice'' of
     JObj choice \<Rightarrow>
       let t = asStr (mget choice ''type''); name = asStr (mget choice ''name'') in
       if t = ''auto'' then gm_set ''tool_choice'' (JStr ''auto'') body
       else if t = ''any'' then gm_set ''tool_choice'' (JStr ''required'') body
       else if t = ''tool'' \<and> name \<noteq> []
       then gm_set ''tool_choice'' (JObj [(''type'', JStr ''function''), (''function'', JObj [(''name'', JStr name)])]) body
       else body
   | _ \<Rightarrow> body)"

definition FilterToOpenAIFormat :: "jmap \<Rightarrow> jmap" where
  "FilterToOpenAIFormat body = (case mget body ''messages'' of
     JArr messages \<Rightarrow>
       filterToolChoice (filterTools (gm_set ''messages'' (JArr (filter keepMessage (map mapMessage messages))) body))
   | _ \<Rightarrow> body)"

end
