(* ===== verification/PrenormProps.thy ===== *)
theory PrenormProps
  imports Prenorm "HOL-Library.Sublist"
begin

text \<open>
  What the request normalizations give the upstream: identifiers of the accepted shape, a second pass that
  changes nothing, and no assistant turn whose tool calls the next message leaves unanswered, also after the
  chat shape has been cleaned.
\<close>

section \<open>Identifiers\<close>

lemma gm_set_same: "gm_get m k = Some v \<Longrightarrow> gm_set k v m = m"
  by (induction m) (auto split: if_splits)

lemma mget_same: "mget m k = v \<Longrightarrow> v \<noteq> JNull \<Longrightarrow> gm_set k v m = m"
  by (rule gm_set_same) (auto simp: mget_def split: option.splits)

lemma digitChar_id: "d < 10 \<Longrightarrow> is_id_char (digitChar d)"
  by (simp add: is_id_char_def is_alnum_def is_digit_def digitChar_def)

lemma itoaLoop_id: "list_all is_id_char acc \<Longrightarrow> list_all is_id_char (itoaLoop n acc)"
proof (induction n acc rule: itoaLoop.induct)
  case (1 n acc)
  have "nat (n mod 10) < 10" by simp
  then show ?case using 1 by (subst itoaLoop.simps) (simp add: digitChar_id)
qed

lemma id_chars: "is_id_char (CHR ''-'')" "is_id_char (CHR ''_'')" "list_all is_id_char ''call_msg''" "list_all is_id_char ''_tc''" "list_all is_id_char ''0''"
  by code_simp+

lemma itoaIdx_id: "list_all is_id_char (itoaIdx n)"
  using itoaLoop_id [of "[]"] id_chars by (simp add: itoaIdx_def)

lemma filter_id: "list_all is_id_char (filter is_id_char s)"
  by (induction s) simp_all

lemma generated_ok: "toolIDRe (GenerateToolCallID i j name)"
  using id_chars itoaIdx_id filter_id [of name] by (simp add: GenerateToolCallID_def toolIDRe_def Let_def)

lemma repaired_ok: "toolIDRe g \<Longrightarrow> toolIDRe (asStr (repairID v g))"
  using filter_id [of "asStr v"] by (auto simp: repairID_def toolIDRe_def sanitizeToolID_def asStr_def)

text \<open>What a repaired call, block and message look like.\<close>

definition args_ok :: "codec \<Rightarrow> json \<Rightarrow> bool" where
  "args_ok co f = (case f of
     JObj fn \<Rightarrow> (case mget fn ''arguments'' of JStr _ \<Rightarrow> True | v \<Rightarrow> truthy v \<longrightarrow> co_encode co v = None)
   | _ \<Rightarrow> True)"

definition call_ok :: "codec \<Rightarrow> json \<Rightarrow> bool" where
  "call_ok co raw = (case raw of
     JObj tc \<Rightarrow> toolIDRe (asStr (mget tc ''id'')) \<and> asStr (mget tc ''type'') \<noteq> [] \<and> args_ok co (mget tc ''function'')
   | _ \<Rightarrow> True)"

definition id_or_empty :: "string \<Rightarrow> bool" where
  "id_or_empty s \<longleftrightarrow> s = [] \<or> toolIDRe s"

definition block_ok :: "json \<Rightarrow> bool" where
  "block_ok raw = (case raw of
     JObj b \<Rightarrow> (asStr (mget b ''type'') = ''tool_use'' \<longrightarrow> id_or_empty (asStr (mget b ''id''))) \<and>
       (asStr (mget b ''type'') = ''tool_result'' \<longrightarrow> id_or_empty (asStr (mget b ''tool_use_id'')))
   | _ \<Rightarrow> True)"

definition message_ok :: "codec \<Rightarrow> json \<Rightarrow> bool" where
  "message_ok co raw = (case raw of
     JObj msg \<Rightarrow> (asStr (mget msg ''role'') = ''assistant'' \<longrightarrow> list_all (call_ok co) (elems (mget msg ''tool_calls''))) \<and>
       (asStr (mget msg ''role'') = ''tool'' \<longrightarrow> id_or_empty (asStr (mget msg ''tool_call_id''))) \<and>
       list_all block_ok (elems (mget msg ''content''))
   | _ \<Rightarrow> True)"

lemma ensureArgs_ok: "args_ok co (ensureArgs co f)"
proof (cases f)
  case (JObj fn)
  then show ?thesis
    by (cases "mget fn ''arguments''") (auto simp: ensureArgs_def args_ok_def Let_def mget_gm_set split: option.splits)
qed (simp_all add: ensureArgs_def args_ok_def)

lemma ensureArgs_fixed: "args_ok co f \<Longrightarrow> ensureArgs co f = f"
proof (cases f)
  case (JObj fn)
  moreover assume "args_ok co f"
  ultimately show ?thesis by (cases "mget fn ''arguments''") (auto simp: ensureArgs_def args_ok_def Let_def)
qed (simp_all add: ensureArgs_def)

lemma call_reads:
  "k \<noteq> ''id'' \<Longrightarrow> mget (ensureCallID i j tc) k = mget tc k"
  "toolIDRe (asStr (mget (ensureCallID i j tc) ''id''))"
  "k \<noteq> ''type'' \<Longrightarrow> mget (ensureCallType tc) k = mget tc k"
  "asStr (mget (ensureCallType tc) ''type'') \<noteq> []"
  "k \<noteq> ''function'' \<Longrightarrow> mget (ensureCallArgs co tc) k = mget tc k"
  by (auto simp: ensureCallID_def ensureCallType_def ensureCallArgs_def mget_gm_set repaired_ok generated_ok asStr_def [of "JStr _"] split: json.splits)

lemma call_args_ok: "args_ok co (mget (ensureCallArgs co tc) ''function'')"
  by (cases "mget tc ''function''") (simp_all add: ensureCallArgs_def mget_gm_set ensureArgs_ok, simp_all add: args_ok_def)

lemma ensureCall_ok: "call_ok co (ensureCall co i j raw)"
  by (cases raw) (simp_all add: ensureCall_def call_ok_def call_reads call_args_ok)

lemma ensureCall_fixed: "call_ok co raw \<Longrightarrow> ensureCall co i j raw = raw"
proof (cases raw)
  case (JObj tc)
  moreover assume "call_ok co raw"
  ultimately have c: "toolIDRe (asStr (mget tc ''id''))" "asStr (mget tc ''type'') \<noteq> []" "args_ok co (mget tc ''function'')"
    by (simp_all add: call_ok_def)
  have "ensureCallArgs co tc = tc"
    using c(3) by (auto simp: ensureCallArgs_def ensureArgs_fixed mget_same split: json.splits)
  with c show ?thesis by (simp add: JObj ensureCall_def ensureCallID_def ensureCallType_def)
qed (simp_all add: ensureCall_def)

lemma ensureBlock_ok: "block_ok (ensureBlock i k raw)"
  by (auto simp: ensureBlock_def block_ok_def id_or_empty_def Let_def mget_gm_set repaired_ok generated_ok split: json.splits)

lemma ensureBlock_fixed: "block_ok raw \<Longrightarrow> ensureBlock i k raw = raw"
  by (auto simp: ensureBlock_def block_ok_def id_or_empty_def Let_def split: json.splits)

lemma indexed_fixed: "list_all P xs \<Longrightarrow> (\<And>i x. P x \<Longrightarrow> f i x = x) \<Longrightarrow> indexed f i xs = xs"
  by (induction xs arbitrary: i) simp_all

lemma ensureCalls_reads:
  "k \<noteq> ''tool_calls'' \<Longrightarrow> mget (ensureCalls co i msg) k = mget msg k"
  "asStr (mget msg ''role'') = ''assistant'' \<Longrightarrow> list_all (call_ok co) (elems (mget (ensureCalls co i msg) ''tool_calls''))"
  by (auto simp: ensureCalls_def elems_def mget_gm_set indexed_all ensureCall_ok split: json.splits)

lemma ensureToolMessage_reads:
  "k \<noteq> ''tool_call_id'' \<Longrightarrow> mget (ensureToolMessage i msg) k = mget msg k"
  "asStr (mget msg ''role'') = ''tool'' \<Longrightarrow> id_or_empty (asStr (mget (ensureToolMessage i msg) ''tool_call_id''))"
  by (auto simp: ensureToolMessage_def Let_def mget_gm_set id_or_empty_def repaired_ok generated_ok)

lemma ensureBlocks_reads:
  "k \<noteq> ''content'' \<Longrightarrow> mget (ensureBlocks i msg) k = mget msg k"
  "list_all block_ok (elems (mget (ensureBlocks i msg) ''content''))"
  by (auto simp: ensureBlocks_def elems_def mget_gm_set indexed_all ensureBlock_ok split: json.splits)

lemma ensureMessage_ok: "message_ok co (ensureMessage co i raw)"
  by (cases raw) (simp_all add: ensureMessage_def message_ok_def ensureCalls_reads ensureToolMessage_reads ensureBlocks_reads)

lemma ensureMessage_fixed: "message_ok co raw \<Longrightarrow> ensureMessage co i raw = raw"
proof (cases raw)
  case (JObj msg)
  assume ok: "message_ok co raw"
  have "ensureCalls co i msg = msg"
    using ok by (auto simp: JObj message_ok_def ensureCalls_def elems_def mget_same indexed_fixed [where P = "call_ok co"] ensureCall_fixed
        split: json.splits)
  moreover have "ensureToolMessage i msg = msg" using ok by (auto simp: JObj message_ok_def ensureToolMessage_def Let_def id_or_empty_def)
  moreover have "ensureBlocks i msg = msg"
    using ok by (auto simp: JObj message_ok_def ensureBlocks_def elems_def mget_same indexed_fixed [where P = block_ok] ensureBlock_fixed
        split: json.splits)
  ultimately show ?thesis by (simp add: JObj ensureMessage_def)
qed (simp_all add: ensureMessage_def)

lemma ensured_messages: "list_all (message_ok co) (elems (mget (EnsureToolCallIDs co body) ''messages''))"
  by (auto simp: EnsureToolCallIDs_def elems_def mget_gm_set indexed_all ensureMessage_ok split: json.splits)

lemma ensured_fixed: "list_all (message_ok co) (elems (mget body ''messages'')) \<Longrightarrow> EnsureToolCallIDs co body = body"
  by (auto simp: EnsureToolCallIDs_def elems_def mget_same indexed_fixed [where P = "message_ok co"] ensureMessage_fixed split: json.splits)

text \<open>
  C21. After the repair every tool call of an assistant message has an identifier of the accepted alphabet, a type and
  textual arguments (when they are truthy and can be encoded), every tool message and tool block that names a call names
  it in that alphabet, and a second repair changes nothing, so a conversation keeps its identifiers from turn to turn.
\<close>

theorem tool_ids_repaired:
  "list_all (message_ok co) (elems (mget (EnsureToolCallIDs co body) ''messages'')) \<and>
   EnsureToolCallIDs co (EnsureToolCallIDs co body) = EnsureToolCallIDs co body"
  using ensured_messages ensured_fixed [OF ensured_messages] by simp

text \<open>
  An identifier without any accepted character is generated anew on both sides, from different positions: the call and
  its response no longer name the same call, and the repair of missing responses then adds an empty one.
\<close>

lemma unmatched_ids:
  "EnsureToolCallIDs co [(''messages'', JArr [
      JObj [(''role'', JStr ''assistant''), (''tool_calls'', JArr [JObj [(''id'', JStr ''!''), (''type'', JStr ''function'')]])],
      JObj [(''role'', JStr ''tool''), (''tool_call_id'', JStr ''!'')]])] =
   [(''messages'', JArr [
      JObj [(''role'', JStr ''assistant''), (''tool_calls'', JArr [JObj [(''id'', JStr ''call_msg0_tc0''), (''type'', JStr ''function'')]])],
      JObj [(''role'', JStr ''tool''), (''tool_call_id'', JStr ''call_msg1_tc0'')]])]"
proof -
  have i: "itoaIdx 0 = ''0''" "itoaIdx 1 = ''1''" by code_simp+
  have c: "\<not> is_id_char (CHR ''!'')" by code_simp
  show ?thesis
    by (simp add: EnsureToolCallIDs_def mget_Cons ensureMessage_def ensureCalls_def ensureToolMessage_def ensureBlocks_def
        ensureCall_def ensureCallID_def ensureCallType_def ensureCallArgs_def asStr_def toolIDRe_def c repairID_def sanitizeToolID_def GenerateToolCallID_def i Get_def Let_def)
      (simp add: mget_def)
qed

section \<open>Unanswered calls\<close>

fun dangling_free :: "json list \<Rightarrow> bool" where
  "dangling_free [] = True"
| "dangling_free (raw # rest) = (unanswered raw rest = [] \<and> dangling_free rest)"

lemma unanswered_head: "rest \<noteq> [] \<Longrightarrow> unanswered raw (hd rest # later) = unanswered raw rest"
  by (cases rest) (auto simp: unanswered_def split: json.splits)

lemma fixMessages_hd: "ms \<noteq> [] \<Longrightarrow> \<exists>later. fixMessages ms = hd ms # later"
  by (cases ms) simp_all

lemma unanswered_fixed: "unanswered raw (fixMessages rest) = unanswered raw rest"
  using fixMessages_hd [of rest] unanswered_head [of rest] by (cases "rest = []") auto

lemma ids_nonempty: "i \<in> set (assistantToolCallIDs msg) \<Longrightarrow> i \<noteq> []"
  by (auto simp: assistantToolCallIDs_def callID_def blockID_def List.map_filter_def Let_def split: if_splits json.splits)

lemma response_answers: "i \<noteq> [] \<Longrightarrow> i \<in> set ids \<Longrightarrow> messageHasToolResults [(''role'', JStr ''tool''), (''tool_call_id'', JStr i), (''content'', JStr [])] ids"
  by (auto simp: messageHasToolResults_def mget_Cons asStr_def Let_def)

lemma unanswered_none: "unanswered raw [] = []" "unanswered (emptyToolResponse i) rest = []"
  by (auto simp: unanswered_def emptyToolResponse_def assistantToolCallIDs_def mget_Cons asStr_def messageHasToolResults_def
      split: list.splits json.splits)

lemma unanswered_set: "set (unanswered raw rest) \<noteq> {} \<Longrightarrow> \<exists>msg. raw = JObj msg \<and> unanswered raw rest = assistantToolCallIDs msg"
  by (auto simp: unanswered_def Let_def split: json.splits list.splits if_splits)

lemma unanswered_after: "unanswered raw (map emptyToolResponse (unanswered raw rest) @ fixMessages rest) = []"
proof (cases "unanswered raw rest")
  case Nil
  then show ?thesis by (simp add: unanswered_fixed)
next
  case (Cons i ids)
  then obtain msg where m: "raw = JObj msg" "assistantToolCallIDs msg = i # ids" using unanswered_set [of raw rest] by auto
  have "i \<noteq> []" using ids_nonempty [of i msg] m by simp
  with m Cons show ?thesis by (simp add: unanswered_def emptyToolResponse_def response_answers)
qed

lemma responses_free: "dangling_free (map emptyToolResponse ids @ ms) \<longleftrightarrow> dangling_free ms"
  by (induction ids) (simp_all add: unanswered_none)

lemma fixed_free: "dangling_free (fixMessages ms)"
  by (induction ms) (simp_all add: unanswered_after responses_free)

lemma free_fixed: "dangling_free ms \<Longrightarrow> fixMessages ms = ms"
  by (induction ms) simp_all

lemma fix_keeps: "subseq ms (fixMessages ms)"
  by (induction ms) (simp_all add: list_emb_append2)

section \<open>After the chat shape is cleaned\<close>

definition toSystem :: "jmap \<Rightarrow> jmap" where
  "toSystem msg = (if asStr (mget msg ''role'') = ''developer'' then gm_set ''role'' (JStr ''system'') msg else msg)"

definition filteredContent :: "json list \<Rightarrow> json list" where
  "filteredContent content = (if List.map_filter filterBlock content = [] then [JObj [(''type'', JStr ''text''), (''text'', JStr [])]]
     else List.map_filter filterBlock content)"

lemma mapMessage_JObj:
  "mapMessage (JObj msg) = JObj (if toolTurn (toSystem msg) then toSystem msg
     else (case mget (toSystem msg) ''content'' of
         JArr content \<Rightarrow> gm_set ''content'' (JArr (filteredContent content)) (toSystem msg)
       | _ \<Rightarrow> toSystem msg))"
  by (simp add: mapMessage_def Let_def toSystem_def filteredContent_def split: json.splits)

lemma mapMessage_other:
  "mapMessage JNull = JNull" "mapMessage (JBool b) = JBool b" "mapMessage (JNum x) = JNum x" "mapMessage (JStr t) = JStr t"
  "mapMessage (JArr a) = JArr a"
  by (simp_all add: mapMessage_def)

lemma set_map_filter: "set (List.map_filter f xs) = {y. \<exists>x\<in>set xs. f x = Some y}"
  by (induction xs) (auto simp: map_filter_simps split: option.splits)

lemma blockID_Some:
  "blockID t key v = Some i \<longleftrightarrow> (\<exists>b. v = JObj b \<and> asStr (mget b ''type'') = t \<and> asStr (mget b key) = i \<and> i \<noteq> [])"
  by (auto simp: blockID_def Let_def split: json.splits)

lemma toSystem_id: "asStr (mget msg ''role'') \<noteq> ''developer'' \<Longrightarrow> toSystem msg = msg"
  by (simp add: toSystem_def)

lemma ids_toSystem: "assistantToolCallIDs (toSystem msg) = assistantToolCallIDs msg"
  by (simp add: toSystem_def assistantToolCallIDs_def mget_gm_set asStr_def [of "JStr _"])

lemma cleanBlock_reads: "cleanBlock b = JObj (gm_del ''cache_control'' (gm_del ''signature'' b))"
  "k \<noteq> ''cache_control'' \<Longrightarrow> k \<noteq> ''signature'' \<Longrightarrow> mget (gm_del ''cache_control'' (gm_del ''signature'' b)) k = mget b k"
  by (simp_all add: cleanBlock_def mget_gm_del)

lemma no_tool_use: "filterBlock raw = Some v \<Longrightarrow> blockID ''tool_use'' key v = None"
  by (auto simp: filterBlock_def Let_def blockID_def cleanBlock_reads split: json.splits if_splits)

lemma filtered_no_tool_use: "List.map_filter (blockID ''tool_use'' key) (filteredContent content) = []"
proof -
  have "List.map_filter (blockID ''tool_use'' key) (List.map_filter filterBlock content) = []"
    by (induction content) (auto simp: map_filter_simps no_tool_use split: option.splits)
  then show ?thesis by (simp add: filteredContent_def map_filter_simps blockID_def mget_Cons asStr_def)
qed

lemma ids_after:
  assumes "mapMessage (JObj msg) = JObj msg'"
  shows "assistantToolCallIDs msg' = assistantToolCallIDs msg \<or> assistantToolCallIDs msg' = []"
proof (cases "toolTurn (toSystem msg)")
  case True
  then show ?thesis using assms by (auto simp: mapMessage_JObj ids_toSystem)
next
  case False
  show ?thesis
  proof (cases "mget (toSystem msg) ''content''")
    case (JArr content)
    have tc: "asStr (mget (toSystem msg) ''role'') = ''assistant'' \<Longrightarrow> elems (mget (toSystem msg) ''tool_calls'') = []"
      using False by (auto simp: toolTurn_def elems_def truthy_def split: json.splits)
    have m: "msg' = gm_set ''content'' (JArr (filteredContent content)) (toSystem msg)"
      using assms False JArr by (simp add: mapMessage_JObj)
    show ?thesis using tc by (simp add: m assistantToolCallIDs_def mget_gm_set elems_def filtered_no_tool_use)
  qed (use assms False ids_toSystem [of msg] in \<open>auto simp: mapMessage_JObj\<close>)
qed

lemma result_kept:
  assumes "i \<in> set (List.map_filter (blockID ''tool_result'' ''tool_use_id'') content)"
  shows "i \<in> set (List.map_filter (blockID ''tool_result'' ''tool_use_id'') (filteredContent content))"
    and "list_ex keepBlock (filteredContent content)"
proof -
  obtain b where b: "JObj b \<in> set content" "asStr (mget b ''type'') = ''tool_result''" "asStr (mget b ''tool_use_id'') = i" "i \<noteq> []"
    using assms by (auto simp: set_map_filter blockID_Some)
  have "filterBlock (JObj b) = Some (cleanBlock b)" by (simp add: filterBlock_def b(2))
  then have mem: "cleanBlock b \<in> set (List.map_filter filterBlock content)"
    using b(1) by (auto simp: set_map_filter)
  then have f: "filteredContent content = List.map_filter filterBlock content" by (auto simp: filteredContent_def)
  have i: "blockID ''tool_result'' ''tool_use_id'' (cleanBlock b) = Some i"
    using b by (simp add: blockID_def cleanBlock_reads)
  show "i \<in> set (List.map_filter (blockID ''tool_result'' ''tool_use_id'') (filteredContent content))"
    unfolding f set_map_filter [of "blockID _ _"] using mem i by blast
  have "keepBlock (cleanBlock b)" using b(2) by (simp add: keepBlock_def cleanBlock_reads)
  then show "list_ex keepBlock (filteredContent content)" unfolding f using mem by (auto simp: list_ex_iff)
qed

lemma answer_kept:
  assumes "messageHasToolResults nm ids"
  obtains nm' where "mapMessage (JObj nm) = JObj nm'" "keepMessage (JObj nm')" "messageHasToolResults nm' ids"
proof (cases "asStr (mget nm ''role'') = ''tool''")
  case True
  then have "toolTurn nm" "toSystem nm = nm" by (simp_all add: toolTurn_def toSystem_id)
  then show ?thesis using that [of nm] assms by (simp add: mapMessage_JObj keepMessage_def)
next
  case False
  then have u: "asStr (mget nm ''role'') = ''user''" and ids: "ids \<noteq> []"
    and ex: "list_ex (\<lambda>i. i \<in> set ids) (List.map_filter (blockID ''tool_result'' ''tool_use_id'') (elems (mget nm ''content'')))"
    using assms by (auto simp: messageHasToolResults_def Let_def split: if_splits)
  then obtain content where c: "mget nm ''content'' = JArr content"
    by (cases "mget nm ''content''") (simp_all add: elems_def map_filter_simps)
  have n: "\<not> toolTurn nm" "toSystem nm = nm" using u by (simp_all add: toolTurn_def toSystem_id)
  obtain i where i: "i \<in> set ids" "i \<in> set (List.map_filter (blockID ''tool_result'' ''tool_use_id'') content)"
    using ex by (auto simp: c elems_def list_ex_iff)
  let ?n = "gm_set ''content'' (JArr (filteredContent content)) nm"
  have "mapMessage (JObj nm) = JObj ?n" by (simp add: mapMessage_JObj n c)
  moreover have "keepMessage (JObj ?n)" using result_kept(2) [OF i(2)] by (simp add: keepMessage_def mget_gm_set)
  moreover have "messageHasToolResults ?n ids"
    using ids i(1) result_kept(1) [OF i(2)] u by (auto simp: messageHasToolResults_def mget_gm_set elems_def list_ex_iff Let_def)
  ultimately show ?thesis by (rule that)
qed

lemma unanswered_kept:
  assumes "unanswered raw rest = []"
  shows "unanswered (mapMessage raw) (filter keepMessage (map mapMessage rest)) = []"
proof (cases raw)
  case (JObj msg)
  obtain msg' where m': "mapMessage (JObj msg) = JObj msg'" by (simp add: mapMessage_JObj)
  show ?thesis
  proof (cases "assistantToolCallIDs msg' = []")
    case True
    then show ?thesis by (simp add: JObj m' unanswered_def split: list.splits json.splits)
  next
    case False
    with ids_after [OF m'] have ids: "assistantToolCallIDs msg' = assistantToolCallIDs msg" by simp
    show ?thesis
    proof (cases rest)
      case (Cons n later)
      show ?thesis
      proof (cases n)
        case (JObj nm)
        then have "messageHasToolResults nm (assistantToolCallIDs msg')"
          using assms False by (auto simp: \<open>raw = JObj msg\<close> Cons ids unanswered_def Let_def split: if_splits)
        then obtain nm' where "mapMessage (JObj nm) = JObj nm'" "keepMessage (JObj nm')"
          "messageHasToolResults nm' (assistantToolCallIDs msg')" by (rule answer_kept)
        then show ?thesis by (simp add: \<open>raw = JObj msg\<close> m' Cons JObj unanswered_def)
      qed (simp_all add: JObj m' Cons mapMessage_other keepMessage_def unanswered_def)
    qed (simp add: unanswered_none)
  qed
qed (simp_all add: mapMessage_def unanswered_def)

lemma kept_free: "dangling_free ms \<Longrightarrow> dangling_free (filter keepMessage (map mapMessage ms))"
  by (induction ms) (simp_all add: unanswered_kept)

lemma filter_messages:
  "elems (mget (FilterToOpenAIFormat body) ''messages'') = filter keepMessage (map mapMessage (elems (mget body ''messages'')))"
  by (auto simp: FilterToOpenAIFormat_def elems_def filterToolChoice_def filterTools_def Let_def mget_gm_set mget_gm_del split: json.splits)

lemma fix_messages: "elems (mget (FixMissingToolResponses body) ''messages'') = fixMessages (elems (mget body ''messages''))"
  by (auto simp: FixMissingToolResponses_def elems_def mget_gm_set split: json.splits)

text \<open>
  C20. The repair of missing responses keeps every message in order and adds responses only where they are missing, so a
  second repair changes nothing; and in the body that goes upstream, after the chat shape has been cleaned too, no
  assistant turn with tool calls is followed by a message that answers none of them.
\<close>

theorem no_dangling_calls:
  "subseq (elems (mget body ''messages'')) (elems (mget (FixMissingToolResponses body) ''messages'')) \<and>
   elems (mget (FixMissingToolResponses (FixMissingToolResponses body)) ''messages'') = elems (mget (FixMissingToolResponses body) ''messages'') \<and>
   dangling_free (elems (mget (FilterToOpenAIFormat (FixMissingToolResponses body)) ''messages''))"
  by (simp add: fix_messages filter_messages fix_keeps free_fixed fixed_free kept_free)

text \<open>A turn with two calls of which the next message answers one is left as it is: the other call stays unanswered.\<close>

lemma partly_answered:
  "fixMessages [JObj [(''role'', JStr ''assistant''), (''tool_calls'', JArr [JObj [(''id'', JStr ''a'')], JObj [(''id'', JStr ''b'')]])],
     JObj [(''role'', JStr ''tool''), (''tool_call_id'', JStr ''a'')], JObj [(''role'', JStr ''user'')]] =
   [JObj [(''role'', JStr ''assistant''), (''tool_calls'', JArr [JObj [(''id'', JStr ''a'')], JObj [(''id'', JStr ''b'')]])],
     JObj [(''role'', JStr ''tool''), (''tool_call_id'', JStr ''a'')], JObj [(''role'', JStr ''user'')]]"
  by (simp add: unanswered_def assistantToolCallIDs_def messageHasToolResults_def callID_def blockID_def mget_Cons asStr_def elems_def
      map_filter_simps Let_def)

end
