(* ===== verification/ReqTranslate.thy ===== *)
theory ReqTranslate
  imports Prenorm
begin

text \<open>
  The translation of request bodies between the two formats (\<^verbatim>\<open>internal/translate/req_resp2chat.go\<close>, with the
  names of \<^verbatim>\<open>schema.go\<close>). The assertion \<^verbatim>\<open>Clone(x).(map[string]any)\<close> panics when the copy is not a map;
  a panic is \<open>None\<close>. Go's iteration over the set of custom tool names has no order: \<open>tq_order\<close> gives one.
  \<open>tq_clk\<close> is the clock call identifiers are made from.
\<close>

record req_env =
  tq_chunk :: chunk_env
  tq_clk :: "int \<Rightarrow> int"
  tq_order :: "string list \<Rightarrow> string list"

abbreviation tq_codec :: "req_env \<Rightarrow> codec" where
  "tq_codec R \<equiv> ce_codec (tq_chunk R)"

abbreviation lineBreak :: string where
  "lineBreak \<equiv> [CHR 0x0A]"

section \<open>Coercions\<close>

definition jsonStringify :: "codec \<Rightarrow> json \<Rightarrow> string" where
  "jsonStringify co v = (case v of
     JStr s \<Rightarrow> s
   | JNull \<Rightarrow> ''null''
   | _ \<Rightarrow> (case co_encode co v of None \<Rightarrow> ''null'' | Some b \<Rightarrow> b))"

definition orElse :: "json \<Rightarrow> json \<Rightarrow> json" where
  "orElse a b = (if truthy a then a else b)"

definition cloneMap :: "codec \<Rightarrow> jmap \<Rightarrow> jmap option" where
  "cloneMap co m = asObj (Clone (co_encode co) (co_decode co) (JObj m))"

definition itemText :: "json \<Rightarrow> string option" where
  "itemText p = (case p of
     JObj o1 \<Rightarrow> if asStr (mget o1 ''text'') \<noteq> [] then Some (asStr (mget o1 ''text'')) else None
   | _ \<Rightarrow> None)"

definition extractReasoningText :: "jmap \<Rightarrow> string" where
  "extractReasoningText item =
     (let s = List.map_filter itemText (elems (mget item ''summary''));
          c = List.map_filter itemText (elems (mget item ''content''))
      in if s \<noteq> [] then joinWith lineBreak s else if c \<noteq> [] then joinWith lineBreak c else [])"

definition joinNonEmpty :: "string list \<Rightarrow> string \<Rightarrow> string" where
  "joinNonEmpty parts sep = joinWith sep (filter (\<lambda>p. p \<noteq> []) parts)"

definition jsStringOrEmpty :: "chunk_env \<Rightarrow> json \<Rightarrow> string" where
  "jsStringOrEmpty E v = (if \<not> truthy v then [] else jsStringOf E v)"

definition normalizeToolParameters :: "codec \<Rightarrow> json \<Rightarrow> json option" where
  "normalizeToolParameters co params = (case params of
     JObj o1 \<Rightarrow>
       if asStr (mget o1 ''type'') = ''object'' \<and> \<not> truthy (mget o1 ''properties'')
       then (case cloneMap co o1 of
           None \<Rightarrow> None
         | Some c \<Rightarrow> Some (JObj (gm_set ''properties'' (JObj []) c)))
       else Some params
   | _ \<Rightarrow> Some (if \<not> truthy params then JObj [(''type'', JStr ''object''), (''properties'', JObj [])] else params))"

section \<open>Responses to chat\<close>

record r2q =
  rq_messages :: "json list"
  rq_current :: "jmap option"
  rq_results :: "json list"
  rq_reasoning :: string
  rq_encrypted :: string
  rq_tools :: "json list"
  rq_custom :: "string list"

definition flushAssistant :: "r2q \<Rightarrow> r2q" where
  "flushAssistant s = (case rq_current s of
     None \<Rightarrow> s
   | Some m \<Rightarrow> s\<lparr>rq_messages := rq_messages s @ [JObj m], rq_current := None\<rparr>)"

definition flushToolResults :: "r2q \<Rightarrow> r2q" where
  "flushToolResults s = (if rq_results s = [] then s else s\<lparr>rq_messages := rq_messages s @ rq_results s, rq_results := []\<rparr>)"

definition attachPendingReasoning :: "r2q \<Rightarrow> jmap \<Rightarrow> jmap \<times> r2q" where
  "attachPendingReasoning s msg =
     (let m1 = (if rq_reasoning s \<noteq> [] then gm_set ''reasoning_content'' (JStr (rq_reasoning s)) msg else msg);
          m2 = (if rq_encrypted s \<noteq> [] then gm_set ''encrypted_content'' (JStr (rq_encrypted s)) m1 else m1)
      in (m2, s\<lparr>rq_reasoning := [], rq_encrypted := []\<rparr>))"

definition itemTypeOf :: "jmap \<Rightarrow> string" where
  "itemTypeOf item =
     (if \<not> truthy (mget item ''type'') \<and> truthy (mget item ''role'') then ''message'' else asStr (mget item ''type''))"

definition chatPart :: "json \<Rightarrow> json" where
  "chatPart pc = (case pc of
     JObj c \<Rightarrow>
       let t = asStr (mget c ''type'') in
       if t = ''input_text'' \<or> t = ''output_text'' then JObj [(''type'', JStr ''text''), (''text'', mget c ''text'')]
       else if t = ''input_image''
       then JObj [(''type'', JStr ''image_url''), (''image_url'', JObj [
           (''url'', orElse (orElse (mget c ''image_url'') (mget c ''file_id'')) (JStr [])),
           (''detail'', orElse (mget c ''detail'') (JStr ''auto''))])]
       else pc
   | _ \<Rightarrow> pc)"

definition chatContent :: "json \<Rightarrow> json" where
  "chatContent v = (case v of JArr parts \<Rightarrow> JArr (map chatPart parts) | _ \<Rightarrow> v)"

definition onMessage :: "jmap \<Rightarrow> r2q \<Rightarrow> r2q" where
  "onMessage item s0 =
     (let s = flushToolResults (flushAssistant s0);
          msg = [(''role'', mget item ''role''), (''content'', chatContent (mget item ''content''))];
          (msg1, s1) = (if asStr (mget item ''role'') = ''assistant'' then attachPendingReasoning s msg
                        else (msg, s\<lparr>rq_reasoning := [], rq_encrypted := []\<rparr>))
      in s1\<lparr>rq_messages := rq_messages s1 @ [JObj msg1]\<rparr>)"

definition wrappedInput :: "codec \<Rightarrow> json \<Rightarrow> string" where
  "wrappedInput co v = (case v of
     JStr s \<Rightarrow> s
   | JNull \<Rightarrow> [CHR 0x22, CHR 0x22]
   | _ \<Rightarrow> jsonStringify co v)"

definition callArgs :: "codec \<Rightarrow> string \<Rightarrow> jmap \<Rightarrow> string" where
  "callArgs co itemType item =
     (let toolInput = (if itemType = ''custom_tool_call'' then JObj [(''input'', JStr (wrappedInput co (mget item ''input'')))]
                       else mget item ''arguments'')
      in case toolInput of
           JStr s \<Rightarrow> s
         | JNull \<Rightarrow> [CHR 0x7B, CHR 0x7D]
         | _ \<Rightarrow> jsonStringify co toolInput)"

definition openAssistant :: "r2q \<Rightarrow> jmap \<times> r2q" where
  "openAssistant s = (case rq_current s of
     Some m \<Rightarrow> (m, s)
   | None \<Rightarrow> attachPendingReasoning s [(''role'', JStr ''assistant''), (''content'', JNull), (''tool_calls'', JArr [])])"

definition onCall :: "codec \<Rightarrow> string \<Rightarrow> jmap \<Rightarrow> r2q \<Rightarrow> r2q" where
  "onCall co itemType item s0 =
     (let (m, s) = openAssistant s0; name = asStr (mget item ''name'') in
      if trimSpace name = [] then s\<lparr>rq_current := Some m\<rparr>
      else
        let custom = (if itemType = ''custom_tool_call'' then List.insert name (rq_custom s) else rq_custom s);
            call = JObj [(''id'', mget item ''call_id''), (''type'', JStr ''function''),
              (''function'', JObj [(''name'', JStr name), (''arguments'', JStr (callArgs co itemType item))])]
        in s\<lparr>rq_current := Some (gm_set ''tool_calls'' (JArr (elems (mget m ''tool_calls'') @ [call])) m), rq_custom := custom\<rparr>)"

definition onOutput :: "codec \<Rightarrow> jmap \<Rightarrow> r2q \<Rightarrow> r2q" where
  "onOutput co item s0 =
     (let s = flushToolResults (flushAssistant s0);
          toolMsg = [(''role'', JStr ''tool''), (''tool_call_id'', mget item ''call_id'')];
          toolMsg1 = (case gm_get item ''output'' of
              None \<Rightarrow> toolMsg
            | Some out \<Rightarrow> toolMsg @ [(''content'', JStr (jsonStringify co out))])
      in s\<lparr>rq_messages := rq_messages s @ [JObj toolMsg1]\<rparr>)"

definition onReasoning :: "jmap \<Rightarrow> r2q \<Rightarrow> r2q" where
  "onReasoning item s =
     (let t = extractReasoningText item; enc = asStr (mget item ''encrypted_content'') in
      s\<lparr>rq_reasoning := (if t = [] then rq_reasoning s
            else if rq_reasoning s \<noteq> [] then rq_reasoning s @ lineBreak @ t else t),
        rq_encrypted := (if enc \<noteq> [] then enc else rq_encrypted s)\<rparr>)"

definition inputItem :: "codec \<Rightarrow> json \<Rightarrow> r2q \<Rightarrow> r2q" where
  "inputItem co raw s = (case raw of
     JObj item \<Rightarrow>
       let t = itemTypeOf item in
       if t = ''message'' then onMessage item s
       else if t = ''function_call'' \<or> t = ''custom_tool_call'' then onCall co t item s
       else if t = ''function_call_output'' \<or> t = ''custom_tool_call_output'' then onOutput co item s
       else if t = ''additional_tools'' then s\<lparr>rq_tools := rq_tools s @ elems (mget item ''tools'')\<rparr>
       else if t = ''reasoning'' then onReasoning item s
       else s
   | _ \<Rightarrow> s)"

definition inputItems :: "codec \<Rightarrow> json list \<Rightarrow> json list \<Rightarrow> r2q" where
  "inputItems co items messages = flushToolResults (flushAssistant (fold (inputItem co) items
     \<lparr>rq_messages = messages, rq_current = None, rq_results = [], rq_reasoning = [], rq_encrypted = [], rq_tools = [], rq_custom = []\<rparr>))"

text \<open>A tool: \<open>None\<close> is a panic, the empty list a tool that is skipped. The second result is the custom name it declares.\<close>

definition customDescription :: "chunk_env \<Rightarrow> jmap \<Rightarrow> string" where
  "customDescription E tool =
     (let hint = (case mget tool ''format'' of
            JObj f \<Rightarrow> List.map_filter (\<lambda>k. if truthy (mget f k) then Some (jsStringOf E (mget f k)) else None) [''syntax'', ''definition'']
          | _ \<Rightarrow> [])
      in joinNonEmpty [jsStringOrEmpty E (mget tool ''description''), joinNonEmpty hint lineBreak] (lineBreak @ lineBreak))"

definition customTool :: "chunk_env \<Rightarrow> jmap \<Rightarrow> json" where
  "customTool E tool = chatTool (asStr (mget tool ''name'')) (customDescription E tool)
     (JObj [(''type'', JStr ''object''),
        (''properties'', JObj [(''input'', JObj [(''type'', JStr ''string''),
           (''description'', JStr ''Raw freeform input for this custom tool'')])]),
        (''required'', JArr [JStr ''input'']), (''additionalProperties'', JBool False)])"

definition responseTool :: "chunk_env \<Rightarrow> json \<Rightarrow> (json list \<times> string list) option" where
  "responseTool E rt = (case rt of
     JObj tool \<Rightarrow>
       let name = asStr (mget tool ''name'') in
       if truthy (mget tool ''function'') then Some ([rt], [])
       else if trimSpace name = [] then Some ([], [])
       else if asStr (mget tool ''type'') = ''custom'' then Some ([customTool E tool], [name])
       else (case normalizeToolParameters (ce_codec E) (mget tool ''parameters'') of
           None \<Rightarrow> None
         | Some params \<Rightarrow>
             let fn = [(''name'', JStr name), (''description'', JStr (jsStringOrEmpty E (mget tool ''description''))), (''parameters'', params)];
                 fn1 = (if has tool ''strict'' then fn @ [(''strict'', mget tool ''strict'')] else fn)
             in Some ([JObj [(''type'', JStr ''function''), (''function'', JObj fn1)]], []))
   | _ \<Rightarrow> Some ([], []))"

fun responseTools :: "chunk_env \<Rightarrow> json list \<Rightarrow> (json list \<times> string list) option" where
  "responseTools E [] = Some ([], [])"
| "responseTools E (rt # rts) = (case responseTool E rt of
     None \<Rightarrow> None
   | Some (t, n) \<Rightarrow> (case responseTools E rts of None \<Rightarrow> None | Some (ts, ns) \<Rightarrow> Some (t @ ts, n @ ns)))"

definition remapMaxTokens :: "jmap \<Rightarrow> jmap" where
  "remapMaxTokens m =
     (if has m ''max_output_tokens'' then
        gm_del ''max_output_tokens'' (if has m ''max_tokens'' then m else gm_set ''max_tokens'' (mget m ''max_output_tokens'') m)
      else m)"

definition remapEffort :: "jmap \<Rightarrow> jmap" where
  "remapEffort m = (case Get (mget m ''reasoning'') ''effort'' of
     JStr eff \<Rightarrow> gm_set ''reasoning_effort'' (JStr eff) m
   | _ \<Rightarrow> m)"

definition responsesOnlyKeys :: "string list" where
  "responsesOnlyKeys = [''input'', ''instructions'', ''include'', ''prompt_cache_key'', ''store'', ''reasoning'', ''client_metadata'']"

definition systemMessages :: "jmap \<Rightarrow> json list" where
  "systemMessages body =
     (if truthy (mget body ''instructions'')
      then [JObj [(''role'', JStr ''system''), (''content'', mget body ''instructions'')]] else [])"

definition ResponsesToChatRequest :: "req_env \<Rightarrow> jmap \<Rightarrow> jmap option" where
  "ResponsesToChatRequest R body =
     (if \<not> truthy (mget body ''input'') then Some body
      else (case cloneMap (tq_codec R) body of
          None \<Rightarrow> None
        | Some result \<Rightarrow> (case NormalizeResponsesInput (mget body ''input'') of
            None \<Rightarrow> Some body
          | Some items \<Rightarrow>
              let s = inputItems (tq_codec R) items (systemMessages body);
                  tools = elems (mget body ''tools'') @ rq_tools s
              in (case responseTools (tq_chunk R) tools of
                  None \<Rightarrow> None
                | Some (out, names) \<Rightarrow>
                    let r1 = gm_set ''messages'' (JArr (rq_messages s)) result;
                        r2 = (if tools \<noteq> [] then gm_set ''tools'' (JArr out) r1 else r1);
                        custom = fold List.insert names (rq_custom s);
                        r3 = (if custom \<noteq> [] then gm_set ''_customToolNames'' (JArr (map JStr (tq_order R custom))) r2 else r2)
                    in Some (fold gm_del responsesOnlyKeys (remapEffort (remapMaxTokens r3)))))))"

section \<open>Chat to Responses\<close>

definition outputCap :: "jmap \<Rightarrow> json option" where
  "outputCap m = (case gm_get m ''max_completion_tokens'' of Some v \<Rightarrow> Some v | None \<Rightarrow> gm_get m ''max_tokens'')"

definition alreadyResponses :: "string \<Rightarrow> jmap \<Rightarrow> jmap" where
  "alreadyResponses model out0 =
     (let out1 = gm_set ''stream'' (JBool True) (gm_set ''model'' (JStr model) out0);
          out2 = (if has out1 ''max_output_tokens'' then out1
                  else case outputCap out1 of None \<Rightarrow> out1 | Some v \<Rightarrow> gm_set ''max_output_tokens'' v out1)
      in gm_del ''max_completion_tokens'' (gm_del ''max_tokens'' out2))"

definition instructionPart :: "json \<Rightarrow> string option" where
  "instructionPart pc = (case pc of
     JObj o1 \<Rightarrow> (case mget o1 ''text'' of
         JStr s \<Rightarrow> if s \<noteq> [] then Some s else None
       | _ \<Rightarrow> (case mget o1 ''content'' of JStr s \<Rightarrow> if s \<noteq> [] then Some s else None | _ \<Rightarrow> None))
   | _ \<Rightarrow> None)"

definition extractInstructionsText :: "json \<Rightarrow> string" where
  "extractInstructionsText content = (case content of
     JStr s \<Rightarrow> s
   | JArr parts \<Rightarrow> joinWith lineBreak (List.map_filter instructionPart parts)
   | _ \<Rightarrow> [])"

definition reasoningDetail :: "json \<Rightarrow> string option" where
  "reasoningDetail d = (case d of
     JObj o1 \<Rightarrow> (case mget o1 ''text'' of
         JStr s \<Rightarrow> Some s
       | _ \<Rightarrow> (case mget o1 ''content'' of JStr s \<Rightarrow> Some s | _ \<Rightarrow> None))
   | _ \<Rightarrow> None)"

definition summaryTextOf :: "jmap \<Rightarrow> string" where
  "summaryTextOf msg =
     (let rc = asStr (mget msg ''reasoning_content''); r = asStr (mget msg ''reasoning'') in
      if trimSpace rc \<noteq> [] then rc
      else if trimSpace r \<noteq> [] then r
      else (case mget msg ''reasoning_details'' of
          JArr details \<Rightarrow> joinWith lineBreak (List.map_filter reasoningDetail details)
        | _ \<Rightarrow> []))"

definition buildReasoningInputItem :: "jmap \<Rightarrow> json option" where
  "buildReasoningInputItem msg =
     (let e1 = asStr (mget msg ''encrypted_content''); e2 = asStr (mget msg ''reasoning_encrypted_content'');
          e3 = asStr (Get (mget msg ''reasoning'') ''encrypted_content'');
          encrypted = (if e1 \<noteq> [] then e1 else if e2 \<noteq> [] then e2 else e3);
          summaryText = summaryTextOf msg
      in if encrypted = [] \<and> summaryText = [] then None
         else Some (JObj ([(''type'', JStr ''reasoning'')] @
           (if summaryText \<noteq> [] then [(''summary'', JArr [JObj [(''type'', JStr ''summary_text''), (''text'', JStr summaryText)]])] else []) @
           (if encrypted \<noteq> [] then [(''encrypted_content'', JStr encrypted)] else []))))"

definition inputPart :: "codec \<Rightarrow> string \<Rightarrow> json \<Rightarrow> json option" where
  "inputPart co contentType pc = (case pc of
     JObj part \<Rightarrow>
       let t = asStr (mget part ''type'') in
       if t = ''text'' then Some (JObj [(''type'', JStr contentType), (''text'', mget part ''text'')])
       else if t = ''image_url'' then
         let iu = mget part ''image_url'';
             url = (case iu of JStr s \<Rightarrow> s | JObj o1 \<Rightarrow> asStr (mget o1 ''url'') | _ \<Rightarrow> []);
             d = asStr (Get iu ''detail'')
         in Some (JObj [(''type'', JStr ''input_image''), (''image_url'', JStr url), (''detail'', JStr (if d \<noteq> [] then d else ''auto''))])
       else if t = ''input_image'' then Some pc
       else
         let text0 = orElse (orElse (mget part ''text'') (mget part ''content'')) (JStr (jsonStringify co pc))
         in Some (JObj [(''type'', JStr contentType), (''text'', (case text0 of JStr _ \<Rightarrow> text0 | _ \<Rightarrow> JStr (jsonStringify co text0)))])
   | _ \<Rightarrow> None)"

definition inputContent :: "codec \<Rightarrow> string \<Rightarrow> json \<Rightarrow> json list" where
  "inputContent co contentType v = (case v of
     JStr s \<Rightarrow> [JObj [(''type'', JStr contentType), (''text'', JStr s)]]
   | JArr parts \<Rightarrow> List.map_filter (inputPart co contentType) parts
   | _ \<Rightarrow> [])"

definition callInputItem :: "codec \<Rightarrow> (int \<Rightarrow> int) \<Rightarrow> json \<Rightarrow> int \<Rightarrow> json list \<times> int" where
  "callInputItem co clk tcRaw seq = (case tcRaw of
     JObj tc \<Rightarrow>
       let name = trimSpace (asStr (Get (mget tc ''function'') ''name'')) in
       if name = [] then ([], seq)
       else
         let (cid, seq1) = ClampResponsesCallID clk (mget tc ''id'') seq in
         ([JObj [(''type'', JStr ''function_call''), (''call_id'', JStr cid), (''name'', JStr (take MaxToolNameLen name)),
            (''arguments'', JStr (CoerceResponsesArguments co (Get (mget tc ''function'') ''arguments'')))]], seq1)
   | _ \<Rightarrow> ([], seq))"

fun callInputItems :: "codec \<Rightarrow> (int \<Rightarrow> int) \<Rightarrow> json list \<Rightarrow> int \<Rightarrow> json list \<times> int" where
  "callInputItems co clk [] seq = ([], seq)"
| "callInputItems co clk (tc # tcs) seq = (case callInputItem co clk tc seq of (i, seq1) \<Rightarrow>
     case callInputItems co clk tcs seq1 of (is, seq2) \<Rightarrow> (i @ is, seq2))"

definition messageInput :: "codec \<Rightarrow> jmap \<Rightarrow> json list" where
  "messageInput co msg =
     (let role = asStr (mget msg ''role'') in
      if role = ''user'' \<or> role = ''assistant'' then
        let content = inputContent co (if role = ''assistant'' then ''output_text'' else ''input_text'') (mget msg ''content'')
        in (if role = ''assistant'' then (case buildReasoningInputItem msg of None \<Rightarrow> [] | Some r \<Rightarrow> [r]) else []) @
           (if content \<noteq> [] then [JObj [(''type'', JStr ''message''), (''role'', JStr role), (''content'', JArr content)]] else [])
      else [])"

definition toolInput :: "codec \<Rightarrow> (int \<Rightarrow> int) \<Rightarrow> jmap \<Rightarrow> int \<Rightarrow> json list \<times> int" where
  "toolInput co clk msg seq =
     (if asStr (mget msg ''role'') = ''tool'' then
        let (cid, seq1) = ClampResponsesCallID clk (mget msg ''tool_call_id'') seq in
        ([JObj [(''type'', JStr ''function_call_output''), (''call_id'', JStr cid),
           (''output'', JStr (CoerceResponsesOutput co (mget msg ''content'')))]], seq1)
      else ([], seq))"

definition assistantCalls :: "jmap \<Rightarrow> json list" where
  "assistantCalls msg = (if asStr (mget msg ''role'') = ''assistant'' then elems (mget msg ''tool_calls'') else [])"

record q2r =
  qr_input :: "json list"
  qr_instructions :: "string option"
  qr_seq :: int

definition chatMessageInput :: "codec \<Rightarrow> (int \<Rightarrow> int) \<Rightarrow> json \<Rightarrow> q2r \<Rightarrow> q2r" where
  "chatMessageInput co clk raw s = (case raw of
     JObj msg \<Rightarrow>
       let role = asStr (mget msg ''role'') in
       if role = ''system'' \<or> role = ''developer'' then
         (if qr_instructions s = None then s\<lparr>qr_instructions := Some (extractInstructionsText (mget msg ''content''))\<rparr> else s)
       else
         let (calls, seq1) = callInputItems co clk (assistantCalls msg) (qr_seq s);
             (results, seq2) = toolInput co clk msg seq1
         in s\<lparr>qr_input := qr_input s @ messageInput co msg @ calls @ results, qr_seq := seq2\<rparr>
   | _ \<Rightarrow> s)"

definition chatInput :: "codec \<Rightarrow> (int \<Rightarrow> int) \<Rightarrow> json list \<Rightarrow> int \<Rightarrow> q2r" where
  "chatInput co clk messages seq = fold (chatMessageInput co clk) messages \<lparr>qr_input = [], qr_instructions = None, qr_seq = seq\<rparr>"

definition flatChatTool :: "codec \<Rightarrow> json \<Rightarrow> json list option" where
  "flatChatTool co tRaw = (case tRaw of
     JObj tool \<Rightarrow>
       if asStr (mget tool ''type'') = ''function'' then
         let fn = mget tool ''function''; name = trimSpace (asStr (Get fn ''name'')) in
         if name = [] then Some []
         else (case normalizeToolParameters co (Get fn ''parameters'') of
             None \<Rightarrow> None
           | Some params \<Rightarrow>
               let flat = [(''type'', JStr ''function''), (''name'', JStr (take MaxToolNameLen name)),
                     (''description'', JStr (asStr (Get fn ''description''))), (''parameters'', params)]
               in Some [JObj (case fn of
                    JObj f \<Rightarrow> if has f ''strict'' then flat @ [(''strict'', mget f ''strict'')] else flat
                  | _ \<Rightarrow> flat)])
       else Some [tRaw]
   | _ \<Rightarrow> Some [])"

fun flatChatTools :: "codec \<Rightarrow> json list \<Rightarrow> json list option" where
  "flatChatTools co [] = Some []"
| "flatChatTools co (t # ts) = (case flatChatTool co t of
     None \<Rightarrow> None
   | Some x \<Rightarrow> (case flatChatTools co ts of None \<Rightarrow> None | Some xs \<Rightarrow> Some (x @ xs)))"

text \<open>A setting is copied when the request has it.\<close>

definition carry :: "jmap \<Rightarrow> string \<Rightarrow> jmap \<Rightarrow> jmap" where
  "carry body k result = (case gm_get body k of None \<Rightarrow> result | Some v \<Rightarrow> gm_set k v result)"

definition carryCap :: "jmap \<Rightarrow> jmap \<Rightarrow> jmap" where
  "carryCap body result = (case gm_get body ''max_output_tokens'' of
     Some v \<Rightarrow> gm_set ''max_output_tokens'' v result
   | None \<Rightarrow> (case outputCap body of Some v \<Rightarrow> gm_set ''max_output_tokens'' v result | None \<Rightarrow> result))"

definition carryEffort :: "jmap \<Rightarrow> jmap \<Rightarrow> jmap" where
  "carryEffort body result = (case gm_get body ''reasoning_effort'' of
     None \<Rightarrow> result
   | Some v \<Rightarrow> gm_set ''reasoning'' (JObj [(''effort'', v), (''summary'', JStr ''auto'')]) result)"

definition responsesRequest :: "codec \<Rightarrow> (int \<Rightarrow> int) \<Rightarrow> string \<Rightarrow> jmap \<Rightarrow> int \<Rightarrow> (jmap \<times> int) option" where
  "responsesRequest co clk model body seq =
     (let s = chatInput co clk (elems (mget body ''messages'')) seq;
          result = [(''model'', JStr model), (''input'', JArr (qr_input s)), (''stream'', JBool True), (''store'', JBool False),
            (''instructions'', JStr (case qr_instructions s of None \<Rightarrow> [] | Some t \<Rightarrow> t))];
          rest = (\<lambda>r. carry body ''prompt_cache_key'' (carry body ''service_tier'' (carryEffort body (carry body ''reasoning''
            (carry body ''top_p'' (carryCap body (carry body ''temperature'' r)))))))
      in case mget body ''tools'' of
           JArr tools \<Rightarrow> (case flatChatTools co tools of
               None \<Rightarrow> None
             | Some out \<Rightarrow> Some (rest (result @ [(''tools'', JArr out)]), qr_seq s))
         | _ \<Rightarrow> Some (rest result, qr_seq s))"

text \<open>The outer option is a panic, the inner one Go's nil.\<close>

definition ChatRequestToResponsesRequest :: "req_env \<Rightarrow> string \<Rightarrow> jmap option \<Rightarrow> int \<Rightarrow> (jmap option \<times> int) option" where
  "ChatRequestToResponsesRequest R model b seq = (case b of
     None \<Rightarrow> Some (None, seq)
   | Some body \<Rightarrow>
       if truthy (mget body ''input'') then
         (case cloneMap (tq_codec R) body of
            None \<Rightarrow> None
          | Some out \<Rightarrow> Some (Some (alreadyResponses model out), seq))
       else map_option (\<lambda>(r, seq1). (Some r, seq1)) (responsesRequest (tq_codec R) (tq_clk R) model body seq))"

end
