(* ===== verification/ReqTranslateProps.thy ===== *)
theory ReqTranslateProps
  imports ReqTranslate
begin

text \<open>
  What the request translation keeps: read as a sequence of turns (something said, a tool called, a result
  returned), a Responses input and the chat messages made from it are the same, and a chat conversation
  translated to a Responses request and back says the same.
\<close>

section \<open>The turns of a conversation\<close>

datatype turn = Said json json | Called json string string | Returned json json

definition callTurn :: "json \<Rightarrow> turn option" where
  "callTurn v = (case v of
     JObj tc \<Rightarrow> Some (Called (mget tc ''id'') (asStr (Get (mget tc ''function'') ''name'')) (asStr (Get (mget tc ''function'') ''arguments'')))
   | _ \<Rightarrow> None)"

definition saidTurn :: "json \<Rightarrow> json \<Rightarrow> turn list" where
  "saidTurn role content = (if content = JNull then [] else [Said role content])"

definition messageTurns :: "json \<Rightarrow> turn list" where
  "messageTurns v = (case v of
     JObj m \<Rightarrow>
       if has m ''tool_call_id'' then [Returned (mget m ''tool_call_id'') (mget m ''content'')]
       else saidTurn (mget m ''role'') (mget m ''content'') @ List.map_filter callTurn (elems (mget m ''tool_calls''))
   | _ \<Rightarrow> [])"

definition itemTurns :: "codec \<Rightarrow> json \<Rightarrow> turn list" where
  "itemTurns co raw = (case raw of
     JObj item \<Rightarrow>
       let t = itemTypeOf item in
       if t = ''message'' then saidTurn (mget item ''role'') (chatContent (mget item ''content''))
       else if t = ''function_call'' \<or> t = ''custom_tool_call'' then
         (if trimSpace (asStr (mget item ''name'')) = [] then []
          else [Called (mget item ''call_id'') (asStr (mget item ''name'')) (callArgs co t item)])
       else if t = ''function_call_output'' \<or> t = ''custom_tool_call_output''
       then [Returned (mget item ''call_id'') (case gm_get item ''output'' of None \<Rightarrow> JNull | Some out \<Rightarrow> JStr (jsonStringify co out))]
       else []
   | _ \<Rightarrow> [])"

definition turnsOf :: "json list \<Rightarrow> turn list" where
  "turnsOf messages = concat (map messageTurns messages)"

section \<open>A Responses input as chat messages\<close>

definition open_ok :: "r2q \<Rightarrow> bool" where
  "open_ok s \<longleftrightarrow> rq_results s = [] \<and>
     (case rq_current s of None \<Rightarrow> True | Some m \<Rightarrow> \<not> has m ''tool_call_id'' \<and> mget m ''content'' = JNull)"

definition stateTurns :: "r2q \<Rightarrow> turn list" where
  "stateTurns s = turnsOf (rq_messages s) @ (case rq_current s of None \<Rightarrow> [] | Some m \<Rightarrow> messageTurns (JObj m))"

lemma turnsOf_append: "turnsOf (a @ b) = turnsOf a @ turnsOf b"
  by (simp add: turnsOf_def)

lemma turnsOf_one: "turnsOf [m] = messageTurns m" "turnsOf [] = []"
  by (simp_all add: turnsOf_def)

lemma flush_ok:
  assumes "open_ok s"
  shows "rq_current (flushToolResults (flushAssistant s)) = None" and "rq_results (flushToolResults (flushAssistant s)) = []"
    and "turnsOf (rq_messages (flushToolResults (flushAssistant s))) = stateTurns s"
  using assms by (auto simp: open_ok_def flushAssistant_def flushToolResults_def stateTurns_def turnsOf_append turnsOf_one split: option.splits)

lemma attach_reads:
  assumes "attachPendingReasoning s msg = (m, s')"
  shows "k \<noteq> ''reasoning_content'' \<Longrightarrow> k \<noteq> ''encrypted_content'' \<Longrightarrow> mget m k = mget msg k"
    and "k \<noteq> ''reasoning_content'' \<Longrightarrow> k \<noteq> ''encrypted_content'' \<Longrightarrow> has m k = has msg k"
    and "rq_messages s' = rq_messages s" and "rq_current s' = rq_current s" and "rq_results s' = rq_results s"
  using assms by (auto simp: attachPendingReasoning_def Let_def mget_gm_set has_gm_set split: if_splits)

lemma message_turns:
  assumes "open_ok s"
  shows "open_ok (onMessage item s) \<and> stateTurns (onMessage item s) = stateTurns s @ saidTurn (mget item ''role'') (chatContent (mget item ''content''))"
proof -
  define s1 where "s1 = flushToolResults (flushAssistant s)"
  note f = flush_ok [OF assms, folded s1_def]
  define msg where "msg = [(''role'', mget item ''role''), (''content'', chatContent (mget item ''content''))]"
  obtain m s2 where a: "(if asStr (mget item ''role'') = ''assistant'' then attachPendingReasoning s1 msg
      else (msg, s1\<lparr>rq_reasoning := [], rq_encrypted := []\<rparr>)) = (m, s2)" by force
  have reads: "mget m ''role'' = mget msg ''role''" "mget m ''content'' = mget msg ''content''" "mget m ''tool_calls'' = mget msg ''tool_calls''"
    "has m ''tool_call_id'' = has msg ''tool_call_id''"
    "rq_messages s2 = rq_messages s1" "rq_current s2 = rq_current s1" "rq_results s2 = rq_results s1"
    using a attach_reads [of s1 msg m s2] by (auto split: if_splits)
  have "messageTurns (JObj m) = saidTurn (mget item ''role'') (chatContent (mget item ''content''))"
    by (simp add: messageTurns_def reads) (simp add: msg_def mget_Cons has_def elems_def map_filter_simps mget_def)
  moreover have "onMessage item s = s2\<lparr>rq_messages := rq_messages s2 @ [JObj m]\<rparr>"
    unfolding onMessage_def Let_def s1_def [symmetric] msg_def [symmetric] a by simp
  ultimately show ?thesis using f by (simp add: open_ok_def stateTurns_def turnsOf_append turnsOf_one reads)
qed

lemma openAssistant_ok:
  assumes "open_ok s" and "openAssistant s = (m, s')"
  shows "\<not> has m ''tool_call_id''" and "mget m ''content'' = JNull" and "rq_results s' = []" and "rq_messages s' = rq_messages s"
    and "turnsOf (rq_messages s) @ messageTurns (JObj m) = stateTurns s"
proof -
  have "\<not> has m ''tool_call_id'' \<and> mget m ''content'' = JNull \<and> rq_results s' = [] \<and> rq_messages s' = rq_messages s \<and>
    turnsOf (rq_messages s) @ messageTurns (JObj m) = stateTurns s"
  proof (cases "rq_current s")
    case None
    note a = attach_reads [OF assms(2) [unfolded openAssistant_def None, simplified]]
    show ?thesis using assms(1)
      by (simp add: a open_ok_def stateTurns_def None messageTurns_def saidTurn_def) (simp add: mget_Cons has_def elems_def map_filter_simps)
  next
    case (Some m')
    then show ?thesis using assms by (simp add: openAssistant_def open_ok_def stateTurns_def)
  qed
  then show "\<not> has m ''tool_call_id''" and "mget m ''content'' = JNull" and "rq_results s' = []" and "rq_messages s' = rq_messages s"
    and "turnsOf (rq_messages s) @ messageTurns (JObj m) = stateTurns s" by blast+
qed

lemma call_turns:
  assumes "open_ok s"
  shows "open_ok (onCall co t item s) \<and> stateTurns (onCall co t item s) = stateTurns s @
    (if trimSpace (asStr (mget item ''name'')) = [] then [] else [Called (mget item ''call_id'') (asStr (mget item ''name'')) (callArgs co t item)])"
proof -
  obtain m s1 where o: "openAssistant s = (m, s1)" by force
  note m = openAssistant_ok [OF assms o]
  show ?thesis
  proof (cases "trimSpace (asStr (mget item ''name'')) = []")
    case True
    then show ?thesis using m by (simp add: onCall_def o open_ok_def stateTurns_def)
  next
    case False
    define call where "call = JObj [(''id'', mget item ''call_id''), (''type'', JStr ''function''),
      (''function'', JObj [(''name'', JStr (asStr (mget item ''name''))), (''arguments'', JStr (callArgs co t item))])]"
    have c: "callTurn call = Some (Called (mget item ''call_id'') (asStr (mget item ''name'')) (callArgs co t item))"
      by (simp add: call_def callTurn_def mget_Cons Get_def asStr_def [of "JStr _"])
    have "messageTurns (JObj (gm_set ''tool_calls'' (JArr (elems (mget m ''tool_calls'') @ [call])) m)) =
        messageTurns (JObj m) @ [Called (mget item ''call_id'') (asStr (mget item ''name'')) (callArgs co t item)]"
      using m(1) by (simp add: messageTurns_def has_gm_set mget_gm_set elems_def [of "JArr _"] map_filter_append map_filter_simps c)
    then show ?thesis using m False
      by (simp add: onCall_def o Let_def open_ok_def stateTurns_def has_gm_set mget_gm_set call_def [symmetric] flip: append_assoc)
  qed
qed

lemma output_turns:
  assumes "open_ok s"
  shows "open_ok (onOutput co item s) \<and> stateTurns (onOutput co item s) = stateTurns s @
    [Returned (mget item ''call_id'') (case gm_get item ''output'' of None \<Rightarrow> JNull | Some out \<Rightarrow> JStr (jsonStringify co out))]"
  using flush_ok [OF assms]
  by (cases "gm_get item ''output''")
    (simp_all add: onOutput_def Let_def open_ok_def stateTurns_def turnsOf_append turnsOf_one messageTurns_def has_def mget_Cons, simp add: mget_def)

lemma item_turns:
  "open_ok s \<Longrightarrow> open_ok (inputItem co raw s) \<and> stateTurns (inputItem co raw s) = stateTurns s @ itemTurns co raw"
  using message_turns [of s] call_turns [of s co] output_turns [of s co]
  by (cases raw) (simp_all add: inputItem_def itemTurns_def Let_def, simp add: open_ok_def stateTurns_def onReasoning_def Let_def)

lemma items_turns:
  "open_ok s \<Longrightarrow> open_ok (fold (inputItem co) items s) \<and>
     stateTurns (fold (inputItem co) items s) = stateTurns s @ concat (map (itemTurns co) items)"
proof (induction items arbitrary: s)
  case (Cons raw items)
  then show ?case using item_turns [OF Cons.prems, of co raw] by simp
qed simp

lemma input_turns: "turnsOf (rq_messages (inputItems co items ms)) = turnsOf ms @ concat (map (itemTurns co) items)"
proof -
  let ?s = "\<lparr>rq_messages = ms, rq_current = None, rq_results = [], rq_reasoning = [], rq_encrypted = [], rq_tools = [], rq_custom = []\<rparr>"
  have "open_ok ?s" by (simp add: open_ok_def)
  from items_turns [OF this, of co items] have f: "open_ok (fold (inputItem co) items ?s)"
    "stateTurns (fold (inputItem co) items ?s) = stateTurns ?s @ concat (map (itemTurns co) items)" by simp_all
  show ?thesis using flush_ok(3) [OF f(1)] f(2) by (simp add: inputItems_def stateTurns_def)
qed


lemma mget_fold_del: "mget (fold gm_del ks m) k = (if k \<in> set ks then JNull else mget m k)"
  by (simp add: mget_def fold_gm_del)

lemma mget_if: "mget (if b then m1 else m2) k = (if b then mget m1 k else mget m2 k)"
  by simp

lemma remap_messages: "mget (remapEffort (remapMaxTokens m)) ''messages'' = mget m ''messages''"
proof -
  have "mget (remapEffort m) ''messages'' = mget m ''messages''" for m
    by (cases "Get (mget m ''reasoning'') ''effort''") (simp_all add: remapEffort_def mget_gm_set)
  moreover have "mget (remapMaxTokens m) ''messages'' = mget m ''messages''"
    by (simp add: remapMaxTokens_def mget_gm_set mget_gm_del)
  ultimately show ?thesis by simp
qed

lemma chat_messages:
  assumes "truthy (mget body ''input'')" and "NormalizeResponsesInput (mget body ''input'') = Some items"
    and "ResponsesToChatRequest R body = Some chat"
  shows "mget chat ''messages'' = JArr (rq_messages (inputItems (tq_codec R) items (systemMessages body)))"
proof -
  have keys: "''messages'' \<notin> set responsesOnlyKeys" by (simp add: responsesOnlyKeys_def)
  from assms(1,2,3) obtain result out names where r: "cloneMap (tq_codec R) body = Some result"
    "responseTools (tq_chunk R) (elems (mget body ''tools'') @ rq_tools (inputItems (tq_codec R) items (systemMessages body))) = Some (out, names)"
    unfolding ResponsesToChatRequest_def Let_def by (simp split: option.splits prod.splits)
  from assms(3) have "Some chat = Some (fold gm_del responsesOnlyKeys (remapEffort (remapMaxTokens
      (let s = inputItems (tq_codec R) items (systemMessages body); tools = elems (mget body ''tools'') @ rq_tools s;
           r1 = gm_set ''messages'' (JArr (rq_messages s)) result;
           r2 = (if tools \<noteq> [] then gm_set ''tools'' (JArr out) r1 else r1);
           custom = fold List.insert names (rq_custom s)
       in if custom \<noteq> [] then gm_set ''_customToolNames'' (JArr (map JStr (tq_order R custom))) r2 else r2))))"
    by (simp only: ResponsesToChatRequest_def Let_def assms(1,2) r option.case prod.case if_False not_True_eq_False simp_thms)
  then show ?thesis
    by (simp add: mget_fold_del remap_messages mget_gm_set mget_if keys Let_def)
qed

section \<open>A sample\<close>

definition sample_codec :: codec where
  "sample_codec = \<lparr>co_encode = (\<lambda>_. Some []), co_decode = (\<lambda>_. Some (JObj [])), co_valid = (\<lambda>_. True), co_sprint = (\<lambda>_. [])\<rparr>"

definition sample_req :: req_env where
  "sample_req = \<lparr>tq_chunk = \<lparr>ce_num = \<lparr>ne_round = Fin, ne_parse = (\<lambda>_. (NaN, None)), ne_format_f = (\<lambda>_. []), ne_format_g = (\<lambda>_. [])\<rparr>,
       ce_codec = sample_codec, ce_stringify = (\<lambda>_. None), ce_int64 = (\<lambda>_. 0)\<rparr>,
     tq_clk = (\<lambda>n. n), tq_order = (\<lambda>ns. ns)\<rparr>"


lemma sample_returns:
  assumes "mget body ''input'' = JArr items" and "items \<noteq> []" and "elems (mget body ''tools'') = []"
    and "rq_tools (inputItems sample_codec items (systemMessages body)) = []"
  shows "\<exists>chat. ResponsesToChatRequest sample_req body = Some chat"
proof -
  have "cloneMap sample_codec body = Some []" by (simp add: cloneMap_def Clone_def sample_codec_def asObj_def)
  moreover have "tq_codec sample_req = sample_codec" by (simp add: sample_req_def)
  ultimately show ?thesis
    using assms by (simp add: ResponsesToChatRequest_def Let_def truthy_def NormalizeResponsesInput_def)
qed

lemma tools_kept:
  "rq_tools (flushToolResults s) = rq_tools s" "rq_tools (flushAssistant s) = rq_tools s"
  "rq_tools (snd (attachPendingReasoning s m)) = rq_tools s"
  by (auto simp: flushToolResults_def flushAssistant_def attachPendingReasoning_def Let_def split: option.splits)


section \<open>What a client means and what the upstream reads\<close>






















section \<open>Chat to Responses and back\<close>

text \<open>A list of one text part reads as its text.\<close>

definition plainText :: "json \<Rightarrow> json" where
  "plainText c = (case c of
     JArr [JObj b] \<Rightarrow> if asStr (mget b ''type'') = ''text'' then mget b ''text'' else c
   | _ \<Rightarrow> c)"

fun plain :: "turn \<Rightarrow> turn" where
  "plain (Said role c) = Said role (plainText c)"
| "plain t = t"

definition goodId :: "json \<Rightarrow> bool" where
  "goodId v = (case v of JStr i \<Rightarrow> i \<noteq> [] \<and> length i \<le> MaxResponsesCallID | _ \<Rightarrow> False)"

definition goodChatCall :: "codec \<Rightarrow> json \<Rightarrow> bool" where
  "goodChatCall co v = (case v of
     JObj tc \<Rightarrow> goodId (mget tc ''id'') \<and>
       (let n = asStr (Get (mget tc ''function'') ''name'') in n \<noteq> [] \<and> trimSpace n = n \<and> length n \<le> MaxToolNameLen) \<and>
       (let a = asStr (Get (mget tc ''function'') ''arguments'') in a \<noteq> [] \<and> co_valid co a)
   | _ \<Rightarrow> False)"

definition isText :: "json \<Rightarrow> bool" where
  "isText v = (case v of JStr _ \<Rightarrow> True | _ \<Rightarrow> False)"

definition goodChat :: "codec \<Rightarrow> json \<Rightarrow> bool" where
  "goodChat co raw = (case raw of
     JObj m \<Rightarrow>
       let role = asStr (mget m ''role'') in
       if role = ''user'' then isText (mget m ''content'') \<and> \<not> has m ''tool_call_id'' \<and> elems (mget m ''tool_calls'') = []
       else if role = ''assistant''
       then (isText (mget m ''content'') \<or> mget m ''content'' = JNull) \<and> \<not> has m ''tool_call_id'' \<and>
         list_all (goodChatCall co) (elems (mget m ''tool_calls''))
       else role = ''tool'' \<and> goodId (mget m ''tool_call_id'') \<and> isText (mget m ''content'')
   | _ \<Rightarrow> False)"

lemma isText_iff: "isText v \<longleftrightarrow> (\<exists>t. v = JStr t)"
  by (cases v) (simp_all add: isText_def)

lemma clamp_good:
  "goodId v \<Longrightarrow> ClampResponsesCallID clk v seq = (asStr v, seq)"
  "goodId v \<Longrightarrow> JStr (asStr v) = v"
  by (cases v; simp add: goodId_def ClampResponsesCallID_def asStr_def Let_def)+

lemma asStr_text: "asStr (JStr t) = t"
  by (simp add: asStr_def)

lemma type_first: "itemTypeOf ((''type'', JStr t) # m) = (if t = [] \<and> truthy (mget m ''role'') then ''message'' else t)"
  by (simp add: itemTypeOf_def mget_Cons asStr_text truthy_def)

lemma args_good: "asStr v \<noteq> [] \<Longrightarrow> co_valid co (asStr v) \<Longrightarrow> CoerceResponsesArguments co v = asStr v"
  by (cases v) (simp_all add: asStr_def CoerceResponsesArguments_def Let_def)

lemma call_item_good:
  assumes "goodChatCall co v"
  shows "\<exists>items. callInputItem co clk v seq = (items, seq) \<and> concat (map (itemTurns co) items) = List.map_filter callTurn [v]"
proof -
  obtain tc where v: "v = JObj tc" using assms by (cases v) (simp_all add: goodChatCall_def)
  have g: "goodId (mget tc ''id'')" "asStr (Get (mget tc ''function'') ''name'') \<noteq> []"
    "trimSpace (asStr (Get (mget tc ''function'') ''name'')) = asStr (Get (mget tc ''function'') ''name'')"
    "length (asStr (Get (mget tc ''function'') ''name'')) \<le> MaxToolNameLen"
    "asStr (Get (mget tc ''function'') ''arguments'') \<noteq> []" "co_valid co (asStr (Get (mget tc ''function'') ''arguments''))"
    using assms by (simp_all add: v goodChatCall_def Let_def)
  note c = clamp_good(1) [OF g(1), of clk seq] and i = clamp_good(2) [OF g(1)]
  show ?thesis
    by (simp add: v callInputItem_def g c args_good Let_def itemTurns_def type_first mget_Cons asStr_text callArgs_def
        callTurn_def map_filter_simps i)
qed

lemma call_items_good:
  "list_all (goodChatCall co) calls \<Longrightarrow>
   \<exists>items. callInputItems co clk calls seq = (items, seq) \<and> concat (map (itemTurns co) items) = List.map_filter callTurn calls"
proof (induction calls)
  case (Cons v calls)
  obtain items where i: "callInputItems co clk calls seq = (items, seq)" "concat (map (itemTurns co) items) = List.map_filter callTurn calls"
    using Cons by auto
  obtain items1 where i1: "callInputItem co clk v seq = (items1, seq)" "concat (map (itemTurns co) items1) = List.map_filter callTurn [v]"
    using call_item_good [of co v clk seq] Cons.prems by auto
  show ?case using i i1 map_filter_append [of callTurn "[v]" calls] by simp
qed (simp add: map_filter_simps)

lemma reasoning_turns: "buildReasoningInputItem msg = Some r \<Longrightarrow> itemTurns co r = []"
  by (auto simp: buildReasoningInputItem_def Let_def itemTurns_def type_first split: if_splits)

lemma reasoning_items:
  "concat (map (itemTurns co) (case buildReasoningInputItem m of None \<Rightarrow> [] | Some r \<Rightarrow> [r])) = []"
  by (cases "buildReasoningInputItem m") (simp_all add: reasoning_turns)

lemma message_item_turns:
  "itemTurns co (JObj [(''type'', JStr ''message''), (''role'', JStr role), (''content'', JArr [JObj [(''type'', JStr t), (''text'', JStr s)]])]) =
     (if t = ''input_text'' \<or> t = ''output_text'' then [Said (JStr role) (JArr [JObj [(''type'', JStr ''text''), (''text'', JStr s)]])]
      else [Said (JStr role) (JArr [chatPart (JObj [(''type'', JStr t), (''text'', JStr s)])])])"
  by (simp add: itemTurns_def type_first mget_Cons saidTurn_def chatContent_def chatPart_def asStr_text)

lemma plain_text: "plainText (JArr [JObj [(''type'', JStr ''text''), (''text'', JStr s)]]) = JStr s" "plainText (JStr s) = JStr s"
  by (simp_all add: plainText_def mget_Cons asStr_text)

lemma asStr_eq: "asStr v = t \<Longrightarrow> t \<noteq> [] \<Longrightarrow> v = JStr t"
  by (cases v) (simp_all add: asStr_def)

lemma said_items:
  assumes "asStr (mget m ''role'') = ''user'' \<or> asStr (mget m ''role'') = ''assistant''"
    and "isText (mget m ''content'') \<or> mget m ''content'' = JNull"
  shows "map plain (concat (map (itemTurns co) (messageInput co m))) = map plain (saidTurn (mget m ''role'') (mget m ''content''))"
proof -
  define role where "role = asStr (mget m ''role'')"
  have role: "role = ''user'' \<or> role = ''assistant''" "mget m ''role'' = JStr role"
    using assms(1) asStr_eq [of "mget m ''role''" role] by (auto simp: role_def)
  obtain rs ct where mi: "messageInput co m = rs @ (let content = inputContent co ct (mget m ''content'') in
      if content \<noteq> [] then [JObj [(''type'', JStr ''message''), (''role'', JStr role), (''content'', JArr content)]] else [])"
    and rs: "concat (map (itemTurns co) rs) = []" and ct: "ct = ''input_text'' \<or> ct = ''output_text''"
  proof (cases "role = ''assistant''")
    case True
    show ?thesis
    proof (rule that)
      show "messageInput co m = (case buildReasoningInputItem m of None \<Rightarrow> [] | Some r \<Rightarrow> [r]) @
          (let content = inputContent co ''output_text'' (mget m ''content'') in
           if content \<noteq> [] then [JObj [(''type'', JStr ''message''), (''role'', JStr role), (''content'', JArr content)]] else [])"
        unfolding messageInput_def Let_def role_def [symmetric] True by (simp only: if_True refl simp_thms)
    qed (simp_all only: reasoning_items refl simp_thms)
  next
    case False
    with role have u: "role = ''user''" by blast
    show ?thesis
    proof (rule that)
      show "messageInput co m = [] @ (let content = inputContent co ''input_text'' (mget m ''content'') in
           if content \<noteq> [] then [JObj [(''type'', JStr ''message''), (''role'', JStr role), (''content'', JArr content)]] else [])"
        using False unfolding messageInput_def Let_def role_def [symmetric] u by (simp only: if_True if_False refl simp_thms)
    qed simp_all
  qed
  show ?thesis
  proof (cases "mget m ''content'' = JNull")
    case True
    then have "inputContent co ct (mget m ''content'') = []" by (simp add: inputContent_def)
    then show ?thesis by (simp add: mi rs True saidTurn_def)
  next
    case False
    then obtain t where t: "mget m ''content'' = JStr t" using assms(2) by (auto simp: isText_iff)
    then have c: "inputContent co ct (mget m ''content'') = [JObj [(''type'', JStr ct), (''text'', JStr t)]]"
      by (simp add: inputContent_def)
    have "messageInput co m = rs @ [JObj [(''type'', JStr ''message''), (''role'', JStr role), (''content'', JArr [JObj [(''type'', JStr ct), (''text'', JStr t)]])]]"
      by (simp add: mi c)
    then show ?thesis using ct by (auto simp: rs t saidTurn_def role(2) message_item_turns plain_text)
  qed
qed

lemma result_items:
  assumes "asStr (mget m ''role'') = ''tool''" and "goodId (mget m ''tool_call_id'')" and "mget m ''content'' = JStr t"
  shows "\<exists>items. toolInput co clk m seq = (items, seq) \<and> concat (map (itemTurns co) items) = [Returned (mget m ''tool_call_id'') (JStr t)]"
  by (simp add: toolInput_def assms(1,3) clamp_good [OF assms(2)] CoerceResponsesOutput_def itemTurns_def type_first mget_Cons
      jsonStringify_def)

lemma good_message:
  assumes "goodChat co raw"
  shows "\<exists>items. chatMessageInput co clk raw s = s\<lparr>qr_input := qr_input s @ items\<rparr> \<and>
    map plain (concat (map (itemTurns co) items)) = map plain (messageTurns raw)"
proof -
  obtain m where m: "raw = JObj m" using assms by (cases raw) (simp_all add: goodChat_def)
  define role where "role = asStr (mget m ''role'')"
  have roles: "role = ''user'' \<or> role = ''assistant'' \<or> role = ''tool''"
    using assms by (auto simp: m goodChat_def Let_def role_def [symmetric] split: if_splits)
  then have step: "chatMessageInput co clk raw s = (case callInputItems co clk (assistantCalls m) (qr_seq s) of (calls, seq1) \<Rightarrow>
      case toolInput co clk m seq1 of (results, seq2) \<Rightarrow> s\<lparr>qr_input := qr_input s @ messageInput co m @ calls @ results, qr_seq := seq2\<rparr>)"
    by (auto simp: m chatMessageInput_def Let_def role_def)
  show ?thesis
  proof (cases "role = ''tool''")
    case True
    then have g: "goodId (mget m ''tool_call_id'')" "isText (mget m ''content'')" using assms by (simp_all add: m goodChat_def role_def)
    then obtain t where t: "mget m ''content'' = JStr t" by (auto simp: isText_iff)
    obtain items where i: "toolInput co clk m (qr_seq s) = (items, qr_seq s)"
      "concat (map (itemTurns co) items) = [Returned (mget m ''tool_call_id'') (JStr t)]"
      using result_items [OF True [unfolded role_def] g(1) t, of co clk "qr_seq s"] by blast
    have h: "has m ''tool_call_id''" using g(1) by (auto simp: has_def mget_def goodId_def split: option.splits)
    have "messageInput co m = []" "assistantCalls m = []" using True by (simp_all add: messageInput_def assistantCalls_def role_def)
    then show ?thesis unfolding step using i h by (auto simp: m messageTurns_def t)
  next
    case False
    with roles have ua: "role = ''user'' \<or> role = ''assistant''" by simp
    then have g: "isText (mget m ''content'') \<or> mget m ''content'' = JNull" "\<not> has m ''tool_call_id''"
      "list_all (goodChatCall co) (elems (mget m ''tool_calls''))" "role = ''user'' \<Longrightarrow> elems (mget m ''tool_calls'') = []"
      using assms by (auto simp: m goodChat_def Let_def role_def [symmetric])
    then have a: "assistantCalls m = elems (mget m ''tool_calls'')" using ua by (auto simp: assistantCalls_def role_def)
    obtain items where i: "callInputItems co clk (assistantCalls m) (qr_seq s) = (items, qr_seq s)"
      "concat (map (itemTurns co) items) = List.map_filter callTurn (elems (mget m ''tool_calls''))"
      using call_items_good [OF g(3), of clk "qr_seq s"] a by auto
    have t: "toolInput co clk m (qr_seq s) = ([], qr_seq s)" using False by (simp add: toolInput_def role_def)
    show ?thesis unfolding step using i t g(2) said_items [OF ua [unfolded role_def] g(1), of co]
      by (intro exI [of _ "messageInput co m @ items"]) (simp add: m messageTurns_def)
  qed
qed

lemma good_messages:
  "list_all (goodChat co) ms \<Longrightarrow> \<exists>items. fold (chatMessageInput co clk) ms s = s\<lparr>qr_input := qr_input s @ items\<rparr> \<and>
    map plain (concat (map (itemTurns co) items)) = map plain (turnsOf ms)"
proof (induction ms arbitrary: s)
  case (Cons raw ms)
  obtain i1 where i1: "chatMessageInput co clk raw s = s\<lparr>qr_input := qr_input s @ i1\<rparr>"
    "map plain (concat (map (itemTurns co) i1)) = map plain (messageTurns raw)" using good_message [of co raw clk s] Cons.prems by auto
  obtain i2 where i2: "fold (chatMessageInput co clk) ms (s\<lparr>qr_input := qr_input s @ i1\<rparr>) = s\<lparr>qr_input := (qr_input s @ i1) @ i2\<rparr>"
    "map plain (concat (map (itemTurns co) i2)) = map plain (turnsOf ms)" using Cons.IH [of "s\<lparr>qr_input := qr_input s @ i1\<rparr>"] Cons.prems by auto
  show ?case using i1 i2 by (intro exI [of _ "i1 @ i2"]) (simp add: turnsOf_def)
next
  case Nil
  show ?case by (rule exI [of _ "[]"]) (simp add: turnsOf_def)
qed

definition systemPart :: "string \<Rightarrow> json list" where
  "systemPart t = (if t \<noteq> [] then [JObj [(''role'', JStr ''system''), (''content'', JStr t)]] else [])"

lemma system_input:
  "fold (chatMessageInput co clk) (systemPart t) \<lparr>qr_input = [], qr_instructions = None, qr_seq = seq\<rparr> =
   \<lparr>qr_input = [], qr_instructions = (if t \<noteq> [] then Some t else None), qr_seq = seq\<rparr>"
  by (simp add: systemPart_def chatMessageInput_def mget_Cons asStr_text extractInstructionsText_def)

lemma carry_reads:
  "k \<noteq> k' \<Longrightarrow> mget (carry body k' m) k = mget m k"
  "k \<noteq> ''max_output_tokens'' \<Longrightarrow> mget (carryCap body m) k = mget m k"
  "k \<noteq> ''reasoning'' \<Longrightarrow> mget (carryEffort body m) k = mget m k"
  by (auto simp: carry_def carryCap_def carryEffort_def mget_gm_set split: option.splits)

lemma request_reads:
  assumes "responsesRequest co clk model body seq = Some (req, seq1)"
  shows "mget req ''input'' = JArr (qr_input (chatInput co clk (elems (mget body ''messages'')) seq))"
    and "mget req ''instructions'' = JStr (case qr_instructions (chatInput co clk (elems (mget body ''messages'')) seq) of None \<Rightarrow> [] | Some t \<Rightarrow> t)"
  using assms by (auto simp: responsesRequest_def Let_def carry_reads mget_Cons split: json.splits option.splits)

text \<open>
  C19. A chat conversation with textual messages, whose calls and results carry identifiers, names and arguments the
  Responses endpoint accepts, translated to a Responses request and back to chat, says the same: the system text first,
  then every message, call and result in order, a text being allowed to come back as a list of one text part.
\<close>

theorem request_round_trip:
  assumes "\<not> truthy (mget body ''input'')" and "mget body ''messages'' = JArr (systemPart t @ ms)"
    and "list_all (goodChat (tq_codec R)) ms" and "turnsOf ms \<noteq> []"
    and "ChatRequestToResponsesRequest R model (Some body) seq = Some (Some req, seq1)"
    and "ResponsesToChatRequest R req = Some chat"
  shows "map plain (turnsOf (elems (mget chat ''messages''))) = map plain (turnsOf (elems (mget body ''messages'')))"
proof -
  let ?co = "tq_codec R" and ?s0 = "\<lparr>qr_input = [], qr_instructions = (if t \<noteq> [] then Some t else None), qr_seq = seq\<rparr>"
  obtain items where i: "fold (chatMessageInput ?co (tq_clk R)) ms ?s0 = ?s0\<lparr>qr_input := qr_input ?s0 @ items\<rparr>"
    "map plain (concat (map (itemTurns ?co) items)) = map plain (turnsOf ms)" using good_messages [OF assms(3)] by blast
  have c: "chatInput ?co (tq_clk R) (elems (mget body ''messages'')) seq = ?s0\<lparr>qr_input := items\<rparr>"
    using i(1) by (simp add: assms(2) elems_def chatInput_def system_input)
  have "responsesRequest ?co (tq_clk R) model body seq = Some (req, seq1)"
    using assms(1,5) by (auto simp: ChatRequestToResponsesRequest_def)
  note req = request_reads [OF this, unfolded c]
  have "items \<noteq> []" using i(2) assms(4) by auto
  then have n: "truthy (mget req ''input'')" "NormalizeResponsesInput (mget req ''input'') = Some items"
    by (simp_all add: req truthy_def NormalizeResponsesInput_def)
  have m: "elems (mget chat ''messages'') = rq_messages (inputItems ?co items (systemMessages req))"
    by (simp add: chat_messages [OF n assms(6)] elems_def)
  have sys: "turnsOf (systemMessages req) = turnsOf (systemPart t)"
    by (simp add: systemMessages_def req systemPart_def truthy_def)
  have e: "elems (mget body ''messages'') = systemPart t @ ms" by (simp add: assms(2) elems_def)
  show ?thesis by (simp add: m input_turns sys i(2) e turnsOf_append)
qed

theorem request_round_trip_witness:
  "map plain (turnsOf (elems (mget (the (ResponsesToChatRequest sample_req (the (fst (the (ChatRequestToResponsesRequest sample_req ''m''
       (Some [(''messages'', JArr [JObj [(''role'', JStr ''user''), (''content'', JStr ''hi'')]])]) 0)))))) ''messages''))) =
     [Said (JStr ''user'') (JStr ''hi'')]"
proof -
  let ?m = "JObj [(''role'', JStr ''user''), (''content'', JStr ''hi'')]"
  let ?body = "[(''messages'', JArr [?m])]"
  let ?item = "JObj [(''type'', JStr ''message''), (''role'', JStr ''user''), (''content'', JArr [JObj [(''type'', JStr ''input_text''), (''text'', JStr ''hi'')]])]"
  let ?req = "[(''model'', JStr ''m''), (''input'', JArr [?item]), (''stream'', JBool True), (''store'', JBool False), (''instructions'', JStr [])]"
  have p: "mget ?body ''messages'' = JArr (systemPart [] @ [?m])" "\<not> truthy (mget ?body ''input'')"
    by (simp_all add: mget_def systemPart_def truthy_def)
  have g: "list_all (goodChat (tq_codec sample_req)) [?m]"
    by (simp add: goodChat_def mget_Cons asStr_def isText_def has_def elems_def) (simp add: mget_def)
  have tm: "turnsOf [?m] = [Said (JStr ''user'') (JStr ''hi'')]"
    by (simp add: turnsOf_def messageTurns_def has_def mget_Cons saidTurn_def elems_def) (simp add: mget_def map_filter_simps)
  have chat: "chatInput co clk [?m] 0 = \<lparr>qr_input = [?item], qr_instructions = None, qr_seq = 0\<rparr>" for co clk
    by (simp add: chatInput_def chatMessageInput_def mget_Cons asStr_def assistantCalls_def toolInput_def messageInput_def inputContent_def)
  have q: "ChatRequestToResponsesRequest sample_req ''m'' (Some ?body) 0 = Some (Some ?req, 0)"
    by (simp add: ChatRequestToResponsesRequest_def p(2) responsesRequest_def Let_def mget_Cons elems_def chat carry_def carryCap_def
        carryEffort_def outputCap_def) (simp add: mget_def truthy_def)
  have "rq_tools (inputItems sample_codec [?item] []) = []"
    by (simp add: inputItems_def inputItem_def type_first onMessage_def Let_def tools_kept mget_Cons asStr_def)
  then obtain chat where c: "ResponsesToChatRequest sample_req ?req = Some chat"
    using sample_returns [of ?req "[?item]"] by (auto simp: mget_Cons elems_def systemMessages_def truthy_def mget_def)
  from request_round_trip [OF p(2,1) g _ q c] tm show ?thesis
    by (simp add: q c turnsOf_append systemPart_def mget_Cons elems_def [of "JArr [_]"] plain_text)
qed

end
