(* ===== verification/Caps.thy ===== *)
theory Caps
  imports Regex
begin

text \<open>
  Which inputs a model can read (\<^verbatim>\<open>internal/caps/caps.go\<close> and \<^verbatim>\<open>vision.go\<close>): an exact table, a table of
  patterns of which the first match counts, and a heuristic over the name. Lower-casing is the parameter
  \<open>lower\<close> (\<^verbatim>\<open>strings.ToLower\<close>).
\<close>

record modality =
  Vision :: bool
  PDF :: bool
  AudioInput :: bool
  VideoInput :: bool

definition Default :: modality where
  "Default = \<lparr>Vision = False, PDF = False, AudioInput = False, VideoInput = False\<rparr>"

definition mergeRow :: "modality \<Rightarrow> modality \<Rightarrow> modality" where
  "mergeRow d row = \<lparr>Vision = Vision d \<or> Vision row, PDF = PDF d \<or> PDF row,
     AudioInput = AudioInput d \<or> AudioInput row, VideoInput = VideoInput d \<or> VideoInput row\<rparr>"

text \<open>The combinations the rows use.\<close>

abbreviation textOnly :: modality where
  "textOnly \<equiv> \<lparr>Vision = False, PDF = False, AudioInput = False, VideoInput = False\<rparr>"

abbreviation imagesOnly :: modality where
  "imagesOnly \<equiv> \<lparr>Vision = True, PDF = False, AudioInput = False, VideoInput = False\<rparr>"

abbreviation imagesVideo :: modality where
  "imagesVideo \<equiv> \<lparr>Vision = True, PDF = False, AudioInput = False, VideoInput = True\<rparr>"

abbreviation imagesAudio :: modality where
  "imagesAudio \<equiv> \<lparr>Vision = True, PDF = False, AudioInput = True, VideoInput = False\<rparr>"

abbreviation allMedia :: modality where
  "allMedia \<equiv> \<lparr>Vision = True, PDF = False, AudioInput = True, VideoInput = True\<rparr>"

abbreviation imagesPdfVideo :: modality where
  "imagesPdfVideo \<equiv> \<lparr>Vision = True, PDF = True, AudioInput = False, VideoInput = True\<rparr>"

section \<open>Names that look like a vision model\<close>

definition sepClass :: "char \<Rightarrow> bool" where
  "sepClass c \<longleftrightarrow> c \<in> set ''-_/:.''"

text \<open>A pattern at the start or after a separator, and before a separator or at the end.\<close>

definition afterSep :: "regex \<Rightarrow> string \<Rightarrow> bool" where
  "afterSep re s \<longleftrightarrow> rx_match re s \<noteq> None \<or> rx_search (PByte sepClass # re) s \<noteq> None"

definition asWord :: "string \<Rightarrow> string \<Rightarrow> bool" where
  "asWord w s \<longleftrightarrow> afterSep (rx_lit w @ [PByte sepClass]) s \<or> afterSep (rx_lit w @ [PEnd]) s"

definition notVisionParts :: "string list" where
  "notVisionParts = [''stable-image'', ''nanobanana'', ''imagine'', ''t2v'', ''i2v'', ''flux'', ''dall'', ''sdxl'', ''diffusion'',
     ''embed'', ''rerank'', ''guard'', ''moderation'', ''tts'', ''stt'', ''whisper'', ''voice'', ''speech'', ''audio'']"

definition notVisionRe :: "string \<Rightarrow> bool" where
  "notVisionRe s \<longleftrightarrow> list_ex (\<lambda>w. asWord w s) [''image'', ''img''] \<or>
     list_ex (contains s) notVisionParts \<or>
     rx_search (rx_lit ''gen'' @ [PByte is_digit] @ rx_lit ''_image'') s \<noteq> None"

definition visionVersions :: "regex list" where
  "visionVersions = [PByte is_digit # rx_lit ''.'' @ [PPlus is_digit] @ rx_lit ''v'' @ [PByte sepClass],
     PByte is_digit # rx_lit ''.'' @ [PPlus is_digit] @ rx_lit ''v'' @ [PEnd]]"

definition glmVersions :: "regex list" where
  "glmVersions = [rx_lit ''glm-'' @ [PPlus is_digit] @ rx_lit ''v'' @ [PByte sepClass],
     rx_lit ''glm-'' @ [PPlus is_digit] @ rx_lit ''v'' @ [PEnd]]"

definition visionNameRe :: "string \<Rightarrow> bool" where
  "visionNameRe s \<longleftrightarrow> list_ex (\<lambda>w. asWord w s) [''vision'', ''vl'', ''vlm'', ''multimodal'', ''omni'', ''visual''] \<or>
     list_ex (\<lambda>re. rx_search re s \<noteq> None) visionVersions \<or>
     list_ex (\<lambda>re. afterSep re s) glmVersions \<or>
     list_ex (\<lambda>w. afterSep (rx_lit w) s)
       [''llava'', ''pixtral'', ''internvl'', ''cogvlm'', ''minicpm-v'', ''moondream'', ''idefics'', ''fuyu'']"

definition LooksLikeVisionModel :: "(string \<Rightarrow> string) \<Rightarrow> string \<Rightarrow> bool" where
  "LooksLikeVisionModel lower modelID =
     (if modelID = [] then False
      else let i = lower modelID in if notVisionRe i then False else visionNameRe i)"

section \<open>The pattern table\<close>

text \<open>
  \<^verbatim>\<open>compilePattern\<close>: the segments between the stars in order, case folded, with anything but a line break
  between them, and the whole text matched.
\<close>

fun afterStar :: "(string \<Rightarrow> bool) \<Rightarrow> string \<Rightarrow> bool" where
  "afterStar f [] = f []"
| "afterStar f (c # cs) = (f (c # cs) \<or> (c \<noteq> CHR 0x0A \<and> afterStar f cs))"

fun segmentsMatch :: "string list \<Rightarrow> string \<Rightarrow> bool" where
  "segmentsMatch [] s = (s = [])"
| "segmentsMatch [seg] s = (foldDrop seg s = Some [])"
| "segmentsMatch (seg # segs) s = (case foldDrop seg s of None \<Rightarrow> False | Some r \<Rightarrow> afterStar (segmentsMatch segs) r)"

definition compilePattern :: "string \<Rightarrow> string \<Rightarrow> bool" where
  "compilePattern pattern = segmentsMatch (splitByte pattern (CHR ''*''))"

definition patternCapabilities :: "(string \<times> modality) list" where
  "patternCapabilities = [
    (''*claude*opus-5*'', imagesOnly), (''*claude*opus-4.6*'', imagesOnly), (''*claude*opus-4.7*'', imagesOnly),
    (''*claude*opus-4.8*'', imagesOnly), (''*claude*sonnet-4.6*'', imagesOnly), (''*claude*sonnet-4.7*'', imagesOnly),
    (''*claude*haiku*'', imagesOnly), (''*claude*opus*'', imagesOnly), (''*claude*sonnet*'', imagesOnly),
    (''*claude*fable*'', imagesOnly), (''*claude*mythos*'', imagesOnly), (''*claude-3*'', imagesOnly),
    (''*claude*'', imagesOnly), (''*gemini*image*'', imagesOnly), (''*gemini-3.8*'', allMedia),
    (''*gemini-3.7*'', allMedia), (''*gemini-3*pro*'', allMedia), (''*gemini-3*'', allMedia),
    (''*gemini-2.5*'', allMedia), (''*gemini-2*'', allMedia), (''*gemini*'', imagesOnly), (''*gemma*'', imagesOnly),
    (''*nanobanana*'', imagesOnly), (''*gpt-6*'', imagesOnly), (''*gpt-5*image*'', textOnly),
    (''*gpt-5*codex*'', textOnly), (''*gpt-5*'', imagesOnly), (''*gpt-4o*'', imagesOnly), (''*gpt-4.1*'', imagesOnly),
    (''*gpt-4-turbo*'', imagesOnly), (''*gpt-4*'', textOnly), (''*gpt-3.5*'', textOnly), (''*gpt-oss*'', textOnly),
    (''*o1-mini*'', textOnly), (''*o1*'', imagesOnly), (''*o3*'', imagesOnly), (''*o4*'', imagesOnly),
    (''*grok*image*'', textOnly), (''*grok-code*'', textOnly), (''*grok-4.6*'', imagesOnly),
    (''*grok-4.5*'', imagesOnly), (''*grok-4*'', imagesOnly), (''*grok-3*'', imagesOnly), (''*grok*'', imagesOnly),
    (''*qwen*vl*'', imagesOnly), (''*qwen*omni*'', allMedia), (''*qwen*coder*'', textOnly),
    (''*qwen*max*'', textOnly), (''*qwen3.5*'', imagesVideo), (''*qwen3.6*'', imagesVideo),
    (''*qwen3.7*'', imagesVideo), (''*qwen*plus*'', imagesOnly), (''*qwen*235b*'', textOnly), (''*qwq*'', textOnly),
    (''*qwen*'', textOnly), (''*kimi*k3*'', imagesVideo), (''*kimi*for-coding*'', imagesVideo),
    (''*kimi*k2.7*code*'', imagesVideo), (''*kimi*k2*'', imagesOnly), (''*kimi*'', textOnly),
    (''*glm-5.3*'', textOnly), (''*glm-5.2*'', textOnly), (''*glm-5*'', textOnly), (''*glm-4.7*'', textOnly),
    (''*glm-4*'', textOnly), (''*glm*'', textOnly), (''*deepseek-v4*'', textOnly), (''*reasoner*'', textOnly),
    (''*deepseek-r*'', textOnly), (''*deepseek-chat*'', textOnly), (''*deepseek*'', textOnly),
    (''*minimax*image*'', textOnly), (''*minimax-m3*'', imagesOnly), (''*minimax-m2.7*'', textOnly),
    (''*minimax*'', textOnly), (''*mimo*v2.5*'', allMedia), (''*mimo*omni*'', imagesAudio), (''*mimo*'', imagesOnly),
    (''*llama-4*'', imagesOnly), (''*llama*'', textOnly), (''*codestral*'', textOnly),
    (''*mistral-large*'', imagesOnly), (''*mistral*'', textOnly), (''*command-a-vision*'', imagesOnly),
    (''*command*'', textOnly), (''*sonar*'', textOnly), (''*pplx*'', textOnly), (''*perplexity*'', textOnly),
    (''*laguna-s-2.1*free*'', textOnly), (''*laguna-s-2.1*'', textOnly), (''*laguna*'', textOnly),
    (''*muse*spark*'', imagesOnly), (''*hunyuan*'', textOnly), (''hy3*'', textOnly), (''*step-*'', textOnly),
    (''*nemotron*'', textOnly), (''*ling-*'', textOnly)]"

definition modelCapabilities :: "(string, modality) gomap" where
  "modelCapabilities = [
    (''claude-fable-5-1'', imagesOnly), (''claude-opus-5'', imagesOnly), (''claude-opus-5-thinking'', imagesOnly),
    (''claude-opus-5-agentic'', imagesOnly), (''claude-opus-5-thinking-agentic'', imagesOnly),
    (''claude-opus-4.6'', imagesOnly), (''claude-opus-4.7'', imagesOnly), (''claude-opus-4-7'', imagesOnly),
    (''claude-opus-4.8'', imagesOnly), (''claude-opus-4-6'', imagesOnly), (''claude-opus-4-8'', imagesOnly),
    (''claude-opus-4.8-thinking'', imagesOnly), (''claude-opus-4-8-thinking'', imagesOnly),
    (''claude-sonnet-4.6'', imagesOnly), (''claude-sonnet-4-6'', imagesOnly), (''claude-sonnet-5'', imagesOnly),
    (''claude-sonnet-5-thinking'', imagesOnly), (''claude-sonnet-5-agentic'', imagesOnly),
    (''claude-sonnet-5-thinking-agentic'', imagesOnly), (''gpt-image-1'', textOnly),
    (''glm-5.3-flash'', imagesPdfVideo), (''glm-4.6v'', imagesVideo), (''glm-4.5v'', imagesVideo),
    (''deepseek-v4-flash-vision-exp'', imagesOnly), (''vision-model'', imagesOnly), (''coder-model'', textOnly),
    (''kimi-k3'', imagesVideo), (''k3'', imagesVideo), (''kimi-for-coding'', imagesVideo),
    (''kimi-for-coding-highspeed'', imagesVideo), (''kimi-k2.7-code'', imagesVideo),
    (''kimi-k2.7-code-highspeed'', imagesVideo), (''muse-spark-1.2-contributor-free'', imagesOnly),
    (''muse-spark-1.3-contributor-free'', imagesOnly)]"

definition refine :: "(string \<Rightarrow> string) \<Rightarrow> modality \<Rightarrow> string \<Rightarrow> modality" where
  "refine lower base model =
     (let result = mergeRow Default base in
      if \<not> Vision result \<and> LooksLikeVisionModel lower model then result\<lparr>Vision := True\<rparr> else result)"

definition afterVendor :: "string \<Rightarrow> string" where
  "afterVendor model = rev (takeWhile (\<lambda>c. c \<noteq> CHR ''/'') (rev model))"

definition Resolve :: "(string \<Rightarrow> string) \<Rightarrow> string \<Rightarrow> modality" where
  "Resolve lower model =
     (if model = [] then Default
      else
        let baseModel = afterVendor model in
        case gm_get modelCapabilities baseModel of
          Some m \<Rightarrow> mergeRow Default m
        | None \<Rightarrow> (case gm_get modelCapabilities model of
            Some m \<Rightarrow> mergeRow Default m
          | None \<Rightarrow> (case find (\<lambda>(pattern, _). compilePattern pattern baseModel \<or> compilePattern pattern model) patternCapabilities of
              Some (_, c) \<Rightarrow> refine lower c model
            | None \<Rightarrow> refine lower Default model)))"

end
