(* ===== verification/Modality.thy ===== *)
theory Modality
  imports Caps Prenorm
begin

text \<open>
  The gate that removes media the target model cannot read before anything is translated
  (\<^verbatim>\<open>internal/translate/modality.go\<close>), and what it promises.
\<close>

definition placeholder :: "string \<Rightarrow> bool \<Rightarrow> string" where
  "placeholder capKind isLast =
     (let bracket = (\<lambda>t. [CHR 0x5B] @ t @ [CHR 0x5D]) in
      if capKind = ''vision'' then bracket (if isLast then ''image omitted: model has no vision support'' else ''Previous image omitted from context.'')
      else if capKind = ''audioInput'' then bracket (if isLast then ''audio omitted: model has no audio support'' else ''Previous audio omitted from context.'')
      else if capKind = ''pdf'' then bracket (if isLast then ''file omitted: model has no document support'' else ''Previous file omitted from context.'')
      else [])"

definition capForOpenAIBlock :: "jmap \<Rightarrow> string" where
  "capForOpenAIBlock block =
     (let t = asStr (mget block ''type'') in
      if t = ''image_url'' \<or> t = ''image'' then ''vision''
      else if t = ''input_audio'' \<or> t = ''audio_url'' then ''audioInput''
      else if t = ''file'' then ''pdf'' else [])"

definition capForResponsesBlock :: "jmap \<Rightarrow> string" where
  "capForResponsesBlock block =
     (let t = asStr (mget block ''type'') in
      if t = ''input_image'' then ''vision'' else if t = ''input_file'' then ''pdf'' else [])"

definition modalityAllowed :: "modality \<Rightarrow> string \<Rightarrow> bool" where
  "modalityAllowed m capKind =
     (if capKind = ''vision'' then Vision m
      else if capKind = ''audioInput'' then AudioInput m
      else if capKind = ''pdf'' then PDF m else True)"

definition appendUnique :: "string list \<Rightarrow> string \<Rightarrow> string list" where
  "appendUnique l v = (if v \<in> set l then l else l @ [v])"

definition capOfBlock :: "(jmap \<Rightarrow> string) \<Rightarrow> json \<Rightarrow> string" where
  "capOfBlock capOf raw = (case raw of JObj block \<Rightarrow> capOf block | _ \<Rightarrow> [])"

text \<open>One block of the loop: the blocks kept so far and the kinds removed so far.\<close>

definition filterStep :: "modality \<Rightarrow> (jmap \<Rightarrow> string) \<Rightarrow> json \<Rightarrow> json list \<times> string list \<Rightarrow> json list \<times> string list" where
  "filterStep m capOf raw acc =
     (let capKind = capOfBlock capOf raw in
      if capKind \<noteq> [] \<and> \<not> modalityAllowed m capKind then (fst acc, appendUnique (snd acc) capKind)
      else (fst acc @ [raw], snd acc))"

definition filterBlocks :: "json list \<Rightarrow> modality \<Rightarrow> bool \<Rightarrow> string \<Rightarrow> (jmap \<Rightarrow> string) \<Rightarrow> json list" where
  "filterBlocks blocks m isLast textType capOf =
     (case fold (filterStep m capOf) blocks ([], []) of (out, removed) \<Rightarrow>
        out @ map (\<lambda>k. JObj [(''type'', JStr textType), (''text'', JStr (placeholder k isLast))]) removed)"

definition isImageAttachment :: "jmap \<Rightarrow> bool" where
  "isImageAttachment a \<longleftrightarrow> hasPrefix (asStr (mget a ''contentType'')) ''image/'' \<or> hasPrefix (asStr (mget a ''url'')) ''data:image/''"

definition stripImageAttachments :: "string \<Rightarrow> jmap \<Rightarrow> jmap" where
  "stripImageAttachments key msg = (case mget msg key of
     JArr arr \<Rightarrow> gm_set key (JArr (filter (\<lambda>raw. \<not> (case raw of JObj a \<Rightarrow> isImageAttachment a | _ \<Rightarrow> False)) arr)) msg
   | _ \<Rightarrow> msg)"

definition stripImages :: "modality \<Rightarrow> jmap \<Rightarrow> jmap" where
  "stripImages m msg =
     (if \<not> Vision m then
        stripImageAttachments ''attachments'' (stripImageAttachments ''experimental_attachments''
          (case mget msg ''images'' of JArr _ \<Rightarrow> gm_del ''images'' msg | _ \<Rightarrow> msg))
      else msg)"

definition stripContent :: "modality \<Rightarrow> bool \<Rightarrow> string \<Rightarrow> (jmap \<Rightarrow> string) \<Rightarrow> jmap \<Rightarrow> jmap" where
  "stripContent m isLast textType capOf msg = (case mget msg ''content'' of
     JArr content \<Rightarrow> gm_set ''content'' (JArr (filterBlocks content m isLast textType capOf)) msg
   | _ \<Rightarrow> msg)"

definition stripMessageAt :: "modality \<Rightarrow> int \<Rightarrow> int \<Rightarrow> json \<Rightarrow> json" where
  "stripMessageAt m l i raw = (case raw of
     JObj msg \<Rightarrow> JObj (stripContent m (i = l) ''text'' capForOpenAIBlock (stripImages m msg))
   | _ \<Rightarrow> raw)"

definition stripOpenAIMessages :: "modality \<Rightarrow> jmap \<Rightarrow> jmap" where
  "stripOpenAIMessages m body = (case mget body ''messages'' of
     JArr messages \<Rightarrow> gm_set ''messages'' (JArr (indexed (stripMessageAt m (int (length messages) - 1)) 0 messages)) body
   | _ \<Rightarrow> body)"

definition stripItemAt :: "modality \<Rightarrow> int \<Rightarrow> int \<Rightarrow> json \<Rightarrow> json" where
  "stripItemAt m l i raw = (case raw of
     JObj item \<Rightarrow> JObj (stripContent m (i = l) ''input_text'' capForResponsesBlock item)
   | _ \<Rightarrow> raw)"

definition stripResponsesInput :: "modality \<Rightarrow> jmap \<Rightarrow> jmap" where
  "stripResponsesInput m body = (case mget body ''input'' of
     JArr input \<Rightarrow> gm_set ''input'' (JArr (indexed (stripItemAt m (int (length input) - 1)) 0 input)) body
   | _ \<Rightarrow> body)"

text \<open>The body, nil as \<open>None\<close>, and whether the model may have something stripped.\<close>

definition StripUnsupportedModalities :: "jmap option \<Rightarrow> bool \<Rightarrow> modality \<Rightarrow> jmap option \<times> bool" where
  "StripUnsupportedModalities b sourceIsResponses m = (case b of
     None \<Rightarrow> (None, False)
   | Some body \<Rightarrow>
       if Vision m \<and> AudioInput m \<and> PDF m then (Some body, False)
       else if sourceIsResponses then (Some (stripResponsesInput m body), True)
       else (Some (stripOpenAIMessages m body), True))"

section \<open>What is left\<close>

definition readable :: "modality \<Rightarrow> (jmap \<Rightarrow> string) \<Rightarrow> json \<Rightarrow> bool" where
  "readable m capOf raw \<longleftrightarrow> capOfBlock capOf raw = [] \<or> modalityAllowed m (capOfBlock capOf raw)"

lemma filter_fold:
  "fst (fold (filterStep m capOf) blocks acc) = fst acc @ filter (readable m capOf) blocks"
  "distinct (snd acc) \<Longrightarrow> distinct (snd (fold (filterStep m capOf) blocks acc))"
  "set (snd (fold (filterStep m capOf) blocks acc)) =
     set (snd acc) \<union> capOfBlock capOf ` {b \<in> set blocks. \<not> readable m capOf b}"
  by (induction blocks arbitrary: acc) (auto simp: filterStep_def readable_def Let_def appendUnique_def)

lemma filterBlocks_form:
  "\<exists>removed. filterBlocks blocks m isLast t capOf = filter (readable m capOf) blocks @
      map (\<lambda>k. JObj [(''type'', JStr t), (''text'', JStr (placeholder k isLast))]) removed \<and>
    distinct removed \<and> set removed = capOfBlock capOf ` {b \<in> set blocks. \<not> readable m capOf b}"
  using filter_fold [where m = m and capOf = capOf and blocks = blocks and acc = "([], [])"]
  by (intro exI [of _ "snd (fold (filterStep m capOf) blocks ([], []))"]) (simp add: filterBlocks_def case_prod_beta)

lemma text_readable: "readable m capForOpenAIBlock (JObj [(''type'', JStr ''text''), (''text'', v)])"
  "readable m capForResponsesBlock (JObj [(''type'', JStr ''input_text''), (''text'', v)])"
  by (simp_all add: readable_def capOfBlock_def capForOpenAIBlock_def capForResponsesBlock_def mget_Cons asStr_def)

lemma blocks_readable:
  "list_all (readable m capForOpenAIBlock) (filterBlocks blocks m isLast ''text'' capForOpenAIBlock)"
  "list_all (readable m capForResponsesBlock) (filterBlocks blocks m isLast ''input_text'' capForResponsesBlock)"
  using filterBlocks_form [of blocks m isLast "''text''" capForOpenAIBlock] filterBlocks_form [of blocks m isLast "''input_text''" capForResponsesBlock]
  by (auto simp: list_all_iff text_readable)

definition entryReadable :: "modality \<Rightarrow> (jmap \<Rightarrow> string) \<Rightarrow> json \<Rightarrow> bool" where
  "entryReadable m capOf raw = list_all (readable m capOf) (elems (Get raw ''content''))"

definition bodyReadable :: "modality \<Rightarrow> bool \<Rightarrow> jmap \<Rightarrow> bool" where
  "bodyReadable m sourceIsResponses body =
     (if sourceIsResponses then list_all (entryReadable m capForResponsesBlock) (elems (mget body ''input''))
      else list_all (entryReadable m capForOpenAIBlock) (elems (mget body ''messages'')))"

lemma message_readable: "entryReadable m capForOpenAIBlock (stripMessageAt m l i raw)"
proof (cases raw)
  case (JObj msg)
  show ?thesis
    by (cases "mget (stripImages m msg) ''content''")
      (simp_all add: JObj stripMessageAt_def entryReadable_def Get_def stripContent_def mget_gm_set elems_def blocks_readable)
qed (simp_all add: stripMessageAt_def entryReadable_def Get_def elems_def)

lemma item_readable: "entryReadable m capForResponsesBlock (stripItemAt m l i raw)"
proof (cases raw)
  case (JObj item)
  show ?thesis
    by (cases "mget item ''content''")
      (simp_all add: JObj stripItemAt_def entryReadable_def Get_def stripContent_def mget_gm_set elems_def blocks_readable)
qed (simp_all add: stripItemAt_def entryReadable_def Get_def elems_def)

lemma everything_readable: "Vision m \<Longrightarrow> AudioInput m \<Longrightarrow> PDF m \<Longrightarrow> readable m capOf raw"
  by (simp add: readable_def modalityAllowed_def)

lemma body_readable:
  "case fst (StripUnsupportedModalities (Some body) sourceIsResponses m) of
     None \<Rightarrow> False | Some body' \<Rightarrow> bodyReadable m sourceIsResponses body'"
proof (cases "Vision m \<and> AudioInput m \<and> PDF m")
  case True
  then show ?thesis
    by (auto simp: StripUnsupportedModalities_def bodyReadable_def entryReadable_def list_all_iff everything_readable)
next
  case False
  then show ?thesis
    by (cases "mget body ''input''"; cases "mget body ''messages''")
      (auto simp: StripUnsupportedModalities_def bodyReadable_def stripResponsesInput_def stripOpenAIMessages_def mget_gm_set elems_def
        indexed_all message_readable item_readable)
qed

section \<open>What the gate promises\<close>

text \<open>
  The promise, read off the documents alone: the capability a block of either format needs, the blocks a model cannot
  read, the text that stands for a removed kind, and what a field of a message or item may become.
\<close>

definition mediaKind :: "bool \<Rightarrow> json \<Rightarrow> string option" where
  "mediaKind sourceIsResponses raw =
     (let t = Get raw ''type'' in
      if sourceIsResponses
      then (if t = JStr ''input_image'' then Some ''vision'' else if t = JStr ''input_file'' then Some ''pdf'' else None)
      else (if t = JStr ''image_url'' \<or> t = JStr ''image'' then Some ''vision''
        else if t = JStr ''input_audio'' \<or> t = JStr ''audio_url'' then Some ''audioInput''
        else if t = JStr ''file'' then Some ''pdf'' else None))"

definition lost :: "modality \<Rightarrow> bool \<Rightarrow> json \<Rightarrow> bool" where
  "lost m sourceIsResponses raw \<longleftrightarrow>
     (mediaKind sourceIsResponses raw = Some ''vision'' \<and> \<not> Vision m) \<or>
     (mediaKind sourceIsResponses raw = Some ''audioInput'' \<and> \<not> AudioInput m) \<or>
     (mediaKind sourceIsResponses raw = Some ''pdf'' \<and> \<not> PDF m)"

definition notice :: "bool \<Rightarrow> string \<Rightarrow> string" where
  "notice isLast kind =
     (let what = (if kind = ''vision'' then ''image'' else if kind = ''pdf'' then ''file'' else ''audio'');
          sense = (if kind = ''vision'' then ''vision'' else if kind = ''pdf'' then ''document'' else ''audio'') in
      [CHR 0x5B] @ (if isLast then what @ '' omitted: model has no '' @ sense @ '' support''
        else ''Previous '' @ what @ '' omitted from context.'') @ [CHR 0x5D])"

definition firsts :: "string list \<Rightarrow> string list" where
  "firsts xs = rev (remdups (rev xs))"

definition strippedContent :: "modality \<Rightarrow> bool \<Rightarrow> bool \<Rightarrow> json list \<Rightarrow> json list" where
  "strippedContent m sourceIsResponses isLast content =
     filter (\<lambda>raw. \<not> lost m sourceIsResponses raw) content @
     map (\<lambda>k. JObj [(''type'', JStr (if sourceIsResponses then ''input_text'' else ''text'')), (''text'', JStr (notice isLast k))])
       (firsts (map (\<lambda>raw. the (mediaKind sourceIsResponses raw)) (filter (lost m sourceIsResponses) content)))"

definition pictured :: "json \<Rightarrow> bool" where
  "pictured raw \<longleftrightarrow> (\<exists>t. Get raw ''contentType'' = JStr t \<and> hasPrefix t ''image/'') \<or>
     (\<exists>u. Get raw ''url'' = JStr u \<and> hasPrefix u ''data:image/'')"

definition strippedField :: "modality \<Rightarrow> bool \<Rightarrow> bool \<Rightarrow> string \<Rightarrow> json \<Rightarrow> json" where
  "strippedField m sourceIsResponses isLast k v = (case v of
     JArr vs \<Rightarrow>
       if k = ''content'' then JArr (strippedContent m sourceIsResponses isLast vs)
       else if sourceIsResponses \<or> Vision m then v
       else if k = ''images'' then JNull
       else if k = ''attachments'' \<or> k = ''experimental_attachments'' then JArr (filter (\<lambda>raw. \<not> pictured raw) vs)
       else v
   | _ \<Rightarrow> v)"

definition entryStripped :: "modality \<Rightarrow> bool \<Rightarrow> bool \<Rightarrow> json \<Rightarrow> json \<Rightarrow> bool" where
  "entryStripped m sourceIsResponses isLast e e' = (case e of
     JObj f \<Rightarrow> (\<exists>f'. e' = JObj f' \<and> (\<forall>k. mget f' k = strippedField m sourceIsResponses isLast k (mget f k)))
   | _ \<Rightarrow> e' = e)"

fun entriesStripped :: "modality \<Rightarrow> bool \<Rightarrow> json list \<Rightarrow> json list \<Rightarrow> bool" where
  "entriesStripped m r [] es' = (es' = [])"
| "entriesStripped m r (e # es) es' = (case es' of
     [] \<Rightarrow> False | e' # es'' \<Rightarrow> entryStripped m r (es = []) e e' \<and> entriesStripped m r es es'')"

definition bodyStripped :: "modality \<Rightarrow> bool \<Rightarrow> jmap \<Rightarrow> jmap \<Rightarrow> bool" where
  "bodyStripped m sourceIsResponses body body' \<longleftrightarrow>
     (let key = (if sourceIsResponses then ''input'' else ''messages'') in
      (mget body')(key := JNull) = (mget body)(key := JNull) \<and>
      (case mget body key of
         JArr es \<Rightarrow> (\<exists>es'. mget body' key = JArr es' \<and> entriesStripped m sourceIsResponses es es')
       | v \<Rightarrow> mget body' key = v))"

lemma cap_kind:
  "capOfBlock capForOpenAIBlock raw = (case mediaKind False raw of None \<Rightarrow> [] | Some k \<Rightarrow> k)"
  "capOfBlock capForResponsesBlock raw = (case mediaKind True raw of None \<Rightarrow> [] | Some k \<Rightarrow> k)"
  by (cases raw; cases "Get raw ''type''";
      simp add: capOfBlock_def capForOpenAIBlock_def capForResponsesBlock_def mediaKind_def Get_def asStr_def Let_def)+

lemma kinds: "mediaKind r raw = Some k \<Longrightarrow> k = ''vision'' \<or> k = ''audioInput'' \<or> k = ''pdf''"
  by (auto simp: mediaKind_def Let_def split: if_splits)

lemma readable_lost:
  "readable m capForOpenAIBlock raw \<longleftrightarrow> \<not> lost m False raw"
  "readable m capForResponsesBlock raw \<longleftrightarrow> \<not> lost m True raw"
  using kinds [of False raw] kinds [of True raw]
  by (auto simp: readable_def cap_kind lost_def modalityAllowed_def split: option.splits)

lemma removed_fold:
  "snd (fold (filterStep m capOf) blocks acc) =
     fold (\<lambda>k l. appendUnique l k) (map (capOfBlock capOf) (filter (\<lambda>b. \<not> readable m capOf b) blocks)) (snd acc)"
  by (induction blocks arbitrary: acc) (auto simp: filterStep_def readable_def Let_def)

lemma append_firsts: "fold (\<lambda>k l. appendUnique l k) xs [] = firsts xs"
  by (induction xs rule: rev_induct) (auto simp: firsts_def appendUnique_def)

lemma set_firsts [simp]: "set (firsts xs) = set xs"
  by (simp add: firsts_def)

lemma placeholder_notice: "k = ''vision'' \<or> k = ''audioInput'' \<or> k = ''pdf'' \<Longrightarrow> placeholder k isLast = notice isLast k"
  by (elim disjE) (simp_all add: placeholder_def notice_def Let_def)

lemma lost_kind: "lost m r raw \<Longrightarrow> \<exists>k. mediaKind r raw = Some k \<and> (k = ''vision'' \<or> k = ''audioInput'' \<or> k = ''pdf'')"
  by (auto simp: lost_def)

lemma filter_content:
  assumes "\<And>raw. capOfBlock capOf raw = (case mediaKind r raw of None \<Rightarrow> [] | Some k \<Rightarrow> k)"
    and "\<And>raw. readable m capOf raw \<longleftrightarrow> \<not> lost m r raw"
    and "t = (if r then ''input_text'' else ''text'')"
  shows "filterBlocks blocks m isLast t capOf = strippedContent m r isLast blocks"
proof -
  have k: "map (capOfBlock capOf) (filter (lost m r) blocks) = map (\<lambda>raw. the (mediaKind r raw)) (filter (lost m r) blocks)"
    using lost_kind [of m r] by (fastforce simp: assms(1))
  have n: "map (\<lambda>k. JObj [(''type'', JStr t), (''text'', JStr (placeholder k isLast))]) (firsts (map (\<lambda>raw. the (mediaKind r raw)) (filter (lost m r) blocks))) =
      map (\<lambda>k. JObj [(''type'', JStr t), (''text'', JStr (notice isLast k))]) (firsts (map (\<lambda>raw. the (mediaKind r raw)) (filter (lost m r) blocks)))"
    using lost_kind [of m r] by (fastforce intro!: placeholder_notice)
  have f: "filter (readable m capOf) blocks = filter (\<lambda>raw. \<not> lost m r raw) blocks" by (rule filter_cong) (simp_all add: assms(2))
  show ?thesis
    by (simp add: filterBlocks_def case_prod_beta filter_fold(1) removed_fold f assms(2) k n append_firsts strippedContent_def assms(3) [symmetric])
qed

lemmas filter_openai = filter_content [of capForOpenAIBlock False, OF cap_kind(1) readable_lost(1), simplified]
lemmas filter_responses = filter_content [of capForResponsesBlock True, OF cap_kind(2) readable_lost(2), simplified]

lemma attachment_pictured: "(case raw of JObj a \<Rightarrow> isImageAttachment a | _ \<Rightarrow> False) \<longleftrightarrow> pictured raw"
  by (cases raw) (auto simp: pictured_def Get_def isImageAttachment_def asStr_def hasPrefix_def split: json.splits)

lemma attachments_map: "filter (\<lambda>raw. \<not> (case raw of JObj a \<Rightarrow> isImageAttachment a | _ \<Rightarrow> False)) vs = filter (\<lambda>raw. \<not> pictured raw) vs"
  by (simp only: attachment_pictured)

lemma attachments_read:
  "mget (stripImageAttachments key msg) k = (case mget msg k of
     JArr vs \<Rightarrow> if k = key then JArr (filter (\<lambda>raw. \<not> pictured raw) vs) else JArr vs | v \<Rightarrow> v)"
  by (cases "k = key"; cases "mget msg key"; cases "mget msg k") (simp_all add: stripImageAttachments_def attachments_map mget_gm_set)

lemma images_dropped:
  "mget (case mget msg key of JArr _ \<Rightarrow> gm_del key msg | _ \<Rightarrow> msg) k = (case mget msg k of
     JArr vs \<Rightarrow> if k = key then JNull else JArr vs | v \<Rightarrow> v)"
  by (cases "k = key"; cases "mget msg key"; cases "mget msg k") (simp_all add: mget_gm_del)

lemma images_read:
  "mget (stripImages m msg) k = (case mget msg k of
     JArr vs \<Rightarrow> if Vision m then JArr vs else if k = ''images'' then JNull
       else if k = ''attachments'' \<or> k = ''experimental_attachments'' then JArr (filter (\<lambda>raw. \<not> pictured raw) vs) else JArr vs
   | v \<Rightarrow> v)"
proof (cases "Vision m")
  case False
  then show ?thesis by (cases "mget msg k") (simp_all add: stripImages_def attachments_read images_dropped)
next
  case True
  then show ?thesis by (cases "mget msg k") (simp_all add: stripImages_def)
qed

lemma content_read:
  "mget (stripContent m isLast t capOf msg) k = (case mget msg k of
     JArr vs \<Rightarrow> if k = ''content'' then JArr (filterBlocks vs m isLast t capOf) else JArr vs | v \<Rightarrow> v)"
  by (cases "mget msg ''content''"; cases "mget msg k") (auto simp: stripContent_def mget_gm_set)

lemma message_stripped: "entryStripped m False (i = l) raw (stripMessageAt m l i raw)"
proof (cases raw)
  case (JObj msg)
  have "mget (stripContent m (i = l) ''text'' capForOpenAIBlock (stripImages m msg)) k = strippedField m False (i = l) k (mget msg k)" for k
    by (cases "mget msg k") (simp_all add: content_read images_read strippedField_def filter_openai)
  then show ?thesis by (simp add: JObj entryStripped_def stripMessageAt_def)
qed (simp_all add: entryStripped_def stripMessageAt_def)

lemma item_stripped: "entryStripped m True (i = l) raw (stripItemAt m l i raw)"
proof (cases raw)
  case (JObj item)
  have "mget (stripContent m (i = l) ''input_text'' capForResponsesBlock item) k = strippedField m True (i = l) k (mget item k)" for k
    by (cases "mget item k") (simp_all add: content_read strippedField_def filter_responses)
  then show ?thesis by (simp add: JObj entryStripped_def stripItemAt_def)
qed (simp_all add: entryStripped_def stripItemAt_def)

lemma entries_indexed:
  assumes "\<And>i raw. entryStripped m r (i = l) raw (f i raw)"
  shows "i + int (length es) = l + 1 \<Longrightarrow> entriesStripped m r es (indexed f i es)"
proof (induction es arbitrary: i)
  case (Cons e es)
  have "(es = []) = (i = l)" using Cons.prems by (cases es) auto
  with Cons assms [of i e] show ?case by simp
qed simp

lemma nothing_lost: "Vision m \<Longrightarrow> AudioInput m \<Longrightarrow> PDF m \<Longrightarrow> strippedField m r isLast k v = v"
  by (cases v) (simp_all add: strippedField_def strippedContent_def lost_def firsts_def)

lemma nothing_stripped: "Vision m \<Longrightarrow> AudioInput m \<Longrightarrow> PDF m \<Longrightarrow> bodyStripped m r body body"
proof -
  assume a: "Vision m" "AudioInput m" "PDF m"
  have e: "entryStripped m r b e e" for b e by (cases e) (simp_all add: entryStripped_def nothing_lost a)
  have "entriesStripped m r es es" for es by (induction es) (simp_all add: e)
  then show ?thesis by (auto simp add: bodyStripped_def Let_def split: json.split)
qed

lemma body_stripped:
  "bodyStripped m True body (stripResponsesInput m body)" "bodyStripped m False body (stripOpenAIMessages m body)"
  by (auto simp: bodyStripped_def Let_def stripResponsesInput_def stripOpenAIMessages_def mget_gm_set fun_eq_iff
      intro!: entries_indexed item_stripped message_stripped split: json.split)

text \<open>
  C22. The body that passes the gate is, in either source format, the one received with exactly what the model cannot read
  taken out: every other field of the body is as it was and so is every entry of the conversation that is no object; in an
  entry, a content list keeps the blocks the model can read, in order, followed by one text for each kind removed, in the
  order of first removal, which tells the current turn from earlier ones; for a model without vision a chat message loses
  its image list and the images among its attachments; every other field is as it was. So no block the model cannot read
  is left, and no content list becomes empty. The gate reports whether the model lacks any of the three inputs.
\<close>

theorem unsupported_media_removed:
  "(case StripUnsupportedModalities (Some body) sourceIsResponses m of
      (None, _) \<Rightarrow> False
    | (Some body', eligible) \<Rightarrow> bodyStripped m sourceIsResponses body body' \<and> bodyReadable m sourceIsResponses body' \<and>
        eligible = (\<not> (Vision m \<and> AudioInput m \<and> PDF m))) \<and>
   (strippedContent m sourceIsResponses isLast content = [] \<longleftrightarrow> content = [])"
proof -
  have "strippedContent m sourceIsResponses isLast content = [] \<longleftrightarrow> content = []"
    by (cases content) (auto simp: strippedContent_def filter_empty_conv firsts_def)
  with body_readable [where body = body and sourceIsResponses = sourceIsResponses and m = m] show ?thesis
    by (auto simp: StripUnsupportedModalities_def nothing_stripped body_stripped)
qed

end
