(* ===== verification/Pipeline.thy ===== *)
theory Pipeline
  imports Server UpstreamRequest Forced PrenormProps ReqTranslateProps Modality
begin

text \<open>
  The request pipeline (\<^verbatim>\<open>relay\<close> of \<^verbatim>\<open>internal/router/handler.go\<close>) from the first byte of a client request to the
  reply: what is rejected or answered on the spot, the rewriting of an admitted body for the upstream, routing,
  the executor, and the choice of the reply. The parts it calls are the definitions of the other theories.

  The arrival snapshot, the clocks, the random draws and what the network does are parameters of \<open>pipe_env\<close>; a
  panic, which the HTTP server recovers, is \<open>Crashed\<close>.
\<close>

section \<open>Admission\<close>

definition maxBodyBytes :: nat where
  "maxBodyBytes = 8388608"

text \<open>\<^verbatim>\<open>^(?i)oc/\<close> removed\<close>

definition aliasStrip :: "string \<Rightarrow> string" where
  "aliasStrip m = (case foldDrop ''oc/'' m of None \<Rightarrow> m | Some r \<Rightarrow> r)"

text \<open>The parameter \<open>rq_get\<close> is \<^verbatim>\<open>Header.Get\<close>, \<open>rq_headers\<close> the map below it, under canonical names.\<close>

record client_request =
  rq_method :: string
  rq_get :: "string \<Rightarrow> string"
  rq_headers :: "(string, string list) gomap"
  rq_body :: string
  rq_readErr :: bool

record prepared =
  pp_source :: format
  pp_target :: format
  pp_upstreamModel :: string
  pp_cleanModel :: string
  pp_body :: jmap
  pp_customTools :: "string list"
  pp_intent :: "thinking_cfg option"
  pp_streaming :: bool
  pp_bytes :: int

text \<open>An answer without routing carries the model its log line names.\<close>

datatype admission =
    Answered http_reply string
  | Admitted prepared
  | Panicked string

record pipe_env =
  pe_req :: req_env
  pe_lower :: "string \<Rightarrow> string"
  pe_milli :: int
  pe_hex32 :: string

abbreviation pe_codec :: "pipe_env \<Rightarrow> codec" where
  "pe_codec P \<equiv> tq_codec (pe_req P)"

abbreviation pe_num :: "pipe_env \<Rightarrow> num_env" where
  "pe_num P \<equiv> ce_num (tq_chunk (pe_req P))"

definition requestModel :: "jmap \<Rightarrow> string \<times> jmap" where
  "requestModel body = (case stripModelContextMarker (asStr (mget body ''model'')) of
     (stripped, found) \<Rightarrow> if found then (stripped, gm_set ''model'' (JStr stripped) body) else (asStr (mget body ''model''), body))"

definition cleanModelOf :: "string \<Rightarrow> string" where
  "cleanModelOf requested = (if requested \<noteq> [] then BaseModelID (aliasStrip requested) else [])"

definition targetFormatOf :: "string \<Rightarrow> format" where
  "targetFormatOf upstreamModel = (if IsResponsesModel upstreamModel then FormatResponses else FormatChat)"

text \<open>The modality gate and the normalizations every body goes through.\<close>

definition prenormalize :: "pipe_env \<Rightarrow> format \<Rightarrow> string \<Rightarrow> jmap \<Rightarrow> jmap" where
  "prenormalize P source cleanModel body =
     (let b1 = (case fst (StripUnsupportedModalities (Some body) (source = FormatResponses) (Resolve (pe_lower P) cleanModel)) of
            None \<Rightarrow> body | Some b \<Rightarrow> b)
      in FixMissingToolResponses (EnsureToolCallIDs (pe_codec P) (NormalizeThinkingConfig b1)))"

text \<open>The outer option is a panic, the inner one a body that cannot be translated.\<close>

definition translateBody :: "pipe_env \<Rightarrow> format \<Rightarrow> format \<Rightarrow> string \<Rightarrow> jmap \<Rightarrow> int \<Rightarrow> (jmap option \<times> int) option" where
  "translateBody P source target upstreamModel body seq =
     (if source = target then Some (Some body, seq)
      else if source = FormatChat then ChatRequestToResponsesRequest (pe_req P) upstreamModel (Some body) seq
      else map_option (\<lambda>b. (Some b, seq)) (ResponsesToChatRequest (pe_req P) body))"

definition customNames :: "jmap \<Rightarrow> string list" where
  "customNames body = map asStr (elems (mget body ''_customToolNames''))"

definition dedupeBody :: "pipe_env \<Rightarrow> client_request \<Rightarrow> jmap \<Rightarrow> jmap" where
  "dedupeBody P rq body =
     (if \<not> isClaudeClientTool (pe_lower P) (rq_get rq) then body
      else case mget body ''tools'' of
        JArr tools \<Rightarrow> (case dedupeTools tools of (deduped, stripped) \<Rightarrow>
          if stripped \<noteq> [] then gm_set ''tools'' (JArr deduped) body else body)
      | _ \<Rightarrow> body)"

definition upstreamShape :: "pipe_env \<Rightarrow> client_request \<Rightarrow> format \<Rightarrow> string \<Rightarrow> string \<Rightarrow> thinking_cfg option \<Rightarrow> jmap \<Rightarrow> jmap" where
  "upstreamShape P rq target upstreamModel cleanModel intent body =
     (let b1 = ApplyThinking (pe_num P) (pe_lower P) (gm_del ''_customToolNames'' body) upstreamModel intent;
          b2 = (if target = FormatChat then FilterToOpenAIFormat b1 else b1)
      in dedupeBody P rq (gm_set ''model'' (JStr cleanModel) b2))"

definition translateFailed :: "pipe_env \<Rightarrow> format \<Rightarrow> format \<Rightarrow> http_reply" where
  "translateFailed P source target = writeError (pe_codec P) 400
     (''Failed to translate request for '' @ source @ '' '' @ [CHR 0xE2, CHR 0x86, CHR 0x92] @ '' '' @ target)"

definition prepareBody :: "pipe_env \<Rightarrow> client_request \<Rightarrow> format \<Rightarrow> string \<Rightarrow> jmap \<Rightarrow> int \<Rightarrow> admission \<times> int" where
  "prepareBody P rq source requested body seq =
     (let upstreamModel = aliasStrip requested;
          cleanModel = BaseModelID upstreamModel;
          target = targetFormatOf upstreamModel;
          intent = ExtractThinking (pe_num P) (pe_lower P) body;
          b1 = prenormalize P source cleanModel body
      in case translateBody P source target upstreamModel b1 seq of
           None \<Rightarrow> (Panicked cleanModel, seq)
         | Some (None, seq1) \<Rightarrow> (Answered (translateFailed P source target) cleanModel, seq1)
         | Some (Some b2, seq1) \<Rightarrow>
             (Admitted \<lparr>pp_source = source, pp_target = target, pp_upstreamModel = upstreamModel, pp_cleanModel = cleanModel,
                pp_body = upstreamShape P rq target upstreamModel cleanModel intent b2, pp_customTools = customNames b2,
                pp_intent = intent, pp_streaming = (mget body ''stream'' = JBool True), pp_bytes = int (length (rq_body rq))\<rparr>, seq1))"

definition admit :: "pipe_env \<Rightarrow> bool \<Rightarrow> client_request \<Rightarrow> format \<Rightarrow> int \<Rightarrow> admission \<times> int" where
  "admit P draining rq source seq =
     (let co = pe_codec P in
      if rq_method rq \<noteq> ''POST'' then (Answered (writeError co 405 ''Method not allowed'') [], seq)
      else if draining then (Answered (writeError co 503 ''Server is shutting down'') [], seq)
      else if rq_readErr rq \<or> length (rq_body rq) > maxBodyBytes
      then (Answered (writeError co 400 (''Bad request '' @ [CHR 0xE2, CHR 0x80, CHR 0x94] @ '' unreadable body'')) [], seq)
      else case co_decode co (rq_body rq) of
        Some (JObj body) \<Rightarrow>
          (case requestModel body of (requested, b1) \<Rightarrow>
             if requested = []
             then (Answered (writeError co 400 (''Model not found '' @ [CHR 0xE2, CHR 0x80, CHR 0x94] @ '' body.model is required'')) [], seq)
             else if isTestConnectionRequest (rq_headers rq)
             then (Answered (createTestConnectionResponse co (pe_hex32 P) (pe_milli P div 1000) requested) (cleanModelOf requested), seq)
             else case handleBypassRequest (tq_chunk (pe_req P)) (pe_milli P) b1 requested (rq_get rq ''User-Agent'') source of
               Some reply \<Rightarrow> (Answered reply (cleanModelOf requested), seq)
             | None \<Rightarrow> prepareBody P rq source requested b1 seq)
      | _ \<Rightarrow> (Answered (writeError co 400 (''Bad request '' @ [CHR 0xE2, CHR 0x80, CHR 0x94] @ '' body must be a JSON object'')) [], seq))"

section \<open>From the plan to the reply\<close>

text \<open>What the upstream's answer brings: the arrivals of its body, as the reader of the reply takes them.\<close>

record live =
  lv_arrivals :: "arrival list"
  lv_bodyText :: string
  lv_stream :: stream_env
  lv_relay :: relay_env
  lv_trans :: trans_env
  lv_forced :: forced_env
  lv_passLines :: "(ticks \<times> string) list"
  lv_passEnd :: "(ticks \<times> string) scan_end"
  lv_passTicks :: ticks
  lv_transLines :: "((nat \<Rightarrow> int) \<times> string) list"
  lv_transEnd :: "((nat \<Rightarrow> int) \<times> string) scan_end"
  lv_transTicks :: "nat \<Rightarrow> int"

text \<open>The parameter \<open>pn_quote\<close> is \<^verbatim>\<open>strconv.Quote\<close>; \<open>pn_hdr\<close> and \<open>pn_ua\<close> are read once per dial.\<close>

record pipe_net =
  pn_rt :: runtime
  pn_others :: "nat \<Rightarrow> server \<Rightarrow> server"
  pn_clk :: "string \<Rightarrow> int"
  pn_quote :: "string \<Rightarrow> string"
  pn_session :: session_env
  pn_xform :: xform_env
  pn_draw :: draw
  pn_hdr :: "nat \<Rightarrow> draw"
  pn_ua :: "nat \<Rightarrow> string"
  pn_exec :: exec_env
  pn_live :: live

datatype relay_reply =
    Replied http_reply
  | Converted string http_reply "(origin \<times> string) option"
  | Streamed string stream_reply
  | Waiting string
  | Crashed

text \<open>One completion line of the log.\<close>

record completion =
  cp_generation :: nat
  cp_route :: string
  cp_egress :: string
  cp_attempts :: nat
  cp_failure :: failure
  cp_status :: int
  cp_model :: string
  cp_endpoint :: string
  cp_caller :: string

definition cp_fallback :: "completion \<Rightarrow> bool" where
  "cp_fallback c \<longleftrightarrow> cp_attempts c > 1"

definition logCompletion :: "pipe_net \<Rightarrow> client_request \<Rightarrow> format \<Rightarrow> string \<Rightarrow> string \<Rightarrow> string \<Rightarrow> nat \<Rightarrow> failure \<Rightarrow> int \<Rightarrow> completion" where
  "logCompletion N rq source model routeID egID attempts failure status =
     \<lparr>cp_generation = rt_generation (pn_rt N), cp_route = routeID, cp_egress = egID, cp_attempts = attempts, cp_failure = failure,
      cp_status = status, cp_model = model, cp_endpoint = source, cp_caller = callerRequestID (rq_get rq)\<rparr>"

record relay_out =
  ro_reply :: relay_reply
  ro_lines :: "completion list"
  ro_sent :: "(string \<times> jmap) option"
  ro_exec :: "exec_result option"

record process =
  ps_server :: server
  ps_sessions :: id_stores
  ps_seq :: int

definition relayLive :: "live \<Rightarrow> prepared \<Rightarrow> jmap \<Rightarrow> stream_env \<Rightarrow> stream_out" where
  "relayLive lv p body se =
     (let cfg = \<lparr>pc_body = JObj body, pc_format = pp_source p,
            pc_synthesis = ResolveSynthesis (re_num (lv_relay lv)) (fe_lower (lv_forced lv)) body (pp_upstreamModel p) (pp_intent p)\<rparr>
      in if pp_source p \<noteq> pp_target p
         then streamTranslate se (lv_trans lv) cfg
           (SetCustomToolNames (pp_customTools p) (NewTranslateRelay (pp_upstreamModel p) (lv_transTicks lv 0 div 1000) []))
           (lv_transLines lv) (lv_transEnd lv) (lv_transTicks lv)
         else streamPassthrough se (lv_relay lv) cfg (lv_passLines lv) (lv_passEnd lv) (lv_passTicks lv))"

definition deliver :: "pipe_env \<Rightarrow> live \<Rightarrow> prepared \<Rightarrow> jmap \<Rightarrow> string \<Rightarrow> origin \<Rightarrow> http_response \<Rightarrow> relay_reply" where
  "deliver P lv p body egID delivered resp =
     (let contentType = headerGet (rp_header resp) ''Content-Type'' in
      if \<not> pp_streaming p \<and> forcedUpstreamIsSSE contentType
      then (case readBoundedSSE (lv_arrivals lv) of
          None \<Rightarrow> Waiting egID
        | Some read \<Rightarrow>
            (case forcedSSEToJson ((lv_forced lv)\<lparr>fe_delivered := delivered\<rparr>)
                \<lparr>fr_source = pp_source p, fr_target = pp_target p, fr_model = pp_cleanModel p, fr_upstreamModel = pp_upstreamModel p,
                 fr_customTools = pp_customTools p, fr_body = body, fr_intent = pp_intent p\<rparr> read of
               (reply, abort) \<Rightarrow> Converted egID reply abort))
      else let se = (lv_stream lv)\<lparr>se_delivered := delivered\<rparr> in
        Streamed egID (streamGuard (pe_codec P) se (pe_lower P) contentType (rp_status resp) (lv_bodyText lv) (relayLive lv p body se)))"

definition bracketStatus :: "int \<Rightarrow> string \<Rightarrow> string" where
  "bracketStatus status message = [CHR 0x5B] @ itoa status @ [CHR 0x5D] @ '': '' @ message"

definition execEnv :: "pipe_net \<Rightarrow> headers \<Rightarrow> string \<Rightarrow> string \<Rightarrow> string \<Rightarrow> exec_env" where
  "execEnv N d session url bodyJSON = (pn_exec N)
     \<lparr>xe_target := url, xe_body := Some bodyJSON, xe_headers := (\<lambda>k. BuildHeaders (pn_hdr N k) d session (pn_ua N k))\<rparr>"

definition relaySend ::
  "pipe_env \<Rightarrow> pipe_net \<Rightarrow> client_request \<Rightarrow> prepared \<Rightarrow> string list \<Rightarrow> string list \<Rightarrow> route_plan \<Rightarrow> process \<Rightarrow> relay_out \<times> process" where
  "relaySend P N rq p keys heads plan st =
     (let line = logCompletion N rq (pp_source p) (pp_cleanModel p); co = pe_codec P; d = captureDownstream (rq_get rq) in
      case PrepareRequest (pn_session N) (pn_xform N) (pn_draw N) (pp_upstreamModel p) (pp_body p) d (ps_sessions st) (ps_seq st) of
        (session, body, ss, seq) \<Rightarrow> (case co_encode co (JObj body) of
          None \<Rightarrow> (\<lparr>ro_reply = Replied (writeError co 500 ''Failed to serialize request''),
              ro_lines = [line (pl_route_id plan) [] 0 NoDialFailure 500], ro_sent = None, ro_exec = None\<rparr>,
            \<lparr>ps_server = releasePins keys (pn_others N 4 (ps_server st)), ps_sessions = ss, ps_seq = seq\<rparr>)
        | Some bodyJSON \<Rightarrow>
            let url = BuildURL (rt_upstream_base (pn_rt N)) (pp_upstreamModel p) in
            (case relayExec (execEnv N d session url bodyJSON) (pn_others N) (pn_rt N) keys heads plan (ps_server st) of
               (res, sv) \<Rightarrow>
                 let out = (\<lambda>reply status. \<lparr>ro_reply = reply,
                       ro_lines = [line (pl_route_id plan) (xr_id res) (xr_attempts res) (xr_failure res) status],
                       ro_sent = Some (url, body), ro_exec = Some res\<rparr>)
                 in (case xr_error res of
                       Some e \<Rightarrow> out (Replied (writeError co (ue_status e) (bracketStatus (ue_status e) (ue_message e)))) (ue_status e)
                     | None \<Rightarrow> (case xr_response res of
                         None \<Rightarrow> \<lparr>ro_reply = Crashed, ro_lines = [], ro_sent = Some (url, body), ro_exec = Some res\<rparr>
                       | Some resp \<Rightarrow> out (deliver P (pn_live N) p body (xr_id res) (fl_origin (xr_failure res)) resp) (rp_status resp)),
                     \<lparr>ps_server = sv, ps_sessions = ss, ps_seq = seq\<rparr>))))"

definition profileOf :: "prepared \<Rightarrow> profile" where
  "profileOf p = \<lparr>pr_model = pp_cleanModel p, pr_streaming = pp_streaming p, pr_body_bytes = pp_bytes p, pr_endpoint = pp_source p\<rparr>"

definition relayRouted :: "pipe_env \<Rightarrow> pipe_net \<Rightarrow> client_request \<Rightarrow> prepared \<Rightarrow> process \<Rightarrow> relay_out \<times> process" where
  "relayRouted P N rq p st =
     (let line = logCompletion N rq (pp_source p) (pp_cleanModel p); co = pe_codec P in
      case relayPlan (pn_others N) (pn_clk N) (pn_rt N) (profileOf p) (ps_server st) of
        (Inl NoRoute, sv) \<Rightarrow> (\<lparr>ro_reply = Replied (writeError co 400 ''No route matched this request''),
            ro_lines = [line [] [] 0 NoDialFailure 400], ro_sent = None, ro_exec = None\<rparr>, st\<lparr>ps_server := sv\<rparr>)
      | (Inl (NoEligible routeID), sv) \<Rightarrow>
          (\<lparr>ro_reply = Replied (writeError co 502 (''No eligible egress for route '' @ pn_quote N routeID)),
            ro_lines = [line routeID [] 0 NoDialFailure 502], ro_sent = None, ro_exec = None\<rparr>, st\<lparr>ps_server := sv\<rparr>)
      | (Inl _, sv) \<Rightarrow> (\<lparr>ro_reply = Crashed, ro_lines = [], ro_sent = None, ro_exec = None\<rparr>, st\<lparr>ps_server := sv\<rparr>)
      | (Inr (keys, heads, plan), sv) \<Rightarrow> relaySend P N rq p keys heads plan (st\<lparr>ps_server := sv\<rparr>))"

definition relay :: "pipe_env \<Rightarrow> pipe_net \<Rightarrow> client_request \<Rightarrow> format \<Rightarrow> process \<Rightarrow> relay_out \<times> process" where
  "relay P N rq source st = (case admit P (sv_draining (ps_server st)) rq source (ps_seq st) of
     (Answered reply model, seq) \<Rightarrow> (\<lparr>ro_reply = Replied reply,
         ro_lines = [logCompletion N rq source model [] [] 0 NoDialFailure (hr_status reply)], ro_sent = None, ro_exec = None\<rparr>, st\<lparr>ps_seq := seq\<rparr>)
   | (Panicked model, seq) \<Rightarrow> (\<lparr>ro_reply = Crashed, ro_lines = [], ro_sent = None, ro_exec = None\<rparr>, st\<lparr>ps_seq := seq\<rparr>)
   | (Admitted p, seq) \<Rightarrow> relayRouted P N rq p (st\<lparr>ps_seq := seq\<rparr>))"

definition HandleChatCompletions :: "pipe_env \<Rightarrow> pipe_net \<Rightarrow> client_request \<Rightarrow> process \<Rightarrow> relay_out \<times> process" where
  "HandleChatCompletions P N rq st = relay P N rq FormatChat st"

definition HandleResponses :: "pipe_env \<Rightarrow> pipe_net \<Rightarrow> client_request \<Rightarrow> process \<Rightarrow> relay_out \<times> process" where
  "HandleResponses P N rq st = relay P N rq FormatResponses st"

end
