(* ===== verification/PipelineProps.thy ===== *)
theory PipelineProps
  imports Pipeline
begin

text \<open>
  What the pipeline guarantees whatever the client sends and the network does: the body that leaves, the log
  line each request gets, and that a request answered on the spot touches nothing.
\<close>

section \<open>Which keys each stage touches\<close>

lemma strip_has: "has (StripAll b) k \<Longrightarrow> has b k"
proof -
  assume h: "has (StripAll b) k"
  let ?b2 = "dropNested ''generationConfig'' (fold gm_del plainKnobs b)"
  have "has ?b2 k"
  proof (cases "asObj (mget ?b2 ''request'')")
    case None
    with h show ?thesis by (simp add: StripAll_eq Let_def)
  next
    case (Some req)
    then have r: "has ?b2 ''request''" by (auto simp: asObj_def mget_def has_def split: json.splits option.splits)
    with h Some show ?thesis by (auto simp: StripAll_eq Let_def has_gm_set split: if_splits)
  qed
  then show ?thesis by (simp add: dropNested_reads fold_del_has)
qed

lemma thinking_has: "k \<noteq> ''reasoning_effort'' \<Longrightarrow> has (ApplyThinking N lw b model intent) k \<Longrightarrow> has b k"
proof -
  assume k: "k \<noteq> ''reasoning_effort''" and h: "has (ApplyThinking N lw b model intent) k"
  have "ApplyThinking N lw b model intent \<in> {b, StripAll b} \<or> (\<exists>v. ApplyThinking N lw b model intent = gm_set ''reasoning_effort'' v (StripAll b))"
    unfolding ApplyThinking_def Let_def
    by (cases "effectiveIntent N lw model intent b") (simp_all only: option.case insert_iff split: if_split, blast+)
  with h k show ?thesis by (auto simp: has_gm_set dest: strip_has)
qed

lemma filter_has: "k \<notin> {''messages'', ''tools'', ''tool_choice''} \<Longrightarrow> has (FilterToOpenAIFormat b) k \<longleftrightarrow> has b k"
  by (auto simp: FilterToOpenAIFormat_def filterTools_def filterToolChoice_def map_reads Let_def split: json.splits)

lemma filter_reads: "k \<notin> {''messages'', ''tools'', ''tool_choice''} \<Longrightarrow> mget (FilterToOpenAIFormat b) k = mget b k"
  by (auto simp: FilterToOpenAIFormat_def filterTools_def filterToolChoice_def map_reads Let_def split: json.splits)

lemma dedupe_reads: "k \<noteq> ''tools'' \<Longrightarrow> mget (dedupeBody P rq b) k = mget b k \<and> (has (dedupeBody P rq b) k \<longleftrightarrow> has b k)"
  by (auto simp: dedupeBody_def map_reads split: json.splits prod.splits)

lemma continuity_reads: "k \<noteq> ''messages'' \<Longrightarrow> mget (StripContinuityFields b) k = mget b k \<and> (has (StripContinuityFields b) k \<longleftrightarrow> has b k)"
  by (auto simp: StripContinuityFields_def map_reads split: json.splits)

lemma prepare_body:
  "PrepareRequest senv env dr model b d ss seq = (session, body, ss', seq') \<Longrightarrow>
   body = fst (TransformRequest env model (StripContinuityFields b) seq)"
  by (auto simp: PrepareRequest_def Let_def split: prod.splits)

section \<open>The shape of an admitted request\<close>

lemma shape_marker: "\<not> has (upstreamShape P rq target up clean intent b) ''_customToolNames''"
proof -
  have "\<not> has (ApplyThinking (pe_num P) (pe_lower P) (gm_del ''_customToolNames'' b) up intent) ''_customToolNames''"
  proof
    assume "has (ApplyThinking (pe_num P) (pe_lower P) (gm_del ''_customToolNames'' b) up intent) ''_customToolNames''"
    then have "has (gm_del ''_customToolNames'' b) ''_customToolNames''" by (rule thinking_has [rotated]) simp
    then show False by (simp add: has_gm_del)
  qed
  then show ?thesis by (simp add: upstreamShape_def Let_def dedupe_reads has_gm_set filter_has)
qed

lemma shape_model: "mget (upstreamShape P rq target up clean intent b) ''model'' = JStr clean"
  by (simp add: upstreamShape_def Let_def dedupe_reads mget_gm_set)

lemma knobFree_cong:
  assumes "\<And>k. k \<in> set plainKnobs \<Longrightarrow> has b' k \<longleftrightarrow> has b k"
    and "mget b' ''generationConfig'' = mget b ''generationConfig''" and "mget b' ''request'' = mget b ''request''"
  shows "knobFree b' \<longleftrightarrow> knobFree b"
  using assms by (simp add: knobFree_def list_all_iff)

lemma shape_knobFree:
  assumes "\<not> IsReasoningModel (fst (ParseSuffix (pe_num P) (pe_lower P) up))"
  shows "knobFree (upstreamShape P rq target up clean intent b)"
proof -
  let ?t = "ApplyThinking (pe_num P) (pe_lower P) (gm_del ''_customToolNames'' b) up intent"
  have t: "knobFree ?t" using assms by (simp add: ApplyThinking_def StripAll_knobFree)
  have n: "k \<notin> {''messages'', ''tools'', ''tool_choice'', ''model''}" if "k \<in> set plainKnobs" for k
    using that by (auto simp: plainKnobs_def)
  have "knobFree (upstreamShape P rq target up clean intent b) \<longleftrightarrow> knobFree ?t"
    by (rule knobFree_cong)
      (use n in \<open>auto simp: upstreamShape_def Let_def dedupe_reads map_reads filter_has filter_reads\<close>)
  with t show ?thesis by simp
qed

lemma prepareBody_shape:
  assumes "prepareBody P rq source requested b seq = (Admitted p, seq')"
  shows "pp_upstreamModel p = aliasStrip requested \<and> pp_cleanModel p = BaseModelID (aliasStrip requested) \<and>
    pp_target p = targetFormatOf (aliasStrip requested) \<and> pp_source p = source \<and>
    (\<exists>b2. pp_body p = upstreamShape P rq (pp_target p) (pp_upstreamModel p) (pp_cleanModel p) (pp_intent p) b2)"
  using assms by (auto simp: prepareBody_def Let_def split: option.splits prod.splits)

lemma admit_shape:
  assumes "admit P draining rq source seq = (Admitted p, seq')"
  shows "rq_method rq = ''POST'' \<and> \<not> draining \<and> length (rq_body rq) \<le> maxBodyBytes \<and>
    (\<exists>body requested b1. co_decode (pe_codec P) (rq_body rq) = Some (JObj body) \<and> requestModel body = (requested, b1) \<and> requested \<noteq> [] \<and>
      \<not> isTestConnectionRequest (rq_headers rq) \<and>
      handleBypassRequest (tq_chunk (pe_req P)) (pe_milli P) b1 requested (rq_get rq ''User-Agent'') source = None \<and>
      prepareBody P rq source requested b1 seq = (Admitted p, seq'))"
proof -
  have "rq_method rq = ''POST''" "\<not> draining" "\<not> (rq_readErr rq \<or> length (rq_body rq) > maxBodyBytes)"
    using assms by (auto simp: admit_def Let_def split: if_splits)
  moreover obtain body where "co_decode (pe_codec P) (rq_body rq) = Some (JObj body)"
    using assms by (auto simp: admit_def Let_def split: if_splits option.splits json.splits)
  moreover obtain requested b1 where "requestModel body = (requested, b1)" by force
  ultimately show ?thesis using assms
    by (auto simp: admit_def Let_def split: if_splits option.splits)
qed

section \<open>Pins\<close>

text \<open>
  What the other requests do to the pins: \<open>P k\<close> is what they may hold before the point \<open>k\<close> of the handler where they
  move, \<open>E k\<close> before their step \<open>k\<close> within the executor's walk, and \<open>F\<close> when this request has given its pins back. They
  pin and release as they like, also the keys this request has pinned, but never the pins \<open>keys\<close> it holds itself from
  the first point on. The last point follows the planning or any turn of the walk.
\<close>

definition server_pins :: "server \<Rightarrow> string multiset \<Rightarrow> bool" where
  "server_pins s H \<longleftrightarrow> (\<exists>reg. sv_health s = Some reg \<and> pins.tracks reg H)"

definition pin_traffic ::
  "pipe_net \<Rightarrow> string list \<Rightarrow> (nat \<Rightarrow> string multiset set) \<Rightarrow> (nat \<Rightarrow> string multiset set) \<Rightarrow> string multiset set \<Rightarrow> bool" where
  "pin_traffic N keys P E F \<longleftrightarrow>
     interferes server_pins {#} (P 0) (pn_others N 0) (P 1) \<and>
     (\<forall>k \<in> {1, 2, 3}. interferes server_pins (mset keys) (P k) (pn_others N k) (P (Suc k))) \<and>
     P 4 \<subseteq> E 0 \<and> along E \<and>
     (\<forall>k. interferes pins.tracks (mset keys) (E k) (xe_reg (pn_exec N) k) (E (Suc k))) \<and>
     (\<forall>A \<in> {P 3, P 4} \<union> range E. interferes server_pins (mset keys) A (pn_others N 4) F)"

definition pins_held :: "string multiset \<Rightarrow> string multiset set \<Rightarrow> registry option \<Rightarrow> bool" where
  "pins_held M A r \<longleftrightarrow> (\<exists>reg. \<exists>H \<in> A. r = Some reg \<and> pins.tracks reg (M + H))"

lemma held_later: "A \<subseteq> B \<Longrightarrow> pins_held M A r \<Longrightarrow> pins_held M B r"
  by (auto simp: pins_held_def)

lemma held_others:
  "interferes pins.tracks M A (xe_reg env k) B \<Longrightarrow> pins_held M A (fst sh) \<Longrightarrow> pins_held M B (fst (xe_others env k sh))"
  by (fastforce simp: pins_held_def interferes_def xe_others_def)

lemma held_server: "interferes server_pins M A g B \<Longrightarrow> pins_held M A (sv_health s) \<Longrightarrow> pins_held M B (sv_health (g s))"
  by (fastforce simp: pins_held_def interferes_def server_pins_def)

lemma held_refs:
  assumes "pins_held M A (Some reg)" and "rg_refs reg' = rg_refs reg"
  shows "pins_held M A (Some reg')"
  using assms tracks_refs [of reg' reg] by (auto simp: pins_held_def)

lemma held_told: "pins_held M A r \<Longrightarrow> pins_held M A (map_option (tell env pol look d) r)"
proof (cases r)
  case (Some reg)
  assume h: "pins_held M A r"
  obtain n i res where d: "d = (n, i, res)" by (metis prod_cases3)
  have "rg_refs (tell env pol look d reg) = rg_refs reg" by (simp add: tell_def d split: option.split)
  with h Some held_refs show ?thesis by simp
qed (simp add: pins_held_def)

text \<open>The walk: what the others hold before the turn to come.\<close>

definition walk_pins :: "string multiset \<Rightarrow> (nat \<Rightarrow> string multiset set) \<Rightarrow> exec_loop \<Rightarrow> bool" where
  "walk_pins M E x \<longleftrightarrow> pins_held M (E (2 * ps_next (xl_sel x) + 2)) (fst (xl_shared x))"

lemma turn_pins:
  assumes "along E" and e: "\<forall>k. interferes pins.tracks M (E k) (xe_reg env k) (E (Suc k))"
    and "walk_pins M E x" and "Next i prev (xl_sel x) = ((sel, True), s')"
  shows "pins_held M (E (2 * ps_next s')) (fst (xl_shared x)) \<and>
    pins_held M (E (2 * ps_next s' + 1)) (fst (xe_others env (2 * ps_next s') (xl_shared x)))"
proof -
  have "pins_held M (E (2 * ps_next s')) (fst (xl_shared x))"
    using held_later [OF along_next [OF assms(1) Next_grows [OF assms(4)]]] assms(3) by (simp add: walk_pins_def)
  with held_others [OF spec [OF e]] show ?thesis by simp
qed

lemma skip_pins:
  assumes "along E" and "\<forall>k. interferes pins.tracks M (E k) (xe_reg env k) (E (Suc k))"
    and "walk_pins M E x" and "Next i prev (xl_sel x) = ((sel, True), s')" and "sh \<in> {xl_shared x, xe_others env (2 * ps_next s') (xl_shared x)}"
  shows "pins_held M (E (2 * ps_next s' + 2)) (fst sh)"
proof -
  have "E (2 * ps_next s') \<subseteq> E (2 * ps_next s' + 2)" "E (2 * ps_next s' + 1) \<subseteq> E (2 * ps_next s' + 2)"
    using assms(1) unfolding along_def by blast+
  then show ?thesis using turn_pins [OF assms(1-4)] assms(5) held_later by blast
qed

lemma dial_pins:
  assumes "along E" and e: "\<forall>k. interferes pins.tracks M (E k) (xe_reg env k) (E (Suc k))"
    and "walk_pins M E x" and "Next i prev (xl_sel x) = ((sel, True), s')" and "dial_start env pol x sel s' eg c x1"
  shows "pins_held M (E (2 * ps_next s' + 2)) (case dialEgress env pol sel eg c x1 of Inl r \<Rightarrow> fst (xr_shared r) | Inr x' \<Rightarrow> fst (xl_shared x'))"
proof -
  have s: "xl_sel x1 = s'" and "fst (xl_shared x1) = fst (xe_others env (2 * ps_next s') (xl_shared x))"
    using assms(5) by (auto simp: dial_start_def dest!: acquireSlot_fst)
  then have "pins_held M (E (2 * ps_next s' + 1)) (fst (xl_shared x1))" using turn_pins [OF assms(1-4)] by simp
  from held_others [OF spec [OF e] this]
  have o: "pins_held M (E (2 * ps_next s' + 2)) (fst (xe_others env (2 * ps_next (xl_sel x1) + 1) (xl_shared x1)))" by (simp add: s)
  have "(case dialEgress env pol sel eg c x1 of Inl r \<Rightarrow> fst (xr_shared r) | Inr x' \<Rightarrow> fst (xl_shared x')) =
      map_option (tell env pol (\<lambda>_. Some eg) (Suc (xl_attempts x1), sl_id sel, call_of env c (Suc (xl_attempts x1)) (xl_rec x1)))
       (fst (xe_others env (2 * ps_next (xl_sel x1) + 1) (xl_shared x1)))"
    by (rule dialEgress_reg [where look = "\<lambda>_. Some eg"]) simp
  then show ?thesis using held_told [OF o] by (simp del: add_2_eq_Suc')
qed

lemma exec_pins:
  assumes al: "along E" and e: "\<forall>k. interferes pins.tracks M (E k) (xe_reg env k) (E (Suc k))" and h: "pins_held M (E 0) (fst sh)"
  shows "\<exists>k. pins_held M (E k) (fst (xr_shared (ExecuteObserved env plan pol sh rec)))"
  unfolding ExecuteObserved_start
proof (rule execLoop_inv [where I = "walk_pins M E"])
  have "E 0 \<subseteq> E (Suc (Suc 0))" using along_turns [OF al, of 0 1] by (simp add: numeral_eq_Suc)
  then show "walk_pins M E (exec_start plan sh rec)"
    using held_later h by (auto simp: walk_pins_def exec_start_def NewPlanSelector_def)
next
  fix x x' assume i: "walk_pins M E x" and st: "execStep env pol x = Inr x'"
  from execStep_next [OF st] show "walk_pins M E x'"
  proof (elim exE conjE disjE)
    fix sel assume n: "Next (xl_intent x) (xl_prev x) (xl_sel x) = ((sel, True), xl_sel x')"
      and "xl_shared x' \<in> {xl_shared x, xe_others env (2 * ps_next (xl_sel x')) (xl_shared x)}"
    from skip_pins [OF al e i this] show ?thesis by (simp add: walk_pins_def)
  next
    fix sel eg c x1 assume n: "Next (xl_intent x) (xl_prev x) (xl_sel x) = ((sel, True), xl_sel x')"
      and d: "dial_start env pol x sel (xl_sel x') eg c x1" and g: "dialEgress env pol sel eg c x1 = Inr x'"
    from dial_pins [OF al e i n d] show ?thesis by (simp add: g walk_pins_def)
  qed
next
  fix x r assume i: "walk_pins M E x" and st: "execStep env pol x = Inl r"
  from execStep_stop [OF st] show "\<exists>k. pins_held M (E k) (fst (xr_shared r))"
  proof (elim exE conjE disjE)
    fix sel ok s' x' assume n: "Next (xl_intent x) (xl_prev x) (xl_sel x) = ((sel, ok), s')" and ok and r: "r = finishPlan x'"
      and s: "xl_shared x' \<in> {xl_shared x, xe_others env (2 * ps_next s') (xl_shared x)}"
    have "Next (xl_intent x) (xl_prev x) (xl_sel x) = ((sel, True), s')" using n \<open>ok\<close> by simp
    from skip_pins [OF al e i this s] show ?thesis by (auto simp: r)
  next
    fix sel ok s' eg c x1 assume n: "Next (xl_intent x) (xl_prev x) (xl_sel x) = ((sel, ok), s')" and ok
      and d: "dial_start env pol x sel s' eg c x1" and g: "dialEgress env pol sel eg c x1 = Inl r"
    have "Next (xl_intent x) (xl_prev x) (xl_sel x) = ((sel, True), s')" using n \<open>ok\<close> by simp
    from dial_pins [OF al e i this d] show ?thesis by (auto simp: g)
  qed (use i in \<open>auto simp: walk_pins_def\<close>)
qed

lemma held_pin: "pins_held {#} A r \<Longrightarrow> pins_held (mset keys) A (map_option (Pin keys) r)"
  using Pin_tracks by (fastforce simp: pins_held_def)

lemma held_release: "pins_held (mset keys) A r \<Longrightarrow> pins_held {#} A (map_option (PinRelease keys) r)"
  using PinRelease_tracks [of _ "mset keys + _" keys] by (fastforce simp: pins_held_def)

lemma held_generation: "pins_held M A (sv_health s) \<Longrightarrow> pins_held M A (sv_health (onGeneration rt s))"
proof -
  assume h: "pins_held M A (sv_health s)"
  then obtain reg where r: "sv_health s = Some reg" by (auto simp: pins_held_def)
  have "sv_health (onGeneration rt s) = Some reg \<or> (\<exists>active. sv_health (onGeneration rt s) = Some (snd (Reclaim active reg)))"
    by (auto simp: onGeneration_def pruneClientsLocked_def r split: prod.splits)
  with h r held_refs [of M A reg] show ?thesis by auto
qed

lemma release_server:
  assumes "interferes server_pins (mset keys) A g F" and "pins_held (mset keys) A (sv_health s)"
  shows "pins_held {#} F (sv_health (releasePins keys (g s)))"
  using held_release [OF held_server [OF assms]] by (simp add: releasePins_def)

text \<open>The health identities of the route a request takes: what it pins.\<close>

definition routedKeys :: "runtime \<Rightarrow> profile \<Rightarrow> string list" where
  "routedKeys rt p = (case MatchRoute rt (pr_streaming p) (pr_body_bytes p) (pr_model p) of
     None \<Rightarrow> [] | Some route \<Rightarrow> routeHealthKeys rt route)"

lemma plan_pins:
  assumes t: "pin_traffic N (routedKeys rt p) P E F" and h: "pins_held {#} (P 0) (sv_health s)"
    and r: "relayPlan (pn_others N) clk rt p s = (r, s')"
  shows "case r of Inl _ \<Rightarrow> pins_held {#} (P 0 \<union> F) (sv_health s')
    | Inr (keys, heads, plan) \<Rightarrow> keys = routedKeys rt p \<and> pins_held (mset keys) (E 0) (sv_health s')"
proof (cases "MatchRoute rt (pr_streaming p) (pr_body_bytes p) (pr_model p)")
  case None
  with r held_later [OF _ h, of "P 0 \<union> F"] show ?thesis by (auto simp: relayPlan_def)
next
  case (Some route)
  let ?others = "pn_others N"
  define keys where "keys = routeHealthKeys rt route"
  define s1 where "s1 = ?others 1 ((?others 0 s)\<lparr>sv_health := map_option (Pin keys) (sv_health (?others 0 s))\<rparr>)"
  define s2 where "s2 = ?others 2 (onGeneration rt s1)"
  define heads where "heads = routeHeads clk rt route p (PolicyFromSnapshot rt) s2"
  have k: "routedKeys rt p = keys" by (simp add: routedKeys_def Some keys_def)
  note t' = t [unfolded k pin_traffic_def]
  have p: "interferes server_pins {#} (P 0) (?others 0) (P 1)" "interferes server_pins (mset keys) (P 1) (?others 1) (P 2)"
    "interferes server_pins (mset keys) (P 2) (?others 2) (P 3)" "interferes server_pins (mset keys) (P 3) (?others 3) (P 4)"
    "interferes server_pins (mset keys) (P 3) (?others 4) F" "interferes server_pins (mset keys) (P 4) (?others 4) F" "P 4 \<subseteq> E 0"
    using t' by (simp_all add: numeral_eq_Suc)
  from held_pin [OF held_server [OF p(1) h]] have "pins_held (mset keys) (P 2) (sv_health s1)"
    unfolding s1_def by (intro held_server [OF p(2)]) simp
  then have 2: "pins_held (mset keys) (P 3) (sv_health s2)"
    unfolding s2_def by (intro held_server [OF p(3)] held_generation)
  have 3: "pins_held (mset keys) (P 4) (sv_health (?others 3 s2))" by (rule held_server [OF p(4) 2])
  have r': "relayPlan ?others clk rt p s =
      (if heads = [] then (Inl (NoEligible (r_id route)), releasePins keys (?others 4 s2))
       else case sv_sched (?others 3 s2) of
           None \<Rightarrow> (Inl PlanPanic, releasePins keys (?others 4 (?others 3 s2)))
         | Some sc \<Rightarrow> (case Plan rt route heads sc of
             None \<Rightarrow> (Inl PlanPanic, releasePins keys (?others 4 (?others 3 s2)))
           | Some (plan, sc') \<Rightarrow> (Inr (keys, heads, plan), (?others 3 s2)\<lparr>sv_sched := Some sc'\<rparr>)))"
    by (simp only: relayPlan_def Let_def Some option.case keys_def [symmetric] s1_def [symmetric] s2_def [symmetric] heads_def [symmetric])
  have f: "pins_held {#} (P 0 \<union> F) (sv_health (releasePins keys (?others 4 s2)))"
    "pins_held {#} (P 0 \<union> F) (sv_health (releasePins keys (?others 4 (?others 3 s2))))"
    using release_server [OF p(5) 2] release_server [OF p(6) 3] held_later [of F "P 0 \<union> F"] by auto
  show ?thesis using r f held_later [OF p(7) 3] unfolding r' k
    by (auto split: if_splits option.splits prod.splits)
qed

lemma send_pins:
  assumes t: "pin_traffic N keys P E F" and h: "pins_held (mset keys) (E 0) (sv_health (ps_server st))"
  shows "pins_held {#} F (sv_health (ps_server (snd (relaySend Q N rq p keys heads plan st))))"
proof -
  let ?d = "captureDownstream (rq_get rq)"
  obtain session body ss seq where pr: "PrepareRequest (pn_session N) (pn_xform N) (pn_draw N) (pp_upstreamModel p) (pp_body p) ?d
      (ps_sessions st) (ps_seq st) = (session, body, ss, seq)" by (metis prod_cases4)
  have al: "along E" and last: "\<And>k. interferes server_pins (mset keys) (E k) (pn_others N 4) F"
    and e: "\<forall>k. interferes pins.tracks (mset keys) (E k) (xe_reg (execEnv N d session url bodyJSON) k) (E (Suc k))" for d session url bodyJSON
    using t by (simp_all add: pin_traffic_def execEnv_def)
  show ?thesis
  proof (cases "co_encode (pe_codec Q) (JObj body)")
    case None
    then show ?thesis using release_server [OF last h] by (simp add: relaySend_def Let_def pr)
  next
    case (Some bodyJSON)
    let ?env = "execEnv N ?d session (BuildURL (rt_upstream_base (pn_rt N)) (pp_upstreamModel p)) bodyJSON"
    let ?res = "ExecuteObserved ?env plan (attemptPolicy (pn_rt N) (PolicyFromSnapshot (pn_rt N)) heads)
      (sv_health (ps_server st), sv_slots (ps_server st)) NewRecorder"
    obtain k where "pins_held (mset keys) (E k) (fst (xr_shared ?res))"
      using exec_pins [OF al e, of "(sv_health (ps_server st), sv_slots (ps_server st))"] h by fastforce
    then have "pins_held {#} F (sv_health (releasePins keys (pn_others N 4
        ((ps_server st)\<lparr>sv_health := fst (xr_shared ?res), sv_slots := snd (xr_shared ?res)\<rparr>))))"
      by (intro release_server [OF last]) simp
    then show ?thesis by (simp add: relaySend_def Let_def pr Some relayExec_def)
  qed
qed

lemma routed_pins:
  assumes t: "pin_traffic N (routedKeys (pn_rt N) (profileOf p)) P E F" and h: "pins_held {#} (P 0) (sv_health (ps_server st))"
  shows "pins_held {#} (P 0 \<union> F) (sv_health (ps_server (snd (relayRouted Q N rq p st))))"
proof -
  obtain r sv where r: "relayPlan (pn_others N) (pn_clk N) (pn_rt N) (profileOf p) (ps_server st) = (r, sv)" by force
  note pl = plan_pins [OF t h r]
  show ?thesis
  proof (cases r)
    case (Inl out)
    then show ?thesis using pl by (cases out) (simp_all add: relayRouted_def Let_def r)
  next
    case (Inr x)
    obtain keys heads plan where x: "x = (keys, heads, plan)" by (metis prod_cases3)
    have k: "keys = routedKeys (pn_rt N) (profileOf p)" and "pins_held (mset keys) (E 0) (sv_health (ps_server (st\<lparr>ps_server := sv\<rparr>)))"
      using pl unfolding Inr x by auto
    from send_pins [OF t [folded k] this(2)] have "pins_held {#} F (sv_health (ps_server (snd (relaySend Q N rq p keys heads plan (st\<lparr>ps_server := sv\<rparr>)))))" .
    then show ?thesis using held_later [of F "P 0 \<union> F"] by (simp add: relayRouted_def Let_def r Inr x)
  qed
qed

definition requestKeys :: "pipe_env \<Rightarrow> pipe_net \<Rightarrow> client_request \<Rightarrow> format \<Rightarrow> process \<Rightarrow> string list" where
  "requestKeys Q N rq source st = (case admit Q (sv_draining (ps_server st)) rq source (ps_seq st) of
     (Admitted p, _) \<Rightarrow> routedKeys (pn_rt N) (profileOf p) | _ \<Rightarrow> [])"

section \<open>What is sent\<close>

lemma relay_cases:
  assumes "relay P N rq source st = (out, st')"
  shows "(\<exists>reply model seq. admit P (sv_draining (ps_server st)) rq source (ps_seq st) = (Answered reply model, seq) \<and>
      out = \<lparr>ro_reply = Replied reply, ro_lines = [logCompletion N rq source model [] [] 0 NoDialFailure (hr_status reply)],
        ro_sent = None, ro_exec = None\<rparr> \<and> st' = st\<lparr>ps_seq := seq\<rparr>) \<or>
    (\<exists>model seq. admit P (sv_draining (ps_server st)) rq source (ps_seq st) = (Panicked model, seq) \<and>
      out = \<lparr>ro_reply = Crashed, ro_lines = [], ro_sent = None, ro_exec = None\<rparr> \<and> st' = st\<lparr>ps_seq := seq\<rparr>) \<or>
    (\<exists>p seq. admit P (sv_draining (ps_server st)) rq source (ps_seq st) = (Admitted p, seq) \<and>
      relayRouted P N rq p (st\<lparr>ps_seq := seq\<rparr>) = (out, st'))"
proof -
  obtain a seq where a: "admit P (sv_draining (ps_server st)) rq source (ps_seq st) = (a, seq)" by force
  show ?thesis using assms by (cases a) (auto simp: relay_def a)
qed

text \<open>A routed request: answered without a plan, or sent along one.\<close>

lemma routed_cases:
  assumes "relayRouted P N rq p st = (out, st')"
  shows "(ro_sent out = None \<and> ro_exec out = None \<and> ps_sessions st' = ps_sessions st \<and>
      (ro_reply out = Crashed \<and> ro_lines out = [] \<or>
       (\<exists>status msg routeID. status \<in> {400, 502} \<and> ro_reply out = Replied (writeError (pe_codec P) status msg) \<and>
          ro_lines out = [logCompletion N rq (pp_source p) (pp_cleanModel p) routeID [] 0 NoDialFailure status]))) \<or>
    (\<exists>keys heads plan sv. relayPlan (pn_others N) (pn_clk N) (pn_rt N) (profileOf p) (ps_server st) = (Inr (keys, heads, plan), sv) \<and>
      relaySend P N rq p keys heads plan (st\<lparr>ps_server := sv\<rparr>) = (out, st'))"
proof -
  obtain r sv where r: "relayPlan (pn_others N) (pn_clk N) (pn_rt N) (profileOf p) (ps_server st) = (r, sv)" by force
  show ?thesis
  proof (cases r)
    case (Inl x)
    have "ro_sent out = None \<and> ro_exec out = None \<and> ps_sessions st' = ps_sessions st \<and>
      (ro_reply out = Crashed \<and> ro_lines out = [] \<or>
       ro_reply out = Replied (writeError (pe_codec P) 400 ''No route matched this request'') \<and>
          ro_lines out = [logCompletion N rq (pp_source p) (pp_cleanModel p) [] [] 0 NoDialFailure 400] \<or>
       (\<exists>routeID. ro_reply out = Replied (writeError (pe_codec P) 502 (''No eligible egress for route '' @ pn_quote N routeID)) \<and>
          ro_lines out = [logCompletion N rq (pp_source p) (pp_cleanModel p) routeID [] 0 NoDialFailure 502]))"
    proof (cases x)
      case (NoEligible i)
      with assms r Inl have "out = \<lparr>ro_reply = Replied (writeError (pe_codec P) 502 (''No eligible egress for route '' @ pn_quote N i)),
          ro_lines = [logCompletion N rq (pp_source p) (pp_cleanModel p) i [] 0 NoDialFailure 502], ro_sent = None, ro_exec = None\<rparr>"
        "st' = st\<lparr>ps_server := sv\<rparr>" by (simp_all add: relayRouted_def Let_def)
      then show ?thesis by (intro conjI disjI2 exI [of _ i]) simp_all
    qed (use assms r Inl in \<open>simp_all add: relayRouted_def Let_def, (elim conjE, hypsubst, simp)+\<close>)
    then show ?thesis by blast
  next
    case (Inr x)
    obtain keys heads plan where x: "x = (keys, heads, plan)" by (metis prod_cases3)
    have "relaySend P N rq p keys heads plan (st\<lparr>ps_server := sv\<rparr>) = (out, st')"
      using assms by (simp add: relayRouted_def Let_def r Inr x)
    with r Inr x show ?thesis by blast
  qed
qed

lemma send_cases:
  assumes "relaySend P N rq p keys heads plan st = (out, st')"
  obtains session body ss seq where
    "PrepareRequest (pn_session N) (pn_xform N) (pn_draw N) (pp_upstreamModel p) (pp_body p) (captureDownstream (rq_get rq))
       (ps_sessions st) (ps_seq st) = (session, body, ss, seq)"
    and "co_encode (pe_codec P) (JObj body) = None \<and>
      out = \<lparr>ro_reply = Replied (writeError (pe_codec P) 500 ''Failed to serialize request''),
        ro_lines = [logCompletion N rq (pp_source p) (pp_cleanModel p) (pl_route_id plan) [] 0 NoDialFailure 500], ro_sent = None, ro_exec = None\<rparr> \<or>
      (\<exists>bodyJSON res sv. co_encode (pe_codec P) (JObj body) = Some bodyJSON \<and>
        relayExec (execEnv N (captureDownstream (rq_get rq)) session (BuildURL (rt_upstream_base (pn_rt N)) (pp_upstreamModel p)) bodyJSON)
          (pn_others N) (pn_rt N) keys heads plan (ps_server st) = (res, sv) \<and>
        ro_sent out = Some (BuildURL (rt_upstream_base (pn_rt N)) (pp_upstreamModel p), body) \<and> ro_exec out = Some res \<and>
        (ro_reply out = Crashed \<and> ro_lines out = [] \<or>
         (\<exists>status. ro_lines out = [logCompletion N rq (pp_source p) (pp_cleanModel p) (pl_route_id plan) (xr_id res) (xr_attempts res)
              (xr_failure res) status] \<and>
            (case xr_error res of
               Some e \<Rightarrow> status = ue_status e \<and> ro_reply out = Replied (writeError (pe_codec P) status (bracketStatus status (ue_message e)))
             | None \<Rightarrow> (\<exists>resp. xr_response res = Some resp \<and> status = rp_status resp \<and>
                 ro_reply out = deliver P (pn_live N) p body (xr_id res) (fl_origin (xr_failure res)) resp)))))"
proof -
  let ?d = "captureDownstream (rq_get rq)" and ?url = "BuildURL (rt_upstream_base (pn_rt N)) (pp_upstreamModel p)"
  obtain session body ss seq where pr: "PrepareRequest (pn_session N) (pn_xform N) (pn_draw N) (pp_upstreamModel p) (pp_body p) ?d
      (ps_sessions st) (ps_seq st) = (session, body, ss, seq)" by (metis prod_cases4)
  show thesis
  proof (cases "co_encode (pe_codec P) (JObj body)")
    case None
    then show thesis using assms by (intro that [OF pr]) (auto simp: relaySend_def Let_def pr)
  next
    case (Some bodyJSON)
    obtain res sv where x: "relayExec (execEnv N ?d session ?url bodyJSON) (pn_others N) (pn_rt N) keys heads plan (ps_server st) = (res, sv)"
      by force
    have "ro_sent out = Some (?url, body) \<and> ro_exec out = Some res \<and>
        (ro_reply out = Crashed \<and> ro_lines out = [] \<or>
         (\<exists>status. ro_lines out = [logCompletion N rq (pp_source p) (pp_cleanModel p) (pl_route_id plan) (xr_id res) (xr_attempts res)
              (xr_failure res) status] \<and>
            (case xr_error res of
               Some e \<Rightarrow> status = ue_status e \<and> ro_reply out = Replied (writeError (pe_codec P) status (bracketStatus status (ue_message e)))
             | None \<Rightarrow> (\<exists>resp. xr_response res = Some resp \<and> status = rp_status resp \<and>
                 ro_reply out = deliver P (pn_live N) p body (xr_id res) (fl_origin (xr_failure res)) resp))))"
      using assms by (cases "xr_error res"; cases "xr_response res") (auto simp: relaySend_def Let_def pr Some x)
    with Some x show thesis by (intro that [OF pr]) blast
  qed
qed

lemma sent_admitted:
  assumes "relay P N rq source st = (out, st')" and "ro_sent out = Some (url, body)"
  shows "\<exists>p seq seq'. admit P (sv_draining (ps_server st)) rq source (ps_seq st) = (Admitted p, seq) \<and>
    url = BuildURL (rt_upstream_base (pn_rt N)) (pp_upstreamModel p) \<and>
    body = fst (TransformRequest (pn_xform N) (pp_upstreamModel p) (StripContinuityFields (pp_body p)) seq')"
proof -
  obtain p seq where a: "admit P (sv_draining (ps_server st)) rq source (ps_seq st) = (Admitted p, seq)"
    and r: "relayRouted P N rq p (st\<lparr>ps_seq := seq\<rparr>) = (out, st')"
    using relay_cases [OF assms(1)] assms(2) by auto
  obtain keys heads plan sv where s: "relaySend P N rq p keys heads plan (st\<lparr>ps_seq := seq, ps_server := sv\<rparr>) = (out, st')"
    using routed_cases [OF r] assms(2) by auto
  show ?thesis
  proof (rule send_cases [OF s])
    fix session body' ss seq1
    assume pr: "PrepareRequest (pn_session N) (pn_xform N) (pn_draw N) (pp_upstreamModel p) (pp_body p) (captureDownstream (rq_get rq))
        (ps_sessions (st\<lparr>ps_seq := seq, ps_server := sv\<rparr>)) (ps_seq (st\<lparr>ps_seq := seq, ps_server := sv\<rparr>)) = (session, body', ss, seq1)"
      and "co_encode (pe_codec P) (JObj body') = None \<and> out = \<lparr>ro_reply = Replied (writeError (pe_codec P) 500 ''Failed to serialize request''),
        ro_lines = [logCompletion N rq (pp_source p) (pp_cleanModel p) (pl_route_id plan) [] 0 NoDialFailure 500], ro_sent = None, ro_exec = None\<rparr> \<or>
      (\<exists>bodyJSON res sva. co_encode (pe_codec P) (JObj body') = Some bodyJSON \<and>
        relayExec (execEnv N (captureDownstream (rq_get rq)) session (BuildURL (rt_upstream_base (pn_rt N)) (pp_upstreamModel p)) bodyJSON)
          (pn_others N) (pn_rt N) keys heads plan (ps_server (st\<lparr>ps_seq := seq, ps_server := sv\<rparr>)) = (res, sva) \<and>
        ro_sent out = Some (BuildURL (rt_upstream_base (pn_rt N)) (pp_upstreamModel p), body') \<and> ro_exec out = Some res \<and>
        (ro_reply out = Crashed \<and> ro_lines out = [] \<or>
         (\<exists>status. ro_lines out = [logCompletion N rq (pp_source p) (pp_cleanModel p) (pl_route_id plan) (xr_id res) (xr_attempts res)
              (xr_failure res) status] \<and>
            (case xr_error res of
               None \<Rightarrow> (\<exists>resp. xr_response res = Some resp \<and> status = rp_status resp \<and>
                 ro_reply out = deliver P (pn_live N) p body' (xr_id res) (fl_origin (xr_failure res)) resp)
             | Some e \<Rightarrow> status = ue_status e \<and> ro_reply out = Replied (writeError (pe_codec P) status (bracketStatus status (ue_message e)))))))"
    then have "url = BuildURL (rt_upstream_base (pn_rt N)) (pp_upstreamModel p)" "body = body'" using assms(2) by auto
    with a prepare_body [OF pr] show ?thesis by blast
  qed
qed

lemma admitted_body:
  assumes "admit P draining rq source seq = (Admitted p, seq')"
  shows "pp_cleanModel p = BaseModelID (pp_upstreamModel p)" and "pp_target p = targetFormatOf (pp_upstreamModel p)"
    and "mget (pp_body p) ''model'' = JStr (pp_cleanModel p)" and "\<not> has (pp_body p) ''_customToolNames''"
    and "\<not> IsReasoningModel (fst (ParseSuffix (pe_num P) (pe_lower P) (pp_upstreamModel p))) \<Longrightarrow> knobFree (pp_body p)"
proof -
  obtain requested b1 where "prepareBody P rq source requested b1 seq = (Admitted p, seq')" using admit_shape [OF assms] by blast
  from prepareBody_shape [OF this] obtain b2 where
    f: "pp_cleanModel p = BaseModelID (pp_upstreamModel p)" "pp_target p = targetFormatOf (pp_upstreamModel p)" and
    b: "pp_body p = upstreamShape P rq (pp_target p) (pp_upstreamModel p) (pp_cleanModel p) (pp_intent p) b2" by auto
  show "pp_cleanModel p = BaseModelID (pp_upstreamModel p)" "pp_target p = targetFormatOf (pp_upstreamModel p)" by (fact f)+
  show "mget (pp_body p) ''model'' = JStr (pp_cleanModel p)" unfolding b by (rule shape_model)
  show "\<not> has (pp_body p) ''_customToolNames''" unfolding b by (rule shape_marker)
  show "knobFree (pp_body p)" if "\<not> IsReasoningModel (fst (ParseSuffix (pe_num P) (pe_lower P) (pp_upstreamModel p)))"
    unfolding b by (rule shape_knobFree [OF that])
qed

lemma executed_route:
  assumes "relay P N rq source st = (out, st')" and "ro_exec out = Some res"
  shows "\<exists>p seq env plan sv. admit P (sv_draining (ps_server st)) rq source (ps_seq st) = (Admitted p, seq) \<and>
    relayRoute env (pn_others N) (pn_clk N) (pn_rt N) (profileOf p) (ps_server st) = (Executed plan res, sv)"
proof -
  obtain p seq where a: "admit P (sv_draining (ps_server st)) rq source (ps_seq st) = (Admitted p, seq)"
    and r: "relayRouted P N rq p (st\<lparr>ps_seq := seq\<rparr>) = (out, st')"
    using relay_cases [OF assms(1)] assms(2) by auto
  obtain keys heads plan sv where pl: "relayPlan (pn_others N) (pn_clk N) (pn_rt N) (profileOf p) (ps_server st) = (Inr (keys, heads, plan), sv)"
    and s: "relaySend P N rq p keys heads plan (st\<lparr>ps_seq := seq, ps_server := sv\<rparr>) = (out, st')"
    using routed_cases [OF r] assms(2) by auto
  have "\<exists>env sva. relayExec env (pn_others N) (pn_rt N) keys heads plan sv = (res, sva)"
    by (rule send_cases [OF s]) (use assms(2) in auto)
  then obtain env sva where "relayExec env (pn_others N) (pn_rt N) keys heads plan sv = (res, sva)" by blast
  with pl have "relayRoute env (pn_others N) (pn_clk N) (pn_rt N) (profileOf p) (ps_server st) = (Executed plan res, sva)"
    by (simp add: relayRoute_def)
  with a show ?thesis by blast
qed

section \<open>The line of a request\<close>

definition logged :: "pipe_net \<Rightarrow> client_request \<Rightarrow> format \<Rightarrow> relay_out \<Rightarrow> completion \<Rightarrow> bool" where
  "logged N rq source out c \<longleftrightarrow>
     cp_generation c = rt_generation (pn_rt N) \<and> cp_caller c = callerRequestID (rq_get rq) \<and> cp_endpoint c = source \<and>
     (case ro_exec out of
        None \<Rightarrow> cp_attempts c = 0 \<and> cp_egress c = [] \<and> cp_failure c = NoDialFailure \<and> ro_sent out = None
      | Some res \<Rightarrow> cp_attempts c = xr_attempts res \<and> cp_egress c = xr_id res \<and> cp_failure c = xr_failure res \<and> ro_sent out \<noteq> None) \<and>
     (case ro_reply out of
        Replied r \<Rightarrow> hr_status r = cp_status c | Converted eg r abort \<Rightarrow> eg = cp_egress c | Streamed eg r \<Rightarrow> eg = cp_egress c
      | Waiting eg \<Rightarrow> eg = cp_egress c | Crashed \<Rightarrow> False)"

lemma logged_local:
  "ro_reply out = Replied r \<Longrightarrow> ro_exec out = None \<Longrightarrow> ro_sent out = None \<Longrightarrow> hr_status r = status \<Longrightarrow>
   logged N rq source out (logCompletion N rq source model routeID [] 0 NoDialFailure status)"
  by (simp add: logged_def logCompletion_def)

lemma logged_deliver:
  "ro_reply out = deliver P lv p body (xr_id res) o1 resp \<Longrightarrow> ro_exec out = Some res \<Longrightarrow> ro_sent out = Some sent \<Longrightarrow>
   logged N rq source out (logCompletion N rq source model routeID (xr_id res) (xr_attempts res) (xr_failure res) status)"
  by (simp add: logged_def logCompletion_def deliver_def Let_def split: option.split prod.split)

lemma logged_error:
  "ro_reply out = Replied (writeError co status msg) \<Longrightarrow> ro_exec out = Some res \<Longrightarrow> ro_sent out = Some sent \<Longrightarrow>
   logged N rq source out (logCompletion N rq source model routeID (xr_id res) (xr_attempts res) (xr_failure res) status)"
  by (simp add: logged_def logCompletion_def)

lemma send_logged:
  assumes "relaySend P N rq p keys heads plan st = (out, st')"
  shows "ro_reply out = Crashed \<and> ro_lines out = [] \<or> (\<exists>c. ro_lines out = [c] \<and> logged N rq (pp_source p) out c)"
proof (rule send_cases [OF assms], elim disjE exE conjE)
  fix body assume "out = \<lparr>ro_reply = Replied (writeError (pe_codec P) 500 ''Failed to serialize request''),
        ro_lines = [logCompletion N rq (pp_source p) (pp_cleanModel p) (pl_route_id plan) [] 0 NoDialFailure 500], ro_sent = None, ro_exec = None\<rparr>"
  then show ?thesis using logged_local [of out "writeError (pe_codec P) 500 ''Failed to serialize request''" 500] by simp
next
  fix body res status url
  assume x: "ro_sent out = Some (url, body)" "ro_exec out = Some res"
    and l: "ro_lines out = [logCompletion N rq (pp_source p) (pp_cleanModel p) (pl_route_id plan) (xr_id res) (xr_attempts res) (xr_failure res) status]"
    and r: "case xr_error res of
       None \<Rightarrow> (\<exists>resp. xr_response res = Some resp \<and> status = rp_status resp \<and>
         ro_reply out = deliver P (pn_live N) p body (xr_id res) (fl_origin (xr_failure res)) resp)
     | Some e \<Rightarrow> status = ue_status e \<and> ro_reply out = Replied (writeError (pe_codec P) status (bracketStatus status (ue_message e)))"
  show ?thesis
  proof (cases "xr_error res")
    case None
    with r obtain resp where "ro_reply out = deliver P (pn_live N) p body (xr_id res) (fl_origin (xr_failure res)) resp" by auto
    from logged_deliver [OF this x(2,1)] l show ?thesis by auto
  next
    case (Some e)
    with r have "ro_reply out = Replied (writeError (pe_codec P) status (bracketStatus status (ue_message e)))" by simp
    from logged_error [OF this x(2,1)] l show ?thesis by auto
  qed
qed auto

lemma relay_logged:
  assumes r: "relay P N rq source st = (out, st')"
  shows "ro_reply out = Crashed \<and> ro_lines out = [] \<or> (\<exists>c. ro_lines out = [c] \<and> logged N rq source out c)"
  using relay_cases [OF r]
proof (elim disjE exE conjE)
  fix p seq assume a: "admit P (sv_draining (ps_server st)) rq source (ps_seq st) = (Admitted p, seq)"
    and rr: "relayRouted P N rq p (st\<lparr>ps_seq := seq\<rparr>) = (out, st')"
  have src: "pp_source p = source" using admit_shape [OF a] prepareBody_shape by blast
  from routed_cases [OF rr] show ?thesis unfolding src
  proof (elim disjE exE conjE)
    fix status msg routeID
    assume x: "ro_sent out = None" "ro_exec out = None" "ro_reply out = Replied (writeError (pe_codec P) status msg)"
      and l: "ro_lines out = [logCompletion N rq source (pp_cleanModel p) routeID [] 0 NoDialFailure status]"
    from logged_local [OF x(3,2,1), of status] l show ?thesis by simp
  next
    fix keys heads plan sv
    assume "relaySend P N rq p keys heads plan (st\<lparr>ps_seq := seq, ps_server := sv\<rparr>) = (out, st')"
    from send_logged [OF this] show ?thesis unfolding src .
  qed auto
next
  fix reply model seq
  assume "out = \<lparr>ro_reply = Replied reply, ro_lines = [logCompletion N rq source model [] [] 0 NoDialFailure (hr_status reply)],
        ro_sent = None, ro_exec = None\<rparr>"
  then show ?thesis using logged_local [of out reply] by simp
qed auto

section \<open>A sample request\<close>

definition pipe_codec :: codec where
  "pipe_codec = \<lparr>co_encode = (\<lambda>_. Some ''{}''), co_decode = (\<lambda>_. Some (JObj [(''model'', JStr ''m''), (''stream'', JBool True)])),
     co_valid = (\<lambda>_. True), co_sprint = (\<lambda>_. [])\<rparr>"

definition sample_pipe :: pipe_env where
  "sample_pipe = \<lparr>pe_req = \<lparr>tq_chunk = \<lparr>ce_num = exact_env, ce_codec = pipe_codec, ce_stringify = (\<lambda>_. None), ce_int64 = (\<lambda>_. 0)\<rparr>,
     tq_clk = (\<lambda>_. 0), tq_order = (\<lambda>ns. ns)\<rparr>, pe_lower = (\<lambda>s. s), pe_milli = 0, pe_hex32 = []\<rparr>"

definition sample_live :: live where
  "sample_live = \<lparr>lv_arrivals = [], lv_bodyText = [], lv_stream = demo_stream, lv_relay = demo_env, lv_trans = demo_trans,
     lv_forced = \<lparr>fe_chunk = tq_chunk (pe_req sample_pipe), fe_lower = (\<lambda>s. s), fe_ctxDead = False, fe_isCanceled = (\<lambda>_. False),
       fe_delivered = OriginUpstream, fe_milli = (\<lambda>_. 0), fe_nano = 0\<rparr>,
     lv_passLines = [], lv_passEnd = Finished None, lv_passTicks = demo_ticks, lv_transLines = [], lv_transEnd = Finished None,
     lv_transTicks = (\<lambda>_. 0)\<rparr>"

definition sample_net :: pipe_net where
  "sample_net = \<lparr>pn_rt = DefaultRuntime, pn_others = (\<lambda>_ s. s), pn_clk = (\<lambda>_. 0), pn_quote = (\<lambda>s. s), pn_session = sample_session_env,
     pn_xform = sample_xform, pn_draw = sample_draw, pn_hdr = (\<lambda>_. sample_draw), pn_ua = (\<lambda>_. []), pn_exec = sample_env, pn_live = sample_live\<rparr>"

definition sample_request :: client_request where
  "sample_request = \<lparr>rq_method = ''POST'', rq_get = (\<lambda>_. []), rq_headers = [], rq_body = ''{}'', rq_readErr = False\<rparr>"

definition sample_process :: process where
  "sample_process = \<lparr>ps_server = NewServer, ps_sessions = initStores, ps_seq = 0\<rparr>"

definition sample_profile :: profile where
  "sample_profile = \<lparr>pr_model = ''m'', pr_streaming = True, pr_body_bytes = 2, pr_endpoint = FormatChat\<rparr>"

lemma sample_planned:
  "\<exists>keys heads plan sv. relayPlan (\<lambda>_ t. t) (\<lambda>_. 0) DefaultRuntime sample_profile NewServer = (Inr (keys, heads, plan), sv)"
proof -
  have m: "MatchRoute DefaultRuntime (pr_streaming sample_profile) (pr_body_bytes sample_profile) (pr_model sample_profile) = Some default_route"
    by code_simp
  have k: "routeHealthKeys DefaultRuntime default_route = [HealthKey direct_egress]" by code_simp
  have g: "onGeneration DefaultRuntime s = s" for s by (simp add: onGeneration_def DefaultRuntime_def)
  have h: "routeHeads (\<lambda>_. 0) DefaultRuntime default_route sample_profile (PolicyFromSnapshot DefaultRuntime)
      (NewServer\<lparr>sv_health := Some (Pin [HealthKey direct_egress] New)\<rparr>) = [''direct'']" by code_simp
  have "Plan DefaultRuntime default_route [''direct''] NewScheduler \<noteq> None" by code_simp
  then have "\<exists>plan sc'. Plan DefaultRuntime default_route [''direct''] NewScheduler = Some (plan, sc')" by auto
  then show ?thesis using m k g h
    by (auto simp: relayPlan_def Let_def NewServer_def)
qed

lemma sample_admitted:
  "\<exists>p. admit sample_pipe False sample_request FormatChat seq = (Admitted p, seq) \<and> profileOf p = sample_profile"
proof -
  let ?b = "[(''model'', JStr ''m''), (''stream'', JBool True)]"
  have m: "requestModel ?b = (''m'', ?b)" by code_simp
  have byp: "handleBypassRequest E t ?b ''m'' [] FormatChat = None" for E t
  proof -
    have "\<not> contains [] ''claude-cli''" by code_simp
    then show ?thesis by (simp add: handleBypassRequest_def shouldBypass_def)
  qed
  have a: "aliasStrip ''m'' = ''m''" "BaseModelID ''m'' = ''m''" "targetFormatOf ''m'' = FormatChat" by code_simp+
  have s: "mget ?b ''stream'' = JBool True" by (simp add: mget_Cons)
  have l: "\<not> length ''{}'' > maxBodyBytes" by (simp add: maxBodyBytes_def)
  have p: "\<exists>p. prepareBody sample_pipe sample_request FormatChat ''m'' ?b seq = (Admitted p, seq) \<and> profileOf p = sample_profile"
    by (simp add: prepareBody_def Let_def a translateBody_def profileOf_def sample_profile_def s sample_request_def)
  have "admit sample_pipe False sample_request FormatChat seq = prepareBody sample_pipe sample_request FormatChat ''m'' ?b seq"
    using l m by (simp add: admit_def Let_def sample_request_def sample_pipe_def pipe_codec_def isTestConnectionRequest_def byp)
  with p show ?thesis by metis
qed

text \<open>
  The check for a missing model precedes the removal of the alias: a model that is nothing but the alias is routed and
  sent as the empty model.
\<close>

lemma alias_only_model_admitted:
  assumes "co_decode (pe_codec P) ''{}'' = Some (JObj [(''model'', JStr ''oc/'')])"
  shows "\<exists>p. admit P False sample_request FormatChat seq = (Admitted p, seq) \<and> pp_upstreamModel p = [] \<and> pp_cleanModel p = [] \<and>
    mget (pp_body p) ''model'' = JStr []"
proof -
  let ?b = "[(''model'', JStr ''oc/'')]"
  have m: "requestModel ?b = (''oc/'', ?b)" by code_simp
  have byp: "handleBypassRequest E t ?b ''oc/'' [] FormatChat = None" for E t
  proof -
    have "\<not> contains [] ''claude-cli''" by code_simp
    then show ?thesis by (simp add: handleBypassRequest_def shouldBypass_def)
  qed
  have a: "aliasStrip ''oc/'' = []" "BaseModelID [] = []" "targetFormatOf [] = FormatChat" by code_simp+
  have l: "\<not> length ''{}'' > maxBodyBytes" by (simp add: maxBodyBytes_def)
  have p: "\<exists>p. prepareBody P sample_request FormatChat ''oc/'' ?b seq = (Admitted p, seq) \<and> pp_upstreamModel p = [] \<and>
      pp_cleanModel p = [] \<and> mget (pp_body p) ''model'' = JStr []"
    by (simp add: prepareBody_def Let_def a translateBody_def shape_model)
  have "admit P False sample_request FormatChat seq = prepareBody P sample_request FormatChat ''oc/'' ?b seq"
    using l m assms by (simp add: admit_def Let_def sample_request_def isTestConnectionRequest_def byp)
  with p show ?thesis by metis
qed

lemma sample_sent:
  "\<exists>out st' url body res. relay sample_pipe sample_net sample_request FormatChat sample_process = (out, st') \<and>
     ro_sent out = Some (url, body) \<and> ro_exec out = Some res"
proof -
  obtain p where a: "admit sample_pipe False sample_request FormatChat 0 = (Admitted p, 0)" and pr: "profileOf p = sample_profile"
    using sample_admitted by blast
  obtain keys heads plan sv where pl: "relayPlan (\<lambda>_ t. t) (\<lambda>_. 0) DefaultRuntime sample_profile NewServer = (Inr (keys, heads, plan), sv)"
    using sample_planned by blast
  have d: "\<not> sv_draining NewServer" by (simp add: NewServer_def)
  obtain out st' where s: "relaySend sample_pipe sample_net sample_request p keys heads plan (sample_process\<lparr>ps_server := sv\<rparr>) = (out, st')"
    by force
  have "sample_process\<lparr>ps_seq := 0\<rparr> = sample_process" by (simp add: sample_process_def)
  then have r: "relay sample_pipe sample_net sample_request FormatChat sample_process = (out, st')"
    using a pl s d pr by (simp add: relay_def relayRouted_def Let_def sample_process_def sample_net_def)
  have "co_encode (pe_codec sample_pipe) v \<noteq> None" for v by (simp add: sample_pipe_def pipe_codec_def)
  then show ?thesis using r by (rule_tac send_cases [OF s]) blast
qed

text \<open>
  The same request while another one of the same egress comes and goes: it pins the direct identity before this request
  plans and releases it before this request is done.
\<close>

definition busy_net :: pipe_net where
  "busy_net = sample_net\<lparr>pn_others := (\<lambda>k s.
     if k = 0 then s\<lparr>sv_health := map_option (Pin [HealthKey direct_egress]) (sv_health s)\<rparr>
     else if k = 4 then releasePins [HealthKey direct_egress] s else s)\<rparr>"

definition busy_pins :: "nat \<Rightarrow> string multiset set" where
  "busy_pins k = (if k = 0 then {{#}} else {{#HealthKey direct_egress#}})"

lemma busy_keys: "requestKeys sample_pipe busy_net sample_request FormatChat sample_process = [HealthKey direct_egress]"
proof -
  obtain p where a: "admit sample_pipe False sample_request FormatChat 0 = (Admitted p, 0)" and pr: "profileOf p = sample_profile"
    using sample_admitted by blast
  have "routedKeys DefaultRuntime sample_profile = [HealthKey direct_egress]" by code_simp
  with pr show ?thesis by (simp add: requestKeys_def sample_process_def NewServer_def busy_net_def sample_net_def a)
qed

lemma busy_pin_traffic: "pin_traffic busy_net keys busy_pins (\<lambda>_. {{#HealthKey direct_egress#}}) {{#}}"
proof -
  let ?k = "HealthKey direct_egress"
  have "interferes server_pins M {{#}} (\<lambda>s. s\<lparr>sv_health := map_option (Pin [?k]) (sv_health s)\<rparr>) {{#?k#}}" for M
    using Pin_tracks [of _ M "[?k]"] by (auto simp: interferes_def server_pins_def)
  moreover have "interferes server_pins M {{#?k#}} (releasePins [?k]) {{#}}" for M
    using PinRelease_tracks [of _ "add_mset ?k M" "[?k]"] by (auto simp: interferes_def server_pins_def releasePins_def)
  ultimately show ?thesis
    by (auto simp: pin_traffic_def busy_net_def sample_net_def sample_env_def busy_pins_def along_def intro!: interferes_idle)
qed

section \<open>Properties\<close>

text \<open>
  C3. Whatever the client sent, in either format, what leaves for the upstream is the official client's request: it goes to
  the endpoint of the model it was routed under and names that model without marker, alias or suffix, it streams, it
  declares the four tools, it carries no private marker of the translation, a Responses body has flat tools, a capped
  output and is not stored, and a chat body for a model that does not reason has no thinking setting in any spelling.
\<close>

theorem upstream_request_clean:
  assumes "relay P N rq source st = (out, st')" and "ro_sent out = Some (url, body)"
  shows "\<exists>p seq. admit P (sv_draining (ps_server st)) rq source (ps_seq st) = (Admitted p, seq) \<and>
    url = rt_upstream_base (pn_rt N) @
      (if pp_target p = FormatResponses then ''/inference/v1/responses'' else ''/inference/v1/chat/completions'') \<and>
    (BaseModelID (pp_upstreamModel p) \<noteq> [] \<longrightarrow> mget body ''model'' = JStr (BaseModelID (pp_upstreamModel p))) \<and>
    mget body ''stream'' = JBool True \<and> quartet body \<and> \<not> has body ''_customToolNames'' \<and>
    (pp_target p = FormatResponses \<longrightarrow>
      (\<exists>ts. mget body ''tools'' = JArr ts \<and> list_all flat_ok ts) \<and> cap_ok body \<and> mget body ''store'' = JBool False) \<and>
    (pp_target p = FormatChat \<and> \<not> IsReasoningModel (fst (ParseSuffix (pe_num P) (pe_lower P) (pp_upstreamModel p))) \<longrightarrow> knobFree body)"
proof -
  obtain p seq seq' where a: "admit P (sv_draining (ps_server st)) rq source (ps_seq st) = (Admitted p, seq)"
    and u: "url = BuildURL (rt_upstream_base (pn_rt N)) (pp_upstreamModel p)"
    and b: "body = fst (TransformRequest (pn_xform N) (pp_upstreamModel p) (StripContinuityFields (pp_body p)) seq')"
    using sent_admitted [OF assms] by blast
  note f = admitted_body [OF a]
  let ?c = "StripContinuityFields (pp_body p)"
  have c: "mget ?c k = mget (pp_body p) k \<and> (has ?c k \<longleftrightarrow> has (pp_body p) k)" if "k \<noteq> ''messages''" for k
    using that by (rule continuity_reads)
  have t: "pp_target p = FormatResponses \<longleftrightarrow> IsResponsesModel (pp_upstreamModel p)" by (simp add: f(2) targetFormatOf_def FormatChat_def FormatResponses_def)
  have url: "url = rt_upstream_base (pn_rt N) @
      (if pp_target p = FormatResponses then ''/inference/v1/responses'' else ''/inference/v1/chat/completions'')"
    by (simp add: u t BuildURL_def URL_def)
  have model: "mget body ''model'' = JStr (BaseModelID (pp_upstreamModel p))" if "BaseModelID (pp_upstreamModel p) \<noteq> []"
  proof -
    have m: "mget ?c ''model'' = JStr (BaseModelID (pp_upstreamModel p))" using c f(1,3) by simp
    with that have "jsonTruthy (mget ?c ''model'')" by (simp add: jsonTruthy_def)
    from transform_model [OF this] show ?thesis by (simp add: b m)
  qed
  have marker: "\<not> has body ''_customToolNames''" using transform_has [of "''_customToolNames''"] c f(4) by (simp add: b transformKeys_def)
  have knobs: "knobFree body" if chat: "pp_target p = FormatChat" and
    r: "\<not> IsReasoningModel (fst (ParseSuffix (pe_num P) (pe_lower P) (pp_upstreamModel p)))"
  proof -
    have nr: "\<not> IsResponsesModel (pp_upstreamModel p)" using chat t by (auto simp: FormatChat_def FormatResponses_def)
    have n: "k \<notin> {''model'', ''stream'', ''messages'', ''tools'', ''tool_choice''}" if "k \<in> set plainKnobs" for k
      using that by (auto simp: plainKnobs_def)
    have "knobFree body \<longleftrightarrow> knobFree (pp_body p)"
      by (rule knobFree_cong) (use n in \<open>auto simp: b transform_chat_reads [OF nr] c\<close>)
    with f(5) [OF r] show ?thesis by simp
  qed
  show ?thesis
    using a url model marker knobs t body_conforms [of "pn_xform N" "pp_upstreamModel p" ?c seq'] unfolding b [symmetric] by blast
qed

theorem upstream_request_clean_witness:
  "\<exists>out st' url body. relay sample_pipe sample_net sample_request FormatChat sample_process = (out, st') \<and>
     ro_sent out = Some (url, body) \<and> quartet body \<and> mget body ''stream'' = JBool True"
proof -
  obtain out st' url body where r: "relay sample_pipe sample_net sample_request FormatChat sample_process = (out, st')"
    "ro_sent out = Some (url, body)" using sample_sent by blast
  from upstream_request_clean [OF r] r show ?thesis by blast
qed

text \<open>
  C4. A request gives back every pin it takes. Other requests may pin and release at every point where this one does not
  hold a lock, also the same identities, as long as they never release the pins it holds itself; then, whatever the
  request was answered, also when a handler panics, the health registry afterwards counts exactly what the others hold by
  then: what they held at the start, when the request never came to a route, else what they hold after their last step.
\<close>

theorem pins_returned:
  assumes "pin_traffic N (requestKeys Q N rq source st) P E F"
    and "sv_health (ps_server st) = Some reg" and "pins.tracks reg H" and "H \<in> P 0"
  shows "\<exists>reg'. \<exists>H' \<in> P 0 \<union> F. sv_health (ps_server (snd (relay Q N rq source st))) = Some reg' \<and> pins.tracks reg' H'"
proof -
  have h: "pins_held {#} (P 0) (sv_health (ps_server st))" using assms(2-4) by (auto simp: pins_held_def)
  obtain a seq where a: "admit Q (sv_draining (ps_server st)) rq source (ps_seq st) = (a, seq)" by force
  have "pins_held {#} (P 0 \<union> F) (sv_health (ps_server (snd (relay Q N rq source st))))"
  proof (cases a)
    case (Admitted p)
    then have "pin_traffic N (routedKeys (pn_rt N) (profileOf p)) P E F" using assms(1) by (simp add: requestKeys_def a)
    from routed_pins [OF this, of "st\<lparr>ps_seq := seq\<rparr>" Q rq] h show ?thesis by (simp add: relay_def a Admitted)
  qed (use held_later [OF _ h, of "P 0 \<union> F"] in \<open>simp_all add: relay_def a\<close>)
  then show ?thesis by (auto simp: pins_held_def)
qed

theorem pins_returned_witness:
  "requestKeys sample_pipe busy_net sample_request FormatChat sample_process = [HealthKey direct_egress] \<and>
   (\<exists>reg'. sv_health (ps_server (snd (relay sample_pipe busy_net sample_request FormatChat sample_process))) = Some reg' \<and> pins.tracks reg' {#})"
proof -
  have "sv_health (ps_server sample_process) = Some New" by (simp add: sample_process_def NewServer_def)
  moreover have "pins.tracks New {#}" by (simp add: pins.tracks_def New_def)
  moreover have "{#} \<in> busy_pins 0" by (simp add: busy_pins_def)
  ultimately show ?thesis using pins_returned [OF busy_pin_traffic] busy_keys by (auto simp: busy_pins_def)
qed

text \<open>
  C5. Only an admitted request acts: unless a request is a POST of at most 8 MiB to a server that is not draining, whose
  body is a JSON object that names a model, and is neither a connection test nor a bypassed one, it changes no server or
  session state and nothing is sent upstream.
\<close>

theorem only_admitted_requests_act:
  "case relay P N rq source st of (out, st') \<Rightarrow>
     ps_server st' = ps_server st \<and> ps_sessions st' = ps_sessions st \<and> ro_sent out = None \<and> ro_exec out = None \<or>
     rq_method rq = ''POST'' \<and> \<not> sv_draining (ps_server st) \<and> length (rq_body rq) \<le> maxBodyBytes \<and>
     \<not> isTestConnectionRequest (rq_headers rq) \<and>
     (\<exists>body requested b1. co_decode (pe_codec P) (rq_body rq) = Some (JObj body) \<and> requestModel body = (requested, b1) \<and> requested \<noteq> [] \<and>
        handleBypassRequest (tq_chunk (pe_req P)) (pe_milli P) b1 requested (rq_get rq ''User-Agent'') source = None)"
proof -
  obtain out st' where r: "relay P N rq source st = (out, st')" by force
  show ?thesis unfolding r prod.case using relay_cases [OF r] admit_shape [of P "sv_draining (ps_server st)" rq source "ps_seq st"] by auto
qed

text \<open>
  Every request that the handler answers is logged by exactly one completion line, which names the generation it
  arrived under, carries the status of a reply the router wrote itself, and names no egress and no attempt unless the
  executor ran, and then exactly its own; the egress a client is told is the one of the line.
\<close>

theorem one_line_per_request:
  "case relay P N rq source st of (out, st') \<Rightarrow>
     ro_reply out = Crashed \<and> ro_lines out = [] \<or> (\<exists>c. ro_lines out = [c] \<and> logged N rq source out c)"
proof -
  obtain out st' where r: "relay P N rq source st = (out, st')" by force
  show ?thesis unfolding r prod.case by (rule relay_logged [OF r])
qed

end
