(* ===== verification/Models.thy ===== *)
theory Models
  imports Pipeline "HOL-Library.Char_ord" "HOL-Library.List_Lexorder"
begin

text \<open>
  The model list (\<^verbatim>\<open>internal/router/models.go\<close>): the free models of the upstream's list, the static list when there is
  none, and the redirects the fetch follows. Go's decoding into the two shapes is a parameter: \<open>md_obj\<close> gives the
  identifiers under \<^verbatim>\<open>data\<close> and \<^verbatim>\<open>models\<close>, nil as \<open>None\<close>, and \<open>md_list\<close> those of a bare array; both fail on other
  bodies.
\<close>

section \<open>The filter\<close>

record models_entry =
  me_ID :: string
  me_Name :: string

record models_decoder =
  md_obj :: "string \<Rightarrow> (string list option \<times> string list option) option"
  md_list :: "string \<Rightarrow> string list option"

definition KnownFreeModels :: string where
  "KnownFreeModels = ''big-pickle''"

definition DeadFreeModels :: string where
  "DeadFreeModels = ''deepseek-v4-flash-free''"

definition ZenModelsPath :: string where
  "ZenModelsPath = ''/inference/v1/models''"

definition knownFree :: "string \<Rightarrow> bool" where
  "knownFree i = list_ex (\<lambda>k. trimSpace k = i) (splitStr KnownFreeModels '','')"

definition deadFree :: "string \<Rightarrow> bool" where
  "deadFree i = list_ex (\<lambda>d. trimSpace d = i) (splitStr DeadFreeModels '','')"

definition modelStep :: "string \<Rightarrow> models_entry list \<Rightarrow> models_entry list" where
  "modelStep i out =
     (if i = [] \<or> i \<in> set (map me_ID out) then out
      else if \<not> hasSuffix i ''-free'' \<and> \<not> knownFree i then out
      else if deadFree i then out
      else out @ [\<lparr>me_ID = i, me_Name = i\<rparr>])"

text \<open>\<^verbatim>\<open>sort.Slice\<close> by identifier; the identifiers are distinct, so its order among equals does not show.\<close>

definition sortModels :: "models_entry list \<Rightarrow> models_entry list" where
  "sortModels entries = sort_key me_ID entries"

definition listedIDs :: "models_decoder \<Rightarrow> string \<Rightarrow> string list option" where
  "listedIDs D raw = (case md_obj D raw of
     Some (data, models) \<Rightarrow> Some (case data of Some l \<Rightarrow> l | None \<Rightarrow> (case models of Some l \<Rightarrow> l | None \<Rightarrow> []))
   | None \<Rightarrow> md_list D raw)"

definition parseUpstreamModels :: "models_decoder \<Rightarrow> string \<Rightarrow> models_entry list option" where
  "parseUpstreamModels D raw = map_option (\<lambda>l. sortModels (fold modelStep l [])) (listedIDs D raw)"

definition staticFreeModels :: "models_entry list" where
  "staticFreeModels =
     [\<lparr>me_ID = ''muse-spark-1.2-contributor-free'', me_Name = ''Muse Spark 1.2 Contributor Free''\<rparr>,
      \<lparr>me_ID = ''muse-spark-1.3-contributor-free'', me_Name = ''Muse Spark 1.3 Contributor Free''\<rparr>] @
     (if knownFree ''big-pickle'' then [\<lparr>me_ID = ''big-pickle'', me_Name = ''big-pickle''\<rparr>] else [])"

section \<open>The fetch\<close>

definition boundedHost :: "string \<Rightarrow> string" where
  "boundedHost host = (if length host > 100 then take 100 host @ [CHR 0xE2, CHR 0x80, CHR 0xA6] else host)"

text \<open>\<open>fold_case\<close> maps a text to the representative \<^verbatim>\<open>strings.EqualFold\<close> compares by.\<close>

definition checkRedirect :: "(string \<Rightarrow> string) \<Rightarrow> url option \<Rightarrow> url \<Rightarrow> string option" where
  "checkRedirect fold_case base nxt = (case base of
     None \<Rightarrow> Some (''redirect refused: '' @ boundedHost (hostname (url_host nxt)) @ '' leaves the upstream base'')
   | Some b \<Rightarrow>
       if fold_case (hostname (url_host nxt)) \<noteq> fold_case (hostname (url_host b))
       then Some (''redirect refused: '' @ boundedHost (hostname (url_host nxt)) @ '' leaves the upstream base'')
       else None)"

datatype hop_answer = HopRedirect url | HopBody string | HopFailed string

text \<open>
  The client follows redirects while the check allows them: a check of its own replaces the library's limit of ten, so
  only the deadline ends a chain, which is where the list of answers ends.
\<close>

fun followRedirects :: "(string \<Rightarrow> string) \<Rightarrow> url option \<Rightarrow> url \<Rightarrow> hop_answer list \<Rightarrow> (string + string) \<times> url list" where
  "followRedirects fc base u [] = (Inl ''context deadline exceeded'', [u])"
| "followRedirects fc base u (HopFailed e # as) = (Inl e, [u])"
| "followRedirects fc base u (HopBody b # as) = (Inr b, [u])"
| "followRedirects fc base u (HopRedirect nxt # as) = (case checkRedirect fc base nxt of
     Some e \<Rightarrow> (Inl e, [u])
   | None \<Rightarrow> (case followRedirects fc base nxt as of (r, us) \<Rightarrow> (r, u # us)))"

definition maxModelsBytes :: nat where
  "maxModelsBytes = 4194304"

record models_env =
  mv_codec :: codec
  mv_decoder :: models_decoder
  mv_url :: go_url
  mv_fold :: "string \<Rightarrow> string"
  mv_client :: bool
  mv_base :: string
  mv_answers :: "hop_answer list"

definition fetchRequest :: "models_env \<Rightarrow> url option" where
  "fetchRequest E = (if \<not> mv_client E then None
     else case gu_parse (mv_url E) (mv_base E @ ZenModelsPath) of Inl _ \<Rightarrow> None | Inr u \<Rightarrow> Some u)"

definition fetchBase :: "models_env \<Rightarrow> url option" where
  "fetchBase E = (case gu_parse (mv_url E) (mv_base E) of Inl _ \<Rightarrow> None | Inr b \<Rightarrow> Some b)"

definition fetchModels :: "models_env \<Rightarrow> models_entry list option \<times> url list" where
  "fetchModels E = (case fetchRequest E of
     None \<Rightarrow> (None, [])
   | Some u \<Rightarrow> (case followRedirects (mv_fold E) (fetchBase E) u (mv_answers E) of
       (Inl _, us) \<Rightarrow> (None, us)
     | (Inr raw, us) \<Rightarrow> (parseUpstreamModels (mv_decoder E) (take maxModelsBytes raw), us)))"

definition entryJson :: "models_entry \<Rightarrow> json" where
  "entryJson e = JObj [(''id'', JStr (me_ID e)), (''name'', JStr (me_Name e))]"

record models_line =
  ml_caller :: string
  ml_endpoint :: string
  ml_status :: int
  ml_count :: nat
  ml_source :: string

definition logModelsOutcome :: "string \<Rightarrow> string \<Rightarrow> int \<Rightarrow> nat \<Rightarrow> bool \<Rightarrow> models_line" where
  "logModelsOutcome callerID endpoint status n fromUpstream = \<lparr>ml_caller = callerID, ml_endpoint = endpoint, ml_status = status,
     ml_count = n, ml_source = (if fromUpstream then ''upstream'' else ''static_registry'')\<rparr>"

definition modelsReply :: "codec \<Rightarrow> models_entry list \<Rightarrow> http_reply" where
  "modelsReply co entries = writeJSON co 200 [(''object'', JStr ''list''), (''data'', JArr (map entryJson entries))]"

definition servedModels :: "models_env \<Rightarrow> models_entry list" where
  "servedModels E = (case fst (fetchModels E) of None \<Rightarrow> staticFreeModels | Some es \<Rightarrow> es)"

definition HandleModels :: "models_env \<Rightarrow> bool \<Rightarrow> client_request \<Rightarrow> http_reply \<times> models_line" where
  "HandleModels E draining rq =
     (let callerID = callerRequestID (rq_get rq) in
      if draining
      then (writeError (mv_codec E) 503 ''Server is shutting down'', logModelsOutcome callerID [] 503 0 False)
      else (modelsReply (mv_codec E) (servedModels E),
        logModelsOutcome callerID ''v1/models'' 200 (length (servedModels E)) (fst (fetchModels E) \<noteq> None)))"

section \<open>What is listed\<close>

definition freeModel :: "string \<Rightarrow> bool" where
  "freeModel i \<longleftrightarrow> i \<noteq> [] \<and> (hasSuffix i ''-free'' \<or> knownFree i) \<and> \<not> deadFree i"

lemma step_ids: "map me_ID (modelStep i out) = (if freeModel i \<and> i \<notin> set (map me_ID out) then map me_ID out @ [i] else map me_ID out)"
  by (simp add: modelStep_def freeModel_def)

lemma step_named: "list_all (\<lambda>e. me_Name e = me_ID e) out \<Longrightarrow> list_all (\<lambda>e. me_Name e = me_ID e) (modelStep i out)"
  by (simp add: modelStep_def)

lemma fold_ids:
  "distinct (map me_ID out) \<Longrightarrow> distinct (map me_ID (fold modelStep ids out)) \<and>
     set (map me_ID (fold modelStep ids out)) = set (map me_ID out) \<union> {i \<in> set ids. freeModel i}"
proof (induction ids arbitrary: out)
  case (Cons i ids)
  have "distinct (map me_ID (modelStep i out))" using Cons.prems unfolding step_ids by simp
  from Cons.IH [OF this] show ?case unfolding step_ids by auto
qed simp

lemma fold_named: "list_all (\<lambda>e. me_Name e = me_ID e) out \<Longrightarrow> list_all (\<lambda>e. me_Name e = me_ID e) (fold modelStep ids out)"
  by (induction ids arbitrary: out) (simp_all add: step_named)

lemma parsed_list:
  assumes "listedIDs D raw = Some ids"
  shows "\<exists>es. parseUpstreamModels D raw = Some es \<and> sorted (map me_ID es) \<and> distinct (map me_ID es) \<and>
    set (map me_ID es) = {i \<in> set ids. freeModel i} \<and> list_all (\<lambda>e. me_Name e = me_ID e) es"
proof -
  have d: "distinct (map me_ID (fold modelStep ids []))" and st: "set (map me_ID (fold modelStep ids [])) = {i \<in> set ids. freeModel i}"
    using fold_ids [of "[]" ids] by simp_all
  have n: "list_all (\<lambda>e. me_Name e = me_ID e) (fold modelStep ids [])" by (rule fold_named) simp
  have m: "mset (map me_ID (sortModels (fold modelStep ids []))) = mset (map me_ID (fold modelStep ids []))"
    by (simp add: sortModels_def)
  have "distinct (map me_ID (sortModels (fold modelStep ids [])))" using d mset_eq_imp_distinct_iff [OF m] by simp
  moreover have "set (map me_ID (sortModels (fold modelStep ids []))) = {i \<in> set ids. freeModel i}"
    using mset_eq_setD [OF m] st by simp
  ultimately show ?thesis using assms n
    by (auto simp: parseUpstreamModels_def sortModels_def list_all_iff)
qed

lemma redirects_stay:
  "followRedirects fc base u as = (r, us) \<Longrightarrow> hd us = u \<and> us \<noteq> [] \<and>
     list_all (\<lambda>v. \<exists>b. base = Some b \<and> fc (hostname (url_host v)) = fc (hostname (url_host b))) (tl us)"
proof (induction fc base u as arbitrary: r us rule: followRedirects.induct)
  case (4 fc base u nxt as)
  show ?case
  proof (cases "checkRedirect fc base nxt")
    case None
    obtain r1 us1 where f: "followRedirects fc base nxt as = (r1, us1)" by force
    have "list_all (\<lambda>v. \<exists>b. base = Some b \<and> fc (hostname (url_host v)) = fc (hostname (url_host b))) us1"
      using 4(1) [OF None f] None by (cases us1) (auto simp: checkRedirect_def split: option.splits if_splits)
    then show ?thesis using 4(2) None f by auto
  qed (use 4(2) in auto)
qed auto

text \<open>The bytes the fetch ends with, when it ends with any: those of the answer its redirects lead to.\<close>

definition fetchedBody :: "models_env \<Rightarrow> string option" where
  "fetchedBody E = (case fetchRequest E of
     None \<Rightarrow> None
   | Some u \<Rightarrow> (case fst (followRedirects (mv_fold E) (fetchBase E) u (mv_answers E)) of Inl _ \<Rightarrow> None | Inr raw \<Rightarrow> Some raw))"

lemma body_answered: "fst (followRedirects fc base u as) = Inr raw \<Longrightarrow> HopBody raw \<in> set as"
  by (induction fc base u as rule: followRedirects.induct) (auto split: option.splits prod.splits)

lemma fetched_answered: "fetchedBody E = Some raw \<Longrightarrow> HopBody raw \<in> set (mv_answers E)"
  by (auto simp: fetchedBody_def dest: body_answered split: option.splits sum.splits)

lemma fetch_reads:
  "fst (fetchModels E) = (case fetchedBody E of None \<Rightarrow> None | Some raw \<Rightarrow> parseUpstreamModels (mv_decoder E) (take maxModelsBytes raw))"
  by (simp add: fetchModels_def fetchedBody_def split: option.split sum.split prod.split)

text \<open>
  C29. The body served to a client is read off the bytes fetched: when they read as a list, it names exactly the free models
  of that list not known to be dead, each once, in order, under its own name, also when there are none; when the fetch
  failed or the bytes have neither shape, it is the static list. A server that is draining answers 503 and nothing of this,
  any other answers 200, and the log line counts what was served and names the source it came from.
\<close>

theorem models_listed:
  "fst (HandleModels E True rq) = writeError (mv_codec E) 503 ''Server is shutting down'' \<and>
   (\<exists>es. fst (HandleModels E False rq) = writeJSON (mv_codec E) 200 [(''object'', JStr ''list''),
        (''data'', JArr (map (\<lambda>e. JObj [(''id'', JStr (me_ID e)), (''name'', JStr (me_Name e))]) es))] \<and>
      hr_status (fst (HandleModels E False rq)) = 200 \<and> ml_count (snd (HandleModels E False rq)) = length es \<and>
      (case fetchedBody E of
         None \<Rightarrow> es = staticFreeModels \<and> ml_source (snd (HandleModels E False rq)) = ''static_registry''
       | Some raw \<Rightarrow> HopBody raw \<in> set (mv_answers E) \<and>
           (case listedIDs (mv_decoder E) (take maxModelsBytes raw) of
              None \<Rightarrow> es = staticFreeModels \<and> ml_source (snd (HandleModels E False rq)) = ''static_registry''
            | Some ids \<Rightarrow> sorted (map me_ID es) \<and> distinct (map me_ID es) \<and> set (map me_ID es) = {i \<in> set ids. freeModel i} \<and>
                map me_Name es = map me_ID es \<and> ml_source (snd (HandleModels E False rq)) = ''upstream'')))"
proof -
  have "case fetchedBody E of
      None \<Rightarrow> servedModels E = staticFreeModels \<and> fst (fetchModels E) = None
    | Some raw \<Rightarrow> HopBody raw \<in> set (mv_answers E) \<and>
        (case listedIDs (mv_decoder E) (take maxModelsBytes raw) of
           None \<Rightarrow> servedModels E = staticFreeModels \<and> fst (fetchModels E) = None
         | Some ids \<Rightarrow> sorted (map me_ID (servedModels E)) \<and> distinct (map me_ID (servedModels E)) \<and>
             set (map me_ID (servedModels E)) = {i \<in> set ids. freeModel i} \<and>
             map me_Name (servedModels E) = map me_ID (servedModels E) \<and> fst (fetchModels E) \<noteq> None)"
  proof (cases "fetchedBody E")
    case (Some raw)
    note a = fetched_answered [OF Some]
    show ?thesis
    proof (cases "listedIDs (mv_decoder E) (take maxModelsBytes raw)")
      case None
      then show ?thesis using Some a by (simp add: servedModels_def fetch_reads parseUpstreamModels_def)
    next
      case ids: (Some ids)
      show ?thesis using parsed_list [OF ids] Some a ids by (auto simp: servedModels_def fetch_reads list_all_iff)
    qed
  qed (simp add: servedModels_def fetch_reads)
  then show ?thesis
    by (intro conjI exI [of _ "servedModels E"])
      (auto simp: HandleModels_def Let_def modelsReply_def logModelsOutcome_def entryJson_def [abs_def] split: option.splits)
qed

text \<open>
  The fetch of the model list never leaves the host of the upstream base: every address after the first has the host
  name of the configured base, and when the base does not parse no redirect is followed at all.
\<close>

theorem models_fetch_stays:
  "list_all (\<lambda>v. \<exists>b. fetchBase E = Some b \<and> mv_fold E (hostname (url_host v)) = mv_fold E (hostname (url_host b))) (tl (snd (fetchModels E)))"
proof (cases "fetchRequest E")
  case (Some u)
  obtain r us where f: "followRedirects (mv_fold E) (fetchBase E) u (mv_answers E) = (r, us)" by force
  then show ?thesis using redirects_stay [OF f] Some by (cases r) (simp_all add: fetchModels_def)
qed (simp add: fetchModels_def)

end
