(* ===== verification/Connect.thy ===== *)
theory Connect
  imports Socks5Props
begin

text \<open>
  The CONNECT dialer of http and https proxies (\<^verbatim>\<open>internal/upstream/connect.go\<close>) and the origin handshake in the
  official client's hello (\<^verbatim>\<open>internal/upstream/hello.go\<close>), over the connections of \<open>Socks5\<close>. The two TLS libraries are
  parameters: \<open>cd_tls\<close> and \<open>cd_utls\<close> run a handshake on a connection, \<open>cd_preset\<close> is what applying the hello gives;
  \<open>cd_reply\<close> is \<^verbatim>\<open>http.ReadResponse\<close> on a buffered reader of its own: it reads a status off the bytes, and what it gives back
  is what the connection still holds then, the reader being dropped with whatever it took beyond the reply. A cancelled context closes
  the connection, which is part of the connection's own behaviour.
\<close>

section \<open>TLS settings\<close>

text \<open>The roots are opaque here. \<open>771\<close> is TLS 1.2, \<open>772\<close> is TLS 1.3; 0 leaves the library's default.\<close>

record tls_config =
  tl_server :: string
  tl_min :: nat
  tl_max :: nat
  tl_protos :: "string list"
  tl_roots :: "string option"
  tl_skip :: bool

definition tlsMinVersion :: nat where
  "tlsMinVersion = 771"

definition tls_zero :: tls_config where
  "tls_zero = \<lparr>tl_server = [], tl_min = tlsMinVersion, tl_max = 0, tl_protos = [], tl_roots = None, tl_skip = False\<rparr>"

definition floorTLS :: "tls_config \<Rightarrow> tls_config" where
  "floorTLS cfg = (if tl_min cfg < tlsMinVersion then cfg\<lparr>tl_min := tlsMinVersion\<rparr> else cfg)"

definition http11 :: string where
  "http11 = ''http/1.1''"

text \<open>The settings of the proxy hop: the dialer's own, else the client's, else the defaults; never a protocol to negotiate.\<close>

definition proxyTLSConfig :: "tls_config option \<Rightarrow> tls_config option \<Rightarrow> string \<Rightarrow> tls_config" where
  "proxyTLSConfig own client proxyHost =
     (let base = (if own = None then client else own);
          cfg = (case base of
            None \<Rightarrow> tls_zero\<lparr>tl_server := proxyHost\<rparr>
          | Some b \<Rightarrow> if tl_server b = [] then b\<lparr>tl_server := proxyHost\<rparr> else b)
      in floorTLS (cfg\<lparr>tl_protos := []\<rparr>))"

definition originTLSConfig :: "tls_config option \<Rightarrow> string \<Rightarrow> tls_config" where
  "originTLSConfig base addr =
     (let cfg = (case base of None \<Rightarrow> tls_zero | Some b \<Rightarrow> floorTLS b);
          cfg1 = (if tl_server cfg = [] then (case splitHostPort addr of Inr (host, _) \<Rightarrow> cfg\<lparr>tl_server := host\<rparr> | Inl _ \<Rightarrow> cfg) else cfg)
      in cfg1\<lparr>tl_protos := [http11]\<rparr>)"

text \<open>Every field the seam carries is copied.\<close>

definition utlsConfigFrom :: "tls_config option \<Rightarrow> tls_config" where
  "utlsConfigFrom cfg = (case cfg of
     None \<Rightarrow> \<lparr>tl_server = [], tl_min = 0, tl_max = 0, tl_protos = [], tl_roots = None, tl_skip = False\<rparr>
   | Some c \<Rightarrow> \<lparr>tl_server = tl_server c, tl_min = tl_min c, tl_max = tl_max c, tl_protos = tl_protos c, tl_roots = tl_roots c, tl_skip = tl_skip c\<rparr>)"

text \<open>The deadline of a dial, from the context's own and the clock; the two readings are of the check and of the arming.\<close>

definition deadlineFrom :: "int option \<Rightarrow> int \<Rightarrow> int \<Rightarrow> int \<Rightarrow> int" where
  "deadlineFrom ctx def now1 now2 = (case ctx of
     None \<Rightarrow> now2 + def
   | Some dl \<Rightarrow> if def \<le> 0 \<or> dl - now1 \<le> def then dl else now2 + def)"

section \<open>The hello\<close>

datatype hello_ext =
    SNI | ExtendedMasterSecret | RenegotiationInfo | SupportedCurves "nat list" | SupportedPoints "nat list" | SessionTicket
  | ALPN "string list" | StatusRequest | SignatureAlgorithms "nat list" | SCT | KeyShare "nat list" | PSKKeyExchangeModes "nat list"
  | SupportedVersions "nat list" | BoringPadding

record hello_spec =
  hs_min :: nat
  hs_max :: nat
  hs_ciphers :: "nat list"
  hs_compression :: "nat list"
  hs_exts :: "hello_ext list"

definition officialClientHelloSpec :: hello_spec where
  "officialClientHelloSpec = \<lparr>hs_min = 0x0303, hs_max = 0x0304,
     hs_ciphers = [0x1301, 0x1302, 0x1303, 0xc02b, 0xc02f, 0xc02c, 0xc030, 0xcca9, 0xcca8, 0xc009, 0xc013, 0xc00a, 0xc014, 0x009c, 0x009d,
       0x002f, 0x0035],
     hs_compression = [0],
     hs_exts = [SNI, ExtendedMasterSecret, RenegotiationInfo, SupportedCurves [0x001d, 0x0017, 0x0018], SupportedPoints [0], SessionTicket,
       ALPN [http11], StatusRequest, SignatureAlgorithms [0x0403, 0x0804, 0x0401, 0x0503, 0x0805, 0x0501, 0x0806, 0x0601, 0x0201], SCT,
       KeyShare [0x001d], PSKKeyExchangeModes [1], SupportedVersions [0x0304, 0x0303], BoringPadding]\<rparr>"

section \<open>The proxy hop\<close>

record connect_dialer =
  cd_proxy :: url
  cd_url :: go_url
  cd_dial :: "string \<Rightarrow> net_err + conn"
  cd_client :: "tls_config option"
  cd_own :: "tls_config option"
  cd_tls :: "tls_config \<Rightarrow> conn \<Rightarrow> net_err option \<times> conn"
  cd_preset :: "hello_spec \<Rightarrow> net_err option"
  cd_utls :: "tls_config \<Rightarrow> conn \<Rightarrow> net_err option \<times> conn"
  cd_reply :: "byte list \<Rightarrow> (net_err + int) \<times> byte list"

definition maxConnectHeaderBytes :: nat where
  "maxConnectHeaderBytes = 10485760"

definition proxyText :: "connect_dialer \<Rightarrow> string" where
  "proxyText d = ''proxy '' @ RedactProxyURL (cd_url d) (gu_string (cd_url d) (cd_proxy d))"

definition dialProxy :: "connect_dialer \<Rightarrow> dial_outcome" where
  "dialProxy d = (case cd_dial d (proxyDialAddr (cd_proxy d)) of
     Inl e \<Rightarrow> DialFailed (wrap_err (proxyText d @ '': dial: '') e) [EvEnter PhaseProxyConnect]
   | Inr c \<Rightarrow>
       (let c1 = c\<lparr>cn_ev := [EvEnter PhaseProxyConnect], cn_deadline := True\<rparr> in
        if url_scheme (cd_proxy d) \<noteq> ''https'' then Tunnel c1
        else (case cd_tls d (proxyTLSConfig (cd_own d) (cd_client d) (hostname (url_host (cd_proxy d)))) (enterPhase PhaseProxyTLS c1) of
            (Some e, c2) \<Rightarrow> HandshakeFailed (wrap_err (proxyText d @ '': tls: '') e) (closeConn c2)
          | (None, c2) \<Rightarrow> Tunnel c2)))"

text \<open>The path of an http origin: the caller speaks the request to the proxy itself.\<close>

definition DialProxyTLSContext :: "connect_dialer \<Rightarrow> dial_outcome" where
  "DialProxyTLSContext d = (case dialProxy d of
     Tunnel c \<Rightarrow> Tunnel (c\<lparr>cn_deadline := False\<rparr>)
   | r \<Rightarrow> r)"

section \<open>CONNECT\<close>

definition b64Char :: "nat \<Rightarrow> char" where
  "b64Char n = ''ABCDEFGHIJKLMNOPQRSTUVWXYZabcdefghijklmnopqrstuvwxyz0123456789+/'' ! (n mod 64)"

text \<open>\<^verbatim>\<open>base64.StdEncoding\<close>\<close>

fun b64 :: "nat list \<Rightarrow> string" where
  "b64 [] = []"
| "b64 [a] = [b64Char (a div 4), b64Char (a mod 4 * 16)] @ ''==''"
| "b64 [a, b] = [b64Char (a div 4), b64Char (a mod 4 * 16 + b div 16), b64Char (b mod 16 * 4)] @ ''=''"
| "b64 (a # b # c # xs) =
     [b64Char (a div 4), b64Char (a mod 4 * 16 + b div 16), b64Char (b mod 16 * 4 + c div 64), b64Char (c mod 64)] @ b64 xs"

definition crlf :: string where
  "crlf = [CHR 0x0D, CHR 0x0A]"

definition authLine :: "url \<Rightarrow> string" where
  "authLine proxy = (case url_user proxy of
     None \<Rightarrow> []
   | Some (user, pass) \<Rightarrow> ''Proxy-Authorization: Basic '' @
       b64 (map of_char (user @ '':'' @ (case pass of None \<Rightarrow> [] | Some p \<Rightarrow> p))) @ crlf)"

text \<open>What \<^verbatim>\<open>Request.Write\<close> puts on the wire for a CONNECT with an opaque target.\<close>

definition connectText :: "url \<Rightarrow> string \<Rightarrow> string" where
  "connectText proxy addr = ''CONNECT '' @ addr @ '' HTTP/1.1'' @ crlf @ ''Host: '' @ addr @ crlf @
     ''User-Agent: Go-http-client/1.1'' @ crlf @ authLine proxy @ crlf"

definition readResponse :: "connect_dialer \<Rightarrow> conn \<Rightarrow> (net_err + int) \<times> conn" where
  "readResponse d c = (case cd_reply d (take maxConnectHeaderBytes (cn_in c)) of
     (v, rest) \<Rightarrow> (v, c\<lparr>cn_in := rest @ drop maxConnectHeaderBytes (cn_in c)\<rparr>))"

definition httpConnect :: "connect_dialer \<Rightarrow> string \<Rightarrow> conn \<Rightarrow> net_err option \<times> conn" where
  "httpConnect d addr c = (case writeAll (bytes_of (connectText (cd_proxy d) addr)) (enterPhase PhaseConnectWrite c) of
     (Some e, c1) \<Rightarrow> (Some (wrap_err (proxyText d @ '': connect write: '') e), c1)
   | (None, c1) \<Rightarrow> (case readResponse d (enterPhase PhaseConnectRead c1) of
       (Inl e, c2) \<Rightarrow> (Some (wrap_err (proxyText d @ '': connect read: '') e), c2)
     | (Inr status, c2) \<Rightarrow>
         if status = 407
         then (Some (auth_err (proxyText d @ '': CONNECT refused with 407 (authentication required)'')), enterPhase PhaseProxyAuth c2)
         else if status \<noteq> 200 then (Some (plain_err (proxyText d @ '': CONNECT refused with status '' @ itoa status)), c2)
         else (None, c2)))"

section \<open>The origin handshake\<close>

definition handshakeOrigin :: "connect_dialer \<Rightarrow> tls_config \<Rightarrow> conn \<Rightarrow> net_err option \<times> conn" where
  "handshakeOrigin d cfg c =
     (let c1 = enterPhase PhaseOriginTLS c in
      case cd_preset d officialClientHelloSpec of
        Some e \<Rightarrow> (Some (wrap_err ''apply hello spec: '' e), closeConn c1)
      | None \<Rightarrow> (case cd_utls d (utlsConfigFrom (Some cfg)) c1 of
          (Some e, c2) \<Rightarrow> (Some e, closeConn c2)
        | (None, c2) \<Rightarrow> (None, c2)))"

definition DialTLSContext :: "connect_dialer \<Rightarrow> string \<Rightarrow> dial_outcome" where
  "DialTLSContext d addr = (case dialProxy d of
     Tunnel c \<Rightarrow> (case httpConnect d addr c of
         (Some e, c1) \<Rightarrow> HandshakeFailed e (closeConn c1)
       | (None, c1) \<Rightarrow> (case handshakeOrigin d (originTLSConfig (cd_client d) addr) c1 of
           (Some e, c2) \<Rightarrow> HandshakeFailed (wrap_err (''proxy tunnel: origin tls '' @ addr @ '': '') e) c2
         | (None, c2) \<Rightarrow> Tunnel (c2\<lparr>cn_deadline := False\<rparr>)))
   | r \<Rightarrow> r)"

text \<open>The dialer of direct and SOCKS5 egresses: a raw dial and the handshake on top of it.\<close>

definition originTLSDialer :: "connect_dialer \<Rightarrow> (string \<Rightarrow> dial_outcome) \<Rightarrow> string \<Rightarrow> dial_outcome" where
  "originTLSDialer d dialRaw addr = (case dialRaw addr of
     Tunnel c \<Rightarrow> (case handshakeOrigin d (originTLSConfig (cd_client d) addr) (c\<lparr>cn_deadline := True\<rparr>) of
         (Some e, c1) \<Rightarrow> HandshakeFailed (wrap_err (''origin tls '' @ addr @ '': '') e) c1
       | (None, c1) \<Rightarrow> Tunnel (c1\<lparr>cn_deadline := False\<rparr>))
   | r \<Rightarrow> r)"

section \<open>What the dial reports\<close>

text \<open>
  The libraries below fail with errors of their own, never with the proxy's refusal, and leave the phases, which only
  this dialer records, alone.
\<close>

definition plain_libs :: "connect_dialer \<Rightarrow> bool" where
  "plain_libs d \<longleftrightarrow>
     (\<forall>a e. cd_dial d a = Inl e \<longrightarrow> \<not> ne_proxy_auth e) \<and>
     (\<forall>a c. cd_dial d a = Inr c \<longrightarrow> (\<forall>n e. WriteFail n e \<in> set (cn_script c) \<or> WriteCanceled e \<in> set (cn_script c) \<longrightarrow> \<not> ne_proxy_auth e)) \<and>
     (\<forall>bs e rest. cd_reply d bs = (Inl e, rest) \<longrightarrow> \<not> ne_proxy_auth e) \<and>
     (\<forall>e. cd_preset d officialClientHelloSpec = Some e \<longrightarrow> \<not> ne_proxy_auth e) \<and>
     (\<forall>cfg c e c'. cd_tls d cfg c = (Some e, c') \<or> cd_utls d cfg c = (Some e, c') \<longrightarrow> \<not> ne_proxy_auth e) \<and>
     (\<forall>cfg c. cn_ev (snd (cd_tls d cfg c)) = cn_ev c \<and> cn_ev (snd (cd_utls d cfg c)) = cn_ev c) \<and>
     (\<forall>cfg c. cn_script (snd (cd_tls d cfg c)) = cn_script c)"

definition plain_script :: "conn \<Rightarrow> bool" where
  "plain_script c \<longleftrightarrow> (\<forall>n e. WriteFail n e \<in> set (cn_script c) \<or> WriteCanceled e \<in> set (cn_script c) \<longrightarrow> \<not> ne_proxy_auth e)"

lemma wrap_auth [simp]: "ne_proxy_auth (wrap_err t e) = ne_proxy_auth e"
  by (simp add: wrap_err_def)

lemma write_plain: "writeAll b c = (Some e, c') \<Longrightarrow> plain_script c \<Longrightarrow> \<not> ne_proxy_auth e"
  by (auto simp: writeAll_def plain_script_def split: if_splits list.splits write_outcome.splits)

lemma ev_simps [simp]:
  "cn_ev (enterPhase p c) = cn_ev c @ [EvEnter p]" "cn_script (enterPhase p c) = cn_script c"
  "cn_ev (closeConn c) = cn_ev c" "cn_closed (closeConn c)" "cn_ev (snd (readResponse d c)) = cn_ev c"
  "lastPhase (evs @ [EvEnter p]) = p"
  by (simp_all add: enterPhase_def closeConn_def readResponse_def lastPhase_def split: prod.split)

lemma proxy_hop:
  assumes "plain_libs d"
  shows "case dialProxy d of
      DialFailed e evs \<Rightarrow> evs = [EvEnter PhaseProxyConnect] \<and> \<not> ne_proxy_auth e
    | HandshakeFailed e c \<Rightarrow> cn_closed c \<and> \<not> ne_proxy_auth e \<and> cn_ev c = [EvEnter PhaseProxyConnect, EvEnter PhaseProxyTLS]
    | Tunnel c \<Rightarrow> plain_script c \<and>
        cn_ev c = EvEnter PhaseProxyConnect # (if url_scheme (cd_proxy d) = ''https'' then [EvEnter PhaseProxyTLS] else [])"
proof (cases "cd_dial d (proxyDialAddr (cd_proxy d))")
  case (Inl e)
  with assms show ?thesis by (simp add: dialProxy_def plain_libs_def)
next
  case (Inr c)
  let ?c1 = "c\<lparr>cn_ev := [EvEnter PhaseProxyConnect], cn_deadline := True\<rparr>"
  have ps: "plain_script ?c1" using assms Inr by (fastforce simp: plain_libs_def plain_script_def)
  show ?thesis
  proof (cases "url_scheme (cd_proxy d) = ''https''")
    case False
    with Inr ps show ?thesis by (simp add: dialProxy_def Let_def)
  next
    case True
    let ?cfg = "proxyTLSConfig (cd_own d) (cd_client d) (hostname (url_host (cd_proxy d)))"
    obtain r c2 where t: "cd_tls d ?cfg (enterPhase PhaseProxyTLS ?c1) = (r, c2)" by force
    have "cn_ev c2 = [EvEnter PhaseProxyConnect, EvEnter PhaseProxyTLS]" "cn_script c2 = cn_script ?c1"
      using assms t unfolding plain_libs_def by (metis append_Cons append_Nil conn.select_convs(7) conn.update_convs(7) conn.update_convs(6) conn.surjective
          ev_simps(1) snd_conv, metis ev_simps(2) snd_conv)
    moreover have "r = Some e \<Longrightarrow> \<not> ne_proxy_auth e" for e using assms t unfolding plain_libs_def by blast
    ultimately show ?thesis using Inr True t ps by (cases r) (simp_all add: dialProxy_def Let_def plain_script_def)
  qed
qed

text \<open>The status the proxy answered the CONNECT with, when the request was written and an answer could be read.\<close>

definition connectStatus :: "connect_dialer \<Rightarrow> string \<Rightarrow> conn \<Rightarrow> int option" where
  "connectStatus d addr c = (case writeAll (bytes_of (connectText (cd_proxy d) addr)) (enterPhase PhaseConnectWrite c) of
     (Some _, _) \<Rightarrow> None
   | (None, c1) \<Rightarrow> (case fst (cd_reply d (take maxConnectHeaderBytes (cn_in c1))) of Inl _ \<Rightarrow> None | Inr status \<Rightarrow> Some status))"

definition proxyStatus :: "connect_dialer \<Rightarrow> string \<Rightarrow> int option" where
  "proxyStatus d addr = (case dialProxy d of Tunnel c \<Rightarrow> connectStatus d addr c | _ \<Rightarrow> None)"

lemma status_read:
  assumes "writeAll (bytes_of (connectText (cd_proxy d) addr)) (enterPhase PhaseConnectWrite c) = (None, c1)"
    and "readResponse d (enterPhase PhaseConnectRead c1) = (v, c3)"
  shows "connectStatus d addr c = (case v of Inl _ \<Rightarrow> None | Inr status \<Rightarrow> Some status)"
  using assms by (auto simp: connectStatus_def readResponse_def enterPhase_def split: prod.splits)

text \<open>One CONNECT: it succeeds exactly on 200, 407 alone is the proxy's refusal, and the phase names what went wrong.\<close>

lemma connect_hop:
  assumes "plain_libs d" and "plain_script c" and h: "httpConnect d addr c = (r, c')"
  shows "case r of
      None \<Rightarrow> connectStatus d addr c = Some 200 \<and> cn_ev c' = cn_ev c @ [EvEnter PhaseConnectWrite, EvEnter PhaseConnectRead]
    | Some e \<Rightarrow> lastPhase (cn_ev c') \<in> {PhaseConnectWrite, PhaseConnectRead, PhaseProxyAuth} \<and>
        (ne_proxy_auth e \<longleftrightarrow> connectStatus d addr c = Some 407) \<and>
        (lastPhase (cn_ev c') = PhaseProxyAuth \<longleftrightarrow> connectStatus d addr c = Some 407) \<and> connectStatus d addr c \<noteq> Some 200 \<and>
        (\<exists>evs. cn_ev c' = cn_ev c @ evs \<and> EvEnter PhaseOriginTLS \<notin> set evs)"
proof -
  let ?b = "bytes_of (connectText (cd_proxy d) addr)"
  obtain w c1 where w: "writeAll ?b (enterPhase PhaseConnectWrite c) = (w, c1)" by force
  have e1: "cn_ev c1 = cn_ev c @ [EvEnter PhaseConnectWrite]" using write_fail_ev [OF w] by simp
  show ?thesis
  proof (cases w)
    case (Some e)
    then have "\<not> ne_proxy_auth e" using write_plain [of ?b "enterPhase PhaseConnectWrite c" e c1] w assms(2) by (simp add: plain_script_def)
    then show ?thesis using h w Some e1 by (auto simp: httpConnect_def connectStatus_def)
  next
    case None
    let ?c2 = "enterPhase PhaseConnectRead c1"
    obtain v c3 where v: "readResponse d ?c2 = (v, c3)" by force
    note st = status_read [OF w [unfolded None] v]
    have e3: "cn_ev c3 = cn_ev c @ [EvEnter PhaseConnectWrite, EvEnter PhaseConnectRead]"
      using ev_simps(5) [of d ?c2] e1 by (simp add: v)
    then have l3: "lastPhase (cn_ev c3) = PhaseConnectRead" by (simp add: lastPhase_def)
    show ?thesis
    proof (cases v)
      case (Inl e)
      obtain rest where "cd_reply d (take maxConnectHeaderBytes (cn_in ?c2)) = (Inl e, rest)"
        using v Inl by (auto simp del: ev_simps enterPhase_def simp: readResponse_def Let_def split: prod.splits)
      then have "\<not> ne_proxy_auth e" using assms(1) unfolding plain_libs_def by blast
      then show ?thesis using h w None v Inl e3 l3 st by (auto simp: httpConnect_def)
    next
      case (Inr status)
      consider "status = 407" | "status = 200" | "status \<noteq> 407" "status \<noteq> 200" by blast
      then show ?thesis
      proof cases
        case 1
        then show ?thesis using h w None v Inr e3 st by (auto simp: httpConnect_def auth_err_def lastPhase_def)
      next
        case 2
        then show ?thesis using h w None v Inr e3 st by (auto simp: httpConnect_def)
      next
        case 3
        then show ?thesis using h w None v Inr e3 l3 st by (auto simp: httpConnect_def plain_err_def)
      qed
    qed
  qed
qed

lemma origin_hop:
  assumes "plain_libs d" and h: "handshakeOrigin d cfg c = (r, c')"
  shows "cn_ev c' = cn_ev c @ [EvEnter PhaseOriginTLS] \<and> (case r of None \<Rightarrow> True | Some e \<Rightarrow> cn_closed c' \<and> \<not> ne_proxy_auth e)"
proof (cases "cd_preset d officialClientHelloSpec")
  case (Some e)
  with assms show ?thesis by (auto simp: handshakeOrigin_def Let_def plain_libs_def)
next
  case None
  obtain q c2 where u: "cd_utls d (utlsConfigFrom (Some cfg)) (enterPhase PhaseOriginTLS c) = (q, c2)" by force
  have "cn_ev c2 = cn_ev c @ [EvEnter PhaseOriginTLS]" using assms(1) u unfolding plain_libs_def by (metis ev_simps(1) snd_conv)
  moreover have "q = Some e \<Longrightarrow> \<not> ne_proxy_auth e" for e using assms(1) u unfolding plain_libs_def by blast
  ultimately show ?thesis using h None u by (cases q) (auto simp: handshakeOrigin_def Let_def)
qed

section \<open>Properties\<close>

text \<open>
  C35. A tunnelled dial is accounted for by the status the proxy answered its CONNECT with: the error is the typed refusal
  exactly when that status is 407, and the last phase is that of the proxy's authentication exactly then; the origin
  handshake is entered exactly when the status is 200, and only then can a tunnel come out; a dial that fails after the
  connection leaves it closed, and one that fails before connecting is no refusal; and a tunnel is handed over with its
  deadline cleared, past every phase in order. The TLS libraries, the reader of replies and the connections fail with
  errors of their own and record no phases.
\<close>

theorem connect_verdict:
  assumes "plain_libs d"
  shows "(EvEnter PhaseOriginTLS \<in> set (outcome_events (DialTLSContext d addr)) \<longleftrightarrow> proxyStatus d addr = Some 200) \<and>
    (case DialTLSContext d addr of
       DialFailed e evs \<Rightarrow> evs = [EvEnter PhaseProxyConnect] \<and> \<not> ne_proxy_auth e \<and> proxyStatus d addr = None
     | HandshakeFailed e c \<Rightarrow> cn_closed c \<and> (ne_proxy_auth e \<longleftrightarrow> proxyStatus d addr = Some 407) \<and>
         (lastPhase (cn_ev c) = PhaseProxyAuth \<longleftrightarrow> proxyStatus d addr = Some 407) \<and>
         (lastPhase (cn_ev c) = PhaseOriginTLS \<longleftrightarrow> proxyStatus d addr = Some 200) \<and>
         lastPhase (cn_ev c) \<in> {PhaseProxyTLS, PhaseConnectWrite, PhaseConnectRead, PhaseProxyAuth, PhaseOriginTLS}
     | Tunnel c \<Rightarrow> \<not> cn_deadline c \<and> proxyStatus d addr = Some 200 \<and>
         cn_ev c = EvEnter PhaseProxyConnect # (if url_scheme (cd_proxy d) = ''https'' then [EvEnter PhaseProxyTLS] else []) @
           [EvEnter PhaseConnectWrite, EvEnter PhaseConnectRead, EvEnter PhaseOriginTLS])"
proof (cases "dialProxy d")
  case (DialFailed e evs)
  with proxy_hop [OF assms] show ?thesis by (simp add: DialTLSContext_def proxyStatus_def)
next
  case (HandshakeFailed e c)
  with proxy_hop [OF assms] show ?thesis by (simp add: DialTLSContext_def proxyStatus_def lastPhase_def)
next
  case (Tunnel c)
  note px = proxy_hop [OF assms, unfolded Tunnel dial_outcome.case]
  have no: "EvEnter PhaseOriginTLS \<notin> set (cn_ev c)" using px by auto
  obtain r c1 where h: "httpConnect d addr c = (r, c1)" by force
  note hop = connect_hop [OF assms conjunct1 [OF px] h]
  show ?thesis
  proof (cases r)
    case (Some e)
    then show ?thesis using hop Tunnel h no by (auto simp: DialTLSContext_def proxyStatus_def)
  next
    case None
    obtain q c2 where o: "handshakeOrigin d (originTLSConfig (cd_client d) addr) c1 = (q, c2)" by force
    show ?thesis using hop None Tunnel h o origin_hop [OF assms o] px
      by (cases q) (auto simp: DialTLSContext_def proxyStatus_def lastPhase_def)
  qed
qed

text \<open>
  The TLS of both hops keeps its promises: neither hop goes below TLS 1.2 nor loses a higher floor; the proxy hop
  negotiates no protocol and the origin hop offers http/1.1 alone; roots and verification are those of the settings
  asked for, and certificates are verified when none were given; and the copy handed to the hello's library drops
  no field.
\<close>

theorem tls_hops:
  "tl_min (proxyTLSConfig own client h) = max tlsMinVersion (case if own = None then client else own of None \<Rightarrow> 0 | Some b \<Rightarrow> tl_min b) \<and>
   tl_min (originTLSConfig base addr) = max tlsMinVersion (case base of None \<Rightarrow> 0 | Some b \<Rightarrow> tl_min b) \<and>
   tl_protos (proxyTLSConfig own client h) = [] \<and> tl_protos (originTLSConfig base addr) = [http11] \<and>
   tl_skip (proxyTLSConfig own client h) = (case if own = None then client else own of None \<Rightarrow> False | Some b \<Rightarrow> tl_skip b) \<and>
   tl_skip (originTLSConfig base addr) = (case base of None \<Rightarrow> False | Some b \<Rightarrow> tl_skip b) \<and>
   tl_roots (proxyTLSConfig own client h) = (case if own = None then client else own of None \<Rightarrow> None | Some b \<Rightarrow> tl_roots b) \<and>
   tl_roots (originTLSConfig base addr) = (case base of None \<Rightarrow> None | Some b \<Rightarrow> tl_roots b) \<and>
   utlsConfigFrom (Some (originTLSConfig base addr)) = originTLSConfig base addr"
  by (auto simp: proxyTLSConfig_def originTLSConfig_def floorTLS_def tls_zero_def utlsConfigFrom_def Let_def split: option.splits sum.splits)

text \<open>The deadline of a dial is at most the default past the later reading of the clock, and never later than the context's own.\<close>

lemma deadline_bounds:
  assumes "now1 \<le> now2" and "0 < def"
  shows "deadlineFrom ctx def now1 now2 \<le> now2 + def"
    and "ctx = Some dl \<Longrightarrow> deadlineFrom ctx def now1 now1 \<le> dl"
  using assms by (auto simp: deadlineFrom_def split: option.splits)

text \<open>A sample: an http proxy that refuses, and one that opens the tunnel.\<close>

definition sample_connect :: "int \<Rightarrow> connect_dialer" where
  "sample_connect status = \<lparr>cd_proxy = \<lparr>url_scheme = ''http'', url_user = Some (''u'', Some ''p''), url_host = ''px:3128'', url_path = [],
       url_raw_query = [], url_fragment = []\<rparr>,
     cd_url = \<lparr>gu_parse = (\<lambda>_. Inl []), gu_string = (\<lambda>_. []), gu_resolve = (\<lambda>_ _. Inl [])\<rparr>,
     cd_dial = (\<lambda>_. Inr (sample_conn [])), cd_client = None, cd_own = None, cd_tls = (\<lambda>_ c. (None, c)), cd_preset = (\<lambda>_. None),
     cd_utls = (\<lambda>_ c. (None, c)), cd_reply = (\<lambda>bs. (Inr status, []))\<rparr>"

lemma sample_plain: "plain_libs (sample_connect n)"
  unfolding plain_libs_def sample_connect_def by (simp add: sample_conn_def)

lemma sample_dial_proxy: "dialProxy (sample_connect n) = Tunnel ((sample_conn [])\<lparr>cn_ev := [EvEnter PhaseProxyConnect], cn_deadline := True\<rparr>)"
  by (simp add: dialProxy_def sample_connect_def)

lemma sample_shake: "handshakeOrigin (sample_connect n) cfg c = (None, enterPhase PhaseOriginTLS c)"
  by (simp add: handshakeOrigin_def sample_connect_def)

lemma sample_http:
  "\<exists>t c. httpConnect (sample_connect 407) a ((sample_conn [])\<lparr>cn_ev := [EvEnter PhaseProxyConnect], cn_deadline := True\<rparr>) = (Some (auth_err t), c)"
  "\<exists>c. httpConnect (sample_connect 200) a ((sample_conn [])\<lparr>cn_ev := [EvEnter PhaseProxyConnect], cn_deadline := True\<rparr>) = (None, c)"
  unfolding httpConnect_def readResponse_def sample_connect_def sample_conn_def writeAll_def enterPhase_def by (simp, blast) simp

theorem connect_verdict_witness:
  "(\<exists>e c. DialTLSContext (sample_connect 407) ''h:443'' = HandshakeFailed e c \<and> ne_proxy_auth e \<and> lastPhase (cn_ev c) = PhaseProxyAuth \<and> cn_closed c) \<and>
   (\<exists>c. DialTLSContext (sample_connect 200) ''h:443'' = Tunnel c \<and> \<not> cn_deadline c)"
proof -
  note v = connect_verdict [OF sample_plain, of _ "''h:443''"]
  have "\<exists>t c. DialTLSContext (sample_connect 407) ''h:443'' = HandshakeFailed (auth_err t) c"
    using sample_http(1) [of "''h:443''"] by (auto simp: DialTLSContext_def sample_dial_proxy)
  moreover have "\<exists>c. DialTLSContext (sample_connect 200) ''h:443'' = Tunnel c"
    using sample_http(2) [of "''h:443''"] by (auto simp: DialTLSContext_def sample_dial_proxy sample_shake)
  ultimately show ?thesis using v [of 407] v [of 200] by (auto simp: auth_err_def)
qed

end
