(* ===== verification/EvidenceLog.thy ===== *)
theory EvidenceLog
  imports Forced SessionResolver ConfigStore
begin

text \<open>
  The log lines of a request's evidence (\<^verbatim>\<open>internal/router/evidence_log.go\<close>): the rows of \<open>Evidence\<close> become events,
  each row one event. An event is its level, its fields in order and its message. The hash, \<^verbatim>\<open>%q\<close> and the lower-casing of
  header names are parameters.
\<close>

section \<open>Events\<close>

datatype log_value = LStr string | LInt int | LBool bool

record log_event =
  lv_level :: log_lvl
  lv_fields :: "(string \<times> log_value) list"
  lv_msg :: string

record render_env =
  re_sha :: "string \<Rightarrow> byte list"
  re_quote :: "string \<Rightarrow> string"
  re_lower :: "string \<Rightarrow> string"

record evidenceLog =
  el_rec :: recorder
  el_requestID :: string
  el_callerID :: string
  el_generation :: nat
  el_route :: string
  el_model :: string
  el_endpoint :: string
  el_streaming :: bool
  el_sessionFP :: string
  el_upstreamHost :: string
  el_maxAttempts :: int
  el_requestBytes :: int
  el_bodyJSON :: "string option"
  el_bodySHA :: string
  el_emitted :: nat

definition newEvidenceLog ::
  "render_env \<Rightarrow> go_url \<Rightarrow> recorder \<Rightarrow> string \<Rightarrow> string \<Rightarrow> nat \<Rightarrow> string \<Rightarrow> string \<Rightarrow> string \<Rightarrow> bool \<Rightarrow> string \<Rightarrow> string \<Rightarrow> int \<Rightarrow> int \<Rightarrow>
   string option \<Rightarrow> evidenceLog" where
  "newEvidenceLog E U rec requestID callerID generation route model endpoint streaming session upstreamBase maxAttempts bodyBytes bodyJSON =
     \<lparr>el_rec = rec, el_requestID = requestID, el_callerID = callerID, el_generation = generation, el_route = route, el_model = model,
      el_endpoint = endpoint, el_streaming = streaming, el_sessionFP = sha16 (re_sha E) session,
      el_upstreamHost = (case gu_parse U upstreamBase of Inr u \<Rightarrow> url_host u | Inl _ \<Rightarrow> []),
      el_maxAttempts = maxAttempts, el_requestBytes = bodyBytes, el_bodyJSON = bodyJSON, el_bodySHA = [], el_emitted = 0\<rparr>"

definition attemptID :: "evidenceLog \<Rightarrow> row \<Rightarrow> string" where
  "attemptID e r = (if ro_attempt r < 1 then [] else el_requestID e @ ''/'' @ itoa (ro_attempt r))"

text \<open>The hash of the body is computed when the first event needs it and kept.\<close>

definition bodyHash :: "render_env \<Rightarrow> evidenceLog \<Rightarrow> string \<times> evidenceLog" where
  "bodyHash E e = (case el_bodyJSON e of
     None \<Rightarrow> (el_bodySHA e, e)
   | Some b \<Rightarrow> if el_bodySHA e = [] then (sha16 (re_sha E) b, e\<lparr>el_bodySHA := sha16 (re_sha E) b\<rparr>) else (el_bodySHA e, e))"

definition strField :: "string \<Rightarrow> string \<Rightarrow> (string \<times> log_value) list" where
  "strField k v = (if v = [] then [] else [(k, LStr v)])"

definition intField :: "string \<Rightarrow> int \<Rightarrow> (string \<times> log_value) list" where
  "intField k n = (if 0 < n then [(k, LInt n)] else [])"

definition requestFields :: "evidenceLog \<Rightarrow> string \<Rightarrow> row \<Rightarrow> (string \<times> log_value) list" where
  "requestFields e hash r =
     [(''request_id'', LStr (el_requestID e))] @ strField ''caller_request_id'' (el_callerID e) @ strField ''attempt_id'' (attemptID e r) @
     (if 0 < ro_attempt r then [(''attempt'', LInt (ro_attempt r)), (''max_attempts'', LInt (el_maxAttempts e))] else []) @
     [(''generation'', LInt (int (el_generation e))), (''route'', LStr (el_route e)), (''model'', LStr (el_model e)),
      (''endpoint'', LStr (el_endpoint e)), (''streaming'', LBool (el_streaming e)), (''session_fp'', LStr (el_sessionFP e)),
      (''request_bytes'', LInt (el_requestBytes e)), (''request_body_sha256'', LStr hash), (''upstream_host'', LStr (el_upstreamHost e)),
      (''phase'', LStr (ro_phase r)), (''egress'', LStr (ro_egress r))]"

definition rateFields :: "render_env \<Rightarrow> row \<Rightarrow> (string \<times> log_value) list" where
  "rateFields E r = (case ro_rate_limit r of
     None \<Rightarrow> []
   | Some rl \<Rightarrow> strField ''retry_after'' (rl_retry_after rl) @ map (\<lambda>(n, v). (re_lower E n, LStr v)) (rl_entries rl))"

definition failureFields :: "render_env \<Rightarrow> row \<Rightarrow> (string \<times> log_value) list" where
  "failureFields E r =
     strField ''egress_type'' (ro_egress_type r) @ strField ''egress_intent'' (ro_intent r) @ intField ''status'' (ro_status r) @
     [(''class'', LStr (ro_class r))] @ strField ''origin'' (ro_origin r) @ strField ''failure_phase'' (ro_failure_phase r) @
     strField ''request_state'' (ro_request_state r) @ strField ''reason'' (ro_reason r) @ strField ''error_type'' (ro_err_type r) @
     strField ''error_code'' (ro_err_code r) @ strField ''message'' (ro_message r) @ strField ''error_fingerprint'' (ro_fingerprint r) @
     strField ''body_peek'' (ro_body_peek r) @
     (if 0 < ro_body_bytes r
      then [(''response_bytes'', LInt (int (ro_body_bytes r)))] @ (if ro_truncated r then [(''response_truncated'', LBool True)] else [])
      else []) @
     rateFields E r @ [(''duration_ms'', LInt (ro_duration_ms r))] @ intField ''in_flight'' (ro_in_flight r) @
     strField ''health_decision'' (ro_health r) @ strField ''fallback_decision'' (ro_fallback r)"

definition droppedField :: "nat \<Rightarrow> (string \<times> log_value) list" where
  "droppedField dropped = intField ''evidence_dropped'' (int dropped)"

definition errorMsg :: "render_env \<Rightarrow> evidenceLog \<Rightarrow> row \<Rightarrow> string" where
  "errorMsg E e r =
     ''upstream_error request_id='' @ el_requestID e @ '' attempt='' @ re_quote E (attemptID e r) @ '' egress='' @ re_quote E (ro_egress r) @
     '' phase='' @ ro_phase r @ '' status='' @ itoa (ro_status r) @ '' class='' @ ro_class r @
     '' fallback_decision='' @ ro_fallback r @ '' message='' @ re_quote E (ro_message r)"

definition emitError :: "render_env \<Rightarrow> row \<Rightarrow> nat \<Rightarrow> evidenceLog \<Rightarrow> log_event \<times> evidenceLog" where
  "emitError E r dropped e = (case bodyHash E e of
     (hash, e1) \<Rightarrow> (\<lparr>lv_level = WarnLevel, lv_fields = requestFields e1 hash r @ failureFields E r @ droppedField dropped, lv_msg = errorMsg E e1 r\<rparr>, e1))"

definition emitSkip :: "render_env \<Rightarrow> row \<Rightarrow> nat \<Rightarrow> evidenceLog \<Rightarrow> log_event" where
  "emitSkip E r dropped e =
     \<lparr>lv_level = DebugLevel,
      lv_fields = [(''request_id'', LStr (el_requestID e))] @ strField ''caller_request_id'' (el_callerID e) @
        [(''generation'', LInt (int (el_generation e))), (''route'', LStr (el_route e)), (''egress'', LStr (ro_egress r))] @
        strField ''egress_type'' (ro_egress_type r) @ strField ''egress_intent'' (ro_intent r) @ [(''reason'', LStr (ro_reason r))] @
        droppedField dropped,
      lv_msg = ''egress_skipped request_id='' @ el_requestID e @ '' egress='' @ re_quote E (ro_egress r) @ '' reason='' @ ro_reason r\<rparr>"

section \<open>Emitting\<close>

definition phaseSkip :: string where
  "phaseSkip = ''skip''"

text \<open>The loop of \<open>Emit\<close> over the rows not yet rendered; the dropped count rides on the last.\<close>

fun emitRows :: "render_env \<Rightarrow> nat \<Rightarrow> row list \<Rightarrow> evidenceLog \<Rightarrow> log_event list \<times> evidenceLog" where
  "emitRows E dropped [] e = ([], e)"
| "emitRows E dropped (r # rs) e =
     (let d = (if rs = [] then dropped else 0);
          (ev, e1) = (if ro_phase r = phaseSkip then (emitSkip E r d e, e) else emitError E r d e);
          (evs, e2) = emitRows E dropped rs e1
      in (ev # evs, e2))"

definition Emit :: "render_env \<Rightarrow> evidenceLog \<Rightarrow> log_event list \<times> evidenceLog" where
  "Emit E e = (case emitRows E (Dropped (el_rec e)) (drop (el_emitted e) (Rows (el_rec e))) e of
     (evs, e1) \<Rightarrow> (evs, e1\<lparr>el_emitted := length (Rows (el_rec e))\<rparr>))"

definition appendAndEmit :: "render_env \<Rightarrow> row \<Rightarrow> evidenceLog \<Rightarrow> log_event \<times> evidenceLog" where
  "appendAndEmit E r e =
     (let rec = Append r (el_rec e) in emitError E r (Dropped rec) (e\<lparr>el_rec := rec, el_emitted := Len rec\<rparr>))"

definition abortRow :: "string \<Rightarrow> string \<Rightarrow> int \<Rightarrow> origin \<Rightarrow> string \<Rightarrow> int \<Rightarrow> row" where
  "abortRow phase egress status who reason durMS =
     zero_row\<lparr>ro_phase := phase, ro_egress := egress, ro_status := status, ro_class := class_string ClassResponseStarted,
       ro_origin := origin_string who, ro_failure_phase := phase_string PhaseResponseBody,
       ro_request_state := state_string StateResponseStarted, ro_reason := reason, ro_duration_ms := durMS\<rparr>"

definition StreamAbort :: "render_env \<Rightarrow> string \<Rightarrow> int \<Rightarrow> origin \<Rightarrow> string \<Rightarrow> int \<Rightarrow> evidenceLog \<Rightarrow> log_event \<times> evidenceLog" where
  "StreamAbort E egress deliveredStatus who reason durMS = appendAndEmit E (abortRow ''stream'' egress deliveredStatus who reason durMS)"

definition ForcedAbort :: "render_env \<Rightarrow> string \<Rightarrow> int \<Rightarrow> origin \<Rightarrow> string \<Rightarrow> int \<Rightarrow> evidenceLog \<Rightarrow> log_event \<times> evidenceLog" where
  "ForcedAbort E egress upstreamStatus who reason durMS = appendAndEmit E (abortRow ''forced'' egress upstreamStatus who reason durMS)"

section \<open>One row, one event\<close>

text \<open>
  What happens to the log of a request: the executor stores rows, the router emits, and a reply that dies after its
  header adds a row of its own.
\<close>

datatype log_op = LogCollect row | LogEmit | LogAbort row

fun logStep :: "render_env \<Rightarrow> log_op \<Rightarrow> evidenceLog \<Rightarrow> log_event list \<times> evidenceLog" where
  "logStep E (LogCollect r) e = ([], e\<lparr>el_rec := Append r (el_rec e)\<rparr>)"
| "logStep E LogEmit e = Emit E e"
| "logStep E (LogAbort r) e = (case appendAndEmit E r e of (ev, e1) \<Rightarrow> ([ev], e1))"

fun runLog :: "render_env \<Rightarrow> log_op list \<Rightarrow> evidenceLog \<Rightarrow> log_event list \<times> evidenceLog" where
  "runLog E [] e = ([], e)"
| "runLog E (op # ops) e = (let (evs, e1) = logStep E op e; (evs', e2) = runLog E ops e1 in (evs @ evs', e2))"

lemma runLog_append:
  "runLog E (a @ b) e = (let (evs, e1) = runLog E a e; (evs', e2) = runLog E b e1 in (evs @ evs', e2))"
  by (induction a arbitrary: e) (auto simp: Let_def split: prod.splits)

text \<open>The event of a row depends on what the log was made with, not on what it rendered before.\<close>

definition rowEvent :: "render_env \<Rightarrow> evidenceLog \<Rightarrow> row \<Rightarrow> nat \<Rightarrow> log_event" where
  "rowEvent E e r d = (if ro_phase r = phaseSkip then emitSkip E r d e else fst (emitError E r d e))"

definition static :: "evidenceLog \<Rightarrow> evidenceLog" where
  "static e = e\<lparr>el_rec := None, el_bodySHA := [], el_emitted := 0\<rparr>"

definition warmed :: "render_env \<Rightarrow> evidenceLog \<Rightarrow> evidenceLog \<Rightarrow> bool" where
  "warmed E e0 e \<longleftrightarrow> static e = static e0 \<and> el_bodySHA e0 = [] \<and> (el_bodySHA e = [] \<or> el_bodySHA e = fst (bodyHash E e0))"

lemma warmed_state [simp]: "warmed E e0 (e\<lparr>el_rec := rec\<rparr>) = warmed E e0 e" "warmed E e0 (e\<lparr>el_emitted := n\<rparr>) = warmed E e0 e"
  by (simp_all add: warmed_def static_def)

lemma static_fields:
  assumes "static e = static e'"
  shows "el_requestID e = el_requestID e'" "el_callerID e = el_callerID e'" "el_generation e = el_generation e'" "el_route e = el_route e'"
    "el_model e = el_model e'" "el_endpoint e = el_endpoint e'" "el_streaming e = el_streaming e'" "el_sessionFP e = el_sessionFP e'"
    "el_upstreamHost e = el_upstreamHost e'" "el_maxAttempts e = el_maxAttempts e'" "el_requestBytes e = el_requestBytes e'"
    "el_bodyJSON e = el_bodyJSON e'"
  using assms by (cases e, cases e', simp add: static_def)+

lemma fields_static:
  assumes "static e = static e'"
  shows "requestFields e h r = requestFields e' h r" "errorMsg E e r = errorMsg E e' r" "emitSkip E r d e = emitSkip E r d e'"
  using static_fields [OF assms] by (simp_all add: requestFields_def errorMsg_def emitSkip_def attemptID_def)

lemma bodyHash_warm:
  assumes "warmed E e0 e"
  shows "fst (bodyHash E e) = fst (bodyHash E e0)" "warmed E e0 (snd (bodyHash E e))" "el_rec (snd (bodyHash E e)) = el_rec e"
    "static (snd (bodyHash E e)) = static e"
  using assms static_fields(12) [of e e0] by (auto simp: warmed_def bodyHash_def static_def split: option.splits)

lemma emitError_warm:
  assumes "warmed E e0 e"
  shows "fst (emitError E r d e) = fst (emitError E r d e0)" "warmed E e0 (snd (emitError E r d e))" "el_rec (snd (emitError E r d e)) = el_rec e"
proof -
  obtain h e1 where b: "bodyHash E e = (h, e1)" by force
  obtain h0 e2 where b0: "bodyHash E e0 = (h0, e2)" by force
  have w0: "warmed E e0 e0" using assms by (simp add: warmed_def)
  note facts = bodyHash_warm [OF assms, unfolded b prod.sel] bodyHash_warm [OF w0, unfolded b0 prod.sel]
  have "static e1 = static e2" using facts assms by (simp add: warmed_def)
  with facts b b0 show "fst (emitError E r d e) = fst (emitError E r d e0)"
    "warmed E e0 (snd (emitError E r d e))" "el_rec (snd (emitError E r d e)) = el_rec e"
    by (simp_all add: emitError_def fields_static [of e1 e2])
qed

lemma emitSkip_warm: "warmed E e0 e \<Longrightarrow> emitSkip E r d e = emitSkip E r d e0"
  using fields_static(3) [of e e0] by (simp add: warmed_def)

definition counted :: "nat \<Rightarrow> row list \<Rightarrow> (row \<times> nat) list" where
  "counted d rs = zip rs (replicate (length rs - 1) 0 @ [d])"

lemma counted_simps [simp]: "counted d [] = []" "counted d (r # rs) = (r, if rs = [] then d else 0) # counted d rs"
  by (simp add: counted_def, cases rs, simp_all add: counted_def)

lemma emitRows_warm:
  "warmed E e0 e \<Longrightarrow> fst (emitRows E d rs e) = map (\<lambda>(r, k). rowEvent E e0 r k) (counted d rs) \<and>
     warmed E e0 (snd (emitRows E d rs e)) \<and> el_rec (snd (emitRows E d rs e)) = el_rec e"
proof (induction rs arbitrary: e)
  case (Cons r rs)
  note err = emitError_warm [OF Cons.prems, of r "if rs = [] then d else 0"]
  obtain ev e1 where s: "(if ro_phase r = phaseSkip then (emitSkip E r (if rs = [] then d else 0) e, e)
      else emitError E r (if rs = [] then d else 0) e) = (ev, e1)" by force
  have "ev = rowEvent E e0 r (if rs = [] then d else 0)" "warmed E e0 e1" "el_rec e1 = el_rec e"
    using s err Cons.prems emitSkip_warm [OF Cons.prems] by (auto simp: rowEvent_def split: if_splits)
  with Cons.IH [of e1] s show ?case by (auto simp: Let_def split: prod.splits)
qed simp

section \<open>The log of a request\<close>

definition filled :: "row list \<Rightarrow> recorder" where
  "filled rs = Some \<lparr>rc_rows = take 16 rs, rc_dropped = length rs - 16\<rparr>"

lemma filled_simps: "filled [] = NewRecorder" "Append r (filled rs) = filled (rs @ [r])"
  "Rows (filled rs) = take 16 rs" "Dropped (filled rs) = length rs - 16"
  by (auto simp: filled_def NewRecorder_def Append_def EvidenceMaxRows_def Rows_def Dropped_def)

lemma run_collect:
  "el_rec e = filled rs0 \<Longrightarrow> warmed E e0 e \<Longrightarrow> el_emitted e = 0 \<Longrightarrow>
   \<exists>e'. runLog E (map LogCollect rs) e = ([], e') \<and> el_rec e' = filled (rs0 @ rs) \<and> warmed E e0 e' \<and> el_emitted e' = 0"
proof (induction rs arbitrary: e rs0)
  case (Cons r rs)
  from Cons.IH [of "e\<lparr>el_rec := filled (rs0 @ [r])\<rparr>" "rs0 @ [r]"] Cons.prems
  show ?case by (auto simp: filled_simps Let_def)
qed simp

lemma run_aborts:
  "el_rec e = filled rs0 \<Longrightarrow> warmed E e0 e \<Longrightarrow>
   fst (runLog E (map LogAbort rs) e) =
     map (\<lambda>(r, n). fst (emitError E r (n - 16) e0)) (zip rs [Suc (length rs0)..<Suc (length rs0 + length rs)])"
proof (induction rs arbitrary: e rs0)
  case (Cons r rs)
  obtain ev e1 where a: "appendAndEmit E r e = (ev, e1)" by force
  let ?e = "e\<lparr>el_rec := filled (rs0 @ [r]), el_emitted := Len (filled (rs0 @ [r]))\<rparr>"
  have "warmed E e0 ?e" using Cons.prems(2) by simp
  note err = emitError_warm [OF this, of r "length (rs0 @ [r]) - 16"]
  have "emitError E r (length (rs0 @ [r]) - 16) ?e = (ev, e1)"
    using a Cons.prems(1) by (simp add: appendAndEmit_def Let_def filled_simps)
  with err have e: "ev = fst (emitError E r (Suc (length rs0) - 16) e0)" "warmed E e0 e1" "el_rec e1 = filled (rs0 @ [r])" by simp_all
  have u: "[Suc (length rs0)..<Suc (length rs0 + length (r # rs))] =
      Suc (length rs0) # [Suc (length (rs0 @ [r]))..<Suc (length (rs0 @ [r]) + length rs)]"
    by (subst upt_conv_Cons) simp_all
  show ?case using Cons.IH [OF e(3,2)] a e(1) unfolding u by (auto simp: Let_def split: prod.splits)
qed simp

text \<open>
  C31. One row is one event, ever: of the rows the executor collected, the first sixteen are rendered in order, a passed-over
  egress at debug and any other at warn, the last one with the number that did not fit; each row added after the header
  died is then rendered once, also when the recorder is full, and no earlier row is rendered again.
\<close>

theorem evidence_once:
  "let e0 = newEvidenceLog E U NewRecorder requestID callerID generation route model endpoint streaming session base maxAttempts bodyBytes bodyJSON
   in fst (runLog E (map LogCollect rows @ LogEmit # map LogAbort aborts) e0) =
        map (\<lambda>(r, d). rowEvent E e0 r d) (counted (length rows - 16) (take 16 rows)) @
        map (\<lambda>(r, n). fst (emitError E r (n - 16) e0)) (zip aborts [Suc (length rows)..<Suc (length rows + length aborts)])"
proof -
  let ?e0 = "newEvidenceLog E U NewRecorder requestID callerID generation route model endpoint streaming session base maxAttempts bodyBytes bodyJSON"
  have w: "warmed E ?e0 ?e0" "el_rec ?e0 = filled []" "el_emitted ?e0 = 0" by (simp_all add: warmed_def newEvidenceLog_def filled_simps)
  obtain e1 where e1: "runLog E (map LogCollect rows) ?e0 = ([], e1)" "el_rec e1 = filled rows" "warmed E ?e0 e1" "el_emitted e1 = 0"
    using run_collect [OF w(2,1,3), of rows] by auto
  obtain evs e2 where e2: "Emit E e1 = (evs, e2)" by force
  have "evs = map (\<lambda>(r, d). rowEvent E ?e0 r d) (counted (length rows - 16) (take 16 rows))" "el_rec e2 = filled rows" "warmed E ?e0 e2"
    using emitRows_warm [OF e1(3), of "length rows - 16" "take 16 rows"] e2 e1(2,4)
    by (auto simp: Emit_def filled_simps split: prod.splits)
  with run_aborts [of e2 rows E ?e0 aborts] e1(1) e2 show ?thesis by (auto simp: runLog_append Let_def split: prod.splits)
qed

text \<open>
  What the process-wide level lets through: a failure is written at every level but the highest, a passed-over egress only at
  the lowest; so at the default level the log of a pass is its failures, in order.
\<close>

definition written :: "log_lvl \<Rightarrow> log_event \<Rightarrow> bool" where
  "written lvl ev \<longleftrightarrow> lvl \<le> lv_level ev"

lemma emitError_level: "lv_level (fst (emitError E r d e)) = WarnLevel"
  by (simp add: emitError_def split: prod.splits)

lemma rowEvent_written: "written lvl (rowEvent E e r d) \<longleftrightarrow> (if ro_phase r = phaseSkip then lvl = DebugLevel else lvl \<noteq> ErrorLevel)"
  by (cases lvl) (auto simp: written_def rowEvent_def emitSkip_def emitError_level less_eq_log_lvl_def)

lemma failures_written:
  "filter (written InfoLevel) (map (\<lambda>(r, d). rowEvent E e r d) rs) =
   map (\<lambda>(r, d). fst (emitError E r d e)) (filter (\<lambda>(r, d). ro_phase r \<noteq> phaseSkip) rs)"
  by (induction rs) (auto simp: rowEvent_written, simp_all add: rowEvent_def)

text \<open>A second pass renders nothing.\<close>

lemma emitError_rec: "el_rec (snd (emitError E r k e)) = el_rec e"
  by (auto simp: emitError_def bodyHash_def split: prod.splits option.splits if_splits)

lemma emitRows_rec: "el_rec (snd (emitRows E d rs e)) = el_rec e"
proof (induction rs arbitrary: e)
  case (Cons r rs)
  obtain v e1 where v: "emitError E r (if rs = [] then d else 0) e = (v, e1)" by force
  then have "el_rec e1 = el_rec e" using emitError_rec [of E r "if rs = [] then d else 0" e] by simp
  with Cons.IH [of e] Cons.IH [of e1] v show ?case by (cases rs) (auto simp: Let_def split: prod.splits)
qed simp

lemma emit_twice: "fst (Emit E (snd (Emit E e))) = []"
proof -
  have k: "el_rec (snd (emitRows E d rs e)) = el_rec e" for d rs by (rule emitRows_rec)
  have "el_rec (snd (Emit E e)) = el_rec e" "el_emitted (snd (Emit E e)) = length (Rows (el_rec e))"
    using k [of "Dropped (el_rec e)" "drop (el_emitted e) (Rows (el_rec e))"] by (auto simp: Emit_def split: prod.splits)
  then show ?thesis by (simp add: Emit_def split: prod.splits)
qed

text \<open>
  No line is forged: if quoting leaves no control byte, and the names this program makes itself have none, the message of
  an event has none, whatever the upstream's texts are.
\<close>

definition clean :: "string \<Rightarrow> bool" where
  "clean s \<longleftrightarrow> \<not> list_ex ctlByte s"

lemma clean_append [simp]: "clean (a @ b) \<longleftrightarrow> clean a \<and> clean b"
  by (simp add: clean_def)

lemma no_forged_line:
  assumes "\<And>t. clean (re_quote E t)" and "clean (el_requestID e)" "clean (ro_phase r)" "clean (ro_class r)" "clean (ro_fallback r)"
    "clean (itoa (ro_status r))"
  shows "clean (lv_msg (fst (emitError E r d e)))"
  using assms
  by (auto simp: emitError_def errorMsg_def bodyHash_def clean_def ctlByte_def of_char_eq_iff split: option.splits if_splits prod.splits)

end
