(* ===== verification/Lifecycle.thy ===== *)
theory Lifecycle
  imports Models PipelineProps ConfigStore
begin

text \<open>
  The process around the router (\<^verbatim>\<open>cmd/server/main.go\<close>, \<^verbatim>\<open>cmd/server/readiness.go\<close>): the start from the environment, the
  routes, the readiness probe, the health check the image runs, the tracking of client connections, and the shutdown.
  The http server of the standard library is a parameter of the shutdown: when its listener ends on its own, and how
  long \<^verbatim>\<open>Shutdown\<close> takes within the budget it is given. The start of the User-Agent sync and the
  log lines of the process are not part of the model.
\<close>

section \<open>Start\<close>

datatype boot = BootExit | BootServe env_config store

definition bootstrap ::
  "(string \<Rightarrow> string option) \<Rightarrow> (string \<Rightarrow> string + int) \<Rightarrow> load_env \<Rightarrow> (string \<Rightarrow> string + string) \<Rightarrow> log_lvl \<Rightarrow> boot" where
  "bootstrap env pd io readFile level = (case FromEnv env pd of
     (cfg, e # es) \<Rightarrow> BootExit
   | (cfg, []) \<Rightarrow>
       (case (if ec_config_path cfg \<noteq> [] then NewStore io (readFile (ec_config_path cfg)) (ec_config_poll cfg) level else Inr (NewDefault level)) of
          Inl _ \<Rightarrow> BootExit
        | Inr st \<Rightarrow> BootServe cfg (st\<lparr>st_level := ParseZerologLevel (rt_log_level (Get st))\<rparr>)))"

datatype command = CmdHealthcheck | CmdServe

definition dispatch :: "string list \<Rightarrow> command" where
  "dispatch args = (if 1 < length args \<and> args ! 1 = ''healthcheck'' then CmdHealthcheck else CmdServe)"

record http_server =
  hv_addr :: string
  hv_readHeader :: int
  hv_idle :: int
  hv_read :: int
  hv_write :: int

definition newHTTPServer :: "string \<Rightarrow> http_server" where
  "newHTTPServer addr = \<lparr>hv_addr = addr, hv_readHeader = 10 * second, hv_idle = 120 * second, hv_read = 0, hv_write = 0\<rparr>"

section \<open>Routes\<close>

datatype route = RChat | RResponses | RModels | ROptions | RHealthz | RReadyz

definition readyPath :: string where
  "readyPath = ''/readyz''"

text \<open>The patterns of the mux; \<^verbatim>\<open>/\<close> matches every path.\<close>

definition patterns :: "(string \<times> string \<times> route) list" where
  "patterns = [(''POST'', ''/v1/chat/completions'', RChat), (''POST'', ''/v1/responses'', RResponses), (''GET'', ''/v1/models'', RModels),
     (''OPTIONS'', ''/'', ROptions), (''GET'', ''/healthz'', RHealthz), (''GET'', readyPath, RReadyz)]"

text \<open>
  The mux on a path in clean form: a pattern of \<^verbatim>\<open>GET\<close> serves \<^verbatim>\<open>HEAD\<close> too; a path that only other methods reach is a
  405, and here every path is reached by \<^verbatim>\<open>OPTIONS\<close>.
\<close>

definition muxRoute :: "string \<Rightarrow> string \<Rightarrow> int + route" where
  "muxRoute meth path =
     (let onPath = filter (\<lambda>(m, p, h). p = path \<or> p = ''/'') patterns;
          hits = filter (\<lambda>(m, p, h). m = meth \<or> m = ''GET'' \<and> meth = ''HEAD'') onPath
      in case hits of (m, p, h) # _ \<Rightarrow> Inr h | [] \<Rightarrow> Inl (if onPath = [] then 404 else 405))"

lemma mux_routes:
  "muxRoute ''OPTIONS'' path = Inr ROptions" "muxRoute ''HEAD'' ''/healthz'' = Inr RHealthz" "muxRoute ''POST'' ''/v1/models'' = Inl 405"
  "muxRoute ''POST'' ''/v1/responses'' = Inr RResponses" "muxRoute ''GET'' ''/elsewhere'' = Inl 405"
  by (simp_all add: muxRoute_def patterns_def readyPath_def)

section \<open>Readiness\<close>

definition readyBody :: string where
  "readyBody = ''ok''"

definition serveReadyz :: "bool \<Rightarrow> string \<Rightarrow> http_reply" where
  "serveReadyz draining meth =
     (let h = gm_set ''Cache-Control'' ''no-store'' []; plain = gm_set ''Content-Type'' ''text/plain; charset=utf-8'' in
      if meth \<noteq> ''GET'' then \<lparr>hr_status = 405, hr_headers = plain (gm_set ''Allow'' ''GET'' h), hr_body = ''method not allowed''\<rparr>
      else if draining then \<lparr>hr_status = 503, hr_headers = plain h, hr_body = []\<rparr>
      else \<lparr>hr_status = 200, hr_headers = plain h, hr_body = readyBody\<rparr>)"

definition healthz :: http_reply where
  "healthz = \<lparr>hr_status = 200, hr_headers = [], hr_body = ''ok''\<rparr>"

definition readinessPropagation :: int where
  "readinessPropagation = 5 * second"

definition readinessHeadStart :: "int \<Rightarrow> int" where
  "readinessHeadStart grace =
     (let half = grace sdiv 2 in
      if half \<le> 0 then 0 else if readinessPropagation > half then half else readinessPropagation)"

text \<open>
  The listener's result arrives once, on a channel of one place: when it ends on its own, that long after the signal.
  \<open>first\<close> is the choice \<^verbatim>\<open>select\<close> makes when the timer and the result are ready together. The wait takes some time,
  and may have taken the result.
\<close>

definition awaitReadinessHeadStart :: "int \<Rightarrow> int option \<Rightarrow> bool \<Rightarrow> int \<times> bool" where
  "awaitReadinessHeadStart head ended first =
     (if head \<le> 0 then (0, False)
      else case ended of
        None \<Rightarrow> (head, False)
      | Some t \<Rightarrow> if t < head \<or> t = head \<and> first then (max 0 t, True) else (head, False))"

datatype serve_end = ServeNil | ServeClosed | ServeFailed

definition errServerExited :: "serve_end \<Rightarrow> bool" where
  "errServerExited e \<longleftrightarrow> e = ServeNil \<or> e = ServeClosed"

section \<open>The health check\<close>

text \<open>\<open>get\<close> is the probe's request: an error, or a status and the read of the body, itself failing or not.\<close>

definition runHealthcheck ::
  "(string \<Rightarrow> string option) \<Rightarrow> (string \<Rightarrow> string + int \<times> (string + string)) \<Rightarrow> string option" where
  "runHealthcheck env get =
     (let port = (if getenv env ''OCFP_PORT'' = [] then DefaultPort else getenv env ''OCFP_PORT'') in
      case get (''http://127.0.0.1:'' @ port @ readyPath) of
        Inl err \<Rightarrow> Some err
      | Inr (status, Inl err) \<Rightarrow> Some err
      | Inr (status, Inr sent) \<Rightarrow>
          (let body = take 1024 sent in
           if status \<noteq> 200 \<or> body \<noteq> readyBody
           then Some (readyPath @ '' status '' @ itoa status @ '' body_len '' @ itoa (int (length body)))
           else None))"

section \<open>Client connections\<close>

datatype conn_state = StateNew | StateActive | StateIdle | StateHijacked | StateClosed

type_synonym tracker = "nat list"

definition connState :: "nat \<Rightarrow> conn_state \<Rightarrow> tracker \<Rightarrow> tracker" where
  "connState c cs t = (case cs of
     StateNew \<Rightarrow> List.insert c t
   | StateActive \<Rightarrow> List.insert c t
   | StateIdle \<Rightarrow> removeAll c t
   | StateHijacked \<Rightarrow> removeAll c t
   | StateClosed \<Rightarrow> removeAll c t)"

text \<open>\<open>shut\<close> says which connections close without an error.\<close>

definition forceCloseAll :: "(nat \<Rightarrow> bool) \<Rightarrow> tracker \<Rightarrow> nat \<times> tracker" where
  "forceCloseAll shut t = (length (filter shut t), [])"

section \<open>Shutdown\<close>

datatype stop_act =
    ActDrain | ActStopStore | ActStopUA | ActUnready int | ActShutdown int | ActForceClose nat | ActExitError | ActComplete

text \<open>
  The http server as the shutdown meets it: when its listener ends on its own, if it does, and with what; how long its
  \<^verbatim>\<open>Shutdown\<close> takes for a budget and whether it fails; and the connections tracked when the budget is spent.
\<close>

record stop_world =
  sw_ended :: "int option"
  sw_first :: bool
  sw_end :: serve_end
  sw_shutdown :: "int \<Rightarrow> int \<times> bool"
  sw_tracked :: tracker
  sw_closes :: "nat \<Rightarrow> bool"

record stopping =
  sp_acts :: "(int \<times> stop_act) list"
  sp_server :: server
  sp_store :: store
  sp_tracked :: tracker

text \<open>
  The acts in order, each with the time since the signal; stopping the poller and the sync takes none. The last is the read of the listener's result: when the wait
  has taken it, nothing more is ever sent, and the process stays there.
\<close>

definition shutdown :: "stop_world \<Rightarrow> int \<Rightarrow> server \<Rightarrow> store \<Rightarrow> stopping" where
  "shutdown W grace sv st =
     (let head = readinessHeadStart grace;
          (waited, taken) = awaitReadinessHeadStart head (sw_ended W) (sw_first W);
          budget = grace - head;
          (took, failed) = sw_shutdown W budget;
          (closed, left) = (if failed then forceCloseAll (sw_closes W) (sw_tracked W) else (0, sw_tracked W));
          done_at = waited + took
      in \<lparr>sp_acts = [(0, ActDrain), (0, ActStopStore), (0, ActStopUA), (0, ActUnready head), (waited, ActShutdown budget)] @
            (if failed then [(done_at, ActForceClose closed)] else []) @
            (if taken then []
             else (if errServerExited (if sw_ended W = None then ServeClosed else sw_end W) then [] else [(done_at, ActExitError)]) @
               [(done_at, ActComplete)]),
          sp_server = Drain sv, sp_store = Stop st, sp_tracked = left\<rparr>)"

section \<open>What the process promises\<close>

lemma half_grace: "0 \<le> grace \<Longrightarrow> grace sdiv (2 :: int) = grace div 2" "grace \<le> 0 \<Longrightarrow> grace sdiv (2 :: int) \<le> 0"
  by (auto simp: signed_divide_int_def sgn_if)

text \<open>
  The head start of a shutdown is drawn from the grace and leaves at least half of it for the drain, never exceeds
  five seconds, and is none when there is no grace to draw from.
\<close>

theorem head_start_bounds:
  "0 \<le> readinessHeadStart grace \<and> readinessHeadStart grace \<le> 5 * second \<and> 2 * readinessHeadStart grace \<le> max 0 grace \<and>
   (readinessHeadStart grace = 5 * second \<longleftrightarrow> 10 * second \<le> grace)"
  using half_grace [of grace] by (cases "0 \<le> grace") (auto simp: readinessHeadStart_def readinessPropagation_def Let_def second_def)

lemma head_start_le: "0 \<le> grace \<Longrightarrow> 0 \<le> readinessHeadStart grace \<and> readinessHeadStart grace \<le> grace"
  using half_grace [of grace] by (auto simp: readinessHeadStart_def readinessPropagation_def Let_def second_def)

text \<open>What is tracked after any history: the connections whose last state is new or active.\<close>

fun lastState :: "nat \<Rightarrow> (nat \<times> conn_state) list \<Rightarrow> conn_state option" where
  "lastState c [] = None"
| "lastState c ((d, cs) # h) = (case lastState c h of None \<Rightarrow> if c = d then Some cs else None | s \<Rightarrow> s)"

definition track :: "(nat \<times> conn_state) list \<Rightarrow> tracker \<Rightarrow> tracker" where
  "track h t = fold (\<lambda>(c, cs). connState c cs) h t"

lemma connState_member: "d \<in> set (connState c cs t) \<longleftrightarrow> (if d = c then cs = StateNew \<or> cs = StateActive else d \<in> set t)"
  by (auto simp: connState_def split: conn_state.splits)

lemma track_member:
  "c \<in> set (track h t) \<longleftrightarrow> (case lastState c h of None \<Rightarrow> c \<in> set t | Some cs \<Rightarrow> cs = StateNew \<or> cs = StateActive)"
proof (induction h arbitrary: t)
  case (Cons x h)
  obtain d cs where x: "x = (d, cs)" by (cases x)
  from Cons [of "connState d cs t"] show ?case by (auto simp: x track_def connState_member split: option.splits)
qed (simp add: track_def)

lemma track_distinct: "distinct t \<Longrightarrow> distinct (track h t)"
  by (induction h arbitrary: t) (auto simp: track_def connState_def distinct_insert distinct_removeAll split: conn_state.splits)

text \<open>
  After any history of its hook the tracker holds each connection whose last state is new or active, once, and no other;
  and forcing the close closes every one of them, counts those that closed, and forgets them all.
\<close>

theorem tracked_exactly:
  "set (track h []) = {c. lastState c h = Some StateNew \<or> lastState c h = Some StateActive} \<and> distinct (track h []) \<and>
   forceCloseAll shut (track h []) = (card {c. (lastState c h = Some StateNew \<or> lastState c h = Some StateActive) \<and> shut c}, [])"
proof -
  have m: "set (track h []) = {c. lastState c h = Some StateNew \<or> lastState c h = Some StateActive}"
    by (auto simp: track_member split: option.splits)
  have d: "distinct (track h [])" by (rule track_distinct) simp
  have "length (filter shut (track h [])) = card (set (filter shut (track h [])))" using d by (metis distinct_card distinct_filter)
  also have "set (filter shut (track h [])) = {c. (lastState c h = Some StateNew \<or> lastState c h = Some StateActive) \<and> shut c}"
    using m by auto
  finally show ?thesis using m d by (simp add: forceCloseAll_def)
qed

text \<open>
  C16. A shutdown goes in one order: the server drains, the poller and the sync stop, readiness has been withdrawn for the
  whole head start when the listener is closed, unless the listener ended first; the drain gets what is left of the grace;
  everything happens within the grace; and the process completes exactly when the wait for the head start has not taken
  the listener's result.
\<close>

theorem shutdown_sequence:
  assumes "0 \<le> grace" and "\<And>b. 0 \<le> fst (sw_shutdown W b) \<and> fst (sw_shutdown W b) \<le> max 0 b"
  shows "let sp = shutdown W grace sv st; head = readinessHeadStart grace; (waited, taken) = awaitReadinessHeadStart head (sw_ended W) (sw_first W) in
    sv_draining (sp_server sp) \<and> Get (sp_store sp) = Get st \<and>
    take 5 (sp_acts sp) = [(0, ActDrain), (0, ActStopStore), (0, ActStopUA), (0, ActUnready head), (waited, ActShutdown (grace - head))] \<and>
    0 \<le> waited \<and> waited = (case sw_ended W of None \<Rightarrow> head | Some t \<Rightarrow> max 0 (min head t)) \<and>
    sorted (map fst (sp_acts sp)) \<and> list_all (\<lambda>(t, _). t \<le> grace) (sp_acts sp) \<and>
    (ActComplete \<in> snd ` set (sp_acts sp)) = (\<not> taken)"
proof -
  let ?h = "readinessHeadStart grace"
  obtain w k where w: "awaitReadinessHeadStart ?h (sw_ended W) (sw_first W) = (w, k)" by force
  obtain took failed where s: "sw_shutdown W (grace - ?h) = (took, failed)" by force
  have h: "0 \<le> ?h" "?h \<le> grace" using head_start_le [OF assms(1)] by simp_all
  have t: "0 \<le> took" "took \<le> grace - ?h" using assms(2) [of "grace - ?h"] s h by simp_all
  have wait: "0 \<le> w" "w \<le> ?h" "w = (case sw_ended W of None \<Rightarrow> ?h | Some t \<Rightarrow> max 0 (min ?h t))"
    using w h(1) by (auto simp: awaitReadinessHeadStart_def split: if_splits option.splits)
  show ?thesis using w s h t wait
    by (auto simp: shutdown_def Let_def Drain_def Stop_def Get_def numeral_eq_Suc split: prod.splits)
qed

lemma shutdown_hangs:
  assumes "sw_ended W = Some t" and "t < readinessHeadStart grace" and "0 < readinessHeadStart grace"
  shows "ActComplete \<notin> snd ` set (sp_acts (shutdown W grace sv st))"
  using assms by (auto simp: shutdown_def Let_def awaitReadinessHeadStart_def split: prod.splits)

definition sample_stop :: "int option \<Rightarrow> stop_world" where
  "sample_stop ended = \<lparr>sw_ended = ended, sw_first = True, sw_end = ServeClosed, sw_shutdown = (\<lambda>b. (max 0 b, True)),
     sw_tracked = [1, 2], sw_closes = (\<lambda>c. c = 1)\<rparr>"

theorem shutdown_sequence_witness:
  "sv_draining (sp_server (shutdown (sample_stop None) (4 * second) NewServer (NewDefault InfoLevel))) \<and>
   sp_acts (shutdown (sample_stop None) (4 * second) NewServer (NewDefault InfoLevel)) =
     [(0, ActDrain), (0, ActStopStore), (0, ActStopUA), (0, ActUnready (2 * second)), (2 * second, ActShutdown (2 * second)),
      (4 * second, ActForceClose 1), (4 * second, ActComplete)]"
proof -
  have "sv_draining (sp_server (shutdown (sample_stop None) (4 * second) NewServer (NewDefault InfoLevel)))"
    using shutdown_sequence [of "4 * second" "sample_stop None" NewServer "NewDefault InfoLevel"]
    by (simp add: sample_stop_def second_def Let_def split: prod.splits)
  moreover have "readinessHeadStart (4 * second) = 2 * second"
    using half_grace [of "4 * second"] by (simp add: readinessHeadStart_def readinessPropagation_def Let_def second_def)
  ultimately show ?thesis
    by (simp add: shutdown_def awaitReadinessHeadStart_def sample_stop_def forceCloseAll_def errServerExited_def second_def)
qed

section \<open>One flag\<close>

lemma drained_step: "srv_step q gu s s' \<Longrightarrow> sv_draining s \<Longrightarrow> sv_draining s'"
  by (erule srv_step_cases)
     (auto simp: clientForEgress_def Let_def onGeneration_def pruneClientsLocked_def Drain_def split: option.splits sum.splits prod.splits)

lemma drained_stays: "(srv_step q gu)\<^sup>*\<^sup>* s s' \<Longrightarrow> sv_draining s \<Longrightarrow> sv_draining s'"
  by (induction rule: rtranclp_induct) (auto dest: drained_step)

text \<open>Requests served one after the other.\<close>

fun serve :: "pipe_env \<Rightarrow> pipe_net \<Rightarrow> (client_request \<times> format) list \<Rightarrow> process \<Rightarrow> relay_out list \<times> process" where
  "serve P N [] st = ([], st)"
| "serve P N ((rq, source) # rqs) st =
     (let (out, st1) = relay P N rq source st; (outs, st2) = serve P N rqs st1 in (out # outs, st2))"

definition refused :: "codec \<Rightarrow> client_request \<Rightarrow> relay_out \<Rightarrow> bool" where
  "refused co rq out \<longleftrightarrow> ro_sent out = None \<and> ro_exec out = None \<and>
     ro_reply out = Replied (if rq_method rq = ''POST'' then writeError co 503 ''Server is shutting down'' else writeError co 405 ''Method not allowed'')"

lemma relay_drained:
  assumes "sv_draining (ps_server st)"
  shows "\<exists>out. relay P N rq source st = (out, st) \<and> refused (pe_codec P) rq out"
  using assms by (simp add: relay_def admit_def refused_def Let_def)

lemma serve_drained:
  "sv_draining (ps_server st) \<Longrightarrow> \<exists>outs. serve P N rqs st = (outs, st) \<and> list_all2 (\<lambda>(rq, _) out. refused (pe_codec P) rq out) rqs outs"
proof (induction rqs)
  case (Cons r rqs)
  obtain rq source where r: "r = (rq, source)" by (cases r)
  from relay_drained [OF Cons.prems, of P N rq source] Cons.IH [OF Cons.prems] show ?case by (auto simp: r)
qed simp

text \<open>
  C17. The probe and the request gate cannot disagree: the image's health check against this server's readiness passes exactly
  while the server is not draining, and the model list is then served; once it drains, which no later step of a server
  takes back, every request of any sequence is answered 503, or 405 for another method, sends nothing upstream and
  leaves the process as it was; and the liveness answer does not depend on it.
\<close>

theorem probe_and_gate:
  assumes "(srv_step q gu)\<^sup>*\<^sup>* (Drain sv) sv'"
  shows "(runHealthcheck env (\<lambda>_. Inr (hr_status (serveReadyz draining ''GET''), Inr (hr_body (serveReadyz draining ''GET'')))) = None) = (\<not> draining) \<and>
    hr_status (fst (HandleModels E draining rq)) = (if draining then 503 else 200) \<and>
    hr_status (serveReadyz (sv_draining sv') ''GET'') = 503 \<and> hr_status healthz = 200 \<and>
    (case serve P N rqs (st\<lparr>ps_server := sv'\<rparr>) of (outs, st') \<Rightarrow>
       st' = st\<lparr>ps_server := sv'\<rparr> \<and> list_all2 (\<lambda>(rq, _) out. refused (pe_codec P) rq out) rqs outs)"
proof -
  have d: "sv_draining sv'" using drained_stays [OF assms] by (simp add: Drain_def)
  obtain outs where "serve P N rqs (st\<lparr>ps_server := sv'\<rparr>) = (outs, st\<lparr>ps_server := sv'\<rparr>)"
      "list_all2 (\<lambda>(rq, _) out. refused (pe_codec P) rq out) rqs outs"
    using serve_drained [of "st\<lparr>ps_server := sv'\<rparr>" P N rqs] d by auto
  then show ?thesis using d
    by (simp add: runHealthcheck_def serveReadyz_def readyBody_def HandleModels_def modelsReply_def healthz_def Let_def)
qed

theorem probe_and_gate_witness:
  "hr_status (serveReadyz (sv_draining (Drain NewServer)) ''GET'') = 503 \<and>
   list_all2 (\<lambda>(rq, _) out. refused (pe_codec sample_pipe) rq out) [(sample_request, FormatChat)]
     (fst (serve sample_pipe sample_net [(sample_request, FormatChat)] (sample_process\<lparr>ps_server := Drain NewServer\<rparr>)))"
  using probe_and_gate [OF rtranclp.rtrancl_refl, where sv = NewServer and P = sample_pipe and N = sample_net
      and rqs = "[(sample_request, FormatChat)]" and st = sample_process]
  by (auto split: prod.splits)

text \<open>The start: a malformed duration or a configuration that does not load never serves.\<close>

lemma bootstrap_serves:
  assumes "bootstrap env pd io readFile level = BootServe cfg st"
  shows "FromEnv env pd = (cfg, [])"
    and "if ec_config_path cfg = [] then Get st = DefaultRuntime
         else \<exists>raw rt. readFile (ec_config_path cfg) = Inr raw \<and> LoadBytes io raw = Inr rt \<and> Get st = rt\<lparr>rt_generation := 1\<rparr>"
    and "st_level st = ParseZerologLevel (rt_log_level (Get st))"
  using assms
  by (auto simp: bootstrap_def NewDefault_def NewStore_def readStamped_def Get_def split: prod.splits list.splits sum.splits if_splits)

end
