(* ===== verification/Upkeep.thy ===== *)
theory Upkeep
  imports UserAgent ProxyConfig
begin

text \<open>
  What runs beside the requests: the loop that refreshes the client identity (\<^verbatim>\<open>StartSync\<close>, \<^verbatim>\<open>Style\<close> and \<^verbatim>\<open>Get\<close> of
  \<^verbatim>\<open>internal/identity/useragent.go\<close>), and the bounded read of a secondary body (\<^verbatim>\<open>ReadBoundedBody\<close> of
  \<^verbatim>\<open>internal/upstream/client.go\<close>), a race of the reader with a deadline. Times are nanoseconds since the start of each.
\<close>

section \<open>The identity loop\<close>

text \<open>A nil provider selects the first form.\<close>

definition Style :: "string option \<Rightarrow> string" where
  "Style provider = (case provider of None \<Rightarrow> ''v1'' | Some s \<Rightarrow> s)"

definition GetUA :: "string option \<Rightarrow> ua_cache \<Rightarrow> string" where
  "GetUA provider c = uaLocked (Style provider) c"

text \<open>
  A turn of the loop: the interval it reads, whether the stop wins the wait, and the round and clock readings of the
  refresh the turn makes if it makes one.
\<close>

record sync_turn =
  sy_want :: int
  sy_stopped :: bool
  sy_round :: gh_round
  sy_now1 :: int
  sy_now2 :: int

fun syncLoop :: "(ua_cache \<Rightarrow> ua_cache) \<Rightarrow> int \<Rightarrow> sync_turn list \<Rightarrow> ua_cache \<Rightarrow> (int \<times> gh_round) list \<times> ua_cache" where
  "syncLoop others t [] c = ([], c)"
| "syncLoop others t (y # ys) c =
     (if sy_stopped y then ([], c)
      else if sy_want y \<le> 0 then syncLoop others (t + second) ys c
      else (let c1 = snd (Warm others (sy_round y) (sy_now1 y) (sy_now2 y) [] True c);
                r = syncLoop others (t + sy_want y) ys c1
            in ((t + sy_want y, sy_round y) # fst r, snd r)))"

definition StartSync :: "(ua_cache \<Rightarrow> ua_cache) \<Rightarrow> sync_turn list \<Rightarrow> ua_cache \<Rightarrow> (int \<times> gh_round) list \<times> ua_cache" where
  "StartSync others = syncLoop others 0"

text \<open>Alone, a forced refresh is one whole round.\<close>

lemma ua_ok_warm:
  assumes "ua_ok (c, [], hist)" and "Warm (\<lambda>c. c) g now1 now2 style True c = (v, c')"
  shows "ua_ok (c', [], g # hist)"
proof -
  have idle: "\<not> uc_inflight c" using assms(1) by (auto simp: ua_ok_def split: if_splits)
  let ?c1 = "c\<lparr>uc_inflight := True\<rparr>"
  have "c' = warmEnd now2 (fetchDual g) ?c1" using assms(2) idle by (auto simp: Warm_def warmBegin_def Let_def)
  moreover have "ua_step (c, [], hist) (?c1, [g], hist)"
    by (rule ua_begin [where now = now1 and force = True]) (simp add: warmBegin_def idle)
  moreover have "ua_step (?c1, [g], hist) (warmEnd now2 (fetchDual g) ?c1, remove1 g [g], g # hist)" by (rule ua_end) simp
  ultimately show ?thesis using ua_ok_step assms(1) by (metis remove1.simps(2))
qed

lemma sync_cache:
  "ua_ok (c, [], hist) \<Longrightarrow> ua_ok (snd (syncLoop (\<lambda>c. c) t ys c), [], rev (map snd (fst (syncLoop (\<lambda>c. c) t ys c))) @ hist)"
proof (induction ys arbitrary: c t hist)
  case (Cons y ys)
  obtain v c1 where w: "Warm (\<lambda>c. c) (sy_round y) (sy_now1 y) (sy_now2 y) [] True c = (v, c1)" by force
  have "ua_ok (c1, [], sy_round y # hist)" by (rule ua_ok_warm [OF Cons.prems w])
  from Cons.IH [OF this] Cons.IH [OF Cons.prems] Cons.prems w show ?case by (simp add: Let_def)
qed simp

lemma sync_times: "sorted_wrt (<) (map fst (fst (syncLoop others t ys c))) \<and> list_all (\<lambda>(u, _). t < u) (fst (syncLoop others t ys c))"
proof (induction ys arbitrary: c t)
  case (Cons y ys)
  obtain v c1 where w: "Warm others (sy_round y) (sy_now1 y) (sy_now2 y) [] True c = (v, c1)" by force
  show ?case using Cons [of "t + sy_want y" c1] Cons [of "t + second" c] w
    by (auto simp: list_all_iff second_def Let_def)
qed simp

text \<open>The rounds a loop runs: one for each turn before the stop whose interval is positive.\<close>

lemma sync_rounds:
  "map snd (fst (syncLoop others t ys c)) = map sy_round (filter (\<lambda>y. 0 < sy_want y) (takeWhile (\<lambda>y. \<not> sy_stopped y) ys))"
  by (induction ys arbitrary: c t) (auto simp: Let_def)

text \<open>
  The loop follows the interval it reads: it runs one round for each turn before its stop that reads a positive interval,
  at increasing times, none otherwise; and a reader then gets, in either form, what the newest of these rounds resolved.
\<close>

theorem identity_follows_sync:
  "case StartSync (\<lambda>c. c) ys NewUserAgentCache of (fs, c) \<Rightarrow>
     map snd fs = map sy_round (filter (\<lambda>y. 0 < sy_want y) (takeWhile (\<lambda>y. \<not> sy_stopped y) ys)) \<and> sorted_wrt (<) (map fst fs) \<and>
     GetUA provider c = newestUA (Style provider) (rev (map snd fs))"
proof -
  have "ua_ok (NewUserAgentCache, [], [])" by (simp add: ua_ok_def NewUserAgentCache_def map_filter_simps)
  from sync_cache [OF this, of 0 ys] show ?thesis
    using sync_rounds [of "\<lambda>c. c" 0 ys NewUserAgentCache] sync_times [of "\<lambda>c. c" 0 ys NewUserAgentCache]
    by (auto simp: StartSync_def GetUA_def ua_ok_def uaLocked_def newestUA_def split: prod.splits list.splits)
qed

section \<open>The bounded read\<close>

text \<open>
  A body as its reader meets it: the chunks with their times of arrival, then the end of the body, with an error or
  without, if it comes. The reader stops at the limit without waiting for more.
\<close>

fun readLimited :: "nat \<Rightarrow> int \<Rightarrow> (int \<times> string) list \<Rightarrow> int option \<Rightarrow> int option \<times> string" where
  "readLimited n t [] fin = (if n = 0 then (Some t, []) else (fin, []))"
| "readLimited n t ((a, s) # cs) fin =
     (if n = 0 then (Some t, [])
      else (let r = readLimited (n - length s) a cs fin in (fst r, take n s @ snd r)))"

record bounded_read =
  bd_bytes :: "string option"
  bd_closed :: bool
  bd_at :: int

text \<open>\<open>ctx\<close> is when the caller's context ends; \<open>first\<close> is the choice of \<^verbatim>\<open>select\<close> when both are ready.\<close>

definition readBoundedBody :: "int option \<Rightarrow> int \<Rightarrow> bool \<Rightarrow> nat \<Rightarrow> (int \<times> string) list \<Rightarrow> int option \<Rightarrow> bounded_read" where
  "readBoundedBody ctx budget first limit cs fin =
     (let deadline = (case ctx of None \<Rightarrow> budget | Some e \<Rightarrow> min e budget);
          expired = \<lparr>bd_bytes = None, bd_closed = True, bd_at = deadline\<rparr>
      in case readLimited limit 0 cs fin of
           (None, _) \<Rightarrow> expired
         | (Some d, raw) \<Rightarrow> if d < deadline \<or> d = deadline \<and> first then \<lparr>bd_bytes = Some raw, bd_closed = False, bd_at = d\<rparr> else expired)"

lemma read_limited_bytes: "snd (readLimited n t cs fin) = take n (concat (map snd cs))"
  by (induction n t cs fin rule: readLimited.induct) (auto simp: Let_def)

text \<open>When the bytes suffice the read is over with the chunk that fills the limit; otherwise with the body.\<close>

lemma read_limited_time: "length (concat (map snd cs)) < n \<Longrightarrow> fst (readLimited n t cs fin) = fin"
  by (induction cs arbitrary: n t) (auto simp: Let_def)

text \<open>
  A secondary body costs a caller a bounded number of bytes and a bounded time, whatever the peer does: the read returns by
  the deadline; what it returns is the first bytes of what was sent, up to the limit; and it returns nothing, having closed
  the body, exactly when the reader was not done by then.
\<close>

theorem bounded_body_read:
  "let r = readBoundedBody ctx budget first limit cs fin; deadline = (case ctx of None \<Rightarrow> budget | Some e \<Rightarrow> min e budget) in
     bd_at r \<le> deadline \<and> bd_closed r = (bd_bytes r = None) \<and>
     bd_bytes r = (case fst (readLimited limit 0 cs fin) of
         Some d \<Rightarrow> if d < deadline \<or> d = deadline \<and> first then Some (take limit (concat (map snd cs))) else None
       | None \<Rightarrow> None)"
proof -
  obtain d raw where r: "readLimited limit 0 cs fin = (d, raw)" by force
  then have "raw = take limit (concat (map snd cs))" using read_limited_bytes [of limit 0 cs fin] by simp
  with r show ?thesis by (auto simp: readBoundedBody_def Let_def split: option.splits)
qed

end
