(* ===== verification/Spec2Isabelle.thy ===== *)
theory Spec2Isabelle
  imports ConfigStore Socks5Props Server LineScan PipelineProps Models Connect EvidenceLog Lifecycle Upkeep
begin

text \<open>
  opencode-free-proxy, a router in front of one upstream provider: a client speaks the Chat Completions or the Responses
  format of the OpenAI API; the router rewrites the request into the form the upstream's official client sends, picks an
  egress (a direct connection or a proxy) by a hot-reloaded routing configuration, fails over to another egress while that
  is provably safe, and relays or translates the reply, as a stream or folded into one document. The development models
  the Go code under \<^verbatim>\<open>src/\<close>; this theory imports every other one and holds the two statements that span
  the whole way of a request.

  A request takes this path. \<open>Pipeline\<close> (\<^verbatim>\<open>relay\<close> of \<^verbatim>\<open>internal/router/handler.go\<close>) decides what is answered on the spot
  (\<open>admit\<close>, with the replies of \<open>Bypass\<close>), rewrites an admitted body (\<open>prepareBody\<close>, \<open>upstreamShape\<close>) and routes it
  (\<open>relayPlan\<close> of \<open>Server\<close>): a route of the snapshot taken on arrival, its healthy heads, a plan. The executor (\<open>Executor\<close>)
  walks the plan, each dial one logical call of \<open>Client\<close>; \<open>deliver\<close> turns the outcome into the client's reply through
  \<open>StreamDrive\<close>, \<open>Forced\<close> or the non-stream conversions of \<open>NonStream\<close>.

  Theories, by part of the program:

  \<^item> Shared ground. \<open>Prelude\<close>: 64-bit integers, Go maps, chains of checks. \<open>GoStrings\<close>, \<open>PathMatch\<close>, \<open>Regex\<close>, \<open>Float64\<close>:
    the standard library's functions the code calls. \<open>Json\<close>: decoded values and \<^verbatim>\<open>internal/jsonx\<close>. \<open>Counting\<close>: counted holds.
  \<^item> Configuration (\<^verbatim>\<open>internal/config\<close>). \<open>ProxyConfig\<close>: the document and \<open>Validate\<close>. \<open>ConfigResolve\<close>: interpolation,
    \<open>Resolve\<close>, the snapshot and \<open>MatchRoute\<close>, the environment. \<open>ConfigStore\<close>: loading, the store, the poller.
  \<^item> Routing (\<^verbatim>\<open>internal/routing\<close>, \<^verbatim>\<open>internal/health\<close>, \<^verbatim>\<open>internal/upstream/limits.go\<close>). \<open>Scheduler\<close>, \<open>WrrFairness\<close>,
    \<open>Planning\<close>: plans and their rotation. \<open>Selector\<close>: the selection of the next egress. \<open>Health\<close>: streaks, cooldowns, pins.
    \<open>Limiter\<close>: slots.
  \<^item> Upstream (\<^verbatim>\<open>internal/upstream\<close>). \<open>Provenance\<close>: failure classes and the traces behind them. \<open>Evidence\<close>: the rows of a
    request. \<open>Client\<close>, \<open>ClientProps\<close>: one logical call with its redirects. \<open>Executor\<close>, \<open>ExecutorProps\<close>: failover. \<open>Socks5\<close>,
    \<open>Socks5Props\<close>, \<open>Connect\<close>: the dialers and the TLS settings. \<open>LineScan\<close>: the scanner of streams. \<open>Upkeep\<close>: the bounded
    read of a secondary body, and the identity loop. \<open>UpstreamRequest\<close>: the body and headers that leave.
  \<^item> Identity and cloaking (\<^verbatim>\<open>internal/identity\<close>, \<^verbatim>\<open>internal/cloak\<close>). \<open>SessionId\<close>, \<open>SessionResolver\<close>, \<open>UserAgent\<close>, \<open>Cloak\<close>,
    \<open>Thinking\<close>.
  \<^item> Bodies (\<^verbatim>\<open>internal/translate\<close>, \<^verbatim>\<open>internal/caps\<close>). \<open>Prenorm\<close>, \<open>PrenormProps\<close>: repairs. \<open>Caps\<close>, \<open>Modality\<close>: what a model
    cannot read. \<open>ReqTranslate\<close>, \<open>ReqTranslateProps\<close>: requests of one format as requests of the other.
  \<^item> Streams (\<^verbatim>\<open>internal/translate\<close>, \<^verbatim>\<open>internal/relay\<close>, \<^verbatim>\<open>internal/usage\<close>). \<open>Chunk\<close>, \<open>Sse\<close>, \<open>Usage\<close>: chunks, frames, token counts.
    \<open>ChatToResp\<close>, \<open>ChatToRespProps\<close>, \<open>RespToChat\<close>: the two stream translators. \<open>Passthrough\<close>, \<open>TranslateRelay\<close>: the relays.
    \<open>NonStream\<close>, \<open>NonStreamProps\<close>: streams folded into one answer.
  \<^item> Router (\<^verbatim>\<open>internal/router\<close>). \<open>ToolDedupe\<close>, \<open>Bypass\<close>, \<open>StreamDrive\<close>, \<open>Forced\<close>, \<open>Server\<close>, \<open>Pipeline\<close>, \<open>PipelineProps\<close>, \<open>Models\<close>,
    \<open>EvidenceLog\<close>.
  \<^item> Process (\<^verbatim>\<open>cmd/server\<close>). \<open>Lifecycle\<close>: start, routes, readiness, shutdown.

  State and operations. A struct is a record, its methods functions that return the record changed; a Go string is the
  list of its bytes, a map an association list with distinct keys, a decoded document a \<^typ>\<open>json\<close>, a pointer that may be
  nil an option, an instant or a duration an integer of nanoseconds. Integers wrap at 64 bits wherever the result of the code's arithmetic can
  leave them. An error is a value of a sum or an option, a panic \<open>None\<close> or a constructor of its own. What other requests do
  meanwhile is a function applied between the steps of a request (\<open>pn_others\<close>, \<open>xe_reg\<close>, \<open>xe_slots\<close>), or the step relation
  of the component: the poller, the limiter, the registry, the client cache, the scanner.

  Interfaces are locales, each interpreted on the definitions of the model: \<open>snapshot_source\<close> (what a store promises its
  readers; \<open>cfg_store\<close>), \<open>hold_counter\<close> (paired holds; \<open>slots\<close> of the limiter and \<open>pins\<close> of the registry), \<open>egress_selector\<close>
  (what the executor relies on; \<open>plan_sel\<close>), \<open>line_relay\<close> (what the scanner drives; \<open>pass\<close> and \<open>trans\<close>). Log levels are an
  instance of \<open>linorder\<close>.

  What the groups of lemmas show. Safety of a re-send: the provenance of a failure decides a failover, and no request byte is
  written by any dial but the last; a client that follows redirects itself stays on its host. Resources: a request leaves
  slots and pins counting what the others hold by then, where the others may take and give back at every point between two
  steps of the request (for slots while every egress keeps one cap), described by a family of possible holdings per point
  that survives the others' turn with whatever the request holds beside it. Configuration: validation is exact, a snapshot
  is well formed, generations are monotone. Fairness and completeness of plans. Requests: a conversation survives its
  translation, where both documents are read by functions of their own, no tool call dangles, no unreadable medium and no private marker leaves. Streams: well-formed events, the exact
  text and closing of a forwarded stream, the relay refines the translation of the chunks. Readers: the scanner delivers the lines of the body and ends, the bounded
  reads keep their bounds. Dialers: what the bytes on the wire mean and what a failure proves. Process: readiness and the request gate
  are one flag, a shutdown stays within its grace.

  Termination. No definition has fuel: the redirect walk descends on the redirects left, the failover on the rest of the plan,
  the loops of the string functions on the text. The scanner is a relation; a measure of the body bounds its runs.

  Parameters, where the code relies on something not under \<^verbatim>\<open>src/\<close> or outside the process: \<^verbatim>\<open>net/url\<close>, YAML and JSON
  codecs and the decoding into structs, SHA-256, random bytes, \<^verbatim>\<open>time.ParseDuration\<close>, Unicode case mapping and \<^verbatim>\<open>EqualFold\<close>, the
  rounding, parsing and printing of float64 and its conversion to int64, the text of \<^verbatim>\<open>%q\<close> and \<^verbatim>\<open>%v\<close>, IP addresses and their
  lookup, \<^verbatim>\<open>http.ReadResponse\<close>, the TLS libraries, the iteration order of maps, clocks, the file system, GitHub's answers and
  the network. A statement holds for all of them unless it names what it needs, and has then a concrete witness.

  Not modelled: the construction of the zerolog logger (\<^verbatim>\<open>internal/logging\<close>) and the lines that are only logged, the inside of
  \<^verbatim>\<open>net/http\<close> (pools, timeouts of a transport; the redirects it follows for the direct client appear as the requests of the
  parameter \<open>w_library\<close>, with no promise about their hosts), the tickers that call the modelled sweeps, the recovery of a panic by the
  http server, and the lookup of values in a context. They hold no decision of the program beyond the parameters above.
\<close>

section \<open>A request from arrival to verdict\<close>

text \<open>The walk a routed request makes, unfolded once.\<close>

lemma relayRoute_executed:
  assumes "relayRoute env others clk rt p s = (Executed plan res, s')"
  obtains route heads sc sc' sh where "MatchRoute rt (pr_streaming p) (pr_body_bytes p) (pr_model p) = Some route"
    and "list_all (servesRequest rt p) heads" and "heads \<noteq> []" and "set heads \<subseteq> set (r_egress route)"
    and "distinct (r_egress route) \<longrightarrow> distinct heads"
    and "Plan rt route heads sc = Some (plan, sc')"
    and "res = ExecuteObserved env plan (attemptPolicy rt (PolicyFromSnapshot rt) heads) sh NewRecorder"
proof -
  obtain route where m: "MatchRoute rt (pr_streaming p) (pr_body_bytes p) (pr_model p) = Some route"
    using assms by (cases "MatchRoute rt (pr_streaming p) (pr_body_bytes p) (pr_model p)") (auto simp: relayRoute_def relayPlan_def)
  define s0 where "s0 = others 0 s"
  define s2 where "s2 = others 2 (onGeneration rt (others 1
     (s0\<lparr>sv_health := map_option (Pin (routeHealthKeys rt route)) (sv_health s0)\<rparr>)))"
  define heads where "heads = routeHeads clk rt route p (PolicyFromSnapshot rt) s2"
  have h: "heads = filter (headOk clk rt p (PolicyFromSnapshot rt) s2) (r_egress route)"
    by (simp add: heads_def routeHeads_filter)
  have n: "heads \<noteq> []" and r: "\<exists>sc sc'. sv_sched (others 3 s2) = Some sc \<and> Plan rt route heads sc = Some (plan, sc') \<and>
      res = ExecuteObserved env plan (attemptPolicy rt (PolicyFromSnapshot rt) heads)
        (sv_health (others 3 s2), sv_slots (others 3 s2)) NewRecorder"
    using assms
    by (auto simp: relayRoute_def relayPlan_def relayExec_def m Let_def s0_def s2_def heads_def split: if_splits option.splits prod.splits)
  have "list_all (servesRequest rt p) heads" "set heads \<subseteq> set (r_egress route)" "distinct (r_egress route) \<longrightarrow> distinct heads"
    by (auto simp: h list_all_iff dest: headOk_serves)
  with r show thesis using that [OF m _ n] by blast
qed

lemma dialed_in_plan:
  assumes "distinct (pl_attempts plan)"
  shows "set (map fst (dials (xr_log (ExecuteObserved env plan pol sh rec)))) \<subseteq> set (pl_attempts plan)"
proof -
  obtain rest where "visited (xr_log (ExecuteObserved env plan pol sh rec)) @ rest = pl_attempts plan"
    using exec_covered [OF assms, of pol env sh rec] by (auto simp: covered_def)
  then have "set (visited (xr_log (ExecuteObserved env plan pol sh rec))) \<subseteq> set (pl_attempts plan)"
    by (metis set_append Un_upper1)
  then show ?thesis using dials_visited by blast
qed

lemma sample_executed:
  "\<exists>plan res s'. relayRoute sample_env (\<lambda>_ t. t) (\<lambda>_. 0) DefaultRuntime sample_profile NewServer = (Executed plan res, s')"
  using sample_planned by (force simp: relayRoute_def split: prod.splits)

section \<open>Properties\<close>

text \<open>
  Routing, planning and failover compose. On a well-formed snapshot, whatever the network and the
  other requests do, a routed request dials only egresses of the one route that matched it in the
  snapshot it arrived under, each of them enabled and able to take its model, its size and its streaming
  mode, none twice, at most the configured number of them, and no request byte was written by any dial
  but the last.
\<close>

theorem relay_end_to_end:
  assumes "relayRoute env others clk rt p s = (Executed plan res, s')" and "wf_runtime rt"
  shows "\<exists>route. MatchRoute rt (pr_streaming p) (pr_body_bytes p) (pr_model p) = Some route \<and>
     list_all (\<lambda>(i, d). i \<in> set (r_egress route) \<and> servesRequest rt p i) (dials (xr_log res)) \<and>
     distinct (map fst (dials (xr_log res))) \<and>
     int (length (dials (xr_log res))) \<le> fb_max_attempts (rt_fallback rt) \<and>
     list_all (\<lambda>(i, d). \<not> wrote_ever (cr_events d)) (butlast (dials (xr_log res)))"
proof -
  obtain route heads sc sc' sh where m: "MatchRoute rt (pr_streaming p) (pr_body_bytes p) (pr_model p) = Some route"
    and h: "list_all (servesRequest rt p) heads" "set heads \<subseteq> set (r_egress route)"
    and d: "distinct (r_egress route) \<longrightarrow> distinct heads" and pl: "Plan rt route heads sc = Some (plan, sc')"
    and res: "res = ExecuteObserved env plan (attemptPolicy rt (PolicyFromSnapshot rt) heads) sh NewRecorder"
    using relayRoute_executed [OF assms(1)] by metis
  let ?pol = "attemptPolicy rt (PolicyFromSnapshot rt) heads"
  have "route \<in> set (rt_routes rt)" using MatchRoute_mem [OF m] by simp
  with assms(2) have dh: "distinct heads" using d by (simp add: wf_runtime_def wf_route_def)
  have sub: "distinct (pl_attempts plan)" "set (pl_attempts plan) \<subseteq> set heads"
    using Plan_shape [OF pl dh] dh by (auto split: if_splits dest: mset_eq_imp_distinct_iff mset_eq_setD)
  have hist: "history_ok ?pol res" unfolding res by (rule exec_history)
  have cov: "covered ?pol plan res" unfolding res by (rule exec_covered [OF sub(1)])
  have "distinct (visited (xr_log res))" using cov sub(1) by (metis covered_def distinct_append)
  then have dd: "distinct (map fst (dials (xr_log res)))" by (rule dials_distinct)
  have dm: "set (map fst (dials (xr_log res))) \<subseteq> set heads"
    using dialed_in_plan [OF sub(1)] sub(2) unfolding res by blast
  obtain b where "fb_enabled (rt_fallback rt) = Some b" "1 \<le> fb_max_attempts (rt_fallback rt)"
    using assms(2) by (auto simp: wf_runtime_def)
  then have "Budget ?pol \<le> fb_max_attempts (rt_fallback rt)" by (simp add: attemptPolicy_budget)
  with hist have "int (length (dials (xr_log res))) \<le> fb_max_attempts (rt_fallback rt)"
    by (simp add: history_ok_def)
  moreover have "list_all (\<lambda>(i, d). \<not> wrote_ever (cr_events d)) (butlast (dials (xr_log res)))"
    using hist by (auto simp: history_ok_def left_behind_def list_all_iff)
  moreover have "list_all (\<lambda>(i, d). i \<in> set (r_egress route) \<and> servesRequest rt p i) (dials (xr_log res))"
    using dm h by (fastforce simp: list_all_iff)
  ultimately show ?thesis using m dd by blast
qed

theorem relay_end_to_end_witness:
  "\<exists>plan res s'. relayRoute sample_env (\<lambda>_ t. t) (\<lambda>_. 0) DefaultRuntime sample_profile NewServer = (Executed plan res, s') \<and>
     int (length (dials (xr_log res))) \<le> fb_max_attempts (rt_fallback DefaultRuntime)"
proof -
  obtain plan res s' where r: "relayRoute sample_env (\<lambda>_ t. t) (\<lambda>_. 0) DefaultRuntime sample_profile NewServer = (Executed plan res, s')"
    using sample_executed by blast
  from relay_end_to_end [OF r DefaultRuntime_wf] r show ?thesis by blast
qed

text \<open>
  C2. The handler composes. On a well-formed snapshot, whatever the client sends, the network does and the other requests
  do, a request is dialed only after it was admitted, only on egresses of the one route that matched its clean model, its
  size and its streaming mode in the snapshot it arrived under, each of them enabled and able to take it, none twice, at
  most the configured number of them, and no request byte was written by any dial but the last.
\<close>

theorem handler_end_to_end:
  assumes "relay P N rq source st = (out, st')" and "ro_exec out = Some res" and "wf_runtime (pn_rt N)"
  shows "\<exists>p seq route. admit P (sv_draining (ps_server st)) rq source (ps_seq st) = (Admitted p, seq) \<and>
     MatchRoute (pn_rt N) (pp_streaming p) (pp_bytes p) (pp_cleanModel p) = Some route \<and>
     list_all (\<lambda>(i, d). i \<in> set (r_egress route) \<and> servesRequest (pn_rt N) (profileOf p) i) (dials (xr_log res)) \<and>
     distinct (map fst (dials (xr_log res))) \<and>
     int (length (dials (xr_log res))) \<le> fb_max_attempts (rt_fallback (pn_rt N)) \<and>
     list_all (\<lambda>(i, d). \<not> wrote_ever (cr_events d)) (butlast (dials (xr_log res)))"
proof -
  obtain p seq env plan sv where a: "admit P (sv_draining (ps_server st)) rq source (ps_seq st) = (Admitted p, seq)"
    and r: "relayRoute env (pn_others N) (pn_clk N) (pn_rt N) (profileOf p) (ps_server st) = (Executed plan res, sv)"
    using executed_route [OF assms(1,2)] by blast
  from relay_end_to_end [OF r assms(3)] a show ?thesis by (auto simp: profileOf_def)
qed

theorem handler_end_to_end_witness:
  "\<exists>out st' res. relay sample_pipe sample_net sample_request FormatChat sample_process = (out, st') \<and> ro_exec out = Some res \<and>
     int (length (dials (xr_log res))) \<le> fb_max_attempts (rt_fallback DefaultRuntime)"
proof -
  obtain out st' res where r: "relay sample_pipe sample_net sample_request FormatChat sample_process = (out, st')" "ro_exec out = Some res"
    using sample_sent by blast
  have rt: "pn_rt sample_net = DefaultRuntime" by (simp add: sample_net_def)
  have "wf_runtime (pn_rt sample_net)" unfolding rt by (rule DefaultRuntime_wf)
  from handler_end_to_end [OF r this] r show ?thesis unfolding rt by blast
qed

end
